(* ===== verification/Prelude.thy ===== *)
theory Prelude
  imports Main "HOL-Library.Word" "HOL-Library.Multiset"
begin

text \<open>
  Shared vocabulary of the development: the machine integer types of the C++ code, the
  character classes of \<open><cctype>\<close> in the "C" locale, the conversions between \<open>char\<close> and
  bytes, and the list and word lemmas that the component theories rely on.
\<close>

section \<open>Machine types\<close>

type_synonym u8 = "8 word"
type_synonym u16 = "16 word"
type_synonym u32 = "32 word"
type_synonym u64 = "64 word"

named_theorems layout_simps "unfolding rules for the byte layout of an emitted image"
named_theorems consume_intros "how many characters a scanner step consumes"

text \<open>
  A \<open>static_cast<int32_t>\<close> of a non-negative \<open>size_t\<close>: the low 32 bits read as two's complement.
\<close>

definition to_i32 :: "nat \<Rightarrow> int" where
  "to_i32 n = sint (of_nat n :: 32 word)"

lemma to_i32_id [simp]: "n < 2 ^ 31 \<Longrightarrow> to_i32 n = int n"
  by (simp add: to_i32_def signed_of_nat signed_take_bit_int_eq_self)

text \<open>A \<open>static_cast<uint32_t>\<close> of a \<open>size_t\<close>: the low 32 bits.\<close>

definition to_u32 :: "nat \<Rightarrow> u32" where
  "to_u32 n = of_nat n"

lemma unat_to_u32 [simp]: "n < 2 ^ 32 \<Longrightarrow> unat (to_u32 n) = n"
  by (simp add: to_u32_def unat_of_nat take_bit_nat_eq_self)

lemma to_u32_eq_0_iff [simp]: "n < 2 ^ 32 \<Longrightarrow> to_u32 n = 0 \<longleftrightarrow> n = 0"
  using unat_to_u32 [of n] by (auto simp: to_u32_def)

lemma to_u32_unat [simp]: "to_u32 (unat w) = w"
  by (simp add: to_u32_def)

lemma to_u32_inject: "m < 2 ^ 32 \<Longrightarrow> n < 2 ^ 32 \<Longrightarrow> to_u32 m = to_u32 n \<longleftrightarrow> m = n"
  by (metis unat_to_u32)

lemma unat_gt_0_iff: "0 < unat (w :: 'a::len word) \<longleftrightarrow> w \<noteq> 0"
  by (simp add: word_neq_0_conv unat_gt_0)

text \<open>A 1-based id that passes the range check indexes the vector.\<close>

lemma unat_pred_less: "i \<noteq> 0 \<Longrightarrow> \<not> n < unat (i :: 'a::len word) \<Longrightarrow> unat i - Suc 0 < n"
  using unat_gt_0_iff [of i] by simp

section \<open>Characters\<close>

definition code :: "char \<Rightarrow> nat" where
  "code c = of_char c"

definition isdigit :: "char \<Rightarrow> bool" where
  "isdigit c = (48 \<le> code c \<and> code c \<le> 57)"

definition isxdigit :: "char \<Rightarrow> bool" where
  "isxdigit c = (isdigit c \<or> (65 \<le> code c \<and> code c \<le> 70) \<or> (97 \<le> code c \<and> code c \<le> 102))"

definition isalpha :: "char \<Rightarrow> bool" where
  "isalpha c = ((65 \<le> code c \<and> code c \<le> 90) \<or> (97 \<le> code c \<and> code c \<le> 122))"

definition isalnum :: "char \<Rightarrow> bool" where
  "isalnum c = (isalpha c \<or> isdigit c)"

definition isspace :: "char \<Rightarrow> bool" where
  "isspace c = (code c = 32 \<or> (9 \<le> code c \<and> code c \<le> 13))"

abbreviation NUL :: char where "NUL \<equiv> CHR 0x00"
abbreviation HT :: char where "HT \<equiv> CHR 0x09"
abbreviation LF :: char where "LF \<equiv> CHR 0x0A"
abbreviation VT :: char where "VT \<equiv> CHR 0x0B"
abbreviation FF :: char where "FF \<equiv> CHR 0x0C"
abbreviation CR :: char where "CR \<equiv> CHR 0x0D"
abbreviation SP :: char where "SP \<equiv> CHR 0x20"
abbreviation DQ :: char where "DQ \<equiv> CHR 0x22"
abbreviation SQ :: char where "SQ \<equiv> CHR 0x27"
abbreviation BSL :: char where "BSL \<equiv> CHR 0x5C"

text \<open>The value of a digit character, \<open>c - '0'\<close>.\<close>

definition digit_value :: "char \<Rightarrow> nat" where
  "digit_value c = code c - 48"

text \<open>\<open>std::to_string\<close> of an integer.\<close>

fun show_nat :: "nat \<Rightarrow> string" where
  "show_nat n = (if n < 10 then [char_of (48 + n)] else show_nat (n div 10) @ [char_of (48 + n mod 10)])"

declare show_nat.simps [simp del]

definition show_int :: "int \<Rightarrow> string" where
  "show_int i = (if i < 0 then CHR ''-'' # show_nat (nat (- i)) else show_nat (nat i))"

lemma show_nat_digits: "show_nat n \<noteq> [] \<and> list_all isdigit (show_nat n)"
proof (induction n rule: show_nat.induct)
  case (1 n)
  have "isdigit (char_of (48 + k :: nat))" if "k < 10" for k
    using that by (simp add: isdigit_def code_def)
  with 1 show ?case by (subst (1 2) show_nat.simps) auto
qed

lemma isdigit_isalnum: "isdigit c \<Longrightarrow> isalnum c"
  by (simp add: isalnum_def)

lemma isalpha_isalnum: "isalpha c \<Longrightarrow> isalnum c"
  by (simp add: isalnum_def)

lemma isdigit_not_isalpha: "isdigit c \<Longrightarrow> \<not> isalpha c"
  by (auto simp: isdigit_def isalpha_def)

lemmas char_class_defs = isdigit_def isxdigit_def isalpha_def isalnum_def isspace_def code_def

section \<open>Lists\<close>

lemma takeWhile_append_all:
  "\<forall>x\<in>set xs. P x \<Longrightarrow> takeWhile P (xs @ ys) = xs @ takeWhile P ys"
  by (induction xs) auto

lemma drop_eq_Cons_nth: "i < length xs \<Longrightarrow> drop i xs = xs ! i # drop (Suc i) xs"
  by (simp add: Cons_nth_drop_Suc)

lemma take_take_drop_append:
  "take m (drop i xs) @ take n (drop (i + m) xs) = take (m + n) (drop i xs)"
  by (simp add: take_add add.commute)

lemma nth_append_snoc [simp]: "i < length xs \<Longrightarrow> (xs @ [y]) ! i = xs ! i"
  by (simp add: nth_append)

lemma takeWhile_eq_take_length: "takeWhile P xs = take (length (takeWhile P xs)) xs"
  by (metis append_eq_conv_conj takeWhile_dropWhile_id)

lemma map_list_update_same: "f y = f (xs ! n) \<Longrightarrow> map f (xs[n := y]) = map f xs"
  by (cases "n < length xs") (simp_all add: map_update list_update_beyond list_update_same_conv)

text \<open>Removing an element by overwriting it with the last one and dropping the last one.\<close>

lemma mset_swap_remove:
  assumes "Suc i < length xs"
  shows "mset xs = add_mset (xs ! i) (mset (butlast (xs[i := xs ! (length xs - 1)])))"
proof -
  let ?ys = "butlast xs" and ?l = "xs ! (length xs - 1)"
  from assms have "xs \<noteq> []" by auto
  then have split: "xs = ?ys @ [?l]" by (metis append_butlast_last_id last_conv_nth)
  have i: "i < length ?ys" "?ys ! i = xs ! i" using assms by (simp_all add: nth_butlast)
  have "butlast (xs[i := ?l]) = ?ys[i := ?l]" using assms by (auto simp: butlast_list_update)
  then have "mset (butlast (xs[i := ?l])) = add_mset ?l (mset ?ys - {#xs ! i#})"
    using i by (simp add: mset_update)
  moreover have "xs ! i \<in># mset ?ys" using i by (metis nth_mem_mset)
  moreover have "mset xs = add_mset ?l (mset ?ys)" by (subst split) simp
  ultimately show ?thesis by (simp add: insert_DiffM2)
qed

text \<open>Reading a NUL-terminated string out of a byte arena.\<close>

lemma takeWhile_NUL_slice:
  assumes "off + n < length bs" "bs ! (off + n) = z" "z \<notin> set (take n (drop off bs))"
  shows "takeWhile (\<lambda>c. c \<noteq> z) (drop off bs) = take n (drop off bs)"
proof -
  let ?rest = "drop off bs"
  from assms(1) have "n < length ?rest" by simp
  then have "?rest = take n ?rest @ ?rest ! n # drop (Suc n) ?rest"
    by (rule id_take_nth_drop)
  moreover from assms have "?rest ! n = z" by simp
  ultimately have split: "?rest = take n ?rest @ z # drop (Suc n) ?rest" by simp
  have "\<forall>c \<in> set (take n ?rest). c \<noteq> z" using assms(3) by auto
  then have "takeWhile (\<lambda>c. c \<noteq> z) (take n ?rest @ z # drop (Suc n) ?rest) = take n ?rest"
    by (simp add: takeWhile_append_all)
  then show ?thesis by (simp only: split [symmetric])
qed

end
