(* ===== verification/Byte_Encoding.thy ===== *)
theory Byte_Encoding
  imports Prelude
begin

text \<open>
  Little-endian byte encodings. The object writer (\<open>backend/mir/object/elf_writer.cpp\<close>), the RV64
  line assembler and \<open>c4c-objdump\<close> each append or read 16-, 32- and 64-bit words byte by byte; this
  theory holds the appending side, the inverse of it on byte lists, and the lemmas that relate both
  to positions in a larger image.
\<close>

unbundle bit_operations_syntax

section \<open>Appending words\<close>

definition append_u16 :: "u8 list \<Rightarrow> u16 \<Rightarrow> u8 list" where
  "append_u16 out v = out @ [ucast (v AND 0xff), ucast (drop_bit 8 v AND 0xff)]"

definition append_u32 :: "u8 list \<Rightarrow> u32 \<Rightarrow> u8 list" where
  "append_u32 out v = out @ map (\<lambda>shift. ucast (drop_bit shift v AND 0xff)) [0, 8, 16, 24]"

definition append_u64 :: "u8 list \<Rightarrow> u64 \<Rightarrow> u8 list" where
  "append_u64 out v = out @ map (\<lambda>shift. ucast (drop_bit shift v AND 0xff)) [0, 8, 16, 24, 32, 40, 48, 56]"

definition append_i64 :: "u8 list \<Rightarrow> u64 \<Rightarrow> u8 list" where
  "append_i64 out v = append_u64 out v"

section \<open>The value of a little-endian byte sequence\<close>

text \<open>
  The readers of \<open>c4c-objdump\<close> \<open>or\<close> the shifted bytes into an accumulator; \<open>or_bytes\<close> is that loop
  over a list of bytes.
\<close>

fun or_bytes :: "nat \<Rightarrow> u8 list \<Rightarrow> 'a::len word \<Rightarrow> 'a word" where
  "or_bytes shift [] v = v"
| "or_bytes shift (b # bs) v = or_bytes (shift + 8) bs (v OR push_bit shift (ucast b))"

lemma ucast_low_byte [simp]: "(ucast ((v :: 'a::len word) AND 0xff) :: u8) = ucast v"
proof -
  have "(0xff :: 'a word) = mask 8" by (simp add: mask_eq_exp_minus_1)
  then have "v AND 0xff = take_bit 8 v" by (simp add: take_bit_eq_mask)
  then show ?thesis by (auto intro: bit_word_eqI simp: bit_simps)
qed

text \<open>The bytes of a word, lowest first, and the word they stand for.\<close>

definition le_bytes :: "nat \<Rightarrow> 'a::len word \<Rightarrow> u8 list" where
  "le_bytes k v = map (\<lambda>i. ucast (drop_bit (8 * i) v)) [0..<k]"

lemma length_le_bytes [simp]: "length (le_bytes k v) = k"
  by (simp add: le_bytes_def)

lemma bit_or_bytes:
  "n < LENGTH('a) \<Longrightarrow> bit (or_bytes s bs (a :: 'a::len word)) n \<longleftrightarrow>
     bit a n \<or> (s \<le> n \<and> (n - s) div 8 < length bs \<and> bit (bs ! ((n - s) div 8)) ((n - s) mod 8))"
proof (induction s bs a rule: or_bytes.induct)
  case (2 s b bs v)
  have bounds: "bit b (n - s) \<Longrightarrow> n - s < 8" by (auto dest: bit_imp_le_length)
  show ?case
  proof (cases "s \<le> n \<and> 8 \<le> n - s")
    case True
    then have "(n - s) div 8 = Suc ((n - (s + 8)) div 8)" "(n - s) mod 8 = (n - (s + 8)) mod 8"
      by (simp_all add: le_div_geq le_mod_geq)
    with True 2 bounds show ?thesis by (auto simp: bit_simps)
  next
    case False
    with 2 show ?thesis by (auto simp: bit_simps)
  qed
qed simp

lemma or_bytes_le_bytes: "8 * k = LENGTH('a) \<Longrightarrow> or_bytes 0 (le_bytes k v) 0 = (v :: 'a::len word)"
proof (rule bit_word_eqI)
  fix n assume k: "8 * k = LENGTH('a)" and n: "n < LENGTH('a)"
  then have "n div 8 < k" by simp
  with n show "bit (or_bytes 0 (le_bytes k v) (0 :: 'a word)) n = bit v n"
    by (simp add: bit_or_bytes le_bytes_def bit_simps)
qed

lemma le_bytes_or_bytes:
  assumes "8 * length bs = LENGTH('a)"
  shows "le_bytes (length bs) (or_bytes 0 bs (0 :: 'a::len word)) = bs"
proof (rule nth_equalityI)
  fix i assume i: "i < length (le_bytes (length bs) (or_bytes 0 bs (0 :: 'a word)))"
  have "bit (ucast (drop_bit (8 * i) (or_bytes 0 bs (0 :: 'a word))) :: u8) j = bit (bs ! i) j" if "j < 8" for j
  proof -
    have "8 * i + j < LENGTH('a)" using i that assms by simp
    moreover have "(8 * i + j) div 8 = i" "(8 * i + j) mod 8 = j" using that by simp_all
    ultimately show ?thesis using i that by (simp add: bit_simps bit_or_bytes)
  qed
  then show "le_bytes (length bs) (or_bytes 0 bs (0 :: 'a word)) ! i = bs ! i"
    using i by (intro bit_word_eqI) (simp add: le_bytes_def)
qed simp

lemma append_u16_le: "append_u16 out v = out @ le_bytes 2 v"
  by (simp add: append_u16_def le_bytes_def numeral_eq_Suc)

lemma append_u32_le: "append_u32 out v = out @ le_bytes 4 v"
  by (simp add: append_u32_def le_bytes_def upt_rec)

lemma append_u64_le: "append_u64 out v = out @ le_bytes 8 v"
  by (simp add: append_u64_def le_bytes_def upt_rec)

lemma append_i64_le: "append_i64 out v = out @ le_bytes 8 v"
  by (simp add: append_i64_def append_u64_le)

lemmas append_le [layout_simps] = append_u16_le append_u32_le append_u64_le append_i64_le

section \<open>Rounding up to a multiple\<close>

lemma mod_pad: "0 < n \<Longrightarrow> (x + (n - x mod n)) mod n = (0 :: nat)"
  by (metis add.commute add_diff_inverse_nat mod_add_left_eq mod_less_divisor mod_self not_less_iff_gr_or_eq)

text \<open>
  \<open>align_section\<close> and \<open>align_up\<close> both add \<open>n - x % n\<close> to a 64-bit value that is not a multiple of
  \<open>n\<close>; below the wrap-around the sum is the next multiple.
\<close>

lemma pad_word:
  fixes x n :: "'a::len word"
  assumes "x mod n \<noteq> 0" "0 < unat n" "unat x + unat n \<le> 2 ^ LENGTH('a)"
  shows "unat (n - x mod n) = unat n - unat x mod unat n"
    and "unat (x + (n - x mod n)) = unat x + (unat n - unat x mod unat n)"
    and "(x + (n - x mod n)) mod n = 0"
    and "0 < unat x mod unat n"
proof -
  have r: "unat (x mod n) = unat x mod unat n" "unat x mod unat n < unat n"
    using assms by (simp_all add: unat_mod)
  show pos: "0 < unat x mod unat n" using assms(1) r(1) by (metis unat_gt_0 word_neq_0_conv)
  show pad: "unat (n - x mod n) = unat n - unat x mod unat n"
    using r by (simp add: unat_sub word_le_nat_alt)
  have "unat x + (unat n - unat x mod unat n) < 2 ^ LENGTH('a)" using assms(3) pos r(2) by linarith
  then show sum: "unat (x + (n - x mod n)) = unat x + (unat n - unat x mod unat n)"
    using pad by (simp add: unat_word_ariths)
  have "unat ((x + (n - x mod n)) mod n) = 0"
    unfolding unat_mod sum using assms(2) by (rule mod_pad)
  then show "(x + (n - x mod n)) mod n = 0" by (simp add: unat_eq_0)
qed

section \<open>Characters and bytes\<close>

text \<open>Characters of a \<open>std::string\<close> as bytes and back.\<close>

definition byte_of_char :: "char \<Rightarrow> u8" where
  "byte_of_char c = of_nat (code c)"

definition char_of_byte :: "u8 \<Rightarrow> char" where
  "char_of_byte b = char_of (unat b)"

lemma code_lt [simp]: "code c < 256"
  unfolding code_def by (metis of_char_of nat_of_char_less_256)

lemma char_of_byte_of_char [simp]: "char_of_byte (byte_of_char c) = c"
  by (simp add: char_of_byte_def byte_of_char_def unat_of_nat take_bit_nat_eq_self code_def)

lemma byte_of_char_eq_0 [simp]: "byte_of_char c = 0 \<longleftrightarrow> c = NUL"
proof
  have "char_of_byte 0 = NUL" by (simp add: char_of_byte_def char_of_def)
  then show "byte_of_char c = 0 \<Longrightarrow> c = NUL" using char_of_byte_of_char [of c] by simp
qed (simp add: byte_of_char_def code_def)

section \<open>Small numbers as words\<close>

text \<open>Bounds below which no 64-bit offset and no 32-bit index wraps around.\<close>

lemma small_unat_of_nat: "n < 2 ^ 32 \<Longrightarrow> unat (of_nat n :: u32) = n" "n < 2 ^ 32 \<Longrightarrow> unat (of_nat n :: u64) = n"
  by (simp_all add: unat_of_nat take_bit_nat_eq_self)

lemma unat_step: "(c :: 'a::len word) < e \<Longrightarrow> unat (c + 1) = unat c + 1"
proof -
  assume "c < e"
  then have "unat c + 1 < 2 ^ LENGTH('a)"
    using unsigned_less [of e] by (metis Suc_eq_plus1 Suc_leI order_le_less_trans word_less_nat_alt)
  then show ?thesis by (simp add: unat_word_ariths)
qed

end
