(* ===== verification/Rv64_Line.thy ===== *)
theory Rv64_Line
  imports Byte_Encoding
begin

text \<open>
  One line of RV64 assembly (\<open>backend/mir/riscv/codegen/rv64_line_assembler.hpp\<close>, \<open>.cpp\<close>): parsing
  it to an instruction, the instruction formats, and the machine code. \<open>std::int64_t\<close> immediates are
  \<open>int\<close>: the parser admits only values of that range, and every use checks a smaller one.
\<close>

unbundle bit_operations_syntax

section \<open>Instructions\<close>

datatype register_bank = Gpr | Vector

record asm_register =
  reg_bank :: register_bank
  reg_index :: u32

definition default_register :: asm_register where
  "default_register = \<lparr>reg_bank = Gpr, reg_index = 0\<rparr>"

record insn_d_line =
  id_major :: u32
  id_operation :: u32
  id_destination :: asm_register
  id_lhs :: asm_register
  id_rhs :: asm_register
  id_accumulator :: asm_register
  id_dtype :: u32

record branch_line =
  br_opcode :: u32
  br_funct3 :: u32
  br_lhs :: asm_register
  br_rhs :: asm_register
  br_immediate :: int
  br_target_label :: string

record jump_line =
  jp_destination :: asm_register
  jp_immediate :: int
  jp_target_label :: string

datatype i_format = RType | IType | SType | UType

record i_line =
  il_format :: i_format
  il_opcode :: u32
  il_funct3 :: u32
  il_funct7 :: u32
  il_destination :: asm_register
  il_lhs :: asm_register
  il_rhs :: asm_register
  il_immediate :: int

definition default_i_line :: i_line where
  "default_i_line = \<lparr>il_format = IType, il_opcode = 0, il_funct3 = 0, il_funct7 = 0, il_destination = default_register,
     il_lhs = default_register, il_rhs = default_register, il_immediate = 0\<rparr>"

datatype asm_line =
    InsnDLine insn_d_line
  | LiLine asm_register int
  | RetLine
  | ILine i_line
  | BranchLine branch_line
  | JumpLine jump_line

section \<open>Encoding\<close>

definition encode_i_type :: "u32 \<Rightarrow> u32 \<Rightarrow> u32 \<Rightarrow> u32 \<Rightarrow> u32 \<Rightarrow> u32" where
  "encode_i_type opcode rd funct3 rs1 imm12 =
     push_bit 20 (imm12 AND 0xfff) OR push_bit 15 (rs1 AND 0x1f) OR push_bit 12 (funct3 AND 0x7) OR
     push_bit 7 (rd AND 0x1f) OR (opcode AND 0x7f)"

definition encode_r_type :: "u32 \<Rightarrow> u32 \<Rightarrow> u32 \<Rightarrow> u32 \<Rightarrow> u32 \<Rightarrow> u32 \<Rightarrow> u32" where
  "encode_r_type opcode rd funct3 rs1 rs2 funct7 =
     push_bit 25 (funct7 AND 0x7f) OR push_bit 20 (rs2 AND 0x1f) OR push_bit 15 (rs1 AND 0x1f) OR
     push_bit 12 (funct3 AND 0x7) OR push_bit 7 (rd AND 0x1f) OR (opcode AND 0x7f)"

definition encode_s_type :: "u32 \<Rightarrow> u32 \<Rightarrow> u32 \<Rightarrow> u32 \<Rightarrow> u32 \<Rightarrow> u32" where
  "encode_s_type opcode funct3 rs1 rs2 imm12 =
     (let imm = imm12 AND 0xfff in
      push_bit 25 (drop_bit 5 imm) OR push_bit 20 (rs2 AND 0x1f) OR push_bit 15 (rs1 AND 0x1f) OR
      push_bit 12 (funct3 AND 0x7) OR push_bit 7 (imm AND 0x1f) OR (opcode AND 0x7f))"

definition encode_b_type :: "u32 \<Rightarrow> u32 \<Rightarrow> u32 \<Rightarrow> u32 \<Rightarrow> u32 \<Rightarrow> u32" where
  "encode_b_type opcode funct3 rs1 rs2 imm =
     push_bit 31 (drop_bit 12 imm AND 0x1) OR push_bit 25 (drop_bit 5 imm AND 0x3f) OR push_bit 20 (rs2 AND 0x1f) OR
     push_bit 15 (rs1 AND 0x1f) OR push_bit 12 (funct3 AND 0x7) OR push_bit 8 (drop_bit 1 imm AND 0xf) OR
     push_bit 7 (drop_bit 11 imm AND 0x1) OR (opcode AND 0x7f)"

definition encode_j_type :: "u32 \<Rightarrow> u32 \<Rightarrow> u32 \<Rightarrow> u32" where
  "encode_j_type opcode rd imm =
     push_bit 31 (drop_bit 20 imm AND 0x1) OR push_bit 21 (drop_bit 1 imm AND 0x3ff) OR
     push_bit 20 (drop_bit 11 imm AND 0x1) OR push_bit 12 (drop_bit 12 imm AND 0xff) OR
     push_bit 7 (rd AND 0x1f) OR (opcode AND 0x7f)"

definition encode_u_type :: "u32 \<Rightarrow> u32 \<Rightarrow> u32 \<Rightarrow> u32" where
  "encode_u_type opcode rd imm20 =
     push_bit 12 (imm20 AND 0xfffff) OR push_bit 7 (rd AND 0x1f) OR (opcode AND 0x7f)"

definition append_le32 :: "u8 list \<Rightarrow> u32 \<Rightarrow> u8 list" where
  "append_le32 bytes word = bytes @ [ucast (word AND 0xff), ucast (drop_bit 8 word AND 0xff),
     ucast (drop_bit 16 word AND 0xff), ucast (drop_bit 24 word AND 0xff)]"

definition append_le64 :: "u8 list \<Rightarrow> u64 \<Rightarrow> u8 list" where
  "append_le64 bytes word = bytes @ map (\<lambda>shift. ucast (drop_bit shift word AND 0xff)) [0, 8, 16, 24, 32, 40, 48, 56]"

definition fits_signed_12_bit_immediate :: "int \<Rightarrow> bool" where
  "fits_signed_12_bit_immediate v \<longleftrightarrow> - 2048 \<le> v \<and> v \<le> 2047"

definition fits_signed_20_bit_immediate :: "int \<Rightarrow> bool" where
  "fits_signed_20_bit_immediate v \<longleftrightarrow> - (2 ^ 19) \<le> v \<and> v \<le> 2 ^ 19 - 1"

definition fits_branch_immediate :: "int \<Rightarrow> bool" where
  "fits_branch_immediate v \<longleftrightarrow> - 4096 \<le> v \<and> v \<le> 4094 \<and> v mod 2 = 0"

definition fits_jump_immediate :: "int \<Rightarrow> bool" where
  "fits_jump_immediate v \<longleftrightarrow> - (2 ^ 20) \<le> v \<and> v \<le> 2 ^ 20 - 2 \<and> v mod 2 = 0"

definition fits_unsigned_shift_immediate :: "int \<Rightarrow> u32 \<Rightarrow> bool" where
  "fits_unsigned_shift_immediate v max_value \<longleftrightarrow> 0 \<le> v \<and> v \<le> uint max_value"

definition register_field :: "asm_register \<Rightarrow> register_bank \<Rightarrow> u32 option" where
  "register_field reg expected = (if reg_bank reg \<noteq> expected \<or> reg_index reg > 31 then None else Some (reg_index reg))"

definition encode_insn_d_word :: "insn_d_line \<Rightarrow> u64 option" where
  "encode_insn_d_word insn =
     (case (register_field (id_destination insn) Vector, register_field (id_lhs insn) Vector,
            register_field (id_rhs insn) Vector, register_field (id_accumulator insn) Vector) of
        (Some rd, Some rs1, Some rs2, Some rs4) \<Rightarrow>
          if id_major insn > 0x7f \<or> id_operation insn > 0xff \<or> id_dtype insn > 0xffff then None
          else Some (0x3f OR push_bit 7 (ucast rd) OR push_bit 15 (ucast rs1) OR push_bit 20 (ucast rs2) OR
            push_bit 25 (ucast (id_major insn)) OR push_bit 32 (ucast (id_operation insn)) OR
            push_bit 40 (ucast rs4) OR push_bit 48 (ucast (id_dtype insn)))
      | _ \<Rightarrow> None)"

definition encode_i_line :: "i_line \<Rightarrow> u8 list option" where
  "encode_i_line l =
     (let rd = register_field (il_destination l) Gpr;
          rs1 = register_field (il_lhs l) Gpr;
          rs2 = register_field (il_rhs l) Gpr in
      case il_format l of
        RType \<Rightarrow>
          (case (rd, rs1, rs2) of
             (Some rd, Some rs1, Some rs2) \<Rightarrow>
               Some (append_le32 [] (encode_r_type (il_opcode l) rd (il_funct3 l) rs1 rs2 (il_funct7 l)))
           | _ \<Rightarrow> None)
      | IType \<Rightarrow>
          (case (rd, rs1) of
             (Some rd, Some rs1) \<Rightarrow>
               if fits_signed_12_bit_immediate (il_immediate l)
               then Some (append_le32 [] (encode_i_type (il_opcode l) rd (il_funct3 l) rs1 (word_of_int (il_immediate l))))
               else None
           | _ \<Rightarrow> None)
      | SType \<Rightarrow>
          (case (rs1, rs2) of
             (Some rs1, Some rs2) \<Rightarrow>
               if fits_signed_12_bit_immediate (il_immediate l)
               then Some (append_le32 [] (encode_s_type (il_opcode l) (il_funct3 l) rs1 rs2 (word_of_int (il_immediate l))))
               else None
           | _ \<Rightarrow> None)
      | UType \<Rightarrow>
          (case rd of
             Some rd \<Rightarrow>
               if fits_signed_20_bit_immediate (il_immediate l)
               then Some (append_le32 [] (encode_u_type (il_opcode l) rd (word_of_int (il_immediate l))))
               else None
           | None \<Rightarrow> None))"

fun encode_rv64_asm_line :: "asm_line \<Rightarrow> u8 list option" where
  "encode_rv64_asm_line (InsnDLine insn) =
     (case encode_insn_d_word insn of None \<Rightarrow> None | Some w \<Rightarrow> Some (append_le64 [] w))"
| "encode_rv64_asm_line (LiLine destination immediate) =
     (case register_field destination Gpr of
        None \<Rightarrow> None
      | Some rd \<Rightarrow>
          if \<not> fits_signed_12_bit_immediate immediate then None
          else Some (append_le32 [] (encode_i_type 0x13 rd 0 0 (word_of_int immediate))))"
| "encode_rv64_asm_line RetLine = Some (append_le32 [] (encode_i_type 0x67 0 0 1 0))"
| "encode_rv64_asm_line (ILine l) = encode_i_line l"
| "encode_rv64_asm_line (BranchLine b) =
     (case (register_field (br_lhs b) Gpr, register_field (br_rhs b) Gpr) of
        (Some rs1, Some rs2) \<Rightarrow>
          if br_target_label b \<noteq> [] \<or> \<not> fits_branch_immediate (br_immediate b) then None
          else Some (append_le32 [] (encode_b_type (br_opcode b) (br_funct3 b) rs1 rs2 (word_of_int (br_immediate b))))
      | _ \<Rightarrow> None)"
| "encode_rv64_asm_line (JumpLine j) =
     (case register_field (jp_destination j) Gpr of
        None \<Rightarrow> None
      | Some rd \<Rightarrow>
          if jp_target_label j \<noteq> [] \<or> \<not> fits_jump_immediate (jp_immediate j) then None
          else Some (append_le32 [] (encode_j_type 0x6f rd (word_of_int (jp_immediate j)))))"

fun rv64_asm_line_size_bytes :: "asm_line \<Rightarrow> u64 option" where
  "rv64_asm_line_size_bytes (InsnDLine _) = Some 8"
| "rv64_asm_line_size_bytes _ = Some 4"

lemma append_le32_le: "append_le32 out v = out @ le_bytes 4 v"
  by (simp add: append_le32_def le_bytes_def upt_rec)

lemma append_le64_le: "append_le64 out v = out @ le_bytes 8 v"
  by (simp add: append_le64_def le_bytes_def upt_rec)

lemmas [layout_simps] = append_le32_le append_le64_le

text \<open>The size the assembler lays a line out with is the length of its machine code.\<close>

lemma encoded_size:
  "encode_rv64_asm_line l = Some bytes \<Longrightarrow> rv64_asm_line_size_bytes l = Some (of_nat (length bytes))"
  by (cases l) (auto simp: layout_simps encode_i_line_def Let_def split: option.splits if_splits i_format.splits)

end
