(* ===== verification/Rv64_Parse.thy ===== *)
theory Rv64_Parse
  imports Rv64_Line
begin

text \<open>
  Parsing one line of RV64 assembly (\<open>rv64_line_assembler.cpp\<close>): fields, numbers, registers,
  memory operands and the mnemonics of the supported instructions.
\<close>

unbundle bit_operations_syntax

section \<open>Fields and numbers\<close>

definition is_blank :: "char \<Rightarrow> bool" where
  "is_blank c \<longleftrightarrow> c = SP \<or> c = HT \<or> c = LF \<or> c = CR"

definition trim_ascii :: "string \<Rightarrow> string" where
  "trim_ascii s = rev (dropWhile is_blank (rev (dropWhile is_blank s)))"

definition starts_with_token :: "string \<Rightarrow> string \<Rightarrow> bool" where
  "starts_with_token s token \<longleftrightarrow> length token \<le> length s \<and> take (length token) s = token \<and>
     (length s = length token \<or> s ! length token = SP \<or> s ! length token = HT)"

function split_loop :: "string \<Rightarrow> nat \<Rightarrow> string list \<Rightarrow> string list option" where
  "split_loop s expected fs =
     (if CHR '','' \<in> set s then
        let fs = fs @ [trim_ascii (takeWhile (\<lambda>c. c \<noteq> CHR '','') s)];
            s = tl (dropWhile (\<lambda>c. c \<noteq> CHR '','') s) in
        if length fs = expected then None else split_loop s expected fs
      else Some (fs @ [trim_ascii s]))"
  by pat_completeness auto
termination
proof (relation "measure (\<lambda>(s, _). length s)", goal_cases)
  case (2 s expected fs x xa)
  then have "dropWhile (\<lambda>c. c \<noteq> CHR '','') s \<noteq> []" by auto
  with length_dropWhile_le [of "\<lambda>c. c \<noteq> CHR '',''" s] 2 show ?case
    by (cases "dropWhile (\<lambda>c. c \<noteq> CHR '','') s") simp_all
qed simp

declare split_loop.simps [simp del]

definition split_fields :: "string \<Rightarrow> nat \<Rightarrow> string list option" where
  "split_fields s expected =
     (case split_loop s expected [] of
        None \<Rightarrow> None
      | Some fs \<Rightarrow>
          if length fs \<noteq> expected \<or> (\<exists>f\<in>set fs. f = []) then None else Some fs)"

text \<open>
  \<open>std::from_chars\<close> for an unsigned type of the given width: the digits at the front, which must be
  at least one and whose value must be in range, and the rest.
\<close>

definition digit_in_base :: "nat \<Rightarrow> char \<Rightarrow> bool" where
  "digit_in_base base c = (isdigit c \<or> (base = 16 \<and> isxdigit c))"

definition xdigit_value :: "char \<Rightarrow> nat" where
  "xdigit_value c = (if isdigit c then code c - 48 else if code c \<ge> 97 then code c - 87 else code c - 55)"

definition digits_value :: "nat \<Rightarrow> string \<Rightarrow> nat" where
  "digits_value base s = fold (\<lambda>c v. v * base + xdigit_value c) s 0"

definition from_chars :: "nat \<Rightarrow> nat \<Rightarrow> string \<Rightarrow> (nat \<times> string) option" where
  "from_chars width base s =
     (let digits = takeWhile (digit_in_base base) s; v = digits_value base digits in
      if digits = [] \<or> v \<ge> 2 ^ width then None else Some (v, dropWhile (digit_in_base base) s))"

definition hex_prefixed :: "string \<Rightarrow> bool" where
  "hex_prefixed s \<longleftrightarrow> length s > 2 \<and> s ! 0 = CHR ''0'' \<and> (s ! 1 = CHR ''x'' \<or> s ! 1 = CHR ''X'')"

definition parse_u32_field :: "string \<Rightarrow> u32 \<Rightarrow> u32 option" where
  "parse_u32_field s max_value =
     (let s = trim_ascii s in
      if s = [] then None
      else
        let (s, base) = (if hex_prefixed s then (drop 2 s, 16) else (s, 10)) in
        case from_chars 32 base s of
          None \<Rightarrow> None
        | Some (v, rest) \<Rightarrow> if rest \<noteq> [] \<or> v > unat max_value then None else Some (of_nat v))"

definition parse_unsigned_digits :: "string \<Rightarrow> nat \<Rightarrow> nat option" where
  "parse_unsigned_digits s base =
     (case from_chars 64 base s of None \<Rightarrow> None | Some (v, rest) \<Rightarrow> if rest \<noteq> [] then None else Some v)"

definition parse_signed_field :: "string \<Rightarrow> int option" where
  "parse_signed_field s =
     (let s = trim_ascii s in
      if s = [] then None
      else
        let signed = (hd s = CHR ''-'' \<or> hd s = CHR ''+'');
            negative = (hd s = CHR ''-'');
            s = (if signed then tl s else s) in
        if s = [] then None
        else
          let (s, base) = (if hex_prefixed s then (drop 2 s, 16) else (s, 10)) in
          case parse_unsigned_digits s base of
            None \<Rightarrow> None
          | Some magnitude \<Rightarrow>
              if (\<not> negative \<and> magnitude > 2 ^ 63 - 1) \<or> (negative \<and> magnitude > 2 ^ 63) then None
              else Some (if negative then - int magnitude else int magnitude))"

section \<open>Registers\<close>

definition gpr_table :: "(string \<times> u32) list" where
  "gpr_table =
     [(''zero'', 0), (''ra'', 1), (''sp'', 2), (''gp'', 3), (''tp'', 4), (''t0'', 5), (''t1'', 6), (''t2'', 7),
      (''s0'', 8), (''fp'', 8), (''s1'', 9), (''a0'', 10), (''a1'', 11), (''a2'', 12), (''a3'', 13), (''a4'', 14),
      (''a5'', 15), (''a6'', 16), (''a7'', 17), (''s2'', 18), (''s3'', 19), (''s4'', 20), (''s5'', 21), (''s6'', 22),
      (''s7'', 23), (''s8'', 24), (''s9'', 25), (''s10'', 26), (''s11'', 27), (''t3'', 28), (''t4'', 29),
      (''t5'', 30), (''t6'', 31)]"

definition gpr_number :: "string \<Rightarrow> u32 option" where
  "gpr_number n =
     (if length n \<ge> 2 \<and> hd n = CHR ''x'' then
        (case from_chars 32 10 (tl n) of
           Some (v, []) \<Rightarrow> if v \<le> 31 then Some (of_nat v) else None
         | _ \<Rightarrow> None)
      else map_of gpr_table n)"

definition parse_gpr :: "string \<Rightarrow> asm_register option" where
  "parse_gpr token =
     (case gpr_number (trim_ascii token) of None \<Rightarrow> None | Some n \<Rightarrow> Some \<lparr>reg_bank = Gpr, reg_index = n\<rparr>)"

definition is_symbol_start :: "char \<Rightarrow> bool" where
  "is_symbol_start c \<longleftrightarrow> isalpha c \<or> c = CHR ''_'' \<or> c = CHR ''.'' \<or> c = CHR ''$''"

definition is_symbol_continue :: "char \<Rightarrow> bool" where
  "is_symbol_continue c \<longleftrightarrow> isalnum c \<or> c = CHR ''_'' \<or> c = CHR ''.'' \<or> c = CHR ''$''"

definition is_valid_symbol :: "string \<Rightarrow> bool" where
  "is_valid_symbol s \<longleftrightarrow> s \<noteq> [] \<and> is_symbol_start (hd s) \<and> list_all is_symbol_continue (tl s)"

definition parse_vector_register :: "string \<Rightarrow> asm_register option" where
  "parse_vector_register token =
     (let token = trim_ascii token in
      if length token < 2 \<or> hd token \<noteq> CHR ''v'' then None
      else
        (case from_chars 32 10 (tl token) of
           Some (v, []) \<Rightarrow> if v > 31 then None else Some \<lparr>reg_bank = Vector, reg_index = of_nat v\<rparr>
         | _ \<Rightarrow> None))"

section \<open>Lines\<close>

definition parse_insn_d :: "string \<Rightarrow> asm_line option" where
  "parse_insn_d line =
     (if \<not> starts_with_token line ''.insn.d'' then None
      else
        (case split_fields (trim_ascii (drop 7 line)) 7 of
           Some [f0, f1, f2, f3, f4, f5, f6] \<Rightarrow>
             (case (parse_u32_field f0 0x7f, parse_u32_field f1 0xff, parse_vector_register f2, parse_vector_register f3,
                    parse_vector_register f4, parse_vector_register f5, parse_u32_field f6 0xffff) of
                (Some major, Some operation, Some destination, Some lhs, Some rhs, Some accumulator, Some dtype) \<Rightarrow>
                  Some (InsnDLine \<lparr>id_major = major, id_operation = operation, id_destination = destination, id_lhs = lhs,
                          id_rhs = rhs, id_accumulator = accumulator, id_dtype = dtype\<rparr>)
              | _ \<Rightarrow> None)
         | _ \<Rightarrow> None))"

definition parse_li :: "string \<Rightarrow> asm_line option" where
  "parse_li line =
     (if \<not> starts_with_token line ''li'' then None
      else
        (case split_fields (trim_ascii (drop 2 line)) 2 of
           Some [f0, f1] \<Rightarrow>
             (case (parse_gpr f0, parse_signed_field f1) of
                (Some destination, Some immediate) \<Rightarrow>
                  if \<not> fits_signed_12_bit_immediate immediate then None else Some (LiLine destination immediate)
              | _ \<Rightarrow> None)
         | _ \<Rightarrow> None))"

definition r_specs :: "(string \<times> u32 \<times> u32 \<times> u32) list" where
  "r_specs =
     [(''add'', 0x33, 0, 0x00), (''sub'', 0x33, 0, 0x20), (''sll'', 0x33, 1, 0x00), (''slt'', 0x33, 2, 0x00),
      (''sltu'', 0x33, 3, 0x00), (''xor'', 0x33, 4, 0x00), (''srl'', 0x33, 5, 0x00), (''sra'', 0x33, 5, 0x20),
      (''or'', 0x33, 6, 0x00), (''and'', 0x33, 7, 0x00), (''addw'', 0x3b, 0, 0x00), (''subw'', 0x3b, 0, 0x20),
      (''sllw'', 0x3b, 1, 0x00), (''srlw'', 0x3b, 5, 0x00), (''sraw'', 0x3b, 5, 0x20)]"

definition i_specs :: "(string \<times> u32 \<times> u32) list" where
  "i_specs =
     [(''addi'', 0x13, 0), (''slti'', 0x13, 2), (''sltiu'', 0x13, 3), (''xori'', 0x13, 4), (''ori'', 0x13, 6),
      (''andi'', 0x13, 7), (''addiw'', 0x1b, 0)]"

definition shift_specs :: "(string \<times> u32 \<times> u32 \<times> u32 \<times> u32) list" where
  "shift_specs =
     [(''slli'', 0x13, 1, 0x00, 63), (''srli'', 0x13, 5, 0x00, 63), (''srai'', 0x13, 5, 0x20, 63),
      (''slliw'', 0x1b, 1, 0x00, 31), (''srliw'', 0x1b, 5, 0x00, 31), (''sraiw'', 0x1b, 5, 0x20, 31)]"

definition load_specs :: "(string \<times> u32 \<times> u32) list" where
  "load_specs =
     [(''lb'', 0x03, 0), (''lh'', 0x03, 1), (''lw'', 0x03, 2), (''ld'', 0x03, 3), (''lbu'', 0x03, 4),
      (''lhu'', 0x03, 5), (''lwu'', 0x03, 6)]"

definition store_specs :: "(string \<times> u32 \<times> u32) list" where
  "store_specs = [(''sb'', 0x23, 0), (''sh'', 0x23, 1), (''sw'', 0x23, 2), (''sd'', 0x23, 3)]"

definition u_specs :: "(string \<times> u32) list" where
  "u_specs = [(''lui'', 0x37), (''auipc'', 0x17)]"

definition b_specs :: "(string \<times> u32) list" where
  "b_specs = [(''beq'', 0), (''bne'', 1), (''blt'', 4), (''bge'', 5), (''bltu'', 6), (''bgeu'', 7)]"

definition split_mnemonic :: "string \<Rightarrow> (string \<times> string) option" where
  "split_mnemonic line =
     (let line = trim_ascii line; blank = (\<lambda>c. c = SP \<or> c = HT) in
      if \<exists>c\<in>set line. blank c
      then Some (takeWhile (\<lambda>c. \<not> blank c) line, trim_ascii (tl (dropWhile (\<lambda>c. \<not> blank c) line)))
      else None)"

definition parse_mem_operand :: "string \<Rightarrow> (string \<times> asm_register) option" where
  "parse_mem_operand field =
     (let field = trim_ascii field;
          open_at = length (takeWhile (\<lambda>c. c \<noteq> CHR ''('') field);
          close_at = length (takeWhile (\<lambda>c. c \<noteq> CHR '')'') field) in
      if open_at = length field \<or> close_at = length field \<or> close_at + 1 \<noteq> length field \<or> open_at = 0 \<or>
         close_at \<le> open_at + 1
      then None
      else
        (case parse_gpr (take (close_at - open_at - 1) (drop (open_at + 1) field)) of
           None \<Rightarrow> None
         | Some base \<Rightarrow> Some (trim_ascii (take open_at field), base)))"

text \<open>The operand shapes: three registers, two registers and an immediate, a register and a memory operand.\<close>

definition parse_r_operands :: "u32 \<times> u32 \<times> u32 \<Rightarrow> string \<Rightarrow> asm_line option" where
  "parse_r_operands spec operands =
     (case spec of (opcode, funct3, funct7) \<Rightarrow>
        (case split_fields operands 3 of
           Some [f0, f1, f2] \<Rightarrow>
             (case (parse_gpr f0, parse_gpr f1, parse_gpr f2) of
                (Some rd, Some rs1, Some rs2) \<Rightarrow>
                  Some (ILine (default_i_line\<lparr>il_format := RType, il_opcode := opcode, il_funct3 := funct3,
                    il_funct7 := funct7, il_destination := rd, il_lhs := rs1, il_rhs := rs2\<rparr>))
              | _ \<Rightarrow> None)
         | _ \<Rightarrow> None))"

definition parse_i_operands :: "u32 \<times> u32 \<Rightarrow> string \<Rightarrow> asm_line option" where
  "parse_i_operands spec operands =
     (case spec of (opcode, funct3) \<Rightarrow>
        (case split_fields operands 3 of
           Some [f0, f1, f2] \<Rightarrow>
             (case (parse_gpr f0, parse_gpr f1, parse_signed_field f2) of
                (Some rd, Some rs1, Some immediate) \<Rightarrow>
                  if \<not> fits_signed_12_bit_immediate immediate then None
                  else Some (ILine (default_i_line\<lparr>il_format := IType, il_opcode := opcode, il_funct3 := funct3,
                    il_destination := rd, il_lhs := rs1, il_immediate := immediate\<rparr>))
              | _ \<Rightarrow> None)
         | _ \<Rightarrow> None))"

definition parse_shift_operands :: "u32 \<times> u32 \<times> u32 \<times> u32 \<Rightarrow> string \<Rightarrow> asm_line option" where
  "parse_shift_operands spec operands =
     (case spec of (opcode, funct3, funct7, max_shamt) \<Rightarrow>
        (case split_fields operands 3 of
           Some [f0, f1, f2] \<Rightarrow>
             (case (parse_gpr f0, parse_gpr f1, parse_signed_field f2) of
                (Some rd, Some rs1, Some shamt) \<Rightarrow>
                  if \<not> fits_unsigned_shift_immediate shamt max_shamt then None
                  else Some (ILine (default_i_line\<lparr>il_format := IType, il_opcode := opcode, il_funct3 := funct3,
                    il_funct7 := funct7, il_destination := rd, il_lhs := rs1,
                    il_immediate := uint (push_bit 5 funct7 OR word_of_int shamt)\<rparr>))
              | _ \<Rightarrow> None)
         | _ \<Rightarrow> None))"

definition parse_memory_operands :: "string \<Rightarrow> (asm_register \<times> asm_register \<times> int) option" where
  "parse_memory_operands operands =
     (case split_fields operands 2 of
        Some [f0, f1] \<Rightarrow>
          (case (parse_gpr f0, parse_mem_operand f1) of
             (Some reg, Some (displacement, base)) \<Rightarrow>
               (case parse_signed_field displacement of
                  None \<Rightarrow> None
                | Some immediate \<Rightarrow>
                    if \<not> fits_signed_12_bit_immediate immediate then None else Some (reg, base, immediate))
           | _ \<Rightarrow> None)
      | _ \<Rightarrow> None)"

definition parse_load_operands :: "u32 \<times> u32 \<Rightarrow> string \<Rightarrow> asm_line option" where
  "parse_load_operands spec operands =
     (case spec of (opcode, funct3) \<Rightarrow>
        (case parse_memory_operands operands of
           None \<Rightarrow> None
         | Some (rd, base, immediate) \<Rightarrow>
             Some (ILine (default_i_line\<lparr>il_format := IType, il_opcode := opcode, il_funct3 := funct3,
               il_destination := rd, il_lhs := base, il_immediate := immediate\<rparr>))))"

definition parse_store_operands :: "u32 \<times> u32 \<Rightarrow> string \<Rightarrow> asm_line option" where
  "parse_store_operands spec operands =
     (case spec of (opcode, funct3) \<Rightarrow>
        (case parse_memory_operands operands of
           None \<Rightarrow> None
         | Some (rs2, base, immediate) \<Rightarrow>
             Some (ILine (default_i_line\<lparr>il_format := SType, il_opcode := opcode, il_funct3 := funct3,
               il_lhs := base, il_rhs := rs2, il_immediate := immediate\<rparr>))))"

definition parse_u_operands :: "u32 \<Rightarrow> string \<Rightarrow> asm_line option" where
  "parse_u_operands opcode operands =
     (case split_fields operands 2 of
        Some [f0, f1] \<Rightarrow>
          (case (parse_gpr f0, parse_signed_field f1) of
             (Some rd, Some immediate) \<Rightarrow>
               if \<not> fits_signed_20_bit_immediate immediate then None
               else Some (ILine (default_i_line\<lparr>il_format := UType, il_opcode := opcode, il_destination := rd,
                 il_immediate := immediate\<rparr>))
           | _ \<Rightarrow> None)
      | _ \<Rightarrow> None)"

definition parse_b_operands :: "u32 \<Rightarrow> string \<Rightarrow> asm_line option" where
  "parse_b_operands funct3 operands =
     (case split_fields operands 3 of
        Some [f0, f1, f2] \<Rightarrow>
          (case (parse_gpr f0, parse_gpr f1) of
             (Some rs1, Some rs2) \<Rightarrow>
               if \<not> is_valid_symbol (trim_ascii f2) then None
               else Some (BranchLine \<lparr>br_opcode = 0x63, br_funct3 = funct3, br_lhs = rs1, br_rhs = rs2,
                 br_immediate = 0, br_target_label = trim_ascii f2\<rparr>)
           | _ \<Rightarrow> None)
      | _ \<Rightarrow> None)"

definition parse_j_operands :: "string \<Rightarrow> asm_line option" where
  "parse_j_operands operands =
     (case split_fields operands 2 of
        Some [f0, f1] \<Rightarrow>
          (case parse_gpr f0 of
             Some rd \<Rightarrow>
               if \<not> is_valid_symbol (trim_ascii f1) then None
               else Some (JumpLine \<lparr>jp_destination = rd, jp_immediate = 0, jp_target_label = trim_ascii f1\<rparr>)
           | None \<Rightarrow> None)
      | _ \<Rightarrow> None)"

definition parse_rv64i_line :: "string \<Rightarrow> asm_line option" where
  "parse_rv64i_line line =
     (case split_mnemonic line of
        None \<Rightarrow> None
      | Some (mnemonic, operands) \<Rightarrow>
          (case map_of r_specs mnemonic of Some spec \<Rightarrow> parse_r_operands spec operands | None \<Rightarrow>
          (case map_of i_specs mnemonic of Some spec \<Rightarrow> parse_i_operands spec operands | None \<Rightarrow>
          (case map_of shift_specs mnemonic of Some spec \<Rightarrow> parse_shift_operands spec operands | None \<Rightarrow>
          (case map_of load_specs mnemonic of Some spec \<Rightarrow> parse_load_operands spec operands | None \<Rightarrow>
          (case map_of store_specs mnemonic of Some spec \<Rightarrow> parse_store_operands spec operands | None \<Rightarrow>
          (case map_of u_specs mnemonic of Some opcode \<Rightarrow> parse_u_operands opcode operands | None \<Rightarrow>
          (case map_of b_specs mnemonic of Some funct3 \<Rightarrow> parse_b_operands funct3 operands | None \<Rightarrow>
           if mnemonic = ''jal'' then parse_j_operands operands
           else if mnemonic = ''jalr'' then parse_load_operands (0x67, 0) operands
           else None))))))))"

definition parse_rv64_asm_line :: "string \<Rightarrow> asm_line option" where
  "parse_rv64_asm_line line =
     (let line = trim_ascii line in
      if line = [] then None
      else if line = ''ret'' then Some RetLine
      else
        (case parse_insn_d line of
           Some parsed \<Rightarrow> Some parsed
         | None \<Rightarrow>
             (case parse_li line of
                Some parsed \<Rightarrow> Some parsed
              | None \<Rightarrow> parse_rv64i_line line)))"

end
