(* ===== verification/Objdump.thy ===== *)
theory Objdump
  imports Byte_Encoding "HOL-Library.List_Lexorder" "HOL-Library.Product_Lexorder" "HOL-Library.Char_ord"
begin

text \<open>
  The disassembler \<open>c4c-objdump\<close> (\<open>apps/c4c-objdump.cpp\<close>): reading a relocatable ELF file of RV64
  machine code, decoding its text section and printing it as assembly. Every access to the file
  goes through \<open>byte_at\<close>, whose error \<open>OutOfBounds\<close> stands for the undefined behaviour of an
  index outside the vector; the other errors are the program's own diagnostics, without their text.
  Immediates are 32-bit words read as two's complement.
\<close>

unbundle bit_operations_syntax

section \<open>Reading the file\<close>

datatype dump_error =
    OutOfBounds
  | NotElf | UnsupportedFormat | UnsupportedType | UnsupportedMachine
  | UnsupportedHeaderTable | HeaderTablePastEnd | SectionNamesPastEnd | MalformedSectionName
  | UnsupportedSymbolTable | SymbolTablePastEnd | StringTablePastEnd | MalformedSymbolName
  | NoText | TextNotExecutable | TextPastEnd | EmptyText | TextRelocations | NoSymbolTable | NoFunctionAtStart
  | BadTarget nat | TargetWithoutLabel nat | UnsupportedInstruction nat | LabelOffInstruction string u64

fun and_then :: "'e + 'a \<Rightarrow> ('a \<Rightarrow> 'e + 'b) \<Rightarrow> 'e + 'b" where
  "and_then (Inl e) f = Inl e"
| "and_then (Inr x) f = f x"

fun map_result :: "('a \<Rightarrow> 'e + 'b) \<Rightarrow> 'a list \<Rightarrow> 'e + 'b list" where
  "map_result f [] = Inr []"
| "map_result f (x # xs) = and_then (f x) (\<lambda>y. and_then (map_result f xs) (\<lambda>ys. Inr (y # ys)))"

record dump_section =
  ds_name_offset :: u32
  ds_type :: u32
  ds_flags :: u64
  ds_offset :: u64
  ds_size :: u64
  ds_link :: u32
  ds_info :: u32
  ds_entsize :: u64
  ds_name :: string

record dump_symbol =
  dy_name :: string
  dy_info :: u8
  dy_section_index :: u16
  dy_value :: u64
  dy_size :: u64

record object_label =
  ol_name :: string
  ol_offset :: u64

record extracted_object =
  eo_function_name :: string
  eo_text_bytes :: "u8 list"
  eo_local_labels :: "object_label list"

definition range_fits :: "u64 \<Rightarrow> u64 \<Rightarrow> nat \<Rightarrow> bool" where
  "range_fits offset sz n = (offset \<le> of_nat n \<and> sz \<le> of_nat n - offset)"

definition byte_at :: "u8 list \<Rightarrow> nat \<Rightarrow> dump_error + u8" where
  "byte_at bytes i = (if i < length bytes then Inr (bytes ! i) else Inl OutOfBounds)"

definition read_u16 :: "u8 list \<Rightarrow> nat \<Rightarrow> dump_error + u16" where
  "read_u16 bytes offset =
     and_then (byte_at bytes offset) (\<lambda>b0.
     and_then (byte_at bytes (offset + 1)) (\<lambda>b1.
     Inr (ucast b0 OR push_bit 8 (ucast b1))))"

fun read_loop :: "nat list \<Rightarrow> u8 list \<Rightarrow> nat \<Rightarrow> 'a::len word \<Rightarrow> dump_error + 'a word" where
  "read_loop [] bytes offset v = Inr v"
| "read_loop (shift # shifts) bytes offset v =
     and_then (byte_at bytes offset) (\<lambda>b. read_loop shifts bytes (offset + 1) (v OR push_bit shift (ucast b)))"

definition read_u32 :: "u8 list \<Rightarrow> nat \<Rightarrow> dump_error + u32" where
  "read_u32 bytes offset = read_loop [0, 8, 16, 24] bytes offset 0"

definition read_u64 :: "u8 list \<Rightarrow> nat \<Rightarrow> dump_error + u64" where
  "read_u64 bytes offset = read_loop [0, 8, 16, 24, 32, 40, 48, 56] bytes offset 0"

definition read_u32_at :: "u8 list \<Rightarrow> nat \<Rightarrow> dump_error + u32" where
  "read_u32_at bytes offset =
     and_then (byte_at bytes offset) (\<lambda>b0.
     and_then (byte_at bytes (offset + 1)) (\<lambda>b1.
     and_then (byte_at bytes (offset + 2)) (\<lambda>b2.
     and_then (byte_at bytes (offset + 3)) (\<lambda>b3.
     Inr (ucast b0 OR push_bit 8 (ucast b1) OR push_bit 16 (ucast b2) OR push_bit 24 (ucast b3))))))"

definition read_u64_at :: "u8 list \<Rightarrow> nat \<Rightarrow> dump_error + u64" where
  "read_u64_at bytes offset = read_loop [0, 8, 16, 24, 32, 40, 48, 56] bytes offset 0"

function string_loop :: "u8 list \<Rightarrow> u64 \<Rightarrow> u64 \<Rightarrow> string \<Rightarrow> dump_error + string option" where
  "string_loop bytes cursor stop v =
     (if cursor < stop then
        (case byte_at bytes (unat cursor) of
           Inl e \<Rightarrow> Inl e
         | Inr b \<Rightarrow> if b = 0 then Inr (Some v) else string_loop bytes (cursor + 1) stop (v @ [char_of_byte b]))
      else Inr None)"
  by pat_completeness auto
termination
  by (relation "measure (\<lambda>(_, c, e, _). unat e - unat c)") (auto simp: unat_step word_less_nat_alt)

declare string_loop.simps [simp del]

definition read_string_at :: "u8 list \<Rightarrow> u64 \<Rightarrow> u64 \<Rightarrow> u32 \<Rightarrow> dump_error + string option" where
  "read_string_at bytes table_offset table_size string_offset =
     (if ucast string_offset \<ge> table_size \<or> \<not> range_fits (table_offset + ucast string_offset) 1 (length bytes)
      then Inr None
      else string_loop bytes (table_offset + ucast string_offset) (table_offset + table_size) [])"

definition hex_digit :: "nat \<Rightarrow> char" where
  "hex_digit n = char_of (if n < 10 then 48 + n else 87 + n)"

definition hex_bytes :: "u8 list \<Rightarrow> string" where
  "hex_bytes bytes = concat (map (\<lambda>b. [hex_digit (unat b div 16), hex_digit (unat b mod 16)]) bytes)"

definition read_section_header :: "u8 list \<Rightarrow> nat \<Rightarrow> dump_error + dump_section" where
  "read_section_header bytes offset =
     and_then (read_u32 bytes offset) (\<lambda>name_offset.
     and_then (read_u32 bytes (offset + 4)) (\<lambda>type.
     and_then (read_u64 bytes (offset + 8)) (\<lambda>flags.
     and_then (read_u64 bytes (offset + 24)) (\<lambda>off.
     and_then (read_u64 bytes (offset + 32)) (\<lambda>sz.
     and_then (read_u32 bytes (offset + 40)) (\<lambda>link.
     and_then (read_u32 bytes (offset + 44)) (\<lambda>info.
     and_then (read_u64 bytes (offset + 56)) (\<lambda>entsize.
     Inr \<lparr>ds_name_offset = name_offset, ds_type = type, ds_flags = flags, ds_offset = off, ds_size = sz,
          ds_link = link, ds_info = info, ds_entsize = entsize, ds_name = []\<rparr>))))))))"

definition name_section :: "u8 list \<Rightarrow> dump_section \<Rightarrow> dump_section \<Rightarrow> dump_error + dump_section" where
  "name_section bytes names s =
     and_then (read_string_at bytes (ds_offset names) (ds_size names) (ds_name_offset s)) (\<lambda>n.
     case n of None \<Rightarrow> Inl MalformedSectionName | Some v \<Rightarrow> Inr (s\<lparr>ds_name := v\<rparr>))"

definition read_section_headers :: "u8 list \<Rightarrow> u64 \<Rightarrow> u16 \<Rightarrow> u16 \<Rightarrow> u16 \<Rightarrow> dump_error + dump_section list" where
  "read_section_headers bytes shoff shentsize shnum shstrndx =
     (if shentsize \<noteq> 64 \<or> shnum = 0 \<or> shstrndx \<ge> shnum then Inl UnsupportedHeaderTable
      else if \<not> range_fits shoff (ucast shentsize * ucast shnum) (length bytes) then Inl HeaderTablePastEnd
      else
        and_then (map_result (\<lambda>i. read_section_header bytes (unat (shoff + of_nat i * ucast shentsize))) [0..<unat shnum])
          (\<lambda>sections.
            let names = sections ! unat shstrndx in
            if \<not> range_fits (ds_offset names) (ds_size names) (length bytes) then Inl SectionNamesPastEnd
            else map_result (name_section bytes names) sections))"

definition read_symbol :: "u8 list \<Rightarrow> dump_section \<Rightarrow> nat \<Rightarrow> dump_error + dump_symbol" where
  "read_symbol bytes strtab offset =
     and_then (read_u32 bytes offset) (\<lambda>name_offset.
     and_then (read_string_at bytes (ds_offset strtab) (ds_size strtab) name_offset) (\<lambda>n.
     case n of
       None \<Rightarrow> Inl MalformedSymbolName
     | Some v \<Rightarrow>
         and_then (byte_at bytes (offset + 4)) (\<lambda>info.
         and_then (read_u16 bytes (offset + 6)) (\<lambda>section_index.
         and_then (read_u64 bytes (offset + 8)) (\<lambda>value.
         and_then (read_u64 bytes (offset + 16)) (\<lambda>sz.
         Inr \<lparr>dy_name = v, dy_info = info, dy_section_index = section_index, dy_value = value, dy_size = sz\<rparr>))))))"

definition read_symbols :: "u8 list \<Rightarrow> dump_section list \<Rightarrow> dump_section \<Rightarrow> dump_error + dump_symbol list" where
  "read_symbols bytes sections symtab =
     (if ds_entsize symtab \<noteq> 24 \<or> unat (ds_link symtab) \<ge> length sections then Inl UnsupportedSymbolTable
      else if \<not> range_fits (ds_offset symtab) (ds_size symtab) (length bytes) then Inl SymbolTablePastEnd
      else
        let strtab = sections ! unat (ds_link symtab) in
        if \<not> range_fits (ds_offset strtab) (ds_size strtab) (length bytes) then Inl StringTablePastEnd
        else
          let count = ds_size symtab div ds_entsize symtab in
          map_result (\<lambda>i. read_symbol bytes strtab (unat (ds_offset symtab + of_nat i * ds_entsize symtab)))
            [0..<unat count])"

text \<open>The last section named \<open>.text\<close> and the last symbol table.\<close>

definition find_text :: "dump_section list \<Rightarrow> (nat \<times> dump_section) option" where
  "find_text sections = fold (\<lambda>i found. if ds_name (sections ! i) = ''.text'' then Some (i, sections ! i) else found)
     [0..<length sections] None"

definition find_symtab :: "dump_section list \<Rightarrow> dump_section option" where
  "find_symtab sections = fold (\<lambda>s found. if ds_type s = 2 then Some s else found) sections None"

definition symbol_bind :: "dump_symbol \<Rightarrow> u8" where
  "symbol_bind s = drop_bit 4 (dy_info s)"

definition symbol_kind_of :: "dump_symbol \<Rightarrow> u8" where
  "symbol_kind_of s = dy_info s AND 0x0f"

definition is_function_symbol :: "u16 \<Rightarrow> dump_symbol \<Rightarrow> bool" where
  "is_function_symbol text_index s \<longleftrightarrow> symbol_bind s = 1 \<and> symbol_kind_of s = 2 \<and> dy_section_index s = text_index \<and>
     dy_section_index s \<noteq> 0 \<and> dy_value s = 0 \<and> dy_name s \<noteq> []"

definition is_label_symbol :: "u16 \<Rightarrow> u64 \<Rightarrow> string \<Rightarrow> dump_symbol \<Rightarrow> bool" where
  "is_label_symbol text_index text_size function_name s \<longleftrightarrow> symbol_bind s = 0 \<and> symbol_kind_of s = 0 \<and>
     dy_section_index s = text_index \<and> dy_name s \<noteq> [] \<and> dy_value s \<le> text_size \<and> dy_name s \<noteq> function_name"

definition extract_supported_rv64_object :: "u8 list \<Rightarrow> dump_error + extracted_object" where
  "extract_supported_rv64_object bytes =
     (if length bytes < 64 \<or> take 4 bytes \<noteq> [0x7f, byte_of_char CHR ''E'', byte_of_char CHR ''L'', byte_of_char CHR ''F'']
      then Inl NotElf
      else if \<not> (bytes ! 4 = 2 \<and> bytes ! 5 = 1 \<and> bytes ! 6 = 1) then Inl UnsupportedFormat
      else
        and_then (read_u16 bytes 16) (\<lambda>type. if type \<noteq> 1 then Inl UnsupportedType else
        and_then (read_u16 bytes 18) (\<lambda>machine. if machine \<noteq> 243 then Inl UnsupportedMachine else
        and_then (read_u64 bytes 40) (\<lambda>shoff.
        and_then (read_u16 bytes 58) (\<lambda>shentsize.
        and_then (read_u16 bytes 60) (\<lambda>shnum.
        and_then (read_u16 bytes 62) (\<lambda>shstrndx.
        and_then (read_section_headers bytes shoff shentsize shnum shstrndx) (\<lambda>sections.
        case find_text sections of
          None \<Rightarrow> Inl NoText
        | Some (text_index, text) \<Rightarrow>
            if ds_flags text AND 0x4 = 0 then Inl TextNotExecutable
            else if \<not> range_fits (ds_offset text) (ds_size text) (length bytes) then Inl TextPastEnd
            else if ds_size text = 0 then Inl EmptyText
            else if \<exists>s\<in>set sections. ds_type s = 4 \<and> unat (ds_info s) = text_index \<and> ds_size s \<noteq> 0
            then Inl TextRelocations
            else
              (case find_symtab sections of
                 None \<Rightarrow> Inl NoSymbolTable
               | Some symtab \<Rightarrow>
                   and_then (read_symbols bytes sections symtab) (\<lambda>symbols.
                   case find (is_function_symbol (of_nat text_index)) symbols of
                     None \<Rightarrow> Inl NoFunctionAtStart
                   | Some function \<Rightarrow>
                       Inr \<lparr>eo_function_name = dy_name function,
                            eo_text_bytes = take (unat (ds_size text)) (drop (unat (ds_offset text)) bytes),
                            eo_local_labels =
                              sort_key (\<lambda>l. (ol_offset l, ol_name l))
                                (map (\<lambda>s. \<lparr>ol_name = dy_name s, ol_offset = dy_value s\<rparr>)
                                  (filter (is_label_symbol (of_nat text_index) (ds_size text) (dy_name function)) symbols))\<rparr>))))))))))"

end
