(* ===== verification/Objdump_Decode.thy ===== *)
theory Objdump_Decode
  imports Objdump
begin

text \<open>
  The second half of \<open>c4c-objdump\<close>: decoding the text section, printing the instructions as
  assembly, and the program's \<open>main\<close>.
\<close>

unbundle bit_operations_syntax

section \<open>Decoding one instruction\<close>

record decoded_insn_d =
  dd_major :: u32
  dd_operation :: u32
  dd_destination :: u32
  dd_lhs :: u32
  dd_rhs :: u32
  dd_accumulator :: u32
  dd_dtype :: u32

datatype decoded_format = RTypeForm | ITypeForm | LoadForm | StoreForm | UTypeForm | JalrForm | BranchForm | JalForm

record decoded_rv64i =
  di_format :: decoded_format
  di_mnemonic :: string
  di_destination :: u32
  di_lhs :: u32
  di_rhs :: u32
  di_immediate :: u32
  di_target_label :: string

definition decoded_default :: "decoded_format \<Rightarrow> string \<Rightarrow> decoded_rv64i" where
  "decoded_default f n = \<lparr>di_format = f, di_mnemonic = n, di_destination = 0, di_lhs = 0, di_rhs = 0,
     di_immediate = 0, di_target_label = []\<rparr>"

datatype decoded_instruction =
    DecodedInsnD decoded_insn_d
  | DecodedLi u32 u32
  | DecodedRet
  | DecodedRv64I decoded_rv64i

record decoded_line =
  dl_offset :: nat
  dl_instruction :: decoded_instruction

definition decode_insn_d :: "u64 \<Rightarrow> decoded_insn_d option" where
  "decode_insn_d word =
     (if word AND 0x7f \<noteq> 0x3f \<or> drop_bit 12 word AND 0x7 \<noteq> 0 \<or> drop_bit 45 word AND 0x7 \<noteq> 0 then None
      else Some \<lparr>dd_major = ucast (drop_bit 25 word AND 0x7f), dd_operation = ucast (drop_bit 32 word AND 0xff),
        dd_destination = ucast (drop_bit 7 word AND 0x1f), dd_lhs = ucast (drop_bit 15 word AND 0x1f),
        dd_rhs = ucast (drop_bit 20 word AND 0x1f), dd_accumulator = ucast (drop_bit 40 word AND 0x1f),
        dd_dtype = ucast (drop_bit 48 word AND 0xffff)\<rparr>)"

definition decode_li :: "u32 \<Rightarrow> decoded_instruction option" where
  "decode_li word =
     (let opcode = word AND 0x7f;
          destination = drop_bit 7 word AND 0x1f;
          funct3 = drop_bit 12 word AND 0x7;
          source = drop_bit 15 word AND 0x1f;
          immediate = signed_drop_bit 20 word in
      if opcode \<noteq> 0x13 \<or> destination \<noteq> 10 \<or> funct3 \<noteq> 0 \<or> source \<noteq> 0 \<or> immediate \<noteq> 0 then None
      else Some (DecodedLi destination immediate))"

definition decode_ret :: "u32 \<Rightarrow> decoded_instruction option" where
  "decode_ret word =
     (let opcode = word AND 0x7f;
          destination = drop_bit 7 word AND 0x1f;
          funct3 = drop_bit 12 word AND 0x7;
          source = drop_bit 15 word AND 0x1f;
          immediate = signed_drop_bit 20 word in
      if opcode \<noteq> 0x67 \<or> destination \<noteq> 0 \<or> funct3 \<noteq> 0 \<or> source \<noteq> 1 \<or> immediate \<noteq> 0 then None
      else Some DecodedRet)"

definition sign_extend :: "u32 \<Rightarrow> nat \<Rightarrow> u32" where
  "sign_extend v width = signed_drop_bit (32 - width) (push_bit (32 - width) v)"

definition dump_r_specs :: "(string \<times> u32 \<times> u32 \<times> u32) list" where
  "dump_r_specs =
     [(''add'', 0x33, 0, 0x00), (''sub'', 0x33, 0, 0x20), (''sll'', 0x33, 1, 0x00), (''slt'', 0x33, 2, 0x00),
      (''sltu'', 0x33, 3, 0x00), (''xor'', 0x33, 4, 0x00), (''srl'', 0x33, 5, 0x00), (''sra'', 0x33, 5, 0x20),
      (''or'', 0x33, 6, 0x00), (''and'', 0x33, 7, 0x00), (''addw'', 0x3b, 0, 0x00), (''subw'', 0x3b, 0, 0x20),
      (''sllw'', 0x3b, 1, 0x00), (''srlw'', 0x3b, 5, 0x00), (''sraw'', 0x3b, 5, 0x20)]"

definition dump_i_specs :: "(string \<times> u32 \<times> u32) list" where
  "dump_i_specs =
     [(''addi'', 0x13, 0), (''slti'', 0x13, 2), (''sltiu'', 0x13, 3), (''xori'', 0x13, 4), (''ori'', 0x13, 6),
      (''andi'', 0x13, 7), (''addiw'', 0x1b, 0)]"

definition dump_shift_specs :: "(string \<times> u32 \<times> u32 \<times> u32 \<times> u32) list" where
  "dump_shift_specs =
     [(''slli'', 0x13, 1, 0x00, 63), (''srli'', 0x13, 5, 0x00, 63), (''srai'', 0x13, 5, 0x20, 63),
      (''slliw'', 0x1b, 1, 0x00, 31), (''srliw'', 0x1b, 5, 0x00, 31), (''sraiw'', 0x1b, 5, 0x20, 31)]"

definition dump_load_specs :: "(string \<times> u32 \<times> u32) list" where
  "dump_load_specs =
     [(''lb'', 0x03, 0), (''lh'', 0x03, 1), (''lw'', 0x03, 2), (''ld'', 0x03, 3), (''lbu'', 0x03, 4),
      (''lhu'', 0x03, 5), (''lwu'', 0x03, 6)]"

definition dump_store_specs :: "(string \<times> u32 \<times> u32) list" where
  "dump_store_specs = [(''sb'', 0x23, 0), (''sh'', 0x23, 1), (''sw'', 0x23, 2), (''sd'', 0x23, 3)]"

definition dump_u_specs :: "(string \<times> u32) list" where
  "dump_u_specs = [(''lui'', 0x37), (''auipc'', 0x17)]"

definition dump_branch_specs :: "(string \<times> u32) list" where
  "dump_branch_specs = [(''beq'', 0), (''bne'', 1), (''blt'', 4), (''bge'', 5), (''bltu'', 6), (''bgeu'', 7)]"

text \<open>The fields every format has.\<close>

definition opcode_of :: "u32 \<Rightarrow> u32" where "opcode_of word = word AND 0x7f"

definition rd_of :: "u32 \<Rightarrow> u32" where "rd_of word = drop_bit 7 word AND 0x1f"

definition funct3_of :: "u32 \<Rightarrow> u32" where "funct3_of word = drop_bit 12 word AND 0x7"

definition rs1_of :: "u32 \<Rightarrow> u32" where "rs1_of word = drop_bit 15 word AND 0x1f"

definition rs2_of :: "u32 \<Rightarrow> u32" where "rs2_of word = drop_bit 20 word AND 0x1f"

definition funct7_of :: "u32 \<Rightarrow> u32" where "funct7_of word = drop_bit 25 word AND 0x7f"

text \<open>
  The loop over the shift instructions; the inner option is the value the loop returns from the
  function with, \<open>None\<close> outside is falling through.
\<close>

fun shift_loop :: "u32 \<Rightarrow> (string \<times> u32 \<times> u32 \<times> u32 \<times> u32) list \<Rightarrow> decoded_rv64i option option" where
  "shift_loop word [] = None"
| "shift_loop word ((n, opcode, funct3, funct7, max_shamt) # specs) =
     (if opcode_of word \<noteq> opcode \<or> funct3_of word \<noteq> funct3 then shift_loop word specs
      else
        let imm12 = drop_bit 20 word AND 0xfff;
            shamt_mask = (if max_shamt = 63 then 0x3f else 0x1f);
            shamt = imm12 AND shamt_mask;
            selector = imm12 AND NOT shamt_mask in
        if selector \<noteq> push_bit 5 funct7 then shift_loop word specs
        else if shamt > max_shamt then Some None
        else Some (Some ((decoded_default ITypeForm n)\<lparr>di_destination := rd_of word, di_lhs := rs1_of word,
                           di_immediate := shamt\<rparr>)))"

definition imm21_of :: "u32 \<Rightarrow> u32" where
  "imm21_of word = push_bit 20 (drop_bit 31 word) OR push_bit 1 (drop_bit 21 word AND 0x3ff) OR
     push_bit 11 (drop_bit 20 word AND 0x1) OR push_bit 12 (drop_bit 12 word AND 0xff)"

definition imm13_of :: "u32 \<Rightarrow> u32" where
  "imm13_of word = push_bit 12 (drop_bit 31 word) OR push_bit 5 (drop_bit 25 word AND 0x3f) OR
     push_bit 1 (drop_bit 8 word AND 0xf) OR push_bit 11 (drop_bit 7 word AND 0x1)"

definition imm12s_of :: "u32 \<Rightarrow> u32" where
  "imm12s_of word = push_bit 5 (drop_bit 25 word) OR (drop_bit 7 word AND 0x1f)"

definition decode_rv64i_tail :: "u32 \<Rightarrow> decoded_rv64i option" where
  "decode_rv64i_tail word =
     (case find (\<lambda>(n, opcode, funct3). opcode_of word = opcode \<and> funct3_of word = funct3) dump_load_specs of
        Some (n, _) \<Rightarrow> Some ((decoded_default LoadForm n)\<lparr>di_destination := rd_of word, di_lhs := rs1_of word,
                          di_immediate := signed_drop_bit 20 word\<rparr>)
      | None \<Rightarrow>
     (case find (\<lambda>(n, opcode, funct3). opcode_of word = opcode \<and> funct3_of word = funct3) dump_store_specs of
        Some (n, _) \<Rightarrow> Some ((decoded_default StoreForm n)\<lparr>di_lhs := rs1_of word, di_rhs := rs2_of word,
                          di_immediate := sign_extend (imm12s_of word) 12\<rparr>)
      | None \<Rightarrow>
     (case find (\<lambda>(n, opcode). opcode_of word = opcode) dump_u_specs of
        Some (n, _) \<Rightarrow> Some ((decoded_default UTypeForm n)\<lparr>di_destination := rd_of word,
                          di_immediate := sign_extend (drop_bit 12 word) 20\<rparr>)
      | None \<Rightarrow> None)))"

definition decode_rv64i :: "u32 \<Rightarrow> decoded_rv64i option" where
  "decode_rv64i word =
     (case find (\<lambda>(n, opcode, funct3, funct7). opcode_of word = opcode \<and> funct3_of word = funct3 \<and> funct7_of word = funct7)
             dump_r_specs of
        Some (n, _) \<Rightarrow> Some ((decoded_default RTypeForm n)\<lparr>di_destination := rd_of word, di_lhs := rs1_of word,
                          di_rhs := rs2_of word\<rparr>)
      | None \<Rightarrow>
     (case shift_loop word dump_shift_specs of
        Some r \<Rightarrow> r
      | None \<Rightarrow>
     (case find (\<lambda>(n, opcode, funct3). opcode_of word = opcode \<and> funct3_of word = funct3) dump_i_specs of
        Some (n, _) \<Rightarrow> Some ((decoded_default ITypeForm n)\<lparr>di_destination := rd_of word, di_lhs := rs1_of word,
                          di_immediate := signed_drop_bit 20 word\<rparr>)
      | None \<Rightarrow>
      if opcode_of word = 0x67 \<and> funct3_of word = 0 then
        Some ((decoded_default JalrForm ''jalr'')\<lparr>di_destination := rd_of word, di_lhs := rs1_of word,
                di_immediate := signed_drop_bit 20 word\<rparr>)
      else if opcode_of word = 0x6f then
        Some ((decoded_default JalForm ''jal'')\<lparr>di_destination := rd_of word,
                di_immediate := sign_extend (imm21_of word) 21\<rparr>)
      else
        (case (if opcode_of word = 0x63 then find (\<lambda>(n, funct3). funct3_of word = funct3) dump_branch_specs else None) of
           Some (n, _) \<Rightarrow> Some ((decoded_default BranchForm n)\<lparr>di_lhs := rs1_of word, di_rhs := rs2_of word,
                             di_immediate := sign_extend (imm13_of word) 13\<rparr>)
         | None \<Rightarrow> decode_rv64i_tail word))))"

section \<open>Decoding the text section\<close>

definition label_for_offset :: "extracted_object \<Rightarrow> nat \<Rightarrow> string option" where
  "label_for_offset obj offset =
     (if offset = 0 then Some (eo_function_name obj)
      else map_option ol_name (find (\<lambda>l. unat (ol_offset l) = offset) (eo_local_labels obj)))"

definition relative_target_offset :: "nat \<Rightarrow> u32 \<Rightarrow> nat \<Rightarrow> nat option" where
  "relative_target_offset current immediate text_size =
     (let target = int current + sint immediate in
      if target < 0 \<or> nat target > text_size then None else Some (nat target))"

text \<open>A decoded instruction with the name of its target, if it has one.\<close>

definition name_target :: "extracted_object \<Rightarrow> nat \<Rightarrow> decoded_rv64i \<Rightarrow> dump_error + decoded_rv64i" where
  "name_target obj offset i =
     (if di_format i = BranchForm \<or> di_format i = JalForm then
        (case relative_target_offset offset (di_immediate i) (length (eo_text_bytes obj)) of
           None \<Rightarrow> Inl (BadTarget offset)
         | Some target \<Rightarrow>
             (case label_for_offset obj target of
                None \<Rightarrow> Inl (TargetWithoutLabel offset)
              | Some label \<Rightarrow> Inr (i\<lparr>di_target_label := label\<rparr>)))
      else Inr i)"

text \<open>One round of the loop: the instruction at an offset and the offset behind it.\<close>

definition decode_short :: "extracted_object \<Rightarrow> nat \<Rightarrow> dump_error + decoded_instruction \<times> nat" where
  "decode_short obj offset =
     (if offset + 4 \<le> length (eo_text_bytes obj) then
        and_then (read_u32_at (eo_text_bytes obj) offset) (\<lambda>word.
        case decode_li word of Some li \<Rightarrow> Inr (li, offset + 4) | None \<Rightarrow>
        (case decode_ret word of Some ret \<Rightarrow> Inr (ret, offset + 4) | None \<Rightarrow>
        (case decode_rv64i word of
           Some i \<Rightarrow> and_then (name_target obj offset i) (\<lambda>i. Inr (DecodedRv64I i, offset + 4))
         | None \<Rightarrow> Inl (UnsupportedInstruction offset))))
      else Inl (UnsupportedInstruction offset))"

definition decode_at :: "extracted_object \<Rightarrow> nat \<Rightarrow> dump_error + decoded_instruction \<times> nat" where
  "decode_at obj offset =
     (if offset + 8 \<le> length (eo_text_bytes obj) then
        and_then (read_u64_at (eo_text_bytes obj) offset) (\<lambda>word.
        case decode_insn_d word of Some d \<Rightarrow> Inr (DecodedInsnD d, offset + 8) | None \<Rightarrow> decode_short obj offset)
      else decode_short obj offset)"

lemma and_then_Inr: "and_then r f = Inr y \<longleftrightarrow> (\<exists>x. r = Inr x \<and> f x = Inr y)"
  by (cases r) auto

lemma decode_short_advances: "decode_short obj offset = Inr (i, offset') \<Longrightarrow> offset' = offset + 4"
  by (auto simp: decode_short_def and_then_Inr split: if_splits option.splits)

lemma decode_at_advances: "decode_at obj offset = Inr (i, offset') \<Longrightarrow> offset' = offset + 4 \<or> offset' = offset + 8"
  by (auto simp: decode_at_def and_then_Inr split: if_splits option.splits dest: decode_short_advances)

function decode_loop :: "extracted_object \<Rightarrow> nat \<Rightarrow> dump_error + decoded_line list" where
  "decode_loop obj offset =
     (if offset < length (eo_text_bytes obj) then
        (case decode_at obj offset of
           Inl e \<Rightarrow> Inl e
         | Inr (i, offset') \<Rightarrow>
             (case decode_loop obj offset' of
                Inl e \<Rightarrow> Inl e
              | Inr lines \<Rightarrow> Inr (\<lparr>dl_offset = offset, dl_instruction = i\<rparr> # lines)))
      else Inr [])"
  by pat_completeness auto
termination
  by (relation "measure (\<lambda>(obj, offset). length (eo_text_bytes obj) - offset)") (auto dest: decode_at_advances)

declare decode_loop.simps [simp del]

fun check_labels :: "nat \<Rightarrow> decoded_line list \<Rightarrow> object_label list \<Rightarrow> dump_error option" where
  "check_labels text_size decoded [] = None"
| "check_labels text_size decoded (l # ls) =
     (if unat (ol_offset l) = text_size \<or> (\<exists>d\<in>set decoded. dl_offset d = unat (ol_offset l))
      then check_labels text_size decoded ls
      else Some (LabelOffInstruction (ol_name l) (ol_offset l)))"

definition decode_text_bytes :: "extracted_object \<Rightarrow> dump_error + decoded_line list" where
  "decode_text_bytes obj =
     and_then (decode_loop obj 0) (\<lambda>decoded.
     case check_labels (length (eo_text_bytes obj)) decoded (eo_local_labels obj) of
       Some e \<Rightarrow> Inl e
     | None \<Rightarrow> Inr decoded)"

section \<open>Printing\<close>

definition gpr_names :: "string list" where
  "gpr_names =
     [''zero'', ''ra'', ''sp'', ''gp'', ''tp'', ''t0'', ''t1'', ''t2'', ''s0'', ''s1'', ''a0'', ''a1'', ''a2'', ''a3'',
      ''a4'', ''a5'', ''a6'', ''a7'', ''s2'', ''s3'', ''s4'', ''s5'', ''s6'', ''s7'', ''s8'', ''s9'', ''s10'', ''s11'',
      ''t3'', ''t4'', ''t5'', ''t6'']"

definition gpr_name :: "u32 \<Rightarrow> string" where
  "gpr_name reg = (if unat reg < length gpr_names then gpr_names ! unat reg else CHR ''x'' # show_nat (unat reg))"

definition show_u32 :: "u32 \<Rightarrow> string" where "show_u32 w = show_nat (unat w)"

definition show_i32 :: "u32 \<Rightarrow> string" where "show_i32 w = show_int (sint w)"

definition rv64i_assembly :: "decoded_rv64i \<Rightarrow> string" where
  "rv64i_assembly i = di_mnemonic i @ '' '' @
     (case di_format i of
        RTypeForm \<Rightarrow> gpr_name (di_destination i) @ '', '' @ gpr_name (di_lhs i) @ '', '' @ gpr_name (di_rhs i)
      | ITypeForm \<Rightarrow> gpr_name (di_destination i) @ '', '' @ gpr_name (di_lhs i) @ '', '' @ show_i32 (di_immediate i)
      | LoadForm \<Rightarrow> gpr_name (di_destination i) @ '', '' @ show_i32 (di_immediate i) @ ''('' @ gpr_name (di_lhs i) @ '')''
      | JalrForm \<Rightarrow> gpr_name (di_destination i) @ '', '' @ show_i32 (di_immediate i) @ ''('' @ gpr_name (di_lhs i) @ '')''
      | StoreForm \<Rightarrow> gpr_name (di_rhs i) @ '', '' @ show_i32 (di_immediate i) @ ''('' @ gpr_name (di_lhs i) @ '')''
      | UTypeForm \<Rightarrow> gpr_name (di_destination i) @ '', '' @ show_i32 (di_immediate i)
      | BranchForm \<Rightarrow> gpr_name (di_lhs i) @ '', '' @ gpr_name (di_rhs i) @ '', '' @ di_target_label i
      | JalForm \<Rightarrow> gpr_name (di_destination i) @ '', '' @ di_target_label i)"

fun instruction_assembly :: "decoded_instruction \<Rightarrow> string" where
  "instruction_assembly (DecodedInsnD d) =
     ''.insn.d '' @ show_u32 (dd_major d) @ '', '' @ show_u32 (dd_operation d) @ '', v'' @ show_u32 (dd_destination d) @
     '', v'' @ show_u32 (dd_lhs d) @ '', v'' @ show_u32 (dd_rhs d) @ '', v'' @ show_u32 (dd_accumulator d) @ '', '' @
     show_u32 (dd_dtype d)"
| "instruction_assembly (DecodedLi destination immediate) =
     ''li '' @ gpr_name destination @ '', '' @ show_i32 immediate"
| "instruction_assembly (DecodedRv64I i) = rv64i_assembly i"
| "instruction_assembly DecodedRet = ''ret''"

text \<open>The labels due at an offset, from the front of the sorted list, and the labels left.\<close>

definition print_labels :: "nat \<Rightarrow> object_label list \<Rightarrow> string \<times> object_label list" where
  "print_labels offset ls =
     (let here = (\<lambda>l. unat (ol_offset l) = offset) in
      (concat (map (\<lambda>l. ol_name l @ '':'' @ [LF]) (takeWhile here ls)), dropWhile here ls))"

fun print_lines :: "nat \<Rightarrow> decoded_line list \<Rightarrow> object_label list \<Rightarrow> string" where
  "print_lines text_size [] ls = fst (print_labels text_size ls)"
| "print_lines text_size (d # ds) ls =
     (let (s, ls) = print_labels (dl_offset d) ls in
      s @ ''  '' @ instruction_assembly (dl_instruction d) @ [LF] @ print_lines text_size ds ls)"

definition canonical_assembly :: "extracted_object \<Rightarrow> decoded_line list \<Rightarrow> string" where
  "canonical_assembly obj decoded =
     ''.text'' @ [LF] @ ''.globl '' @ eo_function_name obj @ [LF] @ eo_function_name obj @ '':'' @ [LF] @
     print_lines (length (eo_text_bytes obj)) decoded (eo_local_labels obj)"

section \<open>The program\<close>

record cli_options =
  cli_input :: string
  cli_output :: string

text \<open>
  The command line that both \<open>c4c-objdump\<close> and \<open>c4c-as\<close> take; \<open>None\<close> after a message on the error
  stream, or after help or version on the standard output.
\<close>

fun parse_cli_loop :: "string list \<Rightarrow> cli_options \<Rightarrow> cli_options option" where
  "parse_cli_loop [] opts = Some opts"
| "parse_cli_loop (arg # args) opts =
     (if arg = ''-h'' \<or> arg = ''--help'' \<or> arg = ''--version'' then None
      else if arg = ''-o'' then
        (case args of
           [] \<Rightarrow> None
         | path # rest \<Rightarrow>
             if cli_output opts \<noteq> [] \<or> path = [] then None else parse_cli_loop rest (opts\<lparr>cli_output := path\<rparr>))
      else if arg \<noteq> [] \<and> hd arg = CHR ''-'' then None
      else if cli_input opts \<noteq> [] then None
      else parse_cli_loop args (opts\<lparr>cli_input := arg\<rparr>))"

definition parse_cli :: "string list \<Rightarrow> cli_options option" where
  "parse_cli args =
     (case parse_cli_loop args \<lparr>cli_input = [], cli_output = []\<rparr> of
        None \<Rightarrow> None
      | Some opts \<Rightarrow> if cli_input opts = [] \<or> cli_output opts = [] then None else Some opts)"

text \<open>What a run leaves behind: the exit status, the standard output and the file written.\<close>

record 'f tool_run =
  run_status :: nat
  run_stdout :: string
  run_written :: "(string \<times> 'f) option"

definition stopped :: "nat \<Rightarrow> string \<Rightarrow> 'f tool_run" where
  "stopped status out = \<lparr>run_status = status, run_stdout = out, run_written = None\<rparr>"

definition objdump_help :: string where
  "objdump_help = ''Usage:'' @ [LF] @ ''  c4c-objdump [options] <input.o>'' @ [LF, LF] @
     ''Options:'' @ [LF] @
     ''  -h, --help       Show this help message'' @ [LF] @
     ''  --version        Print version information'' @ [LF] @
     ''  -o <path>        Output assembly path'' @ [LF, LF] @
     ''Status:'' @ [LF] @
     ''  extracts the supported RV64 relocatable ELF .text envelope and reports'' @ [LF] @
     ''  the initial supported decoder output'' @ [LF]"

text \<open>Both programs look for help and version options before anything else.\<close>

fun early_output :: "string \<Rightarrow> string \<Rightarrow> string list \<Rightarrow> string option" where
  "early_output help version [] = None"
| "early_output help version (arg # args) =
     (if arg = ''-h'' \<or> arg = ''--help'' then Some help
      else if arg = ''--version'' then Some version
      else early_output help version args)"

text \<open>
  \<open>main\<close>: help and version come first, wherever they stand. The file system is a parameter: the
  contents of a file that can be opened, and whether a file can be opened and written.
\<close>

definition objdump_main :: "(string \<Rightarrow> u8 list option) \<Rightarrow> (string \<Rightarrow> bool) \<Rightarrow> string list \<Rightarrow> string tool_run" where
  "objdump_main open_file can_write args =
     (if args = [] then stopped 0 objdump_help
      else
        (case early_output objdump_help (''c4c-objdump 0.1'' @ [LF]) args of
           Some out \<Rightarrow> stopped 0 out
         | None \<Rightarrow>
        (case parse_cli args of
           None \<Rightarrow> stopped 1 []
         | Some opts \<Rightarrow>
             (case open_file (cli_input opts) of
                None \<Rightarrow> stopped 1 []
              | Some bytes \<Rightarrow>
                  (case extract_supported_rv64_object bytes of
                     Inl e \<Rightarrow> stopped 1 []
                   | Inr obj \<Rightarrow>
                       (case decode_text_bytes obj of
                          Inl e \<Rightarrow> stopped 1 []
                        | Inr decoded \<Rightarrow>
                            if \<not> can_write (cli_output opts) then stopped 1 []
                            else \<lparr>run_status = 0,
                              run_stdout = ''c4c-objdump: extracted '' @ show_nat (length (eo_text_bytes obj)) @
                                '' .text byte(s) from '' @ cli_input opts @ '' symbol '' @ eo_function_name obj @ '' into '' @
                                cli_output opts @ '': '' @ hex_bytes (eo_text_bytes obj) @ ''; decoded '' @
                                show_nat (length decoded) @ '' instruction(s)'' @ [LF],
                              run_written = Some (cli_output opts, canonical_assembly obj decoded)\<rparr>))))))"

end
