(* ===== verification/Objdump_Safe.thy ===== *)
theory Objdump_Safe
  imports Objdump_Decode
begin

text \<open>
  \<open>c4c-objdump\<close> reads only inside the file: the checks in front of every access suffice, for any
  sequence of bytes. The readers of words share one contract, which also gives their values.
\<close>

unbundle bit_operations_syntax

section \<open>Reading words\<close>

locale word_reader =
  fixes read :: "u8 list \<Rightarrow> nat \<Rightarrow> dump_error + 'a::len word"
    and width :: nat
  assumes width: "8 * width = LENGTH('a)"
    and read: "offset + width \<le> length bytes \<Longrightarrow> read bytes offset = Inr (or_bytes 0 (take width (drop offset bytes)) 0)"
begin

lemma read_total: "offset + width \<le> length bytes \<Longrightarrow> \<exists>v. read bytes offset = Inr v"
  by (simp add: read)

lemma read_word: "offset + width \<le> length bytes \<Longrightarrow> take width (drop offset bytes) = le_bytes width v \<Longrightarrow>
    read bytes offset = Inr v"
  by (simp add: read or_bytes_le_bytes width)

lemma read_bytes:
  assumes fit: "offset + width \<le> length bytes" and "read bytes offset = Inr v"
  shows "take width (drop offset bytes) = le_bytes width v"
proof -
  have len: "length (take width (drop offset bytes)) = width" using fit by simp
  have "v = or_bytes 0 (take width (drop offset bytes)) 0" using assms by (simp add: read)
  then show ?thesis
    using le_bytes_or_bytes [where 'a = 'a, of "take width (drop offset bytes)"] width unfolding len by simp
qed

lemma read_word_in: "read (pre @ le_bytes width v @ post) (length pre) = Inr v"
  by (rule read_word) simp_all

end

lemma byte_at_ok [simp]: "i < length bytes \<Longrightarrow> byte_at bytes i = Inr (bytes ! i)"
  by (simp add: byte_at_def)

lemma take_drop_Suc: "offset < length bytes \<Longrightarrow> take (Suc n) (drop offset bytes) = bytes ! offset # take n (drop (Suc offset) bytes)"
  by (metis Cons_nth_drop_Suc take_Suc_Cons)

lemma read_loop_ok:
  "offset + n \<le> length bytes \<Longrightarrow>
     read_loop (map (\<lambda>i. s + 8 * i) [0..<n]) bytes offset v = Inr (or_bytes s (take n (drop offset bytes)) v)"
proof (induction n arbitrary: offset s v)
  case (Suc n)
  have "map (\<lambda>i. s + 8 * i) [0..<Suc n] = s # map (\<lambda>i. (s + 8) + 8 * i) [0..<n]"
    by (simp add: upt_conv_Cons map_Suc_upt [symmetric] comp_def del: upt_Suc)
  with Suc show ?case by (simp add: take_drop_Suc del: upt_Suc)
qed simp

lemma shifts_eq:
  "[0, 8, 16, 24] = map ((*) 8) [0..<4]"
  "[0, 8, 16, 24, 32, 40, 48, 56] = map ((*) 8) [0..<8]"
  by (simp_all add: upt_rec)

lemma read_loop_0: "offset + n \<le> length bytes \<Longrightarrow>
    read_loop (map ((*) 8) [0..<n]) bytes offset 0 = Inr (or_bytes 0 (take n (drop offset bytes)) 0)"
  using read_loop_ok [of offset n bytes 0 0] by simp

interpretation r16: word_reader read_u16 2
proof
  fix offset and bytes :: "u8 list"
  assume "offset + 2 \<le> length bytes"
  then show "read_u16 bytes offset = Inr (or_bytes 0 (take 2 (drop offset bytes)) 0)"
    by (simp add: read_u16_def numeral_2_eq_2 take_drop_Suc)
qed simp

interpretation r32: word_reader read_u32 4
  by unfold_locales (simp_all add: read_u32_def shifts_eq read_loop_0)

interpretation r64: word_reader read_u64 8
  by unfold_locales (simp_all add: read_u64_def shifts_eq read_loop_0)

interpretation t32: word_reader read_u32_at 4
proof
  fix offset and bytes :: "u8 list"
  assume "offset + 4 \<le> length bytes"
  then show "read_u32_at bytes offset = Inr (or_bytes 0 (take 4 (drop offset bytes)) 0)"
    by (simp add: read_u32_at_def numeral_eq_Suc take_drop_Suc or.assoc)
qed simp

interpretation t64: word_reader read_u64_at 8
  by unfold_locales (simp_all add: read_u64_at_def shifts_eq read_loop_0)

section \<open>Ranges\<close>

lemma range_fits_iff:
  "n < 2 ^ 64 \<Longrightarrow> range_fits off sz n \<longleftrightarrow> unat off + unat sz \<le> n"
proof -
  assume "n < 2 ^ 64"
  then have n: "unat (of_nat n :: u64) = n" by (simp add: unat_of_nat take_bit_nat_eq_self)
  show ?thesis
    using unat_sub [of off "of_nat n"] by (auto simp: range_fits_def word_le_nat_alt n)
qed

text \<open>Below the end of a range that lies in the file, 64-bit sums are sums.\<close>

lemma unat_add_in: "unat (a :: u64) + k < 2 ^ 64 \<Longrightarrow> unat (a + of_nat k) = unat a + k"
  by (simp add: unat_word_ariths unat_of_nat take_bit_nat_eq_self)

lemma unat_ucast_u64 [simp]:
  "unat (ucast (x :: u16) :: u64) = unat x" "unat (ucast (y :: u32) :: u64) = unat y"
  using unsigned_less [of x] unsigned_less [of y]
  by (auto simp: unsigned_ucast_eq intro!: take_bit_nat_eq_self elim!: less_trans)

section \<open>No access outside the file\<close>

definition safe :: "dump_error + 'a \<Rightarrow> bool" where
  "safe r \<longleftrightarrow> r \<noteq> Inl OutOfBounds"

lemma safe_simps [simp]: "safe (Inr x)" "safe (Inl e) \<longleftrightarrow> e \<noteq> OutOfBounds"
  by (simp_all add: safe_def)

lemma safe_and_then: "safe r \<Longrightarrow> (\<And>x. r = Inr x \<Longrightarrow> safe (f x)) \<Longrightarrow> safe (and_then r f)"
  by (cases r) auto

lemma safe_map_result: "(\<And>x. x \<in> set xs \<Longrightarrow> safe (f x)) \<Longrightarrow> safe (map_result f xs)"
  by (induction xs) (auto intro!: safe_and_then)

lemma length_map_result: "map_result f xs = Inr ys \<Longrightarrow> length ys = length xs"
  by (induction xs arbitrary: ys) (auto simp: and_then_Inr)

lemma string_loop_safe: "unat stop \<le> length bytes \<Longrightarrow> safe (string_loop bytes cursor stop v)"
proof (induction bytes cursor stop v rule: string_loop.induct)
  case (1 bytes cursor stop v)
  then show ?case
    by (subst string_loop.simps) (auto simp: word_less_nat_alt)
qed

lemma read_string_at_safe:
  assumes "length bytes < 2 ^ 64" "range_fits toff tsize (length bytes)"
  shows "safe (read_string_at bytes toff tsize soff)"
proof -
  have "unat toff + unat tsize \<le> length bytes" using assms by (simp add: range_fits_iff)
  then have "unat (toff + tsize) \<le> length bytes"
    using unat_add_in [of toff "unat tsize"] assms(1) by simp
  then show ?thesis by (simp add: read_string_at_def string_loop_safe)
qed

lemma read_section_header_safe: "offset + 64 \<le> length bytes \<Longrightarrow> safe (read_section_header bytes offset)"
  unfolding read_section_header_def by (intro safe_and_then) (simp_all add: r32.read r64.read)

lemma read_section_headers_safe:
  assumes "length bytes < 2 ^ 64"
  shows "safe (read_section_headers bytes shoff shentsize shnum shstrndx)"
proof (cases "shentsize = 64 \<and> shnum \<noteq> 0 \<and> shstrndx < shnum \<and> range_fits shoff (ucast shentsize * ucast shnum) (length bytes)")
  case True
  have "unat shnum < 2 ^ LENGTH(16)" by (rule unsigned_less)
  then have sz: "unat (64 * ucast shnum :: u64) = 64 * unat shnum" by (simp add: unat_word_ariths)
  then have table: "unat shoff + 64 * unat shnum \<le> length bytes"
    using True assms by (auto simp: range_fits_iff)
  have "safe (read_section_header bytes (unat (shoff + of_nat i * 64)))" if "i < unat shnum" for i
  proof -
    have "unat (shoff + of_nat (i * 64)) = unat shoff + i * 64"
      using that table assms by (intro unat_add_in) linarith
    then show ?thesis using that table by (intro read_section_header_safe) simp
  qed
  then show ?thesis
    using True assms
    by (auto simp: read_section_headers_def Let_def name_section_def
        intro!: safe_and_then safe_map_result read_string_at_safe split: option.splits)
qed (auto simp: read_section_headers_def)

lemma read_symbols_safe:
  assumes "length bytes < 2 ^ 64"
  shows "safe (read_symbols bytes ss symtab)"
proof (cases "ds_entsize symtab = 24 \<and> range_fits (ds_offset symtab) (ds_size symtab) (length bytes)")
  case True
  then have table: "unat (ds_offset symtab) + unat (ds_size symtab) \<le> length bytes"
    using assms by (simp add: range_fits_iff)
  have "safe (read_symbol bytes strtab (unat (ds_offset symtab + of_nat i * 24)))"
    if "i < unat (ds_size symtab div 24)" "range_fits (ds_offset strtab) (ds_size strtab) (length bytes)" for i strtab
  proof -
    have i: "i * 24 + 24 \<le> unat (ds_size symtab)" using that by (simp add: unat_div)
    have "unat (ds_offset symtab + of_nat (i * 24)) = unat (ds_offset symtab) + i * 24"
      using i table assms by (intro unat_add_in) linarith
    then have "unat (ds_offset symtab + of_nat i * 24) + 24 \<le> length bytes" using i table by simp
    then show ?thesis using that assms unfolding read_symbol_def
      by (intro safe_and_then) (auto simp: r32.read r16.read r64.read intro!: safe_and_then read_string_at_safe split: option.splits)
  qed
  then show ?thesis
    using True by (auto simp: read_symbols_def Let_def intro!: safe_map_result)
qed (auto simp: read_symbols_def)

lemma extract_safe: "length bytes < 2 ^ 64 \<Longrightarrow> safe (extract_supported_rv64_object bytes)"
  unfolding extract_supported_rv64_object_def
  by (auto simp: r16.read r64.read intro!: safe_and_then read_section_headers_safe read_symbols_safe split: option.splits)

lemma decode_short_safe: "safe (decode_short obj offset)"
  by (auto simp: decode_short_def name_target_def t32.read intro!: safe_and_then split: option.splits)

lemma decode_at_safe: "safe (decode_at obj offset)"
  by (auto simp: decode_at_def t64.read decode_short_safe intro!: safe_and_then split: option.splits)

lemma decode_loop_safe: "safe (decode_loop obj offset)"
proof (induction obj offset rule: decode_loop.induct)
  case (1 obj offset)
  show ?case
  proof (cases "decode_at obj offset")
    case (Inl e)
    then show ?thesis using decode_at_safe [of obj offset] by (subst decode_loop.simps) simp
  next
    case (Inr r)
    obtain i offset' where r: "r = (i, offset')" by fastforce
    have "offset < length (eo_text_bytes obj) \<Longrightarrow> safe (decode_loop obj offset')"
      using 1 Inr r by blast
    then show ?thesis using Inr r by (subst decode_loop.simps) (auto split: sum.split)
  qed
qed

lemma check_labels_error: "check_labels n ds ls = Some e \<Longrightarrow> e \<noteq> OutOfBounds"
  by (induction ls) (auto split: if_splits)

lemma decode_text_bytes_safe: "safe (decode_text_bytes obj)"
  using decode_loop_safe [of obj 0]
  by (auto simp: decode_text_bytes_def intro!: safe_and_then split: option.splits dest: check_labels_error)



end
