(* ===== verification/Rv64_Roundtrip.thy ===== *)
theory Rv64_Roundtrip
  imports Rv64_Parse Objdump_Safe
begin

text \<open>
  The disassembler against the assembler: the line \<open>c4c-objdump\<close> prints for an instruction is a line
  \<open>rv64_line_assembler.cpp\<close> parses, and its encoding is the instruction's machine code.
\<close>

unbundle bit_operations_syntax

section \<open>Fields of a machine word\<close>

lemma field_masks:
  "x AND (1 :: u32) = x AND mask 1" "x AND (0x7 :: u32) = x AND mask 3" "x AND (0xf :: u32) = x AND mask 4" "x AND (0x1f :: u32) = x AND mask 5" "x AND (0x3f :: u32) = x AND mask 6"
  "x AND (0x7f :: u32) = x AND mask 7" "x AND (0xff :: u32) = x AND mask 8" "x AND (0x3ff :: u32) = x AND mask 10" "x AND (0xfff :: u32) = x AND mask 12"
  "x AND (0xfffff :: u32) = x AND mask 20"
  by (simp_all add: mask_eq_exp_minus_1)

lemmas field_of_defs = opcode_of_def rd_of_def funct3_of_def rs1_of_def rs2_of_def funct7_of_def

text \<open>Bit by bit: the positions as literals, so that the simplifier evaluates every field.\<close>

lemma word32_eqI:
  "list_all (\<lambda>k. bit a k = bit b k) [0, 1, 2, 3, 4, 5, 6, 7, 8, 9, 10, 11, 12, 13, 14, 15] \<Longrightarrow>
   list_all (\<lambda>k. bit a k = bit b k) [16, 17, 18, 19, 20, 21, 22, 23, 24, 25, 26, 27, 28, 29, 30, 31] \<Longrightarrow> a = (b :: u32)"
proof (rule bit_word_eqI)
  fix k assume *: "list_all (\<lambda>k. bit a k = bit b k) [0, 1, 2, 3, 4, 5, 6, 7, 8, 9, 10, 11, 12, 13, 14, 15]"
    "list_all (\<lambda>k. bit a k = bit b k) [16, 17, 18, 19, 20, 21, 22, 23, 24, 25, 26, 27, 28, 29, 30, 31]"
  assume "k < LENGTH(32)"
  then have "k \<in> set [0..<32]" by simp
  also have "[0..<32] = [0, 1, 2, 3, 4, 5, 6, 7, 8, 9, 10, 11, 12, 13, 14, 15] @ [16, 17, 18, 19, 20, 21, 22, 23, 24, 25, 26, 27, 28, 29, 30, 31]" by code_simp
  finally show "bit a k = bit b k" using * by (auto simp: list_all_iff)
qed

lemma bit_twice: "bit (x * 2 :: u32) k \<longleftrightarrow> k < 32 \<and> 0 < k \<and> bit x (k - 1)"
proof -
  have "x * 2 = push_bit 1 x" by simp
  then show ?thesis by (simp only: bit_push_bit_iff) (auto simp: less_Suc_eq_le)
qed

lemma encode_r_fields:
  "encode_r_type (opcode_of w) (rd_of w) (funct3_of w) (rs1_of w) (rs2_of w) (funct7_of w) = w"
  unfolding encode_r_type_def field_of_defs field_masks
  by (rule word32_eqI) (simp_all add: bit_simps)

lemma encode_i_fields:
  "encode_i_type (opcode_of w) (rd_of w) (funct3_of w) (rs1_of w) (signed_drop_bit 20 w) = w"
  unfolding encode_i_type_def field_of_defs field_masks
  by (rule word32_eqI) (simp_all add: bit_simps)

lemma encode_s_fields:
  "encode_s_type (opcode_of w) (funct3_of w) (rs1_of w) (rs2_of w) (sign_extend (imm12s_of w) 12) = w"
  unfolding encode_s_type_def field_of_defs field_masks imm12s_of_def sign_extend_def Let_def
  by (rule word32_eqI) (simp_all add: bit_simps)

lemma encode_u_fields:
  "encode_u_type (opcode_of w) (rd_of w) (sign_extend (drop_bit 12 w) 20) = w"
  unfolding encode_u_type_def field_of_defs field_masks sign_extend_def
  by (rule word32_eqI) (simp_all add: bit_simps)

lemma encode_b_fields:
  "encode_b_type (opcode_of w) (funct3_of w) (rs1_of w) (rs2_of w) (sign_extend (imm13_of w) 13) = w"
  unfolding encode_b_type_def field_of_defs field_masks imm13_of_def sign_extend_def
  by (rule word32_eqI) (simp_all add: bit_simps bit_twice)

lemma encode_j_fields:
  "encode_j_type (opcode_of w) (rd_of w) (sign_extend (imm21_of w) 21) = w"
  unfolding encode_j_type_def field_of_defs field_masks imm21_of_def sign_extend_def
  by (rule word32_eqI) (simp_all add: bit_simps bit_twice)

section \<open>Immediates\<close>

lemma div_between: "- a \<le> x div b \<and> x div b < a" if "0 < b" "- a * b \<le> x" "x < a * b" for a b x :: int
proof
  show "- a \<le> x div b" using zdiv_mono1 [OF that(2,1)] that(1) by (simp only: nonzero_mult_div_cancel_right)
  show "x div b < a"
  proof (rule ccontr)
    assume "\<not> x div b < a"
    then have "a * b \<le> x div b * b" using that(1) by simp
    also have "\<dots> \<le> x" using that(1) pos_mod_sign [of b x] div_mult_mod_eq [of x b] by linarith
    finally show False using that(3) by simp
  qed
qed

lemma sint_signed_drop_bit_bounds:
  "- (2 ^ (31 - n)) \<le> sint (signed_drop_bit n (w :: u32)) \<and> sint (signed_drop_bit n w) < 2 ^ (31 - n)" if "n \<le> 31"
proof -
  have "- (2 ^ 31) \<le> sint w" "sint w < 2 ^ 31" using sint_greater_eq [of w] sint_less [of w] by simp_all
  moreover have "(2 :: int) ^ 31 = 2 ^ (31 - n) * 2 ^ n" using that by (simp flip: power_add)
  ultimately have "- (2 ^ (31 - n)) * 2 ^ n \<le> sint w" "sint w < 2 ^ (31 - n) * 2 ^ n" by simp_all
  then show ?thesis using div_between [of "2 ^ n"] by (simp add: sint_signed_drop_bit_eq drop_bit_eq_div)
qed

lemma fits_immediates:
  "fits_signed_12_bit_immediate (sint (signed_drop_bit 20 (w :: u32)))"
  "fits_signed_12_bit_immediate (sint (sign_extend v 12))"
  "fits_signed_20_bit_immediate (sint (sign_extend v 20))"
  using sint_signed_drop_bit_bounds [of 20 w] sint_signed_drop_bit_bounds [of 20 "push_bit 20 v"]
    sint_signed_drop_bit_bounds [of 12 "push_bit 12 v"]
  by (simp_all add: fits_signed_12_bit_immediate_def fits_signed_20_bit_immediate_def sign_extend_def)

lemma sint_even: "sint (v :: u32) mod 2 = 0 \<longleftrightarrow> \<not> bit v 0"
proof -
  have "bit (sint v) 0 = bit v 0" by (simp only: bit_sint_iff) simp
  then show ?thesis by (simp only: bit_0 flip: even_iff_mod_2_eq_zero) simp
qed

lemma fits_targets:
  "fits_branch_immediate (sint (sign_extend (imm13_of w) 13))"
  "fits_jump_immediate (sint (sign_extend (imm21_of w) 21))"
proof -
  have "sint (sign_extend (imm13_of w) 13) mod 2 = 0" "sint (sign_extend (imm21_of w) 21) mod 2 = 0"
    unfolding sint_even by (simp_all add: sign_extend_def imm13_of_def imm21_of_def bit_simps)
  moreover have "- 4096 \<le> sint (sign_extend (imm13_of w) 13)" "sint (sign_extend (imm13_of w) 13) < 4096"
      "- 1048576 \<le> sint (sign_extend (imm21_of w) 21)" "sint (sign_extend (imm21_of w) 21) < 1048576"
    using sint_signed_drop_bit_bounds [of 19 "push_bit 19 (imm13_of w)"]
      sint_signed_drop_bit_bounds [of 11 "push_bit 11 (imm21_of w)"] by (simp_all add: sign_extend_def)
  ultimately show "fits_branch_immediate (sint (sign_extend (imm13_of w) 13))"
      "fits_jump_immediate (sint (sign_extend (imm21_of w) 21))"
    unfolding fits_branch_immediate_def fits_jump_immediate_def by (presburger, simp, presburger)
qed

section \<open>Printed fields\<close>

definition plain :: "string \<Rightarrow> bool" where
  "plain s \<longleftrightarrow> s \<noteq> [] \<and> list_all (\<lambda>c. \<not> is_blank c \<and> c \<noteq> CHR '','') s"

fun comma_list :: "string list \<Rightarrow> string" where
  "comma_list [] = []"
| "comma_list [f] = f"
| "comma_list (f # fs) = f @ '', '' @ comma_list fs"

lemma trim_id: "s \<noteq> [] \<Longrightarrow> \<not> is_blank (hd s) \<Longrightarrow> \<not> is_blank (last s) \<Longrightarrow> trim_ascii s = s"
  by (simp add: trim_ascii_def dropWhile_eq_self_iff [THEN iffD2] hd_rev)

lemma plain_ends: "plain s \<Longrightarrow> s \<noteq> [] \<and> \<not> is_blank (hd s) \<and> \<not> is_blank (last s)"
  by (auto simp: plain_def list_all_iff)

lemma trim_plain [simp]: "plain s \<Longrightarrow> trim_ascii s = s" "plain s \<Longrightarrow> trim_ascii (SP # s) = s"
proof -
  assume s: "plain s"
  then show "trim_ascii s = s" using plain_ends trim_id by blast
  then show "trim_ascii (SP # s) = s" by (simp add: trim_ascii_def is_blank_def)
qed

lemma comma_list_ends: "fs \<noteq> [] \<Longrightarrow> list_all plain fs \<Longrightarrow>
    comma_list fs \<noteq> [] \<and> \<not> is_blank (hd (comma_list fs)) \<and> \<not> is_blank (last (comma_list fs))"
  by (induction fs rule: comma_list.induct) (auto dest: plain_ends)

lemma plain_no_comma: "plain f \<Longrightarrow> CHR '','' \<notin> set f"
  by (auto simp: plain_def list_all_iff)

lemma split_at_comma: "CHR '','' \<notin> set f \<Longrightarrow>
    takeWhile (\<lambda>c. c \<noteq> CHR '','') (f @ CHR '','' # r) = f \<and> tl (dropWhile (\<lambda>c. c \<noteq> CHR '','') (f @ CHR '','' # r)) = r"
  by (induction f) auto

lemma split_loop_comma_list:
  "fs \<noteq> [] \<Longrightarrow> list_all plain fs \<Longrightarrow> p = [] \<or> p = [SP] \<Longrightarrow>
     split_loop (p @ comma_list fs) (length acc + length fs) acc = Some (acc @ fs)"
proof (induction fs arbitrary: acc p rule: comma_list.induct)
  case (2 f)
  then have "CHR '','' \<notin> set (p @ f)" using plain_no_comma [of f] by auto
  then show ?case using 2 by (subst split_loop.simps) auto
next
  case (3 f g fs)
  then have f: "CHR '','' \<notin> set (p @ f)" "trim_ascii (p @ f) = f" using plain_no_comma [of f] by auto
  have line: "p @ comma_list (f # g # fs) = (p @ f) @ CHR '','' # SP # comma_list (g # fs)" by simp
  have "split_loop (p @ comma_list (f # g # fs)) (length acc + length (f # g # fs)) acc =
      split_loop ([SP] @ comma_list (g # fs)) (length (acc @ [f]) + length (g # fs)) (acc @ [f])"
    unfolding line by (subst split_loop.simps) (use f split_at_comma [OF f(1)] in \<open>simp add: Let_def\<close>)
  then show ?case using "3.IH" [of "[SP]" "acc @ [f]"] 3(3) by simp
qed simp

lemma split_comma_list: "fs \<noteq> [] \<Longrightarrow> list_all plain fs \<Longrightarrow> split_fields (comma_list fs) (length fs) = Some fs"
  using split_loop_comma_list [of fs "[]" "[]"] by (auto simp: split_fields_def list_all_iff plain_def)

section \<open>Printed registers and numbers\<close>

lemma digit_not_special: "isdigit c \<Longrightarrow> \<not> is_blank c \<and> c \<noteq> CHR '','' \<and> c \<noteq> CHR ''-'' \<and> c \<noteq> CHR ''+'' \<and>
    c \<noteq> CHR ''x'' \<and> c \<noteq> CHR ''X'' \<and> c \<noteq> CHR ''('' \<and> c \<noteq> CHR '')''"
  by (auto simp: isdigit_def is_blank_def code_def)

lemma show_nat_chars: "c \<in> set (show_nat n) \<Longrightarrow> isdigit c"
  using show_nat_digits [of n] by (simp add: list_all_iff)

lemma plain_show_nat [simp]: "plain (show_nat n)" "plain (CHR ''v'' # show_nat n)"
  using show_nat_digits [of n] show_nat_chars [of _ n] digit_not_special
  by (auto simp: plain_def list_all_iff is_blank_def)

lemma show_int_chars: "c \<in> set (show_int i) \<Longrightarrow> c = CHR ''-'' \<or> isdigit c"
  by (auto simp: show_int_def dest: show_nat_chars split: if_splits)

lemma plain_show_int [simp]: "plain (show_int i)"
proof -
  have "plain (CHR ''-'' # show_nat n)" for n
    using plain_show_nat(1) [of n] by (simp add: plain_def is_blank_def)
  then show ?thesis by (simp add: show_int_def)
qed

lemma digits_value_show_nat: "digits_value 10 (show_nat n) = n"
proof (induction n rule: show_nat.induct)
  case (1 n)
  have "xdigit_value (char_of (48 + k)) = k" if "k < 10" for k :: nat
    using that by (simp add: xdigit_value_def isdigit_def code_def)
  then show ?case using 1 by (subst show_nat.simps) (auto simp: digits_value_def)
qed

lemma from_chars_show_nat: "n < 2 ^ width \<Longrightarrow> from_chars width 10 (show_nat n) = Some (n, [])"
proof -
  assume n: "n < 2 ^ width"
  have all: "\<forall>c\<in>set (show_nat n). digit_in_base 10 c" using show_nat_chars [of _ n] by (simp add: digit_in_base_def)
  show ?thesis using n show_nat_digits [of n] all by (simp add: from_chars_def digits_value_show_nat takeWhile_eq_all_conv [THEN iffD2, OF all])
qed

lemma show_nat_not_hex: "\<not> hex_prefixed (show_nat n)"
proof
  assume "hex_prefixed (show_nat n)"
  then have "show_nat n ! 1 \<in> set (show_nat n)" "show_nat n ! 1 = CHR ''x'' \<or> show_nat n ! 1 = CHR ''X''"
    by (auto simp: hex_prefixed_def)
  then show False using show_nat_chars [of _ n] digit_not_special by blast
qed

lemma parse_u32_show_nat: "n \<le> unat m \<Longrightarrow> parse_u32_field (show_nat n) m = Some (of_nat n)"
proof -
  assume n: "n \<le> unat m"
  then have "n < 2 ^ LENGTH(32)" by (rule order_le_less_trans) (rule unsigned_less)
  then show ?thesis
    using n show_nat_digits [of n] by (simp add: parse_u32_field_def show_nat_not_hex from_chars_show_nat)
qed

lemma parse_signed_show_int: "- (2 ^ 63) \<le> i \<Longrightarrow> i < 2 ^ 63 \<Longrightarrow> parse_signed_field (show_int i) = Some i"
proof -
  assume i: "- (2 ^ 63) \<le> i" "i < 2 ^ 63"
  have ne: "show_nat k \<noteq> []" and hd: "hd (show_nat k) \<noteq> CHR ''-''" "hd (show_nat k) \<noteq> CHR ''+''" for k
    using show_nat_digits [of k] digit_not_special show_nat_chars [of "hd (show_nat k)" k] by auto
  have digits: "k \<le> 2 ^ 63 \<Longrightarrow> parse_unsigned_digits (show_nat k) 10 = Some k" for k
    by (simp add: parse_unsigned_digits_def from_chars_show_nat)
  show ?thesis
  proof (cases "i < 0")
    case True
    have "trim_ascii (CHR ''-'' # show_nat (nat (- i))) = CHR ''-'' # show_nat (nat (- i))"
      using plain_show_int [of i] True by (simp add: show_int_def)
    then show ?thesis
      using i True ne digits [of "nat (- i)"] by (simp add: parse_signed_field_def show_int_def show_nat_not_hex nat_le_iff)
  next
    case False
    then show ?thesis
      using i ne hd digits [of "nat i"] by (simp add: parse_signed_field_def show_int_def show_nat_not_hex nat_le_iff)
  qed
qed

lemma parse_show_i32: "parse_signed_field (show_i32 w) = Some (sint w)"
proof -
  have "- (2 ^ 31) \<le> sint w" "sint w < 2 ^ 31" using sint_greater_eq [of w] sint_less [of w] by simp_all
  then show ?thesis unfolding show_i32_def by (intro parse_signed_show_int) simp_all
qed

lemma parse_vector: "r < 32 \<Longrightarrow> parse_vector_register (CHR ''v'' # show_u32 r) = Some \<lparr>reg_bank = Vector, reg_index = r\<rparr>"
proof -
  assume "r < 32"
  then have "unat r \<le> 31" by unat_arith
  then show ?thesis
    using show_nat_digits [of "unat r"]
    by (simp add: parse_vector_register_def show_u32_def from_chars_show_nat Let_def neq_Nil_conv)
qed

lemma gpr_names_parse:
  "list_all (\<lambda>n. parse_gpr (gpr_names ! n) = Some \<lparr>reg_bank = Gpr, reg_index = of_nat n\<rparr> \<and> plain (gpr_names ! n) \<and>
     CHR ''('' \<notin> set (gpr_names ! n) \<and> CHR '')'' \<notin> set (gpr_names ! n)) [0..<32]"
  by code_simp

lemma parse_gpr_name:
  assumes "r < 32"
  shows "parse_gpr (gpr_name r) = Some \<lparr>reg_bank = Gpr, reg_index = r\<rparr>" "plain (gpr_name r)"
    "CHR ''('' \<notin> set (gpr_name r)" "CHR '')'' \<notin> set (gpr_name r)"
proof -
  have r: "unat r < 32" using assms by unat_arith
  then have "gpr_name r = gpr_names ! unat r" by (simp add: gpr_name_def gpr_names_def)
  with gpr_names_parse r show "parse_gpr (gpr_name r) = Some \<lparr>reg_bank = Gpr, reg_index = r\<rparr>" "plain (gpr_name r)"
    "CHR ''('' \<notin> set (gpr_name r)" "CHR '')'' \<notin> set (gpr_name r)"
    by (auto simp: list_all_iff)
qed

lemma field_bounds: "rd_of w < 32" "rs1_of w < 32" "rs2_of w < 32"
proof -
  have "x AND 0x1f < 32" for x :: u32
    using and_mask_less' [of 5 x] by (simp add: mask_eq_exp_minus_1)
  then show "rd_of w < 32" "rs1_of w < 32" "rs2_of w < 32" by (simp_all add: field_of_defs)
qed

section \<open>Printed lines\<close>

definition asm_text :: "string \<Rightarrow> string list \<Rightarrow> string" where
  "asm_text mnemonic fs = mnemonic @ SP # comma_list fs"

lemma starts_with_mnemonic: "plain mn \<Longrightarrow> plain tok \<Longrightarrow> starts_with_token (mn @ SP # s) tok \<longleftrightarrow> mn = tok"
proof
  assume p: "plain mn" "plain tok" and s: "starts_with_token (mn @ SP # s) tok"
  have tok: "take (length tok) (mn @ SP # s) = tok" "length tok < length (mn @ SP # s) \<longrightarrow> is_blank ((mn @ SP # s) ! length tok)"
    using s by (auto simp: starts_with_token_def is_blank_def)
  consider "length tok < length mn" | "length tok = length mn" | "length mn < length tok" by linarith
  then show "mn = tok"
  proof cases
    case 1
    with tok(2) have "is_blank (mn ! length tok)" by (simp add: nth_append)
    with 1 p(1) show ?thesis by (auto simp: plain_def list_all_iff)
  next
    case 3
    with tok(1) have "SP \<in> set tok" by (metis in_set_conv_nth length_append nth_append_length nth_take s starts_with_token_def order.strict_trans2)
    with p(2) show ?thesis by (auto simp: plain_def list_all_iff is_blank_def)
  qed (use tok(1) in simp)
next
  assume "plain mn" "plain tok" "mn = tok"
  then show "starts_with_token (mn @ SP # s) tok" by (simp add: starts_with_token_def)
qed

lemma trim_asm_text:
  assumes mn: "plain mn" and fs: "fs \<noteq> []" "list_all plain fs"
  shows "trim_ascii (asm_text mn fs) = asm_text mn fs"
  using plain_ends [OF mn] comma_list_ends [OF fs] by (intro trim_id) (auto simp: asm_text_def)

lemma split_asm_text:
  assumes mn: "plain mn" and fs: "fs \<noteq> []" "list_all plain fs"
  shows "split_mnemonic (asm_text mn fs) = Some (mn, comma_list fs)"
proof -
  have nb: "\<forall>c\<in>set mn. c \<noteq> SP \<and> c \<noteq> HT" using mn by (auto simp: plain_def list_all_iff is_blank_def)
  then have "takeWhile (\<lambda>c. \<not> (c = SP \<or> c = HT)) (mn @ SP # comma_list fs) = mn"
    "dropWhile (\<lambda>c. \<not> (c = SP \<or> c = HT)) (mn @ SP # comma_list fs) = SP # comma_list fs"
    by (induction mn) auto
  moreover have "trim_ascii (comma_list fs) = comma_list fs"
    using comma_list_ends [OF fs] by (intro trim_id) auto
  ultimately show ?thesis
    unfolding split_mnemonic_def trim_asm_text [OF assms] by (simp add: asm_text_def Let_def)
qed

lemma parse_asm_text:
  assumes mn: "plain mn" and fs: "fs \<noteq> []" "list_all plain fs" and other: "mn \<noteq> ''.insn.d''" "mn \<noteq> ''li''"
  shows "parse_rv64_asm_line (asm_text mn fs) = parse_rv64i_line (asm_text mn fs)"
proof -
  have "SP \<in> set (asm_text mn fs)" "SP \<notin> set ''ret''" by (simp_all add: asm_text_def)
  then have "asm_text mn fs \<noteq> ''ret''" "asm_text mn fs \<noteq> []" by (metis, auto)
  moreover have "\<not> starts_with_token (asm_text mn fs) ''.insn.d''" "\<not> starts_with_token (asm_text mn fs) ''li''"
    using other mn by (simp_all add: asm_text_def starts_with_mnemonic plain_def is_blank_def)
  ultimately show ?thesis by (simp add: parse_rv64_asm_line_def trim_asm_text [OF mn fs] parse_insn_d_def parse_li_def)
qed

section \<open>From mnemonics to operand parsers\<close>

text \<open>Where a mnemonic is looked up: every table but its own misses it.\<close>

definition mnemonic_lookup :: "string \<Rightarrow> (u32 \<times> u32 \<times> u32) option \<times> (u32 \<times> u32) option \<times> (u32 \<times> u32 \<times> u32 \<times> u32) option \<times>
    (u32 \<times> u32) option \<times> (u32 \<times> u32) option \<times> u32 option \<times> u32 option" where
  "mnemonic_lookup n = (map_of r_specs n, map_of i_specs n, map_of shift_specs n, map_of load_specs n,
     map_of store_specs n, map_of u_specs n, map_of b_specs n)"

definition mnemonic_ok :: "string \<Rightarrow> bool" where
  "mnemonic_ok n \<longleftrightarrow> plain n \<and> n \<noteq> ''.insn.d'' \<and> n \<noteq> ''li''"

lemma mnemonic_tables:
  "list_all (\<lambda>(n, s). mnemonic_ok n \<and> mnemonic_lookup n = (Some s, None, None, None, None, None, None)) r_specs"
  "list_all (\<lambda>(n, s). mnemonic_ok n \<and> mnemonic_lookup n = (None, Some s, None, None, None, None, None)) i_specs"
  "list_all (\<lambda>(n, s). mnemonic_ok n \<and> mnemonic_lookup n = (None, None, Some s, None, None, None, None)) shift_specs"
  "list_all (\<lambda>(n, s). mnemonic_ok n \<and> mnemonic_lookup n = (None, None, None, Some s, None, None, None)) load_specs"
  "list_all (\<lambda>(n, s). mnemonic_ok n \<and> mnemonic_lookup n = (None, None, None, None, Some s, None, None)) store_specs"
  "list_all (\<lambda>(n, s). mnemonic_ok n \<and> mnemonic_lookup n = (None, None, None, None, None, Some s, None)) u_specs"
  "list_all (\<lambda>(n, s). mnemonic_ok n \<and> mnemonic_lookup n = (None, None, None, None, None, None, Some s)) b_specs"
  "list_all (\<lambda>n. mnemonic_ok n \<and> mnemonic_lookup n = (None, None, None, None, None, None, None)) [''jal'', ''jalr'']"
  by code_simp+

lemma parse_with_mnemonic:
  assumes "mnemonic_ok n" "fs \<noteq> []" "list_all plain fs"
  shows "parse_rv64_asm_line (asm_text n fs) =
    (case mnemonic_lookup n of (r, i, s, l, st, u, b) \<Rightarrow>
      (case r of Some spec \<Rightarrow> parse_r_operands spec (comma_list fs) | None \<Rightarrow>
      (case i of Some spec \<Rightarrow> parse_i_operands spec (comma_list fs) | None \<Rightarrow>
      (case s of Some spec \<Rightarrow> parse_shift_operands spec (comma_list fs) | None \<Rightarrow>
      (case l of Some spec \<Rightarrow> parse_load_operands spec (comma_list fs) | None \<Rightarrow>
      (case st of Some spec \<Rightarrow> parse_store_operands spec (comma_list fs) | None \<Rightarrow>
      (case u of Some opcode \<Rightarrow> parse_u_operands opcode (comma_list fs) | None \<Rightarrow>
      (case b of Some funct3 \<Rightarrow> parse_b_operands funct3 (comma_list fs) | None \<Rightarrow>
       if n = ''jal'' then parse_j_operands (comma_list fs)
       else if n = ''jalr'' then parse_load_operands (0x67, 0) (comma_list fs)
       else None))))))))"
  using assms unfolding mnemonic_ok_def
  by (simp add: parse_asm_text mnemonic_lookup_def parse_rv64i_line_def split_asm_text)

lemma in_spec_table: "list_all P xs \<Longrightarrow> x \<in> set xs \<Longrightarrow> P x"
  by (simp add: list_all_iff)

lemma parse_dispatch:
  assumes fs: "fs \<noteq> []" "list_all plain fs"
  shows "(n, rspec) \<in> set r_specs \<Longrightarrow> parse_rv64_asm_line (asm_text n fs) = parse_r_operands rspec (comma_list fs)"
    "(n, ispec) \<in> set i_specs \<Longrightarrow> parse_rv64_asm_line (asm_text n fs) = parse_i_operands ispec (comma_list fs)"
    "(n, sspec) \<in> set shift_specs \<Longrightarrow> parse_rv64_asm_line (asm_text n fs) = parse_shift_operands sspec (comma_list fs)"
    "(n, ispec) \<in> set load_specs \<Longrightarrow> parse_rv64_asm_line (asm_text n fs) = parse_load_operands ispec (comma_list fs)"
    "(n, ispec) \<in> set store_specs \<Longrightarrow> parse_rv64_asm_line (asm_text n fs) = parse_store_operands ispec (comma_list fs)"
    "(n, opcode) \<in> set u_specs \<Longrightarrow> parse_rv64_asm_line (asm_text n fs) = parse_u_operands opcode (comma_list fs)"
    "(n, opcode) \<in> set b_specs \<Longrightarrow> parse_rv64_asm_line (asm_text n fs) = parse_b_operands opcode (comma_list fs)"
    "parse_rv64_asm_line (asm_text ''jal'' fs) = parse_j_operands (comma_list fs)"
    "parse_rv64_asm_line (asm_text ''jalr'' fs) = parse_load_operands (0x67, 0) (comma_list fs)"
  using mnemonic_tables(8)
  by (auto dest!: mnemonic_tables [THEN in_spec_table] simp: parse_with_mnemonic [OF _ fs])

lemma parse_mem_text:
  assumes "r < 32"
  shows "parse_mem_operand (show_i32 v @ ''('' @ gpr_name r @ '')'') = Some (show_i32 v, \<lparr>reg_bank = Gpr, reg_index = r\<rparr>)"
    "plain (show_i32 v @ ''('' @ gpr_name r @ '')'')"
proof -
  let ?d = "show_i32 v" and ?f = "show_i32 v @ ''('' @ gpr_name r @ '')''"
  note reg = parse_gpr_name [OF assms]
  have d: "plain ?d" by (simp add: show_i32_def)
  have chars: "CHR ''('' \<notin> set ?d" "CHR '')'' \<notin> set ?d"
    using show_int_chars [of "CHR ''(''" "sint v"] show_int_chars [of "CHR '')''" "sint v"]
      digit_not_special [of "CHR ''(''"] digit_not_special [of "CHR '')''"] by (auto simp: show_i32_def)
  show plain: "plain ?f" using d reg(2) by (simp add: plain_def is_blank_def)
  have "takeWhile (\<lambda>c. c \<noteq> CHR ''('') ?f = ?d" "takeWhile (\<lambda>c. c \<noteq> CHR '')'') ?f = ?d @ ''('' @ gpr_name r"
    using chars reg(3,4) by (simp_all add: takeWhile_append takeWhile_eq_all_conv)
  then show "parse_mem_operand ?f = Some (?d, \<lparr>reg_bank = Gpr, reg_index = r\<rparr>)"
    using d reg(1,2) plain by (simp add: parse_mem_operand_def Let_def plain_def)
qed

section \<open>One instruction\<close>

text \<open>The label a line jumps to, and the line with the distance filled in.\<close>

fun line_target :: "asm_line \<Rightarrow> string option" where
  "line_target (BranchLine b) = Some (br_target_label b)"
| "line_target (JumpLine j) = Some (jp_target_label j)"
| "line_target _ = None"

fun set_target :: "int \<Rightarrow> asm_line \<Rightarrow> asm_line" where
  "set_target distance (BranchLine b) = BranchLine (b\<lparr>br_immediate := distance, br_target_label := []\<rparr>)"
| "set_target distance (JumpLine j) = JumpLine (j\<lparr>jp_immediate := distance, jp_target_label := []\<rparr>)"
| "set_target distance l = l"

definition reassembles :: "string \<Rightarrow> string option \<Rightarrow> int \<Rightarrow> u8 list \<Rightarrow> bool" where
  "reassembles s target distance bytes \<longleftrightarrow>
     (\<exists>l. parse_rv64_asm_line s = Some l \<and> line_target l = target \<and> encode_rv64_asm_line (set_target distance l) = Some bytes)"

lemma split_two: "plain a \<Longrightarrow> plain b \<Longrightarrow> split_fields (comma_list [a, b]) 2 = Some [a, b]"
  using split_comma_list [of "[a, b]"] by (simp add: numeral_2_eq_2)

lemma split_three: "plain a \<Longrightarrow> plain b \<Longrightarrow> plain c \<Longrightarrow> split_fields (comma_list [a, b, c]) 3 = Some [a, b, c]"
  using split_comma_list [of "[a, b, c]"] by (simp add: numeral_3_eq_3)

lemma plain_show_i32 [simp]: "plain (show_i32 v)"
  by (simp add: show_i32_def)

lemma register_field_gpr: "r < 32 \<Longrightarrow> register_field \<lparr>reg_bank = b, reg_index = r\<rparr> b = Some r"
  by (auto simp: register_field_def) unat_arith

lemmas printed_simps = split_two split_three parse_gpr_name parse_show_i32 parse_mem_text register_field_gpr field_bounds
  default_i_line_def default_register_def fits_immediates fits_targets encode_i_line_def append_le32_le Let_def
lemmas operand_defs = parse_r_operands_def parse_i_operands_def parse_shift_operands_def parse_memory_operands_def
  parse_load_operands_def parse_store_operands_def parse_u_operands_def parse_b_operands_def parse_j_operands_def

lemma reassemble_r:
  assumes "(n, opcode_of w, funct3_of w, funct7_of w) \<in> set r_specs"
  shows "reassembles (asm_text n [gpr_name (rd_of w), gpr_name (rs1_of w), gpr_name (rs2_of w)]) None d (le_bytes 4 w)"
  using encode_r_fields [of w]
  by (simp add: reassembles_def parse_dispatch(1) [OF _ _ assms] operand_defs printed_simps del: comma_list.simps)

lemma reassemble_i:
  assumes "(n, opcode_of w, funct3_of w) \<in> set i_specs"
  shows "reassembles (asm_text n [gpr_name (rd_of w), gpr_name (rs1_of w), show_i32 (signed_drop_bit 20 w)]) None d (le_bytes 4 w)"
  using encode_i_fields [of w]
  by (simp add: reassembles_def parse_dispatch(2) [OF _ _ assms] operand_defs printed_simps del: comma_list.simps)

lemma reassemble_load:
  assumes "(n, opcode_of w, funct3_of w) \<in> set load_specs"
  shows "reassembles (asm_text n [gpr_name (rd_of w), show_i32 (signed_drop_bit 20 w) @ ''('' @ gpr_name (rs1_of w) @ '')'']) None d
    (le_bytes 4 w)"
  using encode_i_fields [of w]
  by (simp add: reassembles_def parse_dispatch(4) [OF _ _ assms] operand_defs printed_simps del: comma_list.simps append.simps)

lemma reassemble_jalr:
  assumes "opcode_of w = 0x67" "funct3_of w = 0"
  shows "reassembles (asm_text ''jalr'' [gpr_name (rd_of w), show_i32 (signed_drop_bit 20 w) @ ''('' @ gpr_name (rs1_of w) @ '')'']) None d
    (le_bytes 4 w)"
  using encode_i_fields [of w] assms
  by (simp add: reassembles_def parse_dispatch(9) operand_defs printed_simps del: comma_list.simps append.simps)

lemma reassemble_store:
  assumes "(n, opcode_of w, funct3_of w) \<in> set store_specs"
  shows "reassembles (asm_text n [gpr_name (rs2_of w), show_i32 (sign_extend (imm12s_of w) 12) @ ''('' @ gpr_name (rs1_of w) @ '')'']) None d
    (le_bytes 4 w)"
  using encode_s_fields [of w]
  by (simp add: reassembles_def parse_dispatch(5) [OF _ _ assms] operand_defs printed_simps del: comma_list.simps append.simps)

lemma reassemble_u:
  assumes "(n, opcode_of w) \<in> set u_specs"
  shows "reassembles (asm_text n [gpr_name (rd_of w), show_i32 (sign_extend (drop_bit 12 w) 20)]) None d (le_bytes 4 w)"
  using encode_u_fields [of w]
  by (simp add: reassembles_def parse_dispatch(6) [OF _ _ assms] operand_defs printed_simps del: comma_list.simps)

lemma valid_symbol_plain: "is_valid_symbol s \<Longrightarrow> plain s"
proof -
  have sep: "\<not> is_symbol_continue c" if "is_blank c \<or> c = CHR '',''" for c
    using that by (auto simp: is_symbol_continue_def is_blank_def isalnum_def isalpha_def isdigit_def code_def)
  have start: "is_symbol_start c \<Longrightarrow> is_symbol_continue c" for c
    by (auto simp: is_symbol_start_def is_symbol_continue_def isalnum_def)
  assume "is_valid_symbol s"
  then have "s \<noteq> []" "list_all is_symbol_continue s"
    using start by (cases s; auto simp: is_valid_symbol_def)+
  then show ?thesis using sep by (auto simp: plain_def list_all_iff)
qed

lemma reassemble_branch:
  assumes "opcode_of w = 0x63" "(n, funct3_of w) \<in> set b_specs" "is_valid_symbol label"
  shows "reassembles (asm_text n [gpr_name (rs1_of w), gpr_name (rs2_of w), label]) (Some label)
    (sint (sign_extend (imm13_of w) 13)) (le_bytes 4 w)"
  using encode_b_fields [of w] assms(1,3) valid_symbol_plain [OF assms(3)]
  by (simp add: reassembles_def parse_dispatch(7) [OF _ _ assms(2)] operand_defs printed_simps del: comma_list.simps)

lemma reassemble_jal:
  assumes "opcode_of w = 0x6f" "is_valid_symbol label"
  shows "reassembles (asm_text ''jal'' [gpr_name (rd_of w), label]) (Some label)
    (sint (sign_extend (imm21_of w) 21)) (le_bytes 4 w)"
  using encode_j_fields [of w] assms valid_symbol_plain [OF assms(2)]
  by (simp add: reassembles_def parse_dispatch(8) operand_defs printed_simps del: comma_list.simps)

lemma encode_shift_fields:
  "encode_i_type (opcode_of w) (rd_of w) (funct3_of w) (rs1_of w) (drop_bit 20 w AND 0xfff) = w"
  unfolding encode_i_type_def field_of_defs field_masks
  by (rule word32_eqI) (simp_all add: bit_simps)

lemma shift_loop_some:
  "shift_loop w specs = Some r \<Longrightarrow> \<exists>n opcode funct3 funct7 limit. (n, opcode, funct3, funct7, limit) \<in> set specs \<and>
     opcode_of w = opcode \<and> funct3_of w = funct3 \<and>
     (let m = (if limit = 63 then 0x3f else 0x1f); imm12 = drop_bit 20 w AND 0xfff; shamt = imm12 AND m in
      imm12 AND NOT m = push_bit 5 funct7 \<and>
      r = (if shamt > limit then None
           else Some ((decoded_default ITypeForm n)\<lparr>di_destination := rd_of w, di_lhs := rs1_of w, di_immediate := shamt\<rparr>)))"
proof (induction specs)
  case (Cons spec specs)
  obtain n opcode funct3 funct7 limit where spec: "spec = (n, opcode, funct3, funct7, limit)" by (cases spec) auto
  show ?case
  proof (cases "opcode_of w = opcode \<and> funct3_of w = funct3 \<and>
      (drop_bit 20 w AND 0xfff) AND NOT (if limit = 63 then 0x3f else 0x1f) = push_bit 5 funct7")
    case True
    then show ?thesis using Cons.prems unfolding spec by (intro exI conjI) (auto simp: Let_def)
  next
    case False
    then have "shift_loop w specs = Some r" using Cons.prems by (auto simp: spec Let_def split: if_split_asm)
    then show ?thesis using Cons.IH by (meson list.set_intros(2))
  qed
qed simp

lemma reassemble_shift:
  assumes spec: "(n, opcode_of w, funct3_of w, f7, limit) \<in> set shift_specs"
    and m: "m = (if limit = 63 then 0x3f else 0x1f)"
    and sel: "(drop_bit 20 w AND 0xfff) AND NOT m = push_bit 5 f7"
  shows "reassembles (asm_text n [gpr_name (rd_of w), gpr_name (rs1_of w), show_i32 ((drop_bit 20 w AND 0xfff) AND m)]) None d (le_bytes 4 w)"
proof -
  define shamt where "shamt = (drop_bit 20 w AND 0xfff) AND m"
  have f7: "push_bit 5 f7 = 0 \<or> push_bit 5 f7 = 0x400" and lim: "limit = 63 \<and> m = 0x3f \<or> limit = 31 \<and> m = 0x1f"
    using spec m by (auto simp: shift_specs_def)
  have le: "shamt \<le> limit" using lim word_and_le1 by (auto simp: shamt_def)
  then have small: "uint shamt \<le> uint limit" "uint limit \<le> 63" using lim by (auto simp: word_le_def)
  then have sint: "sint shamt = uint shamt"
    unfolding sint_uint by (intro signed_take_bit_int_eq_self) (simp_all add: order_trans [OF _ uint_ge_0])
  have whole: "push_bit 5 f7 OR shamt = drop_bit 20 w AND 0xfff"
    unfolding shamt_def sel [symmetric] by (rule bit_word_eqI) (auto simp: bit_simps)
  have "uint (push_bit 5 f7 OR shamt) < 2 ^ 11"
    unfolding uint_or using f7 small by (intro OR_upper) auto
  then have fits: "fits_signed_12_bit_immediate (uint (drop_bit 20 w AND 0xfff))"
    unfolding whole by (simp add: fits_signed_12_bit_immediate_def order_trans [OF _ uint_ge_0])
  show ?thesis
    unfolding shamt_def [symmetric] using encode_shift_fields [of w] fits small
    by (simp add: reassembles_def parse_dispatch(3) [OF _ _ spec] operand_defs printed_simps sint whole
        fits_unsigned_shift_immediate_def del: comma_list.simps)
qed

lemma spec_tables_agree:
  "dump_r_specs = r_specs" "dump_i_specs = i_specs" "dump_shift_specs = shift_specs" "dump_load_specs = load_specs"
  "dump_store_specs = store_specs" "dump_u_specs = u_specs" "dump_branch_specs = b_specs"
  by (simp_all add: dump_r_specs_def r_specs_def dump_i_specs_def i_specs_def dump_shift_specs_def shift_specs_def
      dump_load_specs_def load_specs_def dump_store_specs_def store_specs_def dump_u_specs_def u_specs_def
      dump_branch_specs_def b_specs_def)

definition has_target :: "decoded_rv64i \<Rightarrow> bool" where
  "has_target i \<longleftrightarrow> di_format i = BranchForm \<or> di_format i = JalForm"

lemma rv64i_assembly_text:
  "rv64i_assembly \<lparr>di_format = RTypeForm, di_mnemonic = n, di_destination = rd, di_lhs = a, di_rhs = b, di_immediate = v, di_target_label = t\<rparr> =
     asm_text n [gpr_name rd, gpr_name a, gpr_name b]"
  "rv64i_assembly \<lparr>di_format = ITypeForm, di_mnemonic = n, di_destination = rd, di_lhs = a, di_rhs = b, di_immediate = v, di_target_label = t\<rparr> =
     asm_text n [gpr_name rd, gpr_name a, show_i32 v]"
  "rv64i_assembly \<lparr>di_format = LoadForm, di_mnemonic = n, di_destination = rd, di_lhs = a, di_rhs = b, di_immediate = v, di_target_label = t\<rparr> =
     asm_text n [gpr_name rd, show_i32 v @ ''('' @ gpr_name a @ '')'']"
  "rv64i_assembly \<lparr>di_format = JalrForm, di_mnemonic = n, di_destination = rd, di_lhs = a, di_rhs = b, di_immediate = v, di_target_label = t\<rparr> =
     asm_text n [gpr_name rd, show_i32 v @ ''('' @ gpr_name a @ '')'']"
  "rv64i_assembly \<lparr>di_format = StoreForm, di_mnemonic = n, di_destination = rd, di_lhs = a, di_rhs = b, di_immediate = v, di_target_label = t\<rparr> =
     asm_text n [gpr_name b, show_i32 v @ ''('' @ gpr_name a @ '')'']"
  "rv64i_assembly \<lparr>di_format = UTypeForm, di_mnemonic = n, di_destination = rd, di_lhs = a, di_rhs = b, di_immediate = v, di_target_label = t\<rparr> =
     asm_text n [gpr_name rd, show_i32 v]"
  "rv64i_assembly \<lparr>di_format = BranchForm, di_mnemonic = n, di_destination = rd, di_lhs = a, di_rhs = b, di_immediate = v, di_target_label = t\<rparr> =
     asm_text n [gpr_name a, gpr_name b, t]"
  "rv64i_assembly \<lparr>di_format = JalForm, di_mnemonic = n, di_destination = rd, di_lhs = a, di_rhs = b, di_immediate = v, di_target_label = t\<rparr> =
     asm_text n [gpr_name rd, t]"
  by (simp_all add: rv64i_assembly_def asm_text_def)

lemma reassemble_tail:
  "decode_rv64i_tail w = Some i \<Longrightarrow> \<not> has_target i \<and> reassembles (rv64i_assembly i) None d (le_bytes 4 w)"
  unfolding decode_rv64i_tail_def spec_tables_agree
  by (auto simp: find_Some_iff has_target_def decoded_default_def rv64i_assembly_text reassemble_load reassemble_store reassemble_u
      simp del: append.simps split: option.splits dest!: nth_mem)

lemma find_mem: "find P xs = Some x \<Longrightarrow> x \<in> set xs \<and> P x"
  by (auto simp: find_Some_iff)

lemma reassemble_rv64i:
  assumes "decode_rv64i w = Some i" "has_target i \<Longrightarrow> is_valid_symbol label"
  shows "if has_target i
    then reassembles (rv64i_assembly (i\<lparr>di_target_label := label\<rparr>)) (Some label) (sint (di_immediate i)) (le_bytes 4 w)
    else reassembles (rv64i_assembly i) None d (le_bytes 4 w)"
proof -
  let ?R = "find (\<lambda>(n, opcode, funct3, funct7). opcode_of w = opcode \<and> funct3_of w = funct3 \<and> funct7_of w = funct7) r_specs"
  let ?S = "shift_loop w shift_specs"
  let ?I = "find (\<lambda>(n, opcode, funct3). opcode_of w = opcode \<and> funct3_of w = funct3) i_specs"
  let ?B = "find (\<lambda>(n, funct3). funct3_of w = funct3) b_specs"
  note dec = assms(1) [unfolded decode_rv64i_def spec_tables_agree]
  consider (r) x where "?R = Some x" | (shift) x where "?R = None" "?S = Some x" | (i) x where "?R = None" "?S = None" "?I = Some x"
    | (jalr) "?R = None" "?S = None" "?I = None" "opcode_of w = 0x67" "funct3_of w = 0"
    | (jal) "?R = None" "?S = None" "?I = None" "opcode_of w = 0x6f"
    | (branch) x where "?R = None" "?S = None" "?I = None" "opcode_of w = 0x63" "?B = Some x"
    | (tail) "decode_rv64i_tail w = Some i"
  proof -
    have "decode_rv64i_tail w = Some i" if "?R = None" "?S = None" "?I = None" "\<not> (opcode_of w = 0x67 \<and> funct3_of w = 0)"
        "opcode_of w \<noteq> 0x6f" "opcode_of w \<noteq> 0x63 \<or> ?B = None"
      using dec that by (auto split: if_splits)
    note rest = this
    show thesis
    proof (cases ?R)
      case None
      note none = None
      show thesis
      proof (cases ?S)
        case None
        note none = none None
        show thesis
        proof (cases ?I)
          case None
          note none = none None
          show thesis
          proof (cases ?B)
            case None
            then show thesis using that(4,5) [OF none] rest [OF none] that(7) by blast
          next
            case (Some x)
            then show thesis using that(4,5) [OF none] that(6) [OF none _ Some] rest [OF none] that(7) by blast
          qed
        qed (use none that(3) in blast)
      qed (use none that(2) in blast)
    qed (use that(1) in blast)
  qed
  then show ?thesis
  proof cases
    case (r x)
    then show ?thesis using dec find_mem [OF r]
      by (auto simp: has_target_def decoded_default_def rv64i_assembly_text reassemble_r)
  next
    case (shift x)
    then have "shift_loop w shift_specs = Some (Some i)" using dec by simp
    from shift_loop_some [OF this] show ?thesis
      by (auto simp: Let_def has_target_def decoded_default_def rv64i_assembly_text reassemble_shift split: if_split_asm)
  next
    case (i x)
    then show ?thesis using dec find_mem [OF i(3)]
      by (auto simp: has_target_def decoded_default_def rv64i_assembly_text reassemble_i)
  next
    case (branch x)
    then show ?thesis using dec find_mem [OF branch(5)] assms(2)
      by (auto simp: has_target_def decoded_default_def rv64i_assembly_text reassemble_branch)
  next
    case tail
    then show ?thesis using reassemble_tail by simp
  qed (use dec assms(2) in \<open>auto simp: has_target_def decoded_default_def rv64i_assembly_text
      reassemble_jalr reassemble_jal simp del: append.simps\<close>)
qed

text \<open>The wide instruction: every bit of the word is a field or zero.\<close>

lemma field_join: "take_bit n w OR push_bit n (take_bit k (drop_bit n w)) = take_bit (n + k) (w :: 'a::len word)"
  by (rule bit_word_eqI) (auto simp: bit_simps)

lemma ucast_field: "(ucast (ucast (x AND mask k :: u64) :: u32) :: u64) = x AND mask k" if "k \<le> 32"
  using that by (intro bit_word_eqI) (auto simp: bit_simps)

lemma encode_insn_d_fields:
  assumes "decode_insn_d w = Some d"
  shows "0x3f OR push_bit 7 (ucast (dd_destination d)) OR push_bit 15 (ucast (dd_lhs d)) OR push_bit 20 (ucast (dd_rhs d)) OR
     push_bit 25 (ucast (dd_major d)) OR push_bit 32 (ucast (dd_operation d)) OR push_bit 40 (ucast (dd_accumulator d)) OR
     push_bit 48 (ucast (dd_dtype d)) = w"
proof -
  have w: "w AND 0x7f = 0x3f" "drop_bit 12 w AND 0x7 = 0" "drop_bit 45 w AND 0x7 = 0"
    and d: "d = \<lparr>dd_major = ucast (drop_bit 25 w AND 0x7f), dd_operation = ucast (drop_bit 32 w AND 0xff),
        dd_destination = ucast (drop_bit 7 w AND 0x1f), dd_lhs = ucast (drop_bit 15 w AND 0x1f),
        dd_rhs = ucast (drop_bit 20 w AND 0x1f), dd_accumulator = ucast (drop_bit 40 w AND 0x1f),
        dd_dtype = ucast (drop_bit 48 w AND 0xffff)\<rparr>"
    using assms by (auto simp: decode_insn_d_def split: if_splits)
  have masks: "(0x7 :: u64) = mask 3" "(0x1f :: u64) = mask 5" "(0x7f :: u64) = mask 7" "(0xff :: u64) = mask 8" "(0xffff :: u64) = mask 16"
    by (simp_all add: mask_eq_exp_minus_1)
  have "w = (w AND 0x7f) OR push_bit 7 (drop_bit 7 w AND 0x1f) OR push_bit 12 (drop_bit 12 w AND 0x7) OR
      push_bit 15 (drop_bit 15 w AND 0x1f) OR push_bit 20 (drop_bit 20 w AND 0x1f) OR push_bit 25 (drop_bit 25 w AND 0x7f) OR
      push_bit 32 (drop_bit 32 w AND 0xff) OR push_bit 40 (drop_bit 40 w AND 0x1f) OR push_bit 45 (drop_bit 45 w AND 0x7) OR
      push_bit 48 (drop_bit 48 w AND 0xffff)"
    unfolding masks by (simp add: take_bit_eq_mask [symmetric] field_join take_bit_word_eq_self or.assoc [symmetric])
  moreover have "(ucast (ucast (x AND 0x1f :: u64) :: u32) :: u64) = x AND 0x1f" "(ucast (ucast (x AND 0x7f :: u64) :: u32) :: u64) = x AND 0x7f"
    "(ucast (ucast (x AND 0xff :: u64) :: u32) :: u64) = x AND 0xff" "(ucast (ucast (x AND 0xffff :: u64) :: u32) :: u64) = x AND 0xffff" for x
    unfolding masks by (rule ucast_field, simp)+
  ultimately show ?thesis by (simp add: w d)
qed

lemma insn_d_bounds:
  assumes "decode_insn_d w = Some d"
  shows "dd_major d \<le> 0x7f" "dd_operation d \<le> 0xff" "dd_dtype d \<le> 0xffff" "dd_destination d < 32" "dd_lhs d < 32"
    "dd_rhs d < 32" "dd_accumulator d < 32"
proof -
  have le: "(ucast (x AND m :: u64) :: u32) \<le> ucast m" if "m < 2 ^ 32" for x m :: u64
  proof -
    have "unat (x AND m) \<le> unat m" using word_and_le1 [of x m] by (simp add: word_le_nat_alt)
    moreover have "unat m < 2 ^ 32" using that by (simp add: word_less_nat_alt)
    ultimately show ?thesis by (simp add: word_le_nat_alt unsigned_ucast_eq take_bit_nat_eq_self)
  qed
  have lt: "(ucast (x AND 0x1f :: u64) :: u32) < 32" for x
    using le [of "0x1f" x] by (simp add: word_le_nat_alt word_less_nat_alt)
  show "dd_major d \<le> 0x7f" "dd_operation d \<le> 0xff" "dd_dtype d \<le> 0xffff" "dd_destination d < 32" "dd_lhs d < 32"
    "dd_rhs d < 32" "dd_accumulator d < 32"
    using assms le [of "0x7f"] le [of "0xff"] le [of "0xffff"] lt by (auto simp: decode_insn_d_def split: if_splits)
qed

lemma reassemble_insn_d:
  assumes "decode_insn_d w = Some d"
  shows "reassembles (instruction_assembly (DecodedInsnD d)) None x (le_bytes 8 w)"
proof -
  let ?v = "\<lambda>r. CHR ''v'' # show_u32 r"
  let ?fs = "[show_u32 (dd_major d), show_u32 (dd_operation d), ?v (dd_destination d), ?v (dd_lhs d), ?v (dd_rhs d),
    ?v (dd_accumulator d), show_u32 (dd_dtype d)]"
  let ?r = "\<lambda>n. \<lparr>reg_bank = Vector, reg_index = n\<rparr>"
  let ?l = "InsnDLine \<lparr>id_major = dd_major d, id_operation = dd_operation d, id_destination = ?r (dd_destination d),
    id_lhs = ?r (dd_lhs d), id_rhs = ?r (dd_rhs d), id_accumulator = ?r (dd_accumulator d), id_dtype = dd_dtype d\<rparr>"
  have line: "instruction_assembly (DecodedInsnD d) = asm_text ''.insn.d'' ?fs" by (simp add: asm_text_def)
  have "plain ''.insn.d''" by (simp add: plain_def is_blank_def)
  then have plain: "plain ''.insn.d''" "?fs \<noteq> []" "list_all plain ?fs" by (simp_all add: show_u32_def)
  have starts: "starts_with_token (asm_text ''.insn.d'' ?fs) ''.insn.d''"
    unfolding asm_text_def using plain(1) by (simp only: starts_with_mnemonic)
  have rest: "trim_ascii (drop 7 (asm_text ''.insn.d'' ?fs)) = comma_list ?fs"
    using comma_list_ends [OF plain(2,3)] trim_id [of "comma_list ?fs"]
    by (simp add: asm_text_def trim_ascii_def is_blank_def del: comma_list.simps)
  have split: "split_fields (comma_list ?fs) 7 = Some ?fs"
    using split_comma_list [OF plain(2,3)] by (simp add: numeral_eq_Suc del: comma_list.simps)
  note b = insn_d_bounds [OF assms]
  have num: "parse_u32_field (show_u32 v) m = Some v" if "v \<le> m" for v m
    using that parse_u32_show_nat [of "unat v" m] by (simp add: show_u32_def word_le_nat_alt)
  have "parse_insn_d (asm_text ''.insn.d'' ?fs) = Some ?l"
    unfolding parse_insn_d_def rest split using starts b by (simp add: num parse_vector)
  moreover have "trim_ascii (asm_text ''.insn.d'' ?fs) = asm_text ''.insn.d'' ?fs" by (rule trim_asm_text [OF plain])
  moreover have "asm_text ''.insn.d'' ?fs \<noteq> ''ret''" "asm_text ''.insn.d'' ?fs \<noteq> []" by (simp_all add: asm_text_def)
  ultimately have "parse_rv64_asm_line (asm_text ''.insn.d'' ?fs) = Some ?l"
    by (simp add: parse_rv64_asm_line_def)
  then show ?thesis
    unfolding reassembles_def line using b encode_insn_d_fields [OF assms]
    by (simp add: encode_insn_d_word_def register_field_gpr append_le64_le not_less)
qed

lemma drop_bit_20_of: "signed_drop_bit 20 (w :: u32) = 0 \<Longrightarrow>
    encode_i_type (opcode_of w) (rd_of w) (funct3_of w) (rs1_of w) 0 = w"
  using encode_i_fields [of w] by simp

lemma decode_special_fields:
  "decode_li w = (if opcode_of w \<noteq> 0x13 \<or> rd_of w \<noteq> 10 \<or> funct3_of w \<noteq> 0 \<or> rs1_of w \<noteq> 0 \<or> signed_drop_bit 20 w \<noteq> 0
     then None else Some (DecodedLi (rd_of w) (signed_drop_bit 20 w)))"
  "decode_ret w = (if opcode_of w \<noteq> 0x67 \<or> rd_of w \<noteq> 0 \<or> funct3_of w \<noteq> 0 \<or> rs1_of w \<noteq> 1 \<or> signed_drop_bit 20 w \<noteq> 0
     then None else Some DecodedRet)"
  by (simp_all only: decode_li_def decode_ret_def Let_def field_of_defs)

lemma parse_li_text:
  assumes "r < 32" "fits_signed_12_bit_immediate (sint v)"
  shows "parse_rv64_asm_line (asm_text ''li'' [gpr_name r, show_i32 v]) = Some (LiLine \<lparr>reg_bank = Gpr, reg_index = r\<rparr> (sint v))"
proof -
  let ?fs = "[gpr_name r, show_i32 v]"
  have "plain ''li''" "plain ''.insn.d''" by (simp_all add: plain_def is_blank_def)
  then have plain: "plain ''li''" "?fs \<noteq> []" "list_all plain ?fs" and other: "plain ''.insn.d''"
    using assms(1) by (simp_all add: parse_gpr_name)
  have starts: "starts_with_token (asm_text ''li'' ?fs) ''li''" "\<not> starts_with_token (asm_text ''li'' ?fs) ''.insn.d''"
    unfolding asm_text_def using plain(1) other by (simp_all only: starts_with_mnemonic) simp
  have rest: "trim_ascii (drop 2 (asm_text ''li'' ?fs)) = comma_list ?fs"
    using comma_list_ends [OF plain(2,3)] trim_id [of "comma_list ?fs"]
    by (simp add: asm_text_def trim_ascii_def is_blank_def numeral_2_eq_2 del: comma_list.simps)
  have "asm_text ''li'' ?fs \<noteq> ''ret''" "asm_text ''li'' ?fs \<noteq> []" by (simp_all add: asm_text_def)
  moreover have "parse_li (asm_text ''li'' ?fs) = Some (LiLine \<lparr>reg_bank = Gpr, reg_index = r\<rparr> (sint v))"
    unfolding parse_li_def rest using starts assms by (simp add: printed_simps del: comma_list.simps)
  ultimately show ?thesis
    using starts by (simp add: parse_rv64_asm_line_def trim_asm_text [OF plain] parse_insn_d_def)
qed

lemma reassemble_li: "decode_li w = Some i \<Longrightarrow> i = DecodedLi 10 0 \<and> reassembles (instruction_assembly i) None d (le_bytes 4 w)"
proof -
  assume "decode_li w = Some i"
  then have i: "i = DecodedLi 10 0" and fs: "opcode_of w = 0x13" "rd_of w = 10" "funct3_of w = 0" "rs1_of w = 0"
      "signed_drop_bit 20 w = 0"
    by (auto simp: decode_special_fields split: if_splits)
  have w: "w = encode_i_type 0x13 10 0 0 0" using drop_bit_20_of [OF fs(5)] fs by simp
  have "instruction_assembly i = asm_text ''li'' [gpr_name 10, show_i32 0]" by (simp add: i asm_text_def)
  then have "parse_rv64_asm_line (instruction_assembly i) = Some (LiLine \<lparr>reg_bank = Gpr, reg_index = 10\<rparr> 0)"
    using parse_li_text [of 10 0] by (simp add: fits_signed_12_bit_immediate_def)
  then show ?thesis
    by (simp add: i w reassembles_def register_field_def fits_signed_12_bit_immediate_def append_le32_le)
qed

lemma reassemble_ret: "decode_ret w = Some i \<Longrightarrow> i = DecodedRet \<and> reassembles (instruction_assembly i) None d (le_bytes 4 w)"
proof -
  assume "decode_ret w = Some i"
  then have i: "i = DecodedRet" and fs: "opcode_of w = 0x67" "rd_of w = 0" "funct3_of w = 0" "rs1_of w = 1"
      "signed_drop_bit 20 w = 0"
    by (auto simp: decode_special_fields split: if_splits)
  have w: "w = encode_i_type 0x67 0 0 1 0" using drop_bit_20_of [OF fs(5)] fs by simp
  have "parse_rv64_asm_line ''ret'' = Some RetLine" by code_simp
  then show ?thesis by (simp add: i w reassembles_def append_le32_le)
qed

section \<open>The decoder's instructions reassemble\<close>

fun instruction_target :: "decoded_instruction \<Rightarrow> string option" where
  "instruction_target (DecodedRv64I i) = (if has_target i then Some (di_target_label i) else None)"
| "instruction_target _ = None"

fun instruction_distance :: "decoded_instruction \<Rightarrow> int" where
  "instruction_distance (DecodedRv64I i) = sint (di_immediate i)"
| "instruction_distance _ = 0"

definition target_valid :: "decoded_instruction \<Rightarrow> bool" where
  "target_valid i \<longleftrightarrow> (case instruction_target i of None \<Rightarrow> True | Some label \<Rightarrow> is_valid_symbol label)"

lemma reassemble_short:
  assumes "decode_short obj offset = Inr (i, offset')" "target_valid i"
  shows "reassembles (instruction_assembly i) (instruction_target i) (instruction_distance i)
    (take 4 (drop offset (eo_text_bytes obj)))"
proof -
  obtain w where w: "offset + 4 \<le> length (eo_text_bytes obj)" "read_u32_at (eo_text_bytes obj) offset = Inr w"
    using assms(1) by (auto simp: decode_short_def and_then_Inr split: if_splits)
  have bytes: "take 4 (drop offset (eo_text_bytes obj)) = le_bytes 4 w" using w by (rule t32.read_bytes)
  show ?thesis
  proof (cases "decode_li w")
    case (Some li)
    then show ?thesis using assms(1) w reassemble_li [OF Some, of 0] by (auto simp: bytes decode_short_def)
  next
    case None
    note no_li = None
    show ?thesis
    proof (cases "decode_ret w")
      case (Some ret)
      then show ?thesis using assms(1) w reassemble_ret [OF Some, of 0] by (auto simp: bytes decode_short_def no_li)
    next
      case None
      then obtain i0 i1 where i: "decode_rv64i w = Some i0" "name_target obj offset i0 = Inr i1" "i = DecodedRv64I i1"
        using assms(1) w no_li by (auto simp: decode_short_def and_then_Inr split: option.splits)
      have "i1 = (if has_target i0 then i0\<lparr>di_target_label := di_target_label i1\<rparr> else i0)"
        using i(2) by (auto simp: name_target_def has_target_def split: if_splits option.splits)
      moreover have "has_target i1 = has_target i0" "di_immediate i1 = di_immediate i0"
        using i(2) by (auto simp: name_target_def has_target_def split: if_splits option.splits)
      ultimately show ?thesis
        using reassemble_rv64i [OF i(1), of "di_target_label i1"] assms(2) bytes
        by (cases "has_target i0") (auto simp: i(3) target_valid_def)
    qed
  qed
qed

text \<open>
  C7: every instruction \<open>c4c-objdump\<close> decodes is printed as a line the assembler's parser accepts; with the
  distance to its target filled in, that line encodes to exactly the bytes the instruction was
  decoded from. The label of a branch or jump has to be one the assembler takes as a symbol.
\<close>

theorem decode_print_parse_encode:
  assumes "decode_at obj offset = Inr (i, offset')" "target_valid i"
  shows "\<exists>l. parse_rv64_asm_line (instruction_assembly i) = Some l \<and> line_target l = instruction_target i \<and>
    encode_rv64_asm_line (set_target (instruction_distance i) l) =
      Some (take (offset' - offset) (drop offset (eo_text_bytes obj)))"
proof (cases "\<exists>d. i = DecodedInsnD d")
  case True
  then obtain w d where w: "offset + 8 \<le> length (eo_text_bytes obj)" "read_u64_at (eo_text_bytes obj) offset = Inr w"
      "decode_insn_d w = Some d" "i = DecodedInsnD d" "offset' = offset + 8"
    using assms(1) by (auto simp: decode_at_def decode_short_def decode_li_def decode_ret_def Let_def and_then_Inr split: if_splits option.splits)
  with reassemble_insn_d [OF w(3), of 0] t64.read_bytes [OF w(1,2)] show ?thesis
    by (simp add: reassembles_def)
next
  case False
  then have short: "decode_short obj offset = Inr (i, offset')"
    using assms(1) by (auto simp: decode_at_def and_then_Inr split: if_splits option.splits)
  with reassemble_short [OF this assms(2)] decode_short_advances [OF this] show ?thesis
    by (simp add: reassembles_def)
qed

theorem decode_print_parse_encode_witness:
  "let obj = \<lparr>eo_function_name = ''f'', eo_text_bytes = [0x13, 0x01, 0x01, 0xff], eo_local_labels = []\<rparr>;
       i = DecodedRv64I \<lparr>di_format = ITypeForm, di_mnemonic = ''addi'', di_destination = 2, di_lhs = 2, di_rhs = 0,
             di_immediate = - 16, di_target_label = []\<rparr> in
   decode_at obj 0 = Inr (i, 4) \<and> target_valid i \<and>
   (\<exists>l. parse_rv64_asm_line (instruction_assembly i) = Some l \<and> encode_rv64_asm_line (set_target (- 16) l) = Some [0x13, 0x01, 0x01, 0xff])"
proof -
  define obj where "obj = \<lparr>eo_function_name = ''f'', eo_text_bytes = [0x13, 0x01, 0x01, 0xff], eo_local_labels = []\<rparr>"
  define i where "i = DecodedRv64I \<lparr>di_format = ITypeForm, di_mnemonic = ''addi'', di_destination = 2, di_lhs = 2, di_rhs = 0,
    di_immediate = - 16, di_target_label = []\<rparr>"
  have dec: "decode_at obj 0 = Inr (i, 4)" unfolding obj_def i_def by code_simp
  have ok: "target_valid i" by (simp add: target_valid_def i_def has_target_def)
  show ?thesis
    using decode_print_parse_encode [OF dec ok] dec ok unfolding Let_def
    by (fold obj_def i_def) (auto simp: i_def obj_def)
qed

end
