(* ===== verification/Object_Model.thy ===== *)
theory Object_Model
  imports Byte_Encoding
begin

text \<open>
  The in-memory object file (\<open>backend/mir/object/model.hpp\<close>, \<open>model.cpp\<close>): sections with their
  contents, symbols, labels and relocations, each kept in a vector whose records carry their own
  position as id. A C++ reference to a record of the module is its position here, and an operation
  that returns a reference returns the module and that position. \<open>std::size_t\<close> positions are \<open>nat\<close>,
  \<open>std::uint64_t\<close> sizes, offsets and values are 64-bit words that wrap around.
\<close>

section \<open>Records\<close>

datatype section_kind = SectionText | SectionData | SectionBss | SectionCustom

datatype symbol_binding = BindLocal | BindGlobal

datatype symbol_kind = KindNoType | KindFunction | KindObject | KindSection

datatype relocation_base = BaseSectionOffset | BaseLabel | BaseSymbol

record section_record =
  sec_id :: nat
  sec_name :: string
  sec_kind :: section_kind
  sec_bytes :: "u8 list"
  sec_size :: u64
  sec_align :: u64
  sec_alloc :: bool
  sec_executable :: bool
  sec_writable :: bool

record symbol_record =
  sym_id :: nat
  sym_name :: string
  sym_binding :: symbol_binding
  sym_kind :: symbol_kind
  sym_section :: "nat option"
  sym_value :: u64
  sym_size :: u64

record label_record =
  lab_id :: nat
  lab_name :: string
  lab_section :: nat
  lab_offset :: u64

text \<open>The addend is an \<open>std::int64_t\<close>, kept as the word that represents it.\<close>

record relocation_record =
  rel_section :: nat
  rel_offset :: u64
  rel_type :: u32
  rel_symbol :: nat
  rel_addend :: u64
  rel_base :: relocation_base
  rel_label :: "nat option"

record object_module =
  sections :: "section_record list"
  symbols :: "symbol_record list"
  labels :: "label_record list"
  relocations :: "relocation_record list"

definition empty_module :: object_module where
  "empty_module = \<lparr>sections = [], symbols = [], labels = [], relocations = []\<rparr>"

section \<open>Sections\<close>

definition find_section_id :: "object_module \<Rightarrow> string \<Rightarrow> nat option" where
  "find_section_id m n = map_option sec_id (find (\<lambda>s. sec_name s = n) (sections m))"

definition find_section :: "object_module \<Rightarrow> nat \<Rightarrow> section_record option" where
  "find_section m i =
     (if i \<ge> length (sections m) then None
      else if sec_id (sections m ! i) \<noteq> i then None
      else Some (sections m ! i))"

definition find_section_named :: "object_module \<Rightarrow> string \<Rightarrow> section_record option" where
  "find_section_named m n = (case find_section_id m n of None \<Rightarrow> None | Some i \<Rightarrow> find_section m i)"

definition create_section ::
    "object_module \<Rightarrow> string \<Rightarrow> section_kind \<Rightarrow> u64 \<Rightarrow> bool \<Rightarrow> bool \<Rightarrow> bool \<Rightarrow> object_module \<times> nat" where
  "create_section m n k align a x w =
     (let i = length (sections m) in
      (m\<lparr>sections := sections m @
          [\<lparr>sec_id = i, sec_name = n, sec_kind = k, sec_bytes = [], sec_size = 0, sec_align = max 1 align,
            sec_alloc = a, sec_executable = x, sec_writable = w\<rparr>]\<rparr>, i))"

definition get_or_create_section ::
    "object_module \<Rightarrow> string \<Rightarrow> section_kind \<Rightarrow> u64 \<Rightarrow> bool \<Rightarrow> bool \<Rightarrow> bool \<Rightarrow> object_module \<times> nat" where
  "get_or_create_section m n k align a x w =
     (case find_section_named m n of
        Some existing \<Rightarrow>
          (m\<lparr>sections := (sections m)[sec_id existing :=
              existing\<lparr>sec_kind := k, sec_align := max (sec_align existing) (max 1 align), sec_alloc := a,
                       sec_executable := x, sec_writable := w\<rparr>]\<rparr>, sec_id existing)
      | None \<Rightarrow> create_section m n k align a x w)"

text \<open>Operations on a section return the offset at which they start and the section.\<close>

definition append_section_bytes :: "section_record \<Rightarrow> u8 list \<Rightarrow> u64 \<times> section_record" where
  "append_section_bytes s bs =
     (sec_size s, s\<lparr>sec_bytes := sec_bytes s @ bs, sec_size := sec_size s + of_nat (length bs)\<rparr>)"

definition reserve_section_bytes :: "section_record \<Rightarrow> u64 \<Rightarrow> u64 \<times> section_record" where
  "reserve_section_bytes s n = (sec_size s, s\<lparr>sec_size := sec_size s + n\<rparr>)"

definition align_section :: "section_record \<Rightarrow> u64 \<Rightarrow> u8 \<Rightarrow> u64 \<times> section_record" where
  "align_section s align fill =
     (let norm = max 1 align;
          offset = sec_size s;
          remainder = offset mod norm;
          s' = s\<lparr>sec_align := max (sec_align s) norm\<rparr> in
      if remainder = 0 then (offset, s')
      else
        let padding = norm - remainder;
            bs = (if of_nat (length (sec_bytes s)) = sec_size s
                  then sec_bytes s @ replicate (unat padding) fill else sec_bytes s) in
        (offset, s'\<lparr>sec_bytes := bs, sec_size := offset + padding\<rparr>))"

text \<open>Writing through a reference to the section at a position.\<close>

definition put_section :: "object_module \<Rightarrow> nat \<Rightarrow> section_record \<Rightarrow> object_module" where
  "put_section m i s = m\<lparr>sections := (sections m)[i := s]\<rparr>"

section \<open>Symbols\<close>

definition find_symbol_id :: "object_module \<Rightarrow> string \<Rightarrow> nat option" where
  "find_symbol_id m n = map_option sym_id (find (\<lambda>s. sym_name s = n) (symbols m))"

definition find_symbol :: "object_module \<Rightarrow> nat \<Rightarrow> symbol_record option" where
  "find_symbol m i =
     (if i \<ge> length (symbols m) then None
      else if sym_id (symbols m ! i) \<noteq> i then None
      else Some (symbols m ! i))"

definition find_symbol_named :: "object_module \<Rightarrow> string \<Rightarrow> symbol_record option" where
  "find_symbol_named m n = (case find_symbol_id m n of None \<Rightarrow> None | Some i \<Rightarrow> find_symbol m i)"

definition define_symbol ::
    "object_module \<Rightarrow> string \<Rightarrow> symbol_binding \<Rightarrow> symbol_kind \<Rightarrow> nat \<Rightarrow> u64 \<Rightarrow> u64 \<Rightarrow> object_module \<times> nat" where
  "define_symbol m n b k sec v sz =
     (case find_symbol_named m n of
        Some existing \<Rightarrow>
          (m\<lparr>symbols := (symbols m)[sym_id existing :=
              existing\<lparr>sym_binding := b, sym_kind := k, sym_section := Some sec, sym_value := v, sym_size := sz\<rparr>]\<rparr>,
           sym_id existing)
      | None \<Rightarrow>
          (let i = length (symbols m) in
           (m\<lparr>symbols := symbols m @
               [\<lparr>sym_id = i, sym_name = n, sym_binding = b, sym_kind = k, sym_section = Some sec,
                 sym_value = v, sym_size = sz\<rparr>]\<rparr>, i)))"

definition declare_undefined_symbol ::
    "object_module \<Rightarrow> string \<Rightarrow> symbol_binding \<Rightarrow> symbol_kind \<Rightarrow> u64 \<Rightarrow> object_module \<times> nat" where
  "declare_undefined_symbol m n b k sz =
     (case find_symbol_named m n of
        Some existing \<Rightarrow>
          (m\<lparr>symbols := (symbols m)[sym_id existing :=
              existing\<lparr>sym_binding := b, sym_kind := k, sym_section := None, sym_value := 0, sym_size := sz\<rparr>]\<rparr>,
           sym_id existing)
      | None \<Rightarrow>
          (let i = length (symbols m) in
           (m\<lparr>symbols := symbols m @
               [\<lparr>sym_id = i, sym_name = n, sym_binding = b, sym_kind = k, sym_section = None,
                 sym_value = 0, sym_size = sz\<rparr>]\<rparr>, i)))"

section \<open>Labels and relocations\<close>

definition bind_label :: "object_module \<Rightarrow> string \<Rightarrow> nat \<Rightarrow> u64 \<Rightarrow> object_module \<times> nat" where
  "bind_label m n sec off =
     (let i = length (labels m) in
      (m\<lparr>labels := labels m @ [\<lparr>lab_id = i, lab_name = n, lab_section = sec, lab_offset = off\<rparr>]\<rparr>, i))"

definition bind_label_at_current_offset :: "object_module \<Rightarrow> string \<Rightarrow> section_record \<Rightarrow> object_module \<times> nat" where
  "bind_label_at_current_offset m n s = bind_label m n (sec_id s) (sec_size s)"

definition attach_relocation ::
    "object_module \<Rightarrow> nat \<Rightarrow> u64 \<Rightarrow> u32 \<Rightarrow> nat \<Rightarrow> u64 \<Rightarrow> object_module" where
  "attach_relocation m sec off ty target addend =
     m\<lparr>relocations := relocations m @
        [\<lparr>rel_section = sec, rel_offset = off, rel_type = ty, rel_symbol = target, rel_addend = addend,
          rel_base = BaseSymbol, rel_label = None\<rparr>]\<rparr>"

definition attach_label_relocation ::
    "object_module \<Rightarrow> nat \<Rightarrow> u64 \<Rightarrow> u32 \<Rightarrow> nat \<Rightarrow> nat \<Rightarrow> u64 \<Rightarrow> object_module" where
  "attach_label_relocation m sec off ty target lab addend =
     m\<lparr>relocations := relocations m @
        [\<lparr>rel_section = sec, rel_offset = off, rel_type = ty, rel_symbol = target, rel_addend = addend,
          rel_base = BaseLabel, rel_label = Some lab\<rparr>]\<rparr>"

fun section_kind_name :: "section_kind \<Rightarrow> string" where
  "section_kind_name SectionText = ''text''"
| "section_kind_name SectionData = ''data''"
| "section_kind_name SectionBss = ''bss''"
| "section_kind_name SectionCustom = ''custom''"

fun symbol_binding_name :: "symbol_binding \<Rightarrow> string" where
  "symbol_binding_name BindLocal = ''local''"
| "symbol_binding_name BindGlobal = ''global''"

fun symbol_kind_name :: "symbol_kind \<Rightarrow> string" where
  "symbol_kind_name KindNoType = ''notype''"
| "symbol_kind_name KindFunction = ''function''"
| "symbol_kind_name KindObject = ''object''"
| "symbol_kind_name KindSection = ''section''"

fun relocation_base_name :: "relocation_base \<Rightarrow> string" where
  "relocation_base_name BaseSectionOffset = ''section_offset''"
| "relocation_base_name BaseLabel = ''label''"
| "relocation_base_name BaseSymbol = ''symbol''"

definition is_undefined_symbol :: "symbol_record \<Rightarrow> bool" where
  "is_undefined_symbol s = (sym_section s = None)"

definition is_section_local_label :: "label_record \<Rightarrow> section_record \<Rightarrow> bool" where
  "is_section_local_label l s = (lab_section l = sec_id s)"

section \<open>Tables of named records\<close>

text \<open>
  Sections and symbols are found the same way: by name, which yields the id of the first record of
  that name, and by id, which checks that the record at that position carries the id.
\<close>

definition ids_ok :: "('r \<Rightarrow> nat) \<Rightarrow> 'r list \<Rightarrow> bool" where
  "ids_ok rid rs = (map rid rs = [0..<length rs])"

lemma ids_ok_Nil [simp]: "ids_ok rid []"
  by (simp add: ids_ok_def)

lemma ids_ok_nth: "ids_ok rid rs \<Longrightarrow> i < length rs \<Longrightarrow> rid (rs ! i) = i"
  unfolding ids_ok_def by (metis add_0 length_map nth_map nth_upt)

lemma ids_ok_snoc [simp]: "ids_ok rid (rs @ [r]) \<longleftrightarrow> ids_ok rid rs \<and> rid r = length rs"
  by (simp add: ids_ok_def)

lemma ids_ok_update: "ids_ok rid rs \<Longrightarrow> rid r = i \<Longrightarrow> ids_ok rid (rs[i := r])"
  using ids_ok_nth [of rid rs] unfolding ids_ok_def
  by (cases "i < length rs") (auto intro!: nth_equalityI simp: nth_list_update)

text \<open>With ids that are positions, the record found first by name is the one its id leads to.\<close>

lemma ids_ok_find:
  assumes "ids_ok rid rs" "find P rs = Some r"
  shows "rid r < length rs" "rs ! rid r = r" "P r"
  using assms by (auto simp: find_Some_iff ids_ok_nth)

lemma find_append: "find P (xs @ ys) = (case find P xs of None \<Rightarrow> find P ys | Some x \<Rightarrow> Some x)"
  by (induction xs) auto

lemma find_update_hit:
  "i < length rs \<Longrightarrow> P r \<Longrightarrow> (\<And>j. j < i \<Longrightarrow> \<not> P (rs ! j)) \<Longrightarrow> find P (rs[i := r]) = Some r"
  by (auto simp: find_Some_iff intro!: exI [of _ i])

locale named_table =
  fixes records :: "'t \<Rightarrow> 'r list"
    and rid :: "'r \<Rightarrow> nat"
    and rname :: "'r \<Rightarrow> string"
    and find_id :: "'t \<Rightarrow> string \<Rightarrow> nat option"
    and find_at :: "'t \<Rightarrow> nat \<Rightarrow> 'r option"
    and find_named :: "'t \<Rightarrow> string \<Rightarrow> 'r option"
  assumes find_id: "find_id t n = map_option rid (find (\<lambda>r. rname r = n) (records t))"
    and find_at: "find_at t i = (if i < length (records t) \<and> rid (records t ! i) = i then Some (records t ! i) else None)"
    and find_named: "find_named t n = Option.bind (find_id t n) (find_at t)"
begin

lemma found_at: "ids_ok rid (records t) \<Longrightarrow> find_at t i = (if i < length (records t) then Some (records t ! i) else None)"
  by (simp add: find_at ids_ok_nth)

lemma found_named: "ids_ok rid (records t) \<Longrightarrow> find_named t n = find (\<lambda>r. rname r = n) (records t)"
  by (cases "find (\<lambda>r. rname r = n) (records t)")
     (simp_all add: find_named find_id found_at ids_ok_find)

lemma named_None: "ids_ok rid (records t) \<Longrightarrow> find_named t n = None \<longleftrightarrow> n \<notin> rname ` set (records t)"
  by (auto simp: found_named find_None_iff)

lemma named_Some:
  assumes "ids_ok rid (records t)" "find_named t n = Some r"
  shows "rid r < length (records t)" "records t ! rid r = r" "rname r = n"
  using assms ids_ok_find [OF assms(1), of "\<lambda>r. rname r = n" r] by (simp_all add: found_named)

text \<open>A table whose names are distinct is a map from names to records.\<close>

lemma named_add:
  assumes "ids_ok rid (records t)" "find_named t n = None" "rid r = length (records t)" "rname r = n"
    "records t' = records t @ [r]"
  shows "find_named t' = (find_named t)(n \<mapsto> r)"
proof
  fix x
  have "ids_ok rid (records t')" using assms by simp
  moreover have "find (\<lambda>r. rname r = n) (records t) = None" using assms found_named by simp
  ultimately show "find_named t' x = ((find_named t)(n \<mapsto> r)) x"
    using assms by (simp add: found_named find_append split: option.split)
qed

lemma find_update_other: "rname r' = n \<Longrightarrow> rname (rs ! i) = n \<Longrightarrow> x \<noteq> n \<Longrightarrow>
    find (\<lambda>r. rname r = x) (rs[i := r']) = find (\<lambda>r. rname r = x) rs"
  by (induction rs arbitrary: i) (auto split: nat.split)

lemma named_put:
  assumes "ids_ok rid (records t)" "distinct (map rname (records t))" "find_named t n = Some r"
    "rid r' = rid r" "rname r' = n" "records t' = (records t)[rid r := r']"
  shows "find_named t' = (find_named t)(n \<mapsto> r')"
proof
  fix x
  note r = named_Some [OF assms(1,3)]
  have ids: "ids_ok rid (records t')" using assms by (simp add: ids_ok_update)
  have first: "j = rid r" if "j < length (records t)" "rname (records t ! j) = n" for j
    using that r assms(2) by (metis distinct_conv_nth length_map nth_map)
  have "find (\<lambda>r. rname r = n) (records t') = Some r'"
    unfolding assms(6) using r(1) assms(5) by (intro find_update_hit) (simp_all, metis first less_irrefl less_trans)
  then show "find_named t' x = ((find_named t)(n \<mapsto> r')) x"
    using ids assms r by (simp add: found_named find_update_other)
qed

lemma named_self:
  assumes "ids_ok rid (records t)" "distinct (map rname (records t))" "r \<in> set (records t)"
  shows "find_named t (rname r) = Some r"
proof (cases "find_named t (rname r)")
  case None
  then show ?thesis using assms named_None by blast
next
  case (Some e)
  then have "e \<in> set (records t)" "rname e = rname r" using assms(1) named_Some [of t "rname r" e] by (metis nth_mem)+
  then have "e = r" using assms(2,3) by (metis distinct_map inj_on_eq_iff)
  with Some show ?thesis by simp
qed

text \<open>Replacing the record of a name, or adding one, is an update of that map.\<close>

lemma named_enter:
  assumes "ids_ok rid (records t)" "distinct (map rname (records t))" "rname r = n"
    "rid r = (case find_named t n of Some e \<Rightarrow> rid e | None \<Rightarrow> length (records t))"
    "records t' = (case find_named t n of Some e \<Rightarrow> (records t)[rid e := r] | None \<Rightarrow> records t @ [r])"
  shows "find_named t' = (find_named t)(n \<mapsto> r)"
    and "map rname (records t') = map rname (records t) @ (if find_named t n = None then [n] else [])"
proof -
  show "find_named t' = (find_named t)(n \<mapsto> r)"
  proof (cases "find_named t n")
    case None
    with assms show ?thesis by (intro named_add) simp_all
  next
    case (Some e)
    with assms show ?thesis by (intro named_put [of t n e]) simp_all
  qed
  show "map rname (records t') = map rname (records t) @ (if find_named t n = None then [n] else [])"
  proof (cases "find_named t n")
    case (Some e)
    note e = named_Some [OF assms(1) Some]
    have "map rname ((records t)[rid e := r]) = map rname (records t)"
      unfolding map_update assms(3) using e by (metis list_update_id nth_map)
    with Some assms(5) show ?thesis by simp
  qed (use assms in simp)
qed

end

interpretation sec_table: named_table sections sec_id sec_name find_section_id find_section find_section_named
  by unfold_locales
     (auto simp: find_section_id_def find_section_def find_section_named_def split: option.splits)

interpretation sym_table: named_table symbols sym_id sym_name find_symbol_id find_symbol find_symbol_named
  by unfold_locales
     (auto simp: find_symbol_id_def find_symbol_def find_symbol_named_def split: option.splits)

section \<open>The module invariant\<close>

text \<open>
  Every record carries its position as id, symbol names are distinct and alignments are positive.
\<close>

definition module_wf :: "object_module \<Rightarrow> bool" where
  "module_wf m \<longleftrightarrow> ids_ok sec_id (sections m) \<and> ids_ok sym_id (symbols m) \<and> ids_ok lab_id (labels m) \<and>
     distinct (map sym_name (symbols m)) \<and> (\<forall>s\<in>set (sections m). 1 \<le> sec_align s)"

text \<open>
  The modules a client can build: from the empty module by the operations of \<open>model.hpp\<close>, those on a
  section applied through a reference to it.
\<close>

inductive built :: "object_module \<Rightarrow> bool" where
  built_empty: "built empty_module"
| built_create: "built m \<Longrightarrow> built (fst (create_section m n k align a x w))"
| built_get_or_create: "built m \<Longrightarrow> built (fst (get_or_create_section m n k align a x w))"
| built_append: "built m \<Longrightarrow> i < length (sections m) \<Longrightarrow>
    built (put_section m i (snd (append_section_bytes (sections m ! i) bs)))"
| built_reserve: "built m \<Longrightarrow> i < length (sections m) \<Longrightarrow>
    built (put_section m i (snd (reserve_section_bytes (sections m ! i) sz)))"
| built_align: "built m \<Longrightarrow> i < length (sections m) \<Longrightarrow>
    built (put_section m i (snd (align_section (sections m ! i) align fill)))"
| built_define: "built m \<Longrightarrow> built (fst (define_symbol m n b sk sec v sz))"
| built_declare: "built m \<Longrightarrow> built (fst (declare_undefined_symbol m n b sk sz))"
| built_label: "built m \<Longrightarrow> built (fst (bind_label m n sec off))"
| built_label_here: "built m \<Longrightarrow> i < length (sections m) \<Longrightarrow>
    built (fst (bind_label_at_current_offset m n (sections m ! i)))"
| built_relocation: "built m \<Longrightarrow> built (attach_relocation m sec off ty target addend)"
| built_label_relocation: "built m \<Longrightarrow> built (attach_label_relocation m sec off ty target lab addend)"

lemma module_wf_sections:
  "module_wf m \<Longrightarrow> i < length (sections m) \<Longrightarrow> sec_id (sections m ! i) = i"
  "module_wf m \<Longrightarrow> i < length (sections m) \<Longrightarrow> 1 \<le> sec_align (sections m ! i)"
  by (auto simp: module_wf_def ids_ok_nth)

lemma put_section_wf:
  "module_wf m \<Longrightarrow> sec_id s = i \<Longrightarrow> 1 \<le> sec_align s \<Longrightarrow> module_wf (put_section m i s)"
  by (auto simp: module_wf_def put_section_def ids_ok_update dest!: set_update_subset_insert [THEN subsetD])

lemma append_section_bytes_keeps [simp]:
  "sec_id (snd (append_section_bytes s bs)) = sec_id s"
  "sec_align (snd (append_section_bytes s bs)) = sec_align s"
  by (simp_all add: append_section_bytes_def)

lemma reserve_section_bytes_keeps [simp]:
  "sec_id (snd (reserve_section_bytes s n)) = sec_id s"
  "sec_align (snd (reserve_section_bytes s n)) = sec_align s"
  by (simp_all add: reserve_section_bytes_def)

lemma align_section_keeps [simp]:
  "sec_id (snd (align_section s align fill)) = sec_id s"
  "sec_align (snd (align_section s align fill)) = max (sec_align s) (max 1 align)"
  by (simp_all add: align_section_def Let_def)

lemma create_section_wf: "module_wf m \<Longrightarrow> module_wf (fst (create_section m n k align a x w))"
  by (auto simp: module_wf_def create_section_def Let_def)

lemma get_or_create_section_wf: "module_wf m \<Longrightarrow> module_wf (fst (get_or_create_section m n k align a x w))"
proof (cases "find_section_named m n")
  case (Some e)
  assume wf: "module_wf m"
  then have "sec_id e < length (sections m)" "sections m ! sec_id e = e"
    using Some sec_table.named_Some [of m n e] by (simp_all add: module_wf_def)
  then have "1 \<le> sec_align e" using wf module_wf_sections(2) [of m "sec_id e"] by simp
  with Some put_section_wf [OF wf, of _ "sec_id e"] show ?thesis
    by (simp add: get_or_create_section_def put_section_def le_max_iff_disj)
qed (simp add: get_or_create_section_def create_section_wf)

text \<open>Both ways to enter a symbol replace the record of that name or add one.\<close>

lemma put_symbol_wf:
  assumes "module_wf m" "find_symbol_named m n = Some e" "sym_id e' = sym_id e" "sym_name e' = sym_name e"
  shows "module_wf (m\<lparr>symbols := (symbols m)[sym_id e := e']\<rparr>)"
proof -
  have e: "symbols m ! sym_id e = e" "sym_id e < length (symbols m)"
    using assms sym_table.named_Some [of m n e] by (simp_all add: module_wf_def)
  then have "map sym_name ((symbols m)[sym_id e := e']) = map sym_name (symbols m)"
    using assms(4) by (intro nth_equalityI) (auto simp: nth_list_update)
  with assms show ?thesis by (simp add: module_wf_def ids_ok_update del: map_update)
qed

lemma add_symbol_wf:
  "module_wf m \<Longrightarrow> find_symbol_named m n = None \<Longrightarrow> sym_id e = length (symbols m) \<Longrightarrow> sym_name e = n \<Longrightarrow>
     module_wf (m\<lparr>symbols := symbols m @ [e]\<rparr>)"
  using sym_table.named_None [of m n] by (auto simp: module_wf_def)

lemma define_symbol_wf: "module_wf m \<Longrightarrow> module_wf (fst (define_symbol m n b k sec v sz))"
  by (auto simp: define_symbol_def Let_def add_symbol_wf put_symbol_wf split: option.split)

lemma declare_undefined_symbol_wf: "module_wf m \<Longrightarrow> module_wf (fst (declare_undefined_symbol m n b k sz))"
  by (auto simp: declare_undefined_symbol_def Let_def add_symbol_wf put_symbol_wf split: option.split)

lemma bind_label_wf: "module_wf m \<Longrightarrow> module_wf (fst (bind_label m n sec off))"
  by (simp add: bind_label_def module_wf_def Let_def)

lemma attach_wf:
  "module_wf m \<Longrightarrow> module_wf (attach_relocation m sec off ty target addend)"
  "module_wf m \<Longrightarrow> module_wf (attach_label_relocation m sec off ty target lab addend)"
  by (simp_all add: attach_relocation_def attach_label_relocation_def module_wf_def)

text \<open>
  C23: in every module built by the operations of the object model, each section, symbol and label
  carries its position as id, no two symbols have one name and every alignment is positive.
\<close>

theorem built_module_wf: "built m \<Longrightarrow> module_wf m"
proof (induction rule: built.induct)
  case built_empty
  show ?case by (simp add: module_wf_def empty_module_def)
qed (simp_all add: create_section_wf get_or_create_section_wf put_section_wf define_symbol_wf
    declare_undefined_symbol_wf bind_label_wf bind_label_at_current_offset_def attach_wf module_wf_sections
    le_max_iff_disj)

theorem built_module_wf_witness:
  "module_wf (fst (define_symbol (fst (create_section empty_module ''.text'' SectionText 4 True True False))
      ''f'' BindGlobal KindFunction 0 0 8))"
  by (intro built_module_wf built.intros)

section \<open>Symbols by name and by id\<close>

text \<open>The record that either way of entering a symbol leaves under its name.\<close>

definition entered_id :: "object_module \<Rightarrow> string \<Rightarrow> nat" where
  "entered_id m n = (case find_symbol_named m n of Some e \<Rightarrow> sym_id e | None \<Rightarrow> length (symbols m))"

lemma enter_symbol:
  assumes "module_wf m" "sym_name e = n" "sym_id e = entered_id m n"
    "symbols m' = (case find_symbol_named m n of Some old \<Rightarrow> (symbols m)[sym_id old := e] | None \<Rightarrow> symbols m @ [e])"
  shows "find_symbol_named m' = (find_symbol_named m)(n \<mapsto> e)"
    "map sym_name (symbols m') = map sym_name (symbols m) @ (if find_symbol_named m n = None then [n] else [])"
  using assms sym_table.named_enter [of m e n m'] by (simp_all add: module_wf_def entered_id_def)

lemma define_symbol_entered:
  assumes "module_wf m"
  shows "\<exists>m'. define_symbol m n b k sec v sz = (m', entered_id m n) \<and>
    sections m' = sections m \<and> labels m' = labels m \<and> relocations m' = relocations m \<and> module_wf m' \<and>
    find_symbol_named m' = (find_symbol_named m)(n \<mapsto> \<lparr>sym_id = entered_id m n, sym_name = n, sym_binding = b,
       sym_kind = k, sym_section = Some sec, sym_value = v, sym_size = sz\<rparr>) \<and>
    map sym_name (symbols m') = map sym_name (symbols m) @ (if find_symbol_named m n = None then [n] else [])"
proof -
  let ?e = "\<lparr>sym_id = entered_id m n, sym_name = n, sym_binding = b, sym_kind = k, sym_section = Some sec, sym_value = v,
    sym_size = sz\<rparr>"
  have e: "x\<lparr>sym_binding := b, sym_kind := k, sym_section := Some sec, sym_value := v, sym_size := sz\<rparr> = ?e"
    if "find_symbol_named m n = Some x" for x
    using that assms sym_table.named_Some(3) [of m n x] by (simp add: module_wf_def entered_id_def)
  define m' where "m' = fst (define_symbol m n b k sec v sz)"
  have m': "define_symbol m n b k sec v sz = (m', entered_id m n)"
    "sections m' = sections m" "labels m' = labels m" "relocations m' = relocations m"
    "symbols m' = (case find_symbol_named m n of Some old \<Rightarrow> (symbols m)[sym_id old := ?e] | None \<Rightarrow> symbols m @ [?e])"
    by (cases "find_symbol_named m n"; simp add: e [unfolded entered_id_def] m'_def define_symbol_def entered_id_def Let_def)+
  have "module_wf m'" using define_symbol_wf [OF assms, of n b k sec v sz] m'(1) by simp
  with m' enter_symbol [OF assms _ _ m'(5)] show ?thesis by simp
qed

lemma declare_undefined_symbol_entered:
  assumes "module_wf m"
  shows "\<exists>m'. declare_undefined_symbol m n b k sz = (m', entered_id m n) \<and>
    sections m' = sections m \<and> labels m' = labels m \<and> relocations m' = relocations m \<and> module_wf m' \<and>
    find_symbol_named m' = (find_symbol_named m)(n \<mapsto> \<lparr>sym_id = entered_id m n, sym_name = n, sym_binding = b,
       sym_kind = k, sym_section = None, sym_value = 0, sym_size = sz\<rparr>) \<and>
    map sym_name (symbols m') = map sym_name (symbols m) @ (if find_symbol_named m n = None then [n] else [])"
proof -
  let ?e = "\<lparr>sym_id = entered_id m n, sym_name = n, sym_binding = b, sym_kind = k, sym_section = None, sym_value = 0,
    sym_size = sz\<rparr>"
  have e: "x\<lparr>sym_binding := b, sym_kind := k, sym_section := None, sym_value := 0, sym_size := sz\<rparr> = ?e"
    if "find_symbol_named m n = Some x" for x
    using that assms sym_table.named_Some(3) [of m n x] by (simp add: module_wf_def entered_id_def)
  define m' where "m' = fst (declare_undefined_symbol m n b k sz)"
  have m': "declare_undefined_symbol m n b k sz = (m', entered_id m n)"
    "sections m' = sections m" "labels m' = labels m" "relocations m' = relocations m"
    "symbols m' = (case find_symbol_named m n of Some old \<Rightarrow> (symbols m)[sym_id old := ?e] | None \<Rightarrow> symbols m @ [?e])"
    by (cases "find_symbol_named m n"; simp add: e [unfolded entered_id_def] m'_def declare_undefined_symbol_def entered_id_def Let_def)+
  have "module_wf m'" using declare_undefined_symbol_wf [OF assms, of n b k sz] m'(1) by simp
  with m' enter_symbol [OF assms _ _ m'(5)] show ?thesis by simp
qed

text \<open>
  C28: entering a symbol is an update of the map from names to symbols; the record found afterwards
  carries the returned id, and the ids handed out before still lead to symbols of the same names.
\<close>

theorem define_symbol_refines:
  assumes "module_wf m"
  shows "find_symbol_named (fst (define_symbol m n b k sec v sz)) =
           (find_symbol_named m)(n \<mapsto> \<lparr>sym_id = snd (define_symbol m n b k sec v sz), sym_name = n, sym_binding = b,
              sym_kind = k, sym_section = Some sec, sym_value = v, sym_size = sz\<rparr>) \<and>
         (\<forall>i<length (symbols m).
            map_option sym_name (find_symbol (fst (define_symbol m n b k sec v sz)) i) =
            Some (sym_name (symbols m ! i)))"
proof -
  obtain m' where m': "define_symbol m n b k sec v sz = (m', entered_id m n)" "module_wf m'"
    "find_symbol_named m' = (find_symbol_named m)(n \<mapsto> \<lparr>sym_id = entered_id m n, sym_name = n, sym_binding = b,
       sym_kind = k, sym_section = Some sec, sym_value = v, sym_size = sz\<rparr>)"
    "map sym_name (symbols m') = map sym_name (symbols m) @ (if find_symbol_named m n = None then [n] else [])"
    using define_symbol_entered [OF assms] by blast
  have len: "length (symbols m) \<le> length (symbols m')" using arg_cong [OF m'(4), of length] by simp
  have "map_option sym_name (find_symbol m' i) = Some (sym_name (symbols m ! i))" if i: "i < length (symbols m)" for i
  proof -
    have "map sym_name (symbols m') ! i = sym_name (symbols m ! i)" using i unfolding m'(4) by (simp add: nth_append)
    then show ?thesis using i len m'(2) by (simp add: sym_table.found_at module_wf_def)
  qed
  with m' show ?thesis by simp
qed

section \<open>Offsets and alignment\<close>

text \<open>
  A section whose contents are all given: \<open>sec_size\<close> counts the bytes. Appending keeps that and
  returns the offset at which the bytes are found.
\<close>

definition filled :: "section_record \<Rightarrow> bool" where
  "filled s = (unat (sec_size s) = length (sec_bytes s))"

lemma append_section_bytes_filled:
  assumes "filled s" "length (sec_bytes s) + length bs < 2 ^ 64"
  shows "filled (snd (append_section_bytes s bs))"
    and "take (length bs) (drop (unat (fst (append_section_bytes s bs))) (sec_bytes (snd (append_section_bytes s bs)))) = bs"
proof -
  have "unat (sec_size s + of_nat (length bs)) = unat (sec_size s) + length bs"
    using assms by (simp add: filled_def unat_word_ariths unat_of_nat take_bit_nat_eq_self)
  then show "filled (snd (append_section_bytes s bs))"
    using assms by (simp add: filled_def append_section_bytes_def)
  show "take (length bs) (drop (unat (fst (append_section_bytes s bs))) (sec_bytes (snd (append_section_bytes s bs)))) = bs"
    using assms by (simp add: filled_def append_section_bytes_def)
qed

text \<open>
  C29: aligning a section pads it to the next multiple of the alignment: the size grows by less than
  the alignment, the contents stay in front and a section whose contents are all given stays so.
\<close>

theorem align_section_correct:
  assumes "unat (sec_size s) + unat align < 2 ^ 64"
  shows "let (off, s') = align_section s align fill; n = max 1 align in
     off = sec_size s \<and> sec_size s' mod n = 0 \<and> unat (sec_size s) \<le> unat (sec_size s') \<and>
     unat (sec_size s') < unat (sec_size s) + unat n \<and>
     take (length (sec_bytes s)) (sec_bytes s') = sec_bytes s \<and> n \<le> sec_align s' \<and> (filled s \<longrightarrow> filled s')"
proof -
  define n r where "n = max 1 align" and "r = sec_size s mod n"
  have n: "0 < unat n" "unat n \<le> max 1 (unat align)" 
    by (auto simp: n_def max_def word_le_nat_alt unat_gt_0)
  note pad = pad_word [of "sec_size s" n, folded r_def]
  show ?thesis
  proof (cases "r = 0")
    case True
    then show ?thesis using n by (simp add: align_section_def Let_def filled_def flip: n_def r_def)
  next
    case False
    define s' where "s' = snd (align_section s align fill)"
    have split: "align_section s align fill = (sec_size s, s')"
      by (simp add: s'_def align_section_def Let_def)
    have s': "sec_size s' = sec_size s + (n - r)" "sec_align s' = max (sec_align s) n"
      "sec_bytes s' = (if of_nat (length (sec_bytes s)) = sec_size s
                       then sec_bytes s @ replicate (unat (n - r)) fill else sec_bytes s)"
      using False by (simp_all add: s'_def n_def r_def align_section_def Let_def)
    have "unat (sec_size s) + unat n \<le> 2 ^ 64" using assms n(2) by linarith
    note pad = pad [OF False n(1)] this
    have "filled s \<longrightarrow> filled s'"
    proof
      assume that: "filled s"
      have len: "length (sec_bytes s) = unat (sec_size s)" using that by (simp only: filled_def)
      then have "sec_bytes s' = sec_bytes s @ replicate (unat (n - r)) fill" by (simp add: s'(3))
      then show "filled s'" using pad by (simp add: filled_def s'(1) len)
    qed
    moreover have "unat (sec_size s) mod unat n < unat n" using n(1) by simp
    ultimately show ?thesis using s' pad by (simp add: split Let_def flip: n_def)
  qed
qed

theorem align_section_correct_witness:
  "let s = \<lparr>sec_id = 0, sec_name = ''.data'', sec_kind = SectionData, sec_bytes = [1, 2, 3, 4, 5], sec_size = 5,
             sec_align = 1, sec_alloc = True, sec_executable = False, sec_writable = True\<rparr> in
   unat (sec_size s) + unat (4 :: u64) < 2 ^ 64 \<and> filled (snd (align_section s 4 0)) \<and>
   sec_size (snd (align_section s 4 0)) mod 4 = 0"
  using align_section_correct [of "\<lparr>sec_id = 0, sec_name = ''.data'', sec_kind = SectionData,
    sec_bytes = [1, 2, 3, 4, 5], sec_size = 5, sec_align = 1, sec_alloc = True, sec_executable = False,
    sec_writable = True\<rparr>" 4 0]
  by (auto simp: Let_def filled_def split: prod.splits)

theorem define_symbol_refines_witness:
  "module_wf (fst (create_section empty_module ''.text'' SectionText 4 True True False)) \<and>
   find_symbol_named (fst (define_symbol (fst (create_section empty_module ''.text'' SectionText 4 True True False))
      ''f'' BindGlobal KindFunction 0 0 8)) ''f'' =
     Some \<lparr>sym_id = 0, sym_name = ''f'', sym_binding = BindGlobal, sym_kind = KindFunction, sym_section = Some 0,
           sym_value = 0, sym_size = 8\<rparr>"
proof -
  have wf: "module_wf (fst (create_section empty_module ''.text'' SectionText 4 True True False))"
    by (rule create_section_wf) (simp add: module_wf_def empty_module_def)
  show ?thesis
    using wf define_symbol_refines [OF wf, of "''f''" BindGlobal KindFunction 0 0 8]
    by (simp add: define_symbol_def find_symbol_named_def find_symbol_id_def create_section_def empty_module_def)
qed

section \<open>Reserving in a section that has contents\<close>

text \<open>
  \<open>reserve_section_bytes\<close> grows the size but not the contents. Bytes appended after that are put in
  front of the reserved space, not at the offset that \<open>append_section_bytes\<close> returns.
\<close>

lemma append_after_reserve:
  assumes "filled s" "0 < unat n" "bs \<noteq> []" "unat (sec_size s) + unat n < 2 ^ 64"
  shows "let s' = snd (reserve_section_bytes s n); (off, s'') = append_section_bytes s' bs in
     unat off = length (sec_bytes s) + unat n \<and> length (sec_bytes s'') = length (sec_bytes s) + length bs \<and>
     take (length bs) (drop (length (sec_bytes s)) (sec_bytes s'')) = bs"
  using assms by (auto simp: Let_def reserve_section_bytes_def append_section_bytes_def filled_def unat_word_ariths)

end
