(* ===== verification/Elf_Writer.thy ===== *)
theory Elf_Writer
  imports Object_Model
begin

text \<open>
  Writing an object module as a relocatable ELF file (\<open>backend/mir/object/elf_writer.hpp\<close>,
  \<open>elf_writer.cpp\<close>). The steps of \<open>write_relocatable_elf\<close> are functions of their own, in its order:
  the headers of the sections, the relocation groups, the symbol and string tables, the headers of
  the tables, the placement of all contents and the file header. A missing key in
  \<open>section_indices.at\<close> throws \<open>std::out_of_range\<close>, which no caller catches: the error of the model.
\<close>

unbundle bit_operations_syntax

section \<open>Tables and headers\<close>

abbreviation (input) SHT_NULL :: u32 where "SHT_NULL \<equiv> 0"
abbreviation (input) SHT_PROGBITS :: u32 where "SHT_PROGBITS \<equiv> 1"
abbreviation (input) SHT_SYMTAB :: u32 where "SHT_SYMTAB \<equiv> 2"
abbreviation (input) SHT_STRTAB :: u32 where "SHT_STRTAB \<equiv> 3"
abbreviation (input) SHT_RELA :: u32 where "SHT_RELA \<equiv> 4"
abbreviation (input) SHT_NOBITS :: u32 where "SHT_NOBITS \<equiv> 8"

type_synonym string_table = "u8 list"

definition empty_table :: string_table where
  "empty_table = [0]"

definition add_string :: "string \<Rightarrow> string_table \<Rightarrow> u32 \<times> string_table" where
  "add_string v t = (of_nat (length t), t @ map byte_of_char v @ [0])"

record section_header =
  sh_name :: u32
  sh_type :: u32
  sh_flags :: u64
  sh_addr :: u64
  sh_offset :: u64
  sh_size :: u64
  sh_link :: u32
  sh_info :: u32
  sh_addralign :: u64
  sh_entsize :: u64

definition default_header :: section_header where
  "default_header = \<lparr>sh_name = 0, sh_type = SHT_NULL, sh_flags = 0, sh_addr = 0, sh_offset = 0, sh_size = 0,
     sh_link = 0, sh_info = 0, sh_addralign = 0, sh_entsize = 0\<rparr>"

record relocation_group =
  grp_target :: nat
  grp_name :: string
  grp_relocations :: "relocation_record list"

datatype elf_class = Elf64

datatype elf_data_encoding = LittleEndian

record elf_config =
  cfg_class :: elf_class
  cfg_encoding :: elf_data_encoding
  cfg_machine :: u16
  cfg_flags :: u32

definition align_up :: "u64 \<Rightarrow> u64 \<Rightarrow> u64" where
  "align_up v alignment =
     (if alignment \<le> 1 then v
      else let remainder = v mod alignment in
        if remainder = 0 then v else v + (alignment - remainder))"

definition pad_to :: "u8 list \<Rightarrow> u64 \<Rightarrow> u8 list" where
  "pad_to out offset =
     (if of_nat (length out) < offset then out @ replicate (unat (offset - of_nat (length out))) 0 else out)"

definition section_flags :: "section_record \<Rightarrow> u64" where
  "section_flags s =
     (let flags = 0;
          flags = (if sec_writable s then flags OR 0x1 else flags);
          flags = (if sec_alloc s then flags OR 0x2 else flags) in
      if sec_executable s then flags OR 0x4 else flags)"

definition section_type :: "section_record \<Rightarrow> u32" where
  "section_type s = (if sec_kind s = SectionBss then SHT_NOBITS else SHT_PROGBITS)"

definition symbol_binding :: "symbol_binding \<Rightarrow> u8" where
  "symbol_binding b = (if b = BindGlobal then 1 else 0)"

fun symbol_type :: "symbol_kind \<Rightarrow> u8" where
  "symbol_type KindFunction = 2"
| "symbol_type KindObject = 1"
| "symbol_type KindSection = 3"
| "symbol_type KindNoType = 0"

definition symbol_info :: "symbol_record \<Rightarrow> u8" where
  "symbol_info s = push_bit 4 (symbol_binding (sym_binding s)) OR symbol_type (sym_kind s)"

definition is_supported_config :: "elf_config \<Rightarrow> bool" where
  "is_supported_config c = (cfg_class c = Elf64 \<and> cfg_encoding c = LittleEndian)"

definition ordered_symbols :: "object_module \<Rightarrow> symbol_record list" where
  "ordered_symbols m = filter (\<lambda>s. sym_binding s = BindLocal) (symbols m) @
     filter (\<lambda>s. sym_binding s = BindGlobal) (symbols m)"

section \<open>Relocation groups\<close>

text \<open>The \<open>std::map\<close> from target sections to groups, kept sorted by its key.\<close>

fun enter_group :: "nat \<Rightarrow> string \<Rightarrow> relocation_record \<Rightarrow> (nat \<times> relocation_group) list \<Rightarrow>
    (nat \<times> relocation_group) list" where
  "enter_group k n r [] = [(k, \<lparr>grp_target = k, grp_name = n, grp_relocations = [r]\<rparr>)]"
| "enter_group k n r ((k', g) # gs) =
     (if k < k' then (k, \<lparr>grp_target = k, grp_name = n, grp_relocations = [r]\<rparr>) # (k', g) # gs
      else if k = k' then
        (k, \<lparr>grp_target = k, grp_name = n, grp_relocations = grp_relocations g @ [r]\<rparr>) # gs
      else (k', g) # enter_group k n r gs)"

definition group_step :: "object_module \<Rightarrow> relocation_record \<Rightarrow> (nat \<times> relocation_group) list \<Rightarrow>
    (nat \<times> relocation_group) list" where
  "group_step m r gs =
     (case find_section m (rel_section r) of
        None \<Rightarrow> gs
      | Some target \<Rightarrow> enter_group (rel_section r) (''.rela'' @ sec_name target) r gs)"

definition group_relocations :: "object_module \<Rightarrow> relocation_group list" where
  "group_relocations m = map snd (fold (group_step m) (relocations m) [])"

section \<open>The symbol table\<close>

datatype elf_error = OutOfRange

text \<open>\<open>unordered_map::emplace\<close> keeps an existing entry, \<open>at\<close> throws without one.\<close>

definition emplace :: "'k \<Rightarrow> 'v \<Rightarrow> ('k \<rightharpoonup> 'v) \<Rightarrow> ('k \<rightharpoonup> 'v)" where
  "emplace k v m = (if m k = None then m(k \<mapsto> v) else m)"

definition at :: "('k \<rightharpoonup> 'v) \<Rightarrow> 'k \<Rightarrow> elf_error + 'v" where
  "at m k = (case m k of None \<Rightarrow> Inl OutOfRange | Some v \<Rightarrow> Inr v)"

text \<open>The string a \<open>const char*\<close> points at.\<close>

definition c_string :: "u8 list \<Rightarrow> string" where
  "c_string bs = map char_of_byte (takeWhile (\<lambda>b. b \<noteq> 0) bs)"

function name_offsets :: "string_table \<Rightarrow> nat \<Rightarrow> (string \<rightharpoonup> u32) \<Rightarrow> (string \<rightharpoonup> u32)" where
  "name_offsets strtab i m =
     (if i < length strtab then
        let n = c_string (drop i strtab) in
        name_offsets strtab (i + length n + 1) (emplace n (of_nat i) m)
      else m)"
  by pat_completeness auto
termination by (relation "measure (\<lambda>(strtab, i, _). length strtab - i)") auto

declare name_offsets.simps [simp del]

fun encode_symbols :: "(string \<rightharpoonup> u32) \<Rightarrow> (nat \<rightharpoonup> u32) \<Rightarrow> symbol_record list \<Rightarrow> u8 list \<Rightarrow> elf_error + u8 list" where
  "encode_symbols offs idx [] bytes = Inr bytes"
| "encode_symbols offs idx (s # ss) bytes =
     (let n = (case offs (sym_name s) of None \<Rightarrow> 0 | Some off \<Rightarrow> off) in
      case (case sym_section s of None \<Rightarrow> Inr 0 | Some sec \<Rightarrow> at idx sec) of
        Inl e \<Rightarrow> Inl e
      | Inr shndx \<Rightarrow>
          let bytes = append_u32 bytes n;
              bytes = bytes @ [symbol_info s];
              bytes = bytes @ [0];
              bytes = append_u16 bytes (ucast shndx);
              bytes = append_u64 bytes (sym_value s);
              bytes = append_u64 bytes (sym_size s) in
          encode_symbols offs idx ss bytes)"

definition encode_symbol_table :: "string_table \<Rightarrow> symbol_record list \<Rightarrow> (nat \<rightharpoonup> u32) \<Rightarrow> elf_error + u8 list" where
  "encode_symbol_table strtab ss idx =
     encode_symbols (name_offsets strtab 1 Map.empty) idx ss (replicate 24 0)"

definition append_section_header :: "u8 list \<Rightarrow> section_header \<Rightarrow> u8 list" where
  "append_section_header out h =
     (let out = append_u32 out (sh_name h);
          out = append_u32 out (sh_type h);
          out = append_u64 out (sh_flags h);
          out = append_u64 out (sh_addr h);
          out = append_u64 out (sh_offset h);
          out = append_u64 out (sh_size h);
          out = append_u32 out (sh_link h);
          out = append_u32 out (sh_info h);
          out = append_u64 out (sh_addralign h) in
      append_u64 out (sh_entsize h))"

definition relocation_addend :: "object_module \<Rightarrow> relocation_record \<Rightarrow> u64" where
  "relocation_addend m r =
     (if rel_base r = BaseLabel then
        case rel_label r of
          None \<Rightarrow> rel_addend r
        | Some l \<Rightarrow> if l < length (labels m) then rel_addend r + lab_offset (labels m ! l) else rel_addend r
      else rel_addend r)"

section \<open>Writing the file\<close>

text \<open>Section headers, their name table and the map from section ids to header positions.\<close>

type_synonym header_state = "section_header list \<times> string_table \<times> (nat \<rightharpoonup> u32)"

definition add_section_header :: "section_record \<Rightarrow> header_state \<Rightarrow> header_state" where
  "add_section_header s st =
     (case st of (headers, shstrtab, idx) \<Rightarrow>
        let i = of_nat (length headers);
            idx = emplace (sec_id s) i idx;
            (n, shstrtab) = add_string (sec_name s) shstrtab in
        (headers @ [default_header\<lparr>sh_name := n, sh_type := section_type s, sh_flags := section_flags s,
                      sh_size := sec_size s, sh_addralign := max 1 (sec_align s)\<rparr>], shstrtab, idx))"

definition symbol_strings :: "symbol_record list \<Rightarrow> string_table" where
  "symbol_strings ss = fold (\<lambda>s t. snd (add_string (sym_name s) t)) ss empty_table"

definition local_symbol_count :: "symbol_record list \<Rightarrow> u32" where
  "local_symbol_count ss = of_nat (1 + length (filter (\<lambda>s. sym_binding s = BindLocal) ss))"

fun index_symbols :: "nat \<Rightarrow> symbol_record list \<Rightarrow> (nat \<rightharpoonup> u32) \<Rightarrow> (nat \<rightharpoonup> u32)" where
  "index_symbols i [] m = m"
| "index_symbols i (s # ss) m = index_symbols (Suc i) ss (emplace (sym_id s) (of_nat (i + 1)) m)"

fun encode_relocations :: "object_module \<Rightarrow> (nat \<rightharpoonup> u32) \<Rightarrow> relocation_record list \<Rightarrow> u8 list \<Rightarrow> u8 list option" where
  "encode_relocations m symidx [] bytes = Some bytes"
| "encode_relocations m symidx (r # rs) bytes =
     (case symidx (rel_symbol r) of
        None \<Rightarrow> None
      | Some i \<Rightarrow>
          let bytes = append_u64 bytes (rel_offset r);
              bytes = append_u64 bytes (push_bit 32 (ucast i) OR ucast (rel_type r));
              bytes = append_i64 bytes (relocation_addend m r) in
          encode_relocations m symidx rs bytes)"

fun encode_groups :: "object_module \<Rightarrow> (nat \<rightharpoonup> u32) \<Rightarrow> relocation_group list \<Rightarrow> u8 list list option" where
  "encode_groups m symidx [] = Some []"
| "encode_groups m symidx (g # gs) =
     (case encode_relocations m symidx (grp_relocations g) [] of
        None \<Rightarrow> None
      | Some bytes \<Rightarrow>
          (case encode_groups m symidx gs of None \<Rightarrow> None | Some rest \<Rightarrow> Some (bytes # rest)))"

fun add_rela_headers :: "(nat \<rightharpoonup> u32) \<Rightarrow> (relocation_group \<times> u8 list) list \<Rightarrow>
    section_header list \<times> string_table \<Rightarrow> elf_error + section_header list \<times> string_table" where
  "add_rela_headers idx [] st = Inr st"
| "add_rela_headers idx ((g, bytes) # gs) (headers, shstrtab) =
     (let (n, shstrtab) = add_string (grp_name g) shstrtab in
      case at idx (grp_target g) of
        Inl e \<Rightarrow> Inl e
      | Inr target \<Rightarrow>
          add_rela_headers idx gs
            (headers @ [default_header\<lparr>sh_name := n, sh_type := SHT_RELA, sh_flags := 0x40,
                          sh_size := of_nat (length bytes), sh_link := 0, sh_info := target,
                          sh_addralign := 8, sh_entsize := 24\<rparr>], shstrtab))"

text \<open>The contents of a section as the file holds them: its bytes, cut or filled up to its size.\<close>

definition section_contents :: "section_record \<Rightarrow> u8 list" where
  "section_contents s =
     (let bytes_size = min (of_nat (length (sec_bytes s))) (sec_size s) in
      take (unat bytes_size) (sec_bytes s) @
      (if bytes_size < sec_size s then replicate (unat (sec_size s - bytes_size)) 0 else []))"

type_synonym layout_state = "section_header list \<times> u8 list"

fun place_sections :: "(nat \<rightharpoonup> u32) \<Rightarrow> section_record list \<Rightarrow> layout_state \<Rightarrow> elf_error + layout_state" where
  "place_sections idx [] st = Inr st"
| "place_sections idx (s # ss) (headers, out) =
     (case at idx (sec_id s) of
        Inl e \<Rightarrow> Inl e
      | Inr i \<Rightarrow>
          let h = headers ! unat i;
              offset = align_up (of_nat (length out)) (sh_addralign h);
              headers = headers[unat i := h\<lparr>sh_offset := offset\<rparr>] in
          if sh_type h = SHT_NOBITS then place_sections idx ss (headers, out)
          else
            let out = pad_to out offset;
                out = out @ section_contents s in
            place_sections idx ss (headers, out))"

fun place_tables :: "nat \<Rightarrow> u8 list list \<Rightarrow> layout_state \<Rightarrow> layout_state" where
  "place_tables i [] st = st"
| "place_tables i (bytes # rest) (headers, out) =
     (let offset = align_up (of_nat (length out)) (sh_addralign (headers ! i));
          headers = headers[i := (headers ! i)\<lparr>sh_offset := offset\<rparr>];
          out = pad_to out offset;
          out = out @ bytes in
      place_tables (Suc i) rest (headers, out))"

fun link_tables :: "nat \<Rightarrow> nat \<Rightarrow> u32 \<Rightarrow> section_header list \<Rightarrow> section_header list" where
  "link_tables i 0 target headers = headers"
| "link_tables i (Suc n) target headers =
     link_tables (Suc i) n target (headers[i := (headers ! i)\<lparr>sh_link := target\<rparr>])"

definition elf_header :: "elf_config \<Rightarrow> u64 \<Rightarrow> u16 \<Rightarrow> u16 \<Rightarrow> u8 list" where
  "elf_header cfg shoff shnum shstrndx =
     (let header = [0x7f, byte_of_char CHR ''E'', byte_of_char CHR ''L'', byte_of_char CHR ''F'', 2, 1, 1, 0];
          header = header @ replicate 8 0;
          header = append_u16 header 1;
          header = append_u16 header (cfg_machine cfg);
          header = append_u32 header 1;
          header = append_u64 header 0;
          header = append_u64 header 0;
          header = append_u64 header shoff;
          header = append_u32 header (cfg_flags cfg);
          header = append_u16 header 64;
          header = append_u16 header 0;
          header = append_u16 header 0;
          header = append_u16 header 64;
          header = append_u16 header shnum in
      append_u16 header shstrndx)"

text \<open>
  The headers of \<open>.symtab\<close>, \<open>.strtab\<close> and \<open>.shstrtab\<close>, whose size is set once all names are in it;
  then the links to the symbol and string tables.
\<close>

definition add_table_headers :: "nat \<Rightarrow> nat \<Rightarrow> u8 list \<Rightarrow> string_table \<Rightarrow> u32 \<Rightarrow>
    section_header list \<times> string_table \<Rightarrow> section_header list \<times> string_table" where
  "add_table_headers first_rela groups symtab strtab locals st =
     (let (headers, shstrtab) = st;
          symtab_index = length headers;
          (n1, shstrtab) = add_string ''.symtab'' shstrtab;
          headers = headers @ [default_header\<lparr>sh_name := n1, sh_type := SHT_SYMTAB,
             sh_size := of_nat (length symtab), sh_link := 0, sh_info := locals, sh_addralign := 8, sh_entsize := 24\<rparr>];
          strtab_index = length headers;
          (n2, shstrtab) = add_string ''.strtab'' shstrtab;
          headers = headers @ [default_header\<lparr>sh_name := n2, sh_type := SHT_STRTAB,
             sh_size := of_nat (length strtab), sh_addralign := 1\<rparr>];
          (n3, shstrtab) = add_string ''.shstrtab'' shstrtab;
          headers = headers @ [default_header\<lparr>sh_name := n3, sh_type := SHT_STRTAB,
             sh_size := of_nat (length shstrtab), sh_addralign := 1\<rparr>];
          headers = headers[symtab_index := (headers ! symtab_index)\<lparr>sh_link := of_nat strtab_index\<rparr>] in
      (link_tables first_rela groups (of_nat symtab_index) headers, shstrtab))"

text \<open>\<open>.symtab\<close>, \<open>.strtab\<close> and \<open>.shstrtab\<close> are the last three headers.\<close>

definition place_last_tables :: "u8 list \<Rightarrow> string_table \<Rightarrow> string_table \<Rightarrow> layout_state \<Rightarrow> layout_state" where
  "place_last_tables symtab strtab shstrtab st =
     (let (headers, out) = st;
          i = length headers - 3;
          offset = align_up (of_nat (length out)) (sh_addralign (headers ! i));
          headers = headers[i := (headers ! i)\<lparr>sh_offset := offset\<rparr>];
          out = pad_to out offset @ symtab;
          headers = headers[i + 1 := (headers ! (i + 1))\<lparr>sh_offset := align_up (of_nat (length out)) 1\<rparr>];
          out = out @ strtab;
          headers = headers[i + 2 := (headers ! (i + 2))\<lparr>sh_size := of_nat (length shstrtab),
                                        sh_offset := align_up (of_nat (length out)) 1\<rparr>];
          out = out @ shstrtab in
      (headers, out))"

definition finish_image :: "elf_config \<Rightarrow> layout_state \<Rightarrow> u8 list" where
  "finish_image cfg st =
     (let (headers, out) = st;
          shoff = align_up (of_nat (length out)) 8;
          out = pad_to out shoff;
          out = fold (\<lambda>h out. append_section_header out h) headers out in
      elf_header cfg shoff (of_nat (length headers)) (of_nat (length headers - 1)) @ drop 64 out)"

definition write_relocatable_elf :: "object_module \<Rightarrow> elf_config \<Rightarrow> elf_error + u8 list option" where
  "write_relocatable_elf m cfg =
     (if \<not> is_supported_config cfg then Inr None
      else
        let (headers, shstrtab, idx) = fold add_section_header (sections m) ([default_header], empty_table, Map.empty);
            groups = group_relocations m;
            ss = ordered_symbols m;
            strtab = symbol_strings ss in
        case encode_groups m (index_symbols 0 ss Map.empty) groups of
          None \<Rightarrow> Inr None
        | Some rela \<Rightarrow>
            (case encode_symbol_table strtab ss idx of
               Inl e \<Rightarrow> Inl e
             | Inr symtab \<Rightarrow>
                 (case add_rela_headers idx (zip groups rela) (headers, shstrtab) of
                    Inl e \<Rightarrow> Inl e
                  | Inr st \<Rightarrow>
                      let (headers', shstrtab) =
                            add_table_headers (length headers) (length groups) symtab strtab (local_symbol_count ss) st in
                      (case place_sections idx (sections m) (headers', replicate 64 0) of
                         Inl e \<Rightarrow> Inl e
                       | Inr st \<Rightarrow>
                           Inr (Some (finish_image cfg
                             (place_last_tables symtab strtab shstrtab (place_tables (length headers) rela st))))))))"

end
