(* ===== verification/Elf_Layout.thy ===== *)
theory Elf_Layout
  imports Elf_Writer
begin

text \<open>
  Where \<open>write_relocatable_elf\<close> puts everything: the string tables as concatenations of their names,
  the header list field by field, and the place of every section and table in the image.
\<close>

unbundle bit_operations_syntax

section \<open>String tables\<close>

text \<open>A string table as the list of the strings in it.\<close>

definition str_bytes :: "string \<Rightarrow> u8 list" where
  "str_bytes v = map byte_of_char v @ [0]"

definition table_of :: "string list \<Rightarrow> string_table" where
  "table_of vs = 0 # concat (map str_bytes vs)"

lemma empty_table_of: "empty_table = table_of []"
  by (simp add: empty_table_def table_of_def)

lemma add_string_table_of: "add_string v (table_of vs) = (of_nat (length (table_of vs)), table_of (vs @ [v]))"
  by (simp add: add_string_def table_of_def str_bytes_def)

lemma table_of_append: "table_of (us @ vs) = table_of us @ concat (map str_bytes vs)"
  by (simp add: table_of_def)

definition name_pos :: "string list \<Rightarrow> nat \<Rightarrow> nat" where
  "name_pos vs i = length (table_of (take i vs))"

lemma drop_name_pos:
  "i < length vs \<Longrightarrow> drop (name_pos vs i) (table_of vs) = str_bytes (vs ! i) @ concat (map str_bytes (drop (Suc i) vs))"
proof -
  assume i: "i < length vs"
  then have "table_of vs = table_of (take i vs) @ concat (map str_bytes (vs ! i # drop (Suc i) vs))"
    by (metis table_of_append id_take_nth_drop append_Cons append_Nil append_assoc)
  then show ?thesis by (simp add: name_pos_def)
qed

lemma name_pos_less: "i < length vs \<Longrightarrow> name_pos vs i < length (table_of vs)"
  using drop_name_pos [of i vs] by (metis append_is_Nil_conv drop_all not_less snoc_eq_iff_butlast str_bytes_def)

lemma name_pos_append [simp]: "i \<le> length us \<Longrightarrow> name_pos (us @ vs) i = name_pos us i"
  by (simp add: name_pos_def)

lemma c_string_str_bytes [simp]: "NUL \<notin> set v \<Longrightarrow> c_string (str_bytes v @ rest) = v"
proof -
  assume v: "NUL \<notin> set v"
  then have "takeWhile (\<lambda>b. b \<noteq> 0) (str_bytes v @ rest) = map byte_of_char v"
    unfolding str_bytes_def by (induction v) auto
  then show ?thesis by (simp add: c_string_def comp_def)
qed

text \<open>The offsets the writer reads back from the string table: each name leads to an entry of that name.\<close>

lemma name_offsets_scan:
  assumes "\<forall>v\<in>set vs. NUL \<notin> set v" "i \<le> length vs"
  shows "name_offsets (table_of vs) (name_pos vs i) m =
    fold (\<lambda>j. emplace (vs ! j) (of_nat (name_pos vs j))) [i..<length vs] m"
  using assms(2)
proof (induction "length vs - i" arbitrary: i m)
  case 0
  then show ?case by (subst name_offsets.simps) (simp add: name_pos_def)
next
  case (Suc n)
  then have i: "i < length vs" by simp
  have next_pos: "name_pos vs (Suc i) = name_pos vs i + length (vs ! i) + 1"
    using i by (simp add: name_pos_def take_Suc_conv_app_nth table_of_append str_bytes_def)
  have "c_string (drop (name_pos vs i) (table_of vs)) = vs ! i"
    using i assms(1) by (simp add: drop_name_pos)
  then have "name_offsets (table_of vs) (name_pos vs i) m =
      name_offsets (table_of vs) (name_pos vs (Suc i)) (emplace (vs ! i) (of_nat (name_pos vs i)) m)"
    using i name_pos_less [OF i] by (subst name_offsets.simps) (simp add: next_pos Let_def)
  also have "\<dots> = fold (\<lambda>j. emplace (vs ! j) (of_nat (name_pos vs j))) [Suc i..<length vs]
      (emplace (vs ! i) (of_nat (name_pos vs i)) m)"
    using Suc by (intro Suc.hyps) auto
  finally show ?case using i by (simp add: upt_conv_Cons)
qed

lemma emplace_apply: "emplace k v m x = (if x = k \<and> m k = None then Some v else m x)"
  by (simp add: emplace_def)

lemma fold_emplace_hit:
  assumes "\<And>j. j \<in> set js \<Longrightarrow> Q (k j) (v j)" "\<And>y. m x = Some y \<Longrightarrow> Q x y" "x \<in> k ` set js \<or> m x \<noteq> None"
  shows "\<exists>y. fold (\<lambda>j. emplace (k j) (v j)) js m x = Some y \<and> Q x y"
  using assms
proof (induction js arbitrary: m)
  case (Cons j js)
  show ?case
    using Cons.prems by (simp, intro Cons.IH) (auto simp: emplace_apply split: if_splits)
qed auto

lemma name_offsets_found:
  assumes "\<forall>v\<in>set vs. NUL \<notin> set v" "v \<in> set vs"
  shows "\<exists>j<length vs. name_offsets (table_of vs) 1 Map.empty v = Some (of_nat (name_pos vs j)) \<and> vs ! j = v"
proof -
  have start: "1 = name_pos vs 0" by (simp add: name_pos_def table_of_def)
  obtain y where "name_offsets (table_of vs) 1 Map.empty v = Some y"
      "\<exists>j<length vs. y = of_nat (name_pos vs j) \<and> vs ! j = v"
    unfolding start name_offsets_scan [OF assms(1) le0]
    using fold_emplace_hit [of "[0..<length vs]" "\<lambda>n y. \<exists>j<length vs. y = (of_nat (name_pos vs j) :: u32) \<and> vs ! j = n"
        "\<lambda>j. vs ! j" "\<lambda>j. of_nat (name_pos vs j)" Map.empty v] assms(2)
    by (fastforce simp: in_set_conv_nth)
  then show ?thesis by auto
qed

lemma symbol_strings_table: "symbol_strings ss = table_of (map sym_name ss)"
proof -
  have "fold (\<lambda>s t. snd (add_string (sym_name s) t)) ss (table_of vs) = table_of (vs @ map sym_name ss)" for vs
    by (induction ss arbitrary: vs) (simp_all add: add_string_table_of)
  from this [of "[]"] show ?thesis by (simp add: symbol_strings_def empty_table_of)
qed

section \<open>The header list\<close>

text \<open>
  The headers before placement: those of the sections, the relocation tables and the three last
  tables, each with the position of its name in the name table.
\<close>

definition name_headers :: "string list \<Rightarrow> section_header list \<Rightarrow> section_header list" where
  "name_headers vs hs = map (\<lambda>k. (hs ! k)\<lparr>sh_name := of_nat (name_pos vs k)\<rparr>) [0..<length hs]"

definition header_of_section :: "section_record \<Rightarrow> section_header" where
  "header_of_section s = default_header\<lparr>sh_type := section_type s, sh_flags := section_flags s,
     sh_size := sec_size s, sh_addralign := max 1 (sec_align s)\<rparr>"

definition header_of_rela :: "u32 \<Rightarrow> relocation_group \<times> u8 list \<Rightarrow> section_header" where
  "header_of_rela link g = default_header\<lparr>sh_type := SHT_RELA, sh_flags := 0x40, sh_size := of_nat (length (snd g)),
     sh_link := link, sh_info := of_nat (Suc (grp_target (fst g))), sh_addralign := 8, sh_entsize := 24\<rparr>"

lemma length_name_headers [simp]: "length (name_headers vs hs) = length hs"
  by (simp add: name_headers_def)

lemma nth_name_headers [simp]: "k < length hs \<Longrightarrow> name_headers vs hs ! k = (hs ! k)\<lparr>sh_name := of_nat (name_pos vs k)\<rparr>"
  by (simp add: name_headers_def)

lemma name_headers_snoc:
  "length hs = length vs \<Longrightarrow>
     name_headers (vs @ [v]) (hs @ [h]) = name_headers vs hs @ [h\<lparr>sh_name := of_nat (length (table_of vs))\<rparr>]"
  by (rule nth_equalityI) (auto simp: nth_append name_pos_def less_Suc_eq)

text \<open>Section ids are positions, so the section with id \<open>i\<close> has header \<open>i + 1\<close>.\<close>

definition index_of :: "nat \<Rightarrow> nat \<rightharpoonup> u32" where
  "index_of n = (\<lambda>i. if i < n then Some (of_nat (Suc i)) else None)"

lemma index_of_0: "index_of 0 = Map.empty"
  by (simp add: index_of_def)

lemma emplace_index_of: "emplace n (of_nat (Suc n)) (index_of n) = index_of (Suc n)"
  by (auto simp: emplace_def index_of_def less_Suc_eq fun_eq_iff)

lemma add_section_headers:
  "map sec_id ss = [length vs..<length vs + length ss] \<Longrightarrow> length hs = length vs \<Longrightarrow>
     fold add_section_header ss (default_header # name_headers vs hs, table_of vs, index_of (length vs)) =
       (default_header # name_headers (vs @ map sec_name ss) (hs @ map header_of_section ss),
        table_of (vs @ map sec_name ss), index_of (length vs + length ss))"
proof (induction ss arbitrary: vs hs)
  case (Cons s ss)
  then have s: "sec_id s = length vs" "map sec_id ss = [length (vs @ [sec_name s])..<length (vs @ [sec_name s]) + length ss]"
    by (simp_all add: upt_conv_Cons del: upt_Suc)
  have "add_section_header s (default_header # name_headers vs hs, table_of vs, index_of (length vs)) =
      (default_header # name_headers (vs @ [sec_name s]) (hs @ [header_of_section s]),
       table_of (vs @ [sec_name s]), index_of (length (vs @ [sec_name s])))"
    using Cons.prems s emplace_index_of [of "length vs"]
    by (simp add: add_section_header_def add_string_table_of name_headers_snoc header_of_section_def Let_def)
  then show ?case
    using Cons.IH [OF s(2), of "hs @ [header_of_section s]"] Cons.prems by simp
qed simp

lemma at_index_of [simp]: "i < n \<Longrightarrow> at (index_of n) i = Inr (of_nat (Suc i))"
  by (simp add: at_def index_of_def)

lemma rela_header_named:
  "default_header\<lparr>sh_name := x, sh_type := SHT_RELA, sh_flags := 0x40, sh_size := of_nat (length b), sh_link := 0,
     sh_info := of_nat (Suc (grp_target g)), sh_addralign := 8, sh_entsize := 24\<rparr> = (header_of_rela 0 (g, b))\<lparr>sh_name := x\<rparr>"
  by (simp add: header_of_rela_def)

lemma add_rela_headers_ok:
  "\<forall>g\<in>set gs. grp_target (fst g) < n \<Longrightarrow> length hs = length vs \<Longrightarrow>
     add_rela_headers (index_of n) gs (default_header # name_headers vs hs, table_of vs) =
       Inr (default_header # name_headers (vs @ map (grp_name \<circ> fst) gs) (hs @ map (header_of_rela 0) gs),
            table_of (vs @ map (grp_name \<circ> fst) gs))"
proof (induction gs arbitrary: vs hs)
  case (Cons g gs)
  show ?case
    using Cons.prems Cons.IH [of "hs @ [header_of_rela 0 g]" "vs @ [grp_name (fst g)]"]
    by (cases g) (simp add: add_string_table_of name_headers_snoc rela_header_named del: of_nat_Suc)
qed simp

lemma length_link_tables [simp]: "length (link_tables i n t hs) = length hs"
  by (induction n arbitrary: i hs) simp_all

lemma nth_link_tables:
  "i + n \<le> length hs \<Longrightarrow> k < length hs \<Longrightarrow> link_tables i n t hs ! k =
     (if i \<le> k \<and> k < i + n then (hs ! k)\<lparr>sh_link := t\<rparr> else hs ! k)"
  by (induction n arbitrary: i hs) (auto simp: nth_list_update)

definition table_headers :: "u8 list \<Rightarrow> string_table \<Rightarrow> string_table \<Rightarrow> u32 \<Rightarrow> u32 \<Rightarrow> section_header list" where
  "table_headers symtab strtab shstrtab strtab_index locals =
     [default_header\<lparr>sh_type := SHT_SYMTAB, sh_size := of_nat (length symtab), sh_link := strtab_index,
        sh_info := locals, sh_addralign := 8, sh_entsize := 24\<rparr>,
      default_header\<lparr>sh_type := SHT_STRTAB, sh_size := of_nat (length strtab), sh_addralign := 1\<rparr>,
      default_header\<lparr>sh_type := SHT_STRTAB, sh_size := of_nat (length shstrtab), sh_addralign := 1\<rparr>]"

lemma add_table_headers_eq:
  assumes "length hs = length vs" "length gs = length us"
  defines "vs' \<equiv> vs @ us @ [''.symtab'', ''.strtab'', ''.shstrtab'']"
  defines "n \<equiv> Suc (length vs + length us)"
  shows "add_table_headers (Suc (length vs)) (length us) symtab strtab locals
       (default_header # name_headers (vs @ us) (hs @ map (header_of_rela 0) gs), table_of (vs @ us)) =
     (default_header # name_headers vs' (hs @ map (header_of_rela (of_nat n)) gs @
         table_headers symtab strtab (table_of vs') (of_nat (Suc n)) locals), table_of vs')"
proof -
  let ?hs = "hs @ map (header_of_rela 0) gs"
  have vs': "vs' = ((vs @ us @ [''.symtab'']) @ [''.strtab'']) @ [''.shstrtab'']" by (simp add: vs'_def)
  have len: "length ?hs = length (vs @ us)" using assms by simp
  define bare where "bare = default_header # name_headers vs' (?hs @ table_headers symtab strtab (table_of vs') 0 locals)"
  have bare: "bare = ((default_header # name_headers (vs @ us) ?hs) @
      [default_header\<lparr>sh_name := of_nat (length (table_of (vs @ us))), sh_type := SHT_SYMTAB,
         sh_size := of_nat (length symtab), sh_link := 0, sh_info := locals, sh_addralign := 8, sh_entsize := 24\<rparr>]) @
      [default_header\<lparr>sh_name := of_nat (length (table_of (vs @ us @ [''.symtab'']))), sh_type := SHT_STRTAB,
         sh_size := of_nat (length strtab), sh_addralign := 1\<rparr>] @
      [default_header\<lparr>sh_name := of_nat (length (table_of (vs @ us @ [''.symtab'', ''.strtab'']))), sh_type := SHT_STRTAB,
         sh_size := of_nat (length (table_of vs')), sh_addralign := 1\<rparr>]"
    using len name_headers_snoc [of ?hs "vs @ us" "''.symtab''"]
      name_headers_snoc [of "?hs @ [h]" "vs @ us @ [''.symtab'']" "''.strtab''" for h]
      name_headers_snoc [of "?hs @ [h, h']" "vs @ us @ [''.symtab'', ''.strtab'']" "''.shstrtab''" for h h']
    by (simp add: bare_def vs'_def table_headers_def)
  have step: "add_table_headers (Suc (length vs)) (length us) symtab strtab locals
       (default_header # name_headers (vs @ us) ?hs, table_of (vs @ us)) =
     (link_tables (Suc (length vs)) (length us) (of_nat n)
        (bare[n := (bare ! n)\<lparr>sh_link := of_nat (Suc n)\<rparr>]), table_of vs')"
    using len unfolding bare
    by (simp add: add_table_headers_def Let_def add_string_table_of n_def vs'_def nth_append list_update_append)
  have "link_tables (Suc (length vs)) (length us) (of_nat n) (bare[n := (bare ! n)\<lparr>sh_link := of_nat (Suc n)\<rparr>]) =
      default_header # name_headers vs' (hs @ map (header_of_rela (of_nat n)) gs @
         table_headers symtab strtab (table_of vs') (of_nat (Suc n)) locals)" (is "?l = ?r")
  proof (rule nth_equalityI)
    show "length ?l = length ?r" using len by (simp add: n_def bare_def table_headers_def)
    fix k assume "k < length ?l"
    then have "k < Suc (length vs + length us + 3)" using len by (simp add: n_def bare_def table_headers_def)
    then consider "k = 0" | j where "k = Suc j" "j < length vs" | j where "k = Suc (length vs + j)" "j < length us"
      | "k = n" | "k = Suc n" | "k = Suc (Suc n)"
      unfolding n_def by (cases k) (fastforce simp: less_Suc_eq not_less le_iff_add dest: not_less [THEN iffD1])+
    then show "?l ! k = ?r ! k"
      by cases (use len assms in \<open>auto simp: nth_link_tables n_def bare_def table_headers_def nth_append nth_list_update header_of_rela_def\<close>)
  qed
  with step show ?thesis by simp
qed

section \<open>Placing contents\<close>

lemma align_up_bounds:
  assumes "unat v + unat a \<le> 2 ^ 64"
  shows "unat v \<le> unat (align_up v a)" and "unat (align_up v a) mod max 1 (unat a) = 0"
proof -
  consider "a \<le> 1" | "1 < a" "v mod a = 0" | "1 < a" "v mod a \<noteq> 0" by fastforce
  then have "unat v \<le> unat (align_up v a) \<and> unat (align_up v a) mod max 1 (unat a) = 0"
  proof cases
    case 1
    then have "unat a \<le> 1" by (simp add: word_le_nat_alt)
    then have "max 1 (unat a) = 1" by simp
    with 1 show ?thesis by (simp add: align_up_def)
  next
    case 2
    then have "unat v mod unat a = 0" by (metis unat_mod unat_0)
    moreover have "1 < unat a" using 2 by (simp add: word_less_nat_alt)
    ultimately show ?thesis using 2 by (auto simp: align_up_def max_def)
  next
    case 3
    then have a: "1 < unat a" by (simp add: word_less_nat_alt)
    have "unat v mod unat a < unat a" using a by simp
    moreover have "unat (v + (a - v mod a)) = unat v + (unat a - unat v mod unat a)"
      using pad_word(2) [of v a] a 3 assms by simp
    moreover have "(unat v + (unat a - unat v mod unat a)) mod unat a = 0" using a by (intro mod_pad) simp
    ultimately have "unat v \<le> unat (v + (a - v mod a))" "unat (v + (a - v mod a)) mod unat a = 0"
      by simp_all
    with 3 a show ?thesis by (simp add: align_up_def Let_def)
  qed
  then show "unat v \<le> unat (align_up v a)" "unat (align_up v a) mod max 1 (unat a) = 0" by simp_all
qed

lemma align_up_1 [simp]: "align_up v 1 = v"
  by (simp add: align_up_def)

lemma pad_to_extends: "\<exists>ext. pad_to out off = out @ ext"
  by (auto simp: pad_to_def)

lemma pad_to_here [simp]: "pad_to out (of_nat (length out)) = out"
  by (simp add: pad_to_def)

lemma length_pad_to: "length out \<le> unat off \<Longrightarrow> length (pad_to out off) = unat off"
proof (cases "of_nat (length out) < off")
  case True
  assume le: "length out \<le> unat off"
  then have "length out < 2 ^ 64" using unsigned_less [of off] order_le_less_trans by fastforce
  then have "unat (of_nat (length out) :: u64) = length out"
    by (simp add: unat_of_nat take_bit_nat_eq_self)
  then show ?thesis using True le by (simp add: pad_to_def unat_sub less_imp_le)
next
  case False
  assume le: "length out \<le> unat off"
  then have "length out < 2 ^ 64" using unsigned_less [of off] order_le_less_trans by fastforce
  then have "unat (of_nat (length out) :: u64) = length out"
    by (simp add: unat_of_nat take_bit_nat_eq_self)
  then show ?thesis using False le by (simp add: pad_to_def word_less_nat_alt)
qed

text \<open>\<open>bs\<close> stands in \<open>out\<close> at the offset of \<open>h\<close>, which is aligned and behind the file header.\<close>

definition placed :: "u8 list \<Rightarrow> section_header \<Rightarrow> u8 list \<Rightarrow> bool" where
  "placed out h bs \<longleftrightarrow> 64 \<le> unat (sh_offset h) \<and> unat (sh_offset h) + length bs \<le> length out \<and>
     take (length bs) (drop (unat (sh_offset h)) out) = bs \<and> unat (sh_offset h) mod max 1 (unat (sh_addralign h)) = 0"

lemma placed_append: "placed out h bs \<Longrightarrow> placed (out @ ext) h bs"
  by (auto simp: placed_def)

lemma placed_new:
  assumes "64 \<le> length out" "length out + unat (sh_addralign h) \<le> 2 ^ 64" "length out < 2 ^ 64"
    "off = align_up (of_nat (length out)) (sh_addralign h)"
  shows "placed (pad_to out off @ bs) (h\<lparr>sh_offset := off\<rparr>) bs"
proof -
  have len: "unat (of_nat (length out) :: u64) = length out"
    using assms(3) by (simp add: unat_of_nat take_bit_nat_eq_self)
  then have "length out \<le> unat off" "unat off mod max 1 (unat (sh_addralign h)) = 0"
    using align_up_bounds [of "of_nat (length out)" "sh_addralign h"] assms by simp_all
  with assms(1) length_pad_to [of out off] show ?thesis by (simp add: placed_def)
qed

text \<open>Placement writes offsets and nothing else of the headers.\<close>

definition offset_only :: "section_header list \<Rightarrow> section_header list \<Rightarrow> bool" where
  "offset_only hs hs' \<longleftrightarrow> length hs' = length hs \<and>
     (\<forall>k<length hs. hs' ! k = (hs ! k)\<lparr>sh_offset := sh_offset (hs' ! k)\<rparr>)"

lemma offset_only_refl: "offset_only hs hs"
  by (simp add: offset_only_def)

lemma offset_only_trans: "offset_only a b \<Longrightarrow> offset_only b c \<Longrightarrow> offset_only a c"
  by (simp add: offset_only_def) (metis (no_types, lifting) section_header.update_convs(5) section_header.surjective)

lemma offset_only_update: "offset_only hs (hs[k := (hs ! k)\<lparr>sh_offset := x\<rparr>])"
  by (cases "k < length hs") (auto simp: offset_only_def nth_list_update)

lemma place_sections_total: "\<forall>s\<in>set ss. sec_id s < n \<Longrightarrow> \<exists>r. place_sections (index_of n) ss st = Inr r"
proof (induction ss arbitrary: st)
  case (Cons s ss)
  then show ?case by (cases st) (simp add: Let_def)
qed simp

lemma place_sections_extends: "place_sections idx ss (hs, out) = Inr (hs', out') \<Longrightarrow> \<exists>ext. out' = out @ ext"
proof (induction ss arbitrary: hs out)
  case (Cons s ss)
  obtain i where i: "at idx (sec_id s) = Inr i" using Cons.prems by (auto split: sum.splits)
  let ?off = "align_up (of_nat (length out)) (sh_addralign (hs ! unat i))"
  obtain ext where "pad_to out ?off = out @ ext" using pad_to_extends by blast
  with Cons i show ?case by (fastforce simp: Let_def split: if_splits)
qed simp

lemma place_sections_placed:
  assumes "place_sections (index_of n) ss (hs, out) = Inr (hs', out')"
    "\<forall>s\<in>set ss. sec_id s < n" "distinct (map sec_id ss)" "n < length hs" "n < 2 ^ 31"
    "\<forall>s\<in>set ss. sh_type (hs ! Suc (sec_id s)) = section_type s \<and> unat (sh_addralign (hs ! Suc (sec_id s))) \<le> 2 ^ 32"
    "64 \<le> length out" "length out' < 2 ^ 32"
  shows "offset_only hs hs' \<and> (\<forall>k<length hs. k \<notin> Suc ` sec_id ` set ss \<longrightarrow> hs' ! k = hs ! k) \<and>
    (\<forall>s\<in>set ss. sec_kind s \<noteq> SectionBss \<longrightarrow> placed out' (hs' ! Suc (sec_id s)) (section_contents s))"
  using assms
proof (induction ss arbitrary: hs out)
  case Nil
  then show ?case by (simp add: offset_only_refl)
next
  case (Cons s ss)
  define k where "k = Suc (sec_id s)"
  define off where "off = align_up (of_nat (length out)) (sh_addralign (hs ! k))"
  define hs1 where "hs1 = hs[k := (hs ! k)\<lparr>sh_offset := off\<rparr>]"
  define out1 where "out1 = (if sec_kind s = SectionBss then out else pad_to out off @ section_contents s)"
  have k: "k < length hs" "unat (of_nat (Suc (sec_id s)) :: u32) = k"
    using Cons.prems by (simp_all add: k_def small_unat_of_nat del: of_nat_Suc)
  have ty: "sh_type (hs ! k) = 8 \<longleftrightarrow> sec_kind s = SectionBss"
    using Cons.prems(6) by (simp add: k_def section_type_def)
  have rec: "place_sections (index_of n) ss (hs1, out1) = Inr (hs', out')"
    using Cons.prems(1,2) k ty
    by (simp add: Let_def hs1_def out1_def off_def del: of_nat_Suc split: if_splits)
  have others: "hs1 ! Suc (sec_id s') = hs ! Suc (sec_id s')" if "s' \<in> set ss" for s'
  proof -
    have "sec_id s \<noteq> sec_id s'" using that Cons.prems(3) by (auto simp: image_iff)
    then show ?thesis by (simp add: hs1_def k_def)
  qed
  have "64 \<le> length out1"
    using Cons.prems(7) pad_to_extends [of out off] by (auto simp: out1_def)
  then have IH: "offset_only hs1 hs' \<and> (\<forall>k<length hs1. k \<notin> Suc ` sec_id ` set ss \<longrightarrow> hs' ! k = hs1 ! k) \<and>
    (\<forall>s\<in>set ss. sec_kind s \<noteq> SectionBss \<longrightarrow> placed out' (hs' ! Suc (sec_id s)) (section_contents s))"
    using Cons.prems others by (intro Cons.IH [OF rec]) (auto simp: hs1_def)
  have mine: "hs' ! k = (hs ! k)\<lparr>sh_offset := off\<rparr>"
    using IH k Cons.prems(3) by (auto simp: hs1_def k_def image_iff)
  obtain ext where ext: "out' = out1 @ ext" using place_sections_extends [OF rec] by blast
  have "placed out' (hs' ! k) (section_contents s)" if "sec_kind s \<noteq> SectionBss"
  proof -
    have "length out < 2 ^ 32"
      using Cons.prems(8) ext that pad_to_extends [of out off] by (auto simp: out1_def)
    moreover have "unat (sh_addralign (hs ! k)) \<le> 2 ^ 32" using Cons.prems(6) by (simp add: k_def)
    ultimately have "placed out1 (hs' ! k) (section_contents s)"
      using that Cons.prems(7) by (simp add: mine out1_def) (intro placed_new, simp_all add: off_def)
    then show ?thesis unfolding ext by (rule placed_append)
  qed
  moreover have "offset_only hs hs1" by (simp add: hs1_def offset_only_update)
  ultimately show ?case
    using IH offset_only_trans [of hs hs1 hs'] by (auto simp: hs1_def k_def)
qed

lemma place_tables_append:
  "place_tables i (xs @ ys) st = place_tables (i + length xs) ys (place_tables i xs st)"
proof (induction xs arbitrary: i st)
  case (Cons x xs)
  then show ?case by (cases st) (simp add: Let_def)
qed simp

lemma place_tables_extends: "place_tables i ts (hs, out) = (hs', out') \<Longrightarrow> \<exists>ext. out' = out @ ext"
proof (induction ts arbitrary: i hs out)
  case (Cons t ts)
  let ?off = "align_up (of_nat (length out)) (sh_addralign (hs ! i))"
  obtain ext where "pad_to out ?off = out @ ext" using pad_to_extends by blast
  with Cons show ?case by (fastforce simp: Let_def)
qed simp

lemma place_tables_placed:
  assumes "place_tables i ts (hs, out) = (hs', out')" "i + length ts \<le> length hs"
    "\<forall>k<length ts. unat (sh_addralign (hs ! (i + k))) \<le> 2 ^ 32" "64 \<le> length out" "length out' < 2 ^ 32"
  shows "offset_only hs hs' \<and> (\<forall>k<length hs. k < i \<or> i + length ts \<le> k \<longrightarrow> hs' ! k = hs ! k) \<and>
    (\<forall>k<length ts. placed out' (hs' ! (i + k)) (ts ! k))"
  using assms
proof (induction ts arbitrary: i hs out)
  case Nil
  then show ?case by (simp add: offset_only_refl)
next
  case (Cons t ts)
  define off where "off = align_up (of_nat (length out)) (sh_addralign (hs ! i))"
  define hs1 where "hs1 = hs[i := (hs ! i)\<lparr>sh_offset := off\<rparr>]"
  define out1 where "out1 = pad_to out off @ t"
  have rec: "place_tables (Suc i) ts (hs1, out1) = (hs', out')"
    using Cons.prems(1) by (simp add: Let_def hs1_def out1_def off_def)
  have "64 \<le> length out1"
    using Cons.prems(4) pad_to_extends [of out off] by (auto simp: out1_def)
  then have IH: "offset_only hs1 hs' \<and> (\<forall>k<length hs1. k < Suc i \<or> Suc i + length ts \<le> k \<longrightarrow> hs' ! k = hs1 ! k) \<and>
    (\<forall>k<length ts. placed out' (hs' ! (Suc i + k)) (ts ! k))"
    using Cons.prems by (intro Cons.IH [OF rec]) (auto simp: hs1_def nth_list_update)
  have mine: "hs' ! i = (hs ! i)\<lparr>sh_offset := off\<rparr>"
    using IH Cons.prems(2) by (auto simp: hs1_def)
  obtain ext where ext: "out' = out1 @ ext" using place_tables_extends [OF rec] by blast
  have "length out < 2 ^ 32" using Cons.prems(5) ext pad_to_extends [of out off] by (auto simp: out1_def)
  moreover have "unat (sh_addralign (hs ! i)) \<le> 2 ^ 32" using Cons.prems(3) by fastforce
  ultimately have "placed out1 (hs' ! i) t"
    using Cons.prems(4) by (simp add: mine out1_def) (intro placed_new, simp_all add: off_def)
  then have "placed out' (hs' ! i) t" unfolding ext by (rule placed_append)
  then have "placed out' (hs' ! (i + k)) ((t # ts) ! k)" if "k < length (t # ts)" for k
    using IH that by (cases k) auto
  moreover have "hs' ! k = hs ! k" if "k < length hs" "k < i \<or> i + length (t # ts) \<le> k" for k
    using IH that by (auto simp: hs1_def)
  moreover have "offset_only hs hs1" by (simp add: hs1_def offset_only_update)
  ultimately show ?case
    using IH offset_only_trans [of hs hs1 hs'] by simp
qed

lemma place_last_tables_eq:
  assumes "length hs = Suc (Suc (Suc i))" "sh_addralign (hs ! Suc i) = 1" "sh_addralign (hs ! Suc (Suc i)) = 1"
    "sh_size (hs ! Suc (Suc i)) = of_nat (length shstrtab)"
  shows "place_last_tables symtab strtab shstrtab (hs, out) = place_tables i [symtab, strtab, shstrtab] (hs, out)"
proof -
  have "(hs ! Suc (Suc i))\<lparr>sh_size := of_nat (length shstrtab)\<rparr> = hs ! Suc (Suc i)"
    using assms(4) by (cases "hs ! Suc (Suc i)") simp
  then have "(hs ! Suc (Suc i))\<lparr>sh_size := of_nat (length shstrtab), sh_offset := x\<rparr> =
      (hs ! Suc (Suc i))\<lparr>sh_offset := x\<rparr>" for x by simp
  with assms(1-3) show ?thesis
    by (simp add: place_last_tables_def Let_def numeral_eq_Suc del: length_append of_nat_add)
qed

section \<open>Symbol and relocation entries\<close>

definition symbol_bytes :: "(string \<rightharpoonup> u32) \<Rightarrow> symbol_record \<Rightarrow> u8 list" where
  "symbol_bytes offs s = le_bytes 4 (case offs (sym_name s) of None \<Rightarrow> 0 | Some off \<Rightarrow> off) @ [symbol_info s, 0] @
     le_bytes 2 (ucast (case sym_section s of None \<Rightarrow> 0 | Some sec \<Rightarrow> (of_nat (Suc sec) :: u32)) :: u16) @
     le_bytes 8 (sym_value s) @ le_bytes 8 (sym_size s)"

lemma length_symbol_bytes [simp]: "length (symbol_bytes offs s) = 24"
  by (simp add: symbol_bytes_def)

text \<open>The section of a symbol, if it has one, is one of the module.\<close>

definition section_known :: "nat \<Rightarrow> symbol_record \<Rightarrow> bool" where
  "section_known n s = (case sym_section s of None \<Rightarrow> True | Some i \<Rightarrow> i < n)"

lemma encode_symbols_ok:
  "\<forall>s\<in>set ss. section_known n s \<Longrightarrow>
     encode_symbols offs (index_of n) ss bytes = Inr (bytes @ concat (map (symbol_bytes offs) ss))"
proof (induction ss arbitrary: bytes)
  case (Cons s ss)
  then show ?case
    by (cases "sym_section s") (simp_all add: section_known_def layout_simps symbol_bytes_def Let_def del: of_nat_Suc)
qed simp

definition relocation_bytes :: "object_module \<Rightarrow> (nat \<rightharpoonup> u32) \<Rightarrow> relocation_record \<Rightarrow> u8 list" where
  "relocation_bytes m symidx r = le_bytes 8 (rel_offset r) @
     le_bytes 8 (push_bit 32 (ucast (the (symidx (rel_symbol r)))) OR ucast (rel_type r) :: u64) @
     le_bytes 8 (relocation_addend m r)"

lemma encode_relocations_ok:
  "\<forall>r\<in>set rs. symidx (rel_symbol r) \<noteq> None \<Longrightarrow>
     encode_relocations m symidx rs bytes = Some (bytes @ concat (map (relocation_bytes m symidx) rs))"
  by (induction rs arbitrary: bytes) (auto simp: relocation_bytes_def layout_simps Let_def)

lemma encode_relocations_None:
  "encode_relocations m symidx rs bytes = None \<longleftrightarrow> (\<exists>r\<in>set rs. symidx (rel_symbol r) = None)"
  by (induction rs arbitrary: bytes) (auto simp: Let_def split: option.splits)

lemma encode_groups_ok:
  "\<forall>g\<in>set gs. \<forall>r\<in>set (grp_relocations g). symidx (rel_symbol r) \<noteq> None \<Longrightarrow>
     encode_groups m symidx gs = Some (map (\<lambda>g. concat (map (relocation_bytes m symidx) (grp_relocations g))) gs)"
  by (induction gs) (simp_all add: encode_relocations_ok)

lemma encode_groups_None:
  "encode_groups m symidx gs = None \<longleftrightarrow> (\<exists>g\<in>set gs. \<exists>r\<in>set (grp_relocations g). symidx (rel_symbol r) = None)"
proof (induction gs)
  case (Cons g gs)
  then show ?case
    using encode_relocations_None [of m symidx "grp_relocations g" "[]"] by (auto split: option.split)
qed simp

lemma index_symbols_apply:
  "distinct (map sym_id ss) \<Longrightarrow> index_symbols i ss m x =
     (if m x \<noteq> None then m x else map_option (\<lambda>j. of_nat (i + j + 1)) (find (\<lambda>j. sym_id (ss ! j) = x) [0..<length ss]))"
proof (induction ss arbitrary: i m)
  case (Cons s ss)
  have shift: "find (\<lambda>j. sym_id ((s # ss) ! j) = x) [Suc 0..<Suc (length ss)] =
      map_option Suc (find (\<lambda>j. sym_id (ss ! j) = x) [0..<length ss])"
  proof -
    have "find (\<lambda>j. sym_id ((s # ss) ! j) = x) (map Suc js) = map_option Suc (find (\<lambda>j. sym_id (ss ! j) = x) js)" for js
      by (induction js) auto
    then show ?thesis by (simp flip: map_Suc_upt del: upt_Suc)
  qed
  have none: "find (\<lambda>j. sym_id (ss ! j) = sym_id s) [0..<length ss] = None"
    using Cons.prems by (auto simp: find_None_iff) (metis image_eqI nth_mem)
  show ?case
    using Cons none shift
    by (cases "m x") (auto simp: upt_conv_Cons emplace_apply option.map_comp comp_def simp del: upt_Suc)
qed simp

lemma symbol_index:
  assumes "distinct (map sym_id ss)" "j < length ss"
  shows "index_symbols 0 ss Map.empty (sym_id (ss ! j)) = Some (of_nat (Suc j))"
proof -
  have "find (\<lambda>i. sym_id (ss ! i) = sym_id (ss ! j)) [0..<length ss] = Some j"
    using assms by (auto simp: find_Some_iff distinct_conv_nth intro!: exI [of _ j])
  then show ?thesis using assms by (simp add: index_symbols_apply)
qed

lemma symbol_index_None:
  assumes "distinct (map sym_id ss)"
  shows "index_symbols 0 ss Map.empty x = None \<longleftrightarrow> x \<notin> sym_id ` set ss"
  using assms by (fastforce simp: index_symbols_apply find_None_iff in_set_conv_nth image_iff)

lemma global_iff: "(\<lambda>s. sym_binding s = BindGlobal) = (\<lambda>s. sym_binding s \<noteq> BindLocal)"
  by (metis symbol_binding.distinct(1) symbol_binding.exhaust)

lemma set_ordered_symbols [simp]: "set (ordered_symbols m) = set (symbols m)"
  by (auto simp: ordered_symbols_def global_iff)

lemma length_ordered_symbols [simp]: "length (ordered_symbols m) = length (symbols m)"
  by (simp add: ordered_symbols_def global_iff sum_length_filter_compl)

lemma distinct_ordered_symbols:
  "distinct (map f (symbols m)) \<Longrightarrow> distinct (map f (ordered_symbols m))"
  unfolding distinct_map set_ordered_symbols by (auto simp: ordered_symbols_def)

section \<open>Relocation groups\<close>

text \<open>
  One group for every section that has relocations, in the order of the sections, with the
  relocations of that section in the order they were attached.
\<close>

lemma enter_group_sorted:
  "sorted_wrt (<) (map fst gs) \<Longrightarrow>
     sorted_wrt (<) (map fst (enter_group k n r gs)) \<and> set (map fst (enter_group k n r gs)) = insert k (set (map fst gs))"
  by (induction k n r gs rule: enter_group.induct) auto

definition group_ok :: "object_module \<Rightarrow> relocation_record list \<Rightarrow> nat \<times> relocation_group \<Rightarrow> bool" where
  "group_ok m rs g \<longleftrightarrow> fst g < length (sections m) \<and> grp_target (snd g) = fst g \<and>
     grp_name (snd g) = ''.rela'' @ sec_name (sections m ! fst g) \<and>
     grp_relocations (snd g) = filter (\<lambda>r. rel_section r = fst g) rs"

lemma enter_group_ok:
  assumes "sorted_wrt (<) (map fst gs)" "rel_section r = k" "k < length (sections m)"
    "n = ''.rela'' @ sec_name (sections m ! k)"
    "\<forall>g\<in>set gs. group_ok m rs g" "k \<notin> fst ` set gs \<Longrightarrow> filter (\<lambda>r. rel_section r = k) rs = []"
  shows "\<forall>g\<in>set (enter_group k n r gs). group_ok m (rs @ [r]) g"
  using assms
proof (induction k n r gs rule: enter_group.induct)
  case (2 k n r k' g gs)
  have keep: "group_ok m (rs @ [r]) h" if "group_ok m rs h" "fst h \<noteq> k" for h
    using that 2(3) by (auto simp: group_ok_def)
  have later: "\<forall>h\<in>set gs. k' < fst h" using 2(2) by auto
  consider "k < k'" | "k = k'" | "k' < k" by linarith
  then show ?case
  proof cases
    case 1
    then have "filter (\<lambda>r. rel_section r = k) rs = []" using later 2(7) by fastforce
    with 1 2 later keep show ?thesis by (fastforce simp: group_ok_def)
  next
    case 2
    with "2.prems" later keep show ?thesis by (auto simp: group_ok_def)
  next
    case 3
    then have "\<forall>g\<in>set (enter_group k n r gs). group_ok m (rs @ [r]) g"
      using 2 by (intro "2.IH") auto
    with 3 2 keep [of "(k', g)"] show ?thesis by auto
  qed
qed (auto simp: group_ok_def)

lemma fold_group_step:
  assumes "ids_ok sec_id (sections m)"
  shows "let gs = fold (group_step m) rs [] in sorted_wrt (<) (map fst gs) \<and> (\<forall>g\<in>set gs. group_ok m rs g) \<and>
    fst ` set gs = rel_section ` {r \<in> set rs. rel_section r < length (sections m)}"
proof (induction rs rule: rev_induct)
  case (snoc r rs)
  define gs where "gs = fold (group_step m) rs []"
  note IH = snoc [unfolded Let_def, folded gs_def]
  show ?case
  proof (cases "rel_section r < length (sections m)")
    case True
    have *: "filter (\<lambda>q. rel_section q = rel_section r) rs = []" if "rel_section r \<notin> fst ` set gs"
      using that IH True by (auto simp: filter_empty_conv) (metis (mono_tags, lifting) image_eqI mem_Collect_eq)
    define gs' where "gs' = enter_group (rel_section r) (''.rela'' @ sec_name (sections m ! rel_section r)) r gs"
    have step: "fold (group_step m) (rs @ [r]) [] = gs'"
      using True assms by (simp add: group_step_def sec_table.found_at gs'_def gs_def)
    have "\<forall>g\<in>set gs'. group_ok m (rs @ [r]) g"
      using IH True * unfolding gs'_def by (intro enter_group_ok) auto
    moreover have "sorted_wrt (<) (map fst gs')" "fst ` set gs' = insert (rel_section r) (fst ` set gs)"
      using IH enter_group_sorted [of gs "rel_section r" "''.rela'' @ sec_name (sections m ! rel_section r)" r]
      by (simp_all add: gs'_def)
    moreover have "{q \<in> set (rs @ [r]). rel_section q < length (sections m)} =
        insert r {q \<in> set rs. rel_section q < length (sections m)}"
      using True by auto
    ultimately show ?thesis using IH unfolding step Let_def by simp
  next
    case False
    then have keep: "group_ok m (rs @ [r]) g = group_ok m rs g" for g
      by (auto simp: group_ok_def)
    have "{q \<in> insert r (set rs). rel_section q < length (sections m)} = {q \<in> set rs. rel_section q < length (sections m)}"
      using False by auto
    moreover have "fold (group_step m) (rs @ [r]) [] = gs"
      using False assms by (simp add: group_step_def sec_table.found_at gs_def)
    ultimately show ?thesis using IH by (simp add: Let_def keep del: fold_append)
  qed
qed simp

lemma group_relocations_ok:
  assumes "ids_ok sec_id (sections m)" "g \<in> set (group_relocations m)"
  shows "grp_target g < length (sections m)" "grp_name g = ''.rela'' @ sec_name (sections m ! grp_target g)"
    "grp_relocations g = filter (\<lambda>r. rel_section r = grp_target g) (relocations m)"
  using fold_group_step [OF assms(1), of "relocations m"] assms(2)
  by (auto simp: Let_def group_relocations_def group_ok_def)

end
