(* ===== verification/Elf_Image.thy ===== *)
theory Elf_Image
  imports Elf_Layout
begin

text \<open>
  The image \<open>write_relocatable_elf\<close> returns: when it returns one, and what stands at which offset
  of it.
\<close>

unbundle bit_operations_syntax

section \<open>The parts of the image\<close>

definition elf_symidx :: "object_module \<Rightarrow> nat \<rightharpoonup> u32" where
  "elf_symidx m = index_symbols 0 (ordered_symbols m) Map.empty"

definition elf_rela :: "object_module \<Rightarrow> u8 list list" where
  "elf_rela m = map (\<lambda>g. concat (map (relocation_bytes m (elf_symidx m)) (grp_relocations g))) (group_relocations m)"

definition elf_strings :: "object_module \<Rightarrow> string list" where
  "elf_strings m = map sym_name (ordered_symbols m)"

definition elf_symtab :: "object_module \<Rightarrow> u8 list" where
  "elf_symtab m = replicate 24 0 @
     concat (map (symbol_bytes (name_offsets (table_of (elf_strings m)) 1 Map.empty)) (ordered_symbols m))"

definition elf_names :: "object_module \<Rightarrow> string list" where
  "elf_names m = map sec_name (sections m) @ map grp_name (group_relocations m) @ [''.symtab'', ''.strtab'', ''.shstrtab'']"

definition elf_tables :: "object_module \<Rightarrow> u8 list list" where
  "elf_tables m = elf_rela m @ [elf_symtab m, table_of (elf_strings m), table_of (elf_names m)]"

definition table_count :: "object_module \<Rightarrow> nat" where
  "table_count m = length (sections m) + length (group_relocations m)"

definition plain_headers :: "object_module \<Rightarrow> section_header list" where
  "plain_headers m = map header_of_section (sections m) @
     map (header_of_rela (of_nat (Suc (table_count m)))) (zip (group_relocations m) (elf_rela m)) @
     table_headers (elf_symtab m) (table_of (elf_strings m)) (table_of (elf_names m)) (of_nat (Suc (Suc (table_count m))))
       (local_symbol_count (ordered_symbols m))"

definition elf_headers :: "object_module \<Rightarrow> section_header list" where
  "elf_headers m = default_header # name_headers (elf_names m) (plain_headers m)"

lemma length_elf_rela [simp]: "length (elf_rela m) = length (group_relocations m)"
  by (simp add: elf_rela_def)

lemma length_plain_headers [simp]: "length (plain_headers m) = table_count m + 3"
  by (simp add: plain_headers_def table_headers_def table_count_def)

lemma length_elf_headers [simp]: "length (elf_headers m) = table_count m + 4"
  by (simp add: elf_headers_def plain_headers_def table_headers_def table_count_def)

lemma length_elf_tables [simp]: "length (elf_tables m) = length (group_relocations m) + 3"
  by (simp add: elf_tables_def)

section \<open>When an image is written\<close>

text \<open>Symbols lie in sections of the module and relocations refer to symbols of it.\<close>

definition refs_known :: "object_module \<Rightarrow> bool" where
  "refs_known m \<longleftrightarrow> (\<forall>s\<in>set (symbols m). section_known (length (sections m)) s) \<and>
     (\<forall>r\<in>set (relocations m). rel_section r < length (sections m) \<longrightarrow> rel_symbol r < length (symbols m))"

lemma place_sections_offset_only: "place_sections idx ss (hs, out) = Inr (hs', out') \<Longrightarrow> offset_only hs hs'"
proof (induction ss arbitrary: hs out)
  case (Cons s ss)
  obtain i where "at idx (sec_id s) = Inr i" using Cons.prems by (auto split: sum.splits)
  with Cons show ?case
    by (auto simp: Let_def split: if_splits intro: offset_only_trans [OF offset_only_update])
qed (simp add: offset_only_refl)

lemma place_tables_offset_only: "place_tables i ts (hs, out) = (hs', out') \<Longrightarrow> offset_only hs hs'"
proof (induction ts arbitrary: i hs out)
  case (Cons t ts)
  then show ?case by (auto simp: Let_def intro: offset_only_trans [OF offset_only_update])
qed (simp add: offset_only_refl)

lemma supported_config [simp]: "is_supported_config cfg"
  by (cases "cfg_class cfg"; cases "cfg_encoding cfg") (simp add: is_supported_config_def)

lemma wf_sec_ids: "module_wf m \<Longrightarrow> map sec_id (sections m) = [0..<length (sections m)]"
  by (simp add: module_wf_def ids_ok_def)

lemma wf_sym_ids: "module_wf m \<Longrightarrow> sym_id ` set (symbols m) = {..<length (symbols m)}"
  unfolding module_wf_def ids_ok_def by (metis atLeast_upt list.set_map)

lemma wf_distinct_ids: "module_wf m \<Longrightarrow> distinct (map sym_id (ordered_symbols m))"
  by (intro distinct_ordered_symbols) (simp add: module_wf_def ids_ok_def)

lemma elf_symidx_None: "module_wf m \<Longrightarrow> elf_symidx m x = None \<longleftrightarrow> length (symbols m) \<le> x"
  by (simp add: elf_symidx_def symbol_index_None wf_distinct_ids wf_sym_ids not_less)

lemma groups_ok: "module_wf m \<Longrightarrow> g \<in> set (group_relocations m) \<Longrightarrow>
    grp_target g < length (sections m) \<and> grp_name g = ''.rela'' @ sec_name (sections m ! grp_target g) \<and>
    grp_relocations g = filter (\<lambda>r. rel_section r = grp_target g) (relocations m)"
  using group_relocations_ok [of m g] by (simp add: module_wf_def)

lemma elf_headers_written:
  assumes "module_wf m" "refs_known m"
  shows "fold add_section_header (sections m) ([default_header], empty_table, Map.empty) =
      (default_header # name_headers (map sec_name (sections m)) (map header_of_section (sections m)),
       table_of (map sec_name (sections m)), index_of (length (sections m)))"
    and "add_rela_headers (index_of (length (sections m))) (zip (group_relocations m) (elf_rela m))
       (default_header # name_headers (map sec_name (sections m)) (map header_of_section (sections m)),
        table_of (map sec_name (sections m))) =
      Inr (default_header # name_headers (map sec_name (sections m) @ map grp_name (group_relocations m))
            (map header_of_section (sections m) @ map (header_of_rela 0) (zip (group_relocations m) (elf_rela m))),
           table_of (map sec_name (sections m) @ map grp_name (group_relocations m)))"
    and "add_table_headers (Suc (length (sections m))) (length (group_relocations m)) (elf_symtab m)
       (table_of (elf_strings m)) (local_symbol_count (ordered_symbols m))
       (default_header # name_headers (map sec_name (sections m) @ map grp_name (group_relocations m))
            (map header_of_section (sections m) @ map (header_of_rela 0) (zip (group_relocations m) (elf_rela m))),
           table_of (map sec_name (sections m) @ map grp_name (group_relocations m))) =
      (elf_headers m, table_of (elf_names m))"
proof -
  show "fold add_section_header (sections m) ([default_header], empty_table, Map.empty) =
      (default_header # name_headers (map sec_name (sections m)) (map header_of_section (sections m)),
       table_of (map sec_name (sections m)), index_of (length (sections m)))"
    using add_section_headers [of "sections m" "[]" "[]"] assms(1)
    by (simp add: wf_sec_ids empty_table_of index_of_0 name_headers_def)
  have zip: "map (grp_name \<circ> fst) (zip (group_relocations m) (elf_rela m)) = map grp_name (group_relocations m)"
    by (simp flip: map_map)
  have "\<forall>g\<in>set (zip (group_relocations m) (elf_rela m)). grp_target (fst g) < length (sections m)"
    using groups_ok [OF assms(1)] by (auto dest: set_zip_leftD)
  from add_rela_headers_ok [OF this, of "map header_of_section (sections m)" "map sec_name (sections m)"]
  show "add_rela_headers (index_of (length (sections m))) (zip (group_relocations m) (elf_rela m))
       (default_header # name_headers (map sec_name (sections m)) (map header_of_section (sections m)),
        table_of (map sec_name (sections m))) =
      Inr (default_header # name_headers (map sec_name (sections m) @ map grp_name (group_relocations m))
            (map header_of_section (sections m) @ map (header_of_rela 0) (zip (group_relocations m) (elf_rela m))),
           table_of (map sec_name (sections m) @ map grp_name (group_relocations m)))"
    by (simp only: zip length_map)
  show "add_table_headers (Suc (length (sections m))) (length (group_relocations m)) (elf_symtab m)
       (table_of (elf_strings m)) (local_symbol_count (ordered_symbols m))
       (default_header # name_headers (map sec_name (sections m) @ map grp_name (group_relocations m))
            (map header_of_section (sections m) @ map (header_of_rela 0) (zip (group_relocations m) (elf_rela m))),
           table_of (map sec_name (sections m) @ map grp_name (group_relocations m))) =
      (elf_headers m, table_of (elf_names m))"
    using add_table_headers_eq [of "map header_of_section (sections m)" "map sec_name (sections m)"
        "zip (group_relocations m) (elf_rela m)" "map grp_name (group_relocations m)"]
    by (simp add: elf_headers_def elf_names_def plain_headers_def table_count_def)
qed

lemma nth_elf_headers: "k < table_count m + 3 \<Longrightarrow>
    elf_headers m ! Suc k = (plain_headers m ! k)\<lparr>sh_name := of_nat (name_pos (elf_names m) k)\<rparr>"
  using length_elf_headers [of m] by (simp add: elf_headers_def)

lemma last_headers:
  "plain_headers m ! table_count m = default_header\<lparr>sh_type := SHT_SYMTAB, sh_size := of_nat (length (elf_symtab m)),
     sh_link := of_nat (Suc (Suc (table_count m))), sh_info := local_symbol_count (ordered_symbols m),
     sh_addralign := 8, sh_entsize := 24\<rparr>"
  "plain_headers m ! Suc (table_count m) = default_header\<lparr>sh_type := SHT_STRTAB,
     sh_size := of_nat (length (table_of (elf_strings m))), sh_addralign := 1\<rparr>"
  "plain_headers m ! Suc (Suc (table_count m)) = default_header\<lparr>sh_type := SHT_STRTAB,
     sh_size := of_nat (length (table_of (elf_names m))), sh_addralign := 1\<rparr>"
  by (simp_all add: plain_headers_def table_count_def table_headers_def nth_append)

lemma final_header:
  assumes "offset_only (elf_headers m) hs" "k < table_count m + 3"
  shows "\<exists>x. hs ! Suc k = (plain_headers m ! k)\<lparr>sh_name := of_nat (name_pos (elf_names m) k), sh_offset := x\<rparr>"
proof -
  have "hs ! Suc k = (elf_headers m ! Suc k)\<lparr>sh_offset := sh_offset (hs ! Suc k)\<rparr>"
    using assms by (simp add: offset_only_def)
  then show ?thesis unfolding nth_elf_headers [OF assms(2)] by blast
qed

text \<open>The writing ends normally: no exception, and the headers and contents are those of the parts above.\<close>

lemma write_image:
  assumes "module_wf m" "refs_known m"
  obtains hs1 out1 hs out where
    "place_sections (index_of (length (sections m))) (sections m) (elf_headers m, replicate 64 0) = Inr (hs1, out1)"
    "place_tables (Suc (length (sections m))) (elf_tables m) (hs1, out1) = (hs, out)"
    "write_relocatable_elf m cfg = Inr (Some (finish_image cfg (hs, out)))"
proof -
  let ?n = "length (sections m)"
  obtain hs1 out1 where ps: "place_sections (index_of ?n) (sections m) (elf_headers m, replicate 64 0) = Inr (hs1, out1)"
    using place_sections_total [of "sections m" ?n] assms(1)
    by (metis module_wf_def ids_ok_nth in_set_conv_nth surj_pair)
  obtain hs2 out2 where pt: "place_tables (Suc ?n) (elf_rela m) (hs1, out1) = (hs2, out2)" by fastforce
  have only: "offset_only (elf_headers m) hs2"
    using place_sections_offset_only [OF ps] place_tables_offset_only [OF pt] by (rule offset_only_trans)
  then have len: "length hs2 = table_count m + 4" by (simp add: offset_only_def)
  have "place_last_tables (elf_symtab m) (table_of (elf_strings m)) (table_of (elf_names m)) (hs2, out2) =
      place_tables (Suc (table_count m)) [elf_symtab m, table_of (elf_strings m), table_of (elf_names m)] (hs2, out2)"
    using final_header [OF only, of "Suc (table_count m)"] final_header [OF only, of "Suc (Suc (table_count m))"] len
    by (intro place_last_tables_eq) (auto simp: last_headers)
  then have last: "place_tables (Suc ?n) (elf_tables m) (hs1, out1) =
      place_last_tables (elf_symtab m) (table_of (elf_strings m)) (table_of (elf_names m)) (hs2, out2)"
    unfolding elf_tables_def place_tables_append pt by (simp add: table_count_def)
  obtain hs out where fin: "place_tables (Suc ?n) (elf_tables m) (hs1, out1) = (hs, out)" by fastforce
  have groups: "encode_groups m (index_symbols 0 (ordered_symbols m) Map.empty) (group_relocations m) = Some (elf_rela m)"
    unfolding elf_rela_def elf_symidx_def
    using assms groups_ok [OF assms(1)] elf_symidx_None [OF assms(1), unfolded elf_symidx_def]
    by (intro encode_groups_ok) (auto simp: refs_known_def)
  have symtab: "encode_symbol_table (table_of (elf_strings m)) (ordered_symbols m) (index_of ?n) = Inr (elf_symtab m)"
    using assms(2) by (simp add: encode_symbol_table_def encode_symbols_ok refs_known_def elf_symtab_def)
  have "write_relocatable_elf m cfg = Inr (Some (finish_image cfg (hs, out)))"
    by (simp only: write_relocatable_elf_def supported_config not_True_eq_False if_False Let_def prod.case
        symbol_strings_table elf_strings_def [symmetric] elf_headers_written [OF assms] groups option.case symtab
        sum.case length_Cons length_name_headers length_map ps pt trans [OF last [symmetric] fin])
  with ps fin show thesis using that by blast
qed

section \<open>What stands where\<close>

definition header_bytes :: "section_header \<Rightarrow> u8 list" where
  "header_bytes h = le_bytes 4 (sh_name h) @ le_bytes 4 (sh_type h) @ le_bytes 8 (sh_flags h) @ le_bytes 8 (sh_addr h) @
     le_bytes 8 (sh_offset h) @ le_bytes 8 (sh_size h) @ le_bytes 4 (sh_link h) @ le_bytes 4 (sh_info h) @
     le_bytes 8 (sh_addralign h) @ le_bytes 8 (sh_entsize h)"

lemma length_header_bytes [simp]: "length (header_bytes h) = 64"
  by (simp add: header_bytes_def)

lemma append_section_headers:
  "fold (\<lambda>h out. append_section_header out h) hs out = out @ concat (map header_bytes hs)"
  by (induction hs arbitrary: out) (simp_all add: append_section_header_def header_bytes_def layout_simps Let_def)

lemma length_concat_headers [simp]: "length (concat (map header_bytes hs)) = 64 * length hs"
  by (induction hs) simp_all

lemma elf_header_bytes: "elf_header cfg shoff shnum shstrndx =
    [0x7f, byte_of_char CHR ''E'', byte_of_char CHR ''L'', byte_of_char CHR ''F'', 2, 1, 1, 0] @ replicate 8 0 @
    le_bytes 2 (1 :: u16) @ le_bytes 2 (cfg_machine cfg) @ le_bytes 4 (1 :: u32) @ le_bytes 8 (0 :: u64) @
    le_bytes 8 (0 :: u64) @ le_bytes 8 shoff @ le_bytes 4 (cfg_flags cfg) @ le_bytes 2 (64 :: u16) @ le_bytes 2 (0 :: u16) @
    le_bytes 2 (0 :: u16) @ le_bytes 2 (64 :: u16) @ le_bytes 2 shnum @ le_bytes 2 shstrndx"
  by (simp add: elf_header_def layout_simps Let_def)

lemma length_elf_header [simp]: "length (elf_header cfg shoff shnum shstrndx) = 64"
  by (simp add: elf_header_bytes)

lemma placed_behind_header: "placed out h bs \<Longrightarrow> length x = 64 \<Longrightarrow> placed (x @ drop 64 out) h bs"
  by (auto simp: placed_def)

lemma finish_image_parts:
  assumes "64 \<le> length out" "length (finish_image cfg (hs, out)) < 2 ^ 32" "img = finish_image cfg (hs, out)"
  obtains shoff where "64 \<le> shoff" "shoff mod 8 = 0" "shoff + 64 * length hs = length img"
    "take 64 img = elf_header cfg (of_nat shoff) (of_nat (length hs)) (of_nat (length hs - 1))"
    "drop shoff img = concat (map header_bytes hs)" "length out < 2 ^ 32"
    "\<And>h bs. placed out h bs \<Longrightarrow> placed img h bs"
proof -
  define off where "off = align_up (of_nat (length out)) 8"
  obtain ext where ext: "pad_to out off = out @ ext" using pad_to_extends by blast
  have img: "img = elf_header cfg off (of_nat (length hs)) (of_nat (length hs - 1)) @
      drop 64 (pad_to out off @ concat (map header_bytes hs))"
    unfolding assms(3) by (simp add: finish_image_def Let_def append_section_headers off_def)
  have len: "length img = length (pad_to out off) + 64 * length hs"
    using assms(1) by (simp add: img ext)
  then have out: "length out < 2 ^ 32" using assms(2,3) ext by simp
  then have "unat (of_nat (length out) :: u64) = length out" by (simp add: small_unat_of_nat)
  with align_up_bounds [of "of_nat (length out)" 8] out
  have bounds: "length out \<le> unat off" "unat off mod 8 = 0" by (simp_all add: off_def)
  have pad: "length (pad_to out off) = unat off" using bounds(1) by (rule length_pad_to)
  show thesis
  proof (rule that [of "unat off"])
    show "placed img h bs" if "placed out h bs" for h bs
      unfolding img ext using that by (intro placed_behind_header) (simp_all add: placed_append)
    show "drop (unat off) img = concat (map header_bytes hs)"
      using bounds(1) assms(1) unfolding img by (simp flip: pad)
  qed (use bounds assms(1) out len pad in \<open>simp_all add: img\<close>)
qed

lemma elf_image_parts:
  assumes "module_wf m" "refs_known m" "write_relocatable_elf m cfg = Inr (Some img)" "length img < 2 ^ 32"
    "\<forall>s\<in>set (sections m). unat (sec_align s) \<le> 2 ^ 32"
  obtains hs shoff where "offset_only (elf_headers m) hs" "hs ! 0 = default_header"
    "64 \<le> shoff" "shoff mod 8 = 0" "shoff + 64 * (table_count m + 4) = length img"
    "take 64 img = elf_header cfg (of_nat shoff) (of_nat (table_count m + 4)) (of_nat (table_count m + 3))"
    "drop shoff img = concat (map header_bytes hs)"
    "\<And>i. i < length (sections m) \<Longrightarrow> sec_kind (sections m ! i) \<noteq> SectionBss \<Longrightarrow>
       placed img (hs ! Suc i) (section_contents (sections m ! i))"
    "\<And>k. k < length (elf_tables m) \<Longrightarrow> placed img (hs ! (Suc (length (sections m)) + k)) (elf_tables m ! k)"
proof -
  let ?n = "length (sections m)"
  obtain hs1 out1 hs out where
    ps: "place_sections (index_of ?n) (sections m) (elf_headers m, replicate 64 0) = Inr (hs1, out1)" and
    pt: "place_tables (Suc ?n) (elf_tables m) (hs1, out1) = (hs, out)" and
    img: "img = finish_image cfg (hs, out)"
    using write_image [OF assms(1,2), of cfg] assms(3) by (metis option.inject sum.inject(2))
  have only1: "offset_only (elf_headers m) hs1" using ps by (rule place_sections_offset_only)
  have only: "offset_only (elf_headers m) hs"
    using only1 place_tables_offset_only [OF pt] by (rule offset_only_trans)
  then have len: "length hs = table_count m + 4" "length hs1 = table_count m + 4"
    using only1 by (simp_all add: offset_only_def)
  obtain e1 where e1: "out1 = replicate 64 0 @ e1" using place_sections_extends [OF ps] by blast
  obtain e2 where e2: "out = out1 @ e2" using place_tables_extends [OF pt] by blast
  have "64 \<le> length out" by (simp add: e1 e2)
  from finish_image_parts [OF this assms(4) [unfolded img] img] obtain shoff where fin:
    "64 \<le> shoff" "shoff mod 8 = 0" "shoff + 64 * length hs = length img"
    "take 64 img = elf_header cfg (of_nat shoff) (of_nat (length hs)) (of_nat (length hs - 1))"
    "drop shoff img = concat (map header_bytes hs)" "length out < 2 ^ 32"
    "\<And>h bs. placed out h bs \<Longrightarrow> placed img h bs" by metis
  have n: "?n < 2 ^ 31" "?n < table_count m + 4" using fin(3) assms(4) len by (simp_all add: table_count_def)
  have sec: "sh_type (elf_headers m ! Suc (sec_id s)) = section_type s \<and>
      unat (sh_addralign (elf_headers m ! Suc (sec_id s))) \<le> 2 ^ 32" if s: "s \<in> set (sections m)" for s
  proof -
    obtain i where i: "i < ?n" "s = sections m ! i" using s by (auto simp: in_set_conv_nth)
    then have id: "sec_id s = i" using assms(1) by (simp add: module_wf_sections)
    have "elf_headers m ! Suc i = (header_of_section s)\<lparr>sh_name := of_nat (name_pos (elf_names m) i)\<rparr>"
      using i by (simp add: nth_elf_headers table_count_def plain_headers_def nth_append)
    then show ?thesis using assms(5) s by (simp add: id header_of_section_def max_def)
  qed
  have tabs: "unat (sh_addralign (hs1 ! (Suc ?n + k))) \<le> 2 ^ 32" if "k < length (elf_tables m)" for k
  proof -
    have k: "?n + k < table_count m + 3" using that by (simp add: table_count_def)
    then obtain x where "hs1 ! Suc (?n + k) =
        (plain_headers m ! (?n + k))\<lparr>sh_name := of_nat (name_pos (elf_names m) (?n + k)), sh_offset := x\<rparr>"
      using final_header [OF only1] by blast
    moreover have "plain_headers m ! (?n + k) \<in> set (drop ?n (plain_headers m))"
      using k nth_mem [of k "drop ?n (plain_headers m)"] by (simp add: table_count_def)
    moreover have "\<forall>h\<in>set (drop ?n (plain_headers m)). sh_addralign h = 8 \<or> sh_addralign h = 1"
      by (auto simp: plain_headers_def table_headers_def header_of_rela_def)
    ultimately have "sh_addralign (hs1 ! Suc (?n + k)) = 8 \<or> sh_addralign (hs1 ! Suc (?n + k)) = 1" by auto
    then show ?thesis by auto
  qed
  have P1: "(\<forall>k<length (elf_headers m). k \<notin> Suc ` sec_id ` set (sections m) \<longrightarrow> hs1 ! k = elf_headers m ! k) \<and>
    (\<forall>s\<in>set (sections m). sec_kind s \<noteq> SectionBss \<longrightarrow> placed out1 (hs1 ! Suc (sec_id s)) (section_contents s))"
  proof -
    have "\<forall>s\<in>set (sections m). sec_id s < ?n" using assms(1) by (auto simp: in_set_conv_nth module_wf_sections)
    moreover have "distinct (map sec_id (sections m))" using wf_sec_ids [OF assms(1)] by simp
    moreover have "length out1 < 2 ^ 32" using fin(6) e2 by simp
    moreover have "?n < length (elf_headers m)" using n by simp
    moreover have "64 \<le> length (replicate 64 (0 :: u8))" by simp
    ultimately show ?thesis using place_sections_placed [OF ps _ _ _ n(1)] sec by blast
  qed
  have P2: "(\<forall>k<length hs1. k < Suc ?n \<or> Suc ?n + length (elf_tables m) \<le> k \<longrightarrow> hs ! k = hs1 ! k) \<and>
    (\<forall>k<length (elf_tables m). placed out (hs ! (Suc ?n + k)) (elf_tables m ! k))"
    using place_tables_placed [OF pt] tabs fin(6) e1 len by (simp add: table_count_def)
  show thesis
  proof (rule that [OF only _ fin(1,2) _ _ fin(5)])
    show "hs ! 0 = default_header" using P1 P2 len by (auto simp: elf_headers_def)
    show "placed img (hs ! Suc i) (section_contents (sections m ! i))"
      if "i < ?n" "sec_kind (sections m ! i) \<noteq> SectionBss" for i
    proof -
      have "placed out1 (hs1 ! Suc i) (section_contents (sections m ! i))"
        using P1 that assms(1) by (metis module_wf_sections(1) nth_mem)
      moreover have "hs ! Suc i = hs1 ! Suc i" using P2 that len n by simp
      ultimately show ?thesis using fin(7) e2 by (simp add: placed_append)
    qed
    show "placed img (hs ! (Suc ?n + k)) (elf_tables m ! k)" if "k < length (elf_tables m)" for k
      using P2 that fin(7) by blast
  qed (use fin len in \<open>simp_all add: add.commute\<close>)
qed

section \<open>Results of the writer\<close>

lemma encode_symbols_throws:
  "\<exists>s\<in>set ss. \<not> section_known n s \<Longrightarrow> encode_symbols offs (index_of n) ss bytes = Inl OutOfRange"
proof (induction ss arbitrary: bytes)
  case (Cons s ss)
  then show ?case
    by (cases "section_known n s") (auto simp: section_known_def Let_def at_def index_of_def split: option.splits)
qed simp

lemma groups_cover:
  assumes "module_wf m" "r \<in> set (relocations m)" "rel_section r < length (sections m)"
  shows "\<exists>g\<in>set (group_relocations m). r \<in> set (grp_relocations g)"
proof -
  have ids: "ids_ok sec_id (sections m)" using assms(1) by (simp add: module_wf_def)
  note groups = fold_group_step [OF ids, of "relocations m", unfolded Let_def]
  then have "rel_section r \<in> fst ` set (fold (group_step m) (relocations m) [])" using assms by auto
  then obtain p where p: "p \<in> set (fold (group_step m) (relocations m) [])" "rel_section r = fst p" by blast
  define g where "g = snd p"
  have g: "g \<in> set (group_relocations m)" "grp_target g = rel_section r"
    using p groups by (auto simp: g_def group_relocations_def group_ok_def)
  then have "r \<in> set (grp_relocations g)" using groups_ok [OF assms(1)] assms(2) by simp
  with g show ?thesis by blast
qed

text \<open>
  C22: the writer gives up when a relocation of a section of the module refers to a symbol it does
  not have, an exception escapes when a symbol lies in a section it does not have, and otherwise an
  image is written.
\<close>

theorem write_relocatable_elf_result:
  assumes "module_wf m"
  shows "let bad = (\<exists>r\<in>set (relocations m). rel_section r < length (sections m) \<and> length (symbols m) \<le> rel_symbol r);
             lost = (\<exists>s\<in>set (symbols m). \<not> section_known (length (sections m)) s) in
     (case write_relocatable_elf m cfg of
        Inr None \<Rightarrow> bad
      | Inl OutOfRange \<Rightarrow> \<not> bad \<and> lost
      | Inr (Some img) \<Rightarrow> \<not> bad \<and> \<not> lost)"
proof -
  let ?bad = "\<exists>r\<in>set (relocations m). rel_section r < length (sections m) \<and> length (symbols m) \<le> rel_symbol r"
  let ?lost = "\<exists>s\<in>set (symbols m). \<not> section_known (length (sections m)) s"
  have heads: "fold add_section_header (sections m) ([default_header], empty_table, Map.empty) =
      (default_header # name_headers (map sec_name (sections m)) (map header_of_section (sections m)),
       table_of (map sec_name (sections m)), index_of (length (sections m)))"
    using add_section_headers [of "sections m" "[]" "[]"] assms(1)
    by (simp add: wf_sec_ids empty_table_of index_of_0 name_headers_def)
  have none: "encode_groups m (index_symbols 0 (ordered_symbols m) Map.empty) (group_relocations m) = None \<longleftrightarrow> ?bad"
    unfolding encode_groups_None elf_symidx_None [OF assms, unfolded elf_symidx_def]
  proof
    assume "\<exists>g\<in>set (group_relocations m). \<exists>r\<in>set (grp_relocations g). length (symbols m) \<le> rel_symbol r"
    then obtain g r where "g \<in> set (group_relocations m)" "r \<in> set (grp_relocations g)" "length (symbols m) \<le> rel_symbol r"
      by blast
    then show ?bad using groups_ok [OF assms, of g] by (intro bexI [of _ r]) auto
  qed (use groups_cover [OF assms] in blast)
  consider ?bad | "\<not> ?bad" ?lost | "\<not> ?bad" "\<not> ?lost" by blast
  then show ?thesis
  proof cases
    case 1
    then have "write_relocatable_elf m cfg = Inr None" using none by (simp add: write_relocatable_elf_def heads)
    with 1 show ?thesis by simp
  next
    case 2
    then obtain rela where "encode_groups m (index_symbols 0 (ordered_symbols m) Map.empty) (group_relocations m) = Some rela"
      using none by blast
    moreover have "encode_symbol_table (symbol_strings (ordered_symbols m)) (ordered_symbols m)
        (index_of (length (sections m))) = Inl OutOfRange"
      unfolding encode_symbol_table_def using 2 by (intro encode_symbols_throws) simp
    ultimately have "write_relocatable_elf m cfg = Inl OutOfRange"
      by (simp add: write_relocatable_elf_def heads)
    with 2 show ?thesis by (simp add: Let_def)
  next
    case 3
    then have "refs_known m" by (auto simp: refs_known_def not_le)
    then obtain img where "write_relocatable_elf m cfg = Inr (Some img)" using write_image [OF assms] by blast
    with 3 show ?thesis by (simp add: Let_def)
  qed
qed

theorem write_relocatable_elf_result_witness:
  "module_wf (fst (define_symbol empty_module ''f'' BindGlobal KindFunction 7 0 0)) \<and>
   write_relocatable_elf (fst (define_symbol empty_module ''f'' BindGlobal KindFunction 7 0 0))
     \<lparr>cfg_class = Elf64, cfg_encoding = LittleEndian, cfg_machine = 243, cfg_flags = 5\<rparr> = Inl OutOfRange"
proof -
  have wf: "module_wf (fst (define_symbol empty_module ''f'' BindGlobal KindFunction 7 0 0))"
    by (intro define_symbol_wf) (simp add: module_wf_def empty_module_def)
  have "symbols (fst (define_symbol empty_module ''f'' BindGlobal KindFunction 7 0 0)) =
      [\<lparr>sym_id = 0, sym_name = ''f'', sym_binding = BindGlobal, sym_kind = KindFunction, sym_section = Some 7,
        sym_value = 0, sym_size = 0\<rparr>]"
    "sections (fst (define_symbol empty_module ''f'' BindGlobal KindFunction 7 0 0)) = []"
    "relocations (fst (define_symbol empty_module ''f'' BindGlobal KindFunction 7 0 0)) = []"
    by (simp_all add: define_symbol_def find_symbol_named_def find_symbol_id_def empty_module_def)
  with wf write_relocatable_elf_result [OF wf, of "\<lparr>cfg_class = Elf64, cfg_encoding = LittleEndian, cfg_machine = 243, cfg_flags = 5\<rparr>"]
  show ?thesis by (simp add: section_known_def split: sum.splits option.splits elf_error.splits)
qed

end
