(* ===== verification/Rv64_Object.thy ===== *)
theory Rv64_Object
  imports Rv64_Line Elf_Image
begin

text \<open>
  Text objects for RV64 (\<open>backend/mir/riscv/codegen/object_emission.hpp\<close>, \<open>.cpp\<close>): encoded fragments with
  labels and fixups, and the object module built from the functions of a program. The reference to
  the text section is its position in the module; \<open>symbols_by_name\<close> is a map.
\<close>

section \<open>Fragments\<close>

datatype fixup_kind = CallPlt | PcrelHi20 | PcrelLo12I | Branch | Jal

datatype fixup_target_kind = TargetFunction | TargetObject | TargetNoType

record object_fixup =
  fx_offset :: u64
  fx_kind :: fixup_kind
  fx_target_kind :: fixup_target_kind
  fx_symbol_name :: string
  fx_addend :: u64

record frag_label =
  fl_offset :: u64
  fl_name :: string

record encoded_fragment =
  fr_bytes :: "u8 list"
  fr_labels :: "frag_label list"
  fr_fixups :: "object_fixup list"

record object_function =
  fn_name :: string
  fn_global :: bool
  fn_fragments :: "encoded_fragment list"

definition empty_fragment :: encoded_fragment where
  "empty_fragment = \<lparr>fr_bytes = [], fr_labels = [], fr_fixups = []\<rparr>"

text \<open>\<open>append_fragment\<close>; the source has a second copy of it, \<open>append_rv64_fragment\<close>.\<close>

definition append_fragment :: "encoded_fragment \<Rightarrow> encoded_fragment \<Rightarrow> encoded_fragment" where
  "append_fragment destination source =
     (let base_offset = of_nat (length (fr_bytes destination)) in
      \<lparr>fr_bytes = fr_bytes destination @ fr_bytes source,
       fr_labels = fr_labels destination @ map (\<lambda>l. l\<lparr>fl_offset := fl_offset l + base_offset\<rparr>) (fr_labels source),
       fr_fixups = fr_fixups destination @ map (\<lambda>x. x\<lparr>fx_offset := fx_offset x + base_offset\<rparr>) (fr_fixups source)\<rparr>)"

definition binding_for_function :: "object_function \<Rightarrow> symbol_binding" where
  "binding_for_function f = (if fn_global f then BindGlobal else BindLocal)"

fun symbol_kind_for_fixup_target :: "fixup_target_kind \<Rightarrow> symbol_kind" where
  "symbol_kind_for_fixup_target TargetFunction = KindFunction"
| "symbol_kind_for_fixup_target TargetObject = KindObject"
| "symbol_kind_for_fixup_target TargetNoType = KindNoType"

fun rv64_elf_relocation_type :: "fixup_kind \<Rightarrow> u32 option" where
  "rv64_elf_relocation_type CallPlt = Some 19"
| "rv64_elf_relocation_type PcrelHi20 = Some 23"
| "rv64_elf_relocation_type PcrelLo12I = Some 24"
| "rv64_elf_relocation_type Branch = Some 16"
| "rv64_elf_relocation_type Jal = Some 17"

definition rv64_relocatable_elf_config :: elf_config where
  "rv64_relocatable_elf_config = \<lparr>cfg_class = Elf64, cfg_encoding = LittleEndian, cfg_machine = 243, cfg_flags = 0x5\<rparr>"

definition make_rv64_direct_call_fragment :: "string \<Rightarrow> encoded_fragment" where
  "make_rv64_direct_call_fragment callee =
     \<lparr>fr_bytes = append_le32 (append_le32 [] (encode_u_type 0x17 1 0)) (encode_i_type 0x67 1 0 1 0),
      fr_labels = [],
      fr_fixups = [\<lparr>fx_offset = 0, fx_kind = CallPlt, fx_target_kind = TargetFunction, fx_symbol_name = callee, fx_addend = 0\<rparr>]\<rparr>"

definition make_rv64_pcrel_address_fragment ::
    "u32 \<Rightarrow> string \<Rightarrow> string \<Rightarrow> fixup_target_kind \<Rightarrow> u64 \<Rightarrow> encoded_fragment" where
  "make_rv64_pcrel_address_fragment destination symbol_name auipc_label target_kind addend =
     (let encoded_low_addend = (if - 2048 \<le> sint addend \<and> sint addend \<le> 2047 then ucast addend else 0) in
      \<lparr>fr_bytes = append_le32 (append_le32 [] (encode_u_type 0x17 destination 0))
         (encode_i_type 0x13 destination 0 destination encoded_low_addend),
       fr_labels = [\<lparr>fl_offset = 0, fl_name = auipc_label\<rparr>],
       fr_fixups =
         [\<lparr>fx_offset = 0, fx_kind = PcrelHi20, fx_target_kind = target_kind, fx_symbol_name = symbol_name, fx_addend = addend\<rparr>,
          \<lparr>fx_offset = 4, fx_kind = PcrelLo12I, fx_target_kind = TargetNoType, fx_symbol_name = auipc_label, fx_addend = 0\<rparr>]\<rparr>)"

section \<open>The text object\<close>

type_synonym text_state = "object_module \<times> (string \<rightharpoonup> nat)"

definition publish_rv64_text_fragment_label ::
    "nat \<Rightarrow> u64 \<Rightarrow> u64 \<Rightarrow> frag_label \<Rightarrow> text_state \<Rightarrow> text_state option" where
  "publish_rv64_text_fragment_label text_section section_offset size_bytes label st =
     (case st of (m, by_name) \<Rightarrow>
        if fl_name label = [] \<or> fl_offset label > size_bytes \<or> by_name (fl_name label) \<noteq> None then None
        else
          let label_offset = section_offset + fl_offset label;
              m = fst (bind_label m (fl_name label) text_section label_offset);
              (m, i) = define_symbol m (fl_name label) BindLocal KindNoType text_section label_offset 0 in
          Some (m, by_name(fl_name label \<mapsto> i)))"

definition attach_rv64_text_fixup ::
    "nat \<Rightarrow> u64 \<Rightarrow> u64 \<Rightarrow> object_fixup \<Rightarrow> text_state \<Rightarrow> text_state option" where
  "attach_rv64_text_fixup text_section section_offset size_bytes fixup st =
     (case st of (m, by_name) \<Rightarrow>
        case rv64_elf_relocation_type (fx_kind fixup) of
          None \<Rightarrow> None
        | Some reloc_type \<Rightarrow>
            if fx_symbol_name fixup = [] \<or> fx_offset fixup > size_bytes then None
            else
              let (m, by_name, target) =
                (case by_name (fx_symbol_name fixup) of
                   Some target \<Rightarrow> (m, by_name, target)
                 | None \<Rightarrow>
                     (let (m, i) = declare_undefined_symbol m (fx_symbol_name fixup) BindGlobal
                                     (symbol_kind_for_fixup_target (fx_target_kind fixup)) 0 in
                      (m, by_name(fx_symbol_name fixup \<mapsto> i), i))) in
              Some (attach_relocation m text_section (section_offset + fx_offset fixup) reloc_type target (fx_addend fixup), by_name))"

fun each_step :: "('a \<Rightarrow> 's \<Rightarrow> 's option) \<Rightarrow> 'a list \<Rightarrow> 's \<Rightarrow> 's option" where
  "each_step f [] s = Some s"
| "each_step f (x # xs) s = (case f x s of None \<Rightarrow> None | Some s \<Rightarrow> each_step f xs s)"

text \<open>Every fragment is appended to the text section and its labels are published; the offsets are kept.\<close>

fun lay_out_fragments :: "encoded_fragment list \<Rightarrow> text_state \<Rightarrow> (text_state \<times> (encoded_fragment \<times> u64) list) option" where
  "lay_out_fragments [] st = Some (st, [])"
| "lay_out_fragments (f # fs) (m, by_name) =
     (let (offset, text) = append_section_bytes (sections m ! 0) (fr_bytes f);
          m = put_section m 0 text in
      case each_step (publish_rv64_text_fragment_label 0 offset (of_nat (length (fr_bytes f)))) (fr_labels f) (m, by_name) of
        None \<Rightarrow> None
      | Some st \<Rightarrow>
          (case lay_out_fragments fs st of
             None \<Rightarrow> None
           | Some (st, laid_out) \<Rightarrow> Some (st, (f, offset) # laid_out)))"

definition attach_fragment_fixups :: "encoded_fragment \<times> u64 \<Rightarrow> text_state \<Rightarrow> text_state option" where
  "attach_fragment_fixups laid_out =
     each_step (attach_rv64_text_fixup 0 (snd laid_out) (of_nat (length (fr_bytes (fst laid_out))))) (fr_fixups (fst laid_out))"

definition emit_function :: "object_function \<Rightarrow> text_state \<Rightarrow> text_state option" where
  "emit_function f st =
     (let start_offset = sec_size (sections (fst st) ! 0) in
      case lay_out_fragments (fn_fragments f) st of
        None \<Rightarrow> None
      | Some ((m, by_name), laid_out) \<Rightarrow>
          (let (m, i) = define_symbol m (fn_name f) (binding_for_function f) KindFunction 0 start_offset
                          (sec_size (sections m ! 0) - start_offset) in
           each_step attach_fragment_fixups laid_out (m, by_name(fn_name f \<mapsto> i))))"

definition build_rv64_text_object_module :: "object_function list \<Rightarrow> object_module option" where
  "build_rv64_text_object_module fs =
     (let m = fst (create_section empty_module ''.text'' SectionText 4 True True False) in
      if (\<exists>f\<in>set fs. fn_name f = []) \<or> \<not> distinct (map fn_name fs) then None
      else map_option fst (each_step emit_function fs (m, Map.empty)))"

definition write_rv64_relocatable_elf_object :: "object_module \<Rightarrow> elf_error + u8 list option" where
  "write_rv64_relocatable_elf_object m = write_relocatable_elf m rv64_relocatable_elf_config"

end
