(* ===== verification/Assembler.thy ===== *)
theory Assembler
  imports Rv64_Roundtrip Rv64_Object
begin

text \<open>
  \<open>c4c-as\<close> (\<open>apps/c4c-as.cpp\<close>): the assembler program for one RV64 text function. The source file is a
  string, the errors are values that carry what the messages print.
\<close>

section \<open>Data\<close>

record as_label =
  al_line :: nat
  al_name :: string
  al_offset :: u64

record as_instruction =
  ai_line :: nat
  ai_offset :: u64
  ai_parsed :: asm_line

record parse_result =
  pr_globals :: "string list"
  pr_labels :: "as_label list"
  pr_instructions :: "as_instruction list"

datatype as_error =
    MalformedGlobl nat
  | MalformedLabel nat
  | LabelOutsideText nat
  | DuplicateLabel nat string
  | UnsupportedDirective nat string
  | InstructionOutsideText nat
  | UnsupportedLine nat string
  | UnsizedLine nat
  | MissingText
  | UndefinedTarget nat string
  | TargetOutOfRange nat string
  | UnencodedLine nat
  | NotOneGlobal
  | GlobalWithoutLabel string
  | GlobalNotFirst string
  | NoInstructions
  | ModuleNotBuilt
  | ImageNotWritten
  | ImageThrows

section \<open>Reading the source\<close>

text \<open>\<open>std::getline\<close> until the end of the file: a last line without line feed counts if it is not empty.\<close>

function file_lines :: "string \<Rightarrow> string list" where
  "file_lines s =
     (if s = [] then [] else takeWhile (\<lambda>c. c \<noteq> LF) s # file_lines (drop (Suc (length (takeWhile (\<lambda>c. c \<noteq> LF) s))) s))"
  by pat_completeness auto
termination by (relation "measure length") auto

declare file_lines.simps [simp del]

definition trim_space :: "string \<Rightarrow> string" where
  "trim_space s = rev (dropWhile isspace (rev (dropWhile isspace s)))"

definition strip_comment :: "string \<Rightarrow> string" where
  "strip_comment line = takeWhile (\<lambda>c. c \<noteq> CHR ''#'') line"

definition is_globl_directive :: "string \<Rightarrow> bool" where
  "is_globl_directive line \<longleftrightarrow> take 6 line = ''.globl'' \<and> length line > 6 \<and> isspace (line ! 6)"

record parse_state =
  ps_result :: parse_result
  ps_seen :: "string set"
  ps_in_text :: bool
  ps_offset :: u64

definition parse_start :: parse_state where
  "parse_start = \<lparr>ps_result = \<lparr>pr_globals = [], pr_labels = [], pr_instructions = []\<rparr>, ps_seen = {}, ps_in_text = False,
     ps_offset = 0\<rparr>"

text \<open>One line: a directive, a label or an instruction.\<close>

definition parse_globl :: "nat \<Rightarrow> string \<Rightarrow> parse_state \<Rightarrow> as_error + parse_state" where
  "parse_globl n line st =
     (let symbol = trim_space (drop 6 line) in
      if symbol = [] \<or> (\<exists>c\<in>set symbol. is_blank c) \<or> \<not> is_valid_symbol symbol then Inl (MalformedGlobl n)
      else Inr (st\<lparr>ps_result := (ps_result st)\<lparr>pr_globals := pr_globals (ps_result st) @ [symbol]\<rparr>\<rparr>))"

definition parse_label :: "nat \<Rightarrow> string \<Rightarrow> parse_state \<Rightarrow> as_error + parse_state" where
  "parse_label n line st =
     (let label = takeWhile (\<lambda>c. c \<noteq> CHR '':'') line in
      if length label + 1 \<noteq> length line \<or> \<not> is_valid_symbol label then Inl (MalformedLabel n)
      else if \<not> ps_in_text st then Inl (LabelOutsideText n)
      else if label \<in> ps_seen st then Inl (DuplicateLabel n label)
      else Inr (st\<lparr>ps_seen := insert label (ps_seen st),
        ps_result := (ps_result st)\<lparr>pr_labels := pr_labels (ps_result st) @
          [\<lparr>al_line = n, al_name = label, al_offset = ps_offset st\<rparr>]\<rparr>\<rparr>))"

definition parse_instruction :: "nat \<Rightarrow> string \<Rightarrow> parse_state \<Rightarrow> as_error + parse_state" where
  "parse_instruction n line st =
     (let parsed = parse_rv64_asm_line line in
      if line \<noteq> [] \<and> hd line = CHR ''.'' \<and> parsed = None then Inl (UnsupportedDirective n line)
      else if \<not> ps_in_text st then Inl (InstructionOutsideText n)
      else
        (case parsed of
           None \<Rightarrow> Inl (UnsupportedLine n line)
         | Some l \<Rightarrow>
             (case rv64_asm_line_size_bytes l of
                None \<Rightarrow> Inl (UnsizedLine n)
              | Some sz \<Rightarrow>
                  Inr (st\<lparr>ps_offset := ps_offset st + sz,
                    ps_result := (ps_result st)\<lparr>pr_instructions := pr_instructions (ps_result st) @
                      [\<lparr>ai_line = n, ai_offset = ps_offset st, ai_parsed = l\<rparr>]\<rparr>\<rparr>))))"

definition parse_line :: "nat \<Rightarrow> string \<Rightarrow> parse_state \<Rightarrow> as_error + parse_state" where
  "parse_line n raw_line st =
     (let line = trim_space (strip_comment raw_line) in
      if line = [] then Inr st
      else if line = ''.text'' then Inr (st\<lparr>ps_in_text := True\<rparr>)
      else if is_globl_directive line then parse_globl n line st
      else if CHR '':'' \<in> set line then parse_label n line st
      else parse_instruction n line st)"

fun parse_lines :: "nat \<Rightarrow> string list \<Rightarrow> parse_state \<Rightarrow> as_error + parse_state" where
  "parse_lines n [] st = Inr st"
| "parse_lines n (l # ls) st = (case parse_line n l st of Inl e \<Rightarrow> Inl e | Inr st \<Rightarrow> parse_lines (Suc n) ls st)"

definition parse_assembly_file :: "string \<Rightarrow> as_error + parse_result" where
  "parse_assembly_file content =
     (case parse_lines 1 (file_lines content) parse_start of
        Inl e \<Rightarrow> Inl e
      | Inr st \<Rightarrow> if \<not> ps_in_text st then Inl MissingText else Inr (ps_result st))"

section \<open>Resolving labels\<close>

definition labels_by_name :: "as_label list \<Rightarrow> string \<Rightarrow> u64 option" where
  "labels_by_name ls n = map_of (map (\<lambda>l. (al_name l, al_offset l)) ls) n"

definition resolve_instruction :: "as_label list \<Rightarrow> as_instruction \<Rightarrow> as_error + as_instruction" where
  "resolve_instruction ls i =
     (case line_target (ai_parsed i) of
        None \<Rightarrow> Inr i
      | Some target \<Rightarrow>
          (case labels_by_name ls target of
             None \<Rightarrow> Inl (UndefinedTarget (ai_line i) target)
           | Some off \<Rightarrow>
               let l = set_target (sint off - sint (ai_offset i)) (ai_parsed i) in
               if encode_rv64_asm_line l = None then Inl (TargetOutOfRange (ai_line i) target)
               else Inr (i\<lparr>ai_parsed := l\<rparr>)))"

fun map_error :: "('a \<Rightarrow> 'e + 'b) \<Rightarrow> 'a list \<Rightarrow> 'e + 'b list" where
  "map_error f [] = Inr []"
| "map_error f (x # xs) =
     (case f x of Inl e \<Rightarrow> Inl e | Inr y \<Rightarrow> (case map_error f xs of Inl e \<Rightarrow> Inl e | Inr ys \<Rightarrow> Inr (y # ys)))"

definition resolve_local_control_flow_labels :: "parse_result \<Rightarrow> as_error + parse_result" where
  "resolve_local_control_flow_labels p =
     (case map_error (resolve_instruction (pr_labels p)) (pr_instructions p) of
        Inl e \<Rightarrow> Inl e
      | Inr is \<Rightarrow> Inr (p\<lparr>pr_instructions := is\<rparr>))"

definition encode_instruction :: "as_instruction \<Rightarrow> as_error + u8 list" where
  "encode_instruction i =
     (case encode_rv64_asm_line (ai_parsed i) of None \<Rightarrow> Inl (UnencodedLine (ai_line i)) | Some bs \<Rightarrow> Inr bs)"

definition assemble_text_bytes :: "parse_result \<Rightarrow> as_error + u8 list" where
  "assemble_text_bytes p =
     (case map_error encode_instruction (pr_instructions p) of Inl e \<Rightarrow> Inl e | Inr bss \<Rightarrow> Inr (concat bss))"

section \<open>The object\<close>

definition build_object_function :: "parse_result \<Rightarrow> u8 list \<Rightarrow> as_error + object_function" where
  "build_object_function p text_bytes =
     (if length (pr_globals p) \<noteq> 1 then Inl NotOneGlobal
      else
        let global = hd (pr_globals p) in
        case find (\<lambda>l. al_name l = global) (pr_labels p) of
          None \<Rightarrow> Inl (GlobalWithoutLabel global)
        | Some label \<Rightarrow>
            if al_offset label \<noteq> 0 then Inl (GlobalNotFirst global)
            else if text_bytes = [] then Inl NoInstructions
            else Inr \<lparr>fn_name = global, fn_global = True,
              fn_fragments = [\<lparr>fr_bytes = text_bytes,
                fr_labels = map (\<lambda>l. \<lparr>fl_offset = al_offset l, fl_name = al_name l\<rparr>)
                  (filter (\<lambda>l. al_name l \<noteq> global) (pr_labels p)),
                fr_fixups = []\<rparr>]\<rparr>)"

definition object_image :: "parse_result \<Rightarrow> u8 list \<Rightarrow> as_error + u8 list" where
  "object_image p text_bytes =
     (case build_object_function p text_bytes of
        Inl e \<Rightarrow> Inl e
      | Inr f \<Rightarrow>
          (case build_rv64_text_object_module [f] of
             None \<Rightarrow> Inl ModuleNotBuilt
           | Some m \<Rightarrow>
               (case write_rv64_relocatable_elf_object m of
                  Inl _ \<Rightarrow> Inl ImageThrows
                | Inr None \<Rightarrow> Inl ImageNotWritten
                | Inr (Some img) \<Rightarrow> Inr img)))"

text \<open>From the source text to the resolved instructions, their bytes and the image.\<close>

definition assemble_source :: "string \<Rightarrow> as_error + (parse_result \<times> u8 list \<times> u8 list)" where
  "assemble_source content =
     (case parse_assembly_file content of
        Inl e \<Rightarrow> Inl e
      | Inr parsed \<Rightarrow>
          (case resolve_local_control_flow_labels parsed of
             Inl e \<Rightarrow> Inl e
           | Inr resolved \<Rightarrow>
               (case assemble_text_bytes resolved of
                  Inl e \<Rightarrow> Inl e
                | Inr bytes \<Rightarrow>
                    (case object_image resolved bytes of Inl e \<Rightarrow> Inl e | Inr img \<Rightarrow> Inr (resolved, bytes, img)))))"

definition as_help :: string where
  "as_help = ''Usage:'' @ [LF] @ ''  c4c-as [options] <input.s>'' @ [LF, LF] @
     ''Options:'' @ [LF] @
     ''  -h, --help       Show this help message'' @ [LF] @
     ''  --version        Print version information'' @ [LF] @
     ''  -o <path>        Output object path'' @ [LF, LF] @
     ''Status:'' @ [LF] @
     ''  assembles the initial RV64 .text instruction subset into a relocatable'' @ [LF] @
     ''  RV64 ELF object'' @ [LF]"

definition as_main :: "(string \<Rightarrow> string option) \<Rightarrow> (string \<Rightarrow> bool) \<Rightarrow> string list \<Rightarrow> u8 list tool_run" where
  "as_main open_file can_write args =
     (if args = [] then stopped 0 as_help
      else
        (case early_output as_help (''c4c-as 0.1'' @ [LF]) args of
           Some out \<Rightarrow> stopped 0 out
         | None \<Rightarrow>
        (case parse_cli args of
           None \<Rightarrow> stopped 1 []
         | Some opts \<Rightarrow>
             (case open_file (cli_input opts) of
                None \<Rightarrow> stopped 1 []
              | Some content \<Rightarrow>
                  (case assemble_source content of
                     Inl e \<Rightarrow> stopped 1 []
                   | Inr (resolved, bytes, img) \<Rightarrow>
                       if \<not> can_write (cli_output opts) then stopped 1 []
                       else \<lparr>run_status = 0,
                         run_stdout = ''c4c-as: assembled '' @ show_nat (length (pr_instructions resolved)) @
                           '' instruction line(s) from '' @ cli_input opts @ '' into '' @ show_nat (length bytes) @
                           '' text byte(s): '' @ hex_bytes bytes @ ''; wrote RV64 relocatable object '' @ cli_output opts @ [LF],
                         run_written = Some (cli_output opts, img)\<rparr>)))))"

end
