(* ===== verification/Rv64_Object_Correct.thy ===== *)
theory Rv64_Object_Correct
  imports Rv64_Object
begin

text \<open>
  What \<open>build_rv64_text_object_module\<close> builds: the text section is the functions' code in order, every
  function has its symbol, every fixup its relocation, and the module can always be written.
\<close>

section \<open>The state of the builder\<close>

text \<open>\<open>symbols_by_name\<close> is the symbol table; the only section is the text, and no reference dangles.\<close>

definition text_ok :: "text_state \<Rightarrow> bool" where
  "text_ok st \<longleftrightarrow> (case st of (m, by_name) \<Rightarrow>
     module_wf m \<and> length (sections m) = 1 \<and> by_name = (\<lambda>n. map_option sym_id (find_symbol_named m n)) \<and>
     (\<forall>n s. find_symbol_named m n = Some s \<longrightarrow> section_known 1 s) \<and>
     (\<forall>r\<in>set (relocations m). rel_symbol r < length (symbols m)))"

text \<open>A later state: symbols keep their ids and names, and those outside a set of names their records.\<close>

definition keeps :: "string set \<Rightarrow> text_state \<Rightarrow> text_state \<Rightarrow> bool" where
  "keeps X st st' \<longleftrightarrow> (case st of (m, by_name) \<Rightarrow> case st' of (m', by_name') \<Rightarrow>
     text_ok st' \<and> (\<exists>ns. map sym_name (symbols m') = map sym_name (symbols m) @ ns) \<and>
     (\<forall>n. by_name n \<noteq> None \<longrightarrow> by_name' n \<noteq> None \<and> (n \<notin> X \<longrightarrow> find_symbol_named m' n = find_symbol_named m n)))"

lemma keeps_refl: "text_ok st \<Longrightarrow> keeps X st st"
  by (cases st) (simp add: keeps_def)

lemma keeps_trans: "keeps X a b \<Longrightarrow> keeps Y b c \<Longrightarrow> keeps (X \<union> Y) a c"
  by (cases a; cases b; cases c) (force simp: keeps_def)

lemma keeps_step: "keeps X a b \<Longrightarrow> keeps X b c \<Longrightarrow> keeps X a c"
  using keeps_trans [of X a b X c] by simp

lemma keeps_ok: "keeps X a b \<Longrightarrow> text_ok b"
  by (cases a; cases b) (simp add: keeps_def)

definition reloc_view :: "object_module \<Rightarrow> relocation_record \<Rightarrow> u64 \<times> u32 \<times> string \<times> u64" where
  "reloc_view m r = (rel_offset r, rel_type r, sym_name (symbols m ! rel_symbol r), rel_addend r)"

lemma keeps_views:
  assumes "text_ok (m, b)" "keeps X (m, b) (m', b')"
  shows "map (reloc_view m') (relocations m) = map (reloc_view m) (relocations m)"
proof -
  obtain ns where ns: "map sym_name (symbols m') = map sym_name (symbols m) @ ns" using assms(2) by (auto simp: keeps_def)
  have "sym_name (symbols m' ! i) = sym_name (symbols m ! i)" if "i < length (symbols m)" for i
  proof -
    have "length (symbols m) \<le> length (symbols m')" using arg_cong [OF ns, of length] by simp
    then show ?thesis using that arg_cong [OF ns, of "\<lambda>l. l ! i"] by (simp add: nth_append)
  qed
  then show ?thesis using assms(1) by (simp add: reloc_view_def text_ok_def)
qed

text \<open>Entering a symbol through \<open>symbols_by_name\<close>.\<close>

lemma text_ok_enter:
  assumes ok: "text_ok (m, b)"
    and m': "sections m' = sections m" "relocations m' = relocations m" "module_wf m'"
      "find_symbol_named m' = (find_symbol_named m)(n \<mapsto> e)" "sym_id e = entered_id m n" "section_known 1 e"
      "map sym_name (symbols m') = map sym_name (symbols m) @ (if find_symbol_named m n = None then [n] else [])"
  shows "keeps {n} (m, b) (m', b(n \<mapsto> entered_id m n))"
    and "b n = None \<Longrightarrow> keeps {} (m, b) (m', b(n \<mapsto> entered_id m n))"
proof -
  have "length (symbols m) \<le> length (symbols m')" using arg_cong [OF m'(7), of length] by simp
  then have ok': "text_ok (m', b(n \<mapsto> entered_id m n))"
    using ok m' by (auto simp: text_ok_def fun_eq_iff split: if_splits dest!: bspec)
  then show "keeps {n} (m, b) (m', b(n \<mapsto> entered_id m n))"
    using m' by (auto simp: keeps_def)
  show "keeps {} (m, b) (m', b(n \<mapsto> entered_id m n))" if "b n = None"
    using ok' m' that by (auto simp: keeps_def)
qed

section \<open>Labels and fixups\<close>

lemma same_symbols: "symbols m' = symbols m \<Longrightarrow> find_symbol_named m' = find_symbol_named m \<and> entered_id m' = entered_id m"
  by (auto simp: fun_eq_iff find_symbol_named_def find_symbol_id_def find_symbol_def entered_id_def split: option.split)

lemma publish_ok:
  assumes ok: "text_ok (m, b)" and "publish_rv64_text_fragment_label 0 off sz l (m, b) = Some (m', b')"
  shows "keeps {} (m, b) (m', b') \<and> sections m' = sections m \<and> relocations m' = relocations m"
proof -
  let ?m = "fst (bind_label m (fl_name l) 0 (off + fl_offset l))"
  have free: "b (fl_name l) = None" using assms(2) by (auto simp: publish_rv64_text_fragment_label_def split: if_splits)
  have bind: "sections ?m = sections m" "symbols ?m = symbols m" "relocations ?m = relocations m"
    by (simp_all add: bind_label_def Let_def)
  have named: "find_symbol_named ?m = find_symbol_named m" "entered_id ?m = entered_id m"
    using same_symbols [OF bind(2)] by simp_all
  have wf: "module_wf ?m" using ok by (simp add: text_ok_def bind_label_wf)
  have ok1: "text_ok (?m, b)" using ok wf by (simp add: text_ok_def bind named)
  obtain m1 where m1: "define_symbol ?m (fl_name l) BindLocal KindNoType 0 (off + fl_offset l) 0 = (m1, entered_id ?m (fl_name l))"
    "sections m1 = sections m" "relocations m1 = relocations m"
    "keeps {} (?m, b) (m1, b(fl_name l \<mapsto> entered_id ?m (fl_name l)))"
    using define_symbol_entered [OF wf, of "fl_name l" BindLocal KindNoType 0 "off + fl_offset l" 0]
      text_ok_enter(2) [OF ok1 _ _ _ _ _ _ _ free] bind(1,3) by (fastforce simp: section_known_def)
  then have "(m', b') = (m1, b(fl_name l \<mapsto> entered_id ?m (fl_name l)))"
    using assms(2) by (auto simp: publish_rv64_text_fragment_label_def split: if_splits)
  with m1 show ?thesis by (simp add: keeps_def bind named)
qed

definition fixup_view :: "u64 \<Rightarrow> object_fixup \<Rightarrow> u64 \<times> u32 \<times> string \<times> u64" where
  "fixup_view off x = (off + fx_offset x, the (rv64_elf_relocation_type (fx_kind x)), fx_symbol_name x, fx_addend x)"

lemma attach_ok:
  assumes ok: "text_ok (m, b)" and "attach_rv64_text_fixup 0 off sz x (m, b) = Some (m', b')"
  shows "keeps {} (m, b) (m', b') \<and> sections m' = sections m \<and>
    map (reloc_view m') (relocations m') = map (reloc_view m) (relocations m) @ [fixup_view off x]"
proof -
  have wf: "module_wf m" using ok by (simp add: text_ok_def)
  obtain ty where ty: "rv64_elf_relocation_type (fx_kind x) = Some ty" by (cases "fx_kind x") simp_all
  obtain m1 b1 target where step: "keeps {} (m, b) (m1, b1)" "sections m1 = sections m" "relocations m1 = relocations m"
      "b1 (fx_symbol_name x) = Some target"
      "m' = attach_relocation m1 0 (off + fx_offset x) ty target (fx_addend x)" "b' = b1"
  proof (cases "b (fx_symbol_name x)")
    case (Some target)
    with assms(2) show thesis
      by (intro that [of m b target]) (auto simp: keeps_refl [OF ok] attach_rv64_text_fixup_def ty Let_def split: if_splits)
  next
    case None
    let ?n = "fx_symbol_name x"
    obtain m1 where m1: "declare_undefined_symbol m ?n BindGlobal (symbol_kind_for_fixup_target (fx_target_kind x)) 0 = (m1, entered_id m ?n)"
      "sections m1 = sections m" "relocations m1 = relocations m" "keeps {} (m, b) (m1, b(?n \<mapsto> entered_id m ?n))"
      using declare_undefined_symbol_entered [OF wf, of ?n BindGlobal "symbol_kind_for_fixup_target (fx_target_kind x)" 0]
        text_ok_enter(2) [OF ok _ _ _ _ _ _ _ None] by (fastforce simp: section_known_def)
    with assms(2) None show thesis
      by (intro that [of m1 "b(?n \<mapsto> entered_id m ?n)" "entered_id m ?n"]) (auto simp: attach_rv64_text_fixup_def ty Let_def split: if_splits)
  qed
  have ok1: "text_ok (m1, b1)" using step(1) by (rule keeps_ok)
  obtain e where e: "find_symbol_named m1 (fx_symbol_name x) = Some e" "sym_id e = target"
    using ok1 step(4) by (auto simp: text_ok_def)
  then have target: "target < length (symbols m1)" "sym_name (symbols m1 ! target) = fx_symbol_name x"
    using ok1 sym_table.named_Some [of m1 "fx_symbol_name x" e] by (auto simp: text_ok_def module_wf_def)
  have m': "symbols m' = symbols m1" "sections m' = sections m1" "relocations m' = relocations m1 @
      [\<lparr>rel_section = 0, rel_offset = off + fx_offset x, rel_type = ty, rel_symbol = target, rel_addend = fx_addend x,
        rel_base = BaseSymbol, rel_label = None\<rparr>]" "module_wf m'"
    using ok1 by (simp_all add: step(5) attach_relocation_def text_ok_def module_wf_def)
  have "text_ok (m', b')" using ok1 m' target(1) same_symbols [OF m'(1)] step(6) by (simp add: text_ok_def)
  then have "keeps {} (m, b) (m', b')" using step(1,6) m'(1) same_symbols [OF m'(1)] by (simp add: keeps_def)
  moreover have "map (reloc_view m') (relocations m) = map (reloc_view m) (relocations m)"
    by (rule keeps_views [OF ok \<open>keeps {} (m, b) (m', b')\<close>])
  ultimately show ?thesis
    using m' step(2,3) target(2) by (simp add: reloc_view_def fixup_view_def ty)
qed

text \<open>Both run over lists.\<close>

lemma publish_all_ok:
  "text_ok (m, b) \<Longrightarrow> each_step (publish_rv64_text_fragment_label 0 off sz) ls (m, b) = Some (m', b') \<Longrightarrow>
     keeps {} (m, b) (m', b') \<and> sections m' = sections m \<and> relocations m' = relocations m"
proof (induction ls arbitrary: m b)
  case (Cons l ls)
  then obtain m1 b1 where 1: "publish_rv64_text_fragment_label 0 off sz l (m, b) = Some (m1, b1)"
    "each_step (publish_rv64_text_fragment_label 0 off sz) ls (m1, b1) = Some (m', b')" by (auto split: option.splits)
  note p = publish_ok [OF Cons.prems(1) 1(1)]
  from p Cons.IH [OF _ 1(2)] show ?case using keeps_ok keeps_step by metis
qed (simp add: keeps_refl)

lemma attach_all_ok:
  "text_ok (m, b) \<Longrightarrow> each_step (attach_rv64_text_fixup 0 off sz) xs (m, b) = Some (m', b') \<Longrightarrow>
     keeps {} (m, b) (m', b') \<and> sections m' = sections m \<and>
     map (reloc_view m') (relocations m') = map (reloc_view m) (relocations m) @ map (fixup_view off) xs"
proof (induction xs arbitrary: m b)
  case (Cons x xs)
  then obtain m1 b1 where 1: "attach_rv64_text_fixup 0 off sz x (m, b) = Some (m1, b1)"
    "each_step (attach_rv64_text_fixup 0 off sz) xs (m1, b1) = Some (m', b')" by (auto split: option.splits)
  note a = attach_ok [OF Cons.prems(1) 1(1)]
  have ok1: "text_ok (m1, b1)" using a keeps_ok by blast
  from a Cons.IH [OF ok1 1(2)] keeps_step show ?case by fastforce
qed (simp add: keeps_refl)

section \<open>Functions\<close>

text \<open>Things of known sizes, one behind the other.\<close>

fun place :: "('a \<Rightarrow> nat) \<Rightarrow> u64 \<Rightarrow> 'a list \<Rightarrow> ('a \<times> u64) list" where
  "place sz off [] = []"
| "place sz off (x # xs) = (x, off) # place sz (off + of_nat (sz x)) xs"

definition fragment_size :: "encoded_fragment \<Rightarrow> nat" where
  "fragment_size f = length (fr_bytes f)"

definition function_bytes :: "object_function \<Rightarrow> u8 list" where
  "function_bytes f = concat (map fr_bytes (fn_fragments f))"

definition fragment_fixups :: "encoded_fragment \<times> u64 \<Rightarrow> (u64 \<times> u32 \<times> string \<times> u64) list" where
  "fragment_fixups p = map (fixup_view (snd p)) (fr_fixups (fst p))"

definition function_fixups :: "object_function \<times> u64 \<Rightarrow> (u64 \<times> u32 \<times> string \<times> u64) list" where
  "function_fixups p = concat (map fragment_fixups (place fragment_size (snd p) (fn_fragments (fst p))))"

text \<open>The text section with code added.\<close>

definition add_text :: "section_record \<Rightarrow> u8 list \<Rightarrow> section_record" where
  "add_text t bs = t\<lparr>sec_bytes := sec_bytes t @ bs, sec_size := sec_size t + of_nat (length bs)\<rparr>"

lemma add_text_simps [simp]:
  "add_text t [] = t" "add_text (add_text t a) b = add_text t (a @ b)" "sec_size (add_text t a) = sec_size t + of_nat (length a)"
  "sec_bytes (add_text t a) = sec_bytes t @ a"
  by (simp_all add: add_text_def)

lemma one_section: "length (sections m) = 1 \<Longrightarrow> sections m = [sections m ! 0]"
  by (cases "sections m") auto

lemma lay_out_ok:
  "text_ok (m, b) \<Longrightarrow> lay_out_fragments fs (m, b) = Some ((m', b'), laid_out) \<Longrightarrow>
     keeps {} (m, b) (m', b') \<and> sections m' = [add_text (sections m ! 0) (concat (map fr_bytes fs))] \<and>
     relocations m' = relocations m \<and> laid_out = place fragment_size (sec_size (sections m ! 0)) fs"
proof (induction fs arbitrary: m b laid_out)
  case Nil
  then have "sections m = [sections m ! 0]" by (intro one_section) (simp add: text_ok_def)
  with Nil show ?case using keeps_refl [of "(m, b)" "{}"] by auto
next
  case (Cons f fs)
  define t where "t = sections m ! 0"
  define m0 where "m0 = put_section m 0 (add_text t (fr_bytes f))"
  have m0: "sections m0 = [add_text t (fr_bytes f)]" "symbols m0 = symbols m" "relocations m0 = relocations m"
    using Cons.prems(1) one_section [of m] by (simp_all add: m0_def put_section_def text_ok_def) (metis list_update_code(2))
  have wf: "module_wf m0" unfolding m0_def using Cons.prems(1) module_wf_sections [of m 0]
    by (intro put_section_wf) (simp_all add: text_ok_def add_text_def t_def)
  have ok0: "text_ok (m0, b)" using Cons.prems(1) wf same_symbols [OF m0(2)] m0 by (simp add: text_ok_def)
  have keep0: "keeps {} (m, b) (m0, b)" using ok0 same_symbols [OF m0(2)] m0(2) by (simp add: keeps_def)
  obtain m1 b1 rest where 1: "each_step (publish_rv64_text_fragment_label 0 (sec_size t) (of_nat (length (fr_bytes f)))) (fr_labels f) (m0, b) = Some (m1, b1)"
    "lay_out_fragments fs (m1, b1) = Some ((m', b'), rest)" "laid_out = (f, sec_size t) # rest"
    using Cons.prems(2) by (auto simp: append_section_bytes_def add_text_def m0_def t_def Let_def split: option.splits)
  note p = publish_all_ok [OF ok0 1(1)]
  have ok1: "text_ok (m1, b1)" using p keeps_ok by blast
  note q = Cons.IH [OF ok1 1(2)]
  have "keeps {} (m, b) (m', b')" using keep0 p q keeps_step by blast
  with p q m0 1(3) show ?case by (simp add: t_def [symmetric] fragment_size_def)
qed

lemma attach_laid_out_ok:
  "text_ok (m, b) \<Longrightarrow> each_step attach_fragment_fixups ps (m, b) = Some (m', b') \<Longrightarrow>
     keeps {} (m, b) (m', b') \<and> sections m' = sections m \<and>
     map (reloc_view m') (relocations m') = map (reloc_view m) (relocations m) @ concat (map fragment_fixups ps)"
proof (induction ps arbitrary: m b)
  case (Cons p ps)
  then obtain m1 b1 where 1: "attach_fragment_fixups p (m, b) = Some (m1, b1)"
    "each_step attach_fragment_fixups ps (m1, b1) = Some (m', b')" by (auto split: option.splits)
  note a = attach_all_ok [OF Cons.prems(1) 1(1) [unfolded attach_fragment_fixups_def]]
  have ok1: "text_ok (m1, b1)" using a keeps_ok by blast
  from a Cons.IH [OF ok1 1(2)] keeps_step show ?case by (fastforce simp: fragment_fixups_def)
qed (simp add: keeps_refl)

lemma emit_function_ok:
  assumes ok: "text_ok (m, b)" and "emit_function f (m, b) = Some (m', b')"
  shows "keeps {fn_name f} (m, b) (m', b')" "sections m' = [add_text (sections m ! 0) (function_bytes f)]"
    "map (reloc_view m') (relocations m') = map (reloc_view m) (relocations m) @ function_fixups (f, sec_size (sections m ! 0))"
    "\<exists>i. find_symbol_named m' (fn_name f) = Some \<lparr>sym_id = i, sym_name = fn_name f, sym_binding = binding_for_function f,
       sym_kind = KindFunction, sym_section = Some 0, sym_value = sec_size (sections m ! 0),
       sym_size = of_nat (length (function_bytes f))\<rparr>"
    "b' (fn_name f) \<noteq> None"
proof -
  define t where "t = sections m ! 0"
  let ?n = "fn_name f"
  obtain m1 b1 laid_out where 1: "lay_out_fragments (fn_fragments f) (m, b) = Some ((m1, b1), laid_out)"
    using assms(2) by (auto simp: emit_function_def Let_def split: option.splits)
  note l = lay_out_ok [OF ok 1, folded function_bytes_def t_def]
  have ok1: "text_ok (m1, b1)" using l keeps_ok by blast
  have wf1: "module_wf m1" using ok1 by (simp add: text_ok_def)
  have sz: "sec_size (sections m1 ! 0) - sec_size t = of_nat (length (function_bytes f))" using l by simp
  let ?e = "\<lparr>sym_id = entered_id m1 ?n, sym_name = ?n, sym_binding = binding_for_function f, sym_kind = KindFunction,
    sym_section = Some 0, sym_value = sec_size t, sym_size = of_nat (length (function_bytes f))\<rparr>"
  obtain m2 where m2: "define_symbol m1 ?n (binding_for_function f) KindFunction 0 (sec_size t) (of_nat (length (function_bytes f))) = (m2, entered_id m1 ?n)"
    "sections m2 = sections m1" "relocations m2 = relocations m1" "find_symbol_named m2 = (find_symbol_named m1)(?n \<mapsto> ?e)"
    "keeps {?n} (m1, b1) (m2, b1(?n \<mapsto> entered_id m1 ?n))"
    using define_symbol_entered [OF wf1, of ?n "binding_for_function f" KindFunction 0 "sec_size t" "of_nat (length (function_bytes f))"]
      text_ok_enter(1) [OF ok1] by (fastforce simp: section_known_def)
  have 3: "each_step attach_fragment_fixups laid_out (m2, b1(?n \<mapsto> entered_id m1 ?n)) = Some (m', b')"
    using assms(2) 1 m2(1) sz by (simp add: emit_function_def t_def)
  have ok2: "text_ok (m2, b1(?n \<mapsto> entered_id m1 ?n))" using m2(5) by (rule keeps_ok)
  note a = attach_laid_out_ok [OF ok2 3]
  have all: "keeps {?n} (m, b) (m2, b1(?n \<mapsto> entered_id m1 ?n))" using l m2(5) keeps_trans [of "{}" "(m, b)"] by fastforce
  then show keep: "keeps {?n} (m, b) (m', b')" using a keeps_trans [of "{?n}" "(m, b)" _ "{}"] by fastforce
  show "sections m' = [add_text (sections m ! 0) (function_bytes f)]" using a m2(2) l by (simp add: t_def)
  show "map (reloc_view m') (relocations m') = map (reloc_view m) (relocations m) @ function_fixups (f, sec_size (sections m ! 0))"
    using a l m2(3) keeps_views [OF ok all] by (simp add: function_fixups_def t_def)
  have "find_symbol_named m' ?n = Some ?e \<and> b' ?n \<noteq> None" using a m2(4) by (auto simp: keeps_def)
  then show "b' ?n \<noteq> None" "\<exists>i. find_symbol_named m' (fn_name f) = Some \<lparr>sym_id = i, sym_name = fn_name f, sym_binding = binding_for_function f,
       sym_kind = KindFunction, sym_section = Some 0, sym_value = sec_size (sections m ! 0),
       sym_size = of_nat (length (function_bytes f))\<rparr>" by (auto simp: t_def)
qed

definition function_symbol :: "object_module \<Rightarrow> object_function \<times> u64 \<Rightarrow> bool" where
  "function_symbol m p \<longleftrightarrow> (case p of (f, off) \<Rightarrow>
     \<exists>i. find_symbol_named m (fn_name f) = Some \<lparr>sym_id = i, sym_name = fn_name f, sym_binding = binding_for_function f,
       sym_kind = KindFunction, sym_section = Some 0, sym_value = off, sym_size = of_nat (length (function_bytes f))\<rparr>)"

lemma emit_functions_ok:
  "text_ok (m, b) \<Longrightarrow> distinct (map fn_name fs) \<Longrightarrow> each_step emit_function fs (m, b) = Some (m', b') \<Longrightarrow>
     keeps (fn_name ` set fs) (m, b) (m', b') \<and> sections m' = [add_text (sections m ! 0) (concat (map function_bytes fs))] \<and>
     map (reloc_view m') (relocations m') = map (reloc_view m) (relocations m) @
       concat (map function_fixups (place (length \<circ> function_bytes) (sec_size (sections m ! 0)) fs)) \<and>
     list_all (function_symbol m') (place (length \<circ> function_bytes) (sec_size (sections m ! 0)) fs)"
proof (induction fs arbitrary: m b)
  case Nil
  then have "sections m = [sections m ! 0]" by (intro one_section) (simp add: text_ok_def)
  with Nil show ?case using keeps_refl [of "(m, b)" "{}"] by auto
next
  case (Cons f fs)
  then obtain m1 b1 where 1: "emit_function f (m, b) = Some (m1, b1)" "each_step emit_function fs (m1, b1) = Some (m', b')"
    by (auto split: option.splits)
  note e = emit_function_ok [OF Cons.prems(1) 1(1)]
  have ok1: "text_ok (m1, b1)" using e(1) by (rule keeps_ok)
  have dist: "distinct (map fn_name fs)" "fn_name f \<notin> fn_name ` set fs" using Cons.prems(2) by simp_all
  note ih = Cons.IH [OF ok1 dist(1) 1(2)]
  have "function_symbol m' (f, sec_size (sections m ! 0))"
    using ih dist(2) e(4,5) by (auto simp: keeps_def function_symbol_def)
  moreover have "keeps (fn_name ` set (f # fs)) (m, b) (m', b')"
    using keeps_trans [OF e(1) conjunct1 [OF ih]] by simp
  ultimately show ?case using ih e(2,3) by simp
qed

lemma build_text:
  assumes "build_rv64_text_object_module fs = Some m"
  shows "\<exists>b. text_ok (m, b) \<and> distinct (map fn_name fs) \<and>
    sections m = [\<lparr>sec_id = 0, sec_name = ''.text'', sec_kind = SectionText, sec_bytes = concat (map function_bytes fs),
      sec_size = of_nat (length (concat (map function_bytes fs))), sec_align = 4, sec_alloc = True, sec_executable = True,
      sec_writable = False\<rparr>] \<and>
    map (reloc_view m) (relocations m) = concat (map function_fixups (place (length \<circ> function_bytes) 0 fs)) \<and>
    list_all (function_symbol m) (place (length \<circ> function_bytes) 0 fs)"
proof -
  define m0 where "m0 = fst (create_section empty_module ''.text'' SectionText 4 True True False)"
  have m0: "sections m0 = [\<lparr>sec_id = 0, sec_name = ''.text'', sec_kind = SectionText, sec_bytes = [], sec_size = 0, sec_align = 4,
      sec_alloc = True, sec_executable = True, sec_writable = False\<rparr>]" "symbols m0 = []" "relocations m0 = []" "labels m0 = []"
    by (simp_all add: m0_def create_section_def empty_module_def max_def)
  have ok: "text_ok (m0, Map.empty)"
    using m0 by (simp add: text_ok_def module_wf_def ids_ok_def find_symbol_named_def find_symbol_id_def)
  obtain b where b: "each_step emit_function fs (m0, Map.empty) = Some (m, b)" "distinct (map fn_name fs)"
    using assms by (auto simp: build_rv64_text_object_module_def m0_def [symmetric] split: if_splits)
  note e = emit_functions_ok [OF ok b(2) b(1)]
  have "text_ok (m, b)" using e keeps_ok by blast
  with e b(2) show ?thesis by (intro exI [of _ b]) (simp add: m0 add_text_def)
qed

section \<open>The module built\<close>

text \<open>
  C14: when a module is built its only section is the text, the functions' code in order; every
  function has a symbol at the start of its code with the length of its code; and the relocations
  are the fixups of the fragments in order, at the place of the fragment, against the symbol they name.
\<close>

theorem text_object_layout:
  assumes "build_rv64_text_object_module fs = Some m"
  shows "map sec_bytes (sections m) = [concat (map function_bytes fs)] \<and>
    list_all (function_symbol m) (place (length \<circ> function_bytes) 0 fs) \<and>
    map (reloc_view m) (relocations m) = concat (map function_fixups (place (length \<circ> function_bytes) 0 fs))"
  using build_text [OF assms] by auto

text \<open>A caller that comes before its callee: the relocation refers to the callee's symbol.\<close>

theorem text_object_layout_witness:
  "let f = \<lparr>fn_name = ''main'', fn_global = True, fn_fragments = [make_rv64_direct_call_fragment ''g'']\<rparr>;
       g = \<lparr>fn_name = ''g'', fn_global = False, fn_fragments = [\<lparr>fr_bytes = [0x67, 0x80, 0, 0], fr_labels = [], fr_fixups = []\<rparr>]\<rparr> in
   \<exists>m. build_rv64_text_object_module [f, g] = Some m \<and> map sec_bytes (sections m) = [function_bytes f @ function_bytes g] \<and>
     map (reloc_view m) (relocations m) = [(0, 19, ''g'', 0)]"
proof -
  define f where "f = \<lparr>fn_name = ''main'', fn_global = True, fn_fragments = [make_rv64_direct_call_fragment ''g'']\<rparr>"
  define g where "g = \<lparr>fn_name = ''g'', fn_global = False,
    fn_fragments = [\<lparr>fr_bytes = [0x67, 0x80, 0, 0], fr_labels = [], fr_fixups = []\<rparr>]\<rparr>"
  have "build_rv64_text_object_module [f, g] \<noteq> None" unfolding f_def g_def by code_simp
  then obtain m where m: "build_rv64_text_object_module [f, g] = Some m" by blast
  have "concat (map function_fixups (place (length \<circ> function_bytes) 0 [f, g])) = [(0, 19, ''g'', 0)]"
    by (simp add: function_fixups_def fragment_fixups_def fixup_view_def make_rv64_direct_call_fragment_def f_def g_def)
  then show ?thesis
    using text_object_layout [OF m] m unfolding Let_def by (fold f_def g_def) auto
qed

lemma text_ok_refs:
  assumes "text_ok (m, b)"
  shows "refs_known m"
proof -
  have "section_known 1 s" if "s \<in> set (symbols m)" for s
    using that assms sym_table.named_self [of m s] by (simp add: text_ok_def module_wf_def)
  then show ?thesis using assms by (simp add: refs_known_def text_ok_def)
qed

text \<open>
  C21: a text object that was built is always written: the ELF writer neither gives up nor throws
  on the module.
\<close>

theorem text_object_written:
  assumes "build_rv64_text_object_module fs = Some m"
  shows "\<exists>img. write_rv64_relocatable_elf_object m = Inr (Some img)"
proof -
  obtain b where ok: "text_ok (m, b)" using build_text [OF assms] by blast
  then have wf: "module_wf m" by (simp add: text_ok_def)
  then show ?thesis unfolding write_rv64_relocatable_elf_object_def
    using write_image [OF wf text_ok_refs [OF ok]] by blast
qed

theorem text_object_written_witness:
  "\<exists>m img. build_rv64_text_object_module [\<lparr>fn_name = ''main'', fn_global = True,
      fn_fragments = [make_rv64_direct_call_fragment ''exit'']\<rparr>] = Some m \<and>
     write_rv64_relocatable_elf_object m = Inr (Some img)"
proof -
  let ?fs = "[\<lparr>fn_name = ''main'', fn_global = True, fn_fragments = [make_rv64_direct_call_fragment ''exit'']\<rparr>]"
  have "build_rv64_text_object_module ?fs \<noteq> None" by code_simp
  then obtain m where "build_rv64_text_object_module ?fs = Some m" by blast
  with text_object_written [OF this] show ?thesis by blast
qed

end
