(* ===== verification/Elf_Read_Back.thy ===== *)
theory Elf_Read_Back
  imports Elf_Image Objdump_Safe
begin

text \<open>
  The writer against the reader: what \<open>c4c-objdump\<close> reads from an image that
  \<open>write_relocatable_elf\<close> wrote. The readers are those of another program and share no code with the
  writer, so this is an independent check of the file layout.
\<close>

unbundle bit_operations_syntax

section \<open>Modules that are written without loss\<close>

text \<open>
  Names without NUL, contents no longer than the section, alignments and counts that the fields of
  the file can hold.
\<close>

definition elf_ready :: "object_module \<Rightarrow> bool" where
  "elf_ready m \<longleftrightarrow> module_wf m \<and> refs_known m \<and>
     (\<forall>s\<in>set (sections m). unat (sec_align s) \<le> 2 ^ 32 \<and> length (sec_bytes s) \<le> unat (sec_size s) \<and> NUL \<notin> set (sec_name s)) \<and>
     (\<forall>s\<in>set (symbols m). NUL \<notin> set (sym_name s)) \<and> table_count m + 4 < 2 ^ 16"

lemma section_contents_eq:
  "length (sec_bytes s) \<le> unat (sec_size s) \<Longrightarrow>
     section_contents s = sec_bytes s @ replicate (unat (sec_size s) - length (sec_bytes s)) 0"
proof -
  assume le: "length (sec_bytes s) \<le> unat (sec_size s)"
  then have "length (sec_bytes s) < 2 ^ LENGTH(64)" by (rule order_le_less_trans) (rule unsigned_less)
  then have len: "unat (of_nat (length (sec_bytes s)) :: u64) = length (sec_bytes s)"
    by (simp add: unat_of_nat take_bit_nat_eq_self)
  then have "min (of_nat (length (sec_bytes s))) (sec_size s) = of_nat (length (sec_bytes s))"
    using le by (simp add: min_def word_le_nat_alt)
  then show ?thesis
    using le len by (auto simp: section_contents_def Let_def unat_sub word_le_nat_alt word_less_nat_alt)
qed

section \<open>Reading a header\<close>

lemma take_drop_within: "j + k \<le> n \<Longrightarrow> take k (drop (off + j) xs) = take k (drop j (take n (drop off xs)))"
  by (simp add: drop_take min_def add.commute)

definition dump_of :: "section_header \<Rightarrow> string \<Rightarrow> dump_section" where
  "dump_of h n = \<lparr>ds_name_offset = sh_name h, ds_type = sh_type h, ds_flags = sh_flags h, ds_offset = sh_offset h,
     ds_size = sh_size h, ds_link = sh_link h, ds_info = sh_info h, ds_entsize = sh_entsize h, ds_name = n\<rparr>"

lemma read_header_at:
  assumes "off + 64 \<le> length img" "take 64 (drop off img) = header_bytes h"
  shows "read_section_header img off = Inr (dump_of h [])"
proof -
  note part = take_drop_within [where n = 64 and off = off and xs = img, unfolded assms(2)]
  have "read_u32 img off = Inr (sh_name h)" "read_u32 img (off + 4) = Inr (sh_type h)"
    "read_u64 img (off + 8) = Inr (sh_flags h)" "read_u64 img (off + 24) = Inr (sh_offset h)"
    "read_u64 img (off + 32) = Inr (sh_size h)" "read_u32 img (off + 40) = Inr (sh_link h)"
    "read_u32 img (off + 44) = Inr (sh_info h)" "read_u64 img (off + 56) = Inr (sh_entsize h)"
    using assms(1) part [of 0 4] part [of 4 4] part [of 8 8] part [of 24 8] part [of 32 8] part [of 40 4]
      part [of 44 4] part [of 56 8]
    by (auto intro!: r32.read_word r64.read_word simp: header_bytes_def)
  then show ?thesis by (simp add: read_section_header_def dump_of_def)
qed

lemma map_result_ok: "(\<And>x. x \<in> set xs \<Longrightarrow> f x = Inr (g x)) \<Longrightarrow> map_result f xs = Inr (map g xs)"
  by (induction xs) simp_all

lemma take_drop_concat:
  "\<forall>x\<in>set xs. length x = n \<Longrightarrow> i < length xs \<Longrightarrow> take n (drop (n * i) (concat xs)) = xs ! i"
proof (induction xs arbitrary: i)
  case (Cons x xs)
  then show ?case by (cases i) simp_all
qed simp

section \<open>Reading a name\<close>

lemma string_loop_reads:
  assumes "drop c bytes = map byte_of_char v @ 0 # rest" "NUL \<notin> set v" "c + length v < unat stop"
  shows "string_loop bytes (of_nat c) stop acc = Inr (Some (acc @ v))"
  using assms
proof (induction v arbitrary: c acc)
  case Nil
  have c: "unat (of_nat c :: u64) = c"
    using Nil.prems(3) unsigned_less [of stop, where ?'a = nat] order_less_trans
    by (fastforce simp: unat_of_nat take_bit_nat_eq_self)
  have "c < length bytes" "bytes ! c = 0"
    using Nil.prems(1) by (metis drop_eq_Nil list.distinct(1) not_le append_Nil list.map(1), 
        metis append_Nil hd_drop_conv_nth list.map(1) list.sel(1) drop_eq_Nil list.distinct(1) not_le)
  then show ?case using c Nil.prems(3)
    by (subst string_loop.simps) (simp add: word_less_nat_alt)
next
  case (Cons x v)
  have c: "unat (of_nat c :: u64) = c"
    using Cons.prems(3) unsigned_less [of stop, where ?'a = nat] order_less_trans
    by (fastforce simp: unat_of_nat take_bit_nat_eq_self)
  have "c < length bytes" using Cons.prems(1) by (metis drop_eq_Nil list.distinct(1) list.simps(9) not_le append_Cons)
  moreover from this have "bytes ! c = byte_of_char x" "drop (Suc c) bytes = map byte_of_char v @ 0 # rest"
    using Cons.prems(1) by (simp add: hd_drop_conv_nth [symmetric]) (simp add: drop_Suc Cons.prems(1) flip: tl_drop)
  ultimately show ?case using c Cons.prems Cons.IH [of "Suc c" "acc @ [x]"]
    by (subst string_loop.simps) (auto simp: word_less_nat_alt add.commute)
qed

lemma read_string_in_table:
  assumes "length img < 2 ^ 32" "unat toff + unat tsize \<le> length img"
    "take (unat tsize) (drop (unat toff) img) = table_of vs" "unat tsize = length (table_of vs)"
    "drop (unat soff) (table_of vs) = str_bytes v @ rest" "NUL \<notin> set v"
  shows "read_string_at img toff tsize soff = Inr (Some v)"
proof -
  have soff: "unat soff + length v < unat tsize"
    using arg_cong [OF assms(5), of length] by (simp add: assms(4) str_bytes_def)
  have sum: "toff + ucast soff = of_nat (unat toff + unat soff)" by simp
  have u: "unat (of_nat (unat toff + unat soff) :: u64) = unat toff + unat soff"
    using soff assms(1,2) by (simp add: small_unat_of_nat del: of_nat_add)
  have stop: "unat (toff + tsize) = unat toff + unat tsize"
    using unat_add_in [of toff "unat tsize"] assms(1,2) by simp
  have "drop (unat toff) img = table_of vs @ drop (unat tsize) (drop (unat toff) img)"
    by (metis append_take_drop_id assms(3))
  then have "drop (unat soff) (drop (unat toff) img) = map byte_of_char v @ 0 # rest @ drop (unat tsize) (drop (unat toff) img)"
    using soff assms(4,5) by (metis (no_types, lifting) append.assoc append_Cons append_Nil drop_append diff_is_0_eq' drop0
        less_imp_le add_lessD1 str_bytes_def)
  then have "drop (unat toff + unat soff) img = map byte_of_char v @ 0 # rest @ drop (unat tsize) (drop (unat toff) img)"
    by (simp add: add.commute)
  then have "string_loop img (of_nat (unat toff + unat soff)) (toff + tsize) [] = Inr (Some v)"
    using string_loop_reads [of "unat toff + unat soff" img v _ "toff + tsize" "[]"] assms(6) soff stop by simp
  moreover have "range_fits (of_nat (unat toff + unat soff)) 1 (length img)"
    using u soff assms(1,2) by (simp add: range_fits_iff del: of_nat_add)
  ultimately show ?thesis
    using soff by (simp add: read_string_at_def word_le_nat_alt sum del: of_nat_add)
qed

lemma read_name:
  assumes "length img < 2 ^ 32" "placed img h (table_of vs)" "sh_size h = of_nat (length (table_of vs))"
    "drop (unat soff) (table_of vs) = str_bytes v @ rest" "NUL \<notin> set v"
  shows "read_string_at img (sh_offset h) (sh_size h) soff = Inr (Some v)"
proof -
  have len: "length (table_of vs) < 2 ^ 32" using assms(1,2) by (simp add: placed_def)
  have "unat (sh_size h) = length (table_of vs)" unfolding assms(3) using len by (rule small_unat_of_nat)
  with assms show ?thesis by (intro read_string_in_table) (auto simp: placed_def)
qed

section \<open>The section headers\<close>

lemma names_NUL_free: "elf_ready m \<Longrightarrow> v \<in> set (elf_names m) \<Longrightarrow> NUL \<notin> set v"
  using groups_ok [of m] by (fastforce simp: elf_names_def elf_ready_def)

text \<open>The empty name of the null header and of the null symbol.\<close>

lemma drop_0_table: "drop 0 (table_of vs) = str_bytes [] @ concat (map str_bytes vs)"
  by (simp add: table_of_def str_bytes_def)

lemma read_section_headers_image:
  assumes "elf_ready m" "write_relocatable_elf m cfg = Inr (Some img)" "length img < 2 ^ 32"
    and parts: "offset_only (elf_headers m) hs" "hs ! 0 = default_header" "shoff + 64 * (table_count m + 4) = length img"
      "drop shoff img = concat (map header_bytes hs)"
      "\<And>k. k < length (elf_tables m) \<Longrightarrow> placed img (hs ! (Suc (length (sections m)) + k)) (elf_tables m ! k)"
  shows "read_section_headers img (of_nat shoff) 64 (of_nat (table_count m + 4)) (of_nat (table_count m + 3)) =
    Inr (map2 dump_of hs ([] # elf_names m))"
proof -
  define n where "n = table_count m + 4"
  have n: "n < 2 ^ 16" using assms(1) by (simp add: elf_ready_def n_def)
  have len: "length hs = n" using parts(1) by (simp add: offset_only_def n_def)
  have shnum: "unat (of_nat n :: u16) = n" "unat (of_nat (n - 1) :: u16) = n - 1"
    using n by (simp_all add: unat_of_nat take_bit_nat_eq_self)
  have heads: "map_result (\<lambda>i. read_section_header img (unat (of_nat shoff + of_nat i * 64 :: u64))) [0..<n] =
      Inr (map (\<lambda>i. dump_of (hs ! i) []) [0..<n])"
  proof (rule map_result_ok)
    fix i assume "i \<in> set [0..<n]"
    then have i: "i < n" by simp
    then have pos: "unat (of_nat shoff + of_nat i * 64 :: u64) = shoff + 64 * i"
      using parts(3) assms(3) small_unat_of_nat(2) [of "shoff + 64 * i"] by (simp add: n_def mult.commute)
    have "take 64 (drop (shoff + 64 * i) img) = header_bytes (hs ! i)"
      using i len take_drop_concat [of "map header_bytes hs" 64 i] drop_drop [of "64 * i" shoff img]
      by (simp add: parts(4) add.commute)
    then show "read_section_header img (unat (of_nat shoff + of_nat i * 64 :: u64)) = Inr (dump_of (hs ! i) [])"
      unfolding pos using i parts(3) by (intro read_header_at) (simp_all add: n_def)
  qed
  define h where "h = hs ! (n - 1)"
  obtain x where x: "h = (plain_headers m ! (table_count m + 2))\<lparr>sh_name := of_nat (name_pos (elf_names m) (table_count m + 2)), sh_offset := x\<rparr>"
    using final_header [OF parts(1), of "table_count m + 2"] by (auto simp: h_def n_def numeral_eq_Suc)
  have hsize: "sh_size h = of_nat (length (table_of (elf_names m)))"
    using last_headers(3) [of m] by (simp add: x numeral_eq_Suc)
  have hplaced: "placed img h (table_of (elf_names m))"
    using parts(5) [of "length (group_relocations m) + 2"]
    by (simp add: h_def n_def table_count_def elf_tables_def nth_append numeral_eq_Suc)
  have table: "length (table_of (elf_names m)) < 2 ^ 32" using hplaced assms(3) by (simp add: placed_def)
  have named: "name_section img (dump_of h []) (dump_of (hs ! k) []) = Inr (dump_of (hs ! k) (([] # elf_names m) ! k))"
    if "k < n" for k
  proof -
    have "read_string_at img (sh_offset h) (sh_size h) (sh_name (hs ! k)) = Inr (Some (([] # elf_names m) ! k))"
    proof (cases k)
      case 0
      show ?thesis
        by (rule read_name [OF assms(3) hplaced hsize])
           (simp_all add: 0 parts(2) default_header_def drop_0_table [simplified])
    next
      case (Suc j)
      have j: "j < length (elf_names m)"
        using that Suc by (simp add: n_def elf_names_def table_count_def)
      have "sh_name (hs ! k) = of_nat (name_pos (elf_names m) j)"
        using final_header [OF parts(1), of j] that Suc by (auto simp: n_def)
      then have "unat (sh_name (hs ! k)) = name_pos (elf_names m) j"
        using name_pos_less [OF j] table by (simp add: small_unat_of_nat)
      then show ?thesis
        using j names_NUL_free [OF assms(1)] drop_name_pos [OF j]
        by (intro read_name [OF assms(3) hplaced hsize]) (simp_all add: Suc)
    qed
    then show ?thesis by (simp add: name_section_def dump_of_def)
  qed
  have "map_result (name_section img (dump_of h [])) (map (\<lambda>i. dump_of (hs ! i) []) [0..<n]) =
      Inr (map (\<lambda>i. dump_of (hs ! i) (([] # elf_names m) ! i)) [0..<n])"
  proof -
    have "map_result f (map g xs) = map_result (f \<circ> g) xs" for f :: "dump_section \<Rightarrow> dump_error + dump_section" and g and xs :: "nat list"
      by (induction xs) simp_all
    then show ?thesis using named by (simp only:) (intro map_result_ok, simp)
  qed
  moreover have "map (\<lambda>i. dump_of (hs ! i) (([] # elf_names m) ! i)) [0..<n] = map2 dump_of hs ([] # elf_names m)"
    using len by (intro nth_equalityI) (simp_all add: n_def elf_names_def table_count_def)
  moreover have "range_fits (sh_offset h) (sh_size h) (length img)"
    using hplaced assms(3) table by (simp add: range_fits_iff hsize placed_def small_unat_of_nat)
  moreover have "range_fits (of_nat shoff) (ucast (64 :: u16) * ucast (of_nat n :: u16)) (length img)"
  proof -
    have "unat (ucast (64 :: u16) * ucast (of_nat n :: u16) :: u64) = 64 * n"
      using n by (simp add: unat_word_ariths shnum)
    moreover have "unat (of_nat shoff :: u64) = shoff" using parts(3) assms(3) by (intro small_unat_of_nat) simp
    ultimately show ?thesis using parts(3) assms(3) by (simp add: range_fits_iff n_def)
  qed
  moreover have "(of_nat n :: u16) \<noteq> 0" "(of_nat (n - 1) :: u16) < of_nat n"
    using shnum by (auto simp: word_less_nat_alt n_def simp flip: unat_gt_0)
  moreover have "map (\<lambda>i. dump_of (hs ! i) []) [0..<n] ! (n - 1) = dump_of h []" by (simp add: h_def n_def)
  moreover have "table_count m + 4 = n" "table_count m + 3 = n - 1" by (simp_all add: n_def)
  moreover have "ds_offset (dump_of h []) = sh_offset h" "ds_size (dump_of h []) = sh_size h" by (simp_all add: dump_of_def)
  ultimately show ?thesis
    using heads shnum
    by (simp add: read_section_headers_def Let_def not_le del: of_nat_add of_nat_diff One_nat_def)
qed

section \<open>The symbol table\<close>

lemma read_symbol_at:
  assumes "off + 24 \<le> length img"
    "take 24 (drop off img) = le_bytes 4 (n :: u32) @ [info, other] @ le_bytes 2 (ix :: u16) @ le_bytes 8 (v :: u64) @ le_bytes 8 (z :: u64)"
    "read_string_at img (ds_offset strtab) (ds_size strtab) n = Inr (Some name)"
  shows "read_symbol img strtab off =
    Inr \<lparr>dy_name = name, dy_info = info, dy_section_index = ix, dy_value = v, dy_size = z\<rparr>"
proof -
  note part = take_drop_within [where n = 24 and off = off and xs = img, unfolded assms(2)]
  have "read_u32 img off = Inr n" "read_u16 img (off + 6) = Inr ix" "read_u64 img (off + 8) = Inr v"
    "read_u64 img (off + 16) = Inr z"
    using assms(1) part [of 0 4] part [of 6 2] part [of 8 8] part [of 16 8]
    by (auto intro!: r32.read_word r16.read_word r64.read_word)
  moreover have "byte_at img (off + 4) = Inr info"
    using assms(1) part [of 4 1] by (simp add: take_Suc hd_drop_conv_nth)
  ultimately show ?thesis using assms(3) by (simp add: read_symbol_def)
qed

definition symbol_view :: "symbol_record \<Rightarrow> dump_symbol" where
  "symbol_view s = \<lparr>dy_name = sym_name s, dy_info = symbol_info s,
     dy_section_index = (case sym_section s of None \<Rightarrow> 0 | Some i \<Rightarrow> of_nat (Suc i)),
     dy_value = sym_value s, dy_size = sym_size s\<rparr>"

definition null_symbol :: dump_symbol where
  "null_symbol = \<lparr>dy_name = [], dy_info = 0, dy_section_index = 0, dy_value = 0, dy_size = 0\<rparr>"

lemma le_bytes_0: "le_bytes k (0 :: 'a::len word) = replicate k 0"
  by (auto simp: le_bytes_def intro!: nth_equalityI)

lemma null_entry:
  "replicate 24 0 = le_bytes 4 (0 :: u32) @ [0, 0] @ le_bytes 2 (0 :: u16) @ le_bytes 8 (0 :: u64) @ le_bytes 8 (0 :: u64)"
  by (simp add: le_bytes_0 numeral_eq_Suc)

lemma ucast_index: "(ucast (of_nat n :: u32) :: u16) = of_nat n"
proof -
  have "(ucast (of_nat n :: u32) :: u16) = of_nat (unat (of_nat n :: u32))" by simp
  also have "\<dots> = of_nat n" by (rule word_unat_eq_iff [THEN iffD2]) (simp add: unat_of_nat take_bit_eq_mod mod_mod_cancel)
  finally show ?thesis .
qed

lemma length_elf_symtab: "length (elf_symtab m) = 24 * Suc (length (symbols m))"
proof -
  have "length (concat (map (symbol_bytes offs) ss)) = 24 * length ss" for offs ss
    by (induction ss) simp_all
  then show ?thesis by (simp add: elf_symtab_def)
qed

lemma strings_NUL_free: "elf_ready m \<Longrightarrow> v \<in> set (elf_strings m) \<Longrightarrow> NUL \<notin> set v"
  by (auto simp: elf_strings_def elf_ready_def)

lemma read_symbols_image:
  assumes "elf_ready m" "length img < 2 ^ 32" "length names = table_count m + 4"
    and parts: "offset_only (elf_headers m) hs"
      "\<And>k. k < length (elf_tables m) \<Longrightarrow> placed img (hs ! (Suc (length (sections m)) + k)) (elf_tables m ! k)"
  shows "read_symbols img (map2 dump_of hs names) (dump_of (hs ! Suc (table_count m)) x) =
    Inr (null_symbol # map symbol_view (ordered_symbols m))"
proof -
  define n where "n = table_count m"
  define symh where "symh = hs ! Suc n"
  define strh where "strh = hs ! Suc (Suc n)"
  define offs where "offs = name_offsets (table_of (elf_strings m)) 1 Map.empty"
  have len: "length hs = n + 4" using parts(1) by (simp add: offset_only_def n_def)
  have n: "n + 4 < 2 ^ 16" using assms(1) by (simp add: elf_ready_def n_def)
  have symplaced: "placed img symh (elf_symtab m)" and strplaced: "placed img strh (table_of (elf_strings m))"
    using parts(2) [of "length (group_relocations m)"] parts(2) [of "Suc (length (group_relocations m))"]
    by (simp_all add: symh_def strh_def n_def table_count_def elf_tables_def nth_append)
  have sym: "sh_entsize symh = 24" "sh_link symh = of_nat (Suc (Suc n))" "sh_size symh = of_nat (24 * Suc (length (symbols m)))"
    using final_header [OF parts(1), of n] by (auto simp: symh_def n_def last_headers length_elf_symtab)
  have strsize: "sh_size strh = of_nat (length (table_of (elf_strings m)))"
    using final_header [OF parts(1), of "Suc n"] by (auto simp: strh_def n_def last_headers)
  have table: "length (table_of (elf_strings m)) < 2 ^ 32" using strplaced assms(2) by (simp add: placed_def)
  have symlen: "unat (sh_offset symh) + 24 * Suc (length (symbols m)) \<le> length img"
    using symplaced by (simp add: placed_def length_elf_symtab)
  then have usize: "unat (sh_size symh) = 24 * Suc (length (symbols m))"
    unfolding sym(3) using assms(2) by (intro small_unat_of_nat) linarith
  have link: "unat (sh_link symh) = Suc (Suc n)" unfolding sym(2) using n by (intro small_unat_of_nat) simp
  have str: "map2 dump_of hs names ! Suc (Suc n) = dump_of strh (names ! Suc (Suc n))"
    using len assms(3) by (simp add: strh_def n_def)
  let ?entries = "replicate 24 0 # map (symbol_bytes offs) (ordered_symbols m)"
  have entries: "elf_symtab m = concat ?entries" by (simp add: elf_symtab_def offs_def)
  have entry: "read_symbol img (dump_of strh (names ! Suc (Suc n))) (unat (sh_offset symh + of_nat i * 24)) =
      Inr ((null_symbol # map symbol_view (ordered_symbols m)) ! i)" if i: "i < Suc (length (symbols m))" for i
  proof -
    have pos: "unat (sh_offset symh + of_nat i * 24) = unat (sh_offset symh) + 24 * i"
      using i symlen assms(2) unat_add_in [of "sh_offset symh" "24 * i"] by (simp add: mult.commute)
    have inside: "unat (sh_offset symh) + 24 * i + 24 \<le> length img" using i symlen by simp
    have "take 24 (drop (unat (sh_offset symh) + 24 * i) img) = take 24 (drop (24 * i) (elf_symtab m))"
      using symplaced i take_drop_within [of "24 * i" 24 "length (elf_symtab m)" "unat (sh_offset symh)" img]
      by (simp add: placed_def length_elf_symtab)
    also have "\<dots> = ?entries ! i"
      unfolding entries by (rule take_drop_concat) (use i in auto)
    finally have bytes: "take 24 (drop (unat (sh_offset symh) + 24 * i) img) = ?entries ! i" .
    note string = read_name [OF assms(2) strplaced strsize]
    show ?thesis
    proof (cases i)
      case 0
      have "read_string_at img (sh_offset strh) (sh_size strh) 0 = Inr (Some [])"
        by (rule string) (simp_all add: drop_0_table [simplified])
      then show ?thesis
        using read_symbol_at [OF inside [unfolded 0] bytes [unfolded 0 nth_Cons_0 null_entry], of "dump_of strh (names ! Suc (Suc n))" "[]"]
        by (simp add: pos 0 null_symbol_def dump_of_def)
    next
      case (Suc j)
      define s where "s = ordered_symbols m ! j"
      have j: "j < length (ordered_symbols m)" using i Suc by simp
      then have "sym_name s \<in> set (elf_strings m)" unfolding s_def elf_strings_def set_map by (intro imageI nth_mem)
      then obtain k where k: "k < length (elf_strings m)" "offs (sym_name s) = Some (of_nat (name_pos (elf_strings m) k))"
        "elf_strings m ! k = sym_name s"
        using name_offsets_found [of "elf_strings m" "sym_name s"] strings_NUL_free [OF assms(1)] unfolding offs_def by blast
      have "unat (of_nat (name_pos (elf_strings m) k) :: u32) = name_pos (elf_strings m) k"
        using name_pos_less [OF k(1)] table by (simp add: small_unat_of_nat)
      then have name: "read_string_at img (sh_offset strh) (sh_size strh) (of_nat (name_pos (elf_strings m) k)) = Inr (Some (sym_name s))"
        using drop_name_pos [OF k(1)] k(3) strings_NUL_free [OF assms(1) nth_mem [OF k(1)]] by (intro string) simp_all
      have ix: "(ucast (case sym_section s of None \<Rightarrow> 0 | Some sec \<Rightarrow> (of_nat (Suc sec) :: u32)) :: u16) =
          (case sym_section s of None \<Rightarrow> 0 | Some i \<Rightarrow> of_nat (Suc i))"
        by (simp add: ucast_index del: of_nat_Suc split: option.split)
      have "take 24 (drop (unat (sh_offset symh) + 24 * i) img) = symbol_bytes offs s"
        using bytes j by (simp add: Suc s_def)
      then have "take 24 (drop (unat (sh_offset symh) + 24 * i) img) =
          le_bytes 4 (of_nat (name_pos (elf_strings m) k) :: u32) @ [symbol_info s, 0] @
          le_bytes 2 (case sym_section s of None \<Rightarrow> 0 | Some i \<Rightarrow> (of_nat (Suc i) :: u16)) @
          le_bytes 8 (sym_value s) @ le_bytes 8 (sym_size s)"
        by (simp only: symbol_bytes_def k(2) option.case ix)
      from read_symbol_at [OF inside this, of "dump_of strh (names ! Suc (Suc n))" "sym_name s"] name j show ?thesis
        unfolding pos by (simp add: Suc symbol_view_def dump_of_def s_def)
    qed
  qed
  have "range_fits (sh_offset symh) (sh_size symh) (length img)"
    using symlen usize assms(2) by (simp add: range_fits_iff)
  moreover have "range_fits (sh_offset strh) (sh_size strh) (length img)"
    using strplaced assms(2) table by (simp add: range_fits_iff strsize placed_def small_unat_of_nat)
  moreover have "unat (sh_size symh div 24) = Suc (length (symbols m))" by (simp add: unat_div usize)
  moreover have "map_result (\<lambda>i. read_symbol img (dump_of strh (names ! Suc (Suc n))) (unat (sh_offset symh + of_nat i * 24)))
      [0..<Suc (length (symbols m))] =
      Inr (map (\<lambda>i. (null_symbol # map symbol_view (ordered_symbols m)) ! i) [0..<Suc (length (symbols m))])"
    using entry by (intro map_result_ok) (simp del: upt_Suc)
  moreover have "map (\<lambda>i. (null_symbol # map symbol_view (ordered_symbols m)) ! i) [0..<Suc (length (symbols m))] =
      null_symbol # map symbol_view (ordered_symbols m)"
    by (intro nth_equalityI) (simp_all del: upt_Suc)
  ultimately show ?thesis
    using str link sym(1) len assms(3) unfolding n_def [symmetric] symh_def [symmetric]
    by (simp add: read_symbols_def Let_def dump_of_def [of symh] dump_of_def [of strh] n_def del: upt_Suc)
qed

section \<open>The round trip\<close>

lemma header_fields:
  assumes "64 \<le> length img" "take 64 img = elf_header cfg shoff shnum shstrndx"
  shows "take 4 img = [0x7f, byte_of_char CHR ''E'', byte_of_char CHR ''L'', byte_of_char CHR ''F'']"
    "img ! 4 = 2" "img ! 5 = 1" "img ! 6 = 1"
    "read_u16 img 16 = Inr 1" "read_u16 img 18 = Inr (cfg_machine cfg)" "read_u64 img 40 = Inr shoff"
    "read_u16 img 58 = Inr 64" "read_u16 img 60 = Inr shnum" "read_u16 img 62 = Inr shstrndx"
proof -
  note part = take_drop_within [where n = 64 and off = 0 and xs = img, unfolded drop_0 add_0 assms(2)]
  show "take 4 img = [0x7f, byte_of_char CHR ''E'', byte_of_char CHR ''L'', byte_of_char CHR ''F'']"
    using part [of 0 4] by (simp add: elf_header_bytes)
  have "take 1 (drop 4 img) = [2]" "take 1 (drop 5 img) = [1]" "take 1 (drop 6 img) = [1]"
    using part [of 4 1] part [of 5 1] part [of 6 1] by (simp_all add: elf_header_bytes)
  then show "img ! 4 = 2" "img ! 5 = 1" "img ! 6 = 1"
    using assms(1) by (simp_all add: take_Suc hd_drop_conv_nth)
  show "read_u16 img 16 = Inr 1" "read_u16 img 18 = Inr (cfg_machine cfg)" "read_u64 img 40 = Inr shoff"
    "read_u16 img 58 = Inr 64" "read_u16 img 60 = Inr shnum" "read_u16 img 62 = Inr shstrndx"
    using assms(1) part [of 16 2] part [of 18 2] part [of 40 8] part [of 58 2] part [of 60 2] part [of 62 2]
    by (auto intro!: r16.read_word r64.read_word simp: elf_header_bytes)
qed

text \<open>The sections as the disassembler reads them, at the places the file header names.\<close>

definition image_sections :: "u8 list \<Rightarrow> dump_error + dump_section list" where
  "image_sections bytes =
     and_then (read_u64 bytes 40) (\<lambda>shoff.
     and_then (read_u16 bytes 58) (\<lambda>shentsize.
     and_then (read_u16 bytes 60) (\<lambda>shnum.
     and_then (read_u16 bytes 62) (\<lambda>shstrndx.
     read_section_headers bytes shoff shentsize shnum shstrndx))))"

text \<open>Everything the later theorems take from a written image.\<close>

lemma read_back:
  assumes "elf_ready m" "write_relocatable_elf m cfg = Inr (Some img)" "length img < 2 ^ 32"
  obtains hs where "image_sections img = Inr (map2 dump_of hs ([] # elf_names m))"
    "offset_only (elf_headers m) hs" "64 \<le> length img" "hs ! 0 = default_header" "Suc (length (symbols m)) < 2 ^ 32"
    "\<exists>shoff. take 64 img = elf_header cfg shoff (of_nat (table_count m + 4)) (of_nat (table_count m + 3))"
    "\<And>i. i < length (sections m) \<Longrightarrow> sec_kind (sections m ! i) \<noteq> SectionBss \<Longrightarrow>
       placed img (hs ! Suc i) (section_contents (sections m ! i))"
    "\<And>x. read_symbols img (map2 dump_of hs ([] # elf_names m)) (dump_of (hs ! Suc (table_count m)) x) =
       Inr (null_symbol # map symbol_view (ordered_symbols m))"
proof -
  have "module_wf m" "refs_known m" "\<forall>s\<in>set (sections m). unat (sec_align s) \<le> 2 ^ 32"
    using assms(1) by (simp_all add: elf_ready_def)
  from elf_image_parts [OF this(1,2) assms(2,3) this(3)]
  obtain hs shoff where parts: "offset_only (elf_headers m) hs" "hs ! 0 = default_header"
    "64 \<le> shoff" "shoff + 64 * (table_count m + 4) = length img"
    "take 64 img = elf_header cfg (of_nat shoff) (of_nat (table_count m + 4)) (of_nat (table_count m + 3))"
    "drop shoff img = concat (map header_bytes hs)"
    "\<And>i. i < length (sections m) \<Longrightarrow> sec_kind (sections m ! i) \<noteq> SectionBss \<Longrightarrow>
       placed img (hs ! Suc i) (section_contents (sections m ! i))"
    "\<And>k. k < length (elf_tables m) \<Longrightarrow> placed img (hs ! (Suc (length (sections m)) + k)) (elf_tables m ! k)"
    by metis
  have len: "64 \<le> length img" using parts(3,4) by linarith
  have names: "length ([] # elf_names m) = table_count m + 4" by (simp add: elf_names_def table_count_def)
  have few: "Suc (length (symbols m)) < 2 ^ 32"
    using parts(8) [of "length (group_relocations m)"] assms(3)
    by (simp add: elf_tables_def nth_append placed_def length_elf_symtab)
  have "\<exists>shoff. take 64 img = elf_header cfg shoff (of_nat (table_count m + 4)) (of_nat (table_count m + 3))"
    using parts(5) by blast
  moreover have "read_symbols img (map2 dump_of hs ([] # elf_names m)) (dump_of (hs ! Suc (table_count m)) x) =
      Inr (null_symbol # map symbol_view (ordered_symbols m))" for x
    by (rule read_symbols_image) (use assms names parts in auto)
  moreover have "read_section_headers img (of_nat shoff) 64 (of_nat (table_count m + 4)) (of_nat (table_count m + 3)) =
      Inr (map2 dump_of hs ([] # elf_names m))"
    by (rule read_section_headers_image) (use assms parts in auto)
  then have "image_sections img = Inr (map2 dump_of hs ([] # elf_names m))"
    by (simp add: image_sections_def header_fields [OF len parts(5)] del: of_nat_add)
  ultimately show thesis using that parts(1,2,7) len few by blast
qed

text \<open>
  C9: the disassembler reads back what the object writer wrote: the machine and all section names,
  for every section its type, flags, size and contents, and a symbol table with all local symbols
  in front of the global ones, each with its name, binding, type, section, value and size.
\<close>

theorem elf_read_back:
  assumes "elf_ready m" "write_relocatable_elf m cfg = Inr (Some img)" "length img < 2 ^ 32"
  shows "\<exists>ss symtab. read_u16 img 18 = Inr (cfg_machine cfg) \<and> image_sections img = Inr ss \<and>
    map ds_name ss = [] # map sec_name (sections m) @ map grp_name (group_relocations m) @ [''.symtab'', ''.strtab'', ''.shstrtab''] \<and>
    (\<forall>i<length (sections m). let s = sections m ! i; d = ss ! Suc i in
       ds_type d = section_type s \<and> ds_flags d = section_flags s \<and> ds_size d = sec_size s \<and>
       (sec_kind s \<noteq> SectionBss \<longrightarrow> take (unat (ds_size d)) (drop (unat (ds_offset d)) img) =
          sec_bytes s @ replicate (unat (sec_size s) - length (sec_bytes s)) 0)) \<and>
    symtab \<in> set ss \<and> ds_type symtab = 2 \<and>
    unat (ds_info symtab) = Suc (length (filter (\<lambda>s. sym_binding s = BindLocal) (symbols m))) \<and>
    read_symbols img ss symtab = Inr (null_symbol # map symbol_view
      (filter (\<lambda>s. sym_binding s = BindLocal) (symbols m) @ filter (\<lambda>s. sym_binding s = BindGlobal) (symbols m)))"
proof -
  obtain hs where rb: "image_sections img = Inr (map2 dump_of hs ([] # elf_names m))"
    "offset_only (elf_headers m) hs" "64 \<le> length img"
    "\<exists>shoff. take 64 img = elf_header cfg shoff (of_nat (table_count m + 4)) (of_nat (table_count m + 3))"
    "\<And>i. i < length (sections m) \<Longrightarrow> sec_kind (sections m ! i) \<noteq> SectionBss \<Longrightarrow>
       placed img (hs ! Suc i) (section_contents (sections m ! i))"
    "\<And>x. read_symbols img (map2 dump_of hs ([] # elf_names m)) (dump_of (hs ! Suc (table_count m)) x) =
       Inr (null_symbol # map symbol_view (ordered_symbols m))" "Suc (length (symbols m)) < 2 ^ 32"
    using read_back [OF assms] by metis
  let ?ss = "map2 dump_of hs ([] # elf_names m)"
  have len: "length hs = table_count m + 4" "length (elf_names m) = table_count m + 3"
    using rb(2) by (simp_all add: offset_only_def elf_names_def table_count_def)
  have nth: "?ss ! k = dump_of (hs ! k) (([] # elf_names m) ! k)" if "k < table_count m + 4" for k
    using that len by simp
  have sec: "let s = sections m ! i; d = ?ss ! Suc i in
       ds_type d = section_type s \<and> ds_flags d = section_flags s \<and> ds_size d = sec_size s \<and>
       (sec_kind s \<noteq> SectionBss \<longrightarrow> take (unat (ds_size d)) (drop (unat (ds_offset d)) img) =
          sec_bytes s @ replicate (unat (sec_size s) - length (sec_bytes s)) 0)" if i: "i < length (sections m)" for i
  proof -
    define s where "s = sections m ! i"
    obtain x where h: "hs ! Suc i = (header_of_section s)\<lparr>sh_name := of_nat (name_pos (elf_names m) i), sh_offset := x\<rparr>"
      using final_header [OF rb(2), of i] i by (auto simp: table_count_def plain_headers_def nth_append s_def)
    have fits: "length (sec_bytes s) \<le> unat (sec_size s)" using assms(1) i by (simp add: elf_ready_def s_def)
    then show ?thesis
      using nth [of "Suc i"] i rb(5) [OF i] section_contents_eq [OF fits]
      by (simp add: Let_def table_count_def dump_of_def h header_of_section_def placed_def flip: s_def)
  qed
  define symtab where "symtab = ?ss ! Suc (table_count m)"
  have symtab: "symtab = dump_of (hs ! Suc (table_count m)) (([] # elf_names m) ! Suc (table_count m))"
    using nth [of "Suc (table_count m)"] by (simp add: symtab_def)
  have "symtab \<in> set ?ss" unfolding symtab_def by (rule nth_mem) (simp add: len)
  moreover have "ds_type symtab = 2" "ds_info symtab = local_symbol_count (ordered_symbols m)"
    using final_header [OF rb(2), of "table_count m"] by (auto simp: symtab dump_of_def last_headers)
  moreover have "unat (local_symbol_count (ordered_symbols m)) = Suc (length (filter (\<lambda>s. sym_binding s = BindLocal) (symbols m)))"
  proof -
    have "filter (\<lambda>s. sym_binding s = BindLocal) (ordered_symbols m) = filter (\<lambda>s. sym_binding s = BindLocal) (symbols m)"
      by (simp add: ordered_symbols_def)
    moreover have "length (filter (\<lambda>s. sym_binding s = BindLocal) (symbols m)) \<le> length (symbols m)" by simp
    ultimately show ?thesis
      unfolding local_symbol_count_def using rb(7) by (subst small_unat_of_nat) (simp_all add: order_le_less_trans [OF length_filter_le])
  qed
  moreover have "map ds_name ?ss = [] # elf_names m"
    using len by (intro nth_equalityI) (simp_all add: dump_of_def)
  moreover have "read_u16 img 18 = Inr (cfg_machine cfg)" using header_fields(6) rb(3,4) by blast
  ultimately show ?thesis
    using rb(1,6) sec symtab by (intro exI [of _ ?ss] exI [of _ symtab]) (simp add: elf_names_def ordered_symbols_def)
qed

lemma elf_read_back_witness:
  "let m = \<lparr>sections = [\<lparr>sec_id = 0, sec_name = ''.text'', sec_kind = SectionText, sec_bytes = [0x67, 0x80, 0, 0], sec_size = 4,
          sec_align = 4, sec_alloc = True, sec_executable = True, sec_writable = False\<rparr>],
        symbols = [\<lparr>sym_id = 0, sym_name = ''f'', sym_binding = BindGlobal, sym_kind = KindFunction, sym_section = Some 0,
          sym_value = 0, sym_size = 4\<rparr>], labels = [], relocations = []\<rparr>;
      cfg = \<lparr>cfg_class = Elf64, cfg_encoding = LittleEndian, cfg_machine = 243, cfg_flags = 5\<rparr> in
   \<exists>img ss. write_relocatable_elf m cfg = Inr (Some img) \<and> image_sections img = Inr ss \<and>
     map ds_name ss = [[], ''.text'', ''.symtab'', ''.strtab'', ''.shstrtab'']"
proof -
  define m where "m = \<lparr>sections = [\<lparr>sec_id = 0, sec_name = ''.text'', sec_kind = SectionText, sec_bytes = [0x67, 0x80, 0, 0],
      sec_size = 4, sec_align = 4, sec_alloc = True, sec_executable = True, sec_writable = False\<rparr>],
    symbols = [\<lparr>sym_id = 0, sym_name = ''f'', sym_binding = BindGlobal, sym_kind = KindFunction, sym_section = Some 0,
      sym_value = 0, sym_size = 4\<rparr>], labels = [], relocations = []\<rparr>"
  define cfg where "cfg = \<lparr>cfg_class = Elf64, cfg_encoding = LittleEndian, cfg_machine = 243, cfg_flags = 5\<rparr>"
  have "case write_relocatable_elf m cfg of Inr (Some img) \<Rightarrow> length img < 1000 | _ \<Rightarrow> False"
    unfolding m_def cfg_def by code_simp
  then obtain img where img: "write_relocatable_elf m cfg = Inr (Some img)" "length img < 2 ^ 32"
    by (auto split: sum.splits option.splits)
  have "elf_ready m"
    by (simp add: elf_ready_def m_def module_wf_def refs_known_def table_count_def ids_ok_def group_relocations_def section_known_def)
  moreover have "group_relocations m = []" by (simp add: m_def group_relocations_def)
  ultimately show ?thesis
    using elf_read_back [OF _ img] img(1) unfolding Let_def by (fold m_def cfg_def) (auto simp: m_def)
qed

end
