(* ===== verification/Assembler_Object.thy ===== *)
theory Assembler_Object
  imports Assembler Rv64_Object_Correct Elf_Read_Back
begin

text \<open>
  The object file \<open>c4c-as\<close> writes, read by \<open>c4c-objdump\<close>: the module of one function without fixups, and
  what the disassembler extracts from its image.
\<close>

unbundle bit_operations_syntax

section \<open>The module of one function\<close>

definition label_symbol :: "nat \<Rightarrow> frag_label \<Rightarrow> symbol_record" where
  "label_symbol i l = \<lparr>sym_id = i, sym_name = fl_name l, sym_binding = BindLocal, sym_kind = KindNoType, sym_section = Some 0,
     sym_value = fl_offset l, sym_size = 0\<rparr>"

definition label_symbols :: "nat \<Rightarrow> frag_label list \<Rightarrow> symbol_record list" where
  "label_symbols n ls = map2 label_symbol [n..<n + length ls] ls"

lemma label_symbols_Cons: "label_symbols n (l # ls) = label_symbol n l # label_symbols (Suc n) ls"
  by (simp add: label_symbols_def upt_conv_Cons del: upt_Suc)

lemma label_symbols_Nil: "label_symbols n [] = []"
  by (simp add: label_symbols_def)

lemma label_symbols_maps [simp]:
  "length (label_symbols n ls) = length ls" "map sym_name (label_symbols n ls) = map fl_name ls"
  by (induction ls arbitrary: n) (simp_all add: label_symbols_Cons label_symbol_def label_symbols_Nil)

lemma text_ok_free: "text_ok (m, b) \<Longrightarrow> b n = None \<longleftrightarrow> n \<notin> sym_name ` set (symbols m)"
  using sym_table.named_None [of m n] by (auto simp: text_ok_def module_wf_def)

lemma publish_symbol:
  assumes "text_ok (m, b)" "publish_rv64_text_fragment_label 0 0 sz l (m, b) = Some (m', b')"
  shows "symbols m' = symbols m @ [label_symbol (length (symbols m)) l]"
proof -
  have "b (fl_name l) = None" using assms(2) by (auto simp: publish_rv64_text_fragment_label_def split: if_splits)
  then have "find_symbol_named m (fl_name l) = None" using assms(1) by (simp add: text_ok_def)
  then have "find_symbol_named (fst (bind_label m (fl_name l) 0 (fl_offset l))) (fl_name l) = None"
    using same_symbols [of "fst (bind_label m (fl_name l) 0 (fl_offset l))" m] by (simp add: bind_label_def Let_def)
  then show ?thesis
    using assms(2) by (auto simp: publish_rv64_text_fragment_label_def define_symbol_def bind_label_def label_symbol_def Let_def split: if_splits)
qed

lemma publish_all_symbols:
  "text_ok (m, b) \<Longrightarrow> each_step (publish_rv64_text_fragment_label 0 0 sz) ls (m, b) = Some (m', b') \<Longrightarrow>
     symbols m' = symbols m @ label_symbols (length (symbols m)) ls"
proof (induction ls arbitrary: m b)
  case (Cons l ls)
  then obtain m1 b1 where 1: "publish_rv64_text_fragment_label 0 0 sz l (m, b) = Some (m1, b1)"
    "each_step (publish_rv64_text_fragment_label 0 0 sz) ls (m1, b1) = Some (m', b')" by (auto split: option.splits)
  have "text_ok (m1, b1)" using publish_ok [OF Cons.prems(1) 1(1)] keeps_ok by blast
  from Cons.IH [OF this 1(2)] publish_symbol [OF Cons.prems(1) 1(1)] show ?case
    by (simp add: label_symbols_Cons)
qed (simp add: label_symbols_def)

text \<open>Labels with distinct new names inside the fragment are always published.\<close>

lemma publish_all_succeeds:
  "text_ok (m, b) \<Longrightarrow> \<forall>l\<in>set ls. fl_name l \<noteq> [] \<and> fl_offset l \<le> sz \<and> b (fl_name l) = None \<Longrightarrow> distinct (map fl_name ls) \<Longrightarrow>
     \<exists>m' b'. each_step (publish_rv64_text_fragment_label 0 0 sz) ls (m, b) = Some (m', b')"
proof (induction ls arbitrary: m b)
  case (Cons l ls)
  have "publish_rv64_text_fragment_label 0 0 sz l (m, b) \<noteq> None"
    using Cons.prems(2) by (auto simp: publish_rv64_text_fragment_label_def Let_def not_less split: prod.split)
  then obtain m1 b1 where 1: "publish_rv64_text_fragment_label 0 0 sz l (m, b) = Some (m1, b1)" by auto
  have ok1: "text_ok (m1, b1)" using publish_ok [OF Cons.prems(1) 1] keeps_ok by blast
  have "b1 (fl_name l') = None" if "l' \<in> set ls" for l'
  proof -
    have "fl_name l' \<noteq> fl_name l" using that Cons.prems(3) by (auto simp: image_iff)
    moreover have "fl_name l' \<notin> sym_name ` set (symbols m)" using that Cons.prems(2) text_ok_free [OF Cons.prems(1)] by auto
    ultimately show ?thesis
      using publish_symbol [OF Cons.prems(1) 1] by (auto simp: text_ok_free [OF ok1] label_symbol_def)
  qed
  with Cons.IH [OF ok1] Cons.prems(2,3) 1 show ?case by auto
qed simp

definition leaf_function :: "string \<Rightarrow> u8 list \<Rightarrow> frag_label list \<Rightarrow> object_function" where
  "leaf_function n bs ls = \<lparr>fn_name = n, fn_global = True, fn_fragments = [\<lparr>fr_bytes = bs, fr_labels = ls, fr_fixups = []\<rparr>]\<rparr>"

lemma build_leaf:
  assumes "n \<noteq> []" "n \<notin> fl_name ` set ls" "distinct (map fl_name ls)" "\<forall>l\<in>set ls. fl_name l \<noteq> [] \<and> fl_offset l \<le> of_nat (length bs)"
  obtains m where "build_rv64_text_object_module [leaf_function n bs ls] = Some m"
    "symbols m = label_symbols 0 ls @ [\<lparr>sym_id = length ls, sym_name = n, sym_binding = BindGlobal, sym_kind = KindFunction,
       sym_section = Some 0, sym_value = 0, sym_size = of_nat (length bs)\<rparr>]"
proof -
  define m0 where "m0 = fst (create_section empty_module ''.text'' SectionText 4 True True False)"
  define t where "t = \<lparr>sec_id = 0, sec_name = ''.text'', sec_kind = SectionText, sec_bytes = bs, sec_size = of_nat (length bs),
    sec_align = 4, sec_alloc = True, sec_executable = True, sec_writable = False\<rparr>"
  define m1 where "m1 = put_section m0 0 t"
  have m1: "sections m1 = [t]" "symbols m1 = []" "relocations m1 = []" "labels m1 = []"
    by (simp_all add: m1_def m0_def put_section_def create_section_def empty_module_def)
  have ok1: "text_ok (m1, Map.empty)"
    using m1 by (simp add: text_ok_def module_wf_def ids_ok_def find_symbol_named_def find_symbol_id_def t_def)
  obtain m2 b2 where 2: "each_step (publish_rv64_text_fragment_label 0 0 (of_nat (length bs))) ls (m1, Map.empty) = Some (m2, b2)"
    using publish_all_succeeds [OF ok1] assms(3,4) by fastforce
  note p = publish_all_ok [OF ok1 2] and s = publish_all_symbols [OF ok1 2, unfolded m1, simplified]
  have ok2: "text_ok (m2, b2)" using p keeps_ok by blast
  have "n \<notin> sym_name ` set (symbols m2)"
    using assms(2) label_symbols_maps(2) [of 0 ls] by (metis list.set_map s)
  then have "find_symbol_named m2 n = None" using text_ok_free [OF ok2] ok2 by (simp add: text_ok_def)
  then have def: "define_symbol m2 n BindGlobal KindFunction 0 0 (of_nat (length bs)) = (m2\<lparr>symbols := symbols m2 @
      [\<lparr>sym_id = length ls, sym_name = n, sym_binding = BindGlobal, sym_kind = KindFunction, sym_section = Some 0,
        sym_value = 0, sym_size = of_nat (length bs)\<rparr>]\<rparr>, length ls)"
    by (simp add: define_symbol_def s Let_def)
  have lay: "lay_out_fragments [\<lparr>fr_bytes = bs, fr_labels = ls, fr_fixups = []\<rparr>] (m0, Map.empty) =
      Some ((m2, b2), [(\<lparr>fr_bytes = bs, fr_labels = ls, fr_fixups = []\<rparr>, 0)])"
    using 2 by (simp add: m1_def m0_def t_def append_section_bytes_def create_section_def empty_module_def max_def)
  have start: "sec_size (sections m0 ! 0) = 0" by (simp add: m0_def create_section_def empty_module_def)
  have "emit_function (leaf_function n bs ls) (m0, Map.empty) = Some (fst (define_symbol m2 n BindGlobal KindFunction 0 0 (of_nat (length bs))), b2(n \<mapsto> length ls))"
    using p m1 start unfolding emit_function_def leaf_function_def
    by (simp add: lay def t_def binding_for_function_def attach_fragment_fixups_def del: lay_out_fragments.simps)
  then show thesis
    using assms(1) by (intro that [of "fst (define_symbol m2 n BindGlobal KindFunction 0 0 (of_nat (length bs)))"]) (simp_all add: build_rv64_text_object_module_def m0_def [symmetric] leaf_function_def def s)
qed

section \<open>What the disassembler extracts\<close>

lemma find_text_second: "find_text [a, b, c, d, e] = Some (1, b)"
  if "ds_name a \<noteq> ''.text''" "ds_name b = ''.text''" "ds_name c \<noteq> ''.text''" "ds_name d \<noteq> ''.text''" "ds_name e \<noteq> ''.text''"
proof -
  have "[0..<length [a, b, c, d, e]] = [0, 1, 2, 3, 4]" by (simp add: upt_rec)
  with that show ?thesis by (simp add: find_text_def)
qed

lemma symbol_info_bits:
  "symbol_bind (symbol_view s) = (if sym_binding s = BindGlobal then 1 else 0)"
  "symbol_kind_of (symbol_view s) = symbol_type (sym_kind s)"
proof -
  have all: "\<forall>b\<in>set [BindLocal, BindGlobal]. \<forall>k\<in>set [KindNoType, KindFunction, KindObject, KindSection].
      drop_bit 4 (push_bit 4 (symbol_binding b) OR symbol_type k) = (if b = BindGlobal then 1 else 0) \<and>
      (push_bit 4 (symbol_binding b) OR symbol_type k) AND 0x0f = symbol_type k" by code_simp
  have "sym_binding s \<in> set [BindLocal, BindGlobal]" by (cases "sym_binding s") simp_all
  moreover have "sym_kind s \<in> set [KindNoType, KindFunction, KindObject, KindSection]" by (cases "sym_kind s") simp_all
  ultimately show "symbol_bind (symbol_view s) = (if sym_binding s = BindGlobal then 1 else 0)"
    "symbol_kind_of (symbol_view s) = symbol_type (sym_kind s)"
    using all unfolding symbol_bind_def symbol_kind_of_def symbol_view_def symbol_info_def dump_symbol.simps by blast+
qed

text \<open>The section headers of an object with one text section and no relocations.\<close>

lemma leaf_sections:
  assumes m: "sections m = [t]" "relocations m = []" "offset_only (elf_headers m) hs" "hs ! 0 = default_header"
    and names: "elf_names m = [sec_name t, ''.symtab'', ''.strtab'', ''.shstrtab'']"
  obtains a b c d e where "map2 dump_of hs ([] # elf_names m) = [a, b, c, d, e]"
    "b = dump_of (hs ! 1) (sec_name t)" "c = dump_of (hs ! 2) ''.symtab''"
    "map ds_name [a, b, c, d, e] = [[], sec_name t, ''.symtab'', ''.strtab'', ''.shstrtab'']"
    "map ds_type [a, b, c, d, e] = [0, section_type t, 2, 3, 3]" "ds_flags b = section_flags t" "ds_size b = sec_size t"
proof -
  have groups: "group_relocations m = []" by (simp add: group_relocations_def m)
  then have count: "table_count m = 1" by (simp add: table_count_def m)
  have len: "length hs = 5" using m(3) count by (simp add: offset_only_def elf_headers_def)
  then obtain h0 h1 h2 h3 h4 where hs: "hs = [h0, h1, h2, h3, h4]"
    by (auto simp: length_Suc_conv numeral_eq_Suc)
  have "sh_type h0 = 0" using m(4) by (simp add: hs default_header_def)
  moreover have "sh_type h1 = section_type t" "sh_flags h1 = section_flags t" "sh_size h1 = sec_size t"
    using final_header [OF m(3), of 0] by (auto simp: hs count plain_headers_def m header_of_section_def)
  moreover have "sh_type h2 = 2" "sh_type h3 = 3" "sh_type h4 = 3"
    using final_header [OF m(3), of 1] final_header [OF m(3), of 2] final_header [OF m(3), of 3] last_headers [of m]
    by (auto simp: hs count numeral_eq_Suc)
  ultimately show thesis by (intro that [of "dump_of h0 []" "dump_of h1 (sec_name t)" "dump_of h2 ''.symtab''" "dump_of h3 ''.strtab''" "dump_of h4 ''.shstrtab''"])
      (simp_all add: hs names dump_of_def)
qed

text \<open>A local symbol without type is a label, the global function at the start is the function.\<close>

lemma leaf_symbol_views:
  "is_function_symbol 1 (symbol_view \<lparr>sym_id = i, sym_name = n, sym_binding = BindGlobal, sym_kind = KindFunction,
     sym_section = Some 0, sym_value = 0, sym_size = sz\<rparr>) \<longleftrightarrow> n \<noteq> []"
  "\<not> is_function_symbol 1 (symbol_view (label_symbol i l))"
  "\<not> is_function_symbol 1 null_symbol" "\<not> is_label_symbol 1 sz n null_symbol"
  "is_label_symbol 1 sz n (symbol_view (label_symbol i l)) \<longleftrightarrow> fl_name l \<noteq> [] \<and> fl_offset l \<le> sz \<and> fl_name l \<noteq> n"
  "\<not> is_label_symbol 1 sz n' (symbol_view \<lparr>sym_id = i, sym_name = n, sym_binding = BindGlobal, sym_kind = KindFunction,
     sym_section = Some 0, sym_value = 0, sym_size = sz'\<rparr>)"
  unfolding is_function_symbol_def is_label_symbol_def symbol_info_bits
  by (simp_all add: label_symbol_def symbol_view_def null_symbol_def symbol_bind_def)

lemma label_views:
  "\<forall>l\<in>set ls. fl_name l \<noteq> [] \<and> fl_offset l \<le> sz \<and> fl_name l \<noteq> n \<Longrightarrow>
     filter (is_label_symbol 1 sz n) (map symbol_view (label_symbols i ls)) = map symbol_view (label_symbols i ls)"
  "find (is_function_symbol 1) (map symbol_view (label_symbols i ls) @ vs) = find (is_function_symbol 1) vs"
  "map (\<lambda>s. \<lparr>ol_name = dy_name s, ol_offset = dy_value s\<rparr>) (map symbol_view (label_symbols i ls)) =
     map (\<lambda>l. \<lparr>ol_name = fl_name l, ol_offset = fl_offset l\<rparr>) ls"
  "filter (\<lambda>s. sym_binding s = BindLocal) (label_symbols i ls) = label_symbols i ls"
  "filter (\<lambda>s. sym_binding s = BindGlobal) (label_symbols i ls) = []"
  by (induction ls arbitrary: i)
     (simp_all add: label_symbols_Nil label_symbols_Cons leaf_symbol_views(2,5), simp_all add: label_symbol_def symbol_view_def)

lemma extract_leaf:
  assumes n: "n \<noteq> []" "n \<notin> fl_name ` set ls" "distinct (map fl_name ls)"
    and ls: "\<forall>l\<in>set ls. fl_name l \<noteq> [] \<and> fl_offset l \<le> of_nat (length bs)"
    and nul: "NUL \<notin> set n" "\<forall>l\<in>set ls. NUL \<notin> set (fl_name l)" and bs: "bs \<noteq> []" "length bs < 2 ^ 32"
    and m: "build_rv64_text_object_module [leaf_function n bs ls] = Some m"
    and img: "write_rv64_relocatable_elf_object m = Inr (Some img)" "length img < 2 ^ 32"
  shows "extract_supported_rv64_object img = Inr \<lparr>eo_function_name = n, eo_text_bytes = bs,
    eo_local_labels = sort_key (\<lambda>l. (ol_offset l, ol_name l)) (map (\<lambda>l. \<lparr>ol_name = fl_name l, ol_offset = fl_offset l\<rparr>) ls)\<rparr>"
proof -
  define t where "t = \<lparr>sec_id = 0, sec_name = ''.text'', sec_kind = SectionText, sec_bytes = bs, sec_size = of_nat (length bs),
    sec_align = 4, sec_alloc = True, sec_executable = True, sec_writable = False\<rparr>"
  let ?f = "\<lparr>sym_id = length ls, sym_name = n, sym_binding = BindGlobal, sym_kind = KindFunction,
       sym_section = Some 0, sym_value = 0, sym_size = of_nat (length bs)\<rparr>"
  have syms: "symbols m = label_symbols 0 ls @ [?f]" using build_leaf [OF n ls] m by (metis option.inject)
  obtain b where mod: "text_ok (m, b)" "sections m = [t]" "relocations m = []"
    using build_text [OF m] by (auto simp: leaf_function_def function_bytes_def function_fixups_def fragment_fixups_def t_def)
  have groups: "group_relocations m = []" by (simp add: group_relocations_def mod)
  have size: "unat (of_nat (length bs) :: u64) = length bs" using bs(2) by (rule small_unat_of_nat)
  have "map sym_name (symbols m) = map fl_name ls @ [n]" by (simp add: syms)
  then have "sym_name ` set (symbols m) = fl_name ` set ls \<union> {n}" by (metis list.set_map set_append list.simps(15) list.set(1))
  then have "\<forall>x\<in>sym_name ` set (symbols m). NUL \<notin> set x" using nul by auto
  then have ready: "elf_ready m"
    using mod text_ok_refs [OF mod(1)] size by (simp add: elf_ready_def table_count_def groups t_def text_ok_def)
  let ?cfg = rv64_relocatable_elf_config
  obtain hs shoff where rb: "image_sections img = Inr (map2 dump_of hs ([] # elf_names m))" "offset_only (elf_headers m) hs"
    "64 \<le> length img" "hs ! 0 = default_header"
    "take 64 img = elf_header ?cfg shoff (of_nat (table_count m + 4)) (of_nat (table_count m + 3))"
    "\<And>i. i < length (sections m) \<Longrightarrow> sec_kind (sections m ! i) \<noteq> SectionBss \<Longrightarrow> placed img (hs ! Suc i) (section_contents (sections m ! i))"
    "\<And>x. read_symbols img (map2 dump_of hs ([] # elf_names m)) (dump_of (hs ! Suc (table_count m)) x) =
       Inr (null_symbol # map symbol_view (ordered_symbols m))"
    using read_back [OF ready img(1) [unfolded write_rv64_relocatable_elf_object_def] img(2)] by metis
  have names: "elf_names m = [sec_name t, ''.symtab'', ''.strtab'', ''.shstrtab'']" by (simp add: elf_names_def mod groups)
  obtain a b' c d e where ss: "map2 dump_of hs ([] # elf_names m) = [a, b', c, d, e]"
    "b' = dump_of (hs ! 1) (sec_name t)" "c = dump_of (hs ! 2) ''.symtab''"
    "map ds_name [a, b', c, d, e] = [[], sec_name t, ''.symtab'', ''.strtab'', ''.shstrtab'']"
    "map ds_type [a, b', c, d, e] = [0, section_type t, 2, 3, 3]" "ds_flags b' = section_flags t" "ds_size b' = sec_size t"
    using leaf_sections [OF mod(2,3) rb(2,4) names] by metis
  note hf = header_fields [OF rb(3,5)]
  have rsh: "read_section_headers img shoff 64 (of_nat (table_count m + 4)) (of_nat (table_count m + 3)) = Inr [a, b', c, d, e]"
    using rb(1) by (simp add: image_sections_def hf ss(1) del: of_nat_add)
  have ft: "find_text [a, b', c, d, e] = Some (1, b')" using ss(4) by (intro find_text_second) (simp_all add: t_def)
  have fs: "find_symtab [a, b', c, d, e] = Some c" using ss(5) by (simp add: find_symtab_def section_type_def t_def)
  have syms: "read_symbols img [a, b', c, d, e] c = Inr (null_symbol # map symbol_view (label_symbols 0 ls) @ [symbol_view ?f])"
    using rb(7) [of "''.symtab''"] by (simp add: ss(1,3) table_count_def mod groups ordered_symbols_def syms label_views numeral_2_eq_2)
  have "placed img (hs ! 1) bs"
    using rb(6) [of 0] by (simp add: mod section_contents_eq size t_def)
  then have code: "unat (ds_offset b') + length bs \<le> length img" "take (length bs) (drop (unat (ds_offset b')) img) = bs"
    by (simp_all add: placed_def ss(2) dump_of_def)
  have fits: "range_fits (ds_offset b') (of_nat (length bs)) (length img)"
    using code(1) img(2) size by (subst range_fits_iff) simp_all
  have flags: "ds_flags b' AND 0x4 \<noteq> 0" by (simp add: ss(6) section_flags_def t_def)
  have sz: "ds_size b' = of_nat (length bs)" "(of_nat (length bs) :: u64) \<noteq> 0"
    using bs(1) size by (auto simp: ss(7) t_def)
  have norel: "\<not> (\<exists>s\<in>set [a, b', c, d, e]. ds_type s = 4 \<and> unat (ds_info s) = 1 \<and> ds_size s \<noteq> 0)"
    using ss(5) by (auto simp: section_type_def t_def)
  have fn: "find (is_function_symbol 1) (null_symbol # map symbol_view (label_symbols 0 ls) @ [symbol_view ?f]) = Some (symbol_view ?f)"
    using n(1) by (simp add: leaf_symbol_views label_views(2))
  have labels: "filter (is_label_symbol 1 (of_nat (length bs)) n) (null_symbol # map symbol_view (label_symbols 0 ls) @ [symbol_view ?f]) =
      map symbol_view (label_symbols 0 ls)"
    using ls n(2) label_views(1) [of ls "of_nat (length bs)" n 0] by (auto simp: leaf_symbol_views)
  have name: "dy_name (symbol_view ?f) = n" by (simp add: symbol_view_def)
  have machine: "cfg_machine ?cfg = 243" by (simp add: rv64_relocatable_elf_config_def)
  have one: "of_nat 1 = (1 :: u16)" by simp
  show ?thesis
    unfolding extract_supported_rv64_object_def hf and_then.simps rsh ft option.case prod.case fs syms machine one fn name sz labels
      label_views(3)
    using rb(3) fits flags sz(2) norel code(2) size by simp
qed

end
