(* ===== verification/Assembler_Decode.thy ===== *)
theory Assembler_Decode
  imports Assembler_Object
begin

text \<open>
  The machine code \<open>c4c-as\<close> produces, decoded by \<open>c4c-objdump\<close>: every line the parser accepts encodes to an
  instruction the decoder knows, and the jumps and branches lead to labels.
\<close>

unbundle bit_operations_syntax

section \<open>Fields of an encoded word\<close>

lemma encoded_opcode:
  "opcode_of (encode_r_type op rd f3 rs1 rs2 f7) = op AND 0x7f" "opcode_of (encode_i_type op rd f3 rs1 imm) = op AND 0x7f"
  "opcode_of (encode_s_type op f3 rs1 rs2 imm) = op AND 0x7f" "opcode_of (encode_u_type op rd imm) = op AND 0x7f"
  "opcode_of (encode_b_type op f3 rs1 rs2 imm) = op AND 0x7f" "opcode_of (encode_j_type op rd imm) = op AND 0x7f"
  unfolding encode_r_type_def encode_i_type_def encode_s_type_def encode_u_type_def encode_b_type_def encode_j_type_def
    field_of_defs field_masks Let_def
  by (rule word32_eqI; simp add: bit_simps)+

lemma encoded_funct3:
  "funct3_of (encode_r_type op rd f3 rs1 rs2 f7) = f3 AND 0x7" "funct3_of (encode_i_type op rd f3 rs1 imm) = f3 AND 0x7"
  "funct3_of (encode_s_type op f3 rs1 rs2 imm) = f3 AND 0x7" "funct3_of (encode_b_type op f3 rs1 rs2 imm) = f3 AND 0x7"
  unfolding encode_r_type_def encode_i_type_def encode_s_type_def encode_b_type_def field_of_defs field_masks Let_def
  by (rule word32_eqI; simp add: bit_simps)+

lemma encoded_funct7: "funct7_of (encode_r_type op rd f3 rs1 rs2 f7) = f7 AND 0x7f"
  unfolding encode_r_type_def field_of_defs field_masks by (rule word32_eqI; simp add: bit_simps)

lemma encoded_imm12: "drop_bit 20 (encode_i_type op rd f3 rs1 imm) AND 0xfff = imm AND 0xfff"
  unfolding encode_i_type_def field_masks by (rule word32_eqI; simp add: bit_simps)

lemma encoded_imm13: "imm13_of (encode_b_type op f3 rs1 rs2 imm) = imm AND 0x1ffe"
  unfolding encode_b_type_def imm13_of_def field_masks by (rule word32_eqI; simp add: bit_simps bit_twice flip: numeral_2_eq_2)

lemma encoded_imm21: "imm21_of (encode_j_type op rd imm) = imm AND 0x1ffffe"
  unfolding encode_j_type_def imm21_of_def field_masks by (rule word32_eqI; simp add: bit_simps bit_twice flip: numeral_2_eq_2)

text \<open>A distance that fits comes back from its bits.\<close>

lemma high_bits: "n < k \<Longrightarrow> bit d k = bit d n" if "- (2 ^ n) \<le> d" "d < 2 ^ n" for d :: int
proof -
  assume k: "n < k"
  have "signed_take_bit n d = d" using that by (rule signed_take_bit_int_eq_self)
  then have "bit d j = bit d (min n j)" for j using bit_signed_take_bit_iff [of n d j] by simp
  from this [of k] k show ?thesis by simp
qed

lemma even_bit: "d mod 2 = 0 \<Longrightarrow> \<not> bit d 0" for d :: int
  by (simp add: bit_0 even_iff_mod_2_eq_zero)

lemma restore_branch: "fits_branch_immediate d \<Longrightarrow> sign_extend (word_of_int d AND 0x1ffe) 13 = word_of_int d"
proof -
  assume d: "fits_branch_immediate d"
  have hi: "12 < k \<Longrightarrow> bit d k = bit d 12" for k
    using d by (intro high_bits [of 12 d k]) (simp_all add: fits_branch_immediate_def)
  have lo: "\<not> bit d 0" using d by (intro even_bit) (simp add: fits_branch_immediate_def)
  show ?thesis unfolding sign_extend_def by (rule word32_eqI; simp add: bit_simps hi lo)
qed

lemma restore_jump: "fits_jump_immediate d \<Longrightarrow> sign_extend (word_of_int d AND 0x1ffffe) 21 = word_of_int d"
proof -
  assume d: "fits_jump_immediate d"
  have hi: "20 < k \<Longrightarrow> bit d k = bit d 20" for k
    using d by (intro high_bits [of 20 d k]) (simp_all add: fits_jump_immediate_def)
  have lo: "\<not> bit d 0" using d by (intro even_bit) (simp add: fits_jump_immediate_def)
  show ?thesis unfolding sign_extend_def by (rule word32_eqI; simp add: bit_simps hi lo)
qed

lemma sint_small: "- (2 ^ 31) \<le> d \<Longrightarrow> d < 2 ^ 31 \<Longrightarrow> sint (word_of_int d :: u32) = d"
  by (simp add: sint_sbintrunc' signed_take_bit_int_eq_self)

section \<open>Lines the parser accepts\<close>

definition shift_line :: "i_line \<Rightarrow> bool" where
  "shift_line l \<longleftrightarrow> (\<exists>n f7 limit shamt. (n, il_opcode l, il_funct3 l, f7, limit) \<in> set shift_specs \<and>
     fits_unsigned_shift_immediate shamt limit \<and> il_immediate l = uint (push_bit 5 f7 OR word_of_int shamt))"

fun line_ok :: "asm_line \<Rightarrow> bool" where
  "line_ok (ILine l) =
     (case il_format l of
        RType \<Rightarrow> (\<exists>n. (n, il_opcode l, il_funct3 l, il_funct7 l) \<in> set r_specs)
      | IType \<Rightarrow> (\<exists>n. (n, il_opcode l, il_funct3 l) \<in> set (i_specs @ load_specs)) \<or> il_opcode l = 0x67 \<and> il_funct3 l = 0 \<or> shift_line l
      | SType \<Rightarrow> (\<exists>n. (n, il_opcode l, il_funct3 l) \<in> set store_specs)
      | UType \<Rightarrow> (\<exists>n. (n, il_opcode l) \<in> set u_specs))"
| "line_ok (BranchLine b) = (br_opcode b = 0x63 \<and> (\<exists>n. (n, br_funct3 b) \<in> set b_specs))"
| "line_ok _ = True"

lemma operands_ok:
  "(n, rspec) \<in> set r_specs \<Longrightarrow> parse_r_operands rspec ops = Some l \<Longrightarrow> line_ok l"
  "(n, ispec) \<in> set i_specs \<Longrightarrow> parse_i_operands ispec ops = Some l \<Longrightarrow> line_ok l"
  "(n, sspec) \<in> set shift_specs \<Longrightarrow> parse_shift_operands sspec ops = Some l \<Longrightarrow> line_ok l"
  "(n, ispec) \<in> set load_specs \<or> ispec = (0x67, 0) \<Longrightarrow> parse_load_operands ispec ops = Some l \<Longrightarrow> line_ok l"
  "(n, ispec) \<in> set store_specs \<Longrightarrow> parse_store_operands ispec ops = Some l \<Longrightarrow> line_ok l"
  "(n, opcode) \<in> set u_specs \<Longrightarrow> parse_u_operands opcode ops = Some l \<Longrightarrow> line_ok l"
  "(n, funct3) \<in> set b_specs \<Longrightarrow> parse_b_operands funct3 ops = Some l \<Longrightarrow> line_ok l"
  "parse_j_operands ops = Some l \<Longrightarrow> line_ok l"
  unfolding operand_defs default_i_line_def shift_line_def
  by (auto simp: shift_line_def split: option.splits list.splits if_splits prod.splits) blast+

lemma spec_found: "map_of t n = Some spec \<Longrightarrow> (n, spec) \<in> set t"
  by (rule map_of_SomeD)

lemma rv64i_line_ok: "parse_rv64i_line s = Some l \<Longrightarrow> line_ok l"
proof -
  assume p: "parse_rv64i_line s = Some l"
  obtain n ops where "split_mnemonic s = Some (n, ops)" using p by (auto simp: parse_rv64i_line_def split: option.splits)
  note p = p [unfolded parse_rv64i_line_def this option.case prod.case]
  consider (r) x where "map_of r_specs n = Some x" | (i) x where "map_of r_specs n = None" "map_of i_specs n = Some x"
    | (none) "map_of r_specs n = None" "map_of i_specs n = None" by (cases "map_of r_specs n"; cases "map_of i_specs n") auto
  then show ?thesis
  proof cases
    case none
    note p = p [unfolded none option.case]
    consider (s) x where "map_of shift_specs n = Some x" | (l) x where "map_of shift_specs n = None" "map_of load_specs n = Some x"
      | (none) "map_of shift_specs n = None" "map_of load_specs n = None"
      by (cases "map_of shift_specs n"; cases "map_of load_specs n") auto
    then show ?thesis
    proof cases
      case none
      note p = p [unfolded none option.case]
      show ?thesis
        using p operands_ok(5) [OF spec_found] operands_ok(6) [OF spec_found] operands_ok(7) [OF spec_found]
          operands_ok(4) [of n "(0x67, 0)" ops l] operands_ok(8) [of ops l]
        by (auto split: option.splits if_splits)
    next
      case s
      then show ?thesis using p operands_ok(3) [OF spec_found [OF s]] by simp
    next
      case l
      then show ?thesis using p operands_ok(4) [OF disjI1, OF spec_found [OF l(2)]] by simp
    qed
  next
    case r
    then show ?thesis using p operands_ok(1) [OF spec_found [OF r]] by simp
  next
    case i
    then show ?thesis using p operands_ok(2) [OF spec_found [OF i(2)]] by simp
  qed
qed

lemma parsed_line_ok: "parse_rv64_asm_line s = Some l \<Longrightarrow> line_ok l"
  using rv64i_line_ok [of "trim_ascii s" l]
  by (auto simp: parse_rv64_asm_line_def parse_insn_d_def parse_li_def Let_def split: option.splits if_splits list.splits)

lemma line_ok_set_target [simp]: "line_ok (set_target d l) = line_ok l"
  by (cases l) simp_all

section \<open>Encoded words decode\<close>

lemma table_fields:
  "list_all (\<lambda>(n, op, f3, f7). op AND 0x7f = op \<and> f3 AND 0x7 = f3 \<and> f7 AND 0x7f = f7 \<and> op \<noteq> 0x3f) r_specs"
  "list_all (\<lambda>(n, op, f3). op AND 0x7f = op \<and> f3 AND 0x7 = f3 \<and> op \<noteq> 0x3f) (i_specs @ load_specs @ store_specs @ [([], 0x67, 0)])"
  "list_all (\<lambda>(n, op, f3, f7, limit). op AND 0x7f = op \<and> f3 AND 0x7 = f3 \<and> op \<noteq> 0x3f) shift_specs"
  "list_all (\<lambda>(n, op). op AND 0x7f = op \<and> op \<noteq> 0x3f) u_specs" "list_all (\<lambda>(n, f3). f3 AND 0x7 = f3) b_specs"
  by code_simp+

text \<open>The words of one opcode are in at most one table.\<close>

lemma table_opcodes:
  "list_all (\<lambda>(n, op, f3, f7). op = 0x33 \<or> op = 0x3b) r_specs" "list_all (\<lambda>(n, op, f3). op = 0x13 \<or> op = 0x1b) i_specs"
  "list_all (\<lambda>(n, op, f3, f7, limit). op = 0x13 \<or> op = 0x1b) shift_specs" "list_all (\<lambda>(n, op, f3). op = 0x03) load_specs"
  "list_all (\<lambda>(n, op, f3). op = 0x23) store_specs" "list_all (\<lambda>(n, op). op = 0x37 \<or> op = 0x17) u_specs"
  "list_all (\<lambda>(n, op, f3). list_all (\<lambda>(n', op', f3', f7, limit). (op', f3') \<noteq> (op, f3)) shift_specs) i_specs"
  by code_simp+

lemma find_none: "list_all (\<lambda>x. \<not> P x) xs \<Longrightarrow> find P xs = None"
  by (auto simp: find_None_iff list_all_iff)

lemma shift_loop_none: "list_all (\<lambda>(n, op, f3, f7, limit). (op, f3) \<noteq> (opcode_of w, funct3_of w)) specs \<Longrightarrow> shift_loop w specs = None"
  by (induction specs) auto

lemma no_r: "opcode_of w \<notin> {0x33, 0x3b} \<Longrightarrow>
    find (\<lambda>(n, opcode, funct3, funct7). opcode_of w = opcode \<and> funct3_of w = funct3 \<and> funct7_of w = funct7) r_specs = None"
  using table_opcodes(1) by (intro find_none) (auto simp: list_all_iff)

lemma no_i: "opcode_of w \<notin> {0x13, 0x1b} \<Longrightarrow>
    find (\<lambda>(n, opcode, funct3). opcode_of w = opcode \<and> funct3_of w = funct3) i_specs = None"
  using table_opcodes(2) by (intro find_none) (auto simp: list_all_iff)

lemma no_shift: "opcode_of w \<notin> {0x13, 0x1b} \<Longrightarrow> shift_loop w shift_specs = None"
  using table_opcodes(3) by (intro shift_loop_none) (auto simp: list_all_iff)

lemma find_some: "x \<in> set xs \<Longrightarrow> P x \<Longrightarrow> \<exists>y. find P xs = Some y"
  by (cases "find P xs") (auto simp: find_None_iff)

definition decodes :: "u32 \<Rightarrow> bool" where
  "decodes w \<longleftrightarrow> (\<exists>i. decode_rv64i w = Some i \<and> \<not> has_target i)"

lemma decode_other:
  assumes "opcode_of w \<notin> {0x33, 0x3b}" "opcode_of w \<notin> {0x13, 0x1b}"
  shows "decode_rv64i w =
     (if opcode_of w = 0x67 \<and> funct3_of w = 0 then
        Some ((decoded_default JalrForm ''jalr'')\<lparr>di_destination := rd_of w, di_lhs := rs1_of w,
                di_immediate := signed_drop_bit 20 w\<rparr>)
      else if opcode_of w = 0x6f then
        Some ((decoded_default JalForm ''jal'')\<lparr>di_destination := rd_of w,
                di_immediate := sign_extend (imm21_of w) 21\<rparr>)
      else
        (case (if opcode_of w = 0x63 then find (\<lambda>(n, funct3). funct3_of w = funct3) b_specs else None) of
           Some (n, _) \<Rightarrow> Some ((decoded_default BranchForm n)\<lparr>di_lhs := rs1_of w, di_rhs := rs2_of w,
                             di_immediate := sign_extend (imm13_of w) 13\<rparr>)
         | None \<Rightarrow> decode_rv64i_tail w))"
  by (simp only: decode_rv64i_def spec_tables_agree no_r [OF assms(1)] no_i [OF assms(2)] no_shift [OF assms(2)] option.case)

lemma decodes_r: "(n, opcode_of w, funct3_of w, funct7_of w) \<in> set r_specs \<Longrightarrow> decodes w"
  using find_some [of "(n, opcode_of w, funct3_of w, funct7_of w)" r_specs
      "\<lambda>(n, opcode, funct3, funct7). opcode_of w = opcode \<and> funct3_of w = funct3 \<and> funct7_of w = funct7"]
  by (auto simp: decodes_def decode_rv64i_def spec_tables_agree has_target_def decoded_default_def)

lemma decodes_i: "(n, opcode_of w, funct3_of w) \<in> set i_specs \<Longrightarrow> decodes w"
proof -
  assume mem: "(n, opcode_of w, funct3_of w) \<in> set i_specs"
  have r: "opcode_of w \<notin> {0x33, 0x3b}" using mem table_opcodes(2) by (auto simp: list_all_iff)
  have s: "shift_loop w shift_specs = None"
    using mem table_opcodes(7) by (intro shift_loop_none) (auto simp: list_all_iff)
  obtain x where x: "find (\<lambda>(n, opcode, funct3). opcode_of w = opcode \<and> funct3_of w = funct3) i_specs = Some x"
    using find_some [OF mem, of "\<lambda>(n, opcode, funct3). opcode_of w = opcode \<and> funct3_of w = funct3"] by auto
  show ?thesis
    unfolding decodes_def decode_rv64i_def spec_tables_agree no_r [OF r] s x option.case
    by (cases x) (simp add: has_target_def decoded_default_def)
qed

lemma decodes_jalr: "opcode_of w = 0x67 \<Longrightarrow> funct3_of w = 0 \<Longrightarrow> decodes w"
  by (simp add: decodes_def decode_other has_target_def decoded_default_def)

lemma tail_decodes: "opcode_of w \<in> {0x03, 0x23, 0x37, 0x17} \<Longrightarrow> decode_rv64i_tail w \<noteq> None \<Longrightarrow> decodes w"
proof -
  assume op: "opcode_of w \<in> {0x03, 0x23, 0x37, 0x17}" and "decode_rv64i_tail w \<noteq> None"
  then obtain i where i: "decode_rv64i_tail w = Some i" by blast
  have "opcode_of w \<notin> {0x33, 0x3b}" "opcode_of w \<notin> {0x13, 0x1b}" "opcode_of w \<noteq> 0x67" "opcode_of w \<noteq> 0x6f" "opcode_of w \<noteq> 0x63"
    using op by auto
  then have "decode_rv64i w = decode_rv64i_tail w"
    by (simp add: decode_other)
  then show ?thesis using i reassemble_tail [OF i] by (simp add: decodes_def)
qed

lemma decodes_load: "(n, opcode_of w, funct3_of w) \<in> set load_specs \<Longrightarrow> decodes w"
  using find_some [of "(n, opcode_of w, funct3_of w)" load_specs "\<lambda>(n, opcode, funct3). opcode_of w = opcode \<and> funct3_of w = funct3"]
    table_opcodes(4) by (intro tail_decodes) (auto simp: decode_rv64i_tail_def spec_tables_agree list_all_iff split: option.splits)

lemma decodes_store: "(n, opcode_of w, funct3_of w) \<in> set store_specs \<Longrightarrow> decodes w"
  using find_some [of "(n, opcode_of w, funct3_of w)" store_specs "\<lambda>(n, opcode, funct3). opcode_of w = opcode \<and> funct3_of w = funct3"]
    table_opcodes(5) by (intro tail_decodes) (auto simp: decode_rv64i_tail_def spec_tables_agree list_all_iff split: option.splits)

lemma decodes_u: "(n, opcode_of w) \<in> set u_specs \<Longrightarrow> decodes w"
  using find_some [of "(n, opcode_of w)" u_specs "\<lambda>(n, opcode). opcode_of w = opcode"]
    table_opcodes(6) by (intro tail_decodes) (auto simp: decode_rv64i_tail_def spec_tables_agree list_all_iff split: option.splits)

lemma decodes_jal: "opcode_of w = 0x6f \<Longrightarrow> \<exists>i. decode_rv64i w = Some i \<and> has_target i \<and> di_immediate i = sign_extend (imm21_of w) 21"
  by (simp add: decode_other has_target_def decoded_default_def)

lemma decodes_branch: "opcode_of w = 0x63 \<Longrightarrow> (n, funct3_of w) \<in> set b_specs \<Longrightarrow>
    \<exists>i. decode_rv64i w = Some i \<and> has_target i \<and> di_immediate i = sign_extend (imm13_of w) 13"
  using find_some [of "(n, funct3_of w)" b_specs "\<lambda>(n, funct3). funct3_of w = funct3"]
  by (auto simp: decode_other has_target_def decoded_default_def)

lemma shift_not_rejected: "shift_loop w shift_specs \<noteq> Some None"
proof
  assume "shift_loop w shift_specs = Some None"
  from shift_loop_some [OF this] obtain n op f3 f7 limit where
    "(n, op, f3, f7, limit) \<in> set shift_specs" "(drop_bit 20 w AND 0xfff) AND (if limit = 63 then 0x3f else 0x1f) > limit"
    by (auto simp: Let_def split: if_splits)
  moreover have "limit = 63 \<or> limit = 31" using calculation(1) by (auto simp: shift_specs_def)
  ultimately show False
    using word_and_le1 [of "drop_bit 20 w AND 0xfff" "0x3f"] word_and_le1 [of "drop_bit 20 w AND 0xfff" "0x1f"] by auto
qed

lemma shift_loop_hit:
  "(n, opcode_of w, funct3_of w, f7, limit) \<in> set specs \<Longrightarrow>
     (drop_bit 20 w AND 0xfff) AND NOT (if limit = 63 then 0x3f else 0x1f) = push_bit 5 f7 \<Longrightarrow> shift_loop w specs \<noteq> None"
proof (induction specs)
  case (Cons s specs)
  obtain n' op f3 f7' lim where "s = (n', op, f3, f7', lim)" by (cases s) auto
  with Cons show ?case by (auto simp: Let_def)
qed simp

lemma decodes_shift:
  assumes spec: "(n, opcode_of w, funct3_of w, f7, limit) \<in> set shift_specs"
    and imm: "drop_bit 20 w AND 0xfff = push_bit 5 f7 OR shamt" and shamt: "shamt \<le> limit"
  shows "decodes w"
proof -
  let ?m = "if limit = 63 then 0x3f else 0x1f :: u32"
  have op: "opcode_of w \<notin> {0x33, 0x3b}" using spec table_opcodes(3) by (auto simp: list_all_iff)
  have f7: "push_bit 5 f7 AND NOT ?m = push_bit 5 f7" and lim: "limit = ?m"
    using spec by (auto simp: shift_specs_def)
  have "limit = 63 \<or> limit = 31" using spec by (auto simp: shift_specs_def)
  then have "shamt AND ?m = shamt"
    using shamt mask_eq_iff [of shamt 6] mask_eq_iff [of shamt 5] by (auto simp: word_le_def mask_eq_exp_minus_1)
  then have "shamt AND NOT ?m = 0"
    by (metis and.assoc and_zero_eq bit.conj_cancel_right)
  then have "(drop_bit 20 w AND 0xfff) AND NOT ?m = push_bit 5 f7"
    unfolding imm bit.conj_disj_distrib2 f7 by simp
  from shift_loop_hit [OF spec this] obtain r where r: "shift_loop w shift_specs = Some r" by blast
  then obtain i where i: "shift_loop w shift_specs = Some (Some i)" using shift_not_rejected [of w] by (cases r) auto
  have "\<not> has_target i"
    using shift_loop_some [OF i] by (auto simp: Let_def has_target_def decoded_default_def split: if_splits)
  then show ?thesis
    unfolding decodes_def decode_rv64i_def spec_tables_agree no_r [OF op] i option.case by simp
qed

section \<open>Encoded lines\<close>

lemma bit_bound: "bit (x :: u32) j \<Longrightarrow> uint x < 2 ^ n \<Longrightarrow> j < n"
proof -
  assume "bit x j" "uint x < 2 ^ n"
  then have "x AND mask n = x" by (simp add: mask_eq_iff)
  with \<open>bit x j\<close> have "bit (x AND mask n) j" by simp
  then show "j < n" by (simp add: bit_simps)
qed

lemma insn_d_decodes: "encode_insn_d_word d = Some w \<Longrightarrow> decode_insn_d w \<noteq> None"
proof -
  assume "encode_insn_d_word d = Some w"
  moreover define rd rs1 rs2 rs4 where regs: "rd = reg_index (id_destination d)" "rs1 = reg_index (id_lhs d)"
    "rs2 = reg_index (id_rhs d)" "rs4 = reg_index (id_accumulator d)"
  ultimately have le: "rd \<le> 31" "rs1 \<le> 31" "rs2 \<le> 31" "rs4 \<le> 31" "id_major d \<le> 0x7f" "id_operation d \<le> 0xff"
    and w: "w = 0x3f OR push_bit 7 (ucast rd) OR push_bit 15 (ucast rs1) OR push_bit 20 (ucast rs2) OR
            push_bit 25 (ucast (id_major d)) OR push_bit 32 (ucast (id_operation d)) OR
            push_bit 40 (ucast rs4) OR push_bit 48 (ucast (id_dtype d))"
    by (auto simp: encode_insn_d_word_def register_field_def not_less split: option.splits if_splits)
  have b: "bit rd j \<Longrightarrow> j < 5" "bit rs1 j \<Longrightarrow> j < 5" "bit rs2 j \<Longrightarrow> j < 5" "bit rs4 j \<Longrightarrow> j < 5" "bit (id_major d) j \<Longrightarrow> j < 7"
    "bit (id_operation d) j \<Longrightarrow> j < 8" for j
    using le by (auto elim!: bit_bound simp: word_le_def)
  have masks: "(0x3f :: u64) = mask 6" "(0x7f :: u64) = mask 7" "(0x7 :: u64) = mask 3" by (simp_all add: mask_eq_exp_minus_1)
  have "w AND 0x7f = 0x3f" unfolding w masks by (rule bit_word_eqI) (auto simp: bit_simps)
  moreover have "drop_bit 12 w AND 0x7 = 0" unfolding w masks by (rule bit_word_eqI) (auto simp: bit_simps dest!: b)
  moreover have "drop_bit 45 w AND 0x7 = 0" unfolding w masks by (rule bit_word_eqI) (auto simp: bit_simps dest!: b)
  ultimately show ?thesis by (simp add: decode_insn_d_def)
qed

fun line_distance :: "asm_line \<Rightarrow> int" where
  "line_distance (BranchLine b) = br_immediate b"
| "line_distance (JumpLine j) = jp_immediate j"
| "line_distance _ = 0"

definition short_code :: "asm_line \<Rightarrow> u32 \<Rightarrow> bool" where
  "short_code l w \<longleftrightarrow> opcode_of w \<noteq> 0x3f \<and>
     (if line_target l = None then decodes w
      else \<exists>i. decode_rv64i w = Some i \<and> has_target i \<and> sint (di_immediate i) = line_distance l)"

lemmas encoded_fields = encoded_opcode encoded_funct3 encoded_funct7

lemma i_line_code:
  assumes "line_ok (ILine l)" "encode_i_line l = Some bs"
  shows "\<exists>w. bs = le_bytes 4 w \<and> short_code (ILine l) w"
proof (cases "il_format l")
  case RType
  then obtain rd rs1 rs2 where bs: "bs = le_bytes 4 (encode_r_type (il_opcode l) rd (il_funct3 l) rs1 rs2 (il_funct7 l))"
    using assms(2) by (auto simp: encode_i_line_def Let_def append_le32_le split: option.splits)
  obtain n where n: "(n, il_opcode l, il_funct3 l, il_funct7 l) \<in> set r_specs" using assms(1) RType by auto
  with table_fields(1) have "decodes (encode_r_type (il_opcode l) rd (il_funct3 l) rs1 rs2 (il_funct7 l))" "il_opcode l AND 0x7f \<noteq> 0x3f"
    by (auto intro!: decodes_r [of n] simp: encoded_fields list_all_iff)
  with bs show ?thesis by (auto simp: short_code_def encoded_fields)
next
  case IType
  then obtain rd rs1 where bs: "bs = le_bytes 4 (encode_i_type (il_opcode l) rd (il_funct3 l) rs1 (word_of_int (il_immediate l)))"
    using assms(2) by (auto simp: encode_i_line_def Let_def append_le32_le split: option.splits if_splits)
  let ?w = "encode_i_type (il_opcode l) rd (il_funct3 l) rs1 (word_of_int (il_immediate l))"
  have "decodes ?w \<and> il_opcode l AND 0x7f \<noteq> 0x3f"
  proof -
    consider (i) n where "(n, il_opcode l, il_funct3 l) \<in> set i_specs" | (load) n where "(n, il_opcode l, il_funct3 l) \<in> set load_specs"
      | (jalr) "il_opcode l = 0x67" "il_funct3 l = 0" | (shift) "shift_line l"
      using assms(1) IType by auto
    then show ?thesis
    proof cases
      case i
      with in_spec_table [OF table_fields(2), of "(n, il_opcode l, il_funct3 l)"] show ?thesis
        by (auto intro!: decodes_i [of n] simp: encoded_fields)
    next
      case load
      with in_spec_table [OF table_fields(2), of "(n, il_opcode l, il_funct3 l)"] show ?thesis
        by (auto intro!: decodes_load [of n] simp: encoded_fields)
    next
      case jalr
      then show ?thesis by (auto intro!: decodes_jalr simp: encoded_fields)
    next
      case shift
      then obtain n f7 limit shamt where s: "(n, il_opcode l, il_funct3 l, f7, limit) \<in> set shift_specs"
        "fits_unsigned_shift_immediate shamt limit" "il_immediate l = uint (push_bit 5 f7 OR word_of_int shamt)"
        by (auto simp: shift_line_def)
      have small: "limit \<le> 63" "push_bit 5 f7 = 0 \<or> push_bit 5 f7 = 0x400" using s(1) by (auto simp: shift_specs_def)
      have "uint limit \<le> 63" using small(1) by (simp add: word_le_def)
      then have sh: "uint (word_of_int shamt :: u32) = shamt" using s(2)
        by (simp add: fits_unsigned_shift_immediate_def uint_word_of_int take_bit_int_eq_self)
      then have le: "word_of_int shamt \<le> limit" using s(2) by (simp add: word_le_def fits_unsigned_shift_immediate_def)
      have "uint (push_bit 5 f7 OR word_of_int shamt) < 2 ^ 12"
        unfolding uint_or using small sh s(2) \<open>uint limit \<le> 63\<close> by (intro OR_upper) (auto simp: fits_unsigned_shift_immediate_def)
      then have "(push_bit 5 f7 OR word_of_int shamt) AND mask 12 = push_bit 5 f7 OR word_of_int shamt" by (simp only: mask_eq_iff)
      then have imm: "drop_bit 20 ?w AND 0xfff = push_bit 5 f7 OR word_of_int shamt"
        unfolding encoded_imm12 s(3) word_of_int_uint by (simp add: mask_eq_exp_minus_1)
      have fs: "il_opcode l AND 0x7f = il_opcode l" "il_funct3 l AND 0x7 = il_funct3 l" "il_opcode l \<noteq> 0x3f"
        using s(1) table_fields(3) by (auto simp: list_all_iff)
      with decodes_shift [OF _ imm le, of n] s(1) show ?thesis by (simp add: encoded_fields)
    qed
  qed
  with bs show ?thesis by (auto simp: short_code_def encoded_fields)
next
  case SType
  then obtain rs1 rs2 where bs: "bs = le_bytes 4 (encode_s_type (il_opcode l) (il_funct3 l) rs1 rs2 (word_of_int (il_immediate l)))"
    using assms(2) by (auto simp: encode_i_line_def Let_def append_le32_le split: option.splits if_splits)
  obtain n where n: "(n, il_opcode l, il_funct3 l) \<in> set store_specs" using assms(1) SType by auto
  with in_spec_table [OF table_fields(2), of "(n, il_opcode l, il_funct3 l)"]
  have "decodes (encode_s_type (il_opcode l) (il_funct3 l) rs1 rs2 (word_of_int (il_immediate l)))" "il_opcode l AND 0x7f \<noteq> 0x3f"
    by (auto intro!: decodes_store [of n] simp: encoded_fields)
  with bs show ?thesis by (auto simp: short_code_def encoded_fields)
next
  case UType
  then obtain rd where bs: "bs = le_bytes 4 (encode_u_type (il_opcode l) rd (word_of_int (il_immediate l)))"
    using assms(2) by (auto simp: encode_i_line_def Let_def append_le32_le split: option.splits if_splits)
  obtain n where n: "(n, il_opcode l) \<in> set u_specs" using assms(1) UType by auto
  with table_fields(4) have "decodes (encode_u_type (il_opcode l) rd (word_of_int (il_immediate l)))" "il_opcode l AND 0x7f \<noteq> 0x3f"
    by (auto intro!: decodes_u [of n] simp: encoded_fields list_all_iff)
  with bs show ?thesis by (auto simp: short_code_def encoded_fields)
qed

lemma line_code:
  assumes "line_ok l" "encode_rv64_asm_line l = Some bs"
  shows "(\<exists>w d. bs = le_bytes 8 w \<and> decode_insn_d w = Some d \<and> line_target l = None) \<or> (\<exists>w. bs = le_bytes 4 w \<and> short_code l w)"
proof (cases l)
  case (InsnDLine d)
  then show ?thesis
    using assms(2) insn_d_decodes [of d] by (auto simp: append_le64_le split: option.splits)
next
  case (LiLine rd imm)
  then obtain r where bs: "bs = le_bytes 4 (encode_i_type 0x13 r 0 0 (word_of_int imm))"
    using assms(2) by (auto simp: append_le32_le split: option.splits if_splits)
  have "decodes (encode_i_type 0x13 r 0 0 (word_of_int imm))"
    by (rule decodes_i [of "''addi''"]) (simp add: encoded_fields i_specs_def)
  with bs LiLine show ?thesis by (auto simp: short_code_def encoded_fields)
next
  case RetLine
  have "decodes (encode_i_type 0x67 0 0 1 0)" by (rule decodes_jalr) (simp_all add: encoded_fields)
  with RetLine assms(2) show ?thesis by (auto simp: short_code_def encoded_fields append_le32_le)
next
  case (ILine i)
  then show ?thesis using assms i_line_code by simp
next
  case (BranchLine b)
  then obtain rs1 rs2 where bs: "bs = le_bytes 4 (encode_b_type (br_opcode b) (br_funct3 b) rs1 rs2 (word_of_int (br_immediate b)))"
    and fits: "fits_branch_immediate (br_immediate b)"
    using assms(2) by (auto simp: append_le32_le split: option.splits if_splits)
  let ?w = "encode_b_type (br_opcode b) (br_funct3 b) rs1 rs2 (word_of_int (br_immediate b))"
  obtain n where n: "br_opcode b = 0x63" "(n, br_funct3 b) \<in> set b_specs" using assms(1) BranchLine by auto
  have f3: "br_funct3 b AND 0x7 = br_funct3 b" using in_spec_table [OF table_fields(5) n(2)] by simp
  have op: "opcode_of ?w = 0x63" using n(1) by (simp add: encoded_fields)
  obtain i where i: "decode_rv64i ?w = Some i" "has_target i" "di_immediate i = sign_extend (imm13_of ?w) 13"
    using decodes_branch [of ?w n] n f3 op by (auto simp: encoded_fields)
  have "sint (di_immediate i) = br_immediate b"
    unfolding i(3) encoded_imm13 restore_branch [OF fits] using fits by (intro sint_small) (simp_all add: fits_branch_immediate_def)
  with bs i op BranchLine show ?thesis by (auto simp: short_code_def)
next
  case (JumpLine j)
  then obtain rd where bs: "bs = le_bytes 4 (encode_j_type 0x6f rd (word_of_int (jp_immediate j)))"
    and fits: "fits_jump_immediate (jp_immediate j)"
    using assms(2) by (auto simp: append_le32_le split: option.splits if_splits)
  let ?w = "encode_j_type 0x6f rd (word_of_int (jp_immediate j))"
  have op: "opcode_of ?w = 0x6f" by (simp add: encoded_fields)
  obtain i where i: "decode_rv64i ?w = Some i" "has_target i" "di_immediate i = sign_extend (imm21_of ?w) 21"
    using decodes_jal [OF op] by auto
  have "sint (di_immediate i) = jp_immediate j"
    unfolding i(3) encoded_imm21 restore_jump [OF fits] using fits by (intro sint_small) (simp_all add: fits_jump_immediate_def)
  with bs i op JumpLine show ?thesis by (auto simp: short_code_def)
qed

section \<open>Decoding at a place\<close>

lemma low_byte_opcode:
  assumes "(ucast (v :: u64) :: u8) = ucast (w :: u32)" "v AND 0x7f = 0x3f"
  shows "opcode_of w = 0x3f"
proof -
  have masks: "(0x3f :: u64) = mask 6" "(0x7f :: u64) = mask 7" "(0x3f :: u32) = mask 6" "(0x7f :: u32) = mask 7"
    by (simp_all add: mask_eq_exp_minus_1)
  have low: "bit w j = bit v j" if "j < 7" for j
  proof -
    have "bit (ucast w :: u8) j = bit (ucast v :: u8) j" using assms(1) by simp
    then show ?thesis using that by (simp add: bit_simps)
  qed
  have eq: "v AND mask 7 = mask 6" using assms(2) unfolding masks .
  have v: "bit v j = (j < 6)" if "j < 7" for j
  proof -
    have "bit (v AND mask 7) j = bit (mask 6 :: u64) j" by (simp only: eq)
    then show ?thesis using that by (simp add: bit_and_iff bit_mask_iff)
  qed
  show ?thesis unfolding opcode_of_def masks by (rule bit_word_eqI) (auto simp: bit_simps low v)
qed

text \<open>The code of a line at a place in the text decodes there, if a target it has is a label.\<close>

lemma decode_line_at:
  assumes ok: "line_ok l" "encode_rv64_asm_line l = Some bs"
    and at: "off + length bs \<le> length (eo_text_bytes obj)" "take (length bs) (drop off (eo_text_bytes obj)) = bs"
    and target: "line_target l \<noteq> None \<Longrightarrow> \<exists>t. int off + line_distance l = int t \<and> t \<le> length (eo_text_bytes obj) \<and> label_for_offset obj t \<noteq> None"
  shows "\<exists>i. decode_at obj off = Inr (i, off + length bs)"
proof -
  let ?text = "eo_text_bytes obj"
  consider (wide) w d where "bs = le_bytes 8 w" "decode_insn_d w = Some d" | (short) w where "bs = le_bytes 4 w" "short_code l w"
    using line_code [OF ok] by blast
  then show ?thesis
  proof cases
    case wide
    then have "read_u64_at ?text off = Inr w" using at by (intro t64.read_word) simp_all
    then show ?thesis using wide at(1) by (simp add: decode_at_def)
  next
    case short
    have r: "read_u32_at ?text off = Inr w" using at short(1) by (intro t32.read_word) simp_all
    have "\<exists>i. decode_short obj off = Inr (i, off + 4)"
    proof (cases "line_target l")
      case None
      then obtain i where i: "decode_rv64i w = Some i" "\<not> has_target i" using short(2) by (auto simp: short_code_def decodes_def)
      then have "name_target obj off i = Inr i" by (simp add: name_target_def has_target_def)
      with i r at(1) short(1) show ?thesis by (auto simp: decode_short_def split: option.split)
    next
      case (Some n)
      then obtain i where i: "decode_rv64i w = Some i" "has_target i" "sint (di_immediate i) = line_distance l"
        using short(2) by (auto simp: short_code_def)
      obtain t where t: "int off + line_distance l = int t" "t \<le> length ?text" "label_for_offset obj t \<noteq> None"
        using target Some by auto
      then have "relative_target_offset off (di_immediate i) (length ?text) = Some t"
        by (simp add: relative_target_offset_def i(3))
      then obtain i' where "name_target obj off i = Inr i'" using i(2) t(3) by (auto simp: name_target_def has_target_def)
      with i r at(1) short(1) show ?thesis by (auto simp: decode_short_def split: option.split)
    qed
    moreover have "decode_insn_d v = None" if "off + 8 \<le> length ?text" "read_u64_at ?text off = Inr v" for v
    proof -
      have "take 8 (drop off ?text) = le_bytes 8 v" using that by (rule t64.read_bytes)
      then have "hd (le_bytes 8 v) = hd (take 8 (drop off ?text))" by (simp only:)
      also have "\<dots> = hd (take 4 (drop off ?text))" using that(1) by (simp add: take_Suc)
      also have "\<dots> = hd (le_bytes 4 w)" using at(2) short(1) by (metis length_le_bytes)
      finally have "hd (le_bytes 8 v) = hd (le_bytes 4 w)" .
      then have "(ucast v :: u8) = ucast w" by (simp add: le_bytes_def upt_rec)
      then show ?thesis using low_byte_opcode [of v w] short(2) by (auto simp: decode_insn_d_def short_code_def)
    qed
    ultimately show ?thesis
      using short(1) t64.read_total [of off ?text] by (auto simp: decode_at_def)
  qed
qed

end
