(* ===== verification/Assembler_Correct.thy ===== *)
theory Assembler_Correct
  imports Assembler_Decode
begin

text \<open>
  \<open>c4c-as\<close> and \<open>c4c-objdump\<close> together: from every source the assembler accepts it writes an object file,
  and the disassembler extracts from it the function, its code and its labels and decodes the code
  to as many instructions as the source has.
\<close>

section \<open>Offsets\<close>

definition line_size :: "asm_line \<Rightarrow> nat" where
  "line_size l = (case l of InsnDLine _ \<Rightarrow> 8 | _ \<Rightarrow> 4)"

definition code_offset :: "asm_line list \<Rightarrow> nat \<Rightarrow> nat" where
  "code_offset ls k = sum_list (map line_size (take k ls))"

lemma line_size_bytes: "rv64_asm_line_size_bytes l = Some (of_nat (line_size l))"
  by (cases l) (simp_all add: line_size_def)

lemma line_size_encoded: "encode_rv64_asm_line l = Some bs \<Longrightarrow> length bs = line_size l"
  by (cases l) (auto simp: line_size_def append_le32_le append_le64_le encode_i_line_def Let_def
      split: option.splits if_splits i_format.splits)

lemma line_size_set_target [simp]: "line_size (set_target d l) = line_size l"
  by (cases l) (simp_all add: line_size_def)

lemma code_offset_snoc: "k \<le> length ls \<Longrightarrow> code_offset (ls @ [l]) k = code_offset ls k"
  by (simp add: code_offset_def)

lemma code_offset_all: "code_offset (ls @ [l]) (Suc (length ls)) = code_offset ls (length ls) + line_size l"
  by (simp add: code_offset_def)

section \<open>What the parser leaves\<close>

definition result_ok :: "parse_result \<Rightarrow> bool" where
  "result_ok p \<longleftrightarrow> (let ls = map ai_parsed (pr_instructions p) in
     map ai_offset (pr_instructions p) = map (\<lambda>k. of_nat (code_offset ls k)) [0..<length ls] \<and>
     (\<forall>l\<in>set (pr_labels p). is_valid_symbol (al_name l) \<and> (\<exists>k\<le>length ls. al_offset l = of_nat (code_offset ls k))) \<and>
     distinct (map al_name (pr_labels p)) \<and> list_all is_valid_symbol (pr_globals p) \<and> list_all line_ok ls)"

definition state_ok :: "parse_state \<Rightarrow> bool" where
  "state_ok st \<longleftrightarrow> (let p = ps_result st; ls = map ai_parsed (pr_instructions p) in
     result_ok p \<and> ps_offset st = of_nat (code_offset ls (length ls)) \<and> ps_seen st = al_name ` set (pr_labels p))"

lemma parse_instruction_ok:
  assumes "state_ok st" "parse_instruction n line st = Inr st'"
  shows "state_ok st'"
proof -
  obtain l where l: "parse_rv64_asm_line line = Some l"
    and st': "st' = st\<lparr>ps_offset := ps_offset st + of_nat (line_size l),
      ps_result := (ps_result st)\<lparr>pr_instructions := pr_instructions (ps_result st) @
        [\<lparr>ai_line = n, ai_offset = ps_offset st, ai_parsed = l\<rparr>]\<rparr>\<rparr>"
    using assms(2) by (auto simp: parse_instruction_def line_size_bytes Let_def split: if_splits option.splits)
  define ls where "ls = map ai_parsed (pr_instructions (ps_result st))"
  have ls': "map ai_parsed (pr_instructions (ps_result st')) = ls @ [l]" by (simp add: st' ls_def)
  have old: "map ai_offset (pr_instructions (ps_result st)) = map (\<lambda>k. of_nat (code_offset ls k)) [0..<length ls]"
    "\<forall>x\<in>set (pr_labels (ps_result st)). is_valid_symbol (al_name x) \<and> (\<exists>k\<le>length ls. al_offset x = of_nat (code_offset ls k))"
    "ps_offset st = of_nat (code_offset ls (length ls))"
    using assms(1) by (simp_all add: state_ok_def result_ok_def Let_def ls_def)
  have "map (\<lambda>k. of_nat (code_offset (ls @ [l]) k)) [0..<length ls] = (map (\<lambda>k. of_nat (code_offset ls k)) [0..<length ls] :: u64 list)"
    by (simp add: code_offset_snoc)
  then have "map ai_offset (pr_instructions (ps_result st')) = map (\<lambda>k. of_nat (code_offset (ls @ [l]) k)) [0..<length (ls @ [l])]"
    using old(1,3) by (simp add: st' code_offset_snoc)
  moreover have "\<exists>k\<le>length (ls @ [l]). al_offset x = of_nat (code_offset (ls @ [l]) k)"
    if "x \<in> set (pr_labels (ps_result st))" for x
    using old(2) that code_offset_snoc [of _ ls l] by (metis le_Suc_eq length_append_singleton)
  moreover have "ps_offset st' = of_nat (code_offset (ls @ [l]) (length (ls @ [l])))"
    using old(3) by (simp add: st' code_offset_all)
  ultimately show ?thesis
    using assms(1) parsed_line_ok [OF l] unfolding state_ok_def result_ok_def Let_def ls'
    by (simp add: st' flip: ls_def)
qed

lemma parse_label_ok: "state_ok st \<Longrightarrow> parse_label n line st = Inr st' \<Longrightarrow> state_ok st'"
  by (auto simp: parse_label_def state_ok_def result_ok_def Let_def split: if_splits) blast

lemma parse_globl_ok: "state_ok st \<Longrightarrow> parse_globl n line st = Inr st' \<Longrightarrow> state_ok st'"
  by (auto simp: parse_globl_def state_ok_def result_ok_def Let_def split: if_splits)

lemma parse_line_ok: "state_ok st \<Longrightarrow> parse_line n line st = Inr st' \<Longrightarrow> state_ok st'"
proof -
  assume ok: "state_ok st" and p: "parse_line n line st = Inr st'"
  have "state_ok (st\<lparr>ps_in_text := True\<rparr>)" using ok by (simp add: state_ok_def)
  with ok p show ?thesis
    by (auto simp: parse_line_def Let_def split: if_splits intro: parse_instruction_ok parse_label_ok parse_globl_ok)
qed

lemma parse_lines_ok: "state_ok st \<Longrightarrow> parse_lines n ls st = Inr st' \<Longrightarrow> state_ok st'"
  by (induction n ls st rule: parse_lines.induct) (auto split: sum.splits dest: parse_line_ok)

lemma parse_file_ok: "parse_assembly_file content = Inr p \<Longrightarrow> result_ok p"
proof -
  assume p: "parse_assembly_file content = Inr p"
  have "state_ok parse_start" by (simp add: state_ok_def result_ok_def parse_start_def code_offset_def)
  moreover obtain st where "parse_lines 1 (file_lines content) parse_start = Inr st" "p = ps_result st"
    using p by (auto simp: parse_assembly_file_def split: sum.splits if_splits)
  ultimately have "state_ok st" using parse_lines_ok by blast
  then show ?thesis by (simp add: state_ok_def Let_def \<open>p = ps_result st\<close>)
qed

section \<open>Resolved instructions\<close>

lemma map_error_all2: "map_error f xs = Inr ys \<Longrightarrow> list_all2 (\<lambda>x y. f x = Inr y) xs ys"
  by (induction xs arbitrary: ys) (auto split: sum.splits)

lemma code_offset_sizes: "map line_size ls = map line_size ls' \<Longrightarrow> code_offset ls = code_offset ls'"
  by (simp add: fun_eq_iff code_offset_def flip: take_map)

definition targets_ok :: "parse_result \<Rightarrow> bool" where
  "targets_ok p \<longleftrightarrow> (\<forall>i\<in>set (pr_instructions p). line_target (ai_parsed i) \<noteq> None \<longrightarrow>
     (\<exists>l\<in>set (pr_labels p). line_distance (ai_parsed i) = sint (al_offset l) - sint (ai_offset i)))"

lemma line_distance_set_target: "line_target l \<noteq> None \<Longrightarrow> line_distance (set_target d l) = d"
  by (cases l) simp_all

lemma resolve_instruction_ok:
  assumes "resolve_instruction ls i = Inr j"
  shows "ai_offset j = ai_offset i" "line_size (ai_parsed j) = line_size (ai_parsed i)" "line_ok (ai_parsed j) = line_ok (ai_parsed i)"
    "line_target (ai_parsed j) \<noteq> None \<Longrightarrow> \<exists>l\<in>set ls. line_distance (ai_parsed j) = sint (al_offset l) - sint (ai_offset j)"
proof -
  have "(line_target (ai_parsed i) = None \<and> j = i) \<or> (\<exists>l\<in>set ls. line_target (ai_parsed i) \<noteq> None \<and>
      j = i\<lparr>ai_parsed := set_target (sint (al_offset l) - sint (ai_offset i)) (ai_parsed i)\<rparr>)"
    using assms by (auto simp: resolve_instruction_def labels_by_name_def Let_def split: option.splits if_splits dest!: map_of_SomeD)
  then show "ai_offset j = ai_offset i" "line_size (ai_parsed j) = line_size (ai_parsed i)" "line_ok (ai_parsed j) = line_ok (ai_parsed i)"
    "line_target (ai_parsed j) \<noteq> None \<Longrightarrow> \<exists>l\<in>set ls. line_distance (ai_parsed j) = sint (al_offset l) - sint (ai_offset j)"
    by (auto simp: line_distance_set_target)
qed

lemma resolve_ok:
  assumes "result_ok p" "resolve_local_control_flow_labels p = Inr q"
  shows "result_ok q" "targets_ok q" "pr_labels q = pr_labels p" "pr_globals q = pr_globals p"
proof -
  obtain js where q: "q = p\<lparr>pr_instructions := js\<rparr>" and all: "list_all2 (\<lambda>i j. resolve_instruction (pr_labels p) i = Inr j) (pr_instructions p) js"
    using assms(2) by (auto simp: resolve_local_control_flow_labels_def split: sum.splits dest: map_error_all2)
  have len: "length js = length (pr_instructions p)" using all by (simp add: list_all2_lengthD)
  have step: "resolve_instruction (pr_labels p) (pr_instructions p ! k) = Inr (js ! k)" if "k < length js" for k
    using all that by (simp add: list_all2_conv_all_nth)
  note r = resolve_instruction_ok [OF step]
  have "map line_size (map ai_parsed js) = map line_size (map ai_parsed (pr_instructions p))"
    using len r(2) by (intro nth_equalityI) auto
  then have off: "code_offset (map ai_parsed js) = code_offset (map ai_parsed (pr_instructions p))" by (rule code_offset_sizes)
  have offs: "map ai_offset js = map ai_offset (pr_instructions p)" using len r(1) by (intro nth_equalityI) auto
  have "list_all line_ok (map ai_parsed (pr_instructions p))" using assms(1) by (simp add: result_ok_def Let_def)
  then have "list_all line_ok (map ai_parsed js)" using len r(3) by (auto simp: list_all_length)
  then show "result_ok q" using assms(1) len off offs by (simp add: result_ok_def Let_def q)
  show "targets_ok q" using r(4) by (auto simp: targets_ok_def q in_set_conv_nth)
  show "pr_labels q = pr_labels p" "pr_globals q = pr_globals p" by (simp_all add: q)
qed

section \<open>The code\<close>

lemma assembled_code:
  assumes "assemble_text_bytes q = Inr bytes"
  obtains bss where "bytes = concat bss" "map Some bss = map (encode_rv64_asm_line \<circ> ai_parsed) (pr_instructions q)"
proof -
  obtain bss where bss: "bytes = concat bss" "list_all2 (\<lambda>i bs. encode_instruction i = Inr bs) (pr_instructions q) bss"
    using assms by (auto simp: assemble_text_bytes_def split: sum.splits dest: map_error_all2)
  have "encode_instruction i = Inr bs \<longleftrightarrow> encode_rv64_asm_line (ai_parsed i) = Some bs" for i bs
    by (auto simp: encode_instruction_def split: option.splits)
  with bss(2) have "map Some bss = map (encode_rv64_asm_line \<circ> ai_parsed) (pr_instructions q)"
    by (auto simp: list_all2_conv_all_nth intro: nth_equalityI)
  with bss(1) show thesis by (rule that)
qed

lemma concat_at:
  assumes "k < length bss"
  shows "length (concat (take (Suc k) bss)) = length (concat (take k bss)) + length (bss ! k)"
    "take (length (bss ! k)) (drop (length (concat (take k bss))) (concat bss)) = bss ! k"
    "length (concat (take k bss)) + length (bss ! k) \<le> length (concat bss)"
proof -
  have "concat bss = concat (take k bss) @ bss ! k @ concat (drop (Suc k) bss)"
    using assms by (metis concat.simps(2) concat_append id_take_nth_drop)
  then show "take (length (bss ! k)) (drop (length (concat (take k bss))) (concat bss)) = bss ! k"
    "length (concat (take k bss)) + length (bss ! k) \<le> length (concat bss)" by simp_all
  show "length (concat (take (Suc k) bss)) = length (concat (take k bss)) + length (bss ! k)"
    using assms by (simp add: take_Suc_conv_app_nth)
qed

lemma decode_loop_all:
  assumes "eo_text_bytes obj = concat bss" "\<forall>bs\<in>set bss. bs \<noteq> []"
    "\<And>k. k < length bss \<Longrightarrow> \<exists>i. decode_at obj (length (concat (take k bss))) = Inr (i, length (concat (take (Suc k) bss)))"
  shows "k \<le> length bss \<Longrightarrow> \<exists>ds. decode_loop obj (length (concat (take k bss))) = Inr ds \<and>
    map dl_offset ds = map (\<lambda>j. length (concat (take j bss))) [k..<length bss]"
proof (induction "length bss - k" arbitrary: k)
  case 0
  then show ?case by (subst decode_loop.simps) (simp add: assms(1))
next
  case (Suc n)
  then have k: "k < length bss" by simp
  obtain i where i: "decode_at obj (length (concat (take k bss))) = Inr (i, length (concat (take (Suc k) bss)))"
    using assms(3) [OF k] by blast
  have n: "n = length bss - Suc k" using Suc(2) by simp
  obtain ds where ds: "decode_loop obj (length (concat (take (Suc k) bss))) = Inr ds"
    "map dl_offset ds = map (\<lambda>j. length (concat (take j bss))) [Suc k..<length bss]"
    using Suc(1) [OF n] k by auto
  have "0 < length (bss ! k)" using assms(2) k by simp
  then have "length (concat (take k bss)) < length (eo_text_bytes obj)"
    using concat_at(3) [OF k] unfolding assms(1) by linarith
  then show ?case using i ds k by (subst decode_loop.simps) (simp add: upt_conv_Cons)
qed

lemma code_offset_bytes:
  assumes "map Some bss = map encode_rv64_asm_line ls"
  shows "length (concat (take k bss)) = code_offset ls k" "length bss = length ls" "\<forall>bs\<in>set bss. bs \<noteq> []"
proof -
  show len: "length bss = length ls" using assms by (metis length_map)
  have nth: "encode_rv64_asm_line (ls ! j) = Some (bss ! j)" if "j < length bss" for j
    using assms that len by (metis nth_map)
  have "map length bss = map line_size ls"
    using len line_size_encoded [OF nth] by (intro nth_equalityI) simp_all
  then show "length (concat (take k bss)) = code_offset ls k"
    by (simp add: code_offset_def length_concat flip: take_map)
  have "length (bss ! j) \<noteq> 0" if "j < length bss" for j
    using line_size_encoded [OF nth [OF that]] by (simp add: line_size_def split: asm_line.split)
  then show "\<forall>bs\<in>set bss. bs \<noteq> []" by (fastforce simp: in_set_conv_nth)
qed

lemma concat_take_le: "length (concat (take k bss)) \<le> length (concat bss)"
  by (metis append_take_drop_id concat_append le_add1 length_append)

section \<open>The object\<close>

definition local_labels :: "string \<Rightarrow> parse_result \<Rightarrow> frag_label list" where
  "local_labels n p = map (\<lambda>l. \<lparr>fl_offset = al_offset l, fl_name = al_name l\<rparr>) (filter (\<lambda>l. al_name l \<noteq> n) (pr_labels p))"

lemma valid_symbol_chars: "is_valid_symbol s \<Longrightarrow> s \<noteq> [] \<and> NUL \<notin> set s"
proof -
  assume v: "is_valid_symbol s"
  have "\<not> is_symbol_start NUL" "\<not> is_symbol_continue NUL" by code_simp+
  with v show ?thesis by (cases s) (auto simp: is_valid_symbol_def list_all_iff)
qed

lemma image_of_function:
  assumes "object_image p bytes = Inr img"
  obtains n l m where "pr_globals p = [n]" "l \<in> set (pr_labels p)" "al_name l = n" "al_offset l = 0" "bytes \<noteq> []"
    "build_rv64_text_object_module [leaf_function n bytes (local_labels n p)] = Some m"
    "write_rv64_relocatable_elf_object m = Inr (Some img)"
proof -
  obtain f m where f: "build_object_function p bytes = Inr f" and m: "build_rv64_text_object_module [f] = Some m"
    "write_rv64_relocatable_elf_object m = Inr (Some img)"
    using assms by (auto simp: object_image_def split: sum.splits option.splits)
  have one: "length (pr_globals p) = 1" using f by (auto simp: build_object_function_def split: if_splits)
  then obtain n where n: "pr_globals p = [n]" by (auto simp: length_Suc_conv)
  obtain l where l: "find (\<lambda>l. al_name l = n) (pr_labels p) = Some l" "al_offset l = 0" "bytes \<noteq> []"
    "f = leaf_function n bytes (local_labels n p)"
    using f by (auto simp: build_object_function_def n leaf_function_def local_labels_def Let_def split: if_splits option.splits)
  from l(1) have "l \<in> set (pr_labels p)" "al_name l = n" by (auto simp: find_Some_iff)
  with n l m show thesis by (intro that) auto
qed

definition dump_labels :: "frag_label list \<Rightarrow> object_label list" where
  "dump_labels ls = sort_key (\<lambda>l. (ol_offset l, ol_name l)) (map (\<lambda>l. \<lparr>ol_name = fl_name l, ol_offset = fl_offset l\<rparr>) ls)"

lemma set_dump_labels: "set (dump_labels ls) = (\<lambda>l. \<lparr>ol_name = fl_name l, ol_offset = fl_offset l\<rparr>) ` set ls"
  by (simp add: dump_labels_def)

lemma check_labels_none:
  "\<forall>l\<in>set ls. unat (ol_offset l) = sz \<or> (\<exists>d\<in>set ds. dl_offset d = unat (ol_offset l)) \<Longrightarrow> check_labels sz ds ls = None"
  by (induction ls) auto

text \<open>Every label of the source has a name in the extracted object: its own, or the function's at offset 0.\<close>

lemma label_found:
  assumes "distinct (map al_name (pr_labels q))" "l\<^sub>0 \<in> set (pr_labels q)" "al_name l\<^sub>0 = n" "al_offset l\<^sub>0 = 0"
    and "l \<in> set (pr_labels q)"
  shows "label_for_offset \<lparr>eo_function_name = n, eo_text_bytes = bytes, eo_local_labels = dump_labels (local_labels n q)\<rparr>
    (unat (al_offset l)) \<noteq> None"
proof (cases "al_name l = n")
  case True
  then have "l = l\<^sub>0" using assms by (metis distinct_map inj_onD)
  then show ?thesis using assms(4) by (simp add: label_for_offset_def)
next
  case False
  then have "\<lparr>ol_name = al_name l, ol_offset = al_offset l\<rparr> \<in> set (dump_labels (local_labels n q))"
    using assms(5) by (auto simp: set_dump_labels local_labels_def image_iff)
  then have "find (\<lambda>x. unat (ol_offset x) = unat (al_offset l)) (dump_labels (local_labels n q)) \<noteq> None"
    unfolding find_None_iff by fastforce
  then show ?thesis by (simp add: label_for_offset_def)
qed

lemma small_offset:
  assumes "k < 2 ^ 32"
  shows "unat (of_nat k :: u64) = k" "sint (of_nat k :: u64) = int k"
proof -
  show "unat (of_nat k :: u64) = k" using assms by (rule small_unat_of_nat)
  show "sint (of_nat k :: u64) = int k" using assms by (simp add: sint_uint uint_nat small_unat_of_nat signed_take_bit_int_eq_self)
qed

lemma instruction_decodes:
  assumes ok: "result_ok q" "targets_ok q" and bss: "map Some bss = map encode_rv64_asm_line (map ai_parsed (pr_instructions q))"
    and small: "length (concat bss) < 2 ^ 32"
    and glob: "l\<^sub>0 \<in> set (pr_labels q)" "al_name l\<^sub>0 = n" "al_offset l\<^sub>0 = 0" and k: "k < length bss"
  shows "\<exists>i. decode_at \<lparr>eo_function_name = n, eo_text_bytes = concat bss, eo_local_labels = dump_labels (local_labels n q)\<rparr>
    (length (concat (take k bss))) = Inr (i, length (concat (take (Suc k) bss)))"
proof -
  define ls where "ls = map ai_parsed (pr_instructions q)"
  let ?obj = "\<lparr>eo_function_name = n, eo_text_bytes = concat bss, eo_local_labels = dump_labels (local_labels n q)\<rparr>"
  note bytes = code_offset_bytes [OF bss, folded ls_def]
  have le: "code_offset ls j \<le> length (concat bss)" for j using concat_take_le [of j bss] by (simp add: bytes(1))
  have offs: "map ai_offset (pr_instructions q) = map (\<lambda>k. of_nat (code_offset ls k)) [0..<length ls]"
    and labs: "\<forall>l\<in>set (pr_labels q). \<exists>k\<le>length ls. al_offset l = of_nat (code_offset ls k)"
    and dist: "distinct (map al_name (pr_labels q))" and "list_all line_ok ls"
    using ok(1) by (simp_all add: result_ok_def Let_def ls_def)
  then have line: "line_ok (ls ! k)" "encode_rv64_asm_line (ls ! k) = Some (bss ! k)"
    using k bytes(2) bss [folded ls_def] by (auto simp: list_all_length) (metis nth_map)
  have "\<exists>t. int (code_offset ls k) + line_distance (ls ! k) = int t \<and> t \<le> length (concat bss) \<and> label_for_offset ?obj t \<noteq> None"
    if target: "line_target (ls ! k) \<noteq> None"
  proof -
    let ?i = "pr_instructions q ! k"
    have i: "?i \<in> set (pr_instructions q)" "ai_parsed ?i = ls ! k" "ai_offset ?i = of_nat (code_offset ls k)"
      using k bytes(2) offs by (auto simp: ls_def) (metis (no_types, lifting) add_0 length_map nth_map nth_upt length_upt minus_nat.diff_0)
    obtain l where l: "l \<in> set (pr_labels q)" "line_distance (ls ! k) = sint (al_offset l) - sint (ai_offset ?i)"
      using ok(2) [unfolded targets_ok_def, rule_format, OF i(1)] target i(2) by auto
    obtain j where j: "al_offset l = of_nat (code_offset ls j)" using labs l(1) by blast
    have "code_offset ls j < 2 ^ 32" "code_offset ls k < 2 ^ 32" using le small by (meson le_less_trans)+
    note so = small_offset [OF this(1)] small_offset [OF this(2)]
    show ?thesis
      using label_found [OF dist glob l(1), of "concat bss"] l(2) le
      by (intro exI [of _ "code_offset ls j"]) (simp add: i(3) j so)
  qed
  then show ?thesis
    using decode_line_at [OF line, of "code_offset ls k" ?obj] concat_at [OF k] by (simp add: bytes(1))
qed

lemma assembled_object_decodes:
  assumes ok: "result_ok q" "targets_ok q" and bss: "map Some bss = map encode_rv64_asm_line (map ai_parsed (pr_instructions q))"
    and small: "length (concat bss) < 2 ^ 32"
    and glob: "l\<^sub>0 \<in> set (pr_labels q)" "al_name l\<^sub>0 = n" "al_offset l\<^sub>0 = 0"
  shows "\<exists>ds. decode_text_bytes \<lparr>eo_function_name = n, eo_text_bytes = concat bss, eo_local_labels = dump_labels (local_labels n q)\<rparr> = Inr ds \<and>
    map (\<lambda>d. of_nat (dl_offset d)) ds = map ai_offset (pr_instructions q)"
proof -
  define ls where "ls = map ai_parsed (pr_instructions q)"
  let ?obj = "\<lparr>eo_function_name = n, eo_text_bytes = concat bss, eo_local_labels = dump_labels (local_labels n q)\<rparr>"
  note bytes = code_offset_bytes [OF bss, folded ls_def]
  have offs: "map ai_offset (pr_instructions q) = map (\<lambda>k. of_nat (code_offset ls k)) [0..<length ls]"
    and labs: "\<forall>l\<in>set (pr_labels q). \<exists>k\<le>length ls. al_offset l = of_nat (code_offset ls k)"
    using ok(1) by (simp_all add: result_ok_def Let_def ls_def)
  obtain ds where ds: "decode_loop ?obj 0 = Inr ds" "map dl_offset ds = map (code_offset ls) [0..<length ls]"
    using decode_loop_all [of ?obj bss 0, OF _ bytes(3) instruction_decodes [OF ok bss small glob]] by (auto simp: bytes)
  have "unat (ol_offset l) = length (concat bss) \<or> (\<exists>d\<in>set ds. dl_offset d = unat (ol_offset l))"
    if l: "l \<in> set (dump_labels (local_labels n q))" for l
  proof -
    obtain j where j: "j \<le> length ls" "ol_offset l = of_nat (code_offset ls j)"
      using l labs by (auto simp: set_dump_labels local_labels_def)
    have "code_offset ls j < 2 ^ 32" using concat_take_le [of j bss] small by (simp add: bytes(1))
    note so = small_offset [OF this]
    show ?thesis
    proof (cases "j = length ls")
      case True
      then show ?thesis using bytes(1) [of j] so(1) by (simp add: j bytes(2))
    next
      case False
      then have "code_offset ls j \<in> set (map dl_offset ds)" unfolding ds(2) using j by simp
      then show ?thesis by (auto simp: j so)
    qed
  qed
  then have "decode_text_bytes ?obj = Inr ds" by (simp add: decode_text_bytes_def ds(1) check_labels_none)
  moreover have "map (\<lambda>d. of_nat (dl_offset d)) ds = (map of_nat (map dl_offset ds) :: u64 list)" by simp
  ultimately show ?thesis using offs unfolding ds(2) by (simp add: comp_def)
qed

text \<open>
  C8: every source file the assembler accepts gives an object file the disassembler reads: it extracts
  the one global function with exactly the bytes assembled and the other labels of the source in order
  of their offsets, it finds every branch and jump target, and the instructions it decodes start at
  the offsets the assembler gave the instruction lines of the source.
\<close>

theorem assembled_source_disassembles:
  assumes "assemble_source content = Inr (resolved, bytes, img)" "length bytes < 2 ^ 32" "length img < 2 ^ 32"
  shows "\<exists>n ds. pr_globals resolved = [n] \<and>
    extract_supported_rv64_object img = Inr \<lparr>eo_function_name = n, eo_text_bytes = bytes,
      eo_local_labels = dump_labels (local_labels n resolved)\<rparr> \<and>
    decode_text_bytes \<lparr>eo_function_name = n, eo_text_bytes = bytes,
      eo_local_labels = dump_labels (local_labels n resolved)\<rparr> = Inr ds \<and>
    map (\<lambda>d. of_nat (dl_offset d)) ds = map ai_offset (pr_instructions resolved)"
proof -
  obtain p where p: "parse_assembly_file content = Inr p" "resolve_local_control_flow_labels p = Inr resolved"
    "assemble_text_bytes resolved = Inr bytes" "object_image resolved bytes = Inr img"
    using assms(1) by (auto simp: assemble_source_def split: sum.splits)
  note ok = resolve_ok(1,2) [OF parse_file_ok [OF p(1)] p(2)]
  obtain bss where bss: "bytes = concat bss" "map Some bss = map encode_rv64_asm_line (map ai_parsed (pr_instructions resolved))"
    using assembled_code [OF p(3)] by (metis map_map)
  obtain n l m where f: "pr_globals resolved = [n]" "l \<in> set (pr_labels resolved)" "al_name l = n" "al_offset l = 0" "bytes \<noteq> []"
    "build_rv64_text_object_module [leaf_function n bytes (local_labels n resolved)] = Some m"
    "write_rv64_relocatable_elf_object m = Inr (Some img)"
    using image_of_function [OF p(4)] by metis
  have n: "n \<noteq> []" "NUL \<notin> set n" using ok(1) f(1) by (auto simp: result_ok_def Let_def dest: valid_symbol_chars)
  have labs: "\<forall>x\<in>set (local_labels n resolved). fl_name x \<noteq> [] \<and> NUL \<notin> set (fl_name x) \<and> fl_name x \<noteq> n \<and>
      fl_offset x \<le> of_nat (length bytes)"
  proof -
    have "x \<le> of_nat (length bytes)" if "x = of_nat (code_offset (map ai_parsed (pr_instructions resolved)) k)" for x :: u64 and k
    proof -
      have le: "code_offset (map ai_parsed (pr_instructions resolved)) k \<le> length bytes"
        using concat_take_le [of k bss] code_offset_bytes(1) [OF bss(2)] bss(1) by simp
      then have "code_offset (map ai_parsed (pr_instructions resolved)) k < 2 ^ 32" using assms(2) by (rule le_less_trans)
      then show ?thesis using le by (simp only: that word_le_nat_alt small_offset(1) [OF assms(2)] small_offset(1))
    qed
    then show ?thesis using ok(1) by (fastforce simp: result_ok_def Let_def local_labels_def dest: valid_symbol_chars)
  qed
  have "distinct (map fl_name (local_labels n resolved))"
    using ok(1) by (auto simp: result_ok_def Let_def local_labels_def comp_def distinct_map_filter)
  then have "extract_supported_rv64_object img = Inr \<lparr>eo_function_name = n, eo_text_bytes = bytes,
      eo_local_labels = dump_labels (local_labels n resolved)\<rparr>"
    unfolding dump_labels_def using n labs f(5-7) assms(2,3) by (intro extract_leaf) auto
  then show ?thesis
    using assembled_object_decodes [OF ok bss(2)] assms(2) f(1-4) unfolding bss(1) by blast
qed

theorem assembled_source_disassembles_witness:
  "\<exists>resolved bytes img n ds.
    assemble_source (''.text'' @ [LF] @ ''.globl f'' @ [LF] @ ''f: # entry'' @ [LF] @ ''  beq a0, a1, out'' @ [LF] @ ''out:'' @ [LF] @ ''  ret'' @ [LF]) =
      Inr (resolved, bytes, img) \<and>
    pr_globals resolved = [n] \<and>
    extract_supported_rv64_object img = Inr \<lparr>eo_function_name = n, eo_text_bytes = bytes,
      eo_local_labels = dump_labels (local_labels n resolved)\<rparr> \<and>
    decode_text_bytes \<lparr>eo_function_name = n, eo_text_bytes = bytes,
      eo_local_labels = dump_labels (local_labels n resolved)\<rparr> = Inr ds \<and>
    map (\<lambda>d. of_nat (dl_offset d)) ds = map ai_offset (pr_instructions resolved)"
proof -
  let ?src = "''.text'' @ [LF] @ ''.globl f'' @ [LF] @ ''f: # entry'' @ [LF] @ ''  beq a0, a1, out'' @ [LF] @ ''out:'' @ [LF] @ ''  ret'' @ [LF]"
  have "case assemble_source ?src of Inr (r, bs, img) \<Rightarrow> length bs = 8 \<and> length img \<le> 600 | _ \<Rightarrow> False" by code_simp
  then obtain r bs img where a: "assemble_source ?src = Inr (r, bs, img)" and "length bs < 2 ^ 32" "length img < 2 ^ 32"
    by (auto split: sum.splits prod.splits)
  from assembled_source_disassembles [OF this] a show ?thesis by blast
qed

end
