(* ===== verification/Interner.thy ===== *)
theory Interner
  imports Prelude
begin

text \<open>
  The contract shared by every stable-id table of the compiler (text, path, name-path and
  semantic-name tables): interning a key returns a non-zero 32-bit id, the id reads back as that
  key, and no id handed out earlier ever changes its meaning. \<open>cap\<close> bounds the number of keys. Providers interpret the locale on
  their own operations; clients (the lexer, the qualified-name tables) use the derived facts.
\<close>

locale interner =
  fixes cap :: nat
    and invar :: "'t \<Rightarrow> bool"
    and keys :: "'t \<Rightarrow> 'k list"
    and valid :: "'k \<Rightarrow> bool"
    and find :: "'t \<Rightarrow> 'k \<Rightarrow> u32"
    and intern :: "'t \<Rightarrow> 'k \<Rightarrow> u32 \<times> 't"
    and lookup :: "'t \<Rightarrow> u32 \<Rightarrow> 'k option"
  assumes cap_le: "cap \<le> 2 ^ 32"
    and keys_distinct: "invar t \<Longrightarrow> distinct (keys t)"
    and keys_valid: "invar t \<Longrightarrow> k \<in> set (keys t) \<Longrightarrow> valid k"
    and keys_bound: "invar t \<Longrightarrow> length (keys t) < cap"
    and find_hit: "invar t \<Longrightarrow> n < length (keys t) \<Longrightarrow> find t (keys t ! n) = to_u32 (Suc n)"
    and find_miss: "invar t \<Longrightarrow> k \<notin> set (keys t) \<Longrightarrow> find t k = 0"
    and lookup_keys: "invar t \<Longrightarrow> lookup t i =
          (if i = 0 \<or> length (keys t) < unat i then None else Some (keys t ! (unat i - 1)))"
    and intern_hit: "invar t \<Longrightarrow> k \<in> set (keys t) \<Longrightarrow> intern t k = (find t k, t)"
    and intern_invalid: "invar t \<Longrightarrow> \<not> valid k \<Longrightarrow> intern t k = (0, t)"
    and intern_fresh: "invar t \<Longrightarrow> valid k \<Longrightarrow> k \<notin> set (keys t) \<Longrightarrow>
          Suc (length (keys t)) < cap \<Longrightarrow> intern t k = (i, t') \<Longrightarrow>
          i = to_u32 (Suc (length (keys t))) \<and> keys t' = keys t @ [k] \<and> invar t'"
begin

lemma find_eq_iff_lookup:
  assumes "invar t" "i \<noteq> 0"
  shows "find t k = i \<longleftrightarrow> lookup t i = Some k"
proof
  assume "find t k = i"
  with assms have "k \<in> set (keys t)" by (metis find_miss)
  then obtain j where j: "j < length (keys t)" "keys t ! j = k" by (auto simp: in_set_conv_nth)
  with assms \<open>find t k = i\<close> have "i = to_u32 (Suc j)" by (metis find_hit)
  moreover from j keys_bound [OF assms(1)] have "Suc j < 2 ^ 32" using cap_le by simp
  ultimately show "lookup t i = Some k" using j assms by (simp add: lookup_keys)
next
  assume "lookup t i = Some k"
  with assms have le: "unat i \<le> length (keys t)" and k: "k = keys t ! (unat i - 1)"
    by (auto simp: lookup_keys split: if_splits)
  from assms(2) have "0 < unat i" by (simp add: unat_gt_0_iff)
  with le have "unat i - 1 < length (keys t)" by simp
  with assms(1) k \<open>0 < unat i\<close> show "find t k = i"
    by (metis Suc_pred' find_hit to_u32_unat)
qed

lemma find_nonzero_iff:
  assumes "invar t"
  shows "find t k \<noteq> 0 \<longleftrightarrow> k \<in> set (keys t)"
proof -
  have "find t k \<noteq> 0" if "k \<in> set (keys t)"
  proof -
    from that obtain j where j: "j < length (keys t)" "keys t ! j = k"
      by (auto simp: in_set_conv_nth)
    with keys_bound [OF assms] have "Suc j < 2 ^ 32" using cap_le by simp
    then have "to_u32 (Suc j) \<noteq> 0" by simp
    with j assms show ?thesis by (metis find_hit)
  qed
  with assms show ?thesis by (metis find_miss)
qed

lemma lookup_valid: "invar t \<Longrightarrow> lookup t i = Some k \<Longrightarrow> valid k \<and> k \<in> set (keys t)"
  using nth_mem [of "unat i - 1" "keys t"] unat_gt_0_iff [of i]
  by (force simp: lookup_keys keys_valid split: if_splits)

lemma intern_keys:
  assumes "invar t" "intern t k = (i, t')" "Suc (length (keys t)) < cap"
  shows "keys t' = (if valid k \<and> k \<notin> set (keys t) then keys t @ [k] else keys t) \<and> invar t'"
  using assms intern_hit [of t k] intern_invalid [of t k] intern_fresh [of t k i t']
    keys_valid [of t k]
  by (cases "valid k"; cases "k \<in> set (keys t)") auto

lemma intern_lookup:
  assumes "invar t" "valid k" "intern t k = (i, t')" "Suc (length (keys t)) < cap"
  shows "i \<noteq> 0 \<and> lookup t' i = Some k"
proof (cases "k \<in> set (keys t)")
  case True
  with assms have "i = find t k" "t' = t" by (auto simp: intern_hit)
  with True assms(1) show ?thesis
    by (metis find_eq_iff_lookup find_nonzero_iff)
next
  case False
  with assms have i: "i = to_u32 (Suc (length (keys t)))" and k: "keys t' = keys t @ [k]"
    and "invar t'" by (auto dest: intern_fresh)
  from i assms(4) cap_le have "unat i = Suc (length (keys t))" by simp
  with k \<open>invar t'\<close> show ?thesis
    by (auto simp: lookup_keys nth_append)
qed

lemma lookup_stable:
  assumes "invar t" "intern t k = (i, t')" "Suc (length (keys t)) < cap"
    and "lookup t j = Some k'"
  shows "lookup t' j = Some k'"
proof -
  from assms(1-3) have keys: "keys t' = (if valid k \<and> k \<notin> set (keys t) then keys t @ [k] else keys t)"
    and "invar t'" by (auto dest: intern_keys)
  from assms(1,4) have "unat j \<le> length (keys t)" "j \<noteq> 0" "k' = keys t ! (unat j - 1)"
    by (auto simp: lookup_keys split: if_splits)
  moreover from this have "unat j - 1 < length (keys t)" by (simp add: unat_gt_0_iff Suc_le_lessD)
  ultimately show ?thesis using keys \<open>invar t'\<close> by (auto simp: lookup_keys nth_append)
qed

lemma intern_twice:
  assumes "invar t" "valid k" "intern t k = (i, t')" "Suc (length (keys t)) < cap"
  shows "intern t' k = (i, t') \<and> find t' k = i"
proof -
  from assms have "invar t'" by (auto dest: intern_keys)
  moreover from assms have "lookup t' i = Some k" "i \<noteq> 0" by (auto dest: intern_lookup)
  ultimately have "find t' k = i" "k \<in> set (keys t')"
    by (simp_all add: find_eq_iff_lookup lookup_valid)
  with \<open>invar t'\<close> show ?thesis by (simp add: intern_hit)
qed

lemma lookup_inj:
  "invar t \<Longrightarrow> lookup t i = Some k \<Longrightarrow> lookup t j = Some k \<Longrightarrow> i = j"
  by (metis find_eq_iff_lookup lookup_keys option.discI)

end

end
