(* ===== verification/Text_Id_Table.thy ===== *)
theory Text_Id_Table
  imports Interner
begin

text \<open>
  The stable-id tables of \<open>src/shared/text_id_table.hpp\<close> and the text helpers of
  \<open>src/shared/text_ops.hpp\<close>. \<open>KeyIdTable\<close>, \<open>StringIdTable\<close>, \<open>PathIdTable\<close> and
  \<open>SemanticNameTable\<close> are records with one definition per method. Vector sizes and byte offsets
  (\<open>size_t\<close>) are \<open>nat\<close>; ids keep their 32 bits, so that the wrap-around of the
  \<open>static_cast<Id>\<close> is visible. \<open>std::hash\<close> is a parameter of the string table.
\<close>

section \<open>KeyIdTable\<close>

record 'k key_id_table =
  key_by_id :: "'k list"
  id_by_key :: "'k \<rightharpoonup> u32"

definition kit_empty :: "'k key_id_table" where
  "kit_empty = \<lparr>key_by_id = [], id_by_key = Map.empty\<rparr>"

text \<open>\<open>dflt\<close> is the value \<open>Key{}\<close> that never gets an id.\<close>

definition kit_find :: "'k \<Rightarrow> 'k key_id_table \<Rightarrow> 'k \<Rightarrow> u32" where
  "kit_find dflt t key =
     (if key = dflt then 0
      else case id_by_key t key of None \<Rightarrow> 0 | Some i \<Rightarrow> i)"

text \<open>\<open>unordered_map::emplace\<close> keeps an existing entry.\<close>

definition emplace :: "('k \<rightharpoonup> 'v) \<Rightarrow> 'k \<Rightarrow> 'v \<Rightarrow> ('k \<rightharpoonup> 'v)" where
  "emplace m k v = (case m k of None \<Rightarrow> m(k \<mapsto> v) | Some _ \<Rightarrow> m)"

definition kit_intern :: "'k \<Rightarrow> 'k key_id_table \<Rightarrow> 'k \<Rightarrow> u32 \<times> 'k key_id_table" where
  "kit_intern dflt t key =
     (let existing = kit_find dflt t key in
      if existing \<noteq> 0 then (existing, t)
      else if key = dflt then (0, t)
      else let ks = key_by_id t @ [key];
               i = to_u32 (length ks)
           in (i, t\<lparr>key_by_id := ks, id_by_key := emplace (id_by_key t) key i\<rparr>))"

definition kit_lookup :: "'k key_id_table \<Rightarrow> u32 \<Rightarrow> 'k option" where
  "kit_lookup t i =
     (if i = 0 \<or> length (key_by_id t) < unat i then None
      else Some (key_by_id t ! (unat i - 1)))"

definition kit_size :: "'k key_id_table \<Rightarrow> nat" where
  "kit_size t = length (key_by_id t)"

text \<open>Well-formedness: the vector has no duplicates and the hash map inverts it.\<close>

definition kit_wf :: "'k key_id_table \<Rightarrow> bool" where
  "kit_wf t \<longleftrightarrow> distinct (key_by_id t) \<and> length (key_by_id t) < 2 ^ 32 \<and>
     dom (id_by_key t) = set (key_by_id t) \<and>
     (\<forall>i < length (key_by_id t). id_by_key t (key_by_id t ! i) = Some (to_u32 (Suc i)))"

lemma kit_wf_empty [simp]: "kit_wf kit_empty"
  by (simp add: kit_wf_def kit_empty_def)

lemma kit_wf_hit:
  "kit_wf t \<Longrightarrow> i < length (key_by_id t) \<Longrightarrow> id_by_key t (key_by_id t ! i) = Some (to_u32 (Suc i))"
  by (simp add: kit_wf_def)

lemma kit_wf_miss: "kit_wf t \<Longrightarrow> k \<notin> set (key_by_id t) \<Longrightarrow> id_by_key t k = None"
  by (auto simp: kit_wf_def dom_def)

lemma kit_wf_snoc:
  assumes "kit_wf t" "k \<notin> set (key_by_id t)" "Suc (length (key_by_id t)) < 2 ^ 32"
  shows "kit_wf (t\<lparr>key_by_id := key_by_id t @ [k],
                   id_by_key := emplace (id_by_key t) k (to_u32 (Suc (length (key_by_id t))))\<rparr>)"
proof -
  from assms have "id_by_key t k = None" by (simp add: kit_wf_miss)
  moreover from assms(2) have "key_by_id t ! i \<noteq> k" if "i < length (key_by_id t)" for i
    using that by (metis nth_mem)
  ultimately show ?thesis
    using assms by (auto simp: kit_wf_def emplace_def nth_append less_Suc_eq)
qed

lemma kit_wf_member_nonzero:
  assumes "kit_wf t" "k \<in> set (key_by_id t)"
  shows "\<exists>i. id_by_key t k = Some i \<and> i \<noteq> 0"
proof -
  from assms(2) obtain n where n: "n < length (key_by_id t)" "key_by_id t ! n = k"
    by (auto simp: in_set_conv_nth)
  with assms(1) have "Suc n < 2 ^ 32" by (simp add: kit_wf_def)
  then have "to_u32 (Suc n) \<noteq> 0" by simp
  with n assms(1) show ?thesis by (metis kit_wf_hit)
qed

lemma kit_intern_cases:
  assumes "kit_wf t"
  shows "kit_intern dflt t k =
    (if k = dflt then (0, t)
     else if k \<in> set (key_by_id t) then (kit_find dflt t k, t)
     else (to_u32 (Suc (length (key_by_id t))),
           t\<lparr>key_by_id := key_by_id t @ [k],
             id_by_key := emplace (id_by_key t) k (to_u32 (Suc (length (key_by_id t))))\<rparr>))"
  using kit_wf_member_nonzero [OF assms, of k] kit_wf_miss [OF assms, of k]
  by (auto simp: kit_intern_def kit_find_def Let_def)

text \<open>
  The table of text ids (\<open>SemanticNameTable::ids_\<close>, \<open>AnonTypeTable\<close>): \<open>Key{}\<close> is \<open>0\<close>.
\<close>

definition kit_inv :: "'k \<Rightarrow> 'k key_id_table \<Rightarrow> bool" where
  "kit_inv dflt t \<longleftrightarrow> kit_wf t \<and> dflt \<notin> set (key_by_id t)"

interpretation id_ids: interner "2 ^ 32" "kit_inv (0 :: u32)" key_by_id "\<lambda>k. k \<noteq> 0"
  "kit_find 0" "kit_intern 0" kit_lookup
proof (unfold_locales, goal_cases)
  case (5 t n)
  then have "key_by_id t ! n \<noteq> 0" by (metis kit_inv_def nth_mem)
  with 5 show ?case by (simp add: kit_inv_def kit_find_def kit_wf_hit)
next
  case (6 t k) then show ?case by (simp add: kit_inv_def kit_find_def kit_wf_miss)
next
  case (8 t k) then show ?case by (auto simp: kit_inv_def kit_intern_cases)
next
  case (10 t k i t') then show ?case
    using kit_wf_snoc [of t k] by (auto simp: kit_inv_def kit_intern_cases)
qed (auto simp: kit_inv_def kit_wf_def kit_lookup_def kit_intern_cases)

section \<open>PathIdTable\<close>

text \<open>
  A \<open>KeyIdTable\<close> over \<open>std::string\<close> whose \<open>find\<close> and \<open>intern\<close> do not refuse the
  empty string.
\<close>

type_synonym path_id_table = "string key_id_table"

definition path_find :: "path_id_table \<Rightarrow> string \<Rightarrow> u32" where
  "path_find t text = (case id_by_key t text of None \<Rightarrow> 0 | Some i \<Rightarrow> i)"

definition path_intern :: "path_id_table \<Rightarrow> string \<Rightarrow> u32 \<times> path_id_table" where
  "path_intern t text =
     (let existing = path_find t text in
      if existing \<noteq> 0 then (existing, t)
      else let ks = key_by_id t @ [text];
               i = to_u32 (length ks)
           in (i, t\<lparr>key_by_id := ks, id_by_key := emplace (id_by_key t) text i\<rparr>))"

definition path_lookup :: "path_id_table \<Rightarrow> u32 \<Rightarrow> string" where
  "path_lookup t i = (case kit_lookup t i of None \<Rightarrow> [] | Some stored \<Rightarrow> stored)"

lemma path_intern_cases:
  assumes "kit_wf t"
  shows "path_intern t k =
    (if k \<in> set (key_by_id t) then (path_find t k, t)
     else (to_u32 (Suc (length (key_by_id t))),
           t\<lparr>key_by_id := key_by_id t @ [k],
             id_by_key := emplace (id_by_key t) k (to_u32 (Suc (length (key_by_id t))))\<rparr>))"
  using kit_wf_member_nonzero [OF assms, of k] kit_wf_miss [OF assms, of k]
  by (auto simp: path_intern_def path_find_def Let_def)

interpretation path_ids: interner "2 ^ 32" kit_wf key_by_id "\<lambda>_ :: string. True"
  path_find path_intern kit_lookup
proof (unfold_locales, goal_cases)
  case (10 t k i t') then show ?case
    using kit_wf_snoc [of t k] by (auto simp: path_intern_cases)
qed (auto simp: kit_wf_def kit_lookup_def path_intern_cases path_find_def kit_wf_miss)

section \<open>StringIdTable\<close>

record slice =
  offset :: nat
  len :: nat

record string_id_table =
  bytes :: string
  slices_by_id :: "slice list"
  ids_by_hash :: "u64 \<rightharpoonup> u32 list"

definition sit_empty :: string_id_table where
  "sit_empty = \<lparr>bytes = [], slices_by_id = [], ids_by_hash = Map.empty\<rparr>"

definition sit_lookup :: "string_id_table \<Rightarrow> u32 \<Rightarrow> string" where
  "sit_lookup t i =
     (if i = 0 \<or> length (slices_by_id t) < unat i then []
      else let s = slices_by_id t ! (unat i - 1)
           in take (len s) (drop (offset s) (bytes t)))"

definition sit_find :: "(string \<Rightarrow> u64) \<Rightarrow> string_id_table \<Rightarrow> string \<Rightarrow> u32" where
  "sit_find hash t text =
     (if text = [] then 0
      else case ids_by_hash t (hash text) of
             None \<Rightarrow> 0
           | Some ids \<Rightarrow>
               (case List.find (\<lambda>i. sit_lookup t i = text) ids of None \<Rightarrow> 0 | Some i \<Rightarrow> i))"

text \<open>\<open>ids_by_hash_[h].push_back(id)\<close> creates the bucket when it is missing.\<close>

definition push_bucket :: "(u64 \<rightharpoonup> u32 list) \<Rightarrow> u64 \<Rightarrow> u32 \<Rightarrow> (u64 \<rightharpoonup> u32 list)" where
  "push_bucket m h i = m(h \<mapsto> (case m h of None \<Rightarrow> [] | Some ids \<Rightarrow> ids) @ [i])"

definition sit_intern ::
  "(string \<Rightarrow> u64) \<Rightarrow> string_id_table \<Rightarrow> string \<Rightarrow> u32 \<times> string_id_table" where
  "sit_intern hash t text =
     (if text = [] then (0, t)
      else let existing = sit_find hash t text in
        if existing \<noteq> 0 then (existing, t)
        else let off = length (bytes t);
                 bs = bytes t @ text @ [NUL];
                 ss = slices_by_id t @ [\<lparr>offset = off, len = length text\<rparr>];
                 i = to_u32 (length ss)
             in (i, t\<lparr>bytes := bs, slices_by_id := ss,
                      ids_by_hash := push_bucket (ids_by_hash t) (hash text) i\<rparr>))"

text \<open>\<open>c_str\<close>: what a C reader sees from the returned pointer, up to the first NUL.\<close>

definition sit_c_str :: "string_id_table \<Rightarrow> u32 \<Rightarrow> string" where
  "sit_c_str t i =
     (if i = 0 \<or> length (slices_by_id t) < unat i then []
      else let s = slices_by_id t ! (unat i - 1)
           in takeWhile (\<lambda>c. c \<noteq> NUL) (drop (offset s) (bytes t)))"

definition sit_size :: "string_id_table \<Rightarrow> nat" where
  "sit_size t = length (slices_by_id t)"

definition slice_text :: "string_id_table \<Rightarrow> slice \<Rightarrow> string" where
  "slice_text t s = take (len s) (drop (offset s) (bytes t))"

definition sit_texts :: "string_id_table \<Rightarrow> string list" where
  "sit_texts t = map (slice_text t) (slices_by_id t)"

text \<open>
  Well-formedness: the interned texts are distinct and non-empty, each is followed by its NUL
  inside the arena, and every hash bucket lists exactly the ids whose text has that hash.
\<close>

definition slice_ok :: "string \<Rightarrow> slice \<Rightarrow> bool" where
  "slice_ok bs s \<longleftrightarrow> offset s + len s < length bs \<and> 0 < len s \<and> bs ! (offset s + len s) = NUL"

definition bucket_ids :: "string_id_table \<Rightarrow> u64 \<Rightarrow> u32 list" where
  "bucket_ids t h = (case ids_by_hash t h of None \<Rightarrow> [] | Some ids \<Rightarrow> ids)"

definition sit_wf :: "(string \<Rightarrow> u64) \<Rightarrow> string_id_table \<Rightarrow> bool" where
  "sit_wf hash t \<longleftrightarrow>
     length (slices_by_id t) < 2 ^ 32 \<and> distinct (sit_texts t) \<and>
     (\<forall>s \<in> set (slices_by_id t). slice_ok (bytes t) s) \<and>
     (\<forall>h. set (bucket_ids t h) =
        {to_u32 (Suc n) | n. n < length (sit_texts t) \<and> hash (sit_texts t ! n) = h})"

lemma length_sit_texts [simp]: "length (sit_texts t) = length (slices_by_id t)"
  by (simp add: sit_texts_def)

lemma slice_text_nonempty: "slice_ok (bytes t) s \<Longrightarrow> slice_text t s \<noteq> []"
  by (auto simp: slice_ok_def slice_text_def)

lemma sit_wf_empty [simp]: "sit_wf hash sit_empty"
  by (simp add: sit_wf_def sit_empty_def bucket_ids_def sit_texts_def)

lemma sit_wf_texts_nonempty: "sit_wf hash t \<Longrightarrow> x \<in> set (sit_texts t) \<Longrightarrow> x \<noteq> []"
  by (auto simp: sit_wf_def sit_texts_def dest: slice_text_nonempty)

lemma sit_lookup_texts:
  "sit_lookup t i =
     (if i = 0 \<or> length (sit_texts t) < unat i then [] else sit_texts t ! (unat i - 1))"
proof (cases "i = 0 \<or> length (slices_by_id t) < unat i")
  case False
  then have "unat i - 1 < length (slices_by_id t)" by (simp add: unat_gt_0_iff Suc_le_lessD)
  with False show ?thesis by (simp add: sit_lookup_def sit_texts_def slice_text_def Let_def)
qed (simp add: sit_lookup_def)

lemma sit_lookup_nth:
  "n < length (sit_texts t) \<Longrightarrow> length (sit_texts t) < 2 ^ 32 \<Longrightarrow>
   sit_lookup t (to_u32 (Suc n)) = sit_texts t ! n"
  by (simp add: sit_lookup_texts)

lemma bucket_lookup:
  assumes wf: "sit_wf hash t" and i: "i \<in> set (bucket_ids t h)"
  shows "\<exists>n < length (sit_texts t). i = to_u32 (Suc n) \<and> sit_lookup t i = sit_texts t ! n"
proof -
  from wf i obtain n where "n < length (sit_texts t)" "i = to_u32 (Suc n)"
    by (auto simp: sit_wf_def)
  moreover from wf have "length (sit_texts t) < 2 ^ 32" by (simp add: sit_wf_def)
  ultimately show ?thesis using sit_lookup_nth by blast
qed

lemma sit_find_bucket:
  "text \<noteq> [] \<Longrightarrow> sit_find hash t text =
     (case List.find (\<lambda>i. sit_lookup t i = text) (bucket_ids t (hash text)) of
        None \<Rightarrow> 0 | Some i \<Rightarrow> i)"
  by (simp add: sit_find_def bucket_ids_def split: option.split)

lemma sit_find_hit:
  assumes wf: "sit_wf hash t" and n: "n < length (sit_texts t)"
  shows "sit_find hash t (sit_texts t ! n) = to_u32 (Suc n)"
proof -
  let ?text = "sit_texts t ! n" and ?i = "to_u32 (Suc n)"
  from wf n have "?text \<noteq> []" by (simp add: sit_wf_texts_nonempty)
  have uniq: "j = ?i" if "j \<in> set (bucket_ids t (hash ?text))" "sit_lookup t j = ?text" for j
  proof -
    from bucket_lookup [OF wf that(1)] that(2) obtain m where
      m: "m < length (sit_texts t)" "j = to_u32 (Suc m)" "sit_texts t ! m = ?text" by auto
    with wf n have "m = n" by (simp add: sit_wf_def nth_eq_iff_index_eq)
    with m show ?thesis by simp
  qed
  from wf n have mem: "?i \<in> set (bucket_ids t (hash ?text))" by (auto simp: sit_wf_def)
  from wf n have "sit_lookup t ?i = ?text" by (intro sit_lookup_nth) (auto simp: sit_wf_def)
  with mem have "List.find (\<lambda>j. sit_lookup t j = ?text) (bucket_ids t (hash ?text)) \<noteq> None"
    by (auto simp: find_None_iff)
  then obtain j where "List.find (\<lambda>j. sit_lookup t j = ?text) (bucket_ids t (hash ?text)) = Some j"
    by auto
  moreover from this have "j = ?i" using uniq by (auto simp: find_Some_iff)
  ultimately show ?thesis using \<open>?text \<noteq> []\<close> by (simp add: sit_find_bucket)
qed

lemma sit_find_miss:
  assumes wf: "sit_wf hash t" and "text \<notin> set (sit_texts t)"
  shows "sit_find hash t text = 0"
proof (cases "text = []")
  case False
  have "sit_lookup t j \<noteq> text" if "j \<in> set (bucket_ids t (hash text))" for j
    using bucket_lookup [OF wf that] assms(2) by auto
  then have "List.find (\<lambda>j. sit_lookup t j = text) (bucket_ids t (hash text)) = None"
    by (simp add: find_None_iff)
  with False show ?thesis by (simp add: sit_find_bucket)
qed (simp add: sit_find_def)

definition sit_push :: "(string \<Rightarrow> u64) \<Rightarrow> string_id_table \<Rightarrow> string \<Rightarrow> string_id_table" where
  "sit_push hash t text =
     t\<lparr>bytes := bytes t @ text @ [NUL],
       slices_by_id := slices_by_id t @ [\<lparr>offset = length (bytes t), len = length text\<rparr>],
       ids_by_hash := push_bucket (ids_by_hash t) (hash text) (to_u32 (Suc (length (slices_by_id t))))\<rparr>"

lemma slice_text_append:
  "slice_ok (bytes t) s \<Longrightarrow> slice_text (t\<lparr>bytes := bytes t @ xs, slices_by_id := ss, ids_by_hash := m\<rparr>) s
     = slice_text t s"
  by (simp add: slice_ok_def slice_text_def)

lemma sit_texts_push:
  assumes "\<forall>s \<in> set (slices_by_id t). slice_ok (bytes t) s"
  shows "sit_texts (sit_push hash t text) = sit_texts t @ [text]"
  using assms
  by (auto simp: sit_texts_def sit_push_def slice_text_append intro!: map_cong)
     (simp add: slice_text_def)

lemma bucket_ids_push:
  "bucket_ids (sit_push hash t text) h =
     bucket_ids t h @ (if h = hash text then [to_u32 (Suc (length (slices_by_id t)))] else [])"
  by (simp add: bucket_ids_def sit_push_def push_bucket_def split: option.split)

lemma sit_wf_push:
  assumes wf: "sit_wf hash t" and "text \<noteq> []" "text \<notin> set (sit_texts t)"
    and room: "Suc (length (slices_by_id t)) < 2 ^ 32"
  shows "sit_wf hash (sit_push hash t text)"
proof -
  from wf have ok: "\<forall>s \<in> set (slices_by_id t). slice_ok (bytes t) s" by (simp add: sit_wf_def)
  note texts = sit_texts_push [OF ok, of hash "text"]
  have "slice_ok (bytes t @ text @ [NUL]) s" if "s \<in> set (slices_by_id t)" for s
    using that ok by (auto simp: slice_ok_def nth_append)
  moreover have "slice_ok (bytes t @ text @ [NUL]) \<lparr>offset = length (bytes t), len = length text\<rparr>"
    using assms(2) by (simp add: slice_ok_def nth_append)
  ultimately have slices: "\<forall>s \<in> set (slices_by_id (sit_push hash t text)).
      slice_ok (bytes (sit_push hash t text)) s"
    by (auto simp: sit_push_def)
  have buckets: "set (bucket_ids (sit_push hash t text) h) =
      {to_u32 (Suc n) | n. n < length (sit_texts t @ [text]) \<and> hash ((sit_texts t @ [text]) ! n) = h}" for h
  proof -
    have "set (bucket_ids t h) =
        {to_u32 (Suc n) | n. n < length (sit_texts t) \<and> hash (sit_texts t ! n) = h}"
      using wf by (simp add: sit_wf_def)
    then show ?thesis
      by (auto simp: bucket_ids_push nth_append less_Suc_eq)
  qed
  from wf assms(3) have "distinct (sit_texts t @ [text])" by (simp add: sit_wf_def)
  with texts slices buckets room show ?thesis
    by (simp add: sit_wf_def) (simp add: sit_push_def)
qed

lemma sit_find_zero_iff:
  assumes "sit_wf hash t"
  shows "sit_find hash t text = 0 \<longleftrightarrow> text \<notin> set (sit_texts t)"
proof -
  have "sit_find hash t text \<noteq> 0" if "text \<in> set (sit_texts t)"
  proof -
    from that obtain n where n: "n < length (sit_texts t)" "text = sit_texts t ! n"
      by (auto simp: in_set_conv_nth)
    with assms have "to_u32 (Suc n) \<noteq> 0" by (simp add: sit_wf_def)
    with n assms show ?thesis by (simp add: sit_find_hit)
  qed
  with assms show ?thesis by (metis sit_find_miss)
qed

lemma sit_intern_cases:
  assumes "sit_wf hash t"
  shows "sit_intern hash t text =
    (if text = [] then (0, t)
     else if text \<in> set (sit_texts t) then (sit_find hash t text, t)
     else (to_u32 (Suc (length (sit_texts t))), sit_push hash t text))"
  using sit_find_zero_iff [OF assms, of "text"]
  by (simp add: sit_intern_def sit_push_def Let_def)

definition sit_get :: "string_id_table \<Rightarrow> u32 \<Rightarrow> string option" where
  "sit_get t i = (if sit_lookup t i = [] then None else Some (sit_lookup t i))"

interpretation text_ids: interner "2 ^ 32" "sit_wf hash" sit_texts "\<lambda>text. text \<noteq> []"
  "sit_find hash" "sit_intern hash" sit_get for hash
proof (unfold_locales, goal_cases)
  case (7 t i)
  then have "sit_texts t ! (unat i - 1) \<noteq> []" if "i \<noteq> 0" "\<not> length (sit_texts t) < unat i"
    using that unat_gt_0_iff [of i]
    by (intro sit_wf_texts_nonempty [of hash t]) (auto simp: Suc_le_lessD)
  then show ?case by (auto simp: sit_get_def sit_lookup_texts)
next
  case (10 t x i t')
  then have "sit_wf hash (sit_push hash t x)" by (intro sit_wf_push) auto
  moreover from 10 have "sit_texts (sit_push hash t x) = sit_texts t @ [x]"
    by (intro sit_texts_push) (simp add: sit_wf_def)
  ultimately show ?case using 10 by (auto simp: sit_intern_cases)
qed (auto simp: sit_find_hit sit_find_miss sit_intern_cases dest: sit_wf_texts_nonempty,
     auto simp: sit_wf_def)

lemma sit_wf_intern:
  "sit_wf hash t \<Longrightarrow> Suc (sit_size t) < 2 ^ 32 \<Longrightarrow> sit_wf hash (snd (sit_intern hash t x))"
  using text_ids.intern_keys [of hash t x] by (simp add: prod_eq_iff sit_size_def)

lemma sit_get_Some_iff: "sit_get t i = Some text \<longleftrightarrow> text \<noteq> [] \<and> sit_lookup t i = text"
  by (auto simp: sit_get_def)

section \<open>Text helpers\<close>

definition intern_text :: "(string \<Rightarrow> u64) \<Rightarrow> string_id_table \<Rightarrow> string \<Rightarrow> u32 \<times> string_id_table" where
  "intern_text hash texts text = (if text = [] then (0, texts) else sit_intern hash texts text)"

definition lookup_text :: "string_id_table \<Rightarrow> u32 \<Rightarrow> string" where
  "lookup_text texts i = (if i = 0 then [] else sit_lookup texts i)"

definition lookup_c_str :: "string_id_table \<Rightarrow> u32 \<Rightarrow> string" where
  "lookup_c_str texts i = (if i = 0 then [] else sit_c_str texts i)"

definition intern_file_path :: "path_id_table \<Rightarrow> string \<Rightarrow> u32 \<times> path_id_table" where
  "intern_file_path files path = path_intern files path"

definition lookup_file_path :: "path_id_table \<Rightarrow> u32 \<Rightarrow> string" where
  "lookup_file_path files i = (if i = 0 then [] else path_lookup files i)"

definition text_starts_with :: "string \<Rightarrow> string \<Rightarrow> bool" where
  "text_starts_with text prefix =
     (length prefix \<le> length text \<and> take (length prefix) text = prefix)"

fun text_in_list :: "string \<Rightarrow> string list \<Rightarrow> bool" where
  "text_in_list text [] = False"
| "text_in_list text (item # items) = (if text = item then True else text_in_list text items)"

lemma text_in_list_iff: "text_in_list text items \<longleftrightarrow> text \<in> set items"
  by (induction items) auto

lemma lookup_text_eq [simp]: "lookup_text texts i = sit_lookup texts i"
  by (simp add: lookup_text_def sit_lookup_def)

lemma intern_text_eq [simp]: "intern_text hash texts text = sit_intern hash texts text"
  by (simp add: intern_text_def sit_intern_def)

lemma text_starts_with_iff: "text_starts_with text prefix \<longleftrightarrow> (\<exists>rest. text = prefix @ rest)"
  by (auto simp: text_starts_with_def) (metis append_take_drop_id)

text \<open>The bytes behind a valid id spell the text and end in a NUL (\<open>c_str\<close> is usable from C).\<close>

lemma sit_c_str_lookup:
  assumes "sit_wf hash t" "NUL \<notin> set (sit_lookup t i)"
  shows "sit_c_str t i = sit_lookup t i"
proof (cases "i = 0 \<or> length (slices_by_id t) < unat i")
  case False
  let ?s = "slices_by_id t ! (unat i - 1)"
  from False have "?s \<in> set (slices_by_id t)" by (simp add: unat_gt_0_iff Suc_le_lessD)
  with assms(1) have ok: "slice_ok (bytes t) ?s" by (simp add: sit_wf_def)
  with False assms(2) have "takeWhile (\<lambda>c. c \<noteq> NUL) (drop (offset ?s) (bytes t))
      = take (len ?s) (drop (offset ?s) (bytes t))"
    by (intro takeWhile_NUL_slice) (auto simp: slice_ok_def sit_lookup_def Let_def)
  with False show ?thesis by (simp add: sit_c_str_def sit_lookup_def Let_def)
qed (simp add: sit_c_str_def sit_lookup_def)

section \<open>SemanticNameTable\<close>

text \<open>
  A semantic name is an id of a text id. The table holds a pointer \<open>texts_\<close> to a \<open>TextTable\<close>
  it shares with its clients, which may be null: the model passes that table in and hands it back.
\<close>

type_synonym semantic_name_table = "u32 key_id_table"

definition snt_find_id :: "string_id_table option \<Rightarrow> semantic_name_table \<Rightarrow> u32 \<Rightarrow> u32" where
  "snt_find_id texts t text_id = (if texts = None \<or> text_id = 0 then 0 else kit_find 0 t text_id)"

definition snt_find ::
  "(string \<Rightarrow> u64) \<Rightarrow> string_id_table option \<Rightarrow> semantic_name_table \<Rightarrow> string \<Rightarrow> u32" where
  "snt_find hash texts t name =
     (case texts of
        None \<Rightarrow> 0
      | Some tx \<Rightarrow> if name = [] then 0 else snt_find_id texts t (sit_find hash tx name))"

definition snt_intern_id ::
  "string_id_table option \<Rightarrow> semantic_name_table \<Rightarrow> u32 \<Rightarrow> u32 \<times> semantic_name_table" where
  "snt_intern_id texts t text_id =
     (if texts = None \<or> text_id = 0 then (0, t) else kit_intern 0 t text_id)"

definition snt_intern ::
  "(string \<Rightarrow> u64) \<Rightarrow> string_id_table option \<Rightarrow> semantic_name_table \<Rightarrow> string \<Rightarrow>
     u32 \<times> string_id_table option \<times> semantic_name_table" where
  "snt_intern hash texts t name =
     (case texts of
        None \<Rightarrow> (0, None, t)
      | Some tx \<Rightarrow>
          let (text_id, tx') = sit_intern hash tx name;
              (i, t') = snt_intern_id (Some tx') t text_id
          in (i, Some tx', t'))"

definition snt_text_id :: "semantic_name_table \<Rightarrow> u32 \<Rightarrow> u32" where
  "snt_text_id t i = (case kit_lookup t i of None \<Rightarrow> 0 | Some stored \<Rightarrow> stored)"

definition snt_spelling :: "string_id_table option \<Rightarrow> semantic_name_table \<Rightarrow> u32 \<Rightarrow> string" where
  "snt_spelling texts t i =
     (case texts of None \<Rightarrow> [] | Some tx \<Rightarrow> sit_lookup tx (snt_text_id t i))"

text \<open>Every stored text id is a live id of the shared text table.\<close>

definition snt_wf :: "(string \<Rightarrow> u64) \<Rightarrow> string_id_table \<Rightarrow> semantic_name_table \<Rightarrow> bool" where
  "snt_wf hash tx t \<longleftrightarrow> sit_wf hash tx \<and> kit_inv 0 t \<and>
     (\<forall>text_id \<in> set (key_by_id t). sit_get tx text_id \<noteq> None)"

lemma snt_intern_steps:
  assumes "snt_wf hash tx t" "name \<noteq> []" "snt_intern hash (Some tx) t name = (i, txs, t')"
    and "Suc (length (sit_texts tx)) < 2 ^ 32" "Suc (length (key_by_id t)) < 2 ^ 32"
  obtains text_id tx' where "txs = Some tx'" "sit_intern hash tx name = (text_id, tx')"
    "kit_intern 0 t text_id = (i, t')" "text_id \<noteq> 0" "sit_get tx' text_id = Some name"
    "kit_lookup t' i = Some text_id" "i \<noteq> 0" "snt_wf hash tx' t'"
proof -
  from assms have wf: "sit_wf hash tx" "kit_inv 0 t" by (simp_all add: snt_wf_def)
  obtain text_id tx' where st: "sit_intern hash tx name = (text_id, tx')" by fastforce
  with wf assms have text_id: "text_id \<noteq> 0" "sit_get tx' text_id = Some name"
    by (auto dest: text_ids.intern_lookup)
  with assms st have k: "txs = Some tx'" "kit_intern 0 t text_id = (i, t')"
    by (auto simp: snt_intern_def snt_intern_id_def Let_def split: prod.splits)
  have wf': "sit_wf hash tx'" "kit_inv 0 t'"
    using text_ids.intern_keys [OF wf(1) st assms(4)] id_ids.intern_keys [OF wf(2) k(2) assms(5)]
    by simp_all
  have live: "sit_get tx' d \<noteq> None" if "d \<in> set (key_by_id t')" for d
  proof (cases "d = text_id")
    case False
    with that id_ids.intern_keys [OF wf(2) k(2) assms(5)] have "d \<in> set (key_by_id t)"
      by (auto split: if_splits)
    with assms(1) obtain n where "sit_get tx d = Some n" by (auto simp: snt_wf_def)
    with text_ids.lookup_stable [OF wf(1) st assms(4)] show ?thesis by auto
  qed (simp add: text_id)
  from id_ids.intern_lookup [OF wf(2) text_id(1) k(2) assms(5)] wf' live text_id st k that
  show thesis by (auto simp: snt_wf_def)
qed

lemma sit_lookup_intern_stable:
  assumes "sit_wf hash t" "Suc (sit_size t) < 2 ^ 32" "sit_intern hash t x = (i, t')" "sit_lookup t j \<noteq> []"
  shows "sit_lookup t' j = sit_lookup t j"
  using text_ids.lookup_stable [OF assms(1,3), of j "sit_lookup t j"] assms(2,4)
  by (simp add: sit_size_def sit_get_Some_iff)

lemma sit_intern_facts:
  assumes "sit_wf hash t" "Suc (sit_size t) < 2 ^ 32" "sit_intern hash t x = (i, t')" "x \<noteq> []"
  shows "sit_wf hash t' \<and> i \<noteq> 0 \<and> sit_lookup t' i = x \<and> sit_size t' \<le> Suc (sit_size t)"
proof -
  from assms(2) have room: "Suc (length (sit_texts t)) < 2 ^ 32" by (simp add: sit_size_def)
  from text_ids.intern_lookup [OF assms(1,4,3) room] text_ids.intern_keys [OF assms(1,3) room]
  show ?thesis
    by (auto simp: sit_get_Some_iff sit_size_def simp flip: length_sit_texts split: if_splits)
qed

text \<open>
  C20: for the tables of interned texts (\<open>TextTable\<close>), interning a non-empty text into a
  well-formed table with room for one more id returns a non-zero id that reads back exactly that
  text, keeps every id handed out before, keeps the table well-formed, and is idempotent: interning
  the text again returns the same id and does not grow the table.
\<close>

theorem text_table_intern_correct:
  assumes "sit_wf hash t" "x \<noteq> []" "Suc (sit_size t) < 2 ^ 32" "intern_text hash t x = (i, t')"
  shows "sit_wf hash t' \<and> i \<noteq> 0 \<and> lookup_text t' i = x \<and>
    (\<forall>j. lookup_text t j \<noteq> [] \<longrightarrow> lookup_text t' j = lookup_text t j) \<and>
    intern_text hash t' x = (i, t') \<and> sit_find hash t' x = i"
proof -
  from assms have st: "sit_intern hash t x = (i, t')" and room: "Suc (length (sit_texts t)) < 2 ^ 32"
    by (simp_all add: sit_size_def)
  have "lookup_text t' j = lookup_text t j" if "lookup_text t j \<noteq> []" for j
    using that text_ids.lookup_stable [OF assms(1) st room, of j "lookup_text t j"]
    by (simp add: sit_get_Some_iff)
  moreover have "i \<noteq> 0 \<and> sit_get t' i = Some x"
    using assms(1,2) st room by (rule text_ids.intern_lookup)
  moreover have "sit_intern hash t' x = (i, t') \<and> sit_find hash t' x = i"
    using assms(1,2) st room by (rule text_ids.intern_twice)
  moreover have "sit_wf hash t'" using text_ids.intern_keys [OF assms(1) st room] by simp
  ultimately show ?thesis by (simp add: sit_get_Some_iff)
qed

theorem text_table_intern_correct_witness:
  "sit_wf (\<lambda>_. 7) sit_empty \<and> ''int'' \<noteq> [] \<and> Suc (sit_size sit_empty) < 2 ^ 32 \<and>
   lookup_text (snd (intern_text (\<lambda>_. 7) sit_empty ''int'')) 1 = ''int''"
proof -
  obtain i t' where st: "intern_text (\<lambda>_. 7) sit_empty ''int'' = (i, t')" by fastforce
  have h: "sit_wf (\<lambda>_. 7) sit_empty" "''int'' \<noteq> []" "Suc (sit_size sit_empty) < 2 ^ 32"
    by (simp, simp, simp add: sit_size_def sit_empty_def)
  have "i = 1" using st
    by (auto simp: sit_intern_def sit_find_def sit_empty_def to_u32_def Let_def)
  with text_table_intern_correct [OF h st] st h show ?thesis by simp
qed

text \<open>
  Two ids of one text table are equal exactly when their spellings are, so the compiler may
  compare names by comparing \<open>TextId\<close>s.
\<close>

theorem text_id_equality_is_spelling_equality:
  assumes "sit_wf hash t" "lookup_text t i \<noteq> []" "lookup_text t j \<noteq> []"
  shows "i = j \<longleftrightarrow> lookup_text t i = lookup_text t j"
proof -
  have "sit_get t i = Some (sit_lookup t i)" "sit_get t j = Some (sit_lookup t j)"
    using assms by (simp_all add: sit_get_def)
  then show ?thesis using text_ids.lookup_inj [OF assms(1)] by auto
qed

theorem text_id_equality_is_spelling_equality_witness:
  "(1 :: u32) = 2 \<longleftrightarrow>
     lookup_text (snd (intern_text (\<lambda>_. 7) (snd (intern_text (\<lambda>_. 7) sit_empty ''a'')) ''b'')) 1 =
     lookup_text (snd (intern_text (\<lambda>_. 7) (snd (intern_text (\<lambda>_. 7) sit_empty ''a'')) ''b'')) 2"
proof -
  let ?h = "\<lambda>_ :: string. 7 :: u64"
  let ?t1 = "snd (intern_text ?h sit_empty ''a'')"
  let ?t2 = "snd (intern_text ?h ?t1 ''b'')"
  have "Suc (sit_size sit_empty) < 2 ^ 32" "Suc (sit_size ?t1) < 2 ^ 32"
    by (simp_all add: sit_size_def sit_empty_def sit_intern_def sit_find_def Let_def)
  then have wf: "sit_wf ?h ?t2" by (simp add: sit_wf_intern)
  have look: "lookup_text ?t2 1 = ''a''" "lookup_text ?t2 2 = ''b''"
    by (simp_all add: sit_intern_def sit_find_def sit_lookup_def sit_empty_def push_bucket_def
          to_u32_def Let_def)
  show ?thesis by (rule text_id_equality_is_spelling_equality [OF wf]) (simp_all only: look, simp_all)
qed

lemma snt_spelling_stable:
  assumes "snt_wf hash tx t" "Suc (sit_size tx) < 2 ^ 32" "Suc (kit_size t) < 2 ^ 32"
    and "snt_intern hash (Some tx) t name = (i, Some tx', t')" "name \<noteq> []"
    and "snt_spelling (Some tx) t j \<noteq> []"
  shows "snt_spelling (Some tx') t' j = snt_spelling (Some tx) t j"
proof -
  from assms(2,3) have room: "Suc (length (sit_texts tx)) < 2 ^ 32" "Suc (length (key_by_id t)) < 2 ^ 32"
    by (simp_all add: sit_size_def kit_size_def)
  obtain text_id where st: "sit_intern hash tx name = (text_id, tx')"
      "kit_intern 0 t text_id = (i, t')"
    using snt_intern_steps [OF assms(1,5,4) room] by blast
  from assms(6) obtain d where d: "kit_lookup t j = Some d" "sit_lookup tx d \<noteq> []"
    by (cases "kit_lookup t j") (simp_all add: snt_spelling_def snt_text_id_def sit_lookup_def)
  have "kit_lookup t' j = Some d"
    using assms(1) by (intro id_ids.lookup_stable [OF _ st(2) room(2) d(1)]) (simp add: snt_wf_def)
  moreover have "sit_get tx' d = Some (sit_lookup tx d)"
    using assms(1) d(2)
    by (intro text_ids.lookup_stable [OF _ st(1) room(1)]) (simp_all add: snt_wf_def sit_get_def)
  ultimately show ?thesis
    using d by (simp add: snt_spelling_def snt_text_id_def sit_get_Some_iff)
qed

text \<open>
  A semantic name (link name, function name, block label, struct name, ...) interned by its
  spelling into a table attached to a text table gets a non-zero id whose spelling is that name, a
  later lookup by spelling returns the same id, and every id handed out earlier keeps its spelling
  although the shared text table has grown.
\<close>

theorem semantic_name_intern_correct:
  assumes "snt_wf hash tx t" "name \<noteq> []" "Suc (sit_size tx) < 2 ^ 32" "Suc (kit_size t) < 2 ^ 32"
    and "snt_intern hash (Some tx) t name = (i, Some tx', t')"
  shows "snt_wf hash tx' t' \<and> i \<noteq> 0 \<and> snt_spelling (Some tx') t' i = name \<and>
    snt_find hash (Some tx') t' name = i \<and>
    (\<forall>j. snt_spelling (Some tx) t j \<noteq> [] \<longrightarrow>
         snt_spelling (Some tx') t' j = snt_spelling (Some tx) t j)"
proof -
  from assms(3,4) have room: "Suc (length (sit_texts tx)) < 2 ^ 32" "Suc (length (key_by_id t)) < 2 ^ 32"
    by (simp_all add: sit_size_def kit_size_def)
  obtain d where d: "sit_get tx' d = Some name" "kit_lookup t' i = Some d" "i \<noteq> 0" "d \<noteq> 0"
      "snt_wf hash tx' t'"
    using snt_intern_steps [OF assms(1,2,5) room] by blast
  from d(5) have wf: "sit_wf hash tx'" "kit_inv 0 t'" by (simp_all add: snt_wf_def)
  have "sit_find hash tx' name = d" "kit_find 0 t' d = i"
    using text_ids.find_eq_iff_lookup [OF wf(1) d(4)] id_ids.find_eq_iff_lookup [OF wf(2) d(3)] d
    by simp_all
  with d assms(2) have "snt_find hash (Some tx') t' name = i"
    by (simp add: snt_find_def snt_find_id_def)
  moreover from d have "snt_spelling (Some tx') t' i = name"
    by (simp add: snt_spelling_def snt_text_id_def sit_get_Some_iff)
  ultimately show ?thesis
    using d snt_spelling_stable [OF assms(1,3,4,5,2)] by blast
qed

theorem semantic_name_intern_correct_witness:
  "snt_spelling (fst (snd (snt_intern (\<lambda>_. 7) (Some sit_empty) kit_empty ''main'')))
     (snd (snd (snt_intern (\<lambda>_. 7) (Some sit_empty) kit_empty ''main'')))
     (fst (snt_intern (\<lambda>_. 7) (Some sit_empty) kit_empty ''main'')) = ''main''"
proof -
  let ?r = "snt_intern (\<lambda>_. 7) (Some sit_empty) kit_empty ''main''"
  have wf: "snt_wf (\<lambda>_. 7) sit_empty kit_empty"
    by (simp add: snt_wf_def kit_inv_def) (simp add: kit_empty_def)
  have "fst (snd ?r) = Some (snd (sit_intern (\<lambda>_. 7) sit_empty ''main''))"
    by (simp add: snt_intern_def Let_def split_beta)
  then obtain tx' where "fst (snd ?r) = Some tx'" by blast
  then have eq: "?r = (fst ?r, Some tx', snd (snd ?r))" by (metis prod.collapse)
  have room: "Suc (sit_size sit_empty) < 2 ^ 32" "Suc (kit_size (kit_empty :: u32 key_id_table)) < 2 ^ 32"
    by (simp_all add: sit_size_def sit_empty_def kit_size_def kit_empty_def)
  have "''main'' \<noteq> []" by simp
  from semantic_name_intern_correct [OF wf this room eq] \<open>fst (snd ?r) = Some tx'\<close>
  show ?thesis by simp
qed

text \<open>
  The spelling behind a text id is NUL-terminated in the arena: a C reader of \<open>c_str\<close>
  sees exactly the interned text, whenever the text itself holds no NUL.
\<close>

theorem lookup_c_str_reads_text:
  assumes "sit_wf hash t" "NUL \<notin> set (lookup_text t i)"
  shows "lookup_c_str t i = lookup_text t i"
  using sit_c_str_lookup [OF assms(1), of i] assms(2)
  by (auto simp: lookup_c_str_def sit_c_str_def sit_lookup_def)

theorem lookup_c_str_reads_text_witness:
  "lookup_c_str (snd (intern_text (\<lambda>_. 7) sit_empty ''x'')) 1 = ''x''"
proof -
  let ?t = "snd (intern_text (\<lambda>_. 7) sit_empty ''x'')"
  have "sit_wf (\<lambda>_. 7) ?t"
    using sit_wf_intern [OF sit_wf_empty, of "\<lambda>_. 7" "''x''"] by (simp add: sit_size_def sit_empty_def)
  moreover have look: "lookup_text ?t 1 = ''x''"
    by (simp add: sit_intern_def sit_find_def sit_lookup_def sit_empty_def to_u32_def Let_def)
  moreover have "NUL \<notin> set (lookup_text ?t 1)" by (simp only: look) simp
  ultimately have "lookup_c_str ?t 1 = lookup_text ?t 1"
    by (intro lookup_c_str_reads_text [of "\<lambda>_. 7" ?t 1])
  then show ?thesis by (simp only: look)
qed

end
