(* ===== verification/Rv64_Frame.thy ===== *)
theory Rv64_Frame
  imports Rv64_Object Rv64_Parse Text_Id_Table "HOL-Library.Monad_Syntax"
begin

text \<open>
  Stack frames of RV64 functions (\<open>backend/mir/riscv/codegen/prepared_frame_emit.cpp\<close>), with the data of the
  frame plan they read (\<open>backend/prealloc/frame.hpp\<close>, \<open>value_locations.hpp\<close>, \<open>addressing.hpp\<close>; fields no function
  here reads are left out). \<open>std::size_t\<close> is \<open>u64\<close>, a pointer that may be null an option. A function that
  appends to a fragment and reports failure returns \<open>None\<close>: what it appended before is given up. 64-bit
  immediates are integers; the difference in \<open>append_rv64_prepared_load_immediate\<close> is exact, in the code it
  overflows for immediates from \<open>2 ^ 63 - 2048\<close> on.
\<close>

unbundle bit_operations_syntax

section \<open>The frame plan\<close>

datatype prepared_register_bank = BankNone | BankGpr | BankFpr | BankVreg | BankAggregateAddress

datatype register_slot_pool = PoolNone | PoolCallerSaved | PoolCalleeSaved | PoolCallArgument | PoolCallResult | PoolReservedScratch

record register_placement =
  rp_bank :: prepared_register_bank
  rp_pool :: register_slot_pool
  rp_slot_index :: u64
  rp_contiguous_width :: u64

definition has_prepared_register_placement :: "register_placement \<Rightarrow> bool" where
  "has_prepared_register_placement p \<longleftrightarrow> rp_bank p \<noteq> BankNone \<and> rp_pool p \<noteq> PoolNone \<and> rp_contiguous_width p > 0"

record saved_slot_placement =
  ss_bank :: prepared_register_bank
  ss_register_name :: string
  ss_contiguous_width :: u64
  ss_occupied_register_names :: "string list"
  ss_save_index :: u64
  ss_register_placement :: "register_placement option"
  ss_slot_id :: "u64 option"
  ss_stack_offset_bytes :: "u64 option"
  ss_size_bytes :: "u64 option"
  ss_align_bytes :: "u64 option"
  ss_fixed_location :: bool

definition has_complete_prepared_saved_register_slot_placement :: "saved_slot_placement \<Rightarrow> bool" where
  "has_complete_prepared_saved_register_slot_placement p \<longleftrightarrow>
     ss_bank p \<noteq> BankNone \<and> ss_register_name p \<noteq> [] \<and> ss_contiguous_width p > 0 \<and> ss_occupied_register_names p \<noteq> [] \<and>
     (case ss_register_placement p of None \<Rightarrow> False | Some rp \<Rightarrow> has_prepared_register_placement rp) \<and>
     ss_slot_id p \<noteq> None \<and> ss_stack_offset_bytes p \<noteq> None \<and>
     (case ss_size_bytes p of None \<Rightarrow> False | Some n \<Rightarrow> n > 0) \<and> (case ss_align_bytes p of None \<Rightarrow> False | Some n \<Rightarrow> n > 0)"

record saved_register =
  sv_bank :: prepared_register_bank
  sv_register_name :: string
  sv_contiguous_width :: u64
  sv_occupied_register_names :: "string list"
  sv_save_index :: u64
  sv_placement :: "register_placement option"
  sv_slot_placement :: "saved_slot_placement option"

record frame_plan =
  fp_function_name :: u32
  fp_frame_size_bytes :: u64
  fp_frame_alignment_bytes :: u64
  fp_saved_callee_registers :: "saved_register list"
  fp_frame_slot_order :: "u64 list"
  fp_has_dynamic_stack :: bool
  fp_uses_frame_pointer_for_fixed_slots :: bool

record frame_slot =
  fs_slot_id :: u64
  fs_function_name :: u32
  fs_offset_bytes :: u64
  fs_size_bytes :: u64
  fs_align_bytes :: u64
  fs_fixed_location :: bool

record stack_layout =
  sl_frame_slots :: "frame_slot list"
  sl_frame_size_bytes :: u64
  sl_frame_alignment_bytes :: u64

record prepared_address =
  pa_frame_slot_id :: "u64 option"
  pa_byte_offset :: int
  pa_size_bytes :: u64

record addressing_function =
  ad_function_name :: u32
  ad_frame_size_bytes :: u64
  ad_frame_alignment_bytes :: u64
  ad_accesses :: "prepared_address list"

datatype value_home_kind = HomeNone | HomeRegister | HomeStackSlot | HomeRematerializableImmediate | HomePointerBasePlusOffset

record value_home =
  vh_kind :: value_home_kind
  vh_register_name :: "string option"
  vh_target_register_bank :: "prepared_register_bank option"
  vh_slot_id :: "u64 option"
  vh_offset_bytes :: "u64 option"
  vh_size_bytes :: "u64 option"
  vh_align_bytes :: "u64 option"

section \<open>Sizes and alignment\<close>

definition kInt64Max :: u64 where "kInt64Max = 2 ^ 63 - 1"

definition kSizeMax :: u64 where "kSizeMax = - 1"

definition fits_signed_12_bit_load_offset :: "u64 \<Rightarrow> bool" where
  "fits_signed_12_bit_load_offset offset_bytes \<longleftrightarrow> offset_bytes \<le> 2047"

definition align_riscv_stack_frame :: "u64 \<Rightarrow> u64" where
  "align_riscv_stack_frame size_bytes = (size_bytes + 15) AND NOT 15"

definition align_riscv_stack_slot :: "u64 \<Rightarrow> u64 \<Rightarrow> u64" where
  "align_riscv_stack_slot offset_bytes align_bytes =
     (if align_bytes \<le> 1 then offset_bytes else (offset_bytes + align_bytes - 1) div align_bytes * align_bytes)"

fun saved_stack_end :: "saved_register list \<Rightarrow> u64 \<Rightarrow> u64 option" where
  "saved_stack_end [] end_offset = Some end_offset"
| "saved_stack_end (s # ss) end_offset =
     (case sv_slot_placement s of
        None \<Rightarrow> None
      | Some slot \<Rightarrow>
          (case (ss_stack_offset_bytes slot, ss_size_bytes slot) of
             (Some off, Some size_bytes) \<Rightarrow>
               if size_bytes = 0 \<or> off > kSizeMax - size_bytes then None
               else saved_stack_end ss (max end_offset (off + size_bytes))
           | _ \<Rightarrow> None))"

definition prepared_saved_register_stack_end :: "frame_plan option \<Rightarrow> u64 option" where
  "prepared_saved_register_stack_end plan =
     (case plan of None \<Rightarrow> Some 0 | Some p \<Rightarrow> saved_stack_end (fp_saved_callee_registers p) 0)"

definition rv64_prepared_supported_fixed_frame_alignment :: "u64 \<Rightarrow> bool" where
  "rv64_prepared_supported_fixed_frame_alignment alignment \<longleftrightarrow>
     alignment > 0 \<and> alignment \<le> 16 \<and> alignment AND (alignment - 1) = 0"

definition align_rv64_prepared_object_stack_frame_size :: "u64 \<Rightarrow> u64 option" where
  "align_rv64_prepared_object_stack_frame_size frame_size =
     (if frame_size = 0 then Some 0
      else if frame_size > kSizeMax - (16 - 1) then None
      else
        let aligned = ((frame_size + 16 - 1) div 16) * 16 in
        if aligned > kInt64Max then None else Some aligned)"

definition rv64_prepared_find_function_frame_slot :: "stack_layout \<Rightarrow> u64 \<Rightarrow> u32 \<Rightarrow> frame_slot option" where
  "rv64_prepared_find_function_frame_slot layout slot_id function_name =
     find (\<lambda>slot. fs_slot_id slot = slot_id \<and> fs_function_name slot = function_name) (sl_frame_slots layout)"

definition rv64_prepared_frame_slot_extent_is_supported :: "frame_slot \<Rightarrow> u64 \<Rightarrow> bool" where
  "rv64_prepared_frame_slot_extent_is_supported slot frame_size \<longleftrightarrow>
     rv64_prepared_supported_fixed_frame_alignment (fs_align_bytes slot) \<and>
     fs_offset_bytes slot \<le> kSizeMax - fs_size_bytes slot \<and> fs_offset_bytes slot + fs_size_bytes slot \<le> frame_size"

text \<open>The addressing data, where there is any, agree with the plan.\<close>

definition addressing_agrees :: "addressing_function option \<Rightarrow> frame_plan \<Rightarrow> bool" where
  "addressing_agrees addressing plan \<longleftrightarrow>
     (case addressing of
        None \<Rightarrow> True
      | Some a \<Rightarrow> ad_function_name a = fp_function_name plan \<and>
          rv64_prepared_supported_fixed_frame_alignment (ad_frame_alignment_bytes a) \<and>
          ad_frame_alignment_bytes a \<le> fp_frame_alignment_bytes plan \<and> ad_frame_size_bytes a \<le> fp_frame_size_bytes plan)"

fun slot_order_ok :: "stack_layout \<Rightarrow> frame_plan \<Rightarrow> u64 list \<Rightarrow> u64 list \<Rightarrow> bool" where
  "slot_order_ok layout plan [] ordered \<longleftrightarrow> True"
| "slot_order_ok layout plan (i # is) ordered \<longleftrightarrow>
     i \<notin> set ordered \<and>
     (case rv64_prepared_find_function_frame_slot layout i (fp_function_name plan) of
        None \<Rightarrow> False
      | Some slot \<Rightarrow> rv64_prepared_frame_slot_extent_is_supported slot (fp_frame_size_bytes plan)) \<and>
     slot_order_ok layout plan is (i # ordered)"

definition function_slots_ok :: "stack_layout \<Rightarrow> frame_plan \<Rightarrow> bool" where
  "function_slots_ok layout plan \<longleftrightarrow>
     list_all (\<lambda>slot. fs_function_name slot = fp_function_name plan \<longrightarrow>
       fs_slot_id slot \<in> set (fp_frame_slot_order plan) \<and> rv64_prepared_frame_slot_extent_is_supported slot (fp_frame_size_bytes plan))
       (sl_frame_slots layout)"

fun saved_frame_size :: "saved_register list \<Rightarrow> u64 \<Rightarrow> u64 option" where
  "saved_frame_size [] frame_size = Some frame_size"
| "saved_frame_size (s # ss) frame_size =
     (case (sv_placement s, sv_slot_placement s) of
        (Some placement, Some slot) \<Rightarrow>
          if \<not> has_prepared_register_placement placement \<or> \<not> has_complete_prepared_saved_register_slot_placement slot \<or>
             \<not> rv64_prepared_supported_fixed_frame_alignment (the (ss_align_bytes slot)) \<or> \<not> ss_fixed_location slot \<or>
             the (ss_stack_offset_bytes slot) > kSizeMax - the (ss_size_bytes slot)
          then None
          else saved_frame_size ss (max frame_size (the (ss_stack_offset_bytes slot) + the (ss_size_bytes slot)))
      | _ \<Rightarrow> None)"

definition rv64_prepared_validated_fixed_frame_size ::
    "addressing_function option \<Rightarrow> frame_plan \<Rightarrow> stack_layout \<Rightarrow> u64 option" where
  "rv64_prepared_validated_fixed_frame_size addressing plan layout =
     (if fp_function_name plan = 0 \<or> fp_has_dynamic_stack plan \<or> fp_uses_frame_pointer_for_fixed_slots plan \<or>
         \<not> rv64_prepared_supported_fixed_frame_alignment (fp_frame_alignment_bytes plan) \<or>
         \<not> addressing_agrees addressing plan \<or>
         \<not> slot_order_ok layout plan (fp_frame_slot_order plan) [] \<or> \<not> function_slots_ok layout plan
      then None
      else
        (case saved_frame_size (fp_saved_callee_registers plan) (fp_frame_size_bytes plan) of
           None \<Rightarrow> None
         | Some frame_size \<Rightarrow> align_rv64_prepared_object_stack_frame_size frame_size))"

fun dynamic_frame_size :: "saved_register list \<Rightarrow> u64 \<Rightarrow> u64" where
  "dynamic_frame_size [] frame_size = frame_size"
| "dynamic_frame_size (s # ss) frame_size =
     (case sv_slot_placement s of
        None \<Rightarrow> dynamic_frame_size ss frame_size
      | Some slot \<Rightarrow>
          if sv_bank s \<noteq> BankGpr \<or> \<not> has_complete_prepared_saved_register_slot_placement slot \<or>
             the (ss_stack_offset_bytes slot) > kSizeMax - the (ss_size_bytes slot)
          then dynamic_frame_size ss frame_size
          else dynamic_frame_size ss (max frame_size (the (ss_stack_offset_bytes slot) + the (ss_size_bytes slot))))"

definition rv64_prepared_validated_dynamic_saved_gpr_frame_size ::
    "addressing_function option \<Rightarrow> frame_plan \<Rightarrow> stack_layout \<Rightarrow> u64 option" where
  "rv64_prepared_validated_dynamic_saved_gpr_frame_size addressing plan layout =
     (if fp_function_name plan = 0 \<or> \<not> fp_has_dynamic_stack plan \<or> fp_uses_frame_pointer_for_fixed_slots plan \<or>
         \<not> rv64_prepared_supported_fixed_frame_alignment (fp_frame_alignment_bytes plan) \<or> fp_frame_slot_order plan \<noteq> [] \<or>
         \<not> (addressing_agrees addressing plan \<and> (case addressing of None \<Rightarrow> True | Some a \<Rightarrow> ad_accesses a = [])) \<or>
         list_ex (\<lambda>slot. fs_function_name slot = fp_function_name plan) (sl_frame_slots layout)
      then None
      else align_rv64_prepared_object_stack_frame_size
             (dynamic_frame_size (fp_saved_callee_registers plan) (fp_frame_size_bytes plan)))"

definition rv64_prepared_object_stack_frame_size ::
    "addressing_function option \<Rightarrow> frame_plan option \<Rightarrow> stack_layout \<Rightarrow> u64 option" where
  "rv64_prepared_object_stack_frame_size addressing plan layout =
     (case plan of
        Some p \<Rightarrow>
          if fp_has_dynamic_stack p then rv64_prepared_validated_dynamic_saved_gpr_frame_size addressing p layout
          else rv64_prepared_validated_fixed_frame_size addressing p layout
      | None \<Rightarrow>
          let addressing_frame_size = (case addressing of None \<Rightarrow> 0 | Some a \<Rightarrow> ad_frame_size_bytes a);
              frame_size = max addressing_frame_size (sl_frame_size_bytes layout) in
          case align_rv64_prepared_object_stack_frame_size frame_size of
            None \<Rightarrow> None
          | Some aligned \<Rightarrow> if fits_signed_12_bit_immediate (sint aligned) then Some aligned else None)"

definition rv64_prepared_call_frame_size :: "u64 \<Rightarrow> u64 option" where
  "rv64_prepared_call_frame_size local_frame_bytes =
     (if local_frame_bytes > kSizeMax - 16 then None else Some (local_frame_bytes + 16))"

definition rv64_prepared_call_frame_ra_offset :: "u64 \<Rightarrow> u64 option" where
  "rv64_prepared_call_frame_ra_offset local_frame_bytes =
     (if local_frame_bytes > kSizeMax - 8 then None else Some (local_frame_bytes + 8))"

section \<open>Registers and offsets\<close>

definition callee_saved_gpr_names :: "string list" where
  "callee_saved_gpr_names = [''s0'', ''fp'', ''s1'', ''s2'', ''s3'', ''s4'', ''s5'', ''s6'', ''s7'', ''s8'', ''s9'', ''s10'', ''s11'']"

definition rv64_prepared_is_callee_saved_gpr_register_name :: "string \<Rightarrow> bool" where
  "rv64_prepared_is_callee_saved_gpr_register_name name \<longleftrightarrow> name \<in> set callee_saved_gpr_names"

definition fpr_table :: "(string \<times> u32) list" where
  "fpr_table =
     [(''fs0'', 8), (''fs1'', 9), (''fs2'', 18), (''fs3'', 19), (''fs4'', 20), (''fs5'', 21), (''fs6'', 22), (''fs7'', 23),
      (''fs8'', 24), (''fs9'', 25), (''fs10'', 26), (''fs11'', 27)]"

definition rv64_prepared_is_callee_saved_fpr_register_name :: "string \<Rightarrow> bool" where
  "rv64_prepared_is_callee_saved_fpr_register_name name \<longleftrightarrow>
     name \<in> set [''fs0'', ''fs1'', ''fs2'', ''fs3'', ''fs4'', ''fs5'', ''fs6'', ''fs7'', ''fs8'', ''fs9'', ''fs10'', ''fs11'']"

definition rv64_prepared_fpr_register_number :: "string \<Rightarrow> u32 option" where
  "rv64_prepared_fpr_register_number name = map_of fpr_table name"

text \<open>The code repeats the number lookup of the line assembler.\<close>

definition rv64_prepared_register_number :: "string \<Rightarrow> u32 option" where
  "rv64_prepared_register_number name = gpr_number name"

text \<open>
  The conditions a saved register has to meet before it is spilled, shared by the two banks; the
  code has them once per bank.
\<close>

definition saved_callee_stack_offset ::
    "prepared_register_bank \<Rightarrow> (string \<Rightarrow> bool) \<Rightarrow> saved_register \<Rightarrow> u64 \<Rightarrow> int option" where
  "saved_callee_stack_offset bank name_ok saved stack_frame_bytes =
     (if sv_bank saved \<noteq> bank \<or> sv_register_name saved = [] \<or> \<not> name_ok (sv_register_name saved) \<or>
         sv_contiguous_width saved \<noteq> 1 \<or> sv_occupied_register_names saved \<noteq> [sv_register_name saved]
      then None
      else
        (case (sv_placement saved, sv_slot_placement saved) of
           (Some placement, Some slot) \<Rightarrow>
             if rp_bank placement \<noteq> bank \<or> rp_pool placement \<noteq> PoolCalleeSaved \<or> rp_contiguous_width placement \<noteq> 1 \<or>
                \<not> has_complete_prepared_saved_register_slot_placement slot \<or>
                ss_bank slot \<noteq> bank \<or> ss_register_name slot \<noteq> sv_register_name saved \<or> ss_contiguous_width slot \<noteq> 1 \<or>
                ss_occupied_register_names slot \<noteq> [sv_register_name saved] \<or> ss_save_index slot \<noteq> sv_save_index saved \<or>
                ss_register_placement slot \<noteq> sv_placement saved
             then None
             else
               (case (ss_stack_offset_bytes slot, ss_size_bytes slot, ss_align_bytes slot) of
                  (Some off, Some size_bytes, Some align_bytes) \<Rightarrow>
                    if size_bytes \<noteq> 8 \<or> align_bytes \<noteq> 8 \<or> \<not> ss_fixed_location slot \<or> off > stack_frame_bytes \<or>
                       stack_frame_bytes - off < size_bytes \<or> off > 2 ^ 31 - 1
                    then None
                    else Some (uint off)
                | _ \<Rightarrow> None)
         | _ \<Rightarrow> None))"

definition rv64_prepared_saved_callee_gpr_stack_offset :: "saved_register \<Rightarrow> u64 \<Rightarrow> int option" where
  "rv64_prepared_saved_callee_gpr_stack_offset =
     saved_callee_stack_offset BankGpr (\<lambda>name. rv64_prepared_is_callee_saved_gpr_register_name name \<and>
       rv64_prepared_register_number name \<noteq> None)"

definition rv64_prepared_saved_callee_fpr_stack_offset :: "saved_register \<Rightarrow> u64 \<Rightarrow> int option" where
  "rv64_prepared_saved_callee_fpr_stack_offset =
     saved_callee_stack_offset BankFpr rv64_prepared_is_callee_saved_fpr_register_name"

definition find_frame_slot_by_id :: "stack_layout \<Rightarrow> u64 \<Rightarrow> frame_slot option" where
  "find_frame_slot_by_id layout slot_id = find (\<lambda>slot. fs_slot_id slot = slot_id) (sl_frame_slots layout)"

definition rv64_prepared_stack_slot_home_absolute_offset :: "stack_layout \<Rightarrow> value_home \<Rightarrow> u64 \<Rightarrow> u64 \<Rightarrow> u64 option" where
  "rv64_prepared_stack_slot_home_absolute_offset layout home stack_frame_bytes size_bytes =
     (case (vh_slot_id home, vh_offset_bytes home) of
        (Some slot_id, Some off) \<Rightarrow>
          if vh_kind home \<noteq> HomeStackSlot \<or> (case vh_size_bytes home of None \<Rightarrow> False | Some n \<Rightarrow> n \<noteq> size_bytes) \<or>
             (case vh_align_bytes home of None \<Rightarrow> False | Some n \<Rightarrow> n > size_bytes)
          then None
          else
            (case find_frame_slot_by_id layout slot_id of
               None \<Rightarrow> None
             | Some slot \<Rightarrow>
                 if fs_size_bytes slot < size_bytes \<or> fs_align_bytes slot > size_bytes \<or> fs_offset_bytes slot \<noteq> off \<or>
                    off > stack_frame_bytes \<or> stack_frame_bytes - off < size_bytes \<or> off > kInt64Max
                 then None
                 else Some off)
      | _ \<Rightarrow> None)"

definition rv64_prepared_stack_slot_home_offset :: "stack_layout \<Rightarrow> value_home \<Rightarrow> u64 \<Rightarrow> u64 \<Rightarrow> int option" where
  "rv64_prepared_stack_slot_home_offset layout home stack_frame_bytes size_bytes =
     (case rv64_prepared_stack_slot_home_absolute_offset layout home stack_frame_bytes size_bytes of
        None \<Rightarrow> None
      | Some off \<Rightarrow> if fits_signed_12_bit_immediate (sint off) then Some (sint off) else None)"

definition rv64_prepared_gpr_register_number_for_home :: "value_home \<Rightarrow> u32 option" where
  "rv64_prepared_gpr_register_number_for_home home =
     (case vh_register_name home of
        None \<Rightarrow> None
      | Some name \<Rightarrow>
          if vh_kind home \<noteq> HomeRegister \<and> vh_kind home \<noteq> HomePointerBasePlusOffset \<or>
             (case vh_target_register_bank home of None \<Rightarrow> False | Some b \<Rightarrow> b \<noteq> BankGpr)
          then None
          else rv64_prepared_register_number name)"

section \<open>Instructions\<close>

definition emit_word :: "u32 \<Rightarrow> encoded_fragment \<Rightarrow> encoded_fragment" where
  "emit_word w fragment = fragment\<lparr>fr_bytes := append_le32 (fr_bytes fragment) w\<rparr>"

definition rv64_temporary_gpr_avoiding :: "u32 \<Rightarrow> u32" where
  "rv64_temporary_gpr_avoiding reserved_register = (if reserved_register = 6 then 7 else 6)"

definition rv64_prepared_load_store_funct3_for_size :: "u64 \<Rightarrow> u32 option" where
  "rv64_prepared_load_store_funct3_for_size size_bytes =
     (if size_bytes = 1 then Some 0 else if size_bytes = 2 then Some 1 else if size_bytes = 4 then Some 2
      else if size_bytes = 8 then Some 3 else None)"

definition append_rv64_store_register_to_base :: "u32 \<Rightarrow> u32 \<Rightarrow> int \<Rightarrow> u64 \<Rightarrow> encoded_fragment \<Rightarrow> encoded_fragment option" where
  "append_rv64_store_register_to_base source_register base_register off size_bytes fragment =
     (if \<not> fits_signed_12_bit_immediate off then None
      else
        (case rv64_prepared_load_store_funct3_for_size size_bytes of
           None \<Rightarrow> None
         | Some funct3 \<Rightarrow> Some (emit_word (encode_s_type 0x23 funct3 base_register source_register (word_of_int off)) fragment)))"

definition append_rv64_load_base_to_register :: "u32 \<Rightarrow> u32 \<Rightarrow> int \<Rightarrow> u64 \<Rightarrow> encoded_fragment \<Rightarrow> encoded_fragment option" where
  "append_rv64_load_base_to_register destination_register base_register off size_bytes fragment =
     (if \<not> fits_signed_12_bit_immediate off then None
      else
        (case rv64_prepared_load_store_funct3_for_size size_bytes of
           None \<Rightarrow> None
         | Some funct3 \<Rightarrow> Some (emit_word (encode_i_type 0x03 destination_register funct3 base_register (word_of_int off)) fragment)))"

definition append_rv64_store_fpr_to_base :: "u32 \<Rightarrow> u32 \<Rightarrow> int \<Rightarrow> encoded_fragment \<Rightarrow> encoded_fragment option" where
  "append_rv64_store_fpr_to_base source_register base_register off fragment =
     (if \<not> fits_signed_12_bit_immediate off then None
      else Some (emit_word (encode_s_type 0x27 3 base_register source_register (word_of_int off)) fragment))"

definition append_rv64_load_base_to_fpr :: "u32 \<Rightarrow> u32 \<Rightarrow> int \<Rightarrow> encoded_fragment \<Rightarrow> encoded_fragment option" where
  "append_rv64_load_base_to_fpr destination_register base_register off fragment =
     (if \<not> fits_signed_12_bit_immediate off then None
      else Some (emit_word (encode_i_type 0x07 destination_register 3 base_register (word_of_int off)) fragment))"

definition append_rv64_store_fpr_to_stack :: "u32 \<Rightarrow> int \<Rightarrow> encoded_fragment \<Rightarrow> encoded_fragment option" where
  "append_rv64_store_fpr_to_stack source_register off fragment =
     (if \<not> fits_signed_12_bit_immediate off then None
      else Some (emit_word (encode_s_type 0x27 3 2 source_register (word_of_int off)) fragment))"

definition append_rv64_load_stack_to_fpr :: "u32 \<Rightarrow> int \<Rightarrow> encoded_fragment \<Rightarrow> encoded_fragment option" where
  "append_rv64_load_stack_to_fpr destination_register off fragment =
     (if \<not> fits_signed_12_bit_immediate off then None
      else Some (emit_word (encode_i_type 0x07 destination_register 3 2 (word_of_int off)) fragment))"

definition append_rv64_prepared_store_register_to_stack :: "u32 \<Rightarrow> int \<Rightarrow> u64 \<Rightarrow> encoded_fragment \<Rightarrow> encoded_fragment option" where
  "append_rv64_prepared_store_register_to_stack source_register off size_bytes fragment =
     (if \<not> fits_signed_12_bit_immediate off then None
      else
        (case rv64_prepared_load_store_funct3_for_size size_bytes of
           None \<Rightarrow> None
         | Some funct3 \<Rightarrow> Some (emit_word (encode_s_type 0x23 funct3 2 source_register (word_of_int off)) fragment)))"

definition append_rv64_prepared_load_stack_to_register :: "u32 \<Rightarrow> int \<Rightarrow> u64 \<Rightarrow> encoded_fragment \<Rightarrow> encoded_fragment option" where
  "append_rv64_prepared_load_stack_to_register destination_register off size_bytes fragment =
     (if \<not> fits_signed_12_bit_immediate off then None
      else
        (case rv64_prepared_load_store_funct3_for_size size_bytes of
           None \<Rightarrow> None
         | Some funct3 \<Rightarrow> Some (emit_word (encode_i_type 0x03 destination_register funct3 2 (word_of_int off)) fragment)))"

definition append_rv64_prepared_move :: "u32 \<Rightarrow> u32 \<Rightarrow> encoded_fragment \<Rightarrow> encoded_fragment" where
  "append_rv64_prepared_move destination source fragment =
     (if destination = source then fragment else emit_word (encode_i_type 0x13 destination 0 source 0) fragment)"

definition append_rv64_prepared_add_registers :: "u32 \<Rightarrow> u32 \<Rightarrow> u32 \<Rightarrow> encoded_fragment \<Rightarrow> encoded_fragment" where
  "append_rv64_prepared_add_registers destination lhs rhs fragment =
     emit_word (encode_r_type 0x33 destination 0 lhs rhs 0) fragment"

definition low_12_bits :: "int \<Rightarrow> int" where
  "low_12_bits immediate =
     (let low_bits = uint ((word_of_int immediate :: u64) AND 0xfff) in if low_bits \<ge> 0x800 then low_bits - 0x1000 else low_bits)"

lemma low_bits_mod: "uint ((word_of_int immediate :: u64) AND 0xfff) = immediate mod 4096"
proof -
  have "(0xfff :: u64) = mask 12" by (simp add: mask_eq_exp_minus_1)
  then have "(word_of_int immediate :: u64) AND 0xfff = take_bit 12 (word_of_int immediate)" by (simp only: take_bit_eq_mask)
  then have "uint ((word_of_int immediate :: u64) AND 0xfff) = take_bit 12 (take_bit 64 immediate)"
    by (simp only: unsigned_take_bit_eq) (simp add: uint_word_of_int_eq)
  then show ?thesis by (simp only: take_bit_take_bit) (simp add: take_bit_eq_mod)
qed

lemma low_12_bits:
  "4096 dvd immediate - low_12_bits immediate" "- 2048 \<le> low_12_bits immediate" "low_12_bits immediate \<le> 2047"
proof -
  show "4096 dvd immediate - low_12_bits immediate"
    by (auto simp: low_12_bits_def Let_def low_bits_mod mod_eq_dvd_iff) presburger+
  define m where "m = immediate mod 4096"
  then have "0 \<le> m" "m < 4096" by simp_all
  moreover have "low_12_bits immediate = (if 2048 \<le> m then m - 4096 else m)"
    by (simp add: low_12_bits_def Let_def low_bits_mod m_def)
  ultimately show "- 2048 \<le> low_12_bits immediate" "low_12_bits immediate \<le> 2047" by simp_all
qed

lemma high_part_smaller: "\<not> fits_signed_12_bit_immediate immediate \<Longrightarrow> \<bar>(immediate - low_12_bits immediate) div 4096\<bar> < \<bar>immediate\<bar>"
proof -
  assume big: "\<not> fits_signed_12_bit_immediate immediate"
  obtain q where q: "immediate - low_12_bits immediate = 4096 * q" using low_12_bits(1) by (rule dvdE)
  then have "(immediate - low_12_bits immediate) div 4096 = q" by simp
  moreover have "\<bar>q\<bar> < \<bar>immediate\<bar>"
    using q big low_12_bits(2,3) [of immediate] unfolding fits_signed_12_bit_immediate_def by linarith
  ultimately show ?thesis by simp
qed

function append_rv64_prepared_load_immediate :: "u32 \<Rightarrow> int \<Rightarrow> encoded_fragment \<Rightarrow> encoded_fragment" where
  "append_rv64_prepared_load_immediate destination immediate fragment =
     (if \<not> fits_signed_12_bit_immediate immediate then
        let lo12 = low_12_bits immediate;
            hi = (immediate - lo12) div 4096;
            fragment = append_rv64_prepared_load_immediate destination hi fragment;
            fragment = emit_word (encode_i_type 0x13 destination 1 destination 12) fragment in
        if lo12 \<noteq> 0 then emit_word (encode_i_type 0x13 destination 0 destination (word_of_int lo12)) fragment else fragment
      else emit_word (encode_i_type 0x13 destination 0 0 (word_of_int immediate)) fragment)"
  by pat_completeness auto
termination
  by (relation "measure (\<lambda>(destination, immediate, fragment). nat \<bar>immediate\<bar>)") (auto dest: high_part_smaller)

declare append_rv64_prepared_load_immediate.simps [simp del]

definition kRv64StackFrameScratchRegister :: u32 where "kRv64StackFrameScratchRegister = 5"

definition append_rv64_prepared_stack_pointer_adjustment :: "int \<Rightarrow> encoded_fragment \<Rightarrow> encoded_fragment option" where
  "append_rv64_prepared_stack_pointer_adjustment byte_delta fragment =
     (if fits_signed_12_bit_immediate byte_delta then Some (emit_word (encode_i_type 0x13 2 0 2 (word_of_int byte_delta)) fragment)
      else Some (append_rv64_prepared_add_registers 2 2 kRv64StackFrameScratchRegister
             (append_rv64_prepared_load_immediate kRv64StackFrameScratchRegister byte_delta fragment)))"

definition append_rv64_prepared_store_fpr_to_stack_offset :: "u32 \<Rightarrow> int \<Rightarrow> encoded_fragment \<Rightarrow> encoded_fragment option" where
  "append_rv64_prepared_store_fpr_to_stack_offset source_register off fragment =
     (if fits_signed_12_bit_immediate off then append_rv64_store_fpr_to_stack source_register off fragment
      else append_rv64_store_fpr_to_base source_register kRv64StackFrameScratchRegister 0
             (append_rv64_prepared_add_registers kRv64StackFrameScratchRegister 2 kRv64StackFrameScratchRegister
               (append_rv64_prepared_load_immediate kRv64StackFrameScratchRegister off fragment)))"

definition append_rv64_prepared_load_stack_offset_to_fpr :: "u32 \<Rightarrow> int \<Rightarrow> encoded_fragment \<Rightarrow> encoded_fragment option" where
  "append_rv64_prepared_load_stack_offset_to_fpr destination_register off fragment =
     (if fits_signed_12_bit_immediate off then append_rv64_load_stack_to_fpr destination_register off fragment
      else append_rv64_load_base_to_fpr destination_register kRv64StackFrameScratchRegister 0
             (append_rv64_prepared_add_registers kRv64StackFrameScratchRegister 2 kRv64StackFrameScratchRegister
               (append_rv64_prepared_load_immediate kRv64StackFrameScratchRegister off fragment)))"

definition append_rv64_prepared_store_register_to_stack_offset ::
    "u32 \<Rightarrow> u64 \<Rightarrow> u64 \<Rightarrow> encoded_fragment \<Rightarrow> encoded_fragment option" where
  "append_rv64_prepared_store_register_to_stack_offset source_register off size_bytes fragment =
     (if off > kInt64Max then None
      else if fits_signed_12_bit_immediate (sint off) then
        append_rv64_prepared_store_register_to_stack source_register (sint off) size_bytes fragment
      else
        let scratch = rv64_temporary_gpr_avoiding source_register in
        append_rv64_store_register_to_base source_register scratch 0 size_bytes
          (append_rv64_prepared_add_registers scratch 2 scratch (append_rv64_prepared_load_immediate scratch (sint off) fragment)))"

definition append_rv64_prepared_load_stack_offset_to_register ::
    "u32 \<Rightarrow> u64 \<Rightarrow> u64 \<Rightarrow> encoded_fragment \<Rightarrow> encoded_fragment option" where
  "append_rv64_prepared_load_stack_offset_to_register destination_register off size_bytes fragment =
     (if off > kInt64Max then None
      else if fits_signed_12_bit_immediate (sint off) then
        append_rv64_prepared_load_stack_to_register destination_register (sint off) size_bytes fragment
      else
        let scratch = rv64_temporary_gpr_avoiding destination_register in
        append_rv64_load_base_to_register destination_register scratch 0 size_bytes
          (append_rv64_prepared_add_registers scratch 2 scratch (append_rv64_prepared_load_immediate scratch (sint off) fragment)))"

section \<open>Saved registers\<close>

definition spill_gpr :: "u64 \<Rightarrow> saved_register \<Rightarrow> encoded_fragment \<Rightarrow> encoded_fragment option" where
  "spill_gpr stack_frame_bytes saved fragment =
     (if sv_bank saved \<noteq> BankGpr then Some fragment
      else
        (case (rv64_prepared_register_number (sv_register_name saved), rv64_prepared_saved_callee_gpr_stack_offset saved stack_frame_bytes) of
           (Some source, Some off) \<Rightarrow> append_rv64_prepared_store_register_to_stack_offset source (word_of_int off) 8 fragment
         | _ \<Rightarrow> None))"

definition restore_gpr :: "u64 \<Rightarrow> saved_register \<Rightarrow> encoded_fragment \<Rightarrow> encoded_fragment option" where
  "restore_gpr stack_frame_bytes saved fragment =
     (if sv_bank saved \<noteq> BankGpr then Some fragment
      else
        (case (rv64_prepared_register_number (sv_register_name saved), rv64_prepared_saved_callee_gpr_stack_offset saved stack_frame_bytes) of
           (Some destination, Some off) \<Rightarrow> append_rv64_prepared_load_stack_offset_to_register destination (word_of_int off) 8 fragment
         | _ \<Rightarrow> None))"

definition spill_fpr :: "u64 \<Rightarrow> saved_register \<Rightarrow> encoded_fragment \<Rightarrow> encoded_fragment option" where
  "spill_fpr stack_frame_bytes saved fragment =
     (if sv_bank saved \<noteq> BankFpr then Some fragment
      else
        (case (rv64_prepared_fpr_register_number (sv_register_name saved), rv64_prepared_saved_callee_fpr_stack_offset saved stack_frame_bytes) of
           (Some source, Some off) \<Rightarrow> append_rv64_prepared_store_fpr_to_stack_offset source off fragment
         | _ \<Rightarrow> None))"

definition restore_fpr :: "u64 \<Rightarrow> saved_register \<Rightarrow> encoded_fragment \<Rightarrow> encoded_fragment option" where
  "restore_fpr stack_frame_bytes saved fragment =
     (if sv_bank saved \<noteq> BankFpr then Some fragment
      else
        (case (rv64_prepared_fpr_register_number (sv_register_name saved), rv64_prepared_saved_callee_fpr_stack_offset saved stack_frame_bytes) of
           (Some destination, Some off) \<Rightarrow> append_rv64_prepared_load_stack_offset_to_fpr destination off fragment
         | _ \<Rightarrow> None))"

definition saved_registers :: "frame_plan option \<Rightarrow> saved_register list" where
  "saved_registers plan = (case plan of None \<Rightarrow> [] | Some p \<Rightarrow> fp_saved_callee_registers p)"

definition append_rv64_prepared_saved_callee_gpr_spills :: "frame_plan option \<Rightarrow> u64 \<Rightarrow> encoded_fragment \<Rightarrow> encoded_fragment option" where
  "append_rv64_prepared_saved_callee_gpr_spills plan stack_frame_bytes = each_step (spill_gpr stack_frame_bytes) (saved_registers plan)"

definition append_rv64_prepared_saved_callee_gpr_restores :: "frame_plan option \<Rightarrow> u64 \<Rightarrow> encoded_fragment \<Rightarrow> encoded_fragment option" where
  "append_rv64_prepared_saved_callee_gpr_restores plan stack_frame_bytes = each_step (restore_gpr stack_frame_bytes) (rev (saved_registers plan))"

definition append_rv64_prepared_saved_callee_fpr_spills :: "frame_plan option \<Rightarrow> u64 \<Rightarrow> encoded_fragment \<Rightarrow> encoded_fragment option" where
  "append_rv64_prepared_saved_callee_fpr_spills plan stack_frame_bytes = each_step (spill_fpr stack_frame_bytes) (saved_registers plan)"

definition append_rv64_prepared_saved_callee_fpr_restores :: "frame_plan option \<Rightarrow> u64 \<Rightarrow> encoded_fragment \<Rightarrow> encoded_fragment option" where
  "append_rv64_prepared_saved_callee_fpr_restores plan stack_frame_bytes = each_step (restore_fpr stack_frame_bytes) (rev (saved_registers plan))"

section \<open>Prologue and epilogue\<close>

definition make_rv64_prepared_call_frame_prologue_fragment :: "frame_plan option \<Rightarrow> u64 \<Rightarrow> encoded_fragment option" where
  "make_rv64_prepared_call_frame_prologue_fragment plan local_frame_bytes =
     (case (rv64_prepared_call_frame_size local_frame_bytes, rv64_prepared_call_frame_ra_offset local_frame_bytes) of
        (Some frame_size, Some ra_offset) \<Rightarrow>
          if frame_size > kInt64Max then None
          else
            do {
              fragment \<leftarrow> append_rv64_prepared_stack_pointer_adjustment (- sint frame_size) empty_fragment;
              fragment \<leftarrow> append_rv64_prepared_store_register_to_stack_offset 1 ra_offset 8 fragment;
              fragment \<leftarrow> append_rv64_prepared_saved_callee_gpr_spills plan local_frame_bytes fragment;
              append_rv64_prepared_saved_callee_fpr_spills plan local_frame_bytes fragment
            }
      | _ \<Rightarrow> None)"

definition make_rv64_prepared_stack_frame_prologue_fragment :: "frame_plan option \<Rightarrow> u64 \<Rightarrow> encoded_fragment option" where
  "make_rv64_prepared_stack_frame_prologue_fragment plan stack_frame_bytes =
     (if stack_frame_bytes > kInt64Max then None
      else
        do {
          fragment \<leftarrow> append_rv64_prepared_stack_pointer_adjustment (- sint stack_frame_bytes) empty_fragment;
          fragment \<leftarrow> append_rv64_prepared_saved_callee_gpr_spills plan stack_frame_bytes fragment;
          append_rv64_prepared_saved_callee_fpr_spills plan stack_frame_bytes fragment
        })"

definition append_rv64_prepared_call_frame_epilogue :: "frame_plan option \<Rightarrow> u64 \<Rightarrow> encoded_fragment \<Rightarrow> encoded_fragment option" where
  "append_rv64_prepared_call_frame_epilogue plan local_frame_bytes fragment =
     (case (rv64_prepared_call_frame_size local_frame_bytes, rv64_prepared_call_frame_ra_offset local_frame_bytes) of
        (Some frame_size, Some ra_offset) \<Rightarrow>
          if frame_size > kInt64Max then None
          else
            do {
              fragment \<leftarrow> append_rv64_prepared_saved_callee_gpr_restores plan local_frame_bytes fragment;
              fragment \<leftarrow> append_rv64_prepared_saved_callee_fpr_restores plan local_frame_bytes fragment;
              fragment \<leftarrow> append_rv64_prepared_load_stack_offset_to_register 1 ra_offset 8 fragment;
              append_rv64_prepared_stack_pointer_adjustment (sint frame_size) fragment
            }
      | _ \<Rightarrow> None)"

definition append_rv64_prepared_stack_frame_epilogue :: "frame_plan option \<Rightarrow> u64 \<Rightarrow> encoded_fragment \<Rightarrow> encoded_fragment option" where
  "append_rv64_prepared_stack_frame_epilogue plan stack_frame_bytes fragment =
     (if stack_frame_bytes = 0 then if saved_registers plan = [] then Some fragment else None
      else
        do {
          fragment \<leftarrow> append_rv64_prepared_saved_callee_gpr_restores plan stack_frame_bytes fragment;
          fragment \<leftarrow> append_rv64_prepared_saved_callee_fpr_restores plan stack_frame_bytes fragment;
          if stack_frame_bytes > kInt64Max then None
          else append_rv64_prepared_stack_pointer_adjustment (sint stack_frame_bytes) fragment
        })"

section \<open>Slots of a function\<close>

text \<open>Exactly one byte slot of the function lies at the cursor.\<close>

fun byte_slot_at :: "u32 \<Rightarrow> u64 \<Rightarrow> bool \<Rightarrow> frame_slot list \<Rightarrow> bool" where
  "byte_slot_at function_name cursor found_slot [] = found_slot"
| "byte_slot_at function_name cursor found_slot (candidate # slots) =
     (if fs_function_name candidate \<noteq> function_name \<or> \<not> fs_fixed_location candidate \<or> fs_size_bytes candidate \<noteq> 1 \<or>
         fs_offset_bytes candidate \<noteq> cursor \<or> fs_offset_bytes candidate > kSizeMax - fs_size_bytes candidate
      then byte_slot_at function_name cursor found_slot slots
      else if fs_offset_bytes candidate + fs_size_bytes candidate \<noteq> cursor + 1 then False
      else if found_slot then False
      else byte_slot_at function_name cursor True slots)"

definition fixed_byte_split_frame_slot_span_covers :: "stack_layout \<Rightarrow> u32 \<Rightarrow> u64 \<Rightarrow> u64 \<Rightarrow> bool" where
  "fixed_byte_split_frame_slot_span_covers layout function_name start_offset size_bytes \<longleftrightarrow>
     \<not> (size_bytes = 0 \<or> start_offset > kSizeMax - size_bytes) \<and>
     list_all (\<lambda>k. byte_slot_at function_name (start_offset + of_nat k) False (sl_frame_slots layout)) [0..<unat size_bytes]"

definition simple_frame_slot_sp_offset_for_access :: "stack_layout \<Rightarrow> u32 \<Rightarrow> prepared_address \<Rightarrow> int option" where
  "simple_frame_slot_sp_offset_for_access layout function_name address =
     (case pa_frame_slot_id address of
        None \<Rightarrow> None
      | Some slot_id \<Rightarrow>
          (case find_frame_slot_by_id layout slot_id of
             None \<Rightarrow> None
           | Some slot \<Rightarrow>
               if fs_function_name slot \<noteq> function_name \<or> pa_byte_offset address < 0 then None
               else
                 let access_offset = word_of_int (pa_byte_offset address) in
                 if access_offset > fs_size_bytes slot then None
                 else if fs_offset_bytes slot > kInt64Max - access_offset then None
                 else
                   let concrete_offset = fs_offset_bytes slot + access_offset;
                       access_fits_slot = pa_size_bytes address \<le> fs_size_bytes slot - access_offset;
                       byte_split = \<not> access_fits_slot \<and> pa_byte_offset address = 0 \<and> pa_size_bytes address = 4 \<and>
                         fs_fixed_location slot \<and> fs_size_bytes slot = 1 in
                   if \<not> access_fits_slot \<and>
                      (\<not> byte_split \<or> \<not> fixed_byte_split_frame_slot_span_covers layout function_name concrete_offset (pa_size_bytes address))
                   then None
                   else if fits_signed_12_bit_immediate (sint concrete_offset) then Some (sint concrete_offset) else None))"

definition simple_frame_slot_sp_offset_for_materialization :: "stack_layout \<Rightarrow> u32 \<Rightarrow> u64 option \<Rightarrow> int \<Rightarrow> int option" where
  "simple_frame_slot_sp_offset_for_materialization layout function_name frame_slot_id byte_offset =
     (case frame_slot_id of
        None \<Rightarrow> None
      | Some slot_id \<Rightarrow>
          if byte_offset < 0 then None
          else
            (case find_frame_slot_by_id layout slot_id of
               None \<Rightarrow> None
             | Some slot \<Rightarrow>
                 if fs_function_name slot \<noteq> function_name then None
                 else if fits_signed_12_bit_immediate byte_offset then Some byte_offset else None))"

section \<open>Assembly text\<close>

definition sanitize_riscv_label_component :: "string \<Rightarrow> string" where
  "sanitize_riscv_label_component s =
     (let result = map (\<lambda>ch. if isalnum ch \<or> ch = CHR ''_'' then ch else CHR ''_'') s in
      if result = [] then ''anon''
      else if isdigit (hd result) then CHR ''_'' # result
      else result)"

definition riscv_local_block_label :: "string \<Rightarrow> string \<Rightarrow> string" where
  "riscv_local_block_label function_name block_label =
     ''.L'' @ sanitize_riscv_label_component function_name @ ''_'' @ sanitize_riscv_label_component block_label"

text \<open>The spelling of a label id in the module's name table, or the given text.\<close>

definition bir_target_label_spelling :: "string_id_table option \<Rightarrow> semantic_name_table \<Rightarrow> u32 \<Rightarrow> string \<Rightarrow> string" where
  "bir_target_label_spelling texts block_labels label_id fallback =
     (if label_id \<noteq> 0 \<and> snt_spelling texts block_labels label_id \<noteq> [] then snt_spelling texts block_labels label_id else fallback)"

definition bir_block_label_spelling :: "string_id_table option \<Rightarrow> semantic_name_table \<Rightarrow> u32 \<Rightarrow> string \<Rightarrow> string" where
  "bir_block_label_spelling texts block_labels block_label_id block_label =
     (if block_label_id \<noteq> 0 \<and> snt_spelling texts block_labels block_label_id \<noteq> [] then snt_spelling texts block_labels block_label_id
      else block_label)"

definition fits_i32_bytewise_stack_offsets :: "int \<Rightarrow> bool" where
  "fits_i32_bytewise_stack_offsets stack_offset \<longleftrightarrow>
     fits_signed_12_bit_immediate stack_offset \<and> fits_signed_12_bit_immediate (stack_offset + 1) \<and>
     fits_signed_12_bit_immediate (stack_offset + 2) \<and> fits_signed_12_bit_immediate (stack_offset + 3)"

definition asm_text_line :: "string \<Rightarrow> string" where
  "asm_text_line s = ''    '' @ s @ [LF]"

definition sp_offset :: "int \<Rightarrow> string" where
  "sp_offset i = show_int i @ ''(sp)''"

definition i32_store_lines :: "string \<Rightarrow> int \<Rightarrow> string list option" where
  "i32_store_lines source_register stack_offset =
     (if stack_offset mod 4 = 0 then Some [''sw '' @ source_register @ '', '' @ sp_offset stack_offset]
      else if \<not> fits_i32_bytewise_stack_offsets stack_offset then None
      else Some
        [''sb '' @ source_register @ '', '' @ sp_offset stack_offset,
         ''srli t2, '' @ source_register @ '', 8'',
         ''sb t2, '' @ sp_offset (stack_offset + 1),
         ''srli t2, '' @ source_register @ '', 16'',
         ''sb t2, '' @ sp_offset (stack_offset + 2),
         ''srli t2, '' @ source_register @ '', 24'',
         ''sb t2, '' @ sp_offset (stack_offset + 3)])"

definition i32_load_lines :: "string \<Rightarrow> int \<Rightarrow> string list option" where
  "i32_load_lines destination_register stack_offset =
     (if stack_offset mod 4 = 0 then Some [''lw '' @ destination_register @ '', '' @ sp_offset stack_offset]
      else if \<not> fits_i32_bytewise_stack_offsets stack_offset then None
      else Some
        [''lbu '' @ destination_register @ '', '' @ sp_offset stack_offset,
         ''lbu t2, '' @ sp_offset (stack_offset + 1),
         ''slli t2, t2, 8'',
         ''or '' @ destination_register @ '', '' @ destination_register @ '', t2'',
         ''lbu t2, '' @ sp_offset (stack_offset + 2),
         ''slli t2, t2, 16'',
         ''or '' @ destination_register @ '', '' @ destination_register @ '', t2'',
         ''lbu t2, '' @ sp_offset (stack_offset + 3),
         ''slli t2, t2, 24'',
         ''or '' @ destination_register @ '', '' @ destination_register @ '', t2'',
         ''slli '' @ destination_register @ '', '' @ destination_register @ '', 32'',
         ''srai '' @ destination_register @ '', '' @ destination_register @ '', 32''])"

definition emit_i32_store_to_stack_offset :: "string \<Rightarrow> int \<Rightarrow> string option" where
  "emit_i32_store_to_stack_offset source_register stack_offset =
     map_option (\<lambda>ls. concat (map asm_text_line ls)) (i32_store_lines source_register stack_offset)"

definition emit_i32_load_from_stack_offset :: "string \<Rightarrow> int \<Rightarrow> string option" where
  "emit_i32_load_from_stack_offset destination_register stack_offset =
     map_option (\<lambda>ls. concat (map asm_text_line ls)) (i32_load_lines destination_register stack_offset)"

end
