(* ===== verification/Rv64_Machine.thy ===== *)
theory Rv64_Machine
  imports Assembler_Decode
begin

text \<open>
  The meaning of the RV64 instructions the frame code consists of, as the instruction set defines
  them: 64-bit registers with \<open>x0\<close> zero, floating-point registers as 64-bit patterns and a byte memory
  with 64-bit addresses. \<open>run_code\<close> executes the bytes of a straight-line fragment; the words are taken
  apart by the field functions of the disassembler.
\<close>

unbundle bit_operations_syntax

section \<open>Registers and memory\<close>

record machine =
  gprs :: "u32 \<Rightarrow> u64"
  fprs :: "u32 \<Rightarrow> u64"
  memory :: "u64 \<Rightarrow> u8"

definition reg :: "machine \<Rightarrow> u32 \<Rightarrow> u64" where
  "reg m r = (if r = 0 then 0 else gprs m r)"

definition set_reg :: "u32 \<Rightarrow> u64 \<Rightarrow> machine \<Rightarrow> machine" where
  "set_reg r v m = (if r = 0 then m else m\<lparr>gprs := (gprs m)(r := v)\<rparr>)"

definition set_fpr :: "u32 \<Rightarrow> u64 \<Rightarrow> machine \<Rightarrow> machine" where
  "set_fpr r v m = m\<lparr>fprs := (fprs m)(r := v)\<rparr>"

definition load_word :: "nat \<Rightarrow> machine \<Rightarrow> u64 \<Rightarrow> 'a::len word" where
  "load_word n m a = or_bytes 0 (map (\<lambda>k. memory m (a + of_nat k)) [0..<n]) 0"

definition store_bytes :: "u64 \<Rightarrow> u8 list \<Rightarrow> machine \<Rightarrow> machine" where
  "store_bytes a bs m = m\<lparr>memory := (\<lambda>x. if unat (x - a) < length bs then bs ! unat (x - a) else memory m x)\<rparr>"

lemma reg_set_reg: "reg (set_reg r v m) x = (if x = r \<and> r \<noteq> 0 then v else reg m x)"
  by (simp add: reg_def set_reg_def)

lemma set_reg_frame [simp]: "fprs (set_reg r v m) = fprs m" "memory (set_reg r v m) = memory m"
  by (simp_all add: set_reg_def)

lemma set_fpr_frame [simp]: "reg (set_fpr r v m) = reg m" "memory (set_fpr r v m) = memory m" "fprs (set_fpr r v m) = (fprs m)(r := v)"
  by (simp_all add: set_fpr_def reg_def fun_eq_iff)

lemma store_bytes_frame [simp]: "reg (store_bytes a bs m) = reg m" "fprs (store_bytes a bs m) = fprs m"
  by (simp_all add: store_bytes_def reg_def fun_eq_iff)

lemma set_reg_twice: "set_reg r v (set_reg r u m) = set_reg r v m"
  by (simp add: set_reg_def)

lemma zero_reg [simp]: "reg m 0 = 0" "set_reg 0 v m = m"
  by (simp_all add: reg_def set_reg_def)

text \<open>What was stored is loaded, and stays through stores elsewhere.\<close>

lemma load_word_cong: "(\<And>k. k < n \<Longrightarrow> memory m (a + of_nat k) = memory m' (a + of_nat k)) \<Longrightarrow> load_word n m a = load_word n m' a"
  unfolding load_word_def by (rule arg_cong [where f = "\<lambda>bs. or_bytes 0 bs 0"]) simp

lemma load_stored: "load_word 8 (store_bytes a (le_bytes 8 v) m) a = (v :: u64)"
proof -
  have "unat (of_nat k :: u64) = k" if "k < 8" for k using that by (intro small_unat_of_nat) simp
  then have "map (\<lambda>k. memory (store_bytes a (le_bytes 8 v) m) (a + of_nat k)) [0..<8] = map ((!) (le_bytes 8 v)) [0..<8]"
    by (intro map_cong) (simp_all add: store_bytes_def)
  also have "\<dots> = le_bytes 8 v" using map_nth [of "le_bytes 8 v"] by simp
  finally show ?thesis by (simp add: load_word_def or_bytes_le_bytes)
qed

section \<open>Instructions\<close>

definition imm_i :: "u32 \<Rightarrow> u64" where
  "imm_i w = scast (signed_drop_bit 20 w)"

definition imm_s :: "u32 \<Rightarrow> u64" where
  "imm_s w = scast (sign_extend (imm12s_of w) 12)"

definition shamt_of :: "u32 \<Rightarrow> nat" where
  "shamt_of w = unat (drop_bit 20 w AND 0x3f)"

definition load_value :: "u32 \<Rightarrow> machine \<Rightarrow> u64 \<Rightarrow> u64 option" where
  "load_value f3 m a =
     (if f3 = 0 then Some (scast (load_word 1 m a :: u8))
      else if f3 = 1 then Some (scast (load_word 2 m a :: u16))
      else if f3 = 2 then Some (scast (load_word 4 m a :: u32))
      else if f3 = 3 then Some (load_word 8 m a)
      else if f3 = 4 then Some (load_word 1 m a)
      else if f3 = 5 then Some (load_word 2 m a)
      else if f3 = 6 then Some (load_word 4 m a)
      else None)"

definition exec_word :: "u32 \<Rightarrow> machine \<Rightarrow> machine option" where
  "exec_word w m =
     (let x = reg m (rs1_of w); y = reg m (rs2_of w); op = opcode_of w; f3 = funct3_of w; rd = rd_of w in
      if op = 0x13 \<and> f3 = 0 then Some (set_reg rd (x + imm_i w) m)
      else if op = 0x13 \<and> f3 = 1 \<and> drop_bit 26 w = 0 then Some (set_reg rd (push_bit (shamt_of w) x) m)
      else if op = 0x13 \<and> f3 = 5 \<and> drop_bit 26 w = 0 then Some (set_reg rd (drop_bit (shamt_of w) x) m)
      else if op = 0x13 \<and> f3 = 5 \<and> drop_bit 26 w = 0x10 then Some (set_reg rd (signed_drop_bit (shamt_of w) x) m)
      else if op = 0x33 \<and> f3 = 0 \<and> funct7_of w = 0 then Some (set_reg rd (x + y) m)
      else if op = 0x33 \<and> f3 = 6 \<and> funct7_of w = 0 then Some (set_reg rd (x OR y) m)
      else if op = 0x03 then map_option (\<lambda>v. set_reg rd v m) (load_value f3 m (x + imm_i w))
      else if op = 0x23 \<and> f3 \<le> 3 then Some (store_bytes (x + imm_s w) (le_bytes (2 ^ unat f3) y) m)
      else if op = 0x07 \<and> f3 = 3 then Some (set_fpr rd (load_word 8 m (x + imm_i w)) m)
      else if op = 0x27 \<and> f3 = 3 then Some (store_bytes (x + imm_s w) (le_bytes 8 (fprs m (rs2_of w))) m)
      else None)"

fun run_code :: "u8 list \<Rightarrow> machine \<Rightarrow> machine option" where
  "run_code [] m = Some m"
| "run_code (a # b # c # d # bs) m = (case exec_word (or_bytes 0 [a, b, c, d] 0) m of None \<Rightarrow> None | Some m \<Rightarrow> run_code bs m)"
| "run_code _ m = None"

lemma run_code_word: "run_code (le_bytes 4 w @ bs) m = (case exec_word w m of None \<Rightarrow> None | Some m \<Rightarrow> run_code bs m)"
proof -
  obtain a b c d where abcd: "le_bytes 4 w = [a, b, c, d]" by (simp add: le_bytes_def upt_rec)
  then have "or_bytes 0 [a, b, c, d] 0 = w" using or_bytes_le_bytes [of 4 w] by simp
  with abcd show ?thesis by simp
qed

lemma run_code_append: "4 dvd length cs \<Longrightarrow> run_code (cs @ bs) m = (case run_code cs m of None \<Rightarrow> None | Some m \<Rightarrow> run_code bs m)"
proof -
  have "4 dvd Suc (Suc (Suc (Suc n))) \<longleftrightarrow> 4 dvd n" "\<not> 4 dvd Suc 0" "\<not> 4 dvd Suc (Suc 0)" "\<not> 4 dvd Suc (Suc (Suc 0))" for n :: nat
    by presburger+
  then show "4 dvd length cs \<Longrightarrow> ?thesis"
    by (induction cs m rule: run_code.induct) (auto split: option.split)
qed

section \<open>Encoded instructions\<close>

lemma small_reg: "r < 32 \<Longrightarrow> r AND 0x1f = (r :: u32)"
proof -
  assume "r < 32"
  then have "uint r < 2 ^ 5" by (simp add: word_less_def)
  then have "r AND mask 5 = r" by (simp only: mask_eq_iff)
  then show ?thesis by (simp add: field_masks)
qed

lemma encoded_rd:
  "rd_of (encode_r_type op rd f3 rs1 rs2 f7) = rd AND 0x1f" "rd_of (encode_i_type op rd f3 rs1 imm) = rd AND 0x1f"
  unfolding encode_r_type_def encode_i_type_def field_of_defs field_masks by (rule word32_eqI; simp add: bit_simps)+

lemma encoded_rs1:
  "rs1_of (encode_r_type op rd f3 rs1 rs2 f7) = rs1 AND 0x1f" "rs1_of (encode_i_type op rd f3 rs1 imm) = rs1 AND 0x1f"
  "rs1_of (encode_s_type op f3 rs1 rs2 imm) = rs1 AND 0x1f"
  unfolding encode_r_type_def encode_i_type_def encode_s_type_def field_of_defs field_masks Let_def
  by (rule word32_eqI; simp add: bit_simps)+

lemma encoded_rs2:
  "rs2_of (encode_r_type op rd f3 rs1 rs2 f7) = rs2 AND 0x1f" "rs2_of (encode_s_type op f3 rs1 rs2 imm) = rs2 AND 0x1f"
  unfolding encode_r_type_def encode_s_type_def field_of_defs field_masks Let_def
  by (rule word32_eqI; simp add: bit_simps)+

lemma scast_small: "- (2 ^ 31) \<le> d \<Longrightarrow> d < 2 ^ 31 \<Longrightarrow> scast (word_of_int d :: u32) = (word_of_int d :: u64)"
  by (simp add: scast_eq sint_small)

lemma decoded_imm_i: "fits_signed_12_bit_immediate d \<Longrightarrow> signed_drop_bit 20 (encode_i_type op rd f3 rs1 (word_of_int d)) = word_of_int d"
proof -
  assume d: "fits_signed_12_bit_immediate d"
  have hi: "11 < k \<Longrightarrow> bit d k = bit d 11" for k
    using d by (intro high_bits [of 11 d k]) (simp_all add: fits_signed_12_bit_immediate_def)
  show ?thesis unfolding encode_i_type_def field_masks by (rule word32_eqI; simp add: bit_simps hi)
qed

lemma decoded_imm_s: "fits_signed_12_bit_immediate d \<Longrightarrow> sign_extend (imm12s_of (encode_s_type op f3 rs1 rs2 (word_of_int d))) 12 = word_of_int d"
proof -
  assume d: "fits_signed_12_bit_immediate d"
  have hi: "11 < k \<Longrightarrow> bit d k = bit d 11" for k
    using d by (intro high_bits [of 11 d k]) (simp_all add: fits_signed_12_bit_immediate_def)
  show ?thesis
    unfolding encode_s_type_def imm12s_of_def sign_extend_def field_masks Let_def by (rule word32_eqI; simp add: bit_simps hi)
qed

lemma encoded_imm_i: "fits_signed_12_bit_immediate d \<Longrightarrow> imm_i (encode_i_type op rd f3 rs1 (word_of_int d)) = word_of_int d"
  by (simp add: imm_i_def decoded_imm_i scast_small fits_signed_12_bit_immediate_def)

lemma encoded_imm_s: "fits_signed_12_bit_immediate d \<Longrightarrow> imm_s (encode_s_type op f3 rs1 rs2 (word_of_int d)) = word_of_int d"
  by (simp add: imm_s_def decoded_imm_s scast_small fits_signed_12_bit_immediate_def)

end
