(* ===== verification/Rv64_Frame_Correct.thy ===== *)
theory Rv64_Frame_Correct
  imports Rv64_Frame Rv64_Machine
begin

text \<open>
  What the frame code of an RV64 function does on the machine: constants are loaded whole, the stack
  pointer is moved by the size of the frame, and the epilogue gives back every register the prologue
  saved. The frame sizes the code accepts cover all slots.
\<close>

unbundle bit_operations_syntax

section \<open>Single instructions\<close>

named_theorems exec_simps

lemma exec_addi [exec_simps]:
  "rd < 32 \<Longrightarrow> rs < 32 \<Longrightarrow> fits_signed_12_bit_immediate d \<Longrightarrow>
     exec_word (encode_i_type 0x13 rd 0 rs (word_of_int d)) m = Some (set_reg rd (reg m rs + word_of_int d) m)"
  by (simp add: exec_word_def Let_def encoded_fields encoded_rd encoded_rs1 encoded_imm_i small_reg)

lemma exec_slli [exec_simps]:
  "rd < 32 \<Longrightarrow> rs < 32 \<Longrightarrow> exec_word (encode_i_type 0x13 rd 1 rs 12) m = Some (set_reg rd (push_bit 12 (reg m rs)) m)"
proof -
  have "drop_bit 26 (encode_i_type 0x13 rd 1 rs 12) = 0"
    unfolding encode_i_type_def field_masks by (rule word32_eqI; simp add: bit_simps)
  moreover have "drop_bit 20 (encode_i_type 0x13 rd 1 rs 12) AND 0x3f = 12"
    unfolding encode_i_type_def field_masks by (rule word32_eqI; simp add: bit_simps)
  ultimately show "rd < 32 \<Longrightarrow> rs < 32 \<Longrightarrow> ?thesis"
    by (simp add: exec_word_def Let_def shamt_of_def encoded_fields encoded_rd encoded_rs1 small_reg)
qed

lemma exec_add [exec_simps]:
  "rd < 32 \<Longrightarrow> rs1 < 32 \<Longrightarrow> rs2 < 32 \<Longrightarrow> exec_word (encode_r_type 0x33 rd 0 rs1 rs2 0) m = Some (set_reg rd (reg m rs1 + reg m rs2) m)"
  by (simp add: exec_word_def Let_def encoded_fields encoded_rd encoded_rs1 encoded_rs2 small_reg)

lemma exec_sd [exec_simps]:
  "rs1 < 32 \<Longrightarrow> rs2 < 32 \<Longrightarrow> fits_signed_12_bit_immediate d \<Longrightarrow>
     exec_word (encode_s_type 0x23 3 rs1 rs2 (word_of_int d)) m = Some (store_bytes (reg m rs1 + word_of_int d) (le_bytes 8 (reg m rs2)) m)"
  by (simp add: exec_word_def Let_def encoded_fields encoded_rs1 encoded_rs2 encoded_imm_s small_reg)

lemma exec_ld [exec_simps]:
  "rd < 32 \<Longrightarrow> rs < 32 \<Longrightarrow> fits_signed_12_bit_immediate d \<Longrightarrow>
     exec_word (encode_i_type 0x03 rd 3 rs (word_of_int d)) m = Some (set_reg rd (load_word 8 m (reg m rs + word_of_int d)) m)"
  by (simp add: exec_word_def Let_def load_value_def encoded_fields encoded_rd encoded_rs1 encoded_imm_i small_reg)

lemma exec_fsd [exec_simps]:
  "rs1 < 32 \<Longrightarrow> rs2 < 32 \<Longrightarrow> fits_signed_12_bit_immediate d \<Longrightarrow>
     exec_word (encode_s_type 0x27 3 rs1 rs2 (word_of_int d)) m = Some (store_bytes (reg m rs1 + word_of_int d) (le_bytes 8 (fprs m rs2)) m)"
  by (simp add: exec_word_def Let_def encoded_fields encoded_rs1 encoded_rs2 encoded_imm_s small_reg)

lemma exec_fld [exec_simps]:
  "rd < 32 \<Longrightarrow> rs < 32 \<Longrightarrow> fits_signed_12_bit_immediate d \<Longrightarrow>
     exec_word (encode_i_type 0x07 rd 3 rs (word_of_int d)) m = Some (set_fpr rd (load_word 8 m (reg m rs + word_of_int d)) m)"
  by (simp add: exec_word_def Let_def encoded_fields encoded_rd encoded_rs1 encoded_imm_i small_reg)

section \<open>Appended code\<close>

text \<open>The fragment is extended by code that always runs to its end and relates the machine states.\<close>

definition appends :: "encoded_fragment \<Rightarrow> encoded_fragment \<Rightarrow> (machine \<Rightarrow> machine \<Rightarrow> bool) \<Rightarrow> bool" where
  "appends f f' R \<longleftrightarrow> (\<exists>cs. f' = f\<lparr>fr_bytes := fr_bytes f @ cs\<rparr> \<and> 4 dvd length cs \<and> (\<forall>m. \<exists>m'. run_code cs m = Some m' \<and> R m m'))"

lemma appends_refl: "appends f f (=)"
  by (auto simp: appends_def intro: exI [of _ "[]"])

lemma appends_mono: "appends f f' R \<Longrightarrow> (\<And>m m'. R m m' \<Longrightarrow> S m m') \<Longrightarrow> appends f f' S"
  unfolding appends_def by blast

lemma appends_trans:
  assumes "appends f f' R" "appends f' f'' S"
  shows "appends f f'' (R OO S)"
proof -
  obtain cs ds where c: "f' = f\<lparr>fr_bytes := fr_bytes f @ cs\<rparr>" "4 dvd length cs" "\<forall>m. \<exists>m'. run_code cs m = Some m' \<and> R m m'"
    and d: "f'' = f'\<lparr>fr_bytes := fr_bytes f' @ ds\<rparr>" "4 dvd length ds" "\<forall>m. \<exists>m'. run_code ds m = Some m' \<and> S m m'"
    using assms unfolding appends_def by blast
  have "\<exists>m'. run_code (cs @ ds) m = Some m' \<and> (R OO S) m m'" for m
  proof -
    obtain m1 where 1: "run_code cs m = Some m1" "R m m1" using c(3) by blast
    obtain m2 where "run_code ds m1 = Some m2" "S m1 m2" using d(3) by blast
    with 1 show ?thesis by (auto simp: run_code_append [OF c(2)])
  qed
  with c d show ?thesis unfolding appends_def by (intro exI [of _ "cs @ ds"]) simp
qed

lemma emit_word_appends:
  assumes "\<And>m. \<exists>m'. exec_word w m = Some m' \<and> R m m'"
  shows "appends f (emit_word w f) R"
proof -
  have "\<exists>m'. run_code (le_bytes 4 w) m = Some m' \<and> R m m'" for m
    using run_code_word [of w "[]" m] assms [of m] by auto
  then show ?thesis
    unfolding appends_def emit_word_def append_le32_le by (intro exI [of _ "le_bytes 4 w"]) simp
qed

text \<open>The common case: what one more instruction does after the code so far.\<close>

lemma emit_word_after:
  assumes "appends f f' R" "\<And>m. exec_word w m = Some (g m)"
  shows "appends f (emit_word w f') (\<lambda>m m'. \<exists>x. R m x \<and> m' = g x)"
  using appends_trans [OF assms(1) emit_word_appends [of w "\<lambda>m m'. m' = g m" f']] assms(2)
  by (auto elim: appends_mono)

section \<open>Constants\<close>

lemma update_again: "set_reg r (g (reg (set_reg r v m) r)) (set_reg r v m) = set_reg r (g v) m"
  by (simp add: reg_def set_reg_def)

lemma load_immediate_appends:
  "rd < 32 \<Longrightarrow> appends f (append_rv64_prepared_load_immediate rd v f) (\<lambda>m m'. m' = set_reg rd (word_of_int v) m)"
proof (induction "nat \<bar>v\<bar>" arbitrary: v rule: less_induct)
  case less
  show ?case
  proof (cases "fits_signed_12_bit_immediate v")
    case True
    then show ?thesis
      using less.prems by (subst append_rv64_prepared_load_immediate.simps) (auto simp: exec_simps intro!: emit_word_appends)
  next
    case False
    define lo q where "lo = low_12_bits v" and "q = (v - low_12_bits v) div 4096"
    have v: "v = 4096 * q + lo" using low_12_bits(1) [of v] by (simp add: lo_def q_def)
    have fits: "fits_signed_12_bit_immediate lo" using low_12_bits(2,3) by (simp add: lo_def fits_signed_12_bit_immediate_def)
    have "appends f (append_rv64_prepared_load_immediate rd q f) (\<lambda>m m'. m' = set_reg rd (word_of_int q) m)"
      using less high_part_smaller [OF False] by (simp add: q_def)
    from emit_word_after [OF this exec_slli [OF less.prems less.prems]]
    have 2: "appends f (emit_word (encode_i_type 0x13 rd 1 rd 12) (append_rv64_prepared_load_immediate rd q f))
        (\<lambda>m m'. m' = set_reg rd (push_bit 12 (word_of_int q)) m)"
      by (rule appends_mono) (auto simp: update_again)
    have shift: "push_bit 12 (word_of_int q) = (word_of_int (4096 * q) :: u64)"
      by (simp add: push_bit_eq_mult)
    show ?thesis
    proof (cases "lo = 0")
      case True
      then have "append_rv64_prepared_load_immediate rd v f = emit_word (encode_i_type 0x13 rd 1 rd 12) (append_rv64_prepared_load_immediate rd q f)"
        using False by (subst append_rv64_prepared_load_immediate.simps) (simp add: Let_def lo_def q_def)
      with 2 show ?thesis by (simp add: shift v True)
    next
      case nonzero: False
      then have "append_rv64_prepared_load_immediate rd v f = emit_word (encode_i_type 0x13 rd 0 rd (word_of_int lo))
          (emit_word (encode_i_type 0x13 rd 1 rd 12) (append_rv64_prepared_load_immediate rd q f))"
        using False by (subst append_rv64_prepared_load_immediate.simps) (simp add: Let_def lo_def q_def)
      moreover from emit_word_after [OF 2 exec_addi [OF less.prems less.prems fits]]
      have "appends f (emit_word (encode_i_type 0x13 rd 0 rd (word_of_int lo))
          (emit_word (encode_i_type 0x13 rd 1 rd 12) (append_rv64_prepared_load_immediate rd q f))) (\<lambda>m m'. m' = set_reg rd (word_of_int v) m)"
        by (rule appends_mono) (auto simp: update_again [of _ "\<lambda>x. x + _"] shift v)
      ultimately show ?thesis by simp
    qed
  qed
qed

text \<open>Ten more bits for every two instructions: 64-bit constants take at most eleven.\<close>

lemma load_immediate_length:
  "\<bar>v\<bar> \<le> 2 ^ (12 * k + 10) \<Longrightarrow> length (fr_bytes (append_rv64_prepared_load_immediate rd v f)) \<le> length (fr_bytes f) + 4 * (2 * k + 1)"
proof (induction k arbitrary: v)
  case 0
  then have "fits_signed_12_bit_immediate v" by (auto simp: fits_signed_12_bit_immediate_def)
  then show ?case by (subst append_rv64_prepared_load_immediate.simps) (simp add: emit_word_def append_le32_le)
next
  case (Suc k)
  define lo q where "lo = low_12_bits v" and "q = (v - low_12_bits v) div 4096"
  have v: "v = 4096 * q + lo" using low_12_bits(1) [of v] by (simp add: lo_def q_def)
  have "- 2048 \<le> lo" "lo \<le> 2047" using low_12_bits(2,3) by (simp_all add: lo_def)
  moreover have "(2 :: int) ^ (12 * Suc k + 10) = 4096 * 2 ^ (12 * k + 10)" by (simp add: power_add)
  ultimately have "\<bar>q\<bar> \<le> 2 ^ (12 * k + 10)" using Suc.prems v by linarith
  from Suc.IH [OF this] show ?case
    unfolding append_rv64_prepared_load_immediate.simps [of rd v f] Let_def lo_def [symmetric] q_def [folded lo_def, symmetric]
    by (simp add: emit_word_def append_le32_le)
qed

section \<open>Moving the stack pointer\<close>

definition same_registers :: "u32 set \<Rightarrow> machine \<Rightarrow> machine \<Rightarrow> bool" where
  "same_registers changed m m' \<longleftrightarrow> (\<forall>x. x \<notin> changed \<longrightarrow> reg m' x = reg m x)"

lemma sp_adjustment_appends:
  assumes "append_rv64_prepared_stack_pointer_adjustment d f = Some f'"
  shows "appends f f' (\<lambda>m m'. reg m' 2 = reg m 2 + word_of_int d \<and> same_registers {2, 5} m m' \<and> fprs m' = fprs m \<and> memory m' = memory m)"
proof (cases "fits_signed_12_bit_immediate d")
  case True
  then show ?thesis
    using assms by (auto simp: append_rv64_prepared_stack_pointer_adjustment_def exec_simps reg_set_reg same_registers_def intro!: emit_word_appends)
next
  case False
  have "appends f f' (\<lambda>m m'. \<exists>x. x = set_reg 5 (word_of_int d) m \<and> m' = set_reg 2 (reg x 2 + reg x 5) x)"
    using assms False emit_word_after [OF load_immediate_appends exec_add, of 5 2 2 5 f d]
    by (simp add: append_rv64_prepared_stack_pointer_adjustment_def append_rv64_prepared_add_registers_def kRv64StackFrameScratchRegister_def)
  then show ?thesis by (rule appends_mono) (auto simp: reg_set_reg same_registers_def)
qed

text \<open>The address of a slot far from the stack pointer.\<close>

lemma slot_address_appends:
  assumes "s < 32" "s \<noteq> 0" "s \<noteq> 2"
  shows "appends f (append_rv64_prepared_add_registers s 2 s (append_rv64_prepared_load_immediate s d f))
    (\<lambda>m m'. m' = set_reg s (reg m 2 + word_of_int d) m)"
proof -
  have "appends f (append_rv64_prepared_add_registers s 2 s (append_rv64_prepared_load_immediate s d f))
      (\<lambda>m m'. \<exists>x. x = set_reg s (word_of_int d) m \<and> m' = set_reg s (reg x 2 + reg x s) x)"
    unfolding append_rv64_prepared_add_registers_def
    using emit_word_after [OF load_immediate_appends [of s f d] exec_add [of s 2 s]] assms by simp
  then show ?thesis using assms by (elim appends_mono) (auto simp: reg_set_reg set_reg_twice)
qed

section \<open>Saving and restoring one register\<close>

definition value_of :: "prepared_register_bank \<Rightarrow> u32 \<Rightarrow> machine \<Rightarrow> u64" where
  "value_of b r m = (if b = BankFpr then fprs m r else reg m r)"

definition spilled :: "prepared_register_bank \<Rightarrow> u32 \<Rightarrow> u64 \<Rightarrow> machine \<Rightarrow> machine \<Rightarrow> bool" where
  "spilled b r off m m' \<longleftrightarrow> same_registers {5, 6, 7} m m' \<and> fprs m' = fprs m \<and>
     memory m' = memory (store_bytes (reg m 2 + off) (le_bytes 8 (value_of b r m)) m)"

definition restored :: "prepared_register_bank \<Rightarrow> u32 \<Rightarrow> u64 \<Rightarrow> machine \<Rightarrow> machine \<Rightarrow> bool" where
  "restored b r off m m' \<longleftrightarrow> value_of b r m' = load_word 8 m (reg m 2 + off) \<and>
     same_registers ({5, 6, 7} \<union> (if b = BankFpr then {} else {r})) m m' \<and>
     (\<forall>x. b = BankFpr \<and> x = r \<or> fprs m' x = fprs m x) \<and> memory m' = memory m"

lemma word_of_int_sint_off: "(word_of_int (sint (off :: u64)) :: u64) = off"
  by simp

lemma temporary: "rv64_temporary_gpr_avoiding r < 32" "rv64_temporary_gpr_avoiding r \<noteq> 0" "rv64_temporary_gpr_avoiding r \<noteq> 2"
  "rv64_temporary_gpr_avoiding r \<noteq> r" "rv64_temporary_gpr_avoiding r = 6 \<or> rv64_temporary_gpr_avoiding r = 7"
  by (auto simp: rv64_temporary_gpr_avoiding_def)

lemma zero_fits: "fits_signed_12_bit_immediate 0"
  by (simp add: fits_signed_12_bit_immediate_def)

lemma store_memory_cong: "memory m = memory m' \<Longrightarrow> memory (store_bytes a bs m) = memory (store_bytes a bs m')"
  by (simp add: store_bytes_def fun_eq_iff)

lemma store_gpr_appends:
  assumes r: "r < 32" and f': "append_rv64_prepared_store_register_to_stack_offset r off 8 f = Some f'"
  shows "appends f f' (spilled BankGpr r off)"
proof (cases "fits_signed_12_bit_immediate (sint off)")
  case True
  then have "f' = emit_word (encode_s_type 0x23 3 2 r (word_of_int (sint off))) f"
    using f' by (simp add: append_rv64_prepared_store_register_to_stack_offset_def append_rv64_prepared_store_register_to_stack_def
        rv64_prepared_load_store_funct3_for_size_def split: if_splits)
  then show ?thesis
    using True r by (auto simp: exec_simps spilled_def value_of_def same_registers_def word_of_int_sint_off simp del: of_int_sint intro!: emit_word_appends)
next
  case False
  define s where "s = rv64_temporary_gpr_avoiding r"
  note s = temporary [of r, folded s_def]
  have f'': "f' = emit_word (encode_s_type 0x23 3 s r (word_of_int 0))
      (append_rv64_prepared_add_registers s 2 s (append_rv64_prepared_load_immediate s (sint off) f))"
    using f' False by (simp add: append_rv64_prepared_store_register_to_stack_offset_def append_rv64_store_register_to_base_def
        rv64_prepared_load_store_funct3_for_size_def zero_fits Let_def flip: s_def split: if_splits)
  have "appends f f' (\<lambda>m m'. \<exists>x. x = set_reg s (reg m 2 + off) m \<and> m' = store_bytes (reg x s) (le_bytes 8 (reg x r)) x)"
    unfolding f'' using emit_word_after [OF slot_address_appends [OF s(1-3), of f "sint off"] exec_sd [OF s(1) r zero_fits]] by simp
  then show ?thesis
    using s by (elim appends_mono) (auto simp: spilled_def value_of_def reg_set_reg same_registers_def intro: store_memory_cong)
qed

lemma load_gpr_appends:
  assumes r: "r < 32" "r \<noteq> 0" and f': "append_rv64_prepared_load_stack_offset_to_register r off 8 f = Some f'"
  shows "appends f f' (restored BankGpr r off)"
proof (cases "fits_signed_12_bit_immediate (sint off)")
  case True
  then have "f' = emit_word (encode_i_type 0x03 r 3 2 (word_of_int (sint off))) f"
    using f' by (simp add: append_rv64_prepared_load_stack_offset_to_register_def append_rv64_prepared_load_stack_to_register_def
        rv64_prepared_load_store_funct3_for_size_def split: if_splits)
  then show ?thesis
    using True r by (auto simp: exec_simps restored_def value_of_def same_registers_def reg_set_reg word_of_int_sint_off
        simp del: of_int_sint intro!: emit_word_appends)
next
  case False
  define s where "s = rv64_temporary_gpr_avoiding r"
  note s = temporary [of r, folded s_def]
  have f'': "f' = emit_word (encode_i_type 0x03 r 3 s (word_of_int 0))
      (append_rv64_prepared_add_registers s 2 s (append_rv64_prepared_load_immediate s (sint off) f))"
    using f' False by (simp add: append_rv64_prepared_load_stack_offset_to_register_def append_rv64_load_base_to_register_def
        rv64_prepared_load_store_funct3_for_size_def zero_fits Let_def flip: s_def split: if_splits)
  have "appends f f' (\<lambda>m m'. \<exists>x. x = set_reg s (reg m 2 + off) m \<and> m' = set_reg r (load_word 8 x (reg x s)) x)"
    unfolding f'' using emit_word_after [OF slot_address_appends [OF s(1-3), of f "sint off"] exec_ld [OF r(1) s(1) zero_fits]] by simp
  then show ?thesis
    using s r by (elim appends_mono) (auto simp: restored_def value_of_def reg_set_reg same_registers_def intro!: load_word_cong)
qed

lemma scratch_register: "kRv64StackFrameScratchRegister < 32" "kRv64StackFrameScratchRegister \<noteq> 0" "kRv64StackFrameScratchRegister \<noteq> 2"
  by (simp_all add: kRv64StackFrameScratchRegister_def)

lemma store_fpr_appends:
  assumes r: "r < 32" and f': "append_rv64_prepared_store_fpr_to_stack_offset r d f = Some f'"
  shows "appends f f' (spilled BankFpr r (word_of_int d))"
proof (cases "fits_signed_12_bit_immediate d")
  case True
  then have "f' = emit_word (encode_s_type 0x27 3 2 r (word_of_int d)) f"
    using f' by (simp add: append_rv64_prepared_store_fpr_to_stack_offset_def append_rv64_store_fpr_to_stack_def)
  then show ?thesis
    using True r by (auto simp: exec_simps spilled_def value_of_def same_registers_def intro!: emit_word_appends)
next
  case False
  let ?s = kRv64StackFrameScratchRegister
  have f'': "f' = emit_word (encode_s_type 0x27 3 ?s r (word_of_int 0))
      (append_rv64_prepared_add_registers ?s 2 ?s (append_rv64_prepared_load_immediate ?s d f))"
    using f' False by (simp add: append_rv64_prepared_store_fpr_to_stack_offset_def append_rv64_store_fpr_to_base_def zero_fits)
  have "appends f f' (\<lambda>m m'. \<exists>x. x = set_reg ?s (reg m 2 + word_of_int d) m \<and> m' = store_bytes (reg x ?s) (le_bytes 8 (fprs x r)) x)"
    unfolding f'' using emit_word_after [OF slot_address_appends [OF scratch_register, of f d] exec_fsd [OF scratch_register(1) r zero_fits]] by simp
  then show ?thesis
    by (elim appends_mono)
       (auto simp: spilled_def value_of_def reg_set_reg same_registers_def kRv64StackFrameScratchRegister_def intro: store_memory_cong)
qed

lemma load_fpr_appends:
  assumes r: "r < 32" and f': "append_rv64_prepared_load_stack_offset_to_fpr r d f = Some f'"
  shows "appends f f' (restored BankFpr r (word_of_int d))"
proof (cases "fits_signed_12_bit_immediate d")
  case True
  then have "f' = emit_word (encode_i_type 0x07 r 3 2 (word_of_int d)) f"
    using f' by (simp add: append_rv64_prepared_load_stack_offset_to_fpr_def append_rv64_load_stack_to_fpr_def)
  then show ?thesis
    using True r by (auto simp: exec_simps restored_def value_of_def same_registers_def intro!: emit_word_appends)
next
  case False
  let ?s = kRv64StackFrameScratchRegister
  have f'': "f' = emit_word (encode_i_type 0x07 r 3 ?s (word_of_int 0))
      (append_rv64_prepared_add_registers ?s 2 ?s (append_rv64_prepared_load_immediate ?s d f))"
    using f' False by (simp add: append_rv64_prepared_load_stack_offset_to_fpr_def append_rv64_load_base_to_fpr_def zero_fits)
  have "appends f f' (\<lambda>m m'. \<exists>x. x = set_reg ?s (reg m 2 + word_of_int d) m \<and> m' = set_fpr r (load_word 8 x (reg x ?s)) x)"
    unfolding f'' using emit_word_after [OF slot_address_appends [OF scratch_register, of f d] exec_fld [OF r scratch_register(1) zero_fits]] by simp
  then show ?thesis
    by (elim appends_mono)
       (auto simp: restored_def value_of_def reg_set_reg same_registers_def kRv64StackFrameScratchRegister_def intro!: load_word_cong)
qed

section \<open>Sequences of code\<close>

fun chain :: "('a \<Rightarrow> machine \<Rightarrow> machine \<Rightarrow> bool) \<Rightarrow> 'a list \<Rightarrow> machine \<Rightarrow> machine \<Rightarrow> bool" where
  "chain R [] m m' \<longleftrightarrow> m' = m"
| "chain R (x # xs) m m' \<longleftrightarrow> (\<exists>m1. R x m m1 \<and> chain R xs m1 m')"

lemma chain_append: "chain R (xs @ ys) m m' \<longleftrightarrow> (\<exists>m1. chain R xs m m1 \<and> chain R ys m1 m')"
  by (induction xs arbitrary: m) auto

lemma chain_map: "chain R (map g xs) = chain (\<lambda>x. R (g x)) xs"
proof (intro ext)
  show "chain R (map g xs) m m' = chain (\<lambda>x. R (g x)) xs m m'" for m m'
    by (induction xs arbitrary: m) simp_all
qed

lemma each_step_appends:
  assumes "\<And>x f f'. x \<in> set xs \<Longrightarrow> step x f = Some f' \<Longrightarrow> appends f f' (if P x then R x else (=))"
  shows "each_step step xs f = Some f' \<Longrightarrow> appends f f' (chain R (filter P xs))"
  using assms
proof (induction xs arbitrary: f)
  case Nil
  then show ?case using appends_refl [of f] by (auto elim: appends_mono)
next
  case (Cons x xs)
  obtain f1 where f1: "step x f = Some f1" "each_step step xs f1 = Some f'" using Cons.prems(1) by (auto split: option.splits)
  from appends_trans [OF Cons.prems(2) [OF _ f1(1)] Cons.IH [OF f1(2) Cons.prems(2)]]
  show ?case by (rule appends_mono) (auto split: if_splits)
qed

section \<open>Slots\<close>

type_synonym slot = "prepared_register_bank \<times> u32 \<times> u64"

definition disjoint_offsets :: "u64 \<Rightarrow> u64 \<Rightarrow> bool" where
  "disjoint_offsets o\<^sub>1 o\<^sub>2 \<longleftrightarrow> unat o\<^sub>1 + 8 \<le> unat o\<^sub>2 \<or> unat o\<^sub>2 + 8 \<le> unat o\<^sub>1"

definition slots_disjoint :: "slot list \<Rightarrow> bool" where
  "slots_disjoint xs \<longleftrightarrow> sorted_wrt (\<lambda>(b, r, o\<^sub>1) (b', r', o\<^sub>2). disjoint_offsets o\<^sub>1 o\<^sub>2) xs"

definition slot_ok :: "nat \<Rightarrow> slot \<Rightarrow> bool" where
  "slot_ok n s \<longleftrightarrow> (case s of (b, r, off) \<Rightarrow> unat off + 8 \<le> n \<and> r < 32 \<and> (b \<noteq> BankFpr \<longrightarrow> r \<notin> {0, 2, 5, 6, 7}))"

definition spill_slot :: "slot \<Rightarrow> machine \<Rightarrow> machine \<Rightarrow> bool" where
  "spill_slot s = (case s of (b, r, off) \<Rightarrow> spilled b r off)"

definition restore_slot :: "slot \<Rightarrow> machine \<Rightarrow> machine \<Rightarrow> bool" where
  "restore_slot s = (case s of (b, r, off) \<Rightarrow> restored b r off)"

lemma outside_slot:
  fixes x base off :: u64
  assumes "unat off + 8 \<le> n" "n \<le> unat (x - base)"
  shows "8 \<le> unat (x - (base + off))"
proof -
  have "x - (base + off) = (x - base) - off" by simp
  moreover have "off \<le> x - base" using assms by (simp add: word_le_nat_alt)
  ultimately have "unat (x - (base + off)) = unat (x - base) - unat off" by (simp only: unat_sub)
  then show ?thesis using assms by simp
qed

lemma other_slot:
  fixes base o\<^sub>1 o\<^sub>2 :: u64
  assumes "disjoint_offsets o\<^sub>1 o\<^sub>2" "unat o\<^sub>1 + 8 \<le> 2 ^ 63" "unat o\<^sub>2 + 8 \<le> 2 ^ 63" "k < 8"
  shows "8 \<le> unat (base + o\<^sub>2 + of_nat k - (base + o\<^sub>1))"
proof -
  have "unat (of_nat k :: u64) = k" using assms(4) by (intro small_unat_of_nat) simp
  then have k: "unat (o\<^sub>2 + of_nat k) = unat o\<^sub>2 + k" using assms(3,4) by (subst unat_add_lem [THEN iffD1]) simp_all
  have "base + o\<^sub>2 + of_nat k - (base + o\<^sub>1) = (o\<^sub>2 + of_nat k) - o\<^sub>1" by simp
  then have "unat (base + o\<^sub>2 + of_nat k - (base + o\<^sub>1)) =
      (if unat o\<^sub>1 \<le> unat o\<^sub>2 + k then unat o\<^sub>2 + k - unat o\<^sub>1 else unat o\<^sub>2 + k + 2 ^ 64 - unat o\<^sub>1)"
    by (simp only: unat_sub_if_size k word_size) simp
  then show ?thesis using assms by (auto simp: disjoint_offsets_def split: if_splits)
qed

lemma load_other:
  assumes "disjoint_offsets o\<^sub>1 o\<^sub>2" "unat o\<^sub>1 + 8 \<le> 2 ^ 63" "unat o\<^sub>2 + 8 \<le> 2 ^ 63" "length bs = 8"
  shows "load_word 8 (store_bytes (base + o\<^sub>1) bs m) (base + o\<^sub>2) = load_word 8 m (base + o\<^sub>2)"
proof (rule load_word_cong)
  fix k :: nat assume "k < 8"
  from other_slot [OF assms(1-3) this, of base]
  have "\<not> unat (base + o\<^sub>2 + of_nat k - (base + o\<^sub>1)) < length bs" by (simp only: assms(4) not_less)
  then show "memory (store_bytes (base + o\<^sub>1) bs m) (base + o\<^sub>2 + of_nat k) = memory m (base + o\<^sub>2 + of_nat k)"
    by (simp add: store_bytes_def)
qed

lemma load_memory: "memory m = memory m' \<Longrightarrow> load_word n m a = load_word n m' a"
  by (rule load_word_cong) simp

lemma spilled_facts:
  assumes "spill_slot s m m1" "slot_ok n s"
  shows "same_registers {5, 6, 7} m m1" "reg m1 2 = reg m 2" "fprs m1 = fprs m"
    "\<And>b r. (b \<noteq> BankFpr \<longrightarrow> r \<notin> {5, 6, 7}) \<Longrightarrow> value_of b r m1 = value_of b r m"
    "load_word 8 m1 (reg m 2 + snd (snd s)) = value_of (fst s) (fst (snd s)) m"
    "n \<le> 2 ^ 63 \<Longrightarrow> disjoint_offsets (snd (snd s)) off \<Longrightarrow> unat off + 8 \<le> n \<Longrightarrow> load_word 8 m1 (reg m 2 + off) = load_word 8 m (reg m 2 + off)"
    "n \<le> unat (a - reg m 2) \<Longrightarrow> memory m1 a = memory m a"
proof -
  obtain b r o' where s: "s = (b, r, o')" by (cases s) auto
  have m1: "same_registers {5, 6, 7} m m1" "fprs m1 = fprs m" "memory m1 = memory (store_bytes (reg m 2 + o') (le_bytes 8 (value_of b r m)) m)"
    using assms(1) by (simp_all add: s spill_slot_def spilled_def)
  have ok: "unat o' + 8 \<le> n" using assms(2) by (simp add: s slot_ok_def)
  note load = load_memory [OF m1(3)]
  show "same_registers {5, 6, 7} m m1" "reg m1 2 = reg m 2" "fprs m1 = fprs m" using m1 by (simp_all add: same_registers_def)
  show "\<And>b r. (b \<noteq> BankFpr \<longrightarrow> r \<notin> {5, 6, 7}) \<Longrightarrow> value_of b r m1 = value_of b r m"
    using m1 by (auto simp: value_of_def same_registers_def)
  show "load_word 8 m1 (reg m 2 + snd (snd s)) = value_of (fst s) (fst (snd s)) m" by (simp add: s load load_stored)
  show "n \<le> 2 ^ 63 \<Longrightarrow> disjoint_offsets (snd (snd s)) off \<Longrightarrow> unat off + 8 \<le> n \<Longrightarrow> load_word 8 m1 (reg m 2 + off) = load_word 8 m (reg m 2 + off)"
    using ok by (simp add: s load load_other)
  show "n \<le> unat (a - reg m 2) \<Longrightarrow> memory m1 a = memory m a"
    using outside_slot [OF ok, of a "reg m 2"] m1(3) by (simp add: store_bytes_def not_less)
qed

lemma spill_chain_frame:
  "chain spill_slot xs m m' \<Longrightarrow> \<forall>s\<in>set xs. slot_ok n s \<Longrightarrow>
     same_registers {5, 6, 7} m m' \<and> fprs m' = fprs m \<and> (\<forall>a. n \<le> unat (a - reg m 2) \<longrightarrow> memory m' a = memory m a)"
proof (induction xs arbitrary: m)
  case (Cons s xs)
  then obtain m1 where m1: "spill_slot s m m1" "chain spill_slot xs m1 m'" by auto
  have "slot_ok n s" using Cons.prems by simp
  note facts = spilled_facts [OF m1(1) this]
  show ?case using Cons.IH [OF m1(2)] Cons.prems(2) facts(1,2,3,7) by (simp add: same_registers_def)
qed (simp add: same_registers_def)

lemma spill_chain_other:
  assumes "n \<le> 2 ^ 63" "unat off + 8 \<le> n"
  shows "chain spill_slot xs m m' \<Longrightarrow> \<forall>s\<in>set xs. slot_ok n s \<Longrightarrow> \<forall>s\<in>set xs. disjoint_offsets (snd (snd s)) off \<Longrightarrow>
    load_word 8 m' (reg m 2 + off) = (load_word 8 m (reg m 2 + off) :: u64)"
proof (induction xs arbitrary: m)
  case (Cons s xs)
  then obtain m1 where m1: "spill_slot s m m1" "chain spill_slot xs m1 m'" by auto
  have "slot_ok n s" using Cons.prems by simp
  note facts = spilled_facts [OF m1(1) this]
  show ?case using Cons.IH [OF m1(2)] Cons.prems(2,3) facts(2) facts(6) [OF assms(1) _ assms(2)] by simp
qed simp

lemma spill_chain_holds:
  assumes "n \<le> 2 ^ 63"
  shows "chain spill_slot xs m m' \<Longrightarrow> \<forall>s\<in>set xs. slot_ok n s \<Longrightarrow> slots_disjoint xs \<Longrightarrow> (b, r, off) \<in> set xs \<Longrightarrow>
    load_word 8 m' (reg m 2 + off) = value_of b r m"
proof (induction xs arbitrary: m)
  case (Cons s xs)
  then obtain m1 where m1: "spill_slot s m m1" "chain spill_slot xs m1 m'" by auto
  have ok: "slot_ok n s" "\<forall>s\<in>set xs. slot_ok n s" using Cons.prems by simp_all
  have dis: "\<forall>x\<in>set xs. disjoint_offsets (snd (snd s)) (snd (snd x))" "slots_disjoint xs"
    using Cons.prems(3) by (simp_all add: slots_disjoint_def split_beta)
  note facts = spilled_facts [OF m1(1) ok(1)]
  show ?case
  proof (cases "(b, r, off) = s")
    case True
    then have "unat off + 8 \<le> n" "\<forall>x\<in>set xs. disjoint_offsets (snd (snd x)) off"
      using ok(1) dis(1) by (auto simp: slot_ok_def disjoint_offsets_def)
    from spill_chain_other [OF assms this(1) m1(2) ok(2) this(2)] show ?thesis using facts(2,5) True by auto
  next
    case False
    then have mem: "(b, r, off) \<in> set xs" using Cons.prems(4) by simp
    then have "slot_ok n (b, r, off)" using ok(2) by blast
    then have "value_of b r m1 = value_of b r m" by (intro facts(4)) (auto simp: slot_ok_def)
    then show ?thesis using Cons.IH [OF m1(2) ok(2) dis(2) mem] facts(2) by simp
  qed
qed simp

definition slot_for :: "prepared_register_bank \<Rightarrow> u32 \<Rightarrow> slot \<Rightarrow> bool" where
  "slot_for b r s \<longleftrightarrow> (b = BankFpr) = (fst s = BankFpr) \<and> r = fst (snd s)"

lemma restored_facts:
  assumes "restore_slot s m m1" "slot_ok n s"
  shows "reg m1 2 = reg m 2" "memory m1 = memory m"
    "slot_for b r s \<Longrightarrow> value_of b r m1 = load_word 8 m (reg m 2 + snd (snd s))"
    "\<not> slot_for b r s \<Longrightarrow> (b \<noteq> BankFpr \<longrightarrow> r \<notin> {5, 6, 7}) \<Longrightarrow> value_of b r m1 = value_of b r m"
proof -
  obtain b' r' o' where s: "s = (b', r', o')" by (cases s) auto
  have ok: "b' \<noteq> BankFpr \<longrightarrow> r' \<noteq> 2" using assms(2) by (auto simp: s slot_ok_def)
  have r: "restored b' r' o' m m1" using assms(1) by (simp add: s restore_slot_def)
  show "reg m1 2 = reg m 2" "memory m1 = memory m"
    "slot_for b r s \<Longrightarrow> value_of b r m1 = load_word 8 m (reg m 2 + snd (snd s))"
    "\<not> slot_for b r s \<Longrightarrow> (b \<noteq> BankFpr \<longrightarrow> r \<notin> {5, 6, 7}) \<Longrightarrow> value_of b r m1 = value_of b r m"
    using r ok by (auto simp: s restored_def same_registers_def value_of_def slot_for_def split: if_splits)
qed

lemma restore_chain_frame:
  "chain restore_slot xs m m' \<Longrightarrow> \<forall>s\<in>set xs. slot_ok n s \<Longrightarrow> reg m' 2 = reg m 2 \<and> memory m' = memory m"
proof (induction xs arbitrary: m)
  case (Cons s xs)
  then obtain m1 where m1: "restore_slot s m m1" "chain restore_slot xs m1 m'" by auto
  have "slot_ok n s" using Cons.prems by simp
  from restored_facts(1,2) [OF m1(1) this] Cons.IH [OF m1(2)] Cons.prems(2) show ?case by simp
qed simp

text \<open>After a chain of restores a register holds the contents of one of its slots, if it has one.\<close>

lemma restore_chain_value:
  assumes br: "b \<noteq> BankFpr \<longrightarrow> r \<notin> {5, 6, 7}"
  shows "chain restore_slot xs m m' \<Longrightarrow> \<forall>s\<in>set xs. slot_ok n s \<Longrightarrow>
     if \<exists>s\<in>set xs. slot_for b r s then \<exists>s\<in>set xs. slot_for b r s \<and> value_of b r m' = load_word 8 m (reg m 2 + snd (snd s))
     else value_of b r m' = value_of b r m"
proof (induction xs arbitrary: m)
  case (Cons s xs)
  then obtain m1 where m1: "restore_slot s m m1" "chain restore_slot xs m1 m'" by auto
  have "slot_ok n s" using Cons.prems by simp
  note facts = restored_facts [OF m1(1) this]
  have same: "load_word 8 m1 a = (load_word 8 m a :: u64)" for a by (rule load_memory) (rule facts(2))
  note IH = Cons.IH [OF m1(2), unfolded same facts(1)]
  show ?case
  proof (cases "\<exists>s\<in>set xs. slot_for b r s")
    case True
    then show ?thesis using IH Cons.prems(2) by auto
  next
    case False
    then show ?thesis using IH Cons.prems(2) facts(3,4) br by auto
  qed
qed simp

section \<open>The slots of a plan\<close>

definition slot_of :: "saved_register \<Rightarrow> slot" where
  "slot_of s = (sv_bank s,
     the (if sv_bank s = BankFpr then rv64_prepared_fpr_register_number (sv_register_name s) else rv64_prepared_register_number (sv_register_name s)),
     the (ss_stack_offset_bytes (the (sv_slot_placement s))))"

definition bank_slots :: "prepared_register_bank \<Rightarrow> frame_plan option \<Rightarrow> slot list" where
  "bank_slots b plan = map slot_of (filter (\<lambda>s. sv_bank s = b) (saved_registers plan))"

lemma saved_offset:
  assumes "saved_callee_stack_offset b name_ok s n = Some d"
  shows "sv_bank s = b" "name_ok (sv_register_name s)" "d = uint (the (ss_stack_offset_bytes (the (sv_slot_placement s))))"
    "unat (the (ss_stack_offset_bytes (the (sv_slot_placement s)))) + 8 \<le> unat n"
proof -
  obtain slot off where s: "sv_slot_placement s = Some slot" "ss_stack_offset_bytes slot = Some off"
    and off: "\<not> off > n" "\<not> n - off < 8" "d = uint off" and b: "sv_bank s = b" "name_ok (sv_register_name s)"
    using assms by (auto simp: saved_callee_stack_offset_def split: if_splits option.splits)
  then have "unat (n - off) = unat n - unat off" "off \<le> n" by (simp_all add: unat_sub)
  then have "unat off + 8 \<le> unat n" using off(2) by (simp add: word_less_nat_alt word_le_nat_alt)
  with s off b show "sv_bank s = b" "name_ok (sv_register_name s)" "d = uint (the (ss_stack_offset_bytes (the (sv_slot_placement s))))"
    "unat (the (ss_stack_offset_bytes (the (sv_slot_placement s)))) + 8 \<le> unat n" by simp_all
qed

lemma callee_saved_numbers:
  "rv64_prepared_is_callee_saved_gpr_register_name name \<Longrightarrow> \<exists>r. rv64_prepared_register_number name = Some r \<and> r < 32 \<and> r \<notin> {0, 2, 5, 6, 7}"
  "rv64_prepared_is_callee_saved_fpr_register_name name \<Longrightarrow> \<exists>r. rv64_prepared_fpr_register_number name = Some r \<and> r < 32"
proof -
  have "list_all (\<lambda>name. case gpr_number name of None \<Rightarrow> False | Some r \<Rightarrow> r < 32 \<and> r \<notin> set [0, 2, 5, 6, 7]) callee_saved_gpr_names"
    by code_simp
  then show "rv64_prepared_is_callee_saved_gpr_register_name name \<Longrightarrow> \<exists>r. rv64_prepared_register_number name = Some r \<and> r < 32 \<and> r \<notin> {0, 2, 5, 6, 7}"
    by (auto simp: rv64_prepared_is_callee_saved_gpr_register_name_def rv64_prepared_register_number_def list_all_iff split: option.splits)
  show "rv64_prepared_is_callee_saved_fpr_register_name name \<Longrightarrow> \<exists>r. rv64_prepared_fpr_register_number name = Some r \<and> r < 32"
    by (auto simp: rv64_prepared_is_callee_saved_fpr_register_name_def rv64_prepared_fpr_register_number_def fpr_table_def)
qed

lemma gpr_slot:
  assumes "rv64_prepared_saved_callee_gpr_stack_offset s n = Some d"
  shows "slot_ok (unat n) (slot_of s)" "\<exists>r. rv64_prepared_register_number (sv_register_name s) = Some r \<and> slot_of s = (BankGpr, r, word_of_int d)"
proof -
  note so = saved_offset [OF assms [unfolded rv64_prepared_saved_callee_gpr_stack_offset_def]]
  obtain r where r: "rv64_prepared_register_number (sv_register_name s) = Some r" "r < 32" "r \<notin> {0, 2, 5, 6, 7}"
    using callee_saved_numbers(1) so(2) by blast
  then show "slot_ok (unat n) (slot_of s)" "\<exists>r. rv64_prepared_register_number (sv_register_name s) = Some r \<and> slot_of s = (BankGpr, r, word_of_int d)"
    using so(1,3,4) by (auto simp: slot_of_def slot_ok_def)
qed

lemma fpr_slot:
  assumes "rv64_prepared_saved_callee_fpr_stack_offset s n = Some d"
  shows "slot_ok (unat n) (slot_of s)" "\<exists>r. rv64_prepared_fpr_register_number (sv_register_name s) = Some r \<and> slot_of s = (BankFpr, r, word_of_int d)"
proof -
  note so = saved_offset [OF assms [unfolded rv64_prepared_saved_callee_fpr_stack_offset_def]]
  obtain r where r: "rv64_prepared_fpr_register_number (sv_register_name s) = Some r" "r < 32"
    using callee_saved_numbers(2) so(2) by blast
  then show "slot_ok (unat n) (slot_of s)" "\<exists>r. rv64_prepared_fpr_register_number (sv_register_name s) = Some r \<and> slot_of s = (BankFpr, r, word_of_int d)"
    using so(1,3,4) by (auto simp: slot_of_def slot_ok_def)
qed

lemma each_step_all: "each_step step xs f = Some f' \<Longrightarrow> x \<in> set xs \<Longrightarrow> \<exists>g g'. step x g = Some g'"
  by (induction xs arbitrary: f) (auto split: option.splits)

text \<open>One round of the four loops over the saved registers, and the loops.\<close>

lemma saved_step:
  assumes step: "(if sv_bank s \<noteq> b then Some f else (case (num, off) of (Some r, Some d) \<Rightarrow> app r d f | _ \<Rightarrow> None)) = Some f'"
    and slot: "\<And>d. off = Some d \<Longrightarrow> slot_ok n (slot_of s)" "\<And>d. off = Some d \<Longrightarrow> \<exists>r. num = Some r \<and> slot_of s = (b, r, word_of_int d)"
    and app: "\<And>r d. slot_ok n (b, r, word_of_int d) \<Longrightarrow> app r d f = Some f' \<Longrightarrow> appends f f' (R (b, r, word_of_int d))"
  shows "appends f f' (if sv_bank s = b then R (slot_of s) else (=))" "sv_bank s = b \<Longrightarrow> slot_ok n (slot_of s)"
proof -
  have "appends f f' (R (slot_of s)) \<and> slot_ok n (slot_of s)" if bank: "sv_bank s = b"
  proof -
    obtain r d where rd: "num = Some r" "off = Some d" "app r d f = Some f'" using step bank by (auto split: option.splits)
    then have "slot_of s = (b, r, word_of_int d)" "slot_ok n (slot_of s)" using slot by fastforce+
    then show ?thesis using app [of r d] rd(3) by simp
  qed
  then show "appends f f' (if sv_bank s = b then R (slot_of s) else (=))" "sv_bank s = b \<Longrightarrow> slot_ok n (slot_of s)"
    using step appends_refl [of f] by (auto split: if_splits)
qed

lemma loop_slots:
  assumes step: "\<And>s f f'. step s f = Some f' \<Longrightarrow> appends f f' (if sv_bank s = b then R (slot_of s) else (=))"
    and ok: "\<And>s f f'. step s f = Some f' \<Longrightarrow> sv_bank s = b \<Longrightarrow> slot_ok n (slot_of s)"
    and run: "each_step step ss f = Some f'"
  shows "appends f f' (chain R (map slot_of (filter (\<lambda>s. sv_bank s = b) ss)))" "\<forall>s\<in>set (map slot_of (filter (\<lambda>s. sv_bank s = b) ss)). slot_ok n s"
proof -
  show "appends f f' (chain R (map slot_of (filter (\<lambda>s. sv_bank s = b) ss)))"
    using each_step_appends [of ss step "\<lambda>s. sv_bank s = b" "\<lambda>s. R (slot_of s)" f f'] step run by (simp add: chain_map)
  show "\<forall>s\<in>set (map slot_of (filter (\<lambda>s. sv_bank s = b) ss)). slot_ok n s"
    using each_step_all [OF run] ok by fastforce
qed

lemma slot_appends:
  "slot_ok n (BankGpr, r, off) \<Longrightarrow> append_rv64_prepared_store_register_to_stack_offset r off 8 f = Some f' \<Longrightarrow> appends f f' (spill_slot (BankGpr, r, off))"
  "slot_ok n (BankGpr, r, off) \<Longrightarrow> append_rv64_prepared_load_stack_offset_to_register r off 8 f = Some f' \<Longrightarrow> appends f f' (restore_slot (BankGpr, r, off))"
  "slot_ok n (BankFpr, r, word_of_int d) \<Longrightarrow> append_rv64_prepared_store_fpr_to_stack_offset r d f = Some f' \<Longrightarrow> appends f f' (spill_slot (BankFpr, r, word_of_int d))"
  "slot_ok n (BankFpr, r, word_of_int d) \<Longrightarrow> append_rv64_prepared_load_stack_offset_to_fpr r d f = Some f' \<Longrightarrow> appends f f' (restore_slot (BankFpr, r, word_of_int d))"
  by (auto simp: slot_ok_def spill_slot_def restore_slot_def intro: store_gpr_appends load_gpr_appends store_fpr_appends load_fpr_appends)

lemma spill_gpr_step:
  assumes "spill_gpr n s f = Some f'"
  shows "appends f f' (if sv_bank s = BankGpr then spill_slot (slot_of s) else (=))" "sv_bank s = BankGpr \<Longrightarrow> slot_ok (unat n) (slot_of s)"
  using saved_step [where R = spill_slot and n = "unat n" and app = "\<lambda>r d. append_rv64_prepared_store_register_to_stack_offset r (word_of_int d) 8",
      OF assms [unfolded spill_gpr_def]] gpr_slot slot_appends(1) by blast+

lemma restore_gpr_step:
  assumes "restore_gpr n s f = Some f'"
  shows "appends f f' (if sv_bank s = BankGpr then restore_slot (slot_of s) else (=))" "sv_bank s = BankGpr \<Longrightarrow> slot_ok (unat n) (slot_of s)"
  using saved_step [where R = restore_slot and n = "unat n" and app = "\<lambda>r d. append_rv64_prepared_load_stack_offset_to_register r (word_of_int d) 8",
      OF assms [unfolded restore_gpr_def]] gpr_slot slot_appends(2) by blast+

lemma spill_fpr_step:
  assumes "spill_fpr n s f = Some f'"
  shows "appends f f' (if sv_bank s = BankFpr then spill_slot (slot_of s) else (=))" "sv_bank s = BankFpr \<Longrightarrow> slot_ok (unat n) (slot_of s)"
  using saved_step [where R = spill_slot and n = "unat n" and app = "\<lambda>r d. append_rv64_prepared_store_fpr_to_stack_offset r d",
      OF assms [unfolded spill_fpr_def]] fpr_slot slot_appends(3) by blast+

lemma restore_fpr_step:
  assumes "restore_fpr n s f = Some f'"
  shows "appends f f' (if sv_bank s = BankFpr then restore_slot (slot_of s) else (=))" "sv_bank s = BankFpr \<Longrightarrow> slot_ok (unat n) (slot_of s)"
  using saved_step [where R = restore_slot and n = "unat n" and app = "\<lambda>r d. append_rv64_prepared_load_stack_offset_to_fpr r d",
      OF assms [unfolded restore_fpr_def]] fpr_slot slot_appends(4) by blast+

lemma gpr_spills:
  assumes "append_rv64_prepared_saved_callee_gpr_spills plan n f = Some f'"
  shows "appends f f' (chain spill_slot (bank_slots BankGpr plan))" "\<forall>s\<in>set (bank_slots BankGpr plan). slot_ok (unat n) s"
  unfolding bank_slots_def rev_map rev_filter
  by (rule loop_slots [OF _ _ assms [unfolded append_rv64_prepared_saved_callee_gpr_spills_def]]; (rule spill_gpr_step; assumption))+

lemma gpr_restores:
  assumes "append_rv64_prepared_saved_callee_gpr_restores plan n f = Some f'"
  shows "appends f f' (chain restore_slot (rev (bank_slots BankGpr plan)))" "\<forall>s\<in>set (rev (bank_slots BankGpr plan)). slot_ok (unat n) s"
  unfolding bank_slots_def rev_map rev_filter
  by (rule loop_slots [OF _ _ assms [unfolded append_rv64_prepared_saved_callee_gpr_restores_def]]; (rule restore_gpr_step; assumption))+

lemma fpr_spills:
  assumes "append_rv64_prepared_saved_callee_fpr_spills plan n f = Some f'"
  shows "appends f f' (chain spill_slot (bank_slots BankFpr plan))" "\<forall>s\<in>set (bank_slots BankFpr plan). slot_ok (unat n) s"
  unfolding bank_slots_def rev_map rev_filter
  by (rule loop_slots [OF _ _ assms [unfolded append_rv64_prepared_saved_callee_fpr_spills_def]]; (rule spill_fpr_step; assumption))+

lemma fpr_restores:
  assumes "append_rv64_prepared_saved_callee_fpr_restores plan n f = Some f'"
  shows "appends f f' (chain restore_slot (rev (bank_slots BankFpr plan)))" "\<forall>s\<in>set (rev (bank_slots BankFpr plan)). slot_ok (unat n) s"
  unfolding bank_slots_def rev_map rev_filter
  by (rule loop_slots [OF _ _ assms [unfolded append_rv64_prepared_saved_callee_fpr_restores_def]]; (rule restore_fpr_step; assumption))+

section \<open>Prologue and epilogue\<close>

definition sp_moved :: "u64 \<Rightarrow> machine \<Rightarrow> machine \<Rightarrow> bool" where
  "sp_moved d m m' \<longleftrightarrow> reg m' 2 = reg m 2 + d \<and> same_registers {2, 5} m m' \<and> fprs m' = fprs m \<and> memory m' = memory m"

text \<open>
  The prologue moves the stack pointer down by the size of the frame and writes to nothing outside of
  the frame. Whatever runs then, as long as it leaves the stack pointer and the slots alone: the
  epilogue gives every register with a slot and the stack pointer the value they had before the
  prologue, and changes neither the memory nor any other register but the temporaries \<open>t0\<close> to \<open>t2\<close>.
\<close>

definition saves_and_restores :: "slot list \<Rightarrow> u64 \<Rightarrow> u8 list \<Rightarrow> u8 list \<Rightarrow> bool" where
  "saves_and_restores xs n pro epi \<longleftrightarrow>
     (\<forall>m. \<exists>m1. run_code pro m = Some m1 \<and> reg m1 2 = reg m 2 - n \<and> same_registers {2, 5, 6, 7} m m1 \<and> fprs m1 = fprs m \<and>
       (\<forall>a. unat n \<le> unat (a - reg m1 2) \<longrightarrow> memory m1 a = memory m a) \<and>
       (\<forall>m2. reg m2 2 = reg m1 2 \<longrightarrow>
         (\<forall>(b, r, off)\<in>set xs. \<forall>k<8. memory m2 (reg m1 2 + off + of_nat k) = memory m1 (reg m1 2 + off + of_nat k)) \<longrightarrow>
         (\<exists>m3. run_code epi m2 = Some m3 \<and> reg m3 2 = reg m 2 \<and> memory m3 = memory m2 \<and>
           (\<forall>(b, r, off)\<in>set xs. value_of b r m3 = value_of b r m) \<and>
           (\<forall>b r. (b \<noteq> BankFpr \<longrightarrow> r \<notin> {2, 5, 6, 7}) \<longrightarrow> \<not> (\<exists>s\<in>set xs. slot_for b r s) \<longrightarrow> value_of b r m3 = value_of b r m2))))"

lemma prologue_effect:
  assumes m1: "(sp_moved (- n) OO chain spill_slot xs) m m1" and ok: "\<forall>s\<in>set xs. slot_ok (unat n) s" "unat n \<le> 2 ^ 63" "slots_disjoint xs"
  shows "reg m1 2 = reg m 2 - n" "same_registers {2, 5, 6, 7} m m1" "fprs m1 = fprs m"
    "unat n \<le> unat (a - reg m1 2) \<Longrightarrow> memory m1 a = memory m a"
    "(b, r, off) \<in> set xs \<Longrightarrow> load_word 8 m1 (reg m1 2 + off) = value_of b r m"
proof -
  obtain m0 where m0: "sp_moved (- n) m m0" "chain spill_slot xs m0 m1" using m1 by blast
  note f = spill_chain_frame [OF m0(2) ok(1)]
  then have sp: "reg m1 2 = reg m0 2" by (simp add: same_registers_def)
  then show "reg m1 2 = reg m 2 - n" using m0(1) by (simp add: sp_moved_def)
  show "same_registers {2, 5, 6, 7} m m1" "fprs m1 = fprs m" using f m0(1) by (simp_all add: sp_moved_def same_registers_def)
  show "unat n \<le> unat (a - reg m1 2) \<Longrightarrow> memory m1 a = memory m a" using f m0(1) sp by (simp add: sp_moved_def)
  show "load_word 8 m1 (reg m1 2 + off) = value_of b r m" if mem: "(b, r, off) \<in> set xs"
  proof -
    have "slot_ok (unat n) (b, r, off)" using ok(1) mem by blast
    then have "value_of b r m0 = value_of b r m" using m0(1) by (auto simp: slot_ok_def value_of_def sp_moved_def same_registers_def)
    then show ?thesis using spill_chain_holds [OF ok(2) m0(2) ok(1,3) mem] sp by simp
  qed
qed

lemma epilogue_effect:
  assumes m3: "(chain restore_slot ys OO sp_moved n) m2 m3" and ok: "\<forall>s\<in>set ys. slot_ok k s"
  shows "reg m3 2 = reg m2 2 + n" "memory m3 = memory m2"
    "(b \<noteq> BankFpr \<longrightarrow> r \<notin> {2, 5, 6, 7}) \<Longrightarrow> \<not> (\<exists>s\<in>set ys. slot_for b r s) \<Longrightarrow> value_of b r m3 = value_of b r m2"
    "(b \<noteq> BankFpr \<longrightarrow> r \<notin> {2, 5, 6, 7}) \<Longrightarrow> \<exists>s\<in>set ys. slot_for b r s \<Longrightarrow>
       \<exists>s\<in>set ys. slot_for b r s \<and> value_of b r m3 = load_word 8 m2 (reg m2 2 + snd (snd s))"
proof -
  obtain m0 where m0: "chain restore_slot ys m2 m0" "sp_moved n m0 m3" using m3 by blast
  note f = restore_chain_frame [OF m0(1) ok]
  show "reg m3 2 = reg m2 2 + n" "memory m3 = memory m2" using f m0(2) by (simp_all add: sp_moved_def)
  have same: "value_of b r m3 = value_of b r m0" if "b \<noteq> BankFpr \<longrightarrow> r \<notin> {2, 5, 6, 7}"
    using m0(2) that by (auto simp: sp_moved_def value_of_def same_registers_def)
  show "(b \<noteq> BankFpr \<longrightarrow> r \<notin> {2, 5, 6, 7}) \<Longrightarrow> \<not> (\<exists>s\<in>set ys. slot_for b r s) \<Longrightarrow> value_of b r m3 = value_of b r m2"
    "(b \<noteq> BankFpr \<longrightarrow> r \<notin> {2, 5, 6, 7}) \<Longrightarrow> \<exists>s\<in>set ys. slot_for b r s \<Longrightarrow>
       \<exists>s\<in>set ys. slot_for b r s \<and> value_of b r m3 = load_word 8 m2 (reg m2 2 + snd (snd s))"
    using restore_chain_value [OF _ m0(1) ok, of b r] same by auto
qed

lemma save_and_restore:
  assumes pro: "appends empty_fragment pro (sp_moved (- n) OO chain spill_slot xs)"
    and epi: "appends f epi (chain restore_slot ys OO sp_moved n)"
    and ok: "\<forall>s\<in>set xs. slot_ok (unat n) s" "unat n \<le> 2 ^ 63" "slots_disjoint xs" and ys: "set ys = set xs"
  shows "\<exists>code. fr_bytes epi = fr_bytes f @ code \<and> saves_and_restores xs n (fr_bytes pro) code"
proof -
  obtain code where code: "fr_bytes epi = fr_bytes f @ code" "\<And>m. \<exists>m'. run_code code m = Some m' \<and> (chain restore_slot ys OO sp_moved n) m m'"
    using epi by (auto simp: appends_def)
  have run: "\<exists>m1. run_code (fr_bytes pro) m = Some m1 \<and> (sp_moved (- n) OO chain spill_slot xs) m m1" for m
    using pro by (auto simp: appends_def empty_fragment_def)
  have "\<exists>m3. run_code code m2 = Some m3 \<and> reg m3 2 = reg m 2 \<and> memory m3 = memory m2 \<and> (\<forall>(b, r, off)\<in>set xs. value_of b r m3 = value_of b r m) \<and>
      (\<forall>b r. (b \<noteq> BankFpr \<longrightarrow> r \<notin> {2, 5, 6, 7}) \<longrightarrow> \<not> (\<exists>s\<in>set xs. slot_for b r s) \<longrightarrow> value_of b r m3 = value_of b r m2)"
    if m1: "(sp_moved (- n) OO chain spill_slot xs) m m1" and m2: "reg m2 2 = reg m1 2"
      and slots: "\<forall>(b, r, off)\<in>set xs. \<forall>k<8. memory m2 (reg m1 2 + off + of_nat k) = memory m1 (reg m1 2 + off + of_nat k)" for m m1 m2
  proof -
    obtain m3 where m3: "run_code code m2 = Some m3" "(chain restore_slot ys OO sp_moved n) m2 m3" using code(2) by blast
    note p = prologue_effect [OF m1 ok] and e = epilogue_effect [OF m3(2), unfolded ys, OF ok(1)]
    have "value_of b r m3 = value_of b r m" if mem: "(b, r, off) \<in> set xs" for b r off
    proof -
      have "slot_ok (unat n) (b, r, off)" using ok(1) mem by blast
      then have br: "b \<noteq> BankFpr \<longrightarrow> r \<notin> {2, 5, 6, 7}" by (auto simp: slot_ok_def)
      have "slot_for b r (b, r, off)" by (simp add: slot_for_def)
      with mem have "\<exists>s\<in>set xs. slot_for b r s" by blast
      from e(4) [OF br this] obtain s where s': "s \<in> set xs" "slot_for b r s" "value_of b r m3 = load_word 8 m2 (reg m2 2 + snd (snd s))" by blast
      obtain b' off' where "s = (b', r, off')" using s'(2) by (cases s) (simp add: slot_for_def)
      with s' have s: "(b', r, off') \<in> set xs" "(b = BankFpr) = (b' = BankFpr)" "value_of b r m3 = load_word 8 m2 (reg m2 2 + off')"
        by (simp_all add: slot_for_def)
      have "load_word 8 m2 (reg m1 2 + off') = (load_word 8 m1 (reg m1 2 + off') :: u64)"
        using slots s(1) by (intro load_word_cong) blast
      then show ?thesis using p(5) [OF s(1)] s(2,3) m2 by (simp add: value_of_def)
    qed
    then have vals: "\<forall>(b, r, off)\<in>set xs. value_of b r m3 = value_of b r m" by blast
    have "reg m3 2 = reg m 2" using e(1) p(1) m2 by simp
    with m3(1) vals e(2,3) show ?thesis by blast
  qed
  note returns = this
  have "saves_and_restores xs n (fr_bytes pro) code"
    unfolding saves_and_restores_def
  proof (intro allI)
    fix m
    obtain m1 where m1: "run_code (fr_bytes pro) m = Some m1" "(sp_moved (- n) OO chain spill_slot xs) m m1" using run by blast
    note p = prologue_effect [OF m1(2) ok]
    show "\<exists>m1. run_code (fr_bytes pro) m = Some m1 \<and> reg m1 2 = reg m 2 - n \<and> same_registers {2, 5, 6, 7} m m1 \<and> fprs m1 = fprs m \<and>
       (\<forall>a. unat n \<le> unat (a - reg m1 2) \<longrightarrow> memory m1 a = memory m a) \<and>
       (\<forall>m2. reg m2 2 = reg m1 2 \<longrightarrow>
         (\<forall>(b, r, off)\<in>set xs. \<forall>k<8. memory m2 (reg m1 2 + off + of_nat k) = memory m1 (reg m1 2 + off + of_nat k)) \<longrightarrow>
         (\<exists>m3. run_code code m2 = Some m3 \<and> reg m3 2 = reg m 2 \<and> memory m3 = memory m2 \<and>
           (\<forall>(b, r, off)\<in>set xs. value_of b r m3 = value_of b r m) \<and>
           (\<forall>b r. (b \<noteq> BankFpr \<longrightarrow> r \<notin> {2, 5, 6, 7}) \<longrightarrow> \<not> (\<exists>s\<in>set xs. slot_for b r s) \<longrightarrow> value_of b r m3 = value_of b r m2)))"
      using m1(1) p(1-4) returns [OF m1(2)] by (intro exI [of _ m1] conjI; blast)
  qed
  with code(1) show ?thesis by blast
qed

lemma sp_moved_appends:
  "append_rv64_prepared_stack_pointer_adjustment d f = Some f' \<Longrightarrow> appends f f' (sp_moved (word_of_int d))"
  by (drule sp_adjustment_appends) (erule appends_mono, simp add: sp_moved_def)

lemma chain_single: "chain R [x] = R x"
  by (simp add: fun_eq_iff)

lemma chain_OO: "chain R xs OO chain R ys = chain R (xs @ ys)"
  by (auto simp: fun_eq_iff chain_append)

lemma call_frame_sizes:
  assumes "rv64_prepared_call_frame_size n = Some fsz" "rv64_prepared_call_frame_ra_offset n = Some ra" "fsz \<le> kInt64Max"
  shows "fsz = n + 16" "ra = n + 8" "unat (n + 16) = unat n + 16" "unat (n + 8) = unat n + 8" "unat (n + 16) \<le> 2 ^ 63"
proof -
  show s: "fsz = n + 16" and "ra = n + 8"
    using assms(1,2) by (simp_all add: rv64_prepared_call_frame_size_def rv64_prepared_call_frame_ra_offset_def split: if_splits)
  have "n \<le> kSizeMax - 16" using assms(1) by (simp add: rv64_prepared_call_frame_size_def split: if_splits)
  then have "unat n \<le> 2 ^ 64 - 17" by (simp add: kSizeMax_def word_le_nat_alt)
  then show "unat (n + 16) = unat n + 16" "unat (n + 8) = unat n + 8"
    by (simp_all add: unat_add_lem [THEN iffD1])
  have "unat kInt64Max \<le> 2 ^ 63" by (simp add: kInt64Max_def)
  then show "unat (n + 16) \<le> 2 ^ 63" using assms(3) unfolding s word_le_nat_alt by (rule le_trans [rotated])
qed

lemma slot_ok_mono: "slot_ok k s \<Longrightarrow> k \<le> n \<Longrightarrow> slot_ok n s"
  by (auto simp: slot_ok_def)

text \<open>A plan that saves one register of each bank, one of them out of reach of a 12-bit offset.\<close>

definition sample_saved :: "prepared_register_bank \<Rightarrow> string \<Rightarrow> u64 \<Rightarrow> saved_register" where
  "sample_saved b name off =
     (let placement = \<lparr>rp_bank = b, rp_pool = PoolCalleeSaved, rp_slot_index = 0, rp_contiguous_width = 1\<rparr> in
      \<lparr>sv_bank = b, sv_register_name = name, sv_contiguous_width = 1, sv_occupied_register_names = [name], sv_save_index = 0,
       sv_placement = Some placement,
       sv_slot_placement = Some \<lparr>ss_bank = b, ss_register_name = name, ss_contiguous_width = 1, ss_occupied_register_names = [name],
         ss_save_index = 0, ss_register_placement = Some placement, ss_slot_id = Some 0, ss_stack_offset_bytes = Some off,
         ss_size_bytes = Some 8, ss_align_bytes = Some 8, ss_fixed_location = True\<rparr>\<rparr>)"

definition sample_plan :: frame_plan where
  "sample_plan = \<lparr>fp_function_name = 1, fp_frame_size_bytes = 4112, fp_frame_alignment_bytes = 16,
     fp_saved_callee_registers = [sample_saved BankGpr ''s1'' 4096, sample_saved BankFpr ''fs0'' 8], fp_frame_slot_order = [],
     fp_has_dynamic_stack = False, fp_uses_frame_pointer_for_fixed_slots = False\<rparr>"

text \<open>
  A function that calls others keeps its caller's registers: for a plan whose slots do not overlap,
  the epilogue undoes the prologue, for the return address, the stack pointer and every saved register of
  either bank, whatever the body does to other memory and registers.
\<close>

theorem call_frame_restores:
  assumes pro: "make_rv64_prepared_call_frame_prologue_fragment plan n = Some pro"
    and epi: "append_rv64_prepared_call_frame_epilogue plan n f = Some epi"
    and disjoint: "slots_disjoint (bank_slots BankGpr plan @ bank_slots BankFpr plan)"
  shows "\<exists>code. fr_bytes epi = fr_bytes f @ code \<and>
    saves_and_restores ((BankGpr, 1, n + 8) # bank_slots BankGpr plan @ bank_slots BankFpr plan) (n + 16) (fr_bytes pro) code"
proof -
  let ?gs = "bank_slots BankGpr plan" and ?fs = "bank_slots BankFpr plan" and ?ra = "(BankGpr, 1, n + 8)"
  obtain fsz ra where sizes: "rv64_prepared_call_frame_size n = Some fsz" "rv64_prepared_call_frame_ra_offset n = Some ra" "fsz \<le> kInt64Max"
    using pro by (auto simp: make_rv64_prepared_call_frame_prologue_fragment_def split: option.splits if_splits)
  note sz = call_frame_sizes [OF sizes]
  obtain p1 p2 p3 where p: "append_rv64_prepared_stack_pointer_adjustment (- sint fsz) empty_fragment = Some p1"
    "append_rv64_prepared_store_register_to_stack_offset 1 ra 8 p1 = Some p2"
    "append_rv64_prepared_saved_callee_gpr_spills plan n p2 = Some p3" "append_rv64_prepared_saved_callee_fpr_spills plan n p3 = Some pro"
    using pro sizes by (auto simp: make_rv64_prepared_call_frame_prologue_fragment_def bind_eq_Some_conv split: if_splits)
  obtain e1 e2 e3 where e: "append_rv64_prepared_saved_callee_gpr_restores plan n f = Some e1"
    "append_rv64_prepared_saved_callee_fpr_restores plan n e1 = Some e2"
    "append_rv64_prepared_load_stack_offset_to_register 1 ra 8 e2 = Some e3"
    "append_rv64_prepared_stack_pointer_adjustment (sint fsz) e3 = Some epi"
    using epi sizes by (auto simp: append_rv64_prepared_call_frame_epilogue_def bind_eq_Some_conv split: if_splits)
  have ra: "slot_ok (unat (n + 16)) ?ra" by (simp add: slot_ok_def sz(3,4))
  have ok: "\<forall>s\<in>set (?ra # ?gs @ ?fs). slot_ok (unat (n + 16)) s"
    using ra gpr_spills(2) [OF p(3)] fpr_spills(2) [OF p(4)] slot_ok_mono sz(3) by fastforce
  have dis: "slots_disjoint (?ra # ?gs @ ?fs)"
    using disjoint gpr_spills(2) [OF p(3)] fpr_spills(2) [OF p(4)]
    by (fastforce simp: slots_disjoint_def disjoint_offsets_def slot_ok_def sz(4))
  have ra_spill: "appends p1 p2 (chain spill_slot [?ra])"
    unfolding chain_single using slot_appends(1) [OF ra] p(2) by (simp add: sz(2))
  have ra_restore: "appends e2 e3 (chain restore_slot [?ra])"
    unfolding chain_single using slot_appends(2) [OF ra] e(3) by (simp add: sz(2))
  have "appends empty_fragment pro (sp_moved (- (n + 16)) OO chain spill_slot (?ra # ?gs @ ?fs))"
    using appends_trans [OF sp_moved_appends [OF p(1)] appends_trans [OF ra_spill
        appends_trans [OF gpr_spills(1) [OF p(3)] fpr_spills(1) [OF p(4)]]]]
    by (simp add: chain_OO sz(1) del: chain.simps)
  moreover have "appends f epi (chain restore_slot (rev ?gs @ rev ?fs @ [?ra]) OO sp_moved (n + 16))"
    using appends_trans [OF appends_trans [OF gpr_restores(1) [OF e(1)] appends_trans [OF fpr_restores(1) [OF e(2)] ra_restore]]
        sp_moved_appends [OF e(4)]]
    by (simp add: chain_OO sz(1) del: chain.simps)
  ultimately show ?thesis by (rule save_and_restore [OF _ _ ok sz(5) dis]) auto
qed

theorem call_frame_restores_witness:
  "\<exists>pro epi code. make_rv64_prepared_call_frame_prologue_fragment (Some sample_plan) 4112 = Some pro \<and>
     append_rv64_prepared_call_frame_epilogue (Some sample_plan) 4112 empty_fragment = Some epi \<and> fr_bytes epi = code \<and>
     saves_and_restores [(BankGpr, 1, 4120), (BankGpr, 9, 4096), (BankFpr, 8, 8)] 4128 (fr_bytes pro) code"
proof -
  have "make_rv64_prepared_call_frame_prologue_fragment (Some sample_plan) 4112 \<noteq> None"
    "append_rv64_prepared_call_frame_epilogue (Some sample_plan) 4112 empty_fragment \<noteq> None" by code_simp+
  then obtain pro epi where pe: "make_rv64_prepared_call_frame_prologue_fragment (Some sample_plan) 4112 = Some pro"
    "append_rv64_prepared_call_frame_epilogue (Some sample_plan) 4112 empty_fragment = Some epi" by blast
  have slots: "bank_slots BankGpr (Some sample_plan) = [(BankGpr, 9, 4096)]" "bank_slots BankFpr (Some sample_plan) = [(BankFpr, 8, 8)]" by code_simp+
  have "slots_disjoint (bank_slots BankGpr (Some sample_plan) @ bank_slots BankFpr (Some sample_plan))"
    by (simp add: slots slots_disjoint_def disjoint_offsets_def)
  from call_frame_restores [OF pe this] pe show ?thesis by (simp add: slots empty_fragment_def)
qed

text \<open>
  The same for a leaf function, which keeps its return address in the register.
\<close>

theorem stack_frame_restores:
  assumes pro: "make_rv64_prepared_stack_frame_prologue_fragment plan n = Some pro"
    and epi: "append_rv64_prepared_stack_frame_epilogue plan n f = Some epi"
    and disjoint: "slots_disjoint (bank_slots BankGpr plan @ bank_slots BankFpr plan)"
  shows "\<exists>code. fr_bytes epi = fr_bytes f @ code \<and>
    saves_and_restores (bank_slots BankGpr plan @ bank_slots BankFpr plan) n (fr_bytes pro) code"
proof -
  let ?gs = "bank_slots BankGpr plan" and ?fs = "bank_slots BankFpr plan"
  have small: "n \<le> kInt64Max" using pro by (simp add: make_rv64_prepared_stack_frame_prologue_fragment_def split: if_splits)
  then have sz: "unat n \<le> 2 ^ 63" by (simp add: kInt64Max_def word_le_nat_alt)
  obtain p1 p2 where p: "append_rv64_prepared_stack_pointer_adjustment (- sint n) empty_fragment = Some p1"
    "append_rv64_prepared_saved_callee_gpr_spills plan n p1 = Some p2" "append_rv64_prepared_saved_callee_fpr_spills plan n p2 = Some pro"
    using pro by (auto simp: make_rv64_prepared_stack_frame_prologue_fragment_def bind_eq_Some_conv split: if_splits)
  have "appends empty_fragment pro (sp_moved (- n) OO chain spill_slot (?gs @ ?fs))"
    using appends_trans [OF sp_moved_appends [OF p(1)] appends_trans [OF gpr_spills(1) [OF p(2)] fpr_spills(1) [OF p(3)]]]
    by (simp add: chain_OO del: chain.simps)
  moreover have "appends f epi (chain restore_slot (rev ?gs @ rev ?fs) OO sp_moved n)"
  proof (cases "n = 0")
    case True
    then have "epi = f" "saved_registers plan = []"
      using epi by (simp_all add: append_rv64_prepared_stack_frame_epilogue_def split: if_splits)
    then show ?thesis
      using appends_refl [of f] True by (auto simp: bank_slots_def sp_moved_def same_registers_def elim!: appends_mono)
  next
    case False
    then obtain e1 e2 where e: "append_rv64_prepared_saved_callee_gpr_restores plan n f = Some e1"
      "append_rv64_prepared_saved_callee_fpr_restores plan n e1 = Some e2" "append_rv64_prepared_stack_pointer_adjustment (sint n) e2 = Some epi"
      using epi small by (auto simp: append_rv64_prepared_stack_frame_epilogue_def bind_eq_Some_conv split: if_splits)
    show ?thesis
      using appends_trans [OF appends_trans [OF gpr_restores(1) [OF e(1)] fpr_restores(1) [OF e(2)]] sp_moved_appends [OF e(3)]]
      by (simp add: chain_OO del: chain.simps)
  qed
  moreover have "\<forall>s\<in>set (?gs @ ?fs). slot_ok (unat n) s" using gpr_spills(2) [OF p(2)] fpr_spills(2) [OF p(3)] by auto
  ultimately show ?thesis by (intro save_and_restore [OF _ _ _ sz disjoint]) auto
qed

theorem stack_frame_restores_witness:
  "\<exists>pro epi code. make_rv64_prepared_stack_frame_prologue_fragment (Some sample_plan) 4112 = Some pro \<and>
     append_rv64_prepared_stack_frame_epilogue (Some sample_plan) 4112 empty_fragment = Some epi \<and> fr_bytes epi = code \<and>
     saves_and_restores [(BankGpr, 9, 4096), (BankFpr, 8, 8)] 4112 (fr_bytes pro) code"
proof -
  have "make_rv64_prepared_stack_frame_prologue_fragment (Some sample_plan) 4112 \<noteq> None"
    "append_rv64_prepared_stack_frame_epilogue (Some sample_plan) 4112 empty_fragment \<noteq> None" by code_simp+
  then obtain pro epi where pe: "make_rv64_prepared_stack_frame_prologue_fragment (Some sample_plan) 4112 = Some pro"
    "append_rv64_prepared_stack_frame_epilogue (Some sample_plan) 4112 empty_fragment = Some epi" by blast
  have slots: "bank_slots BankGpr (Some sample_plan) = [(BankGpr, 9, 4096)]" "bank_slots BankFpr (Some sample_plan) = [(BankFpr, 8, 8)]" by code_simp+
  have "slots_disjoint (bank_slots BankGpr (Some sample_plan) @ bank_slots BankFpr (Some sample_plan))"
    by (simp add: slots slots_disjoint_def disjoint_offsets_def)
  from stack_frame_restores [OF pe this] pe show ?thesis by (simp add: slots empty_fragment_def)
qed

text \<open>
  C10: a constant takes at most eleven instructions, and they leave exactly the constant in the register
  and change nothing else, for every register and every value whose parts the code computes without
  overflow.
\<close>

theorem load_immediate_correct:
  assumes "rd < 32" "- (2 ^ 63) \<le> v" "v < 2 ^ 63 - 2048"
  shows "\<exists>code. append_rv64_prepared_load_immediate rd v f = f\<lparr>fr_bytes := fr_bytes f @ code\<rparr> \<and> length code \<le> 44 \<and>
    (\<forall>m. run_code code m = Some (set_reg rd (word_of_int v) m))"
proof -
  obtain code where code: "append_rv64_prepared_load_immediate rd v f = f\<lparr>fr_bytes := fr_bytes f @ code\<rparr>"
    "\<forall>m. run_code code m = Some (set_reg rd (word_of_int v) m)"
    using load_immediate_appends [OF assms(1), of f v] by (auto simp: appends_def)
  have "\<bar>v\<bar> \<le> 2 ^ (12 * 5 + 10)" using assms by simp
  from load_immediate_length [OF this, of rd f] code show ?thesis by auto
qed

theorem load_immediate_correct_witness:
  "\<exists>code. append_rv64_prepared_load_immediate 10 0x123456789 empty_fragment = empty_fragment\<lparr>fr_bytes := code\<rparr> \<and> length code \<le> 44 \<and>
    (\<forall>m. run_code code m = Some (set_reg 10 0x123456789 m))"
  using load_immediate_correct [where rd = 10 and v = "0x123456789" and f = empty_fragment] by (simp add: empty_fragment_def)

text \<open>From there on the difference of the constant and its low part does not fit the signed type.\<close>

lemma load_immediate_overflows: "2 ^ 63 - 2048 \<le> v \<Longrightarrow> v < 2 ^ 63 \<Longrightarrow> v - low_12_bits v = 2 ^ 63"
proof -
  assume v: "2 ^ 63 - 2048 \<le> v" "v < 2 ^ 63"
  obtain q where q: "v - low_12_bits v = 4096 * q" using low_12_bits(1) by (rule dvdE)
  have "4096 * (2 ^ 51 - 1) < 4096 * q" "4096 * q < 4096 * (2 ^ 51 + 1)"
    using v q low_12_bits(2,3) [of v] by simp_all
  then have "q = 2 ^ 51" by simp
  with q show ?thesis by simp
qed

section \<open>Frame sizes\<close>

lemma sum_no_overflow: "x \<le> kSizeMax - y \<Longrightarrow> unat (x + y) = unat x + unat y" for x y :: u64
proof -
  assume x: "x \<le> kSizeMax - y"
  have "y \<le> - 1" by (rule word_order.extremum)
  then have "unat (- 1 - y) = unat (- 1 :: u64) - unat y" by (rule unat_sub)
  then have "unat (- 1 - y) = 2 ^ 64 - 1 - unat y" by (simp add: unsigned_minus_1_eq_mask mask_eq_exp_minus_1)
  then have "unat x \<le> 2 ^ 64 - 1 - unat y" using x by (simp only: kSizeMax_def word_le_nat_alt)
  moreover have "unat y < 2 ^ 64" using unsigned_less [of y, where ?'a = nat] by simp
  ultimately have "unat x + unat y < 2 ^ 64" by linarith
  then show ?thesis by (subst unat_add_lem [THEN iffD1]) simp_all
qed

lemma aligned_size:
  assumes "align_rv64_prepared_object_stack_frame_size n = Some k"
  shows "16 dvd unat k" "n \<le> k" "unat k < unat n + 16" "k \<le> kInt64Max"
proof -
  have "16 dvd unat k \<and> n \<le> k \<and> unat k < unat n + 16 \<and> k \<le> kInt64Max"
  proof (cases "n = 0")
    case True
    then show ?thesis using assms by (simp add: align_rv64_prepared_object_stack_frame_size_def)
  next
    case False
    then have n: "n \<le> kSizeMax - 15" and k: "k = (n + 15) div 16 * 16" "k \<le> kInt64Max"
      using assms by (auto simp: align_rv64_prepared_object_stack_frame_size_def Let_def add.commute [of 15] split: if_splits)
    have s: "unat (n + 15) = unat n + 15" using sum_no_overflow [OF n] by simp
    have "unat k = (unat n + 15) div 16 * 16"
    proof -
      have "unat ((n + 15) div 16) = (unat n + 15) div 16" by (simp add: unat_div s)
      moreover have "(unat n + 15) div 16 * 16 < 2 ^ 64" using unsigned_less [of "n + 15", where ?'a = nat] s by simp
      ultimately show ?thesis unfolding k(1) by (subst unat_mult_lem [THEN iffD1]) simp_all
    qed
    then have "16 dvd unat k" "unat n \<le> unat k" "unat k < unat n + 16" by simp_all
    with k(2) show ?thesis by (simp add: word_le_nat_alt)
  qed
  then show "16 dvd unat k" "n \<le> k" "unat k < unat n + 16" "k \<le> kInt64Max" by simp_all
qed

lemma saved_frame_size_covers:
  "saved_frame_size ss n = Some k \<Longrightarrow> n \<le> k \<and> (\<forall>s\<in>set ss. \<exists>slot off sz. sv_slot_placement s = Some slot \<and>
     ss_stack_offset_bytes slot = Some off \<and> ss_size_bytes slot = Some sz \<and> unat off + unat sz \<le> unat k)"
proof (induction ss arbitrary: n)
  case (Cons s ss)
  then obtain slot where slot: "sv_slot_placement s = Some slot" "has_complete_prepared_saved_register_slot_placement slot"
    and fits: "\<not> the (ss_stack_offset_bytes slot) > kSizeMax - the (ss_size_bytes slot)"
    and run: "saved_frame_size ss (max n (the (ss_stack_offset_bytes slot) + the (ss_size_bytes slot))) = Some k"
    by (auto split: option.splits if_splits)
  obtain off sz where os: "ss_stack_offset_bytes slot = Some off" "ss_size_bytes slot = Some sz"
    using slot(2) by (auto simp: has_complete_prepared_saved_register_slot_placement_def split: option.splits)
  have "unat (off + sz) = unat off + unat sz" using fits os by (intro sum_no_overflow) simp
  moreover have "n \<le> k" "off + sz \<le> k" using Cons.IH [OF run] os by simp_all
  ultimately show ?case using Cons.IH [OF run] slot(1) os by (simp add: word_le_nat_alt)
qed simp

lemma slot_order_distinct: "slot_order_ok layout plan is seen \<Longrightarrow> distinct is \<and> set is \<inter> set seen = {}"
  by (induction layout plan "is" seen rule: slot_order_ok.induct) auto

text \<open>
  C37: a frame size that passes the validation is a multiple of 16 that fits a signed 64-bit value and
  covers everything the function keeps in its frame: the slots of the stack layout and the save slots
  of the plan lie inside of it, computed without overflow, and no slot is listed twice.
\<close>

theorem validated_frame_size_covers:
  assumes "rv64_prepared_validated_fixed_frame_size addressing plan layout = Some n"
  shows "16 dvd unat n \<and> n \<le> kInt64Max \<and> distinct (fp_frame_slot_order plan) \<and>
    (\<forall>slot\<in>set (sl_frame_slots layout). fs_function_name slot = fp_function_name plan \<longrightarrow>
       fs_slot_id slot \<in> set (fp_frame_slot_order plan) \<and> unat (fs_offset_bytes slot) + unat (fs_size_bytes slot) \<le> unat n) \<and>
    (\<forall>s\<in>set (fp_saved_callee_registers plan). \<exists>slot off sz. sv_slot_placement s = Some slot \<and>
       ss_stack_offset_bytes slot = Some off \<and> ss_size_bytes slot = Some sz \<and> unat off + unat sz \<le> unat n)"
proof -
  obtain k where k: "saved_frame_size (fp_saved_callee_registers plan) (fp_frame_size_bytes plan) = Some k"
    "align_rv64_prepared_object_stack_frame_size k = Some n" and order: "slot_order_ok layout plan (fp_frame_slot_order plan) []"
    and slots: "function_slots_ok layout plan"
    using assms by (auto simp: rv64_prepared_validated_fixed_frame_size_def split: if_splits option.splits)
  note a = aligned_size [OF k(2)] and c = saved_frame_size_covers [OF k(1)]
  have kn: "unat k \<le> unat n" using a(2) by (simp add: word_le_nat_alt)
  have "fs_slot_id slot \<in> set (fp_frame_slot_order plan) \<and> unat (fs_offset_bytes slot) + unat (fs_size_bytes slot) \<le> unat n"
    if slot: "slot \<in> set (sl_frame_slots layout)" "fs_function_name slot = fp_function_name plan" for slot
  proof -
    have i: "fs_slot_id slot \<in> set (fp_frame_slot_order plan)"
      and x: "fs_offset_bytes slot \<le> kSizeMax - fs_size_bytes slot" "fs_offset_bytes slot + fs_size_bytes slot \<le> fp_frame_size_bytes plan"
      using slots slot by (auto simp: function_slots_ok_def list_all_iff rv64_prepared_frame_slot_extent_is_supported_def)
    have "fs_offset_bytes slot + fs_size_bytes slot \<le> k" using x(2) c by (blast intro: order_trans)
    then show ?thesis using i kn by (simp add: word_le_nat_alt sum_no_overflow [OF x(1)])
  qed
  then have slots': "\<forall>slot\<in>set (sl_frame_slots layout). fs_function_name slot = fp_function_name plan \<longrightarrow>
      fs_slot_id slot \<in> set (fp_frame_slot_order plan) \<and> unat (fs_offset_bytes slot) + unat (fs_size_bytes slot) \<le> unat n" by blast
  have "\<forall>s\<in>set (fp_saved_callee_registers plan). \<exists>slot off sz. sv_slot_placement s = Some slot \<and>
      ss_stack_offset_bytes slot = Some off \<and> ss_size_bytes slot = Some sz \<and> unat off + unat sz \<le> unat n"
  proof
    fix s assume "s \<in> set (fp_saved_callee_registers plan)"
    then obtain slot off sz where "sv_slot_placement s = Some slot" "ss_stack_offset_bytes slot = Some off" "ss_size_bytes slot = Some sz"
      "unat off + unat sz \<le> unat k" using c by blast
    with kn show "\<exists>slot off sz. sv_slot_placement s = Some slot \<and> ss_stack_offset_bytes slot = Some off \<and> ss_size_bytes slot = Some sz \<and>
        unat off + unat sz \<le> unat n" by simp
  qed
  with a(1,4) slots' slot_order_distinct [OF order] show ?thesis by blast
qed

theorem validated_frame_size_covers_witness:
  "rv64_prepared_validated_fixed_frame_size None sample_plan \<lparr>sl_frame_slots = [], sl_frame_size_bytes = 0, sl_frame_alignment_bytes = 16\<rparr> = Some 4112 \<and>
   (\<exists>slot off sz. sv_slot_placement (sample_saved BankGpr ''s1'' 4096) = Some slot \<and>
      ss_stack_offset_bytes slot = Some off \<and> ss_size_bytes slot = Some sz \<and> unat off + unat sz \<le> unat (4112 :: u64))"
proof -
  have saved: "sample_saved BankGpr ''s1'' 4096 \<in> set (fp_saved_callee_registers sample_plan)" by (simp add: sample_plan_def)
  have "rv64_prepared_validated_fixed_frame_size None sample_plan \<lparr>sl_frame_slots = [], sl_frame_size_bytes = 0, sl_frame_alignment_bytes = 16\<rparr> = Some 4112"
    by code_simp
  with validated_frame_size_covers [OF this] saved show ?thesis by blast
qed

end
