(* ===== verification/Rv64_Frame_Text.thy ===== *)
theory Rv64_Frame_Text
  imports Rv64_Frame_Correct
begin

text \<open>
  The assembly text for 32-bit values on the stack, through the line assembler to the machine: the
  bytewise sequences for unaligned offsets do what the single \<open>sw\<close> and \<open>lw\<close> do.
\<close>

unbundle bit_operations_syntax

section \<open>Lines to code\<close>

definition text_code :: "string \<Rightarrow> u8 list option" where
  "text_code s = (case parse_rv64_asm_line s of None \<Rightarrow> None | Some l \<Rightarrow> encode_rv64_asm_line l)"

fun texts_code :: "string list \<Rightarrow> u8 list option" where
  "texts_code [] = Some []"
| "texts_code (l # ls) = (case text_code l of None \<Rightarrow> None | Some bs \<Rightarrow> map_option ((@) bs) (texts_code ls))"

lemma reassembled_line: "reassembles s None 0 bs \<Longrightarrow> text_code s = Some bs"
proof -
  assume "reassembles s None 0 bs"
  then obtain l where "parse_rv64_asm_line s = Some l" "line_target l = None" "encode_rv64_asm_line (set_target 0 l) = Some bs"
    by (auto simp: reassembles_def)
  moreover from this(2) have "set_target 0 l = l" by (cases l) simp_all
  ultimately show ?thesis by (simp add: text_code_def)
qed

lemma shown_immediate: "fits_signed_12_bit_immediate d \<Longrightarrow> show_i32 (word_of_int d) = show_int d"
  by (simp add: show_i32_def sint_small fits_signed_12_bit_immediate_def)

lemma sp_text: "sp_offset d = show_int d @ ''('' @ gpr_name 2 @ '')''" "''t2'' = gpr_name 7"
  by (simp_all add: sp_offset_def gpr_name_def gpr_names_def)

lemma store_line:
  assumes "(n, 0x23, f3) \<in> set store_specs" "r < 32" "fits_signed_12_bit_immediate d"
  shows "text_code (n @ '' '' @ gpr_name r @ '', '' @ sp_offset d) = Some (le_bytes 4 (encode_s_type 0x23 f3 2 r (word_of_int d)))"
proof -
  let ?w = "encode_s_type 0x23 f3 2 r (word_of_int d)"
  have f3: "f3 AND 0x7 = f3" using in_spec_table [OF table_fields(2), of "(n, 0x23, f3)"] assms(1) by simp
  have "opcode_of ?w = 0x23" "funct3_of ?w = f3" "rs1_of ?w = 2" "rs2_of ?w = r"
    using assms(2) f3 by (simp_all add: encoded_fields encoded_rs1 encoded_rs2 small_reg)
  with reassemble_store [of n ?w 0] assms have "reassembles (asm_text n [gpr_name r, show_int d @ ''('' @ gpr_name 2 @ '')'']) None 0 (le_bytes 4 ?w)"
    by (simp add: decoded_imm_s shown_immediate)
  then show ?thesis by (intro reassembled_line) (simp add: asm_text_def sp_text)
qed

lemma load_line:
  assumes "(n, 0x03, f3) \<in> set load_specs" "r < 32" "fits_signed_12_bit_immediate d"
  shows "text_code (n @ '' '' @ gpr_name r @ '', '' @ sp_offset d) = Some (le_bytes 4 (encode_i_type 0x03 r f3 2 (word_of_int d)))"
proof -
  let ?w = "encode_i_type 0x03 r f3 2 (word_of_int d)"
  have f3: "f3 AND 0x7 = f3" using in_spec_table [OF table_fields(2), of "(n, 0x03, f3)"] assms(1) by simp
  have "opcode_of ?w = 0x03" "funct3_of ?w = f3" "rs1_of ?w = 2" "rd_of ?w = r"
    using assms(2) f3 by (simp_all add: encoded_fields encoded_rs1 encoded_rd small_reg)
  with reassemble_load [of n ?w 0] assms have "reassembles (asm_text n [gpr_name r, show_int d @ ''('' @ gpr_name 2 @ '')'']) None 0 (le_bytes 4 ?w)"
    by (simp add: decoded_imm_i shown_immediate)
  then show ?thesis by (intro reassembled_line) (simp add: asm_text_def sp_text)
qed

lemma or_line:
  assumes "d < 32" "a < 32" "b < 32"
  shows "text_code (''or '' @ gpr_name d @ '', '' @ gpr_name a @ '', '' @ gpr_name b) = Some (le_bytes 4 (encode_r_type 0x33 d 6 a b 0))"
proof -
  let ?w = "encode_r_type 0x33 d 6 a b 0"
  have "opcode_of ?w = 0x33" "funct3_of ?w = 6" "funct7_of ?w = 0" "rs1_of ?w = a" "rs2_of ?w = b" "rd_of ?w = d"
    using assms by (simp_all add: encoded_fields encoded_rs1 encoded_rs2 encoded_rd small_reg)
  moreover have "(''or'', 0x33, 6, 0) \<in> set r_specs" by code_simp
  ultimately have "reassembles (asm_text ''or'' [gpr_name d, gpr_name a, gpr_name b]) None 0 (le_bytes 4 ?w)"
    using reassemble_r [of "''or''" ?w 0] by simp
  then show ?thesis by (intro reassembled_line) (simp add: asm_text_def)
qed


lemma shift_line:
  assumes spec: "(n, 0x13, f3, f7, 63) \<in> set shift_specs" and r: "d < 32" "a < 32" and k: "k < 64"
  shows "text_code (n @ '' '' @ gpr_name d @ '', '' @ gpr_name a @ '', '' @ show_nat k) =
    Some (le_bytes 4 (encode_i_type 0x13 d f3 a (push_bit 5 f7 OR of_nat k)))"
proof -
  let ?w = "encode_i_type 0x13 d f3 a (push_bit 5 f7 OR of_nat k)"
  have f3: "f3 AND 0x7 = f3" using in_spec_table [OF table_fields(3) spec] by simp
  have f7: "f7 = 0 \<or> f7 = 0x20" using spec by (auto simp: shift_specs_def)
  have fields: "opcode_of ?w = 0x13" "funct3_of ?w = f3" "rs1_of ?w = a" "rd_of ?w = d"
    using r f3 by (simp_all add: encoded_fields encoded_rs1 encoded_rd small_reg)
  have "(of_nat k :: u32) < 64" using k by (simp add: word_less_nat_alt small_unat_of_nat)
  then have k6: "(of_nat k :: u32) AND mask 6 = of_nat k" by (simp add: mask_eq_iff word_less_def)
  have "(of_nat k AND mask 6) AND NOT (mask 6) = (0 :: u32)" by (simp add: and.assoc)
  then have high: "of_nat k AND NOT (mask 6) = (0 :: u32)" by (simp only: k6)
  have f7m: "push_bit 5 f7 AND mask 6 = 0" "push_bit 5 f7 AND 0xfff = push_bit 5 f7" "push_bit 5 f7 AND NOT (mask 6) = push_bit 5 f7" using f7 by (auto simp: mask_eq_exp_minus_1)
  have imm: "drop_bit 20 ?w AND 0xfff = push_bit 5 f7 OR of_nat k"
  proof -
    have "of_nat k AND 0xfff = (of_nat k AND mask 6) AND (0xfff :: u32)" by (simp only: k6)
    also have "\<dots> = of_nat k AND mask 6" by (simp add: mask_eq_exp_minus_1 and.assoc)
    finally show ?thesis using f7m(2) by (simp add: encoded_imm12 k6 bit.conj_disj_distrib2)
  qed
  have "(drop_bit 20 ?w AND 0xfff) AND NOT (mask 6) = push_bit 5 f7" "(drop_bit 20 ?w AND 0xfff) AND mask 6 = of_nat k"
    unfolding imm using k6 high f7m(3) by (simp_all add: bit.conj_disj_distrib2 f7m(1))
  moreover have "(0x3f :: u32) = mask 6" by (simp add: mask_eq_exp_minus_1)
  ultimately have "reassembles (asm_text n [gpr_name d, gpr_name a, show_i32 (of_nat k)]) None 0 (le_bytes 4 ?w)"
    using reassemble_shift [of n ?w f7 63 "0x3f" 0] spec fields by simp
  moreover have "show_i32 (of_nat k) = show_nat k"
    using k sint_small [of "int k"] by (simp add: show_i32_def show_int_def)
  ultimately show ?thesis by (intro reassembled_line) (simp add: asm_text_def)
qed

section \<open>The instructions of the sequences\<close>

lemma exec_sb [exec_simps]:
  "rs1 < 32 \<Longrightarrow> rs2 < 32 \<Longrightarrow> fits_signed_12_bit_immediate d \<Longrightarrow>
     exec_word (encode_s_type 0x23 0 rs1 rs2 (word_of_int d)) m = Some (store_bytes (reg m rs1 + word_of_int d) [ucast (reg m rs2)] m)"
  by (simp add: exec_word_def Let_def encoded_fields encoded_rs1 encoded_rs2 encoded_imm_s small_reg le_bytes_def)

lemma exec_sw [exec_simps]:
  "rs1 < 32 \<Longrightarrow> rs2 < 32 \<Longrightarrow> fits_signed_12_bit_immediate d \<Longrightarrow>
     exec_word (encode_s_type 0x23 2 rs1 rs2 (word_of_int d)) m = Some (store_bytes (reg m rs1 + word_of_int d) (le_bytes 4 (reg m rs2)) m)"
  by (simp add: exec_word_def Let_def encoded_fields encoded_rs1 encoded_rs2 encoded_imm_s small_reg)

lemma exec_lbu [exec_simps]:
  "rd < 32 \<Longrightarrow> rs < 32 \<Longrightarrow> fits_signed_12_bit_immediate d \<Longrightarrow>
     exec_word (encode_i_type 0x03 rd 4 rs (word_of_int d)) m = Some (set_reg rd (ucast (memory m (reg m rs + word_of_int d))) m)"
  by (simp add: exec_word_def Let_def load_value_def load_word_def encoded_fields encoded_rd encoded_rs1 encoded_imm_i small_reg)

lemma exec_lw [exec_simps]:
  "rd < 32 \<Longrightarrow> rs < 32 \<Longrightarrow> fits_signed_12_bit_immediate d \<Longrightarrow>
     exec_word (encode_i_type 0x03 rd 2 rs (word_of_int d)) m = Some (set_reg rd (scast (load_word 4 m (reg m rs + word_of_int d) :: u32)) m)"
  by (simp add: exec_word_def Let_def load_value_def encoded_fields encoded_rd encoded_rs1 encoded_imm_i small_reg)

lemma exec_or [exec_simps]:
  "rd < 32 \<Longrightarrow> rs1 < 32 \<Longrightarrow> rs2 < 32 \<Longrightarrow> exec_word (encode_r_type 0x33 rd 6 rs1 rs2 0) m = Some (set_reg rd (reg m rs1 OR reg m rs2) m)"
  by (simp add: exec_word_def Let_def encoded_fields encoded_rd encoded_rs1 encoded_rs2 small_reg)

lemma encoded_shift:
  assumes "k < 64" "f7 = 0 \<or> f7 = 0x20"
  shows "drop_bit 26 (encode_i_type op rd f3 rs (push_bit 5 f7 OR of_nat k)) = drop_bit 1 f7"
    "shamt_of (encode_i_type op rd f3 rs (push_bit 5 f7 OR of_nat k)) = k"
proof -
  have "(of_nat k :: u32) < 64" using assms(1) by (simp add: word_less_nat_alt small_unat_of_nat)
  then have k6: "(of_nat k :: u32) AND mask 6 = of_nat k" by (simp add: mask_eq_iff word_less_def)
  have "take_bit 6 k = k" using assms(1) by (intro take_bit_nat_eq_self) simp
  then have high: "bit k j \<Longrightarrow> j < 6" for j by (metis bit_take_bit_iff)
  show "drop_bit 26 (encode_i_type op rd f3 rs (push_bit 5 f7 OR of_nat k)) = drop_bit 1 f7"
    unfolding encode_i_type_def field_masks using assms(2)
    by (auto intro!: word32_eqI simp: bit_simps dest!: high)
  have "drop_bit 20 (encode_i_type op rd f3 rs (push_bit 5 f7 OR of_nat k)) AND 0x3f = of_nat k AND mask 6"
    unfolding encode_i_type_def field_masks using assms(2)
    by (auto intro!: word32_eqI simp: bit_simps)
  then show "shamt_of (encode_i_type op rd f3 rs (push_bit 5 f7 OR of_nat k)) = k"
    using assms(1) by (simp add: shamt_of_def k6 small_unat_of_nat)
qed

lemma exec_shift [exec_simps]:
  assumes "rd < 32" "rs < 32" "k < 64"
  shows "exec_word (encode_i_type 0x13 rd 1 rs (push_bit 5 0 OR of_nat k)) m = Some (set_reg rd (push_bit k (reg m rs)) m)"
    "exec_word (encode_i_type 0x13 rd 5 rs (push_bit 5 0 OR of_nat k)) m = Some (set_reg rd (drop_bit k (reg m rs)) m)"
    "exec_word (encode_i_type 0x13 rd 5 rs (push_bit 5 0x20 OR of_nat k)) m = Some (set_reg rd (signed_drop_bit k (reg m rs)) m)"
  using assms encoded_shift [OF assms(3), of 0] encoded_shift [OF assms(3), of "0x20"]
  by (simp_all add: exec_word_def Let_def encoded_fields encoded_rd encoded_rs1 small_reg del: push_bit_of_0 push_bit_numeral)

section \<open>Storing\<close>

lemma small_texts: "gpr_name 7 = ''t2''" "show_nat 8 = ''8''" "show_nat 16 = ''16''" "show_nat 24 = ''24''" "show_nat 32 = ''32''"
  by code_simp+

lemma shift_specs_used: "(''slli'', 0x13, 1, 0, 63) \<in> set shift_specs" "(''srli'', 0x13, 5, 0, 63) \<in> set shift_specs"
  "(''srai'', 0x13, 5, 0x20, 63) \<in> set shift_specs"
  by (simp_all add: shift_specs_def)

lemma memory_specs_used: "(''sb'', 0x23, 0) \<in> set store_specs" "(''sw'', 0x23, 2) \<in> set store_specs" "(''lbu'', 0x03, 4) \<in> set load_specs"
  "(''lw'', 0x03, 2) \<in> set load_specs"
  by (simp_all add: store_specs_def load_specs_def)

text \<open>The texts of the sequences, as the lemmas on single lines have them.\<close>

lemma sequence_lines:
  assumes r: "r < 32"
  shows "k \<in> {8, 16, 24} \<Longrightarrow> text_code (''srli t2, '' @ gpr_name r @ '', '' @ show_nat k) = Some (le_bytes 4 (encode_i_type 0x13 7 5 r (push_bit 5 0 OR of_nat k)))"
    "k \<in> {8, 16, 24} \<Longrightarrow> text_code (''slli t2, t2, '' @ show_nat k) = Some (le_bytes 4 (encode_i_type 0x13 7 1 7 (push_bit 5 0 OR of_nat k)))"
    "text_code (''slli '' @ gpr_name r @ '', '' @ gpr_name r @ '', '' @ show_nat 32) = Some (le_bytes 4 (encode_i_type 0x13 r 1 r (push_bit 5 0 OR of_nat 32)))"
    "text_code (''srai '' @ gpr_name r @ '', '' @ gpr_name r @ '', '' @ show_nat 32) = Some (le_bytes 4 (encode_i_type 0x13 r 5 r (push_bit 5 0x20 OR of_nat 32)))"
    "text_code (''or '' @ gpr_name r @ '', '' @ gpr_name r @ '', t2'') = Some (le_bytes 4 (encode_r_type 0x33 r 6 r 7 0))"
  using shift_line [OF shift_specs_used(2), of 7 r k] shift_line [OF shift_specs_used(1), of 7 7 k] shift_line [OF shift_specs_used(1) r r, of 32]
    shift_line [OF shift_specs_used(3) r r, of 32] or_line [OF r r, of 7] r
  by (auto simp: small_texts(1) simp del: push_bit_of_0 of_nat_numeral)

lemma sequence_memory_lines:
  assumes "r < 32" "fits_signed_12_bit_immediate d"
  shows "text_code (''sb '' @ gpr_name r @ '', '' @ sp_offset d) = Some (le_bytes 4 (encode_s_type 0x23 0 2 r (word_of_int d)))"
    "text_code (''sw '' @ gpr_name r @ '', '' @ sp_offset d) = Some (le_bytes 4 (encode_s_type 0x23 2 2 r (word_of_int d)))"
    "text_code (''lbu '' @ gpr_name r @ '', '' @ sp_offset d) = Some (le_bytes 4 (encode_i_type 0x03 r 4 2 (word_of_int d)))"
    "text_code (''lw '' @ gpr_name r @ '', '' @ sp_offset d) = Some (le_bytes 4 (encode_i_type 0x03 r 2 2 (word_of_int d)))"
    "text_code (''sb t2, '' @ sp_offset d) = Some (le_bytes 4 (encode_s_type 0x23 0 2 7 (word_of_int d)))"
    "text_code (''lbu t2, '' @ sp_offset d) = Some (le_bytes 4 (encode_i_type 0x03 7 4 2 (word_of_int d)))"
  using store_line [OF memory_specs_used(1) assms] store_line [OF memory_specs_used(2) assms] load_line [OF memory_specs_used(3) assms]
    load_line [OF memory_specs_used(4) assms] store_line [OF memory_specs_used(1) _ assms(2), of 7] load_line [OF memory_specs_used(3) _ assms(2), of 7]
  by (simp_all add: small_texts(1))

lemma store_one: "memory (store_bytes b [c] m) = (memory m)(b := c)"
  by (auto simp: store_bytes_def fun_eq_iff unat_eq_zero)

lemma four_bytes:
  fixes v a :: u64
  shows "(memory m)(a := ucast v, a + 1 := ucast (drop_bit 8 v), a + 2 := ucast (drop_bit 16 v), a + 3 := ucast (drop_bit 24 v)) =
    memory (store_bytes a (le_bytes 4 v) m)"
proof
  fix x
  have "unat (x - a) < 4 \<longleftrightarrow> x - a = 0 \<or> x - a = 1 \<or> x - a = 2 \<or> x - a = 3" by unat_arith
  then consider "x = a" | "x = a + 1" | "x = a + 2" | "x = a + 3" | "x \<noteq> a" "x \<noteq> a + 1" "x \<noteq> a + 2" "x \<noteq> a + 3" "\<not> unat (x - a) < 4"
    by (auto simp: algebra_simps)
  then show "((memory m)(a := ucast v, a + 1 := ucast (drop_bit 8 v), a + 2 := ucast (drop_bit 16 v), a + 3 := ucast (drop_bit 24 v))) x =
      memory (store_bytes a (le_bytes 4 v) m) x"
    by cases (simp_all add: store_bytes_def le_bytes_def upt_rec)
qed

lemma bytewise_offsets: "word_of_int (d + 1) = (word_of_int d + 1 :: u64)" "word_of_int (d + 2) = (word_of_int d + 2 :: u64)"
  "word_of_int (d + 3) = (word_of_int d + 3 :: u64)"
  by simp_all

lemma run_words: "run_code (le_bytes 4 w @ bs) m = Option.bind (exec_word w m) (run_code bs)"
  by (simp add: run_code_word split: option.split)



section \<open>Loading\<close>

lemma sign_extended:
  "signed_drop_bit 32 (push_bit 32 (((ucast b0 OR push_bit 8 (ucast b1)) OR push_bit 16 (ucast b2)) OR push_bit 24 (ucast b3))) =
    (scast (or_bytes 0 [b0, b1, b2, b3] 0 :: u32) :: u64)" for b0 b1 b2 b3 :: u8
proof (rule bit_word_eqI)
  fix n assume "n < LENGTH(64)"
  then have n: "n < 64" by simp
  have high: "\<not> bit b k" if "8 \<le> k" for b :: u8 and k using that by (auto dest: bit_imp_le_length)
  show "bit (signed_drop_bit 32 (push_bit 32 (((ucast b0 OR push_bit 8 (ucast b1)) OR push_bit 16 (ucast b2)) OR push_bit 24 (ucast b3))) :: u64) n =
      bit (scast (or_bytes 0 [b0, b1, b2, b3] 0 :: u32) :: u64) n"
    using n by (cases n "31 :: nat" rule: linorder_cases) (auto simp: bit_simps high)
qed

text \<open>
  The text for loading a 32-bit value from the stack, assembled line by line and run, leaves in the
  register the word at the offset, sign-extended, as \<open>lw\<close> does, and changes no other register but \<open>t2\<close>.
\<close>

theorem i32_load_correct:
  assumes emitted: "emit_i32_load_from_stack_offset (gpr_name r) d = Some s" and r: "r < 32" "r \<notin> {0, 2, 7}" and d: "fits_signed_12_bit_immediate d"
  shows "\<exists>ls code. s = concat (map asm_text_line ls) \<and> texts_code ls = Some code \<and>
    (\<forall>m. \<exists>m'. run_code code m = Some m' \<and> reg m' r = scast (load_word 4 m (reg m 2 + word_of_int d) :: u32) \<and>
      same_registers {r, 7} m m' \<and> fprs m' = fprs m \<and> memory m' = memory m)"
proof -
  obtain ls where ls: "i32_load_lines (gpr_name r) d = Some ls" "s = concat (map asm_text_line ls)"
    using emitted by (auto simp: emit_i32_load_from_stack_offset_def)
  show ?thesis
  proof (cases "d mod 4 = 0")
    case True
    then have "ls = [''lw '' @ gpr_name r @ '', '' @ sp_offset d]" using ls(1) by (simp add: i32_load_lines_def)
    then have "texts_code ls = Some (le_bytes 4 (encode_i_type 0x03 r 2 2 (word_of_int d)) @ [])"
      by (simp only: texts_code.simps sequence_memory_lines(4) [OF r(1) d] option.case option.map)
    with ls(2) show ?thesis
      by (intro exI [of _ ls] exI conjI) (assumption, assumption, use r(2) in \<open>simp add: run_words exec_simps r(1) d reg_set_reg same_registers_def del: append_Nil2\<close>)
  next
    case False
    then have fit: "fits_signed_12_bit_immediate (d + 1)" "fits_signed_12_bit_immediate (d + 2)" "fits_signed_12_bit_immediate (d + 3)"
      using ls(1) by (auto simp: i32_load_lines_def fits_i32_bytewise_stack_offsets_def split: if_splits)
    let ?or = "le_bytes 4 (encode_r_type 0x33 r 6 r 7 0)"
    let ?code = "le_bytes 4 (encode_i_type 0x03 r 4 2 (word_of_int d)) @ le_bytes 4 (encode_i_type 0x03 7 4 2 (word_of_int (d + 1))) @
      le_bytes 4 (encode_i_type 0x13 7 1 7 (push_bit 5 0 OR of_nat 8)) @ ?or @ le_bytes 4 (encode_i_type 0x03 7 4 2 (word_of_int (d + 2))) @
      le_bytes 4 (encode_i_type 0x13 7 1 7 (push_bit 5 0 OR of_nat 16)) @ ?or @ le_bytes 4 (encode_i_type 0x03 7 4 2 (word_of_int (d + 3))) @
      le_bytes 4 (encode_i_type 0x13 7 1 7 (push_bit 5 0 OR of_nat 24)) @ ?or @
      le_bytes 4 (encode_i_type 0x13 r 1 r (push_bit 5 0 OR of_nat 32)) @ le_bytes 4 (encode_i_type 0x13 r 5 r (push_bit 5 0x20 OR of_nat 32)) @ []"
    let ?orl = "''or '' @ gpr_name r @ '', '' @ gpr_name r @ '', t2''"
    have "ls = [''lbu '' @ gpr_name r @ '', '' @ sp_offset d, ''lbu t2, '' @ sp_offset (d + 1), ''slli t2, t2, '' @ show_nat 8, ?orl,
        ''lbu t2, '' @ sp_offset (d + 2), ''slli t2, t2, '' @ show_nat 16, ?orl,
        ''lbu t2, '' @ sp_offset (d + 3), ''slli t2, t2, '' @ show_nat 24, ?orl,
        ''slli '' @ gpr_name r @ '', '' @ gpr_name r @ '', '' @ show_nat 32, ''srai '' @ gpr_name r @ '', '' @ gpr_name r @ '', '' @ show_nat 32]"
      using ls(1) False by (auto simp: i32_load_lines_def small_texts split: if_splits)
    then have code: "texts_code ls = Some ?code"
      by (simp only: texts_code.simps sequence_lines [OF r(1)] sequence_memory_lines [OF r(1) d] sequence_memory_lines [OF r(1) fit(1)]
          sequence_memory_lines [OF r(1) fit(2)] sequence_memory_lines [OF r(1) fit(3)] option.case option.map insert_iff simp_thms)
    have "\<exists>m'. run_code ?code m = Some m' \<and> reg m' r = scast (load_word 4 m (reg m 2 + word_of_int d) :: u32) \<and>
        same_registers {r, 7} m m' \<and> fprs m' = fprs m \<and> memory m' = memory m" for m
    proof -
      have regs: "(7 :: u32) < 32" "(2 :: u32) < 32" and ks: "(8 :: nat) < 64" "(16 :: nat) < 64" "(24 :: nat) < 64" "(32 :: nat) < 64" by simp_all
      have bytes: "load_word 4 m (reg m 2 + word_of_int d) = or_bytes 0 [memory m (reg m 2 + word_of_int d), memory m (reg m 2 + (word_of_int d + 1)),
          memory m (reg m 2 + (word_of_int d + 2)), memory m (reg m 2 + (word_of_int d + 3))] 0"
        by (simp add: load_word_def upt_rec add.assoc)
      show ?thesis
        unfolding run_words bytes sign_extended [symmetric]
        by (simp only: exec_lbu [OF r(1) regs(2) d] exec_shift(1) [OF regs(1) regs(1) ks(1)] exec_shift(1) [OF regs(1) regs(1) ks(2)]
            exec_shift(1) [OF regs(1) regs(1) ks(3)] exec_shift(1) [OF r(1) r(1) ks(4)] exec_shift(3) [OF r(1) r(1) ks(4)]
            exec_lbu [OF regs(1,2) fit(1)] exec_lbu [OF regs(1,2) fit(2)] exec_lbu [OF regs(1,2) fit(3)] exec_or [OF r(1) r(1) regs(1)]
            bind.bind_lunit run_code.simps)
          (use r(2) in \<open>simp add: reg_set_reg same_registers_def bytewise_offsets\<close>)
    qed
    with ls(2) code show ?thesis by blast
  qed
qed


theorem i32_load_correct_witness:
  "\<exists>s ls code. emit_i32_load_from_stack_offset ''a0'' 18 = Some s \<and> s = concat (map asm_text_line ls) \<and> texts_code ls = Some code \<and>
    (\<forall>m. \<exists>m'. run_code code m = Some m' \<and> reg m' 10 = scast (load_word 4 m (reg m 2 + 18) :: u32) \<and>
      same_registers {10, 7} m m' \<and> fprs m' = fprs m \<and> memory m' = memory m)"
proof -
  have a0: "gpr_name 10 = ''a0''" by code_simp
  have "emit_i32_load_from_stack_offset ''a0'' 18 \<noteq> None"
    by (simp add: emit_i32_load_from_stack_offset_def i32_load_lines_def fits_i32_bytewise_stack_offsets_def fits_signed_12_bit_immediate_def)
  then obtain s where s: "emit_i32_load_from_stack_offset ''a0'' 18 = Some s" by blast
  have "fits_signed_12_bit_immediate 18" by (simp add: fits_signed_12_bit_immediate_def)
  from i32_load_correct [of 10 18 s, unfolded a0, OF s _ _ this] s show ?thesis by simp
qed

text \<open>
  The range of a multiple of four is not checked: the text for an offset such as 2048 is emitted, and
  the line assembler refuses it.
\<close>

lemma aligned_offset_unchecked:
  assumes "r < 32" "d mod 4 = 0" "\<not> fits_signed_12_bit_immediate d" "- (2 ^ 31) \<le> d" "d < 2 ^ 31"
  shows "i32_store_lines (gpr_name r) d = Some [''sw '' @ gpr_name r @ '', '' @ sp_offset d]"
    "text_code (''sw '' @ gpr_name r @ '', '' @ sp_offset d) = None"
proof -
  show "i32_store_lines (gpr_name r) d = Some [''sw '' @ gpr_name r @ '', '' @ sp_offset d]" using assms(2) by (simp add: i32_store_lines_def)
  have d: "show_int d = show_i32 (word_of_int d)" "sint (word_of_int d :: u32) = d" using assms(4,5) by (simp_all add: show_i32_def sint_small)
  let ?fs = "[gpr_name r, show_i32 (word_of_int d) @ ''('' @ gpr_name 2 @ '')'']"
  have plain: "plain (gpr_name r)" "plain (show_i32 (word_of_int d) @ ''('' @ gpr_name 2 @ '')'')"
    using parse_gpr_name(2) [OF assms(1)] parse_mem_text(2) [of 2 "word_of_int d"] by simp_all
  have "parse_store_operands (0x23, 2) (comma_list ?fs) = None"
    using assms(3) d(2) plain parse_mem_text(1) [of 2 "word_of_int d"]
    by (simp add: parse_store_operands_def parse_memory_operands_def split_two [OF plain] parse_gpr_name [OF assms(1)] parse_show_i32 del: append.simps comma_list.simps)
  then have "parse_rv64_asm_line (asm_text ''sw'' ?fs) = None"
    using parse_dispatch(5) [OF _ _ memory_specs_used(2), of ?fs] plain by simp
  then show "text_code (''sw '' @ gpr_name r @ '', '' @ sp_offset d) = None"
    by (simp add: text_code_def asm_text_def sp_text d)
qed

end
