(* ===== verification/Target_Profile.thy ===== *)
theory Target_Profile
  imports Prelude
begin

text \<open>
  Target profiles (\<open>target_profile.hpp\<close>, \<open>target_profile.cpp\<close>): the architecture, operating system
  and ABI a target triple stands for, and the triple printed for a profile. The macros of the
  compiler that builds c4c, on which the default triple depends, are a record. The exception
  \<open>std::invalid_argument\<close> of an unsupported triple is the left side of a sum.
\<close>

datatype target_arch = ArchUnknown | X86_64 | I686 | Aarch64 | Riscv64

datatype target_os = OsUnknown | Linux | Darwin | Windows

datatype backend_abi_kind = AbiUnknown | SysV_X86_64 | SysV_I686 | Aapcs64 | RiscvLp64 | RiscvLp64F | RiscvLp64D

datatype target_relocation_model = Static | Pic | Pie

record target_profile =
  triple :: string
  target_cpu :: target_arch
  os :: target_os
  backend_abi :: backend_abi_kind
  relocation_model :: target_relocation_model
  has_float_arg_registers :: bool
  has_float_return_registers :: bool

datatype host_arch = HostAarch64 | HostX86_64 | HostI386 | HostArm | HostOtherArch

record build_host =
  host_cpu :: host_arch
  host_apple :: bool
  host_linux :: bool

section \<open>Reading a triple\<close>

fun contains_text :: "string \<Rightarrow> string \<Rightarrow> bool" where
  "contains_text needle [] = (needle = [])"
| "contains_text needle (c # cs) = (take (length needle) (c # cs) = needle \<or> contains_text needle cs)"

definition triple_contains :: "string \<Rightarrow> string \<Rightarrow> bool" where
  "triple_contains t needle = (t \<noteq> [] \<and> contains_text needle t)"

definition arch_from_triple :: "string \<Rightarrow> string" where
  "arch_from_triple t = takeWhile (\<lambda>c. c \<noteq> CHR ''-'') t"

definition os_from_triple :: "string \<Rightarrow> target_os" where
  "os_from_triple t =
     (if triple_contains t ''apple'' \<or> triple_contains t ''darwin'' then Darwin
      else if triple_contains t ''linux'' then Linux
      else if triple_contains t ''windows'' \<or> triple_contains t ''mingw'' \<or> triple_contains t ''msvc'' then Windows
      else OsUnknown)"

fun backend_abi_from_triple :: "target_arch \<Rightarrow> string \<Rightarrow> backend_abi_kind" where
  "backend_abi_from_triple X86_64 t = SysV_X86_64"
| "backend_abi_from_triple I686 t = SysV_I686"
| "backend_abi_from_triple Aarch64 t = Aapcs64"
| "backend_abi_from_triple Riscv64 t =
     (if t = ''riscv64-linux-gnu'' then RiscvLp64D
      else if triple_contains t ''lp64d'' \<or> triple_contains t ''riscv64gc'' then RiscvLp64D
      else if triple_contains t ''lp64f'' then RiscvLp64F
      else if triple_contains t ''lp64'' then RiscvLp64
      else RiscvLp64)"
| "backend_abi_from_triple ArchUnknown t = AbiUnknown"

fun abi_has_float_arg_registers :: "backend_abi_kind \<Rightarrow> bool" where
  "abi_has_float_arg_registers SysV_X86_64 = True"
| "abi_has_float_arg_registers Aapcs64 = True"
| "abi_has_float_arg_registers RiscvLp64F = True"
| "abi_has_float_arg_registers RiscvLp64D = True"
| "abi_has_float_arg_registers SysV_I686 = False"
| "abi_has_float_arg_registers RiscvLp64 = False"
| "abi_has_float_arg_registers AbiUnknown = False"

definition default_host_target_triple :: "build_host \<Rightarrow> string" where
  "default_host_target_triple h =
     (case host_cpu h of
        HostAarch64 \<Rightarrow>
          if host_apple h then ''aarch64-apple-darwin''
          else if host_linux h then ''aarch64-unknown-linux-gnu'' else ''aarch64-unknown-unknown''
      | HostX86_64 \<Rightarrow>
          if host_apple h then ''x86_64-apple-darwin''
          else if host_linux h then ''x86_64-unknown-linux-gnu'' else ''x86_64-unknown-unknown''
      | HostI386 \<Rightarrow> if host_linux h then ''i386-unknown-linux-gnu'' else ''i386-unknown-unknown''
      | _ \<Rightarrow> ''unknown-unknown-unknown'')"

definition arch_of_name :: "string \<Rightarrow> target_arch option" where
  "arch_of_name a =
     (if a = ''x86_64'' \<or> a = ''amd64'' then Some X86_64
      else if a = ''i386'' \<or> a = ''i486'' \<or> a = ''i586'' \<or> a = ''i686'' then Some I686
      else if a = ''aarch64'' \<or> a = ''arm64'' then Some Aarch64
      else if a = ''riscv64'' \<or> a = ''riscv64gc'' then Some Riscv64
      else None)"

definition target_profile_from_triple :: "string \<Rightarrow> string + target_profile" where
  "target_profile_from_triple t =
     (case arch_of_name (arch_from_triple t) of
        None \<Rightarrow> Inl (''unsupported target triple: '' @ t)
      | Some a \<Rightarrow>
          let abi = backend_abi_from_triple a t in
          Inr \<lparr>triple = t, target_cpu = a, os = os_from_triple t, backend_abi = abi,
               relocation_model = Static, has_float_arg_registers = abi_has_float_arg_registers abi,
               has_float_return_registers = abi_has_float_arg_registers abi\<rparr>)"

definition default_target_profile :: "build_host \<Rightarrow> target_arch \<Rightarrow> string + target_profile" where
  "default_target_profile h a =
     target_profile_from_triple
       (case a of
          X86_64 \<Rightarrow> ''x86_64-unknown-linux-gnu''
        | I686 \<Rightarrow> ''i386-unknown-linux-gnu''
        | Aarch64 \<Rightarrow> ''aarch64-unknown-linux-gnu''
        | Riscv64 \<Rightarrow> ''riscv64gc-unknown-linux-gnu''
        | ArchUnknown \<Rightarrow> default_host_target_triple h)"

section \<open>Printing a triple\<close>

definition triple_arch :: "target_arch \<Rightarrow> backend_abi_kind \<Rightarrow> string" where
  "triple_arch a abi =
     (case a of
        X86_64 \<Rightarrow> ''x86_64''
      | I686 \<Rightarrow> ''i386''
      | Aarch64 \<Rightarrow> ''aarch64''
      | Riscv64 \<Rightarrow> if abi = RiscvLp64D then ''riscv64gc'' else ''riscv64''
      | ArchUnknown \<Rightarrow> ''unknown'')"

definition triple_suffix :: "target_os \<Rightarrow> string" where
  "triple_suffix s =
     (case s of
        Darwin \<Rightarrow> ''-apple-darwin''
      | Windows \<Rightarrow> ''-pc-windows-msvc''
      | Linux \<Rightarrow> ''-unknown-linux-gnu''
      | OsUnknown \<Rightarrow> ''-unknown-unknown'')"

definition llvm_target_triple :: "build_host \<Rightarrow> target_profile \<Rightarrow> string + string" where
  "llvm_target_triple h p =
     (case (if target_cpu p = ArchUnknown then map_sum id target_cpu (default_target_profile h ArchUnknown)
            else Inr (target_cpu p)) of
        Inl e \<Rightarrow> Inl e
      | Inr a \<Rightarrow>
          (case (if backend_abi p = AbiUnknown then map_sum id backend_abi (default_target_profile h a)
                 else Inr (backend_abi p)) of
             Inl e \<Rightarrow> Inl e
           | Inr abi \<Rightarrow> Inr (triple_arch a abi @ triple_suffix (if os p = OsUnknown then Linux else os p))))"

section \<open>Names\<close>

fun target_arch_name :: "target_arch \<Rightarrow> string" where
  "target_arch_name ArchUnknown = ''unknown''"
| "target_arch_name X86_64 = ''x86_64''"
| "target_arch_name I686 = ''i686''"
| "target_arch_name Aarch64 = ''aarch64''"
| "target_arch_name Riscv64 = ''riscv64''"

fun target_os_name :: "target_os \<Rightarrow> string" where
  "target_os_name OsUnknown = ''unknown''"
| "target_os_name Linux = ''linux''"
| "target_os_name Darwin = ''darwin''"
| "target_os_name Windows = ''windows''"

fun backend_abi_name :: "backend_abi_kind \<Rightarrow> string" where
  "backend_abi_name AbiUnknown = ''unknown''"
| "backend_abi_name SysV_X86_64 = ''sysv_x86_64''"
| "backend_abi_name SysV_I686 = ''sysv_i686''"
| "backend_abi_name Aapcs64 = ''aapcs64''"
| "backend_abi_name RiscvLp64 = ''riscv_lp64''"
| "backend_abi_name RiscvLp64F = ''riscv_lp64f''"
| "backend_abi_name RiscvLp64D = ''riscv_lp64d''"

fun target_relocation_model_name :: "target_relocation_model \<Rightarrow> string" where
  "target_relocation_model_name Static = ''static''"
| "target_relocation_model_name Pic = ''pic''"
| "target_relocation_model_name Pie = ''pie''"

section \<open>Round trip\<close>

fun abis_of :: "target_arch \<Rightarrow> backend_abi_kind list" where
  "abis_of ArchUnknown = []"
| "abis_of X86_64 = [SysV_X86_64]"
| "abis_of I686 = [SysV_I686]"
| "abis_of Aarch64 = [Aapcs64]"
| "abis_of Riscv64 = [RiscvLp64, RiscvLp64F, RiscvLp64D]"

definition reads_back :: "target_arch \<Rightarrow> backend_abi_kind \<Rightarrow> target_os \<Rightarrow> bool" where
  "reads_back a abi s =
     (case target_profile_from_triple (triple_arch a abi @ triple_suffix s) of
        Inl _ \<Rightarrow> False
      | Inr q \<Rightarrow> target_cpu q = a \<and> os q = s \<and> backend_abi q = (if abi = RiscvLp64F then RiscvLp64 else abi))"

lemma reads_back_all:
  "list_all (\<lambda>a. list_all (\<lambda>abi. list_all (reads_back a abi) [Linux, Darwin, Windows]) (abis_of a))
     [X86_64, I686, Aarch64, Riscv64]"
  by code_simp

lemma triple_read_back:
  assumes "abi \<in> set (abis_of a)" "s \<noteq> OsUnknown"
  shows "\<exists>q. target_profile_from_triple (triple_arch a abi @ triple_suffix s) = Inr q \<and>
    target_cpu q = a \<and> os q = s \<and> backend_abi q = (if abi = RiscvLp64F then RiscvLp64 else abi)"
proof -
  have "a \<in> set [X86_64, I686, Aarch64, Riscv64]" "s \<in> set [Linux, Darwin, Windows]"
    using assms by (cases a; cases s; simp)+
  with assms(1) reads_back_all have "reads_back a abi s" by (auto simp: list_all_iff)
  then show ?thesis by (auto simp: reads_back_def split: sum.splits)
qed



text \<open>On a host that is neither AArch64 nor x86 the default profile cannot be built.\<close>

lemma default_profile_unsupported_host:
  "host_cpu h \<in> {HostArm, HostOtherArch} \<Longrightarrow>
     target_profile_from_triple (default_host_target_triple h) = Inl ''unsupported target triple: unknown-unknown-unknown''"
  by (cases "host_cpu h") (simp_all add: default_host_target_triple_def target_profile_from_triple_def
      arch_of_name_def arch_from_triple_def)

end
