(* ===== verification/Target_Registers.thy ===== *)
theory Target_Registers
  imports Rv64_Frame Target_Profile
begin

text \<open>
  The registers the preparation passes know of each target (\<open>backend/prealloc/target_register_profile.cpp\<close>):
  where the calling convention puts arguments and results, by name and by physical index, and the pools
  of caller and callee saved registers, cut into the spans a value of several registers may take. Of the
  ABI descriptions only the fields these functions read are kept.
\<close>

section \<open>Types and classes\<close>

datatype type_kind = Void | I1 | I8 | I16 | I32 | I64 | I128 | Ptr | F32 | F64 | F128 | Vrm1 | Vrm2 | Vrm4 | Vrm8

datatype abi_value_class = ClassNone | ClassInteger | ClassSse | ClassX87 | ClassMemory

datatype register_class = RegNone | RegGeneral | RegFloat | RegVector | RegAggregateAddress

record call_arg_abi =
  ca_type :: type_kind
  ca_primary_class :: abi_value_class
  ca_passed_in_register :: bool
  ca_byval_copy :: bool
  ca_sret_pointer :: bool

record call_result_abi =
  cr_type :: type_kind
  cr_primary_class :: abi_value_class
  cr_returned_in_memory :: bool

record register_identity =
  ti_target_arch :: target_arch
  ti_bank :: prepared_register_bank
  ti_register_class :: register_class
  ti_physical_index :: u64

record candidate_span =
  cs_register_name :: string
  cs_contiguous_width :: u64
  cs_occupied_register_names :: "string list"
  cs_placement :: "register_placement option"

definition kX86GeneralAbiRegisters :: "string list" where
  "kX86GeneralAbiRegisters = [''rdi'', ''rsi'', ''rdx'', ''rcx'', ''r8'', ''r9'']"

definition kX86FloatAbiRegisters :: "string list" where
  "kX86FloatAbiRegisters = [''xmm0'', ''xmm1'', ''xmm2'', ''xmm3'', ''xmm4'', ''xmm5'', ''xmm6'', ''xmm7'']"

definition kAarch64GeneralAbiRegisters :: "string list" where
  "kAarch64GeneralAbiRegisters = [''x0'', ''x1'', ''x2'', ''x3'', ''x4'', ''x5'', ''x6'', ''x7'']"

definition kRiscvGeneralAbiRegisters :: "string list" where
  "kRiscvGeneralAbiRegisters = [''a0'', ''a1'', ''a2'', ''a3'', ''a4'', ''a5'', ''a6'', ''a7'']"

definition kRiscvFloatAbiRegisters :: "string list" where
  "kRiscvFloatAbiRegisters = [''fa0'', ''fa1'', ''fa2'', ''fa3'', ''fa4'', ''fa5'', ''fa6'', ''fa7'']"

definition kX86GeneralAbiPhysicalIndexes :: "u64 list" where
  "kX86GeneralAbiPhysicalIndexes = [7, 6, 2, 1, 8, 9]"

definition indexed_register_name :: "string list \<Rightarrow> u64 \<Rightarrow> string option" where
  "indexed_register_name register_names index =
     (if unat index \<ge> length register_names \<or> register_names ! unat index = [] then None
      else Some (register_names ! unat index))"

definition is_float_type :: "type_kind \<Rightarrow> bool" where
  "is_float_type t \<longleftrightarrow> t = F32 \<or> t = F64 \<or> t = F128"

definition is_float_abi_class :: "abi_value_class \<Rightarrow> bool" where
  "is_float_abi_class c \<longleftrightarrow> c = ClassSse \<or> c = ClassX87"

fun register_bank_from_class :: "register_class \<Rightarrow> prepared_register_bank" where
  "register_bank_from_class RegGeneral = BankGpr"
| "register_bank_from_class RegFloat = BankFpr"
| "register_bank_from_class RegVector = BankVreg"
| "register_bank_from_class RegAggregateAddress = BankAggregateAddress"
| "register_bank_from_class RegNone = BankNone"

definition register_bank_from_type :: "type_kind \<Rightarrow> prepared_register_bank" where
  "register_bank_from_type t =
     (if t \<in> {I1, I8, I16, I32, I64, Ptr} then BankGpr
      else if t \<in> {F32, F64, F128} then BankFpr
      else if t = I128 then BankVreg
      else BankNone)"

fun register_class_from_bank :: "prepared_register_bank \<Rightarrow> register_class" where
  "register_class_from_bank BankGpr = RegGeneral"
| "register_class_from_bank BankFpr = RegFloat"
| "register_class_from_bank BankVreg = RegVector"
| "register_class_from_bank BankAggregateAddress = RegAggregateAddress"
| "register_class_from_bank BankNone = RegNone"

definition is_general_physical_bank :: "prepared_register_bank \<Rightarrow> bool" where
  "is_general_physical_bank b \<longleftrightarrow> b = BankGpr \<or> b = BankAggregateAddress"

section \<open>Physical registers of the calling convention\<close>

definition target_register_identity :: "target_arch \<Rightarrow> prepared_register_bank \<Rightarrow> register_class \<Rightarrow> u64 \<Rightarrow> register_identity" where
  "target_register_identity a b c i = \<lparr>ti_target_arch = a, ti_bank = b, ti_register_class = c, ti_physical_index = i\<rparr>"

definition aarch64_abi_register_identity :: "register_placement \<Rightarrow> register_identity option" where
  "aarch64_abi_register_identity p =
     (if rp_contiguous_width p \<noteq> 1 \<or> rp_slot_index p \<ge> 8 then None
      else if is_general_physical_bank (rp_bank p) then Some (target_register_identity Aarch64 BankGpr RegGeneral (rp_slot_index p))
      else if rp_bank p = BankFpr \<or> rp_bank p = BankVreg
      then Some (target_register_identity Aarch64 (rp_bank p) (register_class_from_bank (rp_bank p)) (rp_slot_index p))
      else None)"

definition x86_64_abi_register_identity :: "register_placement \<Rightarrow> register_identity option" where
  "x86_64_abi_register_identity p =
     (if rp_contiguous_width p \<noteq> 1 then None
      else if rp_pool p = PoolCallArgument then
        (if is_general_physical_bank (rp_bank p) then
           (if unat (rp_slot_index p) \<ge> length kX86GeneralAbiPhysicalIndexes then None
            else Some (target_register_identity X86_64 BankGpr RegGeneral (kX86GeneralAbiPhysicalIndexes ! unat (rp_slot_index p))))
         else if rp_bank p = BankFpr \<and> rp_slot_index p < 8
         then Some (target_register_identity X86_64 BankFpr RegFloat (rp_slot_index p))
         else None)
      else if rp_pool p = PoolCallResult then
        (if rp_slot_index p \<noteq> 0 then None
         else if is_general_physical_bank (rp_bank p) then Some (target_register_identity X86_64 BankGpr RegGeneral 0)
         else if rp_bank p = BankFpr then Some (target_register_identity X86_64 BankFpr RegFloat 0)
         else None)
      else None)"

text \<open>The same decision is written out for arguments and for results.\<close>

definition register_bank_from_abi :: "type_kind \<Rightarrow> abi_value_class \<Rightarrow> prepared_register_bank" where
  "register_bank_from_abi t c =
     (if is_float_abi_class c then (if t = F128 then BankVreg else BankFpr)
      else if c = ClassMemory \<and> t = Ptr then BankAggregateAddress
      else register_bank_from_type t)"

definition register_bank_from_arg_abi :: "call_arg_abi \<Rightarrow> prepared_register_bank" where
  "register_bank_from_arg_abi abi = register_bank_from_abi (ca_type abi) (ca_primary_class abi)"

definition register_bank_from_result_abi :: "call_result_abi \<Rightarrow> prepared_register_bank" where
  "register_bank_from_result_abi abi = register_bank_from_abi (cr_type abi) (cr_primary_class abi)"

definition aarch64_float_register_name :: "type_kind \<Rightarrow> u64 \<Rightarrow> string option" where
  "aarch64_float_register_name t index =
     (if index \<ge> 8 then None
      else if t = F32 then Some (''s'' @ show_nat (unat index))
      else if t = F64 then Some (''d'' @ show_nat (unat index))
      else if t = F128 then Some (''q'' @ show_nat (unat index))
      else None)"

definition call_arg_destination_register_name :: "target_profile \<Rightarrow> call_arg_abi \<Rightarrow> u64 \<Rightarrow> string option" where
  "call_arg_destination_register_name tp abi arg_index =
     (if target_cpu tp = Aarch64 \<and> ca_type abi = Ptr \<and> ca_sret_pointer abi then Some ''x8''
      else if target_cpu tp = X86_64 \<and> ca_type abi = Ptr \<and> ca_byval_copy abi \<and> \<not> ca_sret_pointer abi
      then indexed_register_name kX86GeneralAbiRegisters arg_index
      else if \<not> ca_passed_in_register abi then None
      else
        (case target_cpu tp of
           X86_64 \<Rightarrow>
             if is_float_abi_class (ca_primary_class abi) then indexed_register_name kX86FloatAbiRegisters arg_index
             else if ca_primary_class abi = ClassInteger then indexed_register_name kX86GeneralAbiRegisters arg_index
             else None
         | I686 \<Rightarrow> None
         | Aarch64 \<Rightarrow>
             if is_float_abi_class (ca_primary_class abi) then aarch64_float_register_name (ca_type abi) arg_index
             else if ca_primary_class abi = ClassInteger then indexed_register_name kAarch64GeneralAbiRegisters arg_index
             else None
         | Riscv64 \<Rightarrow>
             if has_float_arg_registers tp \<and> (is_float_abi_class (ca_primary_class abi) \<or> is_float_type (ca_type abi))
             then indexed_register_name kRiscvFloatAbiRegisters arg_index
             else if ca_primary_class abi = ClassInteger then indexed_register_name kRiscvGeneralAbiRegisters arg_index
             else None
         | ArchUnknown \<Rightarrow> None))"

definition call_arg_destination_register_placement :: "target_profile \<Rightarrow> call_arg_abi \<Rightarrow> u64 \<Rightarrow> u64 \<Rightarrow> register_placement option" where
  "call_arg_destination_register_placement tp abi arg_index contiguous_width =
     (if target_cpu tp = Aarch64 \<and> ca_type abi = Ptr \<and> ca_sret_pointer abi then None
      else if call_arg_destination_register_name tp abi arg_index = None then None
      else Some \<lparr>rp_bank = register_bank_from_arg_abi abi, rp_pool = PoolCallArgument, rp_slot_index = arg_index,
                 rp_contiguous_width = max contiguous_width 1\<rparr>)"

definition call_result_destination_register_name :: "target_profile \<Rightarrow> call_result_abi \<Rightarrow> string option" where
  "call_result_destination_register_name tp abi =
     (if cr_returned_in_memory abi \<or> cr_primary_class abi = ClassMemory \<or> cr_type abi = Void then None
      else
        (case target_cpu tp of
           X86_64 \<Rightarrow> Some (if is_float_abi_class (cr_primary_class abi) \<or> is_float_type (cr_type abi) then ''xmm0'' else ''rax'')
         | I686 \<Rightarrow> if is_float_type (cr_type abi) then None else Some ''eax''
         | Aarch64 \<Rightarrow>
             if is_float_abi_class (cr_primary_class abi) \<or> is_float_type (cr_type abi) then aarch64_float_register_name (cr_type abi) 0
             else Some ''x0''
         | Riscv64 \<Rightarrow>
             Some (if has_float_return_registers tp \<and> (is_float_abi_class (cr_primary_class abi) \<or> is_float_type (cr_type abi))
                   then ''fa0'' else ''a0'')
         | ArchUnknown \<Rightarrow> None))"

definition call_result_destination_register_placement :: "target_profile \<Rightarrow> call_result_abi \<Rightarrow> u64 \<Rightarrow> register_placement option" where
  "call_result_destination_register_placement tp abi contiguous_width =
     (if call_result_destination_register_name tp abi = None then None
      else Some \<lparr>rp_bank = register_bank_from_result_abi abi, rp_pool = PoolCallResult, rp_slot_index = 0,
                 rp_contiguous_width = max contiguous_width 1\<rparr>)"

definition target_register_identity_for_abi_register_placement ::
    "target_profile \<Rightarrow> register_placement \<Rightarrow> register_identity option" where
  "target_register_identity_for_abi_register_placement tp p =
     (if rp_pool p \<noteq> PoolCallArgument \<and> rp_pool p \<noteq> PoolCallResult \<or> rp_contiguous_width p = 0 then None
      else
        (case target_cpu tp of
           X86_64 \<Rightarrow> x86_64_abi_register_identity p
         | Aarch64 \<Rightarrow> aarch64_abi_register_identity p
         | Riscv64 \<Rightarrow>
             if rp_bank p \<noteq> BankGpr \<and> rp_bank p \<noteq> BankFpr then None
             else if rp_slot_index p \<ge> 8 then None
             else Some \<lparr>ti_target_arch = Riscv64, ti_bank = rp_bank p, ti_register_class = register_class_from_bank (rp_bank p),
                        ti_physical_index = 10 + rp_slot_index p\<rparr>
         | _ \<Rightarrow> None))"

section \<open>Pools and spans\<close>

fun x86_caller_saved_pool :: "register_class \<Rightarrow> string list" where
  "x86_caller_saved_pool RegGeneral = [''r11'']"
| "x86_caller_saved_pool RegFloat = [''xmm8'']"
| "x86_caller_saved_pool RegVector = [''ymm8'']"
| "x86_caller_saved_pool _ = []"

fun x86_callee_saved_pool :: "register_class \<Rightarrow> string list" where
  "x86_callee_saved_pool RegGeneral = [''rbx'', ''r12'']"
| "x86_callee_saved_pool RegFloat = [''xmm12'', ''xmm13'']"
| "x86_callee_saved_pool RegVector = [''ymm12'', ''ymm13'']"
| "x86_callee_saved_pool _ = []"

fun i686_caller_saved_pool :: "register_class \<Rightarrow> string list" where
  "i686_caller_saved_pool RegGeneral = [''ecx'']"
| "i686_caller_saved_pool RegFloat = [''xmm1'']"
| "i686_caller_saved_pool RegVector = [''ymm1'']"
| "i686_caller_saved_pool _ = []"

fun i686_callee_saved_pool :: "register_class \<Rightarrow> string list" where
  "i686_callee_saved_pool RegGeneral = [''ebx'', ''esi'']"
| "i686_callee_saved_pool RegFloat = [''xmm6'', ''xmm7'']"
| "i686_callee_saved_pool RegVector = [''ymm6'', ''ymm7'']"
| "i686_callee_saved_pool _ = []"

fun aarch64_caller_saved_pool :: "register_class \<Rightarrow> string list" where
  "aarch64_caller_saved_pool RegGeneral = [''x13'']"
| "aarch64_caller_saved_pool RegFloat = [''d13'']"
| "aarch64_caller_saved_pool RegVector = [''v13'']"
| "aarch64_caller_saved_pool _ = []"

fun aarch64_callee_saved_pool :: "register_class \<Rightarrow> string list" where
  "aarch64_callee_saved_pool RegGeneral = [''x20'', ''x21'']"
| "aarch64_callee_saved_pool RegFloat = [''d20'', ''d21'']"
| "aarch64_callee_saved_pool RegVector = [''v20'', ''v21'']"
| "aarch64_callee_saved_pool _ = []"

fun riscv_caller_saved_pool :: "register_class \<Rightarrow> string list" where
  "riscv_caller_saved_pool RegGeneral = [''t0'']"
| "riscv_caller_saved_pool RegFloat = [''ft0'']"
| "riscv_caller_saved_pool RegVector = [''v0'']"
| "riscv_caller_saved_pool _ = []"

fun riscv_callee_saved_pool :: "register_class \<Rightarrow> string list" where
  "riscv_callee_saved_pool RegGeneral = [''s1'', ''s2'']"
| "riscv_callee_saved_pool RegFloat = [''fs1'', ''fs2'']"
| "riscv_callee_saved_pool RegVector = [''v8'', ''v9'']"
| "riscv_callee_saved_pool _ = []"

definition caller_saved_registers :: "target_profile \<Rightarrow> register_class \<Rightarrow> string list" where
  "caller_saved_registers tp c =
     (case target_cpu tp of
        X86_64 \<Rightarrow> x86_caller_saved_pool c | I686 \<Rightarrow> i686_caller_saved_pool c | Aarch64 \<Rightarrow> aarch64_caller_saved_pool c
      | Riscv64 \<Rightarrow> riscv_caller_saved_pool c | ArchUnknown \<Rightarrow> [])"

definition callee_saved_registers :: "target_profile \<Rightarrow> register_class \<Rightarrow> string list" where
  "callee_saved_registers tp c =
     (case target_cpu tp of
        X86_64 \<Rightarrow> x86_callee_saved_pool c | I686 \<Rightarrow> i686_callee_saved_pool c | Aarch64 \<Rightarrow> aarch64_callee_saved_pool c
      | Riscv64 \<Rightarrow> riscv_callee_saved_pool c | ArchUnknown \<Rightarrow> [])"

definition contiguous_vector_units :: "string \<Rightarrow> nat \<Rightarrow> nat \<Rightarrow> string list" where
  "contiguous_vector_units prefix start_index n = map (\<lambda>i. prefix @ show_nat (start_index + i)) [0..<n]"

text \<open>A span of \<open>units\<close> that starts at \<open>base_index\<close>.\<close>

definition span_at :: "string list \<Rightarrow> u64 \<Rightarrow> prepared_register_bank \<Rightarrow> register_slot_pool \<Rightarrow> nat \<Rightarrow> candidate_span" where
  "span_at units width bank pool base_index =
     \<lparr>cs_register_name = units ! base_index, cs_contiguous_width = width,
      cs_occupied_register_names = map (\<lambda>offs. units ! (base_index + offs)) [0..<unat width],
      cs_placement = Some \<lparr>rp_bank = bank, rp_pool = pool, rp_slot_index = of_nat base_index, rp_contiguous_width = width\<rparr>\<rparr>"

definition singleton_spans :: "string list \<Rightarrow> prepared_register_bank \<Rightarrow> register_slot_pool \<Rightarrow> candidate_span list" where
  "singleton_spans names bank pool = map (span_at names 1 bank pool) [0..<length names]"

definition contiguous_group_spans :: "string list \<Rightarrow> u64 \<Rightarrow> prepared_register_bank \<Rightarrow> register_slot_pool \<Rightarrow> candidate_span list" where
  "contiguous_group_spans units width bank pool =
     (if width = 0 \<or> length units < unat width then []
      else map (\<lambda>k. span_at units width bank pool (k * unat width)) [0..<length units div unat width])"

definition split_trailing_register_index :: "string \<Rightarrow> (string \<times> u64) option" where
  "split_trailing_register_index name =
     (let digits = rev (takeWhile isdigit (rev name));
          parsed = foldl (\<lambda>n c. 10 * n + digit_value c) 0 digits in
      if digits = [] \<or> parsed \<ge> 2 ^ 64 then None
      else Some (take (length name - length digits) name, of_nat parsed))"

definition contiguous_pool_spans :: "string list \<Rightarrow> u64 \<Rightarrow> prepared_register_bank \<Rightarrow> register_slot_pool \<Rightarrow> candidate_span list" where
  "contiguous_pool_spans names width bank pool =
     (if width = 0 \<or> length names < unat width then []
      else if width = 1 then singleton_spans names bank pool
      else
        map (span_at names width bank pool)
          (filter (\<lambda>b. case split_trailing_register_index (names ! b) of
              None \<Rightarrow> False
            | Some (prefix, index) \<Rightarrow>
                list_all (\<lambda>offs. split_trailing_register_index (names ! (b + offs)) = Some (prefix, index + of_nat offs)) [1..<unat width])
            [0..<Suc (length names - unat width)]))"

definition vector_units :: "target_arch \<Rightarrow> bool \<Rightarrow> string list" where
  "vector_units a caller_pool =
     (case a of
        X86_64 \<Rightarrow> contiguous_vector_units ''ymm'' (if caller_pool then 0 else 16) 16
      | I686 \<Rightarrow> contiguous_vector_units ''ymm'' (if caller_pool then 0 else 8) 8
      | Aarch64 \<Rightarrow> contiguous_vector_units ''v'' (if caller_pool then 0 else 16) 16
      | Riscv64 \<Rightarrow> contiguous_vector_units ''v'' (if caller_pool then 0 else 16) 16
      | ArchUnknown \<Rightarrow> [])"

definition register_spans_for_pool :: "target_profile \<Rightarrow> register_class \<Rightarrow> bool \<Rightarrow> u64 \<Rightarrow> candidate_span list" where
  "register_spans_for_pool tp c caller_pool width =
     (if width = 0 then []
      else
        let bank = register_bank_from_class c; pool = (if caller_pool then PoolCallerSaved else PoolCalleeSaved) in
        if c = RegVector then contiguous_group_spans (vector_units (target_cpu tp) caller_pool) width bank pool
        else contiguous_pool_spans (if caller_pool then caller_saved_registers tp c else callee_saved_registers tp c) width bank pool)"

definition caller_saved_register_spans :: "target_profile \<Rightarrow> register_class \<Rightarrow> u64 \<Rightarrow> candidate_span list" where
  "caller_saved_register_spans tp c width = register_spans_for_pool tp c True width"

definition callee_saved_register_spans :: "target_profile \<Rightarrow> register_class \<Rightarrow> u64 \<Rightarrow> candidate_span list" where
  "callee_saved_register_spans tp c width = register_spans_for_pool tp c False width"

section \<open>ABI of calls that carry none\<close>

text \<open>
  The description the legalizer (\<open>legalize.cpp\<close>) gives an argument or a result of a call that came without one.
  The switches have no case for the vector register types.
\<close>

definition direct_bir_call_arg_abi_repair :: "target_profile \<Rightarrow> type_kind \<Rightarrow> call_arg_abi option" where
  "direct_bir_call_arg_abi_repair tp t =
     (let in_register = (\<lambda>c. Some \<lparr>ca_type = t, ca_primary_class = c, ca_passed_in_register = True, ca_byval_copy = False, ca_sret_pointer = False\<rparr>);
          on_stack = Some \<lparr>ca_type = t, ca_primary_class = ClassMemory, ca_passed_in_register = False, ca_byval_copy = False, ca_sret_pointer = False\<rparr> in
      if t = Void then None
      else if t = F128 \<and> target_cpu tp = X86_64 then on_stack
      else if is_float_type t then in_register (if has_float_arg_registers tp then ClassSse else ClassInteger)
      else if t \<in> {I1, I8, I16, I32, I64, Ptr} then in_register ClassInteger
      else if t = I128 then on_stack
      else None)"

definition direct_bir_call_result_abi_repair :: "target_profile \<Rightarrow> type_kind \<Rightarrow> call_result_abi option" where
  "direct_bir_call_result_abi_repair tp t =
     (if t = Void then None
      else Some \<lparr>cr_type = t,
        cr_primary_class =
          (if is_float_type t then (if has_float_return_registers tp then ClassSse else ClassInteger)
           else if t \<in> {I1, I8, I32, I64, Ptr} then ClassInteger
           else if t = I128 then ClassMemory
           else ClassNone),
        cr_returned_in_memory = (t = I128)\<rparr>)"

end
