(* ===== verification/Frame_Plan.thy ===== *)
theory Frame_Plan
  imports Target_Registers "HOL-Library.Product_Lexorder" "HOL-Library.List_Lexorder"
begin

text \<open>
  The frame plan of each function (\<open>backend/prealloc/frame_plan.cpp\<close>): its size and alignment, the order of its
  slots and the callee saved registers it uses, each with a slot above the locals. Of the module, the
  register assignment and the addressing data only the fields the planner reads are kept. The comparison it
  sorts the slot ids with need not be an order; \<open>std::sort\<close> is then undefined and the model has no plan.
\<close>

lemma fold_invariant:
  assumes "P s" "\<And>x s. x \<in> set xs \<Longrightarrow> P s \<Longrightarrow> P (f x s)"
  shows "P (fold f xs s)"
  using assms by (induction xs arbitrary: s) simp_all

section \<open>What the planner reads\<close>

record register_assignment =
  ra_reg_class :: register_class
  ra_register_name :: string
  ra_contiguous_width :: u64
  ra_occupied_register_names :: "string list"
  ra_placement :: "register_placement option"

record stack_slot_assignment =
  sa_slot_id :: u64
  sa_offset_bytes :: u64
  sa_size_bytes :: "u64 option"
  sa_align_bytes :: "u64 option"

record regalloc_value =
  rv_register_class :: register_class
  rv_register_group_width :: u64
  rv_assigned_register :: "register_assignment option"
  rv_assigned_stack_slot :: "stack_slot_assignment option"

record regalloc_function =
  rf_function_name :: u32
  rf_values :: "regalloc_value list"

datatype bir_inst = CallInst string | OtherInst

record bir_function =
  bf_name :: string
  bf_is_declaration :: bool
  bf_blocks :: "bir_inst list list"

record prepared_module =
  pm_target_profile :: target_profile
  pm_functions :: "bir_function list"
  pm_texts :: string_id_table
  pm_function_names :: semantic_name_table
  pm_addressing :: "addressing_function list"
  pm_stack_layout :: stack_layout
  pm_regalloc :: "regalloc_function list"

section \<open>Registers\<close>

definition find_register_pool_placement ::
    "target_profile \<Rightarrow> register_class \<Rightarrow> u64 \<Rightarrow> string list \<Rightarrow> bool \<Rightarrow> register_placement option" where
  "find_register_pool_placement tp c width occupied caller_pool =
     (if occupied = [] then None
      else
        (case find (\<lambda>span. cs_occupied_register_names span = occupied)
                (if caller_pool then caller_saved_register_spans tp c width else callee_saved_register_spans tp c width) of
           None \<Rightarrow> None
         | Some span \<Rightarrow> cs_placement span))"

definition find_register_placement :: "target_profile \<Rightarrow> register_class \<Rightarrow> u64 \<Rightarrow> string list \<Rightarrow> register_placement option" where
  "find_register_placement tp c width occupied =
     (case find_register_pool_placement tp c width occupied False of
        Some p \<Rightarrow> Some p
      | None \<Rightarrow> find_register_pool_placement tp c width occupied True)"

definition assignment_register_placement :: "target_profile \<Rightarrow> register_assignment \<Rightarrow> register_placement option" where
  "assignment_register_placement tp a =
     (if ra_placement a \<noteq> None then ra_placement a
      else find_register_placement tp (ra_reg_class a) (ra_contiguous_width a) (ra_occupied_register_names a))"

definition align_prepared_offset :: "u64 \<Rightarrow> u64 \<Rightarrow> u64" where
  "align_prepared_offset value alignment =
     (if alignment \<le> 1 then value
      else let remainder = value mod alignment in if remainder = 0 then value else value + (alignment - remainder))"

definition next_prepared_frame_slot_id :: "stack_layout \<Rightarrow> u64" where
  "next_prepared_frame_slot_id layout = foldl (\<lambda>next slot. max next (fs_slot_id slot + 1)) 0 (sl_frame_slots layout)"

fun saved_register_slot_unit_size :: "target_profile \<Rightarrow> prepared_register_bank \<Rightarrow> u64" where
  "saved_register_slot_unit_size tp BankGpr = (if target_cpu tp = I686 then 4 else 8)"
| "saved_register_slot_unit_size tp BankAggregateAddress = (if target_cpu tp = I686 then 4 else 8)"
| "saved_register_slot_unit_size tp BankFpr = 8"
| "saved_register_slot_unit_size tp BankVreg = 16"
| "saved_register_slot_unit_size tp BankNone = 0"

definition make_saved_register_slot_placement :: "saved_register \<Rightarrow> u64 \<Rightarrow> u64 \<Rightarrow> u64 \<Rightarrow> u64 \<Rightarrow> saved_slot_placement" where
  "make_saved_register_slot_placement saved slot_id offset_bytes size_bytes align_bytes =
     \<lparr>ss_bank = sv_bank saved, ss_register_name = sv_register_name saved, ss_contiguous_width = sv_contiguous_width saved,
      ss_occupied_register_names = sv_occupied_register_names saved, ss_save_index = sv_save_index saved,
      ss_register_placement = sv_placement saved, ss_slot_id = Some slot_id, ss_stack_offset_bytes = Some offset_bytes,
      ss_size_bytes = Some size_bytes, ss_align_bytes = Some align_bytes, ss_fixed_location = True\<rparr>"

definition should_publish_saved_register_slot_placement :: "saved_register \<Rightarrow> bool \<Rightarrow> bool" where
  "should_publish_saved_register_slot_placement saved has_dynamic_stack \<longleftrightarrow> \<not> has_dynamic_stack \<or> sv_bank saved = BankGpr"

definition find_regalloc_function :: "regalloc_function list \<Rightarrow> u32 \<Rightarrow> regalloc_function option" where
  "find_regalloc_function regalloc function_name = find (\<lambda>f. rf_function_name f = function_name) regalloc"

definition find_prepared_addressing_function :: "addressing_function list \<Rightarrow> u32 \<Rightarrow> addressing_function option" where
  "find_prepared_addressing_function addressing function_name = find (\<lambda>f. ad_function_name f = function_name) addressing"

text \<open>The first position an element with a property has.\<close>

fun position :: "('a \<Rightarrow> bool) \<Rightarrow> 'a list \<Rightarrow> nat option" where
  "position p [] = None"
| "position p (x # xs) = (if p x then Some 0 else map_option Suc (position p xs))"

definition callee_saved_span_save_index :: "target_profile \<Rightarrow> regalloc_value \<Rightarrow> u64 option" where
  "callee_saved_span_save_index tp value =
     (case rv_assigned_register value of
        None \<Rightarrow> None
      | Some a \<Rightarrow>
          map_option of_nat (position (\<lambda>span. cs_occupied_register_names span = ra_occupied_register_names a)
            (callee_saved_register_spans tp (rv_register_class value) (rv_register_group_width value))))"

definition is_callee_saved_register_assignment :: "target_profile \<Rightarrow> regalloc_value \<Rightarrow> bool" where
  "is_callee_saved_register_assignment tp value \<longleftrightarrow>
     (case rv_assigned_register value of
        None \<Rightarrow> False
      | Some a \<Rightarrow> list_ex (\<lambda>span. cs_occupied_register_names span = ra_occupied_register_names a)
          (callee_saved_register_spans tp (rv_register_class value) (rv_register_group_width value)))"

section \<open>Sizes, slots and saved registers of one function\<close>

text \<open>The frame so far: its size, its alignment and the ids of its slots in the order they were met.\<close>

record frame_extent =
  fe_size_bytes :: u64
  fe_alignment_bytes :: u64
  fe_slot_order :: "u64 list"

definition extend_frame :: "u64 \<Rightarrow> u64 \<Rightarrow> u64 \<Rightarrow> u64 \<Rightarrow> frame_extent \<Rightarrow> frame_extent" where
  "extend_frame slot_id offset_bytes size_bytes align_bytes fe =
     \<lparr>fe_size_bytes = max (fe_size_bytes fe) (offset_bytes + size_bytes),
      fe_alignment_bytes = max (fe_alignment_bytes fe) align_bytes, fe_slot_order = fe_slot_order fe @ [slot_id]\<rparr>"

definition add_frame_slot :: "u32 \<Rightarrow> frame_slot \<Rightarrow> frame_extent \<Rightarrow> frame_extent" where
  "add_frame_slot function_name slot fe =
     (if fs_function_name slot = function_name
      then extend_frame (fs_slot_id slot) (fs_offset_bytes slot) (fs_size_bytes slot) (fs_align_bytes slot) fe else fe)"

definition add_value_slot :: "regalloc_value \<Rightarrow> frame_extent \<Rightarrow> frame_extent" where
  "add_value_slot value fe =
     (case rv_assigned_stack_slot value of
        None \<Rightarrow> fe
      | Some s \<Rightarrow> extend_frame (sa_slot_id s) (sa_offset_bytes s) (case sa_size_bytes s of None \<Rightarrow> 0 | Some n \<Rightarrow> n)
          (case sa_align_bytes s of None \<Rightarrow> 1 | Some n \<Rightarrow> n) fe)"

definition frame_extent_of :: "prepared_module \<Rightarrow> u32 \<Rightarrow> regalloc_value list \<Rightarrow> frame_extent" where
  "frame_extent_of pm function_name vals =
     (let start = (case find_prepared_addressing_function (pm_addressing pm) function_name of
            None \<Rightarrow> \<lparr>fe_size_bytes = 0, fe_alignment_bytes = 1, fe_slot_order = []\<rparr>
          | Some a \<Rightarrow> \<lparr>fe_size_bytes = ad_frame_size_bytes a, fe_alignment_bytes = ad_frame_alignment_bytes a, fe_slot_order = []\<rparr>) in
      fold add_value_slot vals (fold (add_frame_slot function_name) (sl_frame_slots (pm_stack_layout pm)) start))"

definition saved_register_of :: "target_profile \<Rightarrow> regalloc_value \<Rightarrow> register_assignment \<Rightarrow> u64 \<Rightarrow> saved_register" where
  "saved_register_of tp value a save_index =
     \<lparr>sv_bank = register_bank_from_class (rv_register_class value), sv_register_name = ra_register_name a,
      sv_contiguous_width = ra_contiguous_width a, sv_occupied_register_names = ra_occupied_register_names a,
      sv_save_index = save_index, sv_placement = assignment_register_placement tp a, sv_slot_placement = None\<rparr>"

definition already_published :: "saved_register list \<Rightarrow> prepared_register_bank \<Rightarrow> string list \<Rightarrow> bool" where
  "already_published saved bank occupied \<longleftrightarrow> list_ex (\<lambda>s. sv_bank s = bank \<and> sv_occupied_register_names s = occupied) saved"

definition add_saved_register :: "target_profile \<Rightarrow> regalloc_value \<Rightarrow> saved_register list \<Rightarrow> saved_register list" where
  "add_saved_register tp value saved =
     (case rv_assigned_register value of
        None \<Rightarrow> saved
      | Some a \<Rightarrow>
          if \<not> is_callee_saved_register_assignment tp value then saved
          else
            (case callee_saved_span_save_index tp value of
               None \<Rightarrow> saved
             | Some save_index \<Rightarrow>
                 if already_published saved (register_bank_from_class (rv_register_class value)) (ra_occupied_register_names a) then saved
                 else saved @ [saved_register_of tp value a save_index]))"

definition collect_saved_registers :: "target_profile \<Rightarrow> regalloc_value list \<Rightarrow> saved_register list" where
  "collect_saved_registers tp vals = fold (add_saved_register tp) vals []"

fun bank_rank :: "prepared_register_bank \<Rightarrow> nat" where
  "bank_rank BankNone = 0"
| "bank_rank BankGpr = 1"
| "bank_rank BankFpr = 2"
| "bank_rank BankVreg = 3"
| "bank_rank BankAggregateAddress = 4"

text \<open>
  The comparison of the saved registers is lexicographic; where two of them have the same key, the
  code leaves their order open.
\<close>

definition saved_register_key :: "saved_register \<Rightarrow> nat \<times> u64 \<times> u64 \<times> nat list" where
  "saved_register_key s = (bank_rank (sv_bank s), sv_save_index s, sv_contiguous_width s, map code (sv_register_name s))"

definition is_dynamic_alloca_call :: "string \<Rightarrow> bool" where
  "is_dynamic_alloca_call callee \<longleftrightarrow> take (length ''llvm.dynamic_alloca.'') callee = ''llvm.dynamic_alloca.''"

fun changes_stack :: "bir_inst \<Rightarrow> bool" where
  "changes_stack (CallInst callee) \<longleftrightarrow> callee = ''llvm.stacksave'' \<or> callee = ''llvm.stackrestore'' \<or> is_dynamic_alloca_call callee"
| "changes_stack OtherInst \<longleftrightarrow> False"

definition function_has_dynamic_stack :: "bir_function \<Rightarrow> bool" where
  "function_has_dynamic_stack f \<longleftrightarrow> list_ex (list_ex changes_stack) (bf_blocks f)"

fun place_saved_registers :: "target_profile \<Rightarrow> bool \<Rightarrow> saved_register list \<Rightarrow> u64 \<Rightarrow> u64 \<Rightarrow> saved_register list" where
  "place_saved_registers tp dynamic [] slot_id off = []"
| "place_saved_registers tp dynamic (saved # rest) slot_id off =
     (let unit_size = saved_register_slot_unit_size tp (sv_bank saved) in
      if \<not> should_publish_saved_register_slot_placement saved dynamic \<or> unit_size = 0 \<or> sv_placement saved = None
      then saved # place_saved_registers tp dynamic rest slot_id off
      else
        let size_bytes = unit_size * max (sv_contiguous_width saved) 1;
            start = align_prepared_offset off unit_size in
        saved\<lparr>sv_slot_placement := Some (make_saved_register_slot_placement saved slot_id start size_bytes unit_size)\<rparr>
          # place_saved_registers tp dynamic rest (slot_id + 1) (start + size_bytes))"

section \<open>The order of the slots\<close>

definition frame_slot_offsets :: "stack_layout \<Rightarrow> u32 \<Rightarrow> (u64 \<rightharpoonup> u64)" where
  "frame_slot_offsets layout function_name =
     foldl (\<lambda>m slot. Text_Id_Table.emplace m (fs_slot_id slot) (fs_offset_bytes slot)) Map.empty
       (filter (\<lambda>slot. fs_function_name slot = function_name) (sl_frame_slots layout))"

definition slot_before :: "(u64 \<rightharpoonup> u64) \<Rightarrow> u64 \<Rightarrow> u64 \<Rightarrow> bool" where
  "slot_before offsets lhs rhs =
     (case (offsets lhs, offsets rhs) of
        (Some l, Some r) \<Rightarrow> if l \<noteq> r then l < r else lhs < rhs
      | _ \<Rightarrow> lhs < rhs)"

definition transitive_on :: "('a \<Rightarrow> 'a \<Rightarrow> bool) \<Rightarrow> 'a list \<Rightarrow> bool" where
  "transitive_on before xs \<longleftrightarrow>
     list_all (\<lambda>x. list_all (\<lambda>y. list_all (\<lambda>z. before x y \<and> before y z \<longrightarrow> before x z) xs) xs) xs"

fun insert_before :: "('a \<Rightarrow> 'a \<Rightarrow> bool) \<Rightarrow> 'a \<Rightarrow> 'a list \<Rightarrow> 'a list" where
  "insert_before before x [] = [x]"
| "insert_before before x (y # ys) = (if before y x then y # insert_before before x ys else x # y # ys)"

text \<open>
  \<open>std::sort\<close> is defined when the comparison is an order on the elements. \<open>slot_before\<close> holds in one
  direction for any two ids and never for an id and itself, so it is one exactly where it is transitive.
\<close>

definition std_sort :: "('a \<Rightarrow> 'a \<Rightarrow> bool) \<Rightarrow> 'a list \<Rightarrow> 'a list option" where
  "std_sort before xs = (if transitive_on before xs then Some (foldr (insert_before before) xs []) else None)"

section \<open>The plan\<close>

definition plan_function :: "prepared_module \<Rightarrow> bir_function \<Rightarrow> u32 \<Rightarrow> frame_plan option" where
  "plan_function pm f function_name =
     (let vals = (case find_regalloc_function (pm_regalloc pm) function_name of None \<Rightarrow> [] | Some rf \<Rightarrow> rf_values rf);
          fe = frame_extent_of pm function_name vals;
          saved = sort_key saved_register_key (collect_saved_registers (pm_target_profile pm) vals);
          dynamic = function_has_dynamic_stack f;
          placed = place_saved_registers (pm_target_profile pm) dynamic saved
            (next_prepared_frame_slot_id (pm_stack_layout pm)) (fe_size_bytes fe) in
      case std_sort (slot_before (frame_slot_offsets (pm_stack_layout pm) function_name)) (fe_slot_order fe) of
        None \<Rightarrow> None
      | Some order \<Rightarrow>
          Some \<lparr>fp_function_name = function_name, fp_frame_size_bytes = fe_size_bytes fe,
                fp_frame_alignment_bytes = fe_alignment_bytes fe, fp_saved_callee_registers = placed,
                fp_frame_slot_order = remdups_adj order, fp_has_dynamic_stack = dynamic,
                fp_uses_frame_pointer_for_fixed_slots = (dynamic \<and> remdups_adj order \<noteq> [])\<rparr>)"

fun plan_functions :: "(string \<Rightarrow> u64) \<Rightarrow> prepared_module \<Rightarrow> bir_function list \<Rightarrow> frame_plan list option" where
  "plan_functions hash pm [] = Some []"
| "plan_functions hash pm (f # fs) =
     (let function_name = snt_find hash (Some (pm_texts pm)) (pm_function_names pm) (bf_name f) in
      if bf_is_declaration f \<or> function_name = 0 then plan_functions hash pm fs
      else
        do {
          plan \<leftarrow> plan_function pm f function_name;
          plans \<leftarrow> plan_functions hash pm fs;
          Some (plan # plans)
        })"

definition populate_frame_plan :: "(string \<Rightarrow> u64) \<Rightarrow> prepared_module \<Rightarrow> frame_plan list option" where
  "populate_frame_plan hash pm = plan_functions hash pm (pm_functions pm)"

end
