(* ===== verification/Frame_Plan_Correct.thy ===== *)
theory Frame_Plan_Correct
  imports Frame_Plan Rv64_Frame_Correct
begin

text \<open>
  What the frame plan promises the code generator: the slots of the saved registers lie above the
  locals and apart from each other, so the prologue and the epilogue emitted for a planned function restore its
  caller's registers with nothing left to assume about the plan.
\<close>

section \<open>Saved registers are collected once, without a slot\<close>

definition unplaced :: "saved_register list \<Rightarrow> bool" where
  "unplaced ss \<longleftrightarrow> (\<forall>s\<in>set ss. sv_slot_placement s = None)"

lemma unplaced_collect: "unplaced (collect_saved_registers tp vals)"
  unfolding collect_saved_registers_def
  by (rule fold_invariant) (auto simp: unplaced_def add_saved_register_def saved_register_of_def split: option.splits)

text \<open>A register is saved once per bank, however many values it holds.\<close>

lemma collect_distinct:
  "distinct (map (\<lambda>s. (sv_bank s, sv_occupied_register_names s)) (collect_saved_registers tp vals))"
  unfolding collect_saved_registers_def
  by (rule fold_invariant)
    (auto simp: add_saved_register_def saved_register_of_def already_published_def list_ex_iff split: option.splits)

section \<open>Slots of the saved registers\<close>

definition saved_offset_of :: "saved_register \<Rightarrow> u64" where
  "saved_offset_of s = the (ss_stack_offset_bytes (the (sv_slot_placement s)))"

text \<open>A register of one of the two spilled banks has a slot of eight bytes inside the frame.\<close>

definition spillable :: "u64 \<Rightarrow> saved_register \<Rightarrow> bool" where
  "spillable n s \<longleftrightarrow> (sv_bank s = BankGpr \<or> sv_bank s = BankFpr \<longrightarrow>
     sv_slot_placement s \<noteq> None \<and> ss_size_bytes (the (sv_slot_placement s)) = Some 8 \<and> unat (saved_offset_of s) + 8 \<le> unat n)"

lemma saved_offset_spillable:
  "saved_callee_stack_offset b name_ok s n = Some d \<Longrightarrow> spillable n s"
  using saved_offset(4) [of b name_ok s n d]
  by (auto simp: saved_callee_stack_offset_def spillable_def saved_offset_of_def split: if_splits option.splits)

lemma spills_spillable:
  assumes "append_rv64_prepared_saved_callee_gpr_spills plan n f = Some f'" "append_rv64_prepared_saved_callee_fpr_spills plan n f' = Some f''"
    and s: "s \<in> set (saved_registers plan)"
  shows "spillable n s"
proof -
  obtain g g' where g: "spill_gpr n s g = Some g'"
    using each_step_all [OF assms(1) [unfolded append_rv64_prepared_saved_callee_gpr_spills_def] s] by blast
  obtain h h' where h: "spill_fpr n s h = Some h'"
    using each_step_all [OF assms(2) [unfolded append_rv64_prepared_saved_callee_fpr_spills_def] s] by blast
  consider "sv_bank s = BankGpr" | "sv_bank s = BankFpr" | "sv_bank s \<noteq> BankGpr" "sv_bank s \<noteq> BankFpr" by blast
  then show ?thesis
  proof cases
    case 1
    then show ?thesis using g
      by (auto simp: spill_gpr_def rv64_prepared_saved_callee_gpr_stack_offset_def split: option.splits intro: saved_offset_spillable)
  next
    case 2
    then show ?thesis using h
      by (auto simp: spill_fpr_def rv64_prepared_saved_callee_fpr_stack_offset_def split: option.splits intro: saved_offset_spillable)
  qed (simp add: spillable_def)
qed

lemma align_prepared_offset_ge:
  assumes "unat off \<le> 2 ^ 63" "unat a \<le> 2 ^ 62"
  shows "unat off \<le> unat (align_prepared_offset off a)"
proof (cases "a \<le> 1 \<or> off mod a = 0")
  case False
  then have "0 < unat a" by (auto simp: word_le_nat_alt)
  then have "unat (off mod a) < unat a" by (simp add: unat_mod_distrib)
  then have "unat (a - off mod a) \<le> unat a" by (simp add: unat_sub word_le_nat_alt)
  with assms have "unat (off + (a - off mod a)) = unat off + unat (a - off mod a)"
    by (intro unat_add_lem [THEN iffD1]) simp
  with False show ?thesis by (simp add: align_prepared_offset_def Let_def)
qed (auto simp: align_prepared_offset_def Let_def)

lemma unit_size_le: "unat (saved_register_slot_unit_size tp b) \<le> 2 ^ 62"
  by (cases b) simp_all

abbreviation spilled_bank :: "saved_register \<Rightarrow> bool" where
  "spilled_bank s \<equiv> sv_bank s = BankGpr \<or> sv_bank s = BankFpr"

lemma place_saved_banks: "map sv_bank (place_saved_registers tp dynamic ss slot_id off) = map sv_bank ss"
  by (induction ss arbitrary: slot_id off) (simp_all add: Let_def)

definition ordered_from :: "u64 \<Rightarrow> saved_register list \<Rightarrow> bool" where
  "ordered_from off ps \<longleftrightarrow>
     sorted_wrt (\<lambda>s t. unat (saved_offset_of s) + 8 \<le> unat (saved_offset_of t)) (filter spilled_bank ps) \<and>
     (\<forall>s\<in>set ps. spilled_bank s \<longrightarrow> unat off \<le> unat (saved_offset_of s))"

lemma ordered_from_Cons:
  assumes "ordered_from (saved_offset_of s + 8) ps" "unat off \<le> unat (saved_offset_of s)"
    "unat (saved_offset_of s + 8) = unat (saved_offset_of s) + 8"
  shows "ordered_from off (s # ps)"
  using assms by (fastforce simp: ordered_from_def)

text \<open>
  General and floating point registers are placed one after the other, each where the last one ends or
  later.
\<close>

lemma place_saved_ordered:
  assumes "sorted (map (\<lambda>s. bank_rank (sv_bank s)) ss)" "unplaced ss" "unat off \<le> 2 ^ 63" "unat n \<le> 2 ^ 63"
    and "\<forall>s\<in>set (place_saved_registers tp dynamic ss slot_id off). spillable n s"
  shows "ordered_from off (place_saved_registers tp dynamic ss slot_id off)"
  using assms
proof (induction ss arbitrary: slot_id off)
  case (Cons s ss)
  have tail: "sorted (map (\<lambda>s. bank_rank (sv_bank s)) ss)" "unplaced ss" using Cons.prems(1,2) by (simp_all add: unplaced_def)
  let ?unit = "saved_register_slot_unit_size tp (sv_bank s)"
  let ?start = "align_prepared_offset off ?unit" and ?size = "?unit * max (sv_contiguous_width s) 1"
  let ?h = "s\<lparr>sv_slot_placement := Some (make_saved_register_slot_placement s slot_id ?start ?size ?unit)\<rparr>"
  let ?skipped = "\<not> should_publish_saved_register_slot_placement s dynamic \<or> ?unit = 0 \<or> sv_placement s = None"
  consider (none) "sv_bank s = BankNone" | (spilled) "spilled_bank s" | (later) "bank_rank (sv_bank s) \<ge> 3"
    by (cases "sv_bank s") simp_all
  then show ?case
  proof cases
    case none
    then have ps: "place_saved_registers tp dynamic (s # ss) slot_id off = s # place_saved_registers tp dynamic ss slot_id off" by simp
    then have "\<forall>s\<in>set (place_saved_registers tp dynamic ss slot_id off). spillable n s" using Cons.prems(5) by simp
    from Cons.IH [OF tail Cons.prems(3,4) this] none show ?thesis unfolding ps by (simp add: ordered_from_def)
  next
    case spilled
    have placed: "\<not> ?skipped"
      using Cons.prems(2,5) spilled by (auto simp: Let_def unplaced_def spillable_def split: if_splits)
    then have ps: "place_saved_registers tp dynamic (s # ss) slot_id off = ?h # place_saved_registers tp dynamic ss (slot_id + 1) (?start + ?size)"
      by (auto simp: Let_def)
    then have "spillable n ?h" using Cons.prems(5) by simp
    then have h: "?size = 8" "unat ?start + 8 \<le> unat n" "saved_offset_of ?h = ?start"
      using spilled by (auto simp: spillable_def saved_offset_of_def make_saved_register_slot_placement_def)
    have start: "unat off \<le> unat ?start" by (rule align_prepared_offset_ge [OF Cons.prems(3) unit_size_le])
    have next_off: "unat (?start + 8) = unat ?start + 8" using h(2) Cons.prems(4) unat_add_lem [THEN iffD1, of ?start 8] by simp
    have "\<forall>s\<in>set (place_saved_registers tp dynamic ss (slot_id + 1) (?start + 8)). spillable n s" "unat (?start + 8) \<le> 2 ^ 63"
      using Cons.prems(4,5) h(1,2) next_off unfolding ps by simp_all
    from Cons.IH [OF tail this(2) Cons.prems(4) this(1)] show ?thesis
      unfolding ps h(1) [symmetric] using start next_off h(1,3) by (intro ordered_from_Cons) simp_all
  next
    case later
    have "\<not> spilled_bank t" if t: "t \<in> set (place_saved_registers tp dynamic (s # ss) slot_id off)" for t
    proof -
      have "sv_bank t \<in> set (map sv_bank (s # ss))" using t place_saved_banks [of tp dynamic "s # ss" slot_id off] by (metis in_set_conv_nth length_map nth_map nth_mem)
      then have "bank_rank (sv_bank t) \<ge> 3" using later Cons.prems(1) by fastforce
      then show ?thesis by auto
    qed
    then show ?thesis by (simp add: ordered_from_def)
  qed
qed (simp add: ordered_from_def)

section \<open>Frames of planned functions\<close>

lemma rank_sorted: "sorted (map (\<lambda>s. bank_rank (sv_bank s)) (sort_key saved_register_key ss))"
proof -
  have "sorted_wrt (\<lambda>s t. saved_register_key s \<le> saved_register_key t) (sort_key saved_register_key ss)"
    using sorted_sort_key [of saved_register_key ss] by (simp add: sorted_wrt_map)
  then have "sorted_wrt (\<lambda>s t. bank_rank (sv_bank s) \<le> bank_rank (sv_bank t)) (sort_key saved_register_key ss)"
    by (rule sorted_wrt_mono_rel [rotated]) (auto simp: saved_register_key_def less_eq_prod_def)
  then show ?thesis by (simp add: sorted_wrt_map)
qed

lemma filter_spilled_bank:
  "sorted (map (\<lambda>s. bank_rank (sv_bank s)) ps) \<Longrightarrow>
   filter spilled_bank ps = filter (\<lambda>s. sv_bank s = BankGpr) ps @ filter (\<lambda>s. sv_bank s = BankFpr) ps"
proof (induction ps)
  case (Cons s ps)
  have "filter (\<lambda>s. sv_bank s = BankGpr) ps = []" if "sv_bank s = BankFpr"
    using Cons.prems that by (fastforce simp: filter_empty_conv)
  with Cons show ?case by (cases "sv_bank s") simp_all
qed simp

lemma plan_function_saved:
  assumes "plan_function pm f function_name = Some plan"
  obtains dynamic ss slot_id where "unplaced ss" "fp_saved_callee_registers plan =
      place_saved_registers (pm_target_profile pm) dynamic (sort_key saved_register_key ss) slot_id (fp_frame_size_bytes plan)"
proof -
  let ?vals = "case find_regalloc_function (pm_regalloc pm) function_name of None \<Rightarrow> [] | Some rf \<Rightarrow> rf_values rf"
  show ?thesis
    by (rule that [OF unplaced_collect [of "pm_target_profile pm" ?vals]])
      (use assms in \<open>auto simp: plan_function_def Let_def split: option.splits\<close>)
qed

lemma planned_slots:
  assumes plan: "plan_function pm f function_name = Some plan"
    and spill: "append_rv64_prepared_saved_callee_gpr_spills (Some plan) n g = Some g'"
      "append_rv64_prepared_saved_callee_fpr_spills (Some plan) n g' = Some g''"
    and n: "unat n \<le> 2 ^ 63" "fp_frame_size_bytes plan \<le> n"
  shows "slots_disjoint (bank_slots BankGpr (Some plan) @ bank_slots BankFpr (Some plan))"
    "\<forall>(b, r, off)\<in>set (bank_slots BankGpr (Some plan) @ bank_slots BankFpr (Some plan)). fp_frame_size_bytes plan \<le> off"
proof -
  let ?ps = "fp_saved_callee_registers plan"
  obtain dynamic ss slot_id where ps: "?ps = place_saved_registers (pm_target_profile pm) dynamic (sort_key saved_register_key ss) slot_id (fp_frame_size_bytes plan)"
    and ss: "unplaced ss" using plan_function_saved [OF plan] by metis
  have "\<forall>s\<in>set ?ps. spillable n s" using spills_spillable [OF spill] by (simp add: saved_registers_def)
  moreover have "unat (fp_frame_size_bytes plan) \<le> 2 ^ 63" using n by (simp add: word_le_nat_alt)
  ultimately have ord: "ordered_from (fp_frame_size_bytes plan) ?ps"
    using place_saved_ordered [OF rank_sorted _ _ n(1)] ss unfolding ps by (simp add: unplaced_def)
  have "map (\<lambda>s. bank_rank (sv_bank s)) ?ps = map (\<lambda>s. bank_rank (sv_bank s)) (sort_key saved_register_key ss)"
    using arg_cong [OF place_saved_banks, of "map bank_rank"] unfolding ps by (simp add: comp_def)
  then have ranks: "sorted (map (\<lambda>s. bank_rank (sv_bank s)) ?ps)" using rank_sorted by metis
  have slots: "bank_slots BankGpr (Some plan) @ bank_slots BankFpr (Some plan) = map slot_of (filter spilled_bank ?ps)"
    by (simp add: bank_slots_def saved_registers_def filter_spilled_bank [OF ranks])
  show "slots_disjoint (bank_slots BankGpr (Some plan) @ bank_slots BankFpr (Some plan))"
    unfolding slots slots_disjoint_def sorted_wrt_map using ord
    by (auto simp: ordered_from_def slot_of_def saved_offset_of_def disjoint_offsets_def elim!: sorted_wrt_mono_rel [rotated])
  show "\<forall>(b, r, off)\<in>set (bank_slots BankGpr (Some plan) @ bank_slots BankFpr (Some plan)). fp_frame_size_bytes plan \<le> off"
    unfolding slots using ord by (auto simp: ordered_from_def word_le_nat_alt slot_of_def saved_offset_of_def)
qed

lemma dynamic_frame_size_ge: "k \<le> dynamic_frame_size ss k"
proof (induction ss arbitrary: k)
  case (Cons s ss)
  then show ?case by (auto split: option.splits intro: order_trans [OF max.cobounded1])
qed simp

lemma object_frame_size_bounds:
  assumes "rv64_prepared_object_stack_frame_size addressing (Some plan) layout = Some n"
  shows "unat n \<le> 2 ^ 63" "fp_frame_size_bytes plan \<le> n"
proof -
  obtain k where k: "align_rv64_prepared_object_stack_frame_size k = Some n" "fp_frame_size_bytes plan \<le> k"
    using assms dynamic_frame_size_ge saved_frame_size_covers
    by (fastforce simp: rv64_prepared_object_stack_frame_size_def rv64_prepared_validated_fixed_frame_size_def
        rv64_prepared_validated_dynamic_saved_gpr_frame_size_def split: if_splits option.splits)
  have "unat kInt64Max \<le> 2 ^ 63" by (simp add: kInt64Max_def)
  with aligned_size [OF k(1)] k(2) show "unat n \<le> 2 ^ 63" "fp_frame_size_bytes plan \<le> n" by (auto simp: word_le_nat_alt)
qed

section \<open>The order of the slots is defined\<close>

text \<open>Ids that the layout does not know have been handed out after those it knows.\<close>

definition unknown_ids_last :: "(u64 \<rightharpoonup> u64) \<Rightarrow> u64 list \<Rightarrow> bool" where
  "unknown_ids_last offsets ids \<longleftrightarrow> list_all (\<lambda>u. list_all (\<lambda>k. offsets u = None \<and> offsets k \<noteq> None \<longrightarrow> k < u) ids) ids"

definition slot_key :: "(u64 \<rightharpoonup> u64) \<Rightarrow> u64 \<Rightarrow> bool \<times> u64 \<times> u64" where
  "slot_key offsets x = (offsets x = None, (case offsets x of None \<Rightarrow> 0 | Some l \<Rightarrow> l), x)"

lemma slot_before_key:
  assumes "unknown_ids_last offsets ids" "x \<in> set ids" "y \<in> set ids"
  shows "slot_before offsets x y \<longleftrightarrow> slot_key offsets x < slot_key offsets y"
proof -
  have "offsets x = None \<Longrightarrow> offsets y \<noteq> None \<Longrightarrow> y < x" "offsets y = None \<Longrightarrow> offsets x \<noteq> None \<Longrightarrow> x < y"
    using assms by (simp_all add: unknown_ids_last_def list_all_iff)
  then show ?thesis
    by (cases "offsets x"; cases "offsets y") (auto simp: slot_before_def slot_key_def less_prod_def)
qed

lemma slot_before_transitive:
  assumes "unknown_ids_last offsets ids"
  shows "transitive_on (slot_before offsets) ids"
  unfolding transitive_on_def list_all_iff using slot_before_key [OF assms] by (meson order_less_trans)

text \<open>The comparison is no order in general: three slots of which one is unknown can form a circle.\<close>

lemma slot_before_circle:
  "\<not> transitive_on (slot_before [5 \<mapsto> 0, 1 \<mapsto> 8]) [5, 1, 3]"
  by (simp add: transitive_on_def slot_before_def)

lemma slot_before_total: "x \<noteq> y \<Longrightarrow> slot_before offsets x y \<or> slot_before offsets y x"
  by (auto simp: slot_before_def split: option.splits)

lemma set_insert_before [simp]: "set (insert_before lt x ys) = insert x (set ys)"
  by (induction ys) auto

lemma sorted_insert_before:
  assumes total: "\<And>y z. y \<in> S \<Longrightarrow> z \<in> S \<Longrightarrow> y \<noteq> z \<Longrightarrow> lt y z \<or> lt z y"
    and trans: "\<And>u v w. u \<in> S \<Longrightarrow> v \<in> S \<Longrightarrow> w \<in> S \<Longrightarrow> lt u v \<Longrightarrow> lt v w \<Longrightarrow> lt u w"
    and x: "x \<in> S"
  shows "set ys \<subseteq> S \<Longrightarrow> sorted_wrt (\<lambda>y z. y = z \<or> lt y z) ys \<Longrightarrow> sorted_wrt (\<lambda>y z. y = z \<or> lt y z) (insert_before lt x ys)"
proof (induction ys)
  case (Cons y ys)
  have y: "y \<in> S" "set ys \<subseteq> S" "\<forall>z\<in>set ys. y = z \<or> lt y z" using Cons.prems by auto
  show ?case
  proof (cases "lt y x")
    case True
    then show ?thesis using Cons.IH Cons.prems by auto
  next
    case False
    then have xy: "x = y \<or> lt x y" using total [OF x y(1)] by blast
    then have "x = z \<or> lt x z" if z: "z \<in> set ys" for z
      using y z trans [OF x y(1)] by (metis subsetD)
    with False xy Cons.prems(2) show ?thesis by simp
  qed
qed simp

text \<open>What \<open>std_sort\<close> returns is ordered, and has the elements of its argument.\<close>

lemma std_sort_slots:
  assumes "std_sort (slot_before offsets) ids = Some order"
  shows "set order = set ids" "sorted_wrt (\<lambda>x y. x = y \<or> slot_before offsets x y) order"
proof -
  have tr: "slot_before offsets x z"
    if "x \<in> set ids" "y \<in> set ids" "z \<in> set ids" "slot_before offsets x y" "slot_before offsets y z" for x y z
    using assms that unfolding std_sort_def transitive_on_def list_all_iff by (metis option.distinct(1))
  let ?sorted = "foldr (insert_before (slot_before offsets))"
  have "set (?sorted xs []) = set xs \<and> (set xs \<subseteq> set ids \<longrightarrow> sorted_wrt (\<lambda>x y. x = y \<or> slot_before offsets x y) (?sorted xs []))" for xs
  proof (induction xs)
    case (Cons x xs)
    moreover have "sorted_wrt (\<lambda>x y. x = y \<or> slot_before offsets x y) (insert_before (slot_before offsets) x (?sorted xs []))"
      if sub: "set (x # xs) \<subseteq> set ids"
    proof (rule sorted_insert_before [of "set ids"])
      show "slot_before offsets y z \<or> slot_before offsets z y" if "y \<noteq> z" for y z using that by (rule slot_before_total)
      show "x \<in> set ids" "set (?sorted xs []) \<subseteq> set ids" "sorted_wrt (\<lambda>x y. x = y \<or> slot_before offsets x y) (?sorted xs [])"
        using sub Cons by simp_all
    qed (fact tr)
    ultimately show ?case by simp
  qed simp
  then show "set order = set ids" "sorted_wrt (\<lambda>x y. x = y \<or> slot_before offsets x y) order"
    using assms by (auto simp: std_sort_def split: if_splits)
qed

lemma slot_before_asym: "slot_before offsets x y \<Longrightarrow> \<not> slot_before offsets y x"
  by (auto simp: slot_before_def split: option.splits if_splits)

lemma sorted_remdups_adj:
  assumes asym: "\<And>x y. lt x y \<Longrightarrow> \<not> lt y x"
  shows "sorted_wrt (\<lambda>x y. x = y \<or> lt x y) xs \<Longrightarrow> sorted_wrt lt (remdups_adj xs)"
proof (induction xs rule: remdups_adj.induct)
  case (3 x y xs)
  show ?case
  proof (cases "x = y")
    case False
    then have xy: "lt x y" using "3.prems" by simp
    have "lt x z" if z: "z \<in> set (y # xs)" for z
    proof -
      have "x = z \<or> lt x z" "y = z \<or> lt y z" using z "3.prems" by auto
      then show ?thesis using False asym [OF xy] by blast
    qed
    with False 3 show ?thesis by simp
  qed (use 3 in auto)
qed simp_all

section \<open>The extent of a frame\<close>

definition extends :: "frame_extent \<Rightarrow> frame_extent \<Rightarrow> bool" where
  "extends fe fe' \<longleftrightarrow> fe_size_bytes fe \<le> fe_size_bytes fe' \<and> fe_alignment_bytes fe \<le> fe_alignment_bytes fe' \<and>
     set (fe_slot_order fe) \<subseteq> set (fe_slot_order fe')"

lemma extends_refl [simp]: "extends fe fe"
  by (simp add: extends_def)

lemma extends_trans: "extends fe fe' \<Longrightarrow> extends fe' fe'' \<Longrightarrow> extends fe fe''"
  by (auto simp: extends_def)

lemma extends_steps: "extends fe (add_frame_slot function_name slot fe)" "extends fe (add_value_slot value fe)"
  by (auto simp: extends_def extend_frame_def add_frame_slot_def add_value_slot_def split: option.splits)

lemma extends_fold:
  assumes step: "\<And>x fe. extends fe (f x fe)"
  shows "extends fe (fold f xs fe)" "x \<in> set xs \<Longrightarrow> \<exists>fe'. extends (f x fe') (fold f xs fe)"
proof -
  show ext: "extends fe (fold f xs fe)" for xs fe
    by (induction xs arbitrary: fe) (auto intro: extends_trans step)
  show "x \<in> set xs \<Longrightarrow> \<exists>fe'. extends (f x fe') (fold f xs fe)"
    using ext by (induction xs arbitrary: fe) auto
qed

lemma frame_extent_covers:
  assumes fe: "fe = frame_extent_of pm function_name vals"
  shows "slot \<in> set (sl_frame_slots (pm_stack_layout pm)) \<Longrightarrow> fs_function_name slot = function_name \<Longrightarrow>
      fs_slot_id slot \<in> set (fe_slot_order fe) \<and> fs_offset_bytes slot + fs_size_bytes slot \<le> fe_size_bytes fe \<and>
      fs_align_bytes slot \<le> fe_alignment_bytes fe"
    and "value \<in> set vals \<Longrightarrow> rv_assigned_stack_slot value = Some s \<Longrightarrow> sa_slot_id s \<in> set (fe_slot_order fe) \<and>
      (\<forall>k. sa_size_bytes s = Some k \<longrightarrow> sa_offset_bytes s + k \<le> fe_size_bytes fe)"
proof -
  obtain start where fold: "fe = fold add_value_slot vals (fold (add_frame_slot function_name) (sl_frame_slots (pm_stack_layout pm)) start)"
    unfolding fe frame_extent_of_def by (simp add: Let_def)
  let ?inner = "fold (add_frame_slot function_name) (sl_frame_slots (pm_stack_layout pm)) start"
  show "fs_slot_id slot \<in> set (fe_slot_order fe) \<and> fs_offset_bytes slot + fs_size_bytes slot \<le> fe_size_bytes fe \<and>
      fs_align_bytes slot \<le> fe_alignment_bytes fe"
    if slot: "slot \<in> set (sl_frame_slots (pm_stack_layout pm))" "fs_function_name slot = function_name"
  proof -
    obtain fe' where "extends (add_frame_slot function_name slot fe') ?inner"
      using extends_fold(2) [of "add_frame_slot function_name", OF extends_steps(1) slot(1)] by blast
    moreover have "extends ?inner fe" unfolding fold by (rule extends_fold(1) [OF extends_steps(2)])
    ultimately have "extends (add_frame_slot function_name slot fe') fe" by (rule extends_trans)
    then show ?thesis using slot(2) by (simp add: extends_def add_frame_slot_def extend_frame_def)
  qed
  show "sa_slot_id s \<in> set (fe_slot_order fe) \<and> (\<forall>k. sa_size_bytes s = Some k \<longrightarrow> sa_offset_bytes s + k \<le> fe_size_bytes fe)"
    if v: "value \<in> set vals" "rv_assigned_stack_slot value = Some s"
  proof -
    obtain fe' where "extends (add_value_slot value fe') fe"
      using extends_fold(2) [of add_value_slot, OF extends_steps(2) v(1)] unfolding fold by blast
    then show ?thesis using v(2) by (auto simp: extends_def add_value_slot_def extend_frame_def)
  qed
qed

lemma place_saved_keys:
  "map (\<lambda>s. (sv_bank s, sv_occupied_register_names s)) (place_saved_registers tp dynamic ss slot_id off) =
   map (\<lambda>s. (sv_bank s, sv_occupied_register_names s)) ss"
  by (induction ss arbitrary: slot_id off) (simp_all add: Let_def)

lemma placed_distinct:
  "distinct (map (\<lambda>s. (sv_bank s, sv_occupied_register_names s))
     (place_saved_registers tp dynamic (sort_key saved_register_key (collect_saved_registers tp vals)) slot_id off))"
proof -
  have "mset (map g (sort_key saved_register_key ss)) = mset (map g ss)" for g :: "saved_register \<Rightarrow> 'a" and ss by simp
  then show ?thesis unfolding place_saved_keys using collect_distinct [of tp vals] mset_eq_imp_distinct_iff by blast
qed

text \<open>A function with two locals, a spilled value and one callee saved register of each bank.\<close>

definition sample_value :: "register_class \<Rightarrow> string \<Rightarrow> regalloc_value" where
  "sample_value c name = \<lparr>rv_register_class = c, rv_register_group_width = 1,
     rv_assigned_register = Some \<lparr>ra_reg_class = c, ra_register_name = name, ra_contiguous_width = 1, ra_occupied_register_names = [name], ra_placement = None\<rparr>,
     rv_assigned_stack_slot = None\<rparr>"

definition sample_module :: prepared_module where
  "sample_module =
     \<lparr>pm_target_profile = \<lparr>triple = ''riscv64-linux-gnu'', target_cpu = Riscv64, os = Linux, backend_abi = RiscvLp64D, relocation_model = Static,
        has_float_arg_registers = True, has_float_return_registers = True\<rparr>,
      pm_functions = [], pm_texts = sit_empty, pm_function_names = kit_empty, pm_addressing = [],
      pm_stack_layout = \<lparr>sl_frame_slots =
          [\<lparr>fs_slot_id = 0, fs_function_name = 1, fs_offset_bytes = 16, fs_size_bytes = 4, fs_align_bytes = 4, fs_fixed_location = False\<rparr>,
           \<lparr>fs_slot_id = 1, fs_function_name = 1, fs_offset_bytes = 0, fs_size_bytes = 8, fs_align_bytes = 8, fs_fixed_location = True\<rparr>],
        sl_frame_size_bytes = 24, sl_frame_alignment_bytes = 8\<rparr>,
      pm_regalloc = [\<lparr>rf_function_name = 1, rf_values = [sample_value RegFloat ''fs1'', sample_value RegGeneral ''s1'',
        \<lparr>rv_register_class = RegGeneral, rv_register_group_width = 1, rv_assigned_register = None,
         rv_assigned_stack_slot = Some \<lparr>sa_slot_id = 0, sa_offset_bytes = 16, sa_size_bytes = Some 4, sa_align_bytes = Some 4\<rparr>\<rparr>]\<rparr>]\<rparr>"

definition sample_function :: bir_function where
  "sample_function = \<lparr>bf_name = ''f'', bf_is_declaration = False, bf_blocks = [[OtherInst, CallInst ''g'']]\<rparr>"

definition sample_module_plan :: frame_plan where
  "sample_module_plan = the (plan_function sample_module sample_function 1)"

lemma sample_module_plan:
  "plan_function sample_module sample_function 1 = Some sample_module_plan"
  "rv64_prepared_object_stack_frame_size None (Some sample_module_plan) (pm_stack_layout sample_module) = Some 48"
  "bank_slots BankGpr (Some sample_module_plan) = [(BankGpr, 9, 24)]"
  "bank_slots BankFpr (Some sample_module_plan) = [(BankFpr, 9, 32)]"
  "fp_frame_size_bytes sample_module_plan = 20" "fp_frame_slot_order sample_module_plan = [1, 0]"
proof -
  have "plan_function sample_module sample_function 1 \<noteq> None" by code_simp
  then show "plan_function sample_module sample_function 1 = Some sample_module_plan" by (auto simp: sample_module_plan_def)
qed code_simp+

section \<open>Properties\<close>

text \<open>
  C3: the frame of a planned function that calls others: for the plan the planner makes and the frame size
  the code generator derives from it, every saved register has its slot above the function's own locals,
  and the epilogue undoes the prologue for the return address, the stack pointer and every saved register
  of either bank, whatever the body does as long as it leaves the stack pointer and those slots alone.
\<close>

theorem planned_call_frame_restores:
  assumes plan: "plan_function pm f function_name = Some plan"
    and size: "rv64_prepared_object_stack_frame_size addressing (Some plan) layout = Some n"
    and pro: "make_rv64_prepared_call_frame_prologue_fragment (Some plan) n = Some pro"
    and epi: "append_rv64_prepared_call_frame_epilogue (Some plan) n fragment = Some epi"
  shows "\<exists>code slots. slots = bank_slots BankGpr (Some plan) @ bank_slots BankFpr (Some plan) \<and> fr_bytes epi = fr_bytes fragment @ code \<and>
    saves_and_restores ((BankGpr, 1, n + 8) # slots) (n + 16) (fr_bytes pro) code \<and>
    (\<forall>(b, r, off)\<in>set slots. fp_frame_size_bytes plan \<le> off \<and> unat off + 8 \<le> unat n)"
proof -
  let ?slots = "bank_slots BankGpr (Some plan) @ bank_slots BankFpr (Some plan)"
  obtain g g' where spills: "append_rv64_prepared_saved_callee_gpr_spills (Some plan) n g = Some g'"
    "append_rv64_prepared_saved_callee_fpr_spills (Some plan) n g' = Some pro"
    using pro by (auto simp: make_rv64_prepared_call_frame_prologue_fragment_def bind_eq_Some_conv split: option.splits if_splits)
  note slots = planned_slots [OF plan spills object_frame_size_bounds [OF size]]
  have "\<forall>(b, r, off)\<in>set ?slots. fp_frame_size_bytes plan \<le> off \<and> unat off + 8 \<le> unat n"
    using slots(2) gpr_spills(2) [OF spills(1)] fpr_spills(2) [OF spills(2)] by (fastforce simp: slot_ok_def)
  with call_frame_restores [OF pro epi slots(1)] show ?thesis by blast
qed

theorem planned_call_frame_restores_witness:
  "\<exists>pro epi. make_rv64_prepared_call_frame_prologue_fragment (Some sample_module_plan) 48 = Some pro \<and>
     append_rv64_prepared_call_frame_epilogue (Some sample_module_plan) 48 empty_fragment = Some epi \<and>
     saves_and_restores [(BankGpr, 1, 56), (BankGpr, 9, 24), (BankFpr, 9, 32)] 64 (fr_bytes pro) (fr_bytes epi) \<and>
     fp_frame_size_bytes sample_module_plan \<le> 24"
proof -
  have "make_rv64_prepared_call_frame_prologue_fragment (Some sample_module_plan) 48 \<noteq> None"
    "append_rv64_prepared_call_frame_epilogue (Some sample_module_plan) 48 empty_fragment \<noteq> None" by code_simp+
  then obtain pro epi where pe: "make_rv64_prepared_call_frame_prologue_fragment (Some sample_module_plan) 48 = Some pro"
    "append_rv64_prepared_call_frame_epilogue (Some sample_module_plan) 48 empty_fragment = Some epi" by blast
  from planned_call_frame_restores [OF sample_module_plan(1,2) pe] pe show ?thesis
    by (auto simp: sample_module_plan(3,4) empty_fragment_def)
qed

text \<open>
  The same for a planned leaf function, which keeps its return address in the register.
\<close>

theorem planned_stack_frame_restores:
  assumes plan: "plan_function pm f function_name = Some plan"
    and size: "rv64_prepared_object_stack_frame_size addressing (Some plan) layout = Some n"
    and pro: "make_rv64_prepared_stack_frame_prologue_fragment (Some plan) n = Some pro"
    and epi: "append_rv64_prepared_stack_frame_epilogue (Some plan) n fragment = Some epi"
  shows "\<exists>code slots. slots = bank_slots BankGpr (Some plan) @ bank_slots BankFpr (Some plan) \<and> fr_bytes epi = fr_bytes fragment @ code \<and>
    saves_and_restores slots n (fr_bytes pro) code \<and>
    (\<forall>(b, r, off)\<in>set slots. fp_frame_size_bytes plan \<le> off \<and> unat off + 8 \<le> unat n)"
proof -
  let ?slots = "bank_slots BankGpr (Some plan) @ bank_slots BankFpr (Some plan)"
  obtain g g' where spills: "append_rv64_prepared_saved_callee_gpr_spills (Some plan) n g = Some g'"
    "append_rv64_prepared_saved_callee_fpr_spills (Some plan) n g' = Some pro"
    using pro by (auto simp: make_rv64_prepared_stack_frame_prologue_fragment_def bind_eq_Some_conv split: option.splits if_splits)
  note slots = planned_slots [OF plan spills object_frame_size_bounds [OF size]]
  have "\<forall>(b, r, off)\<in>set ?slots. fp_frame_size_bytes plan \<le> off \<and> unat off + 8 \<le> unat n"
    using slots(2) gpr_spills(2) [OF spills(1)] fpr_spills(2) [OF spills(2)] by (fastforce simp: slot_ok_def)
  with stack_frame_restores [OF pro epi slots(1)] show ?thesis by blast
qed

theorem planned_stack_frame_restores_witness:
  "\<exists>pro epi. make_rv64_prepared_stack_frame_prologue_fragment (Some sample_module_plan) 48 = Some pro \<and>
     append_rv64_prepared_stack_frame_epilogue (Some sample_module_plan) 48 empty_fragment = Some epi \<and>
     saves_and_restores [(BankGpr, 9, 24), (BankFpr, 9, 32)] 48 (fr_bytes pro) (fr_bytes epi) \<and>
     fp_frame_size_bytes sample_module_plan \<le> 24"
proof -
  have "make_rv64_prepared_stack_frame_prologue_fragment (Some sample_module_plan) 48 \<noteq> None"
    "append_rv64_prepared_stack_frame_epilogue (Some sample_module_plan) 48 empty_fragment \<noteq> None" by code_simp+
  then obtain pro epi where pe: "make_rv64_prepared_stack_frame_prologue_fragment (Some sample_module_plan) 48 = Some pro"
    "append_rv64_prepared_stack_frame_epilogue (Some sample_module_plan) 48 empty_fragment = Some epi" by blast
  from planned_stack_frame_restores [OF sample_module_plan(1,2) pe] pe show ?thesis
    by (auto simp: sample_module_plan(3,4) empty_fragment_def)
qed



end
