(* ===== verification/Frame_Slots.thy ===== *)
theory Frame_Slots
  imports Frame_Plan
begin

text \<open>
  The slots of a function's stack objects (\<open>backend/prealloc/stack_layout/slot_assignment.cpp\<close>, with the size
  helpers of \<open>stack_layout.hpp\<close>). Objects with a fixed location come first, those of parameters before those
  of locals; the others follow by falling alignment and size, smaller ones moved forward into the gap
  before an aligned one. The slices of one aggregate keep their offsets from each other where the slice
  numbers are no dense sequence. \<open>slot_name\<close> stands for the spelling of a slot name id; the layouts of the
  slice families, which the code finds through a pointer and updates in place, are a map that is handed on.
\<close>

record slice_family =
  sf_family_name :: u32
  sf_slice_offset :: u64

record stack_object =
  so_object_id :: u64
  so_function_name :: u32
  so_source_kind :: string
  so_type :: type_kind
  so_size_bytes :: u64
  so_align_bytes :: u64
  so_requires_home_slot :: bool
  so_permanent_home_slot :: bool
  so_slice_family :: "slice_family option"

record object_slot = frame_slot +
  fs_object_id :: u64

section \<open>Sizes\<close>

fun fallback_type_size :: "type_kind \<Rightarrow> u64" where
  "fallback_type_size Void = 0"
| "fallback_type_size I1 = 1"
| "fallback_type_size I8 = 1"
| "fallback_type_size I16 = 2"
| "fallback_type_size I32 = 4"
| "fallback_type_size F32 = 4"
| "fallback_type_size I64 = 8"
| "fallback_type_size Ptr = 8"
| "fallback_type_size F64 = 8"
| "fallback_type_size I128 = 16"
| "fallback_type_size F128 = 16"
| "fallback_type_size Vrm1 = 0"
| "fallback_type_size Vrm2 = 0"
| "fallback_type_size Vrm4 = 0"
| "fallback_type_size Vrm8 = 0"

definition normalize_size :: "type_kind \<Rightarrow> u64 \<Rightarrow> u64" where
  "normalize_size t size_bytes = (if size_bytes = 0 then fallback_type_size t else size_bytes)"

definition normalize_alignment :: "type_kind \<Rightarrow> u64 \<Rightarrow> u64 \<Rightarrow> u64" where
  "normalize_alignment t align_bytes size_bytes =
     (let normalized_size = normalize_size t size_bytes in
      if align_bytes \<noteq> 0 then align_bytes else if normalized_size = 0 then 1 else min normalized_size 16)"

definition align_to :: "u64 \<Rightarrow> u64 \<Rightarrow> u64" where
  "align_to value alignment =
     (if alignment \<le> 1 then value
      else let remainder = value mod alignment in if remainder = 0 then value else value + (alignment - remainder))"

text \<open>The size and the alignment the passes below compute anew wherever they need them.\<close>

definition object_size :: "stack_object \<Rightarrow> u64" where
  "object_size ob = normalize_size (so_type ob) (so_size_bytes ob)"

definition object_alignment :: "stack_object \<Rightarrow> u64" where
  "object_alignment ob = normalize_alignment (so_type ob) (so_align_bytes ob) (object_size ob)"

definition uses_copy_coalesced_slot :: "stack_object \<Rightarrow> bool" where
  "uses_copy_coalesced_slot ob \<longleftrightarrow> so_source_kind ob = ''copy_coalescing_candidate''"

definition uses_fixed_location_slot :: "stack_object \<Rightarrow> bool" where
  "uses_fixed_location_slot ob \<longleftrightarrow> so_permanent_home_slot ob"

section \<open>Slice families\<close>

record family_layout =
  fl_fixed_location :: bool
  fl_preserve_slice_offsets :: bool
  fl_max_alignment_bytes :: u64
  fl_base_offset_bytes :: "u64 option"

type_synonym family_layouts = "string \<rightharpoonup> family_layout"

definition fresh_family :: family_layout where
  "fresh_family = \<lparr>fl_fixed_location = False, fl_preserve_slice_offsets = False, fl_max_alignment_bytes = 1, fl_base_offset_bytes = None\<rparr>"

definition family_or_fresh :: "family_layouts \<Rightarrow> string \<Rightarrow> family_layout" where
  "family_or_fresh fls name = (case fls name of None \<Rightarrow> fresh_family | Some l \<Rightarrow> l)"

text \<open>An entry of a family: slice number, size and alignment.\<close>

type_synonym slice_entry = "u64 \<times> u64 \<times> u64"

definition add_family_object ::
    "(u32 \<Rightarrow> string) \<Rightarrow> stack_object \<Rightarrow> family_layouts \<times> (string \<times> slice_entry) list \<Rightarrow> family_layouts \<times> (string \<times> slice_entry) list" where
  "add_family_object slot_name ob st =
     (case so_slice_family ob of
        None \<Rightarrow> st
      | Some sf \<Rightarrow>
          if uses_copy_coalesced_slot ob then st
          else
            let (fls, entries) = st; name = slot_name (sf_family_name sf); l = family_or_fresh fls name in
            (fls(name \<mapsto> l\<lparr>fl_fixed_location := fl_fixed_location l \<or> so_requires_home_slot ob \<and> uses_fixed_location_slot ob,
                            fl_max_alignment_bytes := max (fl_max_alignment_bytes l) (object_alignment ob)\<rparr>),
             entries @ [(name, (sf_slice_offset sf, object_size ob, object_alignment ob))]))"

text \<open>
  The loop over the sorted entries of one family, at \<open>index\<close>, with the padding
  seen so far: the first entry out of sequence ends it.
\<close>

fun preserves_offsets :: "slice_entry list \<Rightarrow> nat \<Rightarrow> bool \<Rightarrow> bool" where
  "preserves_offsets [] index padded = padded"
| "preserves_offsets ((ordinal, size_bytes, align_bytes) # es) index padded =
     (if unat ordinal \<noteq> index then True
      else preserves_offsets es (Suc index) (padded \<or> align_bytes > size_bytes))"

definition family_preserves_offsets :: "slice_entry list \<Rightarrow> bool" where
  "family_preserves_offsets entries \<longleftrightarrow> entries = [] \<or> preserves_offsets (sort entries) 0 False"

definition build_slice_family_layout_map :: "(u32 \<Rightarrow> string) \<Rightarrow> stack_object list \<Rightarrow> family_layouts" where
  "build_slice_family_layout_map slot_name objects =
     (let (fls, entries) = fold (add_family_object slot_name) objects (Map.empty, []) in
      (\<lambda>name. map_option (\<lambda>l. l\<lparr>fl_preserve_slice_offsets :=
         family_preserves_offsets (map snd (filter (\<lambda>e. fst e = name) entries))\<rparr>) (fls name)))"

definition belongs_to_fixed_slice_family :: "(u32 \<Rightarrow> string) \<Rightarrow> stack_object \<Rightarrow> family_layouts \<Rightarrow> bool" where
  "belongs_to_fixed_slice_family slot_name ob fls \<longleftrightarrow>
     (case so_slice_family ob of
        None \<Rightarrow> False
      | Some sf \<Rightarrow> (case fls (slot_name (sf_family_name sf)) of None \<Rightarrow> False | Some l \<Rightarrow> fl_fixed_location l))"

text \<open>The name of the family and the offset in it, where the object keeps its place in the family.\<close>

definition find_object_slice_layout :: "(u32 \<Rightarrow> string) \<Rightarrow> stack_object \<Rightarrow> family_layouts \<Rightarrow> (string \<times> u64 \<times> family_layout) option" where
  "find_object_slice_layout slot_name ob fls =
     (case so_slice_family ob of
        None \<Rightarrow> None
      | Some sf \<Rightarrow>
          (case fls (slot_name (sf_family_name sf)) of
             None \<Rightarrow> None
           | Some l \<Rightarrow>
               if \<not> fl_fixed_location l \<or> \<not> fl_preserve_slice_offsets l then None
               else Some (slot_name (sf_family_name sf), sf_slice_offset sf, l)))"

definition is_parameter_owned_fixed_slot :: "stack_object \<Rightarrow> bool" where
  "is_parameter_owned_fixed_slot ob \<longleftrightarrow> so_source_kind ob = ''byval_param'' \<or> so_source_kind ob = ''sret_param''"

section \<open>Families by name\<close>

text \<open>
  The family an object belongs to comes from the name of its slot (\<open>stack_layout/analysis.cpp\<close>): a number
  after the last dot is taken for the offset in the aggregate before it. The family name is interned by the caller.
\<close>

definition legacy_slot_name_slice_family_compatibility :: "string \<Rightarrow> (string \<times> u64) option" where
  "legacy_slot_name_slice_family_compatibility slot_name =
     (let tail = rev (takeWhile (\<lambda>c. c \<noteq> CHR ''.'') (rev slot_name)) in
      if CHR ''.'' \<notin> set slot_name \<or> tail = [] \<or> \<not> list_all isdigit tail then None
      else Some (take (length slot_name - Suc (length tail)) slot_name, foldl (\<lambda>n c. n * 10 + of_nat (digit_value c)) 0 tail))"

section \<open>The order of the movable objects\<close>

definition reorderable_key :: "stack_object \<Rightarrow> int \<times> int \<times> u64" where
  "reorderable_key ob = (- uint (object_alignment ob), - uint (object_size ob), so_object_id ob)"

definition sort_reorderable_objects :: "stack_object list \<Rightarrow> stack_object list" where
  "sort_reorderable_objects objects = sort_key reorderable_key objects"

definition aligned_end_offset :: "u64 \<Rightarrow> stack_object \<Rightarrow> u64" where
  "aligned_end_offset offset_bytes ob = align_to offset_bytes (object_alignment ob) + object_size ob"

text \<open>The loop of \<open>select_gap_filler\<close> from position \<open>i\<close> on, with the best position so far and where its object ends.\<close>

fun best_filler :: "u64 \<Rightarrow> u64 \<Rightarrow> stack_object list \<Rightarrow> nat \<Rightarrow> (nat \<times> u64) option \<Rightarrow> u64 \<Rightarrow> nat option" where
  "best_filler next_offset primary_start [] i best best_end = map_option fst best"
| "best_filler next_offset primary_start (ob # obs) i best best_end =
     (let end_offset = aligned_end_offset next_offset ob in
      if end_offset > primary_start then best_filler next_offset primary_start obs (Suc i) best best_end
      else if (case best of None \<Rightarrow> True
               | Some (j, best_id) \<Rightarrow> end_offset > best_end \<or> end_offset = best_end \<and> so_object_id ob < best_id)
      then best_filler next_offset primary_start obs (Suc i) (Some (i, so_object_id ob)) end_offset
      else best_filler next_offset primary_start obs (Suc i) best best_end)"

definition select_gap_filler :: "stack_object list \<Rightarrow> u64 \<Rightarrow> nat option" where
  "select_gap_filler objects next_offset =
     (if length objects < 2 then None
      else
        let primary_start = align_to next_offset (object_alignment (hd objects)) in
        if primary_start = next_offset then None
        else best_filler next_offset primary_start (tl objects) 1 None next_offset)"

section \<open>Slots\<close>

record assign_state =
  as_next_slot_id :: u64
  as_next_offset :: u64
  as_max_alignment :: u64
  as_slots :: "object_slot list"

definition slot_for_object :: "stack_object \<Rightarrow> bool \<Rightarrow> u64 \<Rightarrow> u64 \<Rightarrow> object_slot" where
  "slot_for_object ob fixed slot_id offset_bytes =
     \<lparr>fs_slot_id = slot_id, fs_function_name = so_function_name ob, fs_offset_bytes = offset_bytes, fs_size_bytes = object_size ob,
      fs_align_bytes = object_alignment ob, fs_fixed_location = fixed, fs_object_id = so_object_id ob\<rparr>"

definition append_slot_for_object :: "stack_object \<Rightarrow> bool \<Rightarrow> assign_state \<Rightarrow> assign_state" where
  "append_slot_for_object ob fixed st =
     (let start = align_to (as_next_offset st) (object_alignment ob) in
      \<lparr>as_next_slot_id = as_next_slot_id st + 1, as_next_offset = start + object_size ob,
       as_max_alignment = max (as_max_alignment st) (object_alignment ob),
       as_slots = as_slots st @ [slot_for_object ob fixed (as_next_slot_id st) start]\<rparr>)"

definition family_base :: "family_layout \<Rightarrow> u64 \<Rightarrow> u64" where
  "family_base l next_offset = (case fl_base_offset_bytes l of None \<Rightarrow> align_to next_offset (fl_max_alignment_bytes l) | Some b \<Rightarrow> b)"

definition append_slice_offset_slot_for_object ::
    "stack_object \<Rightarrow> u64 \<Rightarrow> family_layout \<Rightarrow> bool \<Rightarrow> assign_state \<Rightarrow> assign_state \<times> family_layout" where
  "append_slice_offset_slot_for_object ob slice_offset l fixed st =
     (let base = family_base l (as_next_offset st); offset_bytes = base + slice_offset in
      (\<lparr>as_next_slot_id = as_next_slot_id st + 1, as_next_offset = max (as_next_offset st) (offset_bytes + object_size ob),
        as_max_alignment = max (max (as_max_alignment st) (fl_max_alignment_bytes l)) (object_alignment ob),
        as_slots = as_slots st @ [slot_for_object ob fixed (as_next_slot_id st) offset_bytes]\<rparr>,
       l\<lparr>fl_base_offset_bytes := Some base\<rparr>))"

definition place_fixed_object :: "(u32 \<Rightarrow> string) \<Rightarrow> stack_object \<Rightarrow> assign_state \<times> family_layouts \<Rightarrow> assign_state \<times> family_layouts" where
  "place_fixed_object slot_name ob stf =
     (case stf of (st, fls) \<Rightarrow>
        (case find_object_slice_layout slot_name ob fls of
           Some (name, slice_offset, l) \<Rightarrow>
             let (st', l') = append_slice_offset_slot_for_object ob slice_offset l True st in (st', fls(name \<mapsto> l'))
         | None \<Rightarrow> (append_slot_for_object ob True st, fls)))"

definition remove_at :: "nat \<Rightarrow> 'a list \<Rightarrow> 'a list" where
  "remove_at i xs = take i xs @ drop (Suc i) xs"

definition selected_position :: "stack_object list \<Rightarrow> u64 \<Rightarrow> nat" where
  "selected_position objects next_offset = (case select_gap_filler objects next_offset of None \<Rightarrow> 0 | Some i \<Rightarrow> i)"

lemma best_filler_bound:
  "best_filler next_offset primary obs i best best_end = Some j \<Longrightarrow> (\<forall>k b. best = Some (k, b) \<longrightarrow> k < i) \<Longrightarrow> j < i + length obs"
  by (induction obs arbitrary: i best best_end)
    (fastforce simp: Let_def split: if_splits option.splits)+

lemma selected_position_less:
  assumes "objects \<noteq> []"
  shows "selected_position objects next_offset < length objects"
  using assms by (cases objects)
    (auto simp: selected_position_def select_gap_filler_def Let_def split: option.splits if_splits dest!: best_filler_bound)

function place_reorderable :: "stack_object list \<Rightarrow> assign_state \<Rightarrow> assign_state" where
  "place_reorderable [] st = st"
| "place_reorderable (ob # obs) st =
     (let objects = ob # obs; i = selected_position objects (as_next_offset st) in
      place_reorderable (remove_at i objects) (append_slot_for_object (objects ! i) False st))"
  by pat_completeness auto
termination
proof (relation "measure (\<lambda>(objects, st). length objects)")
  fix ob :: stack_object and obs st objects i
  assume "objects = ob # obs" "i = selected_position objects (as_next_offset (st :: assign_state))"
  then have "i < length objects" using selected_position_less [of objects] by simp
  then have "length (remove_at i objects) < length objects" by (simp add: remove_at_def min_def)
  then show "((remove_at i objects, append_slot_for_object (objects ! i) False st), ob # obs, st) \<in> measure (\<lambda>(objects, st). length objects)"
    using \<open>objects = ob # obs\<close> by simp
qed simp

definition object_is_fixed :: "(u32 \<Rightarrow> string) \<Rightarrow> family_layouts \<Rightarrow> stack_object \<Rightarrow> bool" where
  "object_is_fixed slot_name fls ob \<longleftrightarrow> uses_fixed_location_slot ob \<or> belongs_to_fixed_slice_family slot_name ob fls"

definition needs_slot :: "(u32 \<Rightarrow> string) \<Rightarrow> family_layouts \<Rightarrow> stack_object \<Rightarrow> bool" where
  "needs_slot slot_name fls ob \<longleftrightarrow>
     \<not> uses_copy_coalesced_slot ob \<and> (so_requires_home_slot ob \<or> object_is_fixed slot_name fls ob)"

text \<open>The slots, and with them the next free slot id, the size and the alignment of the frame.\<close>

definition assign_frame_slots :: "(u32 \<Rightarrow> string) \<Rightarrow> stack_object list \<Rightarrow> u64 \<Rightarrow> object_slot list \<times> u64 \<times> u64 \<times> u64" where
  "assign_frame_slots slot_name objects next_slot_id =
     (let fls = build_slice_family_layout_map slot_name objects;
          placed = filter (needs_slot slot_name fls) objects;
          fixed = filter (object_is_fixed slot_name fls) placed;
          params = filter is_parameter_owned_fixed_slot fixed;
          locals = filter (\<lambda>ob. \<not> is_parameter_owned_fixed_slot ob) fixed;
          reorderable = sort_reorderable_objects (filter (\<lambda>ob. \<not> object_is_fixed slot_name fls ob) placed);
          st0 = \<lparr>as_next_slot_id = next_slot_id, as_next_offset = 0, as_max_alignment = 1, as_slots = []\<rparr>;
          (st1, fls') = fold (place_fixed_object slot_name) (params @ locals) (st0, fls);
          st2 = place_reorderable reorderable st1 in
      (as_slots st2, as_next_slot_id st2, align_to (as_next_offset st2) (as_max_alignment st2), as_max_alignment st2))"

end
