(* ===== verification/Frame_Slots_Correct.thy ===== *)
theory Frame_Slots_Correct
  imports Frame_Slots
begin

text \<open>
  The slots that \<open>assign_frame_slots\<close> hands out: one for each object that needs one, inside the frame, aligned,
  and behind everything placed before. The slices of an aggregate that keep their offsets are the exception,
  they lie where the base of their family puts them.
\<close>

section \<open>Alignment\<close>

lemma align_to_bounds:
  assumes "unat v \<le> 2 ^ 63" "unat a \<le> 2 ^ 40" "a \<noteq> 0"
  shows "unat v \<le> unat (align_to v a)" "unat (align_to v a) \<le> unat v + unat a" "unat (align_to v a) mod unat a = 0"
proof -
  have "unat v \<le> unat (align_to v a) \<and> unat (align_to v a) \<le> unat v + unat a \<and> unat (align_to v a) mod unat a = 0"
  proof (cases "a \<le> 1 \<or> v mod a = 0")
    case True
    have "unat a = 1" if "a \<le> 1" using that assms(3) unat_gt_0_iff [of a] by (simp add: word_le_nat_alt)
    moreover have "unat v mod unat a = 0" if "v mod a = 0" using arg_cong [OF that, of unat] by (simp add: unat_mod_distrib)
    ultimately show ?thesis using True by (auto simp: align_to_def Let_def)
  next
    case False
    let ?r = "unat v mod unat a"
    have a: "0 < unat a" using assms(3) unat_gt_0_iff by blast
    have r: "unat (v mod a) = ?r" "?r < unat a" using a by (simp_all add: unat_mod_distrib)
    then have d: "unat (a - v mod a) = unat a - ?r" by (simp add: unat_sub word_le_nat_alt)
    with assms(1,2) have "unat (v + (a - v mod a)) = unat v + (unat a - ?r)"
      using unat_add_lem [THEN iffD1, of v "a - v mod a"] by simp
    moreover have "(unat v + (unat a - ?r)) mod unat a = 0"
    proof -
      have "unat v + (unat a - ?r) = unat v div unat a * unat a + unat a"
        using r(2) div_mult_mod_eq [of "unat v" "unat a"] by linarith
      then show ?thesis by simp
    qed
    ultimately show ?thesis using False by (auto simp: align_to_def Let_def)
  qed
  then show "unat v \<le> unat (align_to v a)" "unat (align_to v a) \<le> unat v + unat a" "unat (align_to v a) mod unat a = 0" by auto
qed

section \<open>Objects within bounds\<close>

text \<open>Sizes, alignments and slice offsets below a terabyte: no sum of a million of them overflows.\<close>

definition object_in_bounds :: "stack_object \<Rightarrow> bool" where
  "object_in_bounds ob \<longleftrightarrow> object_size ob < 2 ^ 40 \<and> object_alignment ob < 2 ^ 40 \<and>
     (case so_slice_family ob of None \<Rightarrow> True | Some sf \<Rightarrow> sf_slice_offset sf < 2 ^ 40)"

lemma object_alignment_pos: "object_alignment ob \<noteq> 0"
  by (auto simp: object_alignment_def normalize_alignment_def Let_def min_def)

lemma object_bounds:
  assumes "object_in_bounds ob"
  shows "unat (object_size ob) < 2 ^ 40" "unat (object_alignment ob) < 2 ^ 40"
    "so_slice_family ob = Some sf \<Longrightarrow> unat (sf_slice_offset sf) < 2 ^ 40"
  using assms by (auto simp: object_in_bounds_def word_less_nat_alt)

section \<open>The invariant of the assignment\<close>

definition slot_end :: "object_slot \<Rightarrow> nat" where
  "slot_end s = unat (fs_offset_bytes s) + unat (fs_size_bytes s)"

text \<open>
  Each object has the slot beside it; a slot of an object for which \<open>ord\<close> holds is aligned and lies behind all
  earlier ones.
\<close>

definition placed_apart :: "(stack_object \<Rightarrow> bool) \<Rightarrow> (stack_object \<times> object_slot) list \<Rightarrow> bool" where
  "placed_apart ord zs \<longleftrightarrow>
     sorted_wrt (\<lambda>(ob, s) (ob', s'). ord ob' \<longrightarrow> slot_end s \<le> unat (fs_offset_bytes s')) zs \<and>
     (\<forall>(ob, s)\<in>set zs. fs_object_id s = so_object_id ob \<and> fs_size_bytes s = object_size ob \<and> fs_align_bytes s = object_alignment ob \<and>
        (ord ob \<longrightarrow> unat (fs_offset_bytes s) mod unat (fs_align_bytes s) = 0))"

lemma placed_apart_snoc:
  "placed_apart ord (zs @ [(ob, s)]) \<longleftrightarrow> placed_apart ord zs \<and>
     (ord ob \<longrightarrow> (\<forall>(ob', s')\<in>set zs. slot_end s' \<le> unat (fs_offset_bytes s)) \<and> unat (fs_offset_bytes s) mod unat (fs_align_bytes s) = 0) \<and>
     fs_object_id s = so_object_id ob \<and> fs_size_bytes s = object_size ob \<and> fs_align_bytes s = object_alignment ob"
  by (auto simp: placed_apart_def sorted_wrt_append)

definition assign_inv :: "(stack_object \<Rightarrow> bool) \<Rightarrow> u64 \<Rightarrow> stack_object list \<Rightarrow> assign_state \<Rightarrow> bool" where
  "assign_inv ord id0 obs st \<longleftrightarrow>
     length (as_slots st) = length obs \<and> placed_apart ord (zip obs (as_slots st)) \<and>
     (\<forall>s\<in>set (as_slots st). slot_end s \<le> unat (as_next_offset st) \<and> fs_align_bytes s \<le> as_max_alignment st) \<and>
     unat (as_next_offset st) \<le> length obs * 2 ^ 42 \<and> as_max_alignment st \<noteq> 0 \<and> unat (as_max_alignment st) < 2 ^ 40 \<and>
     map fs_slot_id (as_slots st) = map (\<lambda>i. id0 + of_nat i) [0..<length obs] \<and> as_next_slot_id st = id0 + of_nat (length obs)"

text \<open>Both ways to place an object append a slot.\<close>

lemma assign_inv_step:
  assumes inv: "assign_inv ord id0 obs st" and small: "object_in_bounds ob"
    and off: "unat off + unat (object_size ob) \<le> unat next_offset" "unat (as_next_offset st) \<le> unat next_offset"
      "unat next_offset \<le> unat (as_next_offset st) + 2 ^ 42"
      "ord ob \<Longrightarrow> unat (as_next_offset st) \<le> unat off \<and> unat off mod unat (object_alignment ob) = 0"
    and al: "as_max_alignment st \<le> al" "object_alignment ob \<le> al" "unat al < 2 ^ 40"
  shows "assign_inv ord id0 (obs @ [ob]) \<lparr>as_next_slot_id = as_next_slot_id st + 1, as_next_offset = next_offset, as_max_alignment = al,
    as_slots = as_slots st @ [slot_for_object ob fixed (as_next_slot_id st) off]\<rparr>"
proof -
  have len: "length (as_slots st) = length obs" using inv by (simp add: assign_inv_def)
  have behind: "slot_end s \<le> unat off" if "ord ob" "(ob', s) \<in> set (zip obs (as_slots st))" for ob' s
    using inv off(4) [OF that(1)] that(2) by (fastforce simp: assign_inv_def dest: set_zip_rightD)
  have "al \<noteq> 0" using al(1) inv unfolding assign_inv_def by (metis word_le_0_iff)
  moreover have "slot_end (slot_for_object ob fixed (as_next_slot_id st) off) \<le> unat next_offset"
    using off(1) by (simp add: slot_end_def slot_for_object_def)
  moreover have "slot_end s \<le> unat next_offset" "fs_align_bytes s \<le> al" if "s \<in> set (as_slots st)" for s
    using inv that off(2) al(1) by (auto simp: assign_inv_def intro: order_trans)
  ultimately show ?thesis
    using inv off(3,4) al(2,3) behind
    by (auto simp: assign_inv_def len placed_apart_snoc slot_for_object_def add.assoc)
qed

lemma append_slot_inv:
  assumes inv: "assign_inv ord id0 obs st" and small: "object_in_bounds ob" "length obs < 2 ^ 20"
  shows "assign_inv ord id0 (obs @ [ob]) (append_slot_for_object ob fixed st)"
    "unat (as_next_offset st) \<le> unat (as_next_offset (append_slot_for_object ob fixed st))"
proof -
  let ?start = "align_to (as_next_offset st) (object_alignment ob)"
  note b = object_bounds [OF small(1)]
  have "length obs * 2 ^ 42 \<le> 2 ^ 20 * 2 ^ 42" using small(2) by (intro mult_right_mono) simp_all
  then have nxt: "unat (as_next_offset st) \<le> 2 ^ 62" using inv by (simp add: assign_inv_def)
  have start: "unat (as_next_offset st) \<le> unat ?start" "unat ?start \<le> unat (as_next_offset st) + unat (object_alignment ob)"
    "unat ?start mod unat (object_alignment ob) = 0"
    by (rule align_to_bounds; use nxt b(2) object_alignment_pos in simp)+
  then have end_off: "unat (?start + object_size ob) = unat ?start + unat (object_size ob)"
    using nxt b(1,2) unat_add_lem [THEN iffD1, of ?start "object_size ob"] by simp
  have al: "unat (max (as_max_alignment st) (object_alignment ob)) < 2 ^ 40"
    using inv b(2) by (auto simp: assign_inv_def max_def)
  show "assign_inv ord id0 (obs @ [ob]) (append_slot_for_object ob fixed st)"
    unfolding append_slot_for_object_def Let_def
    by (rule assign_inv_step [OF inv small(1)]) (use start end_off b al in auto)
  show "unat (as_next_offset st) \<le> unat (as_next_offset (append_slot_for_object ob fixed st))"
    using start end_off by (simp add: append_slot_for_object_def Let_def)
qed

section \<open>Families\<close>

definition family_flags :: "family_layouts \<Rightarrow> string \<Rightarrow> (bool \<times> bool) option" where
  "family_flags fls name = map_option (\<lambda>l. (fl_fixed_location l, fl_preserve_slice_offsets l)) (fls name)"

definition family_ok :: "u64 \<Rightarrow> family_layout \<Rightarrow> bool" where
  "family_ok next_offset l \<longleftrightarrow> fl_max_alignment_bytes l \<noteq> 0 \<and> unat (fl_max_alignment_bytes l) < 2 ^ 40 \<and>
     (case fl_base_offset_bytes l of None \<Rightarrow> True | Some b \<Rightarrow> unat b \<le> unat next_offset)"

lemma family_ok_mono: "family_ok n l \<Longrightarrow> unat n \<le> unat m \<Longrightarrow> family_ok m l"
  by (auto simp: family_ok_def split: option.splits)

lemma append_slice_inv:
  assumes inv: "assign_inv ord id0 obs st" and small: "object_in_bounds ob" "length obs < 2 ^ 20"
    and slice: "so_slice_family ob = Some sf" "family_ok (as_next_offset st) l" "\<not> ord ob"
    and step: "append_slice_offset_slot_for_object ob (sf_slice_offset sf) l fixed st = (st', l')"
  shows "assign_inv ord id0 (obs @ [ob]) st'" "unat (as_next_offset st) \<le> unat (as_next_offset st')" "family_ok (as_next_offset st') l'"
proof -
  let ?base = "family_base l (as_next_offset st)"
  let ?off = "?base + sf_slice_offset sf" and ?next = "max (as_next_offset st) (?base + sf_slice_offset sf + object_size ob)"
  note b = object_bounds(1,2) [OF small(1)] object_bounds(3) [OF small(1) slice(1)]
  have "length obs * 2 ^ 42 \<le> 2 ^ 20 * 2 ^ 42" using small(2) by (intro mult_right_mono) simp_all
  then have nxt: "unat (as_next_offset st) \<le> 2 ^ 62" using inv by (simp add: assign_inv_def)
  have base: "unat ?base \<le> unat (as_next_offset st) + 2 ^ 40"
    using slice(2) nxt align_to_bounds(2) [of "as_next_offset st" "fl_max_alignment_bytes l"]
    by (auto simp: family_ok_def family_base_def split: option.splits)
  have off: "unat ?off = unat ?base + unat (sf_slice_offset sf)"
    using base nxt b unat_add_lem [THEN iffD1, of ?base "sf_slice_offset sf"] by simp
  have end_off: "unat (?off + object_size ob) = unat ?off + unat (object_size ob)"
    using base nxt b off unat_add_lem [THEN iffD1, of ?off "object_size ob"] by simp
  have nx: "unat ?next = max (unat (as_next_offset st)) (unat ?off + unat (object_size ob))"
    using end_off by (simp add: max_def word_le_nat_alt)
  have al: "unat (max (max (as_max_alignment st) (fl_max_alignment_bytes l)) (object_alignment ob)) < 2 ^ 40"
    using inv b(2) slice(2) by (auto simp: assign_inv_def family_ok_def max_def)
  have st': "st' = \<lparr>as_next_slot_id = as_next_slot_id st + 1, as_next_offset = ?next,
      as_max_alignment = max (max (as_max_alignment st) (fl_max_alignment_bytes l)) (object_alignment ob),
      as_slots = as_slots st @ [slot_for_object ob fixed (as_next_slot_id st) ?off]\<rparr>" and l': "l' = l\<lparr>fl_base_offset_bytes := Some ?base\<rparr>"
    using step by (simp_all add: append_slice_offset_slot_for_object_def Let_def)
  show "assign_inv ord id0 (obs @ [ob]) st'"
    unfolding st' by (rule assign_inv_step [OF inv small(1)]) (use nx base b off al slice(3) in \<open>auto simp: le_max_iff_disj\<close>)
  show "unat (as_next_offset st) \<le> unat (as_next_offset st')" using nx by (simp add: st')
  show "family_ok (as_next_offset st') l'" using slice(2) nx off by (simp add: st' l' family_ok_def)
qed

definition keeps_offset :: "(u32 \<Rightarrow> string) \<Rightarrow> family_layouts \<Rightarrow> stack_object \<Rightarrow> bool" where
  "keeps_offset slot_name fls ob \<longleftrightarrow> find_object_slice_layout slot_name ob fls \<noteq> None"

text \<open>The slots of slices that keep their offset lie at that offset from the base of their family.\<close>

definition slices_at :: "(u32 \<Rightarrow> string) \<Rightarrow> family_layouts \<Rightarrow> (stack_object \<times> object_slot) list \<Rightarrow> bool" where
  "slices_at slot_name fls zs \<longleftrightarrow>
     (\<forall>(ob, s)\<in>set zs. keeps_offset slot_name fls ob \<longrightarrow> (\<exists>sf l b. so_slice_family ob = Some sf \<and> fls (slot_name (sf_family_name sf)) = Some l \<and>
        fl_base_offset_bytes l = Some b \<and> fs_offset_bytes s = b + sf_slice_offset sf))"

lemma keeps_offset_iff:
  "keeps_offset slot_name fls ob \<longleftrightarrow>
     (\<exists>sf. so_slice_family ob = Some sf \<and> family_flags fls (slot_name (sf_family_name sf)) = Some (True, True))"
  by (auto simp: keeps_offset_def find_object_slice_layout_def family_flags_def split: option.splits)

lemma keeps_offset_flags: "family_flags fls = family_flags fls' \<Longrightarrow> keeps_offset slot_name fls ob = keeps_offset slot_name fls' ob"
  by (simp add: keeps_offset_iff)

definition fixed_inv :: "(u32 \<Rightarrow> string) \<Rightarrow> family_layouts \<Rightarrow> u64 \<Rightarrow> stack_object list \<Rightarrow> assign_state \<times> family_layouts \<Rightarrow> bool" where
  "fixed_inv slot_name fls0 id0 obs stf \<longleftrightarrow>
     (case stf of (st, fls) \<Rightarrow>
        assign_inv (\<lambda>ob. \<not> keeps_offset slot_name fls0 ob) id0 obs st \<and> family_flags fls = family_flags fls0 \<and>
        (\<forall>name l. fls name = Some l \<longrightarrow> family_ok (as_next_offset st) l) \<and> slices_at slot_name fls (zip obs (as_slots st)))"

lemma slices_at_update:
  assumes "slices_at slot_name fls zs" "fls name = Some l" "family_flags (fls(name \<mapsto> l')) = family_flags fls"
    "\<And>b. fl_base_offset_bytes l = Some b \<Longrightarrow> fl_base_offset_bytes l' = Some b"
  shows "slices_at slot_name (fls(name \<mapsto> l')) zs"
  using assms unfolding slices_at_def keeps_offset_flags [OF assms(3)] by fastforce

lemma place_fixed_step:
  assumes inv: "fixed_inv slot_name fls0 id0 obs stf" and small: "object_in_bounds ob" "length obs < 2 ^ 20"
  shows "fixed_inv slot_name fls0 id0 (obs @ [ob]) (place_fixed_object slot_name ob stf)"
proof -
  obtain st fls where stf: "stf = (st, fls)" by (cases stf)
  note i = inv [unfolded fixed_inv_def stf prod.case]
  have len: "length (as_slots st) = length obs" using i by (simp add: assign_inv_def)
  show ?thesis
  proof (cases "find_object_slice_layout slot_name ob fls")
    case None
    note step = append_slot_inv [OF i [THEN conjunct1] small, of True]
    have slots: "as_slots (append_slot_for_object ob True st) = as_slots st @
        [slot_for_object ob True (as_next_slot_id st) (align_to (as_next_offset st) (object_alignment ob))]"
      by (simp add: append_slot_for_object_def Let_def)
    have "\<not> keeps_offset slot_name fls ob" using None by (simp add: keeps_offset_def)
    then have "slices_at slot_name fls (zip (obs @ [ob]) (as_slots (append_slot_for_object ob True st)))"
      using i by (simp add: slices_at_def slots len)
    moreover have "\<forall>name l. fls name = Some l \<longrightarrow> family_ok (as_next_offset (append_slot_for_object ob True st)) l"
      using i family_ok_mono [OF _ step(2)] by blast
    ultimately show ?thesis using i step(1) by (simp add: fixed_inv_def stf place_fixed_object_def None)
  next
    case (Some r)
    obtain sf l where sf: "so_slice_family ob = Some sf" "fls (slot_name (sf_family_name sf)) = Some l"
      "r = (slot_name (sf_family_name sf), sf_slice_offset sf, l)"
      using Some by (auto simp: find_object_slice_layout_def split: option.splits if_splits)
    obtain st' l' where step: "append_slice_offset_slot_for_object ob (sf_slice_offset sf) l True st = (st', l')" by (cases "append_slice_offset_slot_for_object ob (sf_slice_offset sf) l True st")
    have keeps: "\<not> \<not> keeps_offset slot_name fls0 ob"
      using Some i keeps_offset_flags [of fls fls0 slot_name ob] by (simp add: keeps_offset_def)
    have ok: "family_ok (as_next_offset st) l" using i sf(2) by blast
    note s = append_slice_inv [OF i [THEN conjunct1] small sf(1) ok keeps step]
    have l': "l' = l\<lparr>fl_base_offset_bytes := Some (family_base l (as_next_offset st))\<rparr>"
      and slots: "as_slots st' = as_slots st @ [slot_for_object ob True (as_next_slot_id st) (family_base l (as_next_offset st) + sf_slice_offset sf)]"
      using step by (auto simp: append_slice_offset_slot_for_object_def Let_def)
    have flags: "family_flags (fls(slot_name (sf_family_name sf) \<mapsto> l')) = family_flags fls"
      using sf(2) by (auto simp: family_flags_def l' fun_eq_iff)
    have "slices_at slot_name (fls(slot_name (sf_family_name sf) \<mapsto> l')) (zip obs (as_slots st))"
      by (rule slices_at_update [OF _ sf(2) flags]) (use i in \<open>auto simp: l' family_base_def\<close>)
    then have "slices_at slot_name (fls(slot_name (sf_family_name sf) \<mapsto> l')) (zip (obs @ [ob]) (as_slots st'))"
      using sf(1) by (auto simp: slots len slices_at_def l' slot_for_object_def)
    moreover have "\<forall>name l. (fls(slot_name (sf_family_name sf) \<mapsto> l')) name = Some l \<longrightarrow> family_ok (as_next_offset st') l"
      using i s(3) family_ok_mono [OF _ s(2)] by auto
    ultimately show ?thesis using i s(1) flags by (simp add: fixed_inv_def stf place_fixed_object_def Some sf(3) step)
  qed
qed

lemma place_fixed_all:
  "fixed_inv slot_name fls0 id0 obs stf \<Longrightarrow> \<forall>ob\<in>set xs. object_in_bounds ob \<Longrightarrow> length obs + length xs \<le> 2 ^ 20 \<Longrightarrow>
   fixed_inv slot_name fls0 id0 (obs @ xs) (fold (place_fixed_object slot_name) xs stf)"
proof (induction xs arbitrary: obs stf)
  case (Cons x xs)
  have "fixed_inv slot_name fls0 id0 (obs @ [x]) (place_fixed_object slot_name x stf)"
    by (rule place_fixed_step) (use Cons.prems in auto)
  then show ?case using Cons.IH [of "obs @ [x]"] Cons.prems by simp
qed simp

lemma mset_remove_at: "i < length xs \<Longrightarrow> mset xs = add_mset (xs ! i) (mset (remove_at i xs))"
  by (subst id_take_nth_drop [of i xs]) (simp_all add: remove_at_def)

lemma place_reorderable_all:
  "assign_inv ord id0 obs st \<Longrightarrow> \<forall>ob\<in>set xs. object_in_bounds ob \<Longrightarrow> length obs + length xs \<le> 2 ^ 20 \<Longrightarrow>
   \<exists>ys ss. mset ys = mset xs \<and> as_slots (place_reorderable xs st) = as_slots st @ ss \<and> assign_inv ord id0 (obs @ ys) (place_reorderable xs st)"
proof (induction xs st arbitrary: obs rule: place_reorderable.induct)
  case (2 x xs st)
  let ?i = "selected_position (x # xs) (as_next_offset st)"
  let ?ob = "(x # xs) ! ?i" and ?rest = "remove_at ?i (x # xs)"
  have i: "?i < length (x # xs)" by (rule selected_position_less) simp
  then have ms: "mset (x # xs) = add_mset ?ob (mset ?rest)" by (rule mset_remove_at)
  then have sets: "set (x # xs) = insert ?ob (set ?rest)" and len: "length (x # xs) = Suc (length ?rest)"
    by (metis set_mset_add_mset_insert set_mset_mset) (metis ms size_add_mset size_mset)
  have ob: "object_in_bounds ?ob" "\<forall>ob\<in>set ?rest. object_in_bounds ob" using "2.prems"(2) unfolding sets by blast+
  have "assign_inv ord id0 (obs @ [?ob]) (append_slot_for_object ?ob False st)"
    by (rule append_slot_inv(1) [OF "2.prems"(1) ob(1)]) (use "2.prems"(3) in simp)
  from "2.IH" [OF refl refl this ob(2)] "2.prems"(3) len obtain ys ss where ys: "mset ys = mset ?rest"
    "as_slots (place_reorderable ?rest (append_slot_for_object ?ob False st)) = as_slots (append_slot_for_object ?ob False st) @ ss"
    "assign_inv ord id0 ((obs @ [?ob]) @ ys) (place_reorderable ?rest (append_slot_for_object ?ob False st))" by auto
  have run: "place_reorderable (x # xs) st = place_reorderable ?rest (append_slot_for_object ?ob False st)" by (simp add: Let_def)
  show ?case unfolding run
    using ys ms by (intro exI [of _ "?ob # ys"]) (auto simp: append_slot_for_object_def Let_def)
qed auto

section \<open>The whole assignment\<close>

definition unbased_family :: "family_layout \<Rightarrow> bool" where
  "unbased_family l \<longleftrightarrow> fl_max_alignment_bytes l \<noteq> 0 \<and> unat (fl_max_alignment_bytes l) < 2 ^ 40 \<and> fl_base_offset_bytes l = None"

lemma unbased_family_update:
  assumes "unbased_family l" "object_in_bounds ob"
  shows "unbased_family (l\<lparr>fl_fixed_location := b, fl_max_alignment_bytes := max (fl_max_alignment_bytes l) (object_alignment ob)\<rparr>)"
  using assms object_bounds(2) [OF assms(2)] object_alignment_pos [of ob] by (auto simp: unbased_family_def max_def)

lemma built_families:
  assumes "\<forall>ob\<in>set objects. object_in_bounds ob" "build_slice_family_layout_map slot_name objects name = Some l"
  shows "unbased_family l"
proof -
  let ?P = "\<lambda>st :: family_layouts \<times> (string \<times> slice_entry) list. \<forall>name l. fst st name = Some l \<longrightarrow> unbased_family l"
  have "?P (fold (add_family_object slot_name) objects (Map.empty, []))"
  proof (rule fold_invariant)
    fix ob and st :: "family_layouts \<times> (string \<times> slice_entry) list"
    assume ob: "ob \<in> set objects" and st: "?P st"
    have "unbased_family (family_or_fresh (fst st) name)" for name
      using st by (auto simp: family_or_fresh_def fresh_family_def unbased_family_def split: option.splits)
    then have "unbased_family ((family_or_fresh (fst st) name)\<lparr>fl_fixed_location := b,
        fl_max_alignment_bytes := max (fl_max_alignment_bytes (family_or_fresh (fst st) name)) (object_alignment ob)\<rparr>)" for name b
      using unbased_family_update ob assms(1) by blast
    with st show "?P (add_family_object slot_name ob st)"
      by (auto simp: add_family_object_def Let_def split: option.splits prod.splits)
  qed simp
  then show ?thesis
    using assms(2) by (auto simp: build_slice_family_layout_map_def unbased_family_def split: prod.splits)
qed

text \<open>
  A layout of a frame of \<open>size\<close> bytes aligned to \<open>al\<close>: every slot inside the frame, the slots of \<open>placed_apart\<close>
  in place, and the slices that keep their offset at that offset from one base per family.
\<close>

definition frame_layout_ok ::
    "(u32 \<Rightarrow> string) \<Rightarrow> family_layouts \<Rightarrow> (string \<rightharpoonup> u64) \<Rightarrow> stack_object list \<Rightarrow> object_slot list \<Rightarrow> u64 \<Rightarrow> u64 \<Rightarrow> bool" where
  "frame_layout_ok slot_name fls bases obs slots frame_size al \<longleftrightarrow>
     length obs = length slots \<and> placed_apart (\<lambda>ob. \<not> keeps_offset slot_name fls ob) (zip obs slots) \<and>
     (\<forall>s\<in>set slots. slot_end s \<le> unat frame_size \<and> fs_align_bytes s \<le> al) \<and> al \<noteq> 0 \<and> unat frame_size mod unat al = 0 \<and>
     (\<forall>(ob, s)\<in>set (zip obs slots). \<forall>sf. keeps_offset slot_name fls ob \<longrightarrow> so_slice_family ob = Some sf \<longrightarrow>
        (\<exists>b. bases (slot_name (sf_family_name sf)) = Some b \<and> fs_offset_bytes s = b + sf_slice_offset sf))"

lemma reorderable_ordinary: "\<not> object_is_fixed slot_name fls ob \<Longrightarrow> \<not> keeps_offset slot_name fls ob"
  by (auto simp: object_is_fixed_def belongs_to_fixed_slice_family_def keeps_offset_def find_object_slice_layout_def split: option.splits)

lemma mset_partition: "mset (filter P xs) + mset (filter (\<lambda>x. \<not> P x) xs) = mset xs"
  by simp

text \<open>
  C4: slot assignment gives every object that needs a slot exactly one, with consecutive ids. Every slot
  lies inside the frame, whose size is a multiple of its alignment; a slot is aligned and starts behind all
  slots assigned before it, unless it belongs to a slice that keeps its offset, and those lie at their offsets
  from one base per family.
\<close>

theorem assign_frame_slots_correct:
  assumes run: "assign_frame_slots slot_name objects id0 = (slots, next_id, frame_size, al)"
    and small: "\<forall>ob\<in>set objects. object_in_bounds ob" "length objects \<le> 2 ^ 20"
  shows "\<exists>obs bases. mset obs = mset (filter (needs_slot slot_name (build_slice_family_layout_map slot_name objects)) objects) \<and>
    frame_layout_ok slot_name (build_slice_family_layout_map slot_name objects) bases obs slots frame_size al \<and>
    map fs_slot_id slots = map (\<lambda>i. id0 + of_nat i) [0..<length slots] \<and> next_id = id0 + of_nat (length slots)"
proof -
  let ?fls = "build_slice_family_layout_map slot_name objects"
  let ?placed = "filter (needs_slot slot_name ?fls) objects"
  let ?fixed = "filter (object_is_fixed slot_name ?fls) ?placed"
  let ?ordered = "filter is_parameter_owned_fixed_slot ?fixed @ filter (\<lambda>ob. \<not> is_parameter_owned_fixed_slot ob) ?fixed"
  let ?free = "filter (\<lambda>ob. \<not> object_is_fixed slot_name ?fls ob) ?placed"
  let ?st0 = "\<lparr>as_next_slot_id = id0, as_next_offset = 0, as_max_alignment = 1, as_slots = []\<rparr>"
  let ?ord = "\<lambda>ob. \<not> keeps_offset slot_name ?fls ob"
  obtain st1 fls1 where st1: "fold (place_fixed_object slot_name) ?ordered (?st0, ?fls) = (st1, fls1)"
    by (cases "fold (place_fixed_object slot_name) ?ordered (?st0, ?fls)")
  let ?st2 = "place_reorderable (sort_reorderable_objects ?free) st1"
  have out: "slots = as_slots ?st2" "next_id = as_next_slot_id ?st2" "al = as_max_alignment ?st2" "frame_size = align_to (as_next_offset ?st2) (as_max_alignment ?st2)"
    using run unfolding assign_frame_slots_def Let_def st1 prod.case prod.inject by blast+
  have "mset ?ordered = mset ?fixed" unfolding mset_append by (rule mset_partition)
  then have ms: "mset ?ordered + mset ?free = mset ?placed" by (metis mset_partition)
  have len: "length ?ordered + length ?free = length ?placed" using arg_cong [OF ms, of size] by (metis size_mset size_union)
  have len2: "length ?placed \<le> 2 ^ 20" using small(2) length_filter_le [of "needs_slot slot_name ?fls" objects] by linarith
  have "fixed_inv slot_name ?fls id0 [] (?st0, ?fls)"
    using built_families [OF small(1)] by (auto simp: fixed_inv_def assign_inv_def placed_apart_def slices_at_def unbased_family_def family_ok_def)
  then have "fixed_inv slot_name ?fls id0 ([] @ ?ordered) (st1, fls1)"
    unfolding st1 [symmetric] by (rule place_fixed_all) (use small(1) len len2 in auto)
  then have fixed: "assign_inv ?ord id0 ?ordered st1" "family_flags fls1 = family_flags ?fls" "slices_at slot_name fls1 (zip ?ordered (as_slots st1))"
    by (simp_all add: fixed_inv_def)
  have sorted: "mset (sort_reorderable_objects ?free) = mset ?free" by (simp add: sort_reorderable_objects_def)
  have "\<exists>ys ss. mset ys = mset (sort_reorderable_objects ?free) \<and> as_slots ?st2 = as_slots st1 @ ss \<and> assign_inv ?ord id0 (?ordered @ ys) ?st2"
    by (rule place_reorderable_all [OF fixed(1)])
      (use small(1) len len2 mset_eq_setD [OF sorted] mset_eq_length [OF sorted] in auto)
  then obtain ys ss where ys: "mset ys = mset ?free" "as_slots ?st2 = as_slots st1 @ ss" and inv: "assign_inv ?ord id0 (?ordered @ ys) ?st2"
    unfolding sorted by blast
  let ?obs = "?ordered @ ys" and ?bases = "\<lambda>name. Option.bind (fls1 name) fl_base_offset_bytes"
  have total: "mset ?obs = mset ?placed" unfolding mset_append [of ?ordered] ys(1) by (rule ms)
  then have "length ?obs \<le> 2 ^ 20" using mset_eq_length len2 by metis
  then have "length ?obs * 2 ^ 42 \<le> 2 ^ 20 * 2 ^ 42" by (intro mult_right_mono) simp_all
  then have nxt: "unat (as_next_offset ?st2) \<le> 2 ^ 63" "as_max_alignment ?st2 \<noteq> 0" "unat (as_max_alignment ?st2) \<le> 2 ^ 40"
    using inv by (simp_all add: assign_inv_def)
  note size_bounds = align_to_bounds(1,3) [OF nxt(1) nxt(3) nxt(2)]
  have lens: "length (as_slots st1) = length ?ordered" using fixed(1) by (simp add: assign_inv_def)
  have "\<exists>b. ?bases (slot_name (sf_family_name sf)) = Some b \<and> fs_offset_bytes s = b + sf_slice_offset sf"
    if z: "(ob, s) \<in> set (zip ?obs slots)" and keeps: "keeps_offset slot_name ?fls ob" and sf: "so_slice_family ob = Some sf" for ob s sf
  proof -
    have "(ob, s) \<in> set (zip ?ordered (as_slots st1)) \<or> ob \<in> set ys"
      using z unfolding out(1) ys(2) zip_append [OF lens [symmetric]] by (auto dest: set_zip_leftD)
    moreover have "ob \<notin> set ys" using keeps reorderable_ordinary mset_eq_setD [OF ys(1)] by fastforce
    ultimately show ?thesis
      using fixed(3) keeps sf keeps_offset_flags [OF fixed(2)] by (fastforce simp: slices_at_def)
  qed
  then have "frame_layout_ok slot_name ?fls ?bases ?obs slots frame_size al"
    using inv nxt(2) size_bounds unfolding frame_layout_ok_def out by (fastforce simp: assign_inv_def)
  moreover have "map fs_slot_id slots = map (\<lambda>i. id0 + of_nat i) [0..<length slots]" "next_id = id0 + of_nat (length slots)"
    using inv unfolding out by (simp_all add: assign_inv_def)
  ultimately show ?thesis using total by blast
qed

text \<open>A fixed byte, and three objects the gap filler reorders.\<close>

definition sample_object :: "u64 \<Rightarrow> type_kind \<Rightarrow> bool \<Rightarrow> slice_family option \<Rightarrow> stack_object" where
  "sample_object i t fixed family = \<lparr>so_object_id = i, so_function_name = 1, so_source_kind = ''local_slot'', so_type = t, so_size_bytes = 0,
     so_align_bytes = 0, so_requires_home_slot = True, so_permanent_home_slot = fixed, so_slice_family = family\<rparr>"

definition sample_objects :: "stack_object list" where
  "sample_objects = [sample_object 0 I16 False None, sample_object 1 I8 True None, sample_object 2 I64 False None, sample_object 3 I32 False None]"

theorem assign_frame_slots_correct_witness:
  "\<exists>slots obs bases. assign_frame_slots (\<lambda>_. []) sample_objects 5 = (slots, 9, 24, 8) \<and>
     map (\<lambda>s. (fs_object_id s, fs_offset_bytes s)) slots = [(1, 0), (3, 4), (2, 8), (0, 16)] \<and>
     mset obs = mset sample_objects \<and> frame_layout_ok (\<lambda>_. []) (build_slice_family_layout_map (\<lambda>_. []) sample_objects) bases obs slots 24 8"
proof -
  let ?slots = "fst (assign_frame_slots (\<lambda>_. []) sample_objects 5)"
  have "snd (assign_frame_slots (\<lambda>_. []) sample_objects 5) = (9, 24, 8)" by code_simp
  then have run: "assign_frame_slots (\<lambda>_. []) sample_objects 5 = (?slots, 9, 24, 8)" by (metis prod.collapse)
  have offsets: "map (\<lambda>s. (fs_object_id s, fs_offset_bytes s)) ?slots = [(1, 0), (3, 4), (2, 8), (0, 16)]" by code_simp
  have "list_all object_in_bounds sample_objects" by code_simp
  then have small: "\<forall>ob\<in>set sample_objects. object_in_bounds ob" "length sample_objects \<le> 2 ^ 20"
    by (simp_all add: list_all_iff sample_objects_def)
  have "list_all (needs_slot (\<lambda>_. []) (build_slice_family_layout_map (\<lambda>_. []) sample_objects)) sample_objects" by code_simp
  then have "filter (needs_slot (\<lambda>_. []) (build_slice_family_layout_map (\<lambda>_. []) sample_objects)) sample_objects = sample_objects"
    by (simp add: list_all_iff filter_id_conv)
  with assign_frame_slots_correct [OF run small] obtain obs bases where "mset obs = mset sample_objects"
    "frame_layout_ok (\<lambda>_. []) (build_slice_family_layout_map (\<lambda>_. []) sample_objects) bases obs ?slots 24 8" by auto
  with run offsets show ?thesis by (intro exI [of _ ?slots] exI [of _ obs] exI [of _ bases] conjI)
qed

text \<open>
  The name of a shadowed local has a number after the last dot as well: the second and third \<open>int x\<close> of
  a function are called \<open>%lv.x.1\<close> and \<open>%lv.x.2\<close>. Where their addresses are used they count as slices of one
  aggregate, at offsets 1 and 2, and their four byte slots overlap.
\<close>

definition shadowed_local :: "u64 \<Rightarrow> string \<Rightarrow> stack_object" where
  "shadowed_local i slot_name = sample_object i I32 True
     (map_option (\<lambda>(family, offs). \<lparr>sf_family_name = 7, sf_slice_offset = offs\<rparr>) (legacy_slot_name_slice_family_compatibility slot_name))"

lemma shadowed_locals_overlap:
  "map_option fst (legacy_slot_name_slice_family_compatibility ''%lv.x.1'') = Some ''%lv.x''"
  "map_option fst (legacy_slot_name_slice_family_compatibility ''%lv.x.2'') = Some ''%lv.x''"
  "map (\<lambda>s. (fs_object_id s, fs_offset_bytes s, fs_size_bytes s))
     (fst (assign_frame_slots (\<lambda>_. ''%lv.x'') [shadowed_local 1 ''%lv.x.1'', shadowed_local 2 ''%lv.x.2''] 0)) = [(1, 1, 4), (2, 2, 4)]"
  by code_simp+

end
