(* ===== verification/Target_Registers_Correct.thy ===== *)
theory Target_Registers_Correct
  imports Target_Registers
begin

text \<open>
  The two descriptions of a register of the calling convention agree: the name a value is moved to and the
  physical register the later passes compute for it.
\<close>

section \<open>Names and physical registers agree\<close>

text \<open>
  The number the architecture gives a register of the calling convention, with a flag for the floating point
  and vector file.
\<close>

fun architectural_registers :: "target_arch \<Rightarrow> (string \<times> bool \<times> u64) list" where
  "architectural_registers X86_64 =
      [(''rax'', (False, 0)), (''rcx'', (False, 1)), (''rdx'', (False, 2)), (''rbx'', (False, 3)), (''rsp'', (False, 4)), (''rbp'', (False, 5)), (''rsi'', (False, 6)), (''rdi'', (False, 7)), (''r8'', (False, 8)), (''r9'', (False, 9)),
       (''xmm0'', (True, 0)), (''xmm1'', (True, 1)), (''xmm2'', (True, 2)), (''xmm3'', (True, 3)), (''xmm4'', (True, 4)), (''xmm5'', (True, 5)), (''xmm6'', (True, 6)), (''xmm7'', (True, 7))]"
| "architectural_registers Aarch64 =
      [(''x0'', (False, 0)), (''x1'', (False, 1)), (''x2'', (False, 2)), (''x3'', (False, 3)), (''x4'', (False, 4)), (''x5'', (False, 5)), (''x6'', (False, 6)), (''x7'', (False, 7)),
       (''s0'', (True, 0)), (''s1'', (True, 1)), (''s2'', (True, 2)), (''s3'', (True, 3)), (''s4'', (True, 4)), (''s5'', (True, 5)), (''s6'', (True, 6)), (''s7'', (True, 7)),
       (''d0'', (True, 0)), (''d1'', (True, 1)), (''d2'', (True, 2)), (''d3'', (True, 3)), (''d4'', (True, 4)), (''d5'', (True, 5)), (''d6'', (True, 6)), (''d7'', (True, 7)),
       (''q0'', (True, 0)), (''q1'', (True, 1)), (''q2'', (True, 2)), (''q3'', (True, 3)), (''q4'', (True, 4)), (''q5'', (True, 5)), (''q6'', (True, 6)), (''q7'', (True, 7))]"
| "architectural_registers Riscv64 =
      [(''a0'', (False, 10)), (''a1'', (False, 11)), (''a2'', (False, 12)), (''a3'', (False, 13)), (''a4'', (False, 14)), (''a5'', (False, 15)), (''a6'', (False, 16)), (''a7'', (False, 17)),
       (''fa0'', (True, 10)), (''fa1'', (True, 11)), (''fa2'', (True, 12)), (''fa3'', (True, 13)), (''fa4'', (True, 14)), (''fa5'', (True, 15)), (''fa6'', (True, 16)), (''fa7'', (True, 17))]"
| "architectural_registers _ = []"

definition architectural_register :: "target_arch \<Rightarrow> string \<Rightarrow> (bool \<times> u64) option" where
  "architectural_register a name = map_of (architectural_registers a) name"

text \<open>The class of a value fits its type: integer registers hold no floating point values.\<close>

definition class_fits_type :: "abi_value_class \<Rightarrow> type_kind \<Rightarrow> bool" where
  "class_fits_type c t \<longleftrightarrow> (c = ClassInteger \<longrightarrow> \<not> is_float_type t) \<and> (is_float_abi_class c \<longrightarrow> is_float_type t)"

lemma abi_register_tables:
  "k < 6 \<Longrightarrow> architectural_register X86_64 (kX86GeneralAbiRegisters ! k) = Some (False, kX86GeneralAbiPhysicalIndexes ! k)"
  "k < 8 \<Longrightarrow> architectural_register X86_64 (kX86FloatAbiRegisters ! k) = Some (True, of_nat k)"
  "k < 8 \<Longrightarrow> architectural_register Aarch64 (kAarch64GeneralAbiRegisters ! k) = Some (False, of_nat k)"
  "k < 8 \<Longrightarrow> architectural_register Aarch64 (''s'' @ show_nat k) = Some (True, of_nat k)"
  "k < 8 \<Longrightarrow> architectural_register Aarch64 (''d'' @ show_nat k) = Some (True, of_nat k)"
  "k < 8 \<Longrightarrow> architectural_register Aarch64 (''q'' @ show_nat k) = Some (True, of_nat k)"
  "k < 8 \<Longrightarrow> architectural_register Riscv64 (kRiscvGeneralAbiRegisters ! k) = Some (False, of_nat (10 + k))"
  "k < 8 \<Longrightarrow> architectural_register Riscv64 (kRiscvFloatAbiRegisters ! k) = Some (True, of_nat (10 + k))"
proof -
  have upto: "list_all P [0..<n] \<Longrightarrow> k < n \<Longrightarrow> P k" for P n by (simp add: list_all_iff)
  show "k < 6 \<Longrightarrow> architectural_register X86_64 (kX86GeneralAbiRegisters ! k) = Some (False, kX86GeneralAbiPhysicalIndexes ! k)"
    by (erule upto [rotated]) code_simp
  show "k < 8 \<Longrightarrow> architectural_register X86_64 (kX86FloatAbiRegisters ! k) = Some (True, of_nat k)" by (erule upto [rotated]) code_simp
  show "k < 8 \<Longrightarrow> architectural_register Aarch64 (kAarch64GeneralAbiRegisters ! k) = Some (False, of_nat k)" by (erule upto [rotated]) code_simp
  show "k < 8 \<Longrightarrow> architectural_register Aarch64 (''s'' @ show_nat k) = Some (True, of_nat k)" by (erule upto [rotated]) code_simp
  show "k < 8 \<Longrightarrow> architectural_register Aarch64 (''d'' @ show_nat k) = Some (True, of_nat k)" by (erule upto [rotated]) code_simp
  show "k < 8 \<Longrightarrow> architectural_register Aarch64 (''q'' @ show_nat k) = Some (True, of_nat k)" by (erule upto [rotated]) code_simp
  show "k < 8 \<Longrightarrow> architectural_register Riscv64 (kRiscvGeneralAbiRegisters ! k) = Some (False, of_nat (10 + k))" by (erule upto [rotated]) code_simp
  show "k < 8 \<Longrightarrow> architectural_register Riscv64 (kRiscvFloatAbiRegisters ! k) = Some (True, of_nat (10 + k))" by (erule upto [rotated]) code_simp
qed

lemma indexed_register_name_Some:
  "indexed_register_name names i = Some name \<Longrightarrow> unat i < length names \<and> name = names ! unat i"
  by (auto simp: indexed_register_name_def split: if_splits)

lemma aarch64_float_register_name_Some:
  "aarch64_float_register_name t i = Some name \<Longrightarrow> architectural_register Aarch64 name = Some (True, i) \<and> i < 8 \<and> is_float_type t"
  using abi_register_tables(4-6) [of "unat i"]
  by (auto simp: aarch64_float_register_name_def is_float_type_def word_less_nat_alt word_le_nat_alt split: if_splits)

text \<open>A name and an identity denote the same physical register.\<close>

definition same_register :: "target_arch \<Rightarrow> string \<Rightarrow> register_identity \<Rightarrow> bool" where
  "same_register a name i \<longleftrightarrow>
     ti_target_arch i = a \<and> architectural_register a name = Some (ti_bank i \<noteq> BankGpr, ti_physical_index i)"

lemmas register_defs = same_register_def target_register_identity_for_abi_register_placement_def x86_64_abi_register_identity_def
  aarch64_abi_register_identity_def target_register_identity_def is_general_physical_bank_def


definition lp64 :: "bool \<Rightarrow> target_profile" where
  "lp64 float_registers = \<lparr>triple = ''riscv64-linux-gnu'', target_cpu = Riscv64, os = Linux,
     backend_abi = (if float_registers then RiscvLp64D else RiscvLp64), relocation_model = Static,
     has_float_arg_registers = float_registers, has_float_return_registers = float_registers\<rparr>"


text \<open>The same for results.\<close>

lemma call_result_register_identity:
  assumes fits: "class_fits_type (cr_primary_class abi) (cr_type abi)" "cr_type abi \<noteq> I128"
    and name: "call_result_destination_register_name tp abi = Some name"
    and placement: "call_result_destination_register_placement tp abi width = Some placement"
    and identity: "target_register_identity_for_abi_register_placement tp placement = Some identity"
    and float: "target_cpu tp = Riscv64 \<longrightarrow> is_float_type (cr_type abi) \<longrightarrow> has_float_return_registers tp"
  shows "same_register (target_cpu tp) name identity"
proof -
  let ?bank = "register_bank_from_abi (cr_type abi) (cr_primary_class abi)"
  have p: "placement = \<lparr>rp_bank = ?bank, rp_pool = PoolCallResult, rp_slot_index = 0, rp_contiguous_width = max width 1\<rparr>"
    using placement by (auto simp: call_result_destination_register_placement_def register_bank_from_result_abi_def split: if_splits)
  note bank_defs = register_bank_from_abi_def register_bank_from_type_def class_fits_type_def is_float_type_def is_float_abi_class_def
  have tables: "architectural_register X86_64 ''rax'' = Some (False, 0)" "architectural_register X86_64 ''xmm0'' = Some (True, 0)"
    "architectural_register Aarch64 ''x0'' = Some (False, 0)" "architectural_register Riscv64 ''a0'' = Some (False, 10)"
    "architectural_register Riscv64 ''fa0'' = Some (True, 10)" by code_simp+
  have bank: "is_float_abi_class (cr_primary_class abi) \<or> is_float_type (cr_type abi) \<longleftrightarrow> ?bank \<in> {BankFpr, BankVreg}"
    using fits by (cases "cr_type abi"; cases "cr_primary_class abi") (simp_all add: bank_defs)
  have not_memory: "\<not> (cr_returned_in_memory abi \<or> cr_primary_class abi = ClassMemory \<or> cr_type abi = Void)"
    using name by (auto simp: call_result_destination_register_name_def)
  have name: "(case target_cpu tp of
      X86_64 \<Rightarrow> Some (if ?bank \<in> {BankFpr, BankVreg} then ''xmm0'' else ''rax'')
    | I686 \<Rightarrow> if is_float_type (cr_type abi) then None else Some ''eax''
    | Aarch64 \<Rightarrow> if ?bank \<in> {BankFpr, BankVreg} then aarch64_float_register_name (cr_type abi) 0 else Some ''x0''
    | Riscv64 \<Rightarrow> Some (if has_float_return_registers tp \<and> ?bank \<in> {BankFpr, BankVreg} then ''fa0'' else ''a0'')
    | ArchUnknown \<Rightarrow> None) = Some name"
    using name unfolding call_result_destination_register_name_def if_not_P [OF not_memory] bank .
  have float: "target_cpu tp = Riscv64 \<Longrightarrow> ?bank \<in> {BankFpr, BankVreg} \<Longrightarrow> has_float_return_registers tp"
    using float fits bank by (auto simp: class_fits_type_def)
  show ?thesis
  proof (cases "?bank \<in> {BankFpr, BankVreg}")
    case True
    then show ?thesis using name float identity unfolding p
      by (cases "target_cpu tp") (auto simp: tables register_defs dest!: aarch64_float_register_name_Some split: if_split_asm)
  next
    case False
    then show ?thesis using name identity unfolding p
      by (cases "target_cpu tp") (auto simp: tables register_defs split: if_split_asm)
  qed
qed

text \<open>
  Without floating point registers the legalizer gives a \<open>double\<close> the integer class, and the code moves it to
  an integer register; its placement still says floating point bank, and the physical register
  computed from it is \<open>fa0\<close>.
\<close>

lemma soft_float_identity_differs:
  "\<exists>abi placement identity. direct_bir_call_arg_abi_repair (lp64 False) F64 = Some abi \<and>
     call_arg_destination_register_name (lp64 False) abi 0 = Some ''a0'' \<and>
     call_arg_destination_register_placement (lp64 False) abi 0 1 = Some placement \<and>
     target_register_identity_for_abi_register_placement (lp64 False) placement = Some identity \<and>
     architectural_register Riscv64 ''fa0'' = Some (ti_bank identity \<noteq> BankGpr, ti_physical_index identity) \<and>
     \<not> same_register Riscv64 ''a0'' identity"
proof -
  let ?abi = "the (direct_bir_call_arg_abi_repair (lp64 False) F64)"
  let ?placement = "the (call_arg_destination_register_placement (lp64 False) ?abi 0 1)"
  let ?identity = "target_register_identity Riscv64 BankFpr RegFloat 10"
  have "direct_bir_call_arg_abi_repair (lp64 False) F64 = Some ?abi" "call_arg_destination_register_name (lp64 False) ?abi 0 = Some ''a0''"
    "call_arg_destination_register_placement (lp64 False) ?abi 0 1 = Some ?placement"
    "target_register_identity_for_abi_register_placement (lp64 False) ?placement = Some ?identity"
    "architectural_register Riscv64 ''fa0'' = Some (ti_bank ?identity \<noteq> BankGpr, ti_physical_index ?identity)"
    "\<not> same_register Riscv64 ''a0'' ?identity"
    by code_simp+
  then show ?thesis by blast
qed

end
