(* ===== verification/Id_Hash.thy ===== *)
theory Id_Hash
  imports Prelude
begin

unbundle bit_operations_syntax

text \<open>
  The 64-bit id hash of \<open>src/shared/id_hash.hpp\<close>. All arithmetic is on 64-bit words and wraps,
  as \<open>uint64_t\<close> does.
\<close>

definition kIdHashSeed :: u64 where
  "kIdHashSeed = 1469598103934665603"

definition pack_u32_pair :: "u32 \<Rightarrow> u32 \<Rightarrow> u64" where
  "pack_u32_pair lo hi = ucast lo OR push_bit 32 (ucast hi)"

definition pack_text_ids :: "u32 \<Rightarrow> u32 \<Rightarrow> u64" where
  "pack_text_ids lo hi = pack_u32_pair lo hi"

definition mix_id_hash :: "u64 \<Rightarrow> u64 \<Rightarrow> u64" where
  "mix_id_hash hash word =
     hash XOR (word + 0x9e3779b97f4a7c15 + push_bit 6 hash + drop_bit 2 hash)"

definition hash_id_words :: "u64 \<Rightarrow> u64 list \<Rightarrow> u64" where
  "hash_id_words seed words = foldl mix_id_hash seed words"

fun hash_u32_sequence :: "u32 list \<Rightarrow> u64" where
  "hash_u32_sequence [] = mix_id_hash kIdHashSeed 0"
| "hash_u32_sequence [a] = hash_id_words kIdHashSeed [ucast a, 1]"
| "hash_u32_sequence [a, b] = hash_id_words kIdHashSeed [pack_u32_pair a b, 2]"
| "hash_u32_sequence [a, b, c] = hash_id_words kIdHashSeed [pack_u32_pair a b, ucast c, 3]"
| "hash_u32_sequence [a, b, c, d] =
     hash_id_words kIdHashSeed [pack_u32_pair a b, pack_u32_pair c d, 4]"
| "hash_u32_sequence [a, b, c, d, e] =
     hash_id_words kIdHashSeed [pack_u32_pair a b, pack_u32_pair c d, ucast e, 5]"
| "hash_u32_sequence segments =
     mix_id_hash (foldl (\<lambda>h s. mix_id_hash h (ucast s)) kIdHashSeed segments)
       (of_nat (length segments))"

declare hash_u32_sequence.simps [simp del]

lemma pack_u32_pair_bit:
  "bit (pack_u32_pair lo hi) n \<longleftrightarrow>
     n < 64 \<and> (if n < 32 then bit lo n else bit hi (n - 32))"
  by (auto simp: pack_u32_pair_def bit_simps dest: bit_imp_le_length)

lemma pack_u32_pair_low: "ucast (pack_u32_pair lo hi) = lo"
  by (rule bit_word_eqI) (auto simp: bit_simps pack_u32_pair_bit)

lemma pack_u32_pair_high: "ucast (drop_bit 32 (pack_u32_pair lo hi)) = hi"
  by (rule bit_word_eqI) (auto simp: bit_simps pack_u32_pair_bit)

text \<open>
  Packing two 32-bit ids into one 64-bit key loses nothing: two pairs pack to the same key
  exactly when both halves agree, so a packed pair can stand for the pair.
\<close>

theorem pack_text_ids_injective:
  "pack_text_ids lo hi = pack_text_ids lo' hi' \<longleftrightarrow> lo = lo' \<and> hi = hi'"
  unfolding pack_text_ids_def
  by (metis pack_u32_pair_low pack_u32_pair_high)

end
