(* ===== verification/Sequence_Map.thy ===== *)
theory Sequence_Map
  imports Id_Hash
begin

text \<open>
  \<open>SequenceMap\<close> of \<open>src/shared/sequence_map.hpp\<close>: a hash map from sequences of 32-bit atoms to
  values, with chained buckets stored as indices into a dense entry vector and a swap-with-last
  erase. The theory shows that it implements a finite map (on non-empty keys), whatever the hash
  collisions.
\<close>

section \<open>State and operations\<close>

abbreviation kNoEntry :: int where "kNoEntry \<equiv> -1"

record 'v sm_entry =
  ekey :: "u32 list"
  evalue :: 'v
  enext :: int

record 'v sequence_map =
  buckets :: "int list"
  entries :: "'v sm_entry list"

definition same_sequence :: "u32 list \<Rightarrow> u32 list \<Rightarrow> bool" where
  "same_sequence key atoms = (if length key \<noteq> length atoms then False else key = atoms)"

definition bucket_index :: "u64 \<Rightarrow> nat \<Rightarrow> int" where
  "bucket_index hash bucket_count = to_i32 (unat hash mod bucket_count)"

text \<open>
  The walk along a bucket's chain. It stops at \<open>kNoEntry\<close> or at the key; the fuel (one more than
  the number of entries at every call) is never exhausted on a well-formed map.
\<close>

fun chain_find :: "nat \<Rightarrow> 'v sm_entry list \<Rightarrow> int \<Rightarrow> u32 list \<Rightarrow> nat option" where
  "chain_find 0 es entry_index atoms = None"
| "chain_find (Suc fuel) es entry_index atoms =
     (if entry_index = kNoEntry then None
      else let entry = es ! nat entry_index in
        if same_sequence (ekey entry) atoms then Some (nat entry_index)
        else chain_find fuel es (enext entry) atoms)"

definition find_index :: "'v sequence_map \<Rightarrow> u32 list \<Rightarrow> nat option" where
  "find_index m atoms =
     (if atoms = [] \<or> buckets m = [] then None
      else let bucket = bucket_index (hash_u32_sequence atoms) (length (buckets m))
           in chain_find (Suc (length (entries m))) (entries m) (buckets m ! nat bucket) atoms)"

definition find_sequence :: "'v sequence_map \<Rightarrow> u32 list \<Rightarrow> (u32 list \<times> 'v) option" where
  "find_sequence m atoms =
     map_option (\<lambda>i. (ekey (entries m ! i), evalue (entries m ! i))) (find_index m atoms)"

definition rehash_step ::
  "nat \<Rightarrow> nat \<Rightarrow> 'v sm_entry list \<times> int list \<Rightarrow> 'v sm_entry list \<times> int list" where
  "rehash_step new_bucket_count i = (\<lambda>(es, new_buckets).
     let bucket = nat (bucket_index (hash_u32_sequence (ekey (es ! i))) new_bucket_count)
     in (es[i := (es ! i)\<lparr>enext := new_buckets ! bucket\<rparr>], new_buckets[bucket := to_i32 i]))"

definition rehash :: "nat \<Rightarrow> 'v sequence_map \<Rightarrow> 'v sequence_map" where
  "rehash cnt m =
     (let new_bucket_count = (if cnt < 16 then 16 else cnt);
          (es, bs) = fold (rehash_step new_bucket_count) [0..<length (entries m)]
                       (entries m, replicate new_bucket_count kNoEntry)
      in \<lparr>buckets = bs, entries = es\<rparr>)"

definition sm_empty :: "'v sequence_map" where
  "sm_empty = rehash 16 \<lparr>buckets = [], entries = []\<rparr>"

definition ensure_capacity_for_insert :: "'v sequence_map \<Rightarrow> 'v sequence_map" where
  "ensure_capacity_for_insert m =
     (if buckets m = [] then rehash 16 m
      else if length (buckets m) * 3 \<le> (length (entries m) + 1) * 4
      then rehash (length (buckets m) * 2) m
      else m)"

text \<open>The result is the index of the entry the view points at and whether it was inserted.\<close>

definition sm_insert :: "'v sequence_map \<Rightarrow> u32 list \<Rightarrow> 'v \<Rightarrow> (nat \<times> bool) \<times> 'v sequence_map" where
  "sm_insert m key value =
     (case find_index m key of
        Some existing \<Rightarrow> ((existing, False), m)
      | None \<Rightarrow>
          let m1 = ensure_capacity_for_insert m;
              bucket = nat (bucket_index (hash_u32_sequence key) (length (buckets m1)));
              new_index = length (entries m1);
              entry = \<lparr>ekey = key, evalue = value, enext = buckets m1 ! bucket\<rparr>
          in ((new_index, True),
              m1\<lparr>entries := entries m1 @ [entry],
                 buckets := (buckets m1)[bucket := to_i32 new_index]\<rparr>))"

text \<open>\<open>int32_t* link\<close> points either into the bucket array or at an entry's \<open>next\<close>.\<close>

datatype link = BucketLink nat | NextLink nat

definition read_link :: "'v sequence_map \<Rightarrow> link \<Rightarrow> int" where
  "read_link m l = (case l of BucketLink b \<Rightarrow> buckets m ! b | NextLink i \<Rightarrow> enext (entries m ! i))"

definition write_link :: "'v sequence_map \<Rightarrow> link \<Rightarrow> int \<Rightarrow> 'v sequence_map" where
  "write_link m l v =
     (case l of
        BucketLink b \<Rightarrow> m\<lparr>buckets := (buckets m)[b := v]\<rparr>
      | NextLink i \<Rightarrow> m\<lparr>entries := (entries m)[i := (entries m ! i)\<lparr>enext := v\<rparr>]\<rparr>)"

definition retarget :: "int \<Rightarrow> int \<Rightarrow> int \<Rightarrow> int" where
  "retarget old new i = (if i = old then new else i)"

text \<open>The swap-with-last removal once the entry has been unlinked.\<close>

definition remove_entry :: "'v sequence_map \<Rightarrow> nat \<Rightarrow> 'v sequence_map" where
  "remove_entry m entry_index =
     (let last_index = length (entries m) - 1;
          m1 = (if entry_index \<noteq> last_index
                then let es1 = (entries m)[entry_index := entries m ! last_index];
                         r = retarget (to_i32 last_index) (to_i32 entry_index)
                     in \<lparr>buckets = map r (buckets m), entries = map (\<lambda>e. e\<lparr>enext := r (enext e)\<rparr>) es1\<rparr>
                else m)
      in m1\<lparr>entries := butlast (entries m1)\<rparr>)"

fun erase_walk :: "nat \<Rightarrow> 'v sequence_map \<Rightarrow> link \<Rightarrow> u32 list \<Rightarrow> bool \<times> 'v sequence_map" where
  "erase_walk 0 m l atoms = (False, m)"
| "erase_walk (Suc fuel) m l atoms =
     (if read_link m l = kNoEntry then (False, m)
      else let entry_index = nat (read_link m l);
               entry = entries m ! entry_index
           in if same_sequence (ekey entry) atoms
              then (True, remove_entry (write_link m l (enext entry)) entry_index)
              else erase_walk fuel m (NextLink entry_index) atoms)"

definition erase_sequence :: "'v sequence_map \<Rightarrow> u32 list \<Rightarrow> bool \<times> 'v sequence_map" where
  "erase_sequence m atoms =
     (if atoms = [] \<or> buckets m = [] then (False, m)
      else let bucket = nat (bucket_index (hash_u32_sequence atoms) (length (buckets m)))
           in erase_walk (Suc (length (entries m))) m (BucketLink bucket) atoms)"

section \<open>Invariant and abstraction\<close>

definition slot :: "nat \<Rightarrow> u32 list \<Rightarrow> nat" where
  "slot B key = unat (hash_u32_sequence key) mod B"

fun is_chain :: "'v sm_entry list \<Rightarrow> int \<Rightarrow> nat list \<Rightarrow> bool" where
  "is_chain es i [] \<longleftrightarrow> i = kNoEntry"
| "is_chain es i (x # xs) \<longleftrightarrow> i = int x \<and> x < length es \<and> is_chain es (enext (es ! x)) xs"

text \<open>\<open>linked es bs N ch\<close>: the chains \<open>ch\<close> of the buckets hold exactly the entries below \<open>N\<close>.\<close>

definition linked :: "'v sm_entry list \<Rightarrow> int list \<Rightarrow> nat set \<Rightarrow> (nat \<Rightarrow> nat list) \<Rightarrow> bool" where
  "linked es bs N ch \<longleftrightarrow>
     (\<forall>b < length bs. is_chain es (bs ! b) (ch b) \<and> distinct (ch b) \<and>
        set (ch b) = {i \<in> N. i < length es \<and> slot (length bs) (ekey (es ! i)) = b})"

definition live_keys :: "'v sm_entry list \<Rightarrow> u32 list list" where
  "live_keys es = filter (\<lambda>k. k \<noteq> []) (map ekey es)"

definition sm_wf :: "'v sequence_map \<Rightarrow> bool" where
  "sm_wf m \<longleftrightarrow> 16 \<le> length (buckets m) \<and> length (buckets m) < 2 ^ 31 \<and>
     length (entries m) * 4 < length (buckets m) * 3 \<and> distinct (live_keys (entries m)) \<and>
     (\<exists>ch. linked (entries m) (buckets m) {..<length (entries m)} ch)"

definition sm_map :: "'v sequence_map \<Rightarrow> (u32 list \<rightharpoonup> 'v)" where
  "sm_map m k = (if k = [] then None else map_of (map (\<lambda>e. (ekey e, evalue e)) (entries m)) k)"

lemma same_sequence_iff [simp]: "same_sequence key atoms \<longleftrightarrow> key = atoms"
  by (auto simp: same_sequence_def)

lemma slot_less [simp]: "0 < B \<Longrightarrow> slot B k < B"
  by (simp add: slot_def)

lemma bucket_index_slot [simp]:
  assumes "0 < B" "B < 2 ^ 31"
  shows "nat (bucket_index (hash_u32_sequence k) B) = slot B k"
proof -
  have "unat (hash_u32_sequence k) mod B < 2 ^ 31"
    using mod_less_divisor [OF assms(1)] assms(2) by (rule less_trans)
  then show ?thesis by (simp add: bucket_index_def slot_def)
qed

subsection \<open>Chains\<close>

lemma is_chain_bound: "is_chain es i xs \<Longrightarrow> x \<in> set xs \<Longrightarrow> x < length es"
  by (induction xs arbitrary: i) auto

lemma is_chain_append_entry: "is_chain es i xs \<Longrightarrow> is_chain (es @ [e]) i xs"
proof (induction xs arbitrary: i)
  case (Cons x xs) then show ?case by (simp add: nth_append)
qed simp

lemma is_chain_update_other:
  "is_chain es i xs \<Longrightarrow> n \<notin> set xs \<Longrightarrow> is_chain (es[n := e]) i xs"
  by (induction xs arbitrary: i) auto

lemma is_chain_length:
  assumes "is_chain es i xs" "distinct xs"
  shows "length xs \<le> length es"
proof -
  from assms(1) have "set xs \<subseteq> {..<length es}" by (auto dest: is_chain_bound)
  then have "card (set xs) \<le> length es" by (metis card_lessThan card_mono finite_lessThan)
  with assms(2) show ?thesis by (simp add: distinct_card)
qed

lemma chain_find_chain:
  "is_chain es i xs \<Longrightarrow> length xs < fuel \<Longrightarrow>
   chain_find fuel es i atoms = List.find (\<lambda>j. ekey (es ! j) = atoms) xs"
proof (induction xs arbitrary: i fuel)
  case Nil then show ?case by (cases fuel) auto
next
  case (Cons x xs) then show ?case by (cases fuel) (auto simp: Let_def)
qed

subsection \<open>Linking one more entry\<close>

lemma linked_chain_mem:
  "linked es bs N ch \<Longrightarrow> b < length bs \<Longrightarrow>
   x \<in> set (ch b) \<longleftrightarrow> x \<in> N \<and> x < length es \<and> slot (length bs) (ekey (es ! x)) = b"
  by (auto simp: linked_def)

lemma linked_push:
  assumes l: "linked es bs {..<n} ch" and n: "n < length es"
    and b: "b = slot (length bs) (ekey (es ! n))" and "0 < length bs"
  shows "linked (es[n := (es ! n)\<lparr>enext := bs ! b\<rparr>]) (bs[b := int n]) {..<Suc n} (ch(b := n # ch b))"
  unfolding linked_def
proof (intro allI impI)
  fix c assume c: "c < length (bs[b := int n])"
  let ?es = "es[n := (es ! n)\<lparr>enext := bs ! b\<rparr>]"
  have notin: "n \<notin> set (ch d)" if "d < length bs" for d
    using l that by (auto simp: linked_chain_mem)
  have chain: "is_chain ?es (bs ! d) (ch d)" if "d < length bs" for d
    using l that notin by (auto simp: linked_def intro: is_chain_update_other)
  have key: "ekey (?es ! j) = ekey (es ! j)" for j
    by (cases "j = n") (auto simp: n)
  have sets: "set (ch d) = {i. i < n \<and> slot (length bs) (ekey (es ! i)) = d}" if "d < length bs" for d
    using l n that by (auto simp: linked_chain_mem)
  have dist: "distinct (ch d)" if "d < length bs" for d
    using l that by (simp add: linked_def)
  from b assms(4) have "b < length bs" by simp
  have upto: "{i \<in> {..<Suc n}. i < length ?es \<and> slot (length (bs[b := int n])) (ekey (?es ! i)) = d} =
      {i. i < n \<and> slot (length bs) (ekey (es ! i)) = d} \<union> (if d = b then {n} else {})" for d
    using n b by (auto simp: key less_Suc_eq)
  show "is_chain ?es (bs[b := int n] ! c) ((ch(b := n # ch b)) c) \<and> distinct ((ch(b := n # ch b)) c) \<and>
      set ((ch(b := n # ch b)) c) =
        {i \<in> {..<Suc n}. i < length ?es \<and> slot (length (bs[b := int n])) (ekey (?es ! i)) = c}"
    unfolding upto
    using c chain [of c] sets [of c] dist [of c] notin [of c] n \<open>b < length bs\<close>
    by (cases "c = b") simp_all
qed

lemma linked_append:
  assumes "linked es bs {..<length es} ch"
  shows "linked (es @ [e]) bs {..<length es} ch"
  using assms by (auto simp: linked_def nth_append is_chain_append_entry)

subsection \<open>Lookup\<close>

lemma map_of_entries:
  "map_of (map (\<lambda>e. (ekey e, evalue e)) es) k =
     map_option evalue (List.find (\<lambda>e. ekey e = k) es)"
  by (induction es) auto

lemma live_keys_inj:
  assumes "distinct (live_keys es)" "i < length es" "j < length es"
    and "ekey (es ! i) = ekey (es ! j)" "ekey (es ! i) \<noteq> []"
  shows "i = j"
  using assms
proof (induction es arbitrary: i j)
  case (Cons e es)
  have mem: "ekey (es ! k) \<in> set (live_keys es)" if "k < length es" "ekey (es ! k) \<noteq> []" for k
    using that by (auto simp: live_keys_def)
  have tail: "distinct (live_keys es)"
    using Cons.prems(1) by (auto simp: live_keys_def split: if_splits)
  have head: "ekey e \<notin> set (live_keys es)" if "ekey e \<noteq> []"
    using Cons.prems(1) that by (auto simp: live_keys_def)
  show ?case
  proof (cases i; cases j)
    fix i' j' assume "i = Suc i'" "j = Suc j'"
    with Cons.prems tail show ?thesis using Cons.IH [of i' j'] by simp
  next
    fix j' assume "i = 0" "j = Suc j'"
    with Cons.prems mem [of j'] head show ?thesis by simp
  next
    fix i' assume "i = Suc i'" "j = 0"
    with Cons.prems mem [of i'] head show ?thesis by simp
  qed simp
qed simp

lemma sm_map_nth:
  assumes "distinct (live_keys (entries m))" "i < length (entries m)" "ekey (entries m ! i) \<noteq> []"
  shows "sm_map m (ekey (entries m ! i)) = Some (evalue (entries m ! i))"
proof -
  let ?k = "ekey (entries m ! i)"
  have "List.find (\<lambda>e. ekey e = ?k) (entries m) \<noteq> None"
    using nth_mem [OF assms(2)] by (auto simp: find_None_iff)
  then obtain e where e: "List.find (\<lambda>e. ekey e = ?k) (entries m) = Some e" by auto
  then obtain j where "j < length (entries m)" "ekey (entries m ! j) = ?k" "e = entries m ! j"
    by (auto simp: find_Some_iff)
  with assms have "j = i" by (auto dest: live_keys_inj)
  with e \<open>e = entries m ! j\<close> assms(3) show ?thesis by (simp add: sm_map_def map_of_entries)
qed

lemma sm_map_None_iff:
  "k \<noteq> [] \<Longrightarrow> sm_map m k = None \<longleftrightarrow> (\<forall>i < length (entries m). ekey (entries m ! i) \<noteq> k)"
  by (auto simp: sm_map_def map_of_entries find_None_iff in_set_conv_nth)

lemma find_index_spec:
  assumes wf: "sm_wf m"
  shows "find_index m k =
    (if k = [] then None
     else List.find (\<lambda>i. ekey (entries m ! i) = k) [0..<length (entries m)])" (is "_ = ?rhs")
proof (cases "k = []")
  case False
  let ?B = "length (buckets m)" and ?es = "entries m"
  from wf obtain ch where l: "linked ?es (buckets m) {..<length ?es} ch" by (auto simp: sm_wf_def)
  from wf have B: "0 < ?B" "?B < 2 ^ 31" "buckets m \<noteq> []" by (auto simp: sm_wf_def)
  let ?b = "slot ?B k"
  from B have "?b < ?B" by simp
  with l have chain: "is_chain ?es (buckets m ! ?b) (ch ?b)" "distinct (ch ?b)" by (auto simp: linked_def)
  then have "length (ch ?b) < Suc (length ?es)" by (simp add: is_chain_length less_Suc_eq_le)
  with chain B False have eq: "find_index m k = List.find (\<lambda>j. ekey (?es ! j) = k) (ch ?b)"
    by (simp add: find_index_def chain_find_chain Let_def del: chain_find.simps)
  have uniq: "i = j" if "i < length ?es" "j < length ?es" "ekey (?es ! i) = k" "ekey (?es ! j) = k" for i j
    using live_keys_inj [of ?es i j] that wf False by (auto simp: sm_wf_def)
  show ?thesis
  proof (cases "\<exists>i < length ?es. ekey (?es ! i) = k")
    case True
    then obtain i where i: "i < length ?es" "ekey (?es ! i) = k" by blast
    with l \<open>?b < ?B\<close> have "i \<in> set (ch ?b)" by (simp add: linked_chain_mem)
    then have "List.find (\<lambda>j. ekey (?es ! j) = k) (ch ?b) \<noteq> None"
      using i by (auto simp: find_None_iff)
    then obtain j where "List.find (\<lambda>j. ekey (?es ! j) = k) (ch ?b) = Some j" by auto
    moreover from this have "j < length ?es" "ekey (?es ! j) = k"
      using chain(1) by (auto simp: find_Some_iff intro: is_chain_bound nth_mem)
    moreover have "\<forall>j < i. ekey (?es ! j) \<noteq> k"
      using i uniq [of i] by (metis less_trans nat_neq_iff)
    then have "List.find (\<lambda>j. ekey (?es ! j) = k) [0..<length ?es] = Some i"
      using i by (auto simp: find_Some_iff intro!: exI [of _ i])
    ultimately show ?thesis using eq False uniq i by auto
  next
    case none: False
    then have "List.find (\<lambda>j. ekey (?es ! j) = k) (ch ?b) = None"
      using chain(1) by (auto simp: find_None_iff dest: is_chain_bound)
    moreover have "List.find (\<lambda>j. ekey (?es ! j) = k) [0..<length ?es] = None"
      using none by (auto simp: find_None_iff)
    ultimately show ?thesis using eq False by simp
  qed
qed (simp add: find_index_def)

lemma find_index_Some:
  assumes "sm_wf m" "find_index m k = Some i"
  shows "k \<noteq> [] \<and> i < length (entries m) \<and> ekey (entries m ! i) = k"
  using assms by (auto simp: find_index_spec find_Some_iff split: if_splits)

lemma find_index_None:
  assumes "sm_wf m" "find_index m k = None" "k \<noteq> []"
  shows "\<forall>i < length (entries m). ekey (entries m ! i) \<noteq> k"
  using assms by (auto simp: find_index_spec find_None_iff)

lemma find_sequence_sm_map:
  assumes "sm_wf m"
  shows "find_sequence m k = map_option (\<lambda>v. (k, v)) (sm_map m k)"
proof (cases "find_index m k")
  case None
  show ?thesis
  proof (cases "k = []")
    case False
    with None assms have "sm_map m k = None" by (simp add: sm_map_None_iff find_index_None)
    with None show ?thesis by (simp add: find_sequence_def)
  qed (simp add: find_sequence_def find_index_def sm_map_def)
next
  case (Some i)
  with assms have "k \<noteq> []" "i < length (entries m)" "ekey (entries m ! i) = k"
    by (auto dest: find_index_Some)
  with assms have "sm_map m k = Some (evalue (entries m ! i))"
    using sm_map_nth [of m i] by (simp add: sm_wf_def)
  with Some \<open>ekey (entries m ! i) = k\<close> show ?thesis by (simp add: find_sequence_def)
qed

subsection \<open>Rehashing\<close>

lemma rehash_step_eq:
  assumes "0 < length bs" "length bs < 2 ^ 31" "i < 2 ^ 31"
  shows "rehash_step (length bs) i (es, bs) =
    (es[i := (es ! i)\<lparr>enext := bs ! slot (length bs) (ekey (es ! i))\<rparr>],
     bs[slot (length bs) (ekey (es ! i)) := int i])"
  using assms by (simp add: rehash_step_def Let_def)

lemma rehash_fold:
  assumes "0 < length bs0" "length bs0 < 2 ^ 31" "length es0 < 2 ^ 31"
    and "\<forall>b < length bs0. bs0 ! b = kNoEntry" "n \<le> length es0"
    and "fold (rehash_step (length bs0)) [0..<n] (es0, bs0) = (es, bs)"
  shows "length bs = length bs0 \<and> map ekey es = map ekey es0 \<and> map evalue es = map evalue es0 \<and>
    (\<exists>ch. linked es bs {..<n} ch)"
  using assms(5,6)
proof (induction n arbitrary: es bs)
  case 0
  then have "linked es bs {..<0} (\<lambda>_. [])" using assms(4) by (simp add: linked_def)
  with 0 show ?case by auto
next
  case (Suc n)
  obtain es1 bs1 where st: "fold (rehash_step (length bs0)) [0..<n] (es0, bs0) = (es1, bs1)" by fastforce
  from Suc.prems(1) have "n \<le> length es0" by simp
  from Suc.IH [OF this st] obtain ch where IH: "length bs1 = length bs0"
    "map ekey es1 = map ekey es0" "map evalue es1 = map evalue es0" "linked es1 bs1 {..<n} ch" by blast
  from IH(2) have len: "length es1 = length es0" by (metis length_map)
  let ?b = "slot (length bs1) (ekey (es1 ! n))"
  have "rehash_step (length bs1) n (es1, bs1) =
      (es1[n := (es1 ! n)\<lparr>enext := bs1 ! ?b\<rparr>], bs1[?b := int n])"
    using assms IH(1) Suc.prems(1) by (intro rehash_step_eq) auto
  with Suc.prems(2) st IH(1) have es: "es = es1[n := (es1 ! n)\<lparr>enext := bs1 ! ?b\<rparr>]"
    and bs: "bs = bs1[?b := int n]" by auto
  have "\<exists>ch. linked es bs {..<Suc n} ch"
    using linked_push [OF IH(4) _ refl] assms(1) IH(1) len Suc.prems(1) unfolding es bs by auto
  moreover have "map ekey es = map ekey es1" "map evalue es = map evalue es1"
    by (simp_all add: es map_list_update_same)
  ultimately show ?case using IH bs by simp
qed

text \<open>The keys and values of the entries, which rehashing keeps.\<close>

definition assoc :: "'v sm_entry list \<Rightarrow> (u32 list \<times> 'v) list" where
  "assoc es = map (\<lambda>e. (ekey e, evalue e)) es"

lemma live_keys_assoc: "live_keys es = filter (\<lambda>k. k \<noteq> []) (map fst (assoc es))"
  by (simp add: live_keys_def assoc_def o_def)

lemma sm_map_assoc: "sm_map m k = (if k = [] then None else map_of (assoc (entries m)) k)"
  by (simp add: sm_map_def assoc_def)

lemma length_assoc [simp]: "length (assoc es) = length es"
  by (simp add: assoc_def)

lemma assoc_eq_zip: "assoc es = zip (map ekey es) (map evalue es)"
  by (simp add: assoc_def zip_map_map zip_same_conv_map)

lemma rehash_spec:
  assumes "cnt < 2 ^ 31" "length (entries m) < 2 ^ 31"
  shows "length (buckets (rehash cnt m)) = max 16 cnt \<and>
    assoc (entries (rehash cnt m)) = assoc (entries m) \<and>
    (\<exists>ch. linked (entries (rehash cnt m)) (buckets (rehash cnt m)) {..<length (entries m)} ch)"
proof -
  let ?B = "if cnt < 16 then 16 else cnt"
  obtain es bs where st: "fold (rehash_step ?B) [0..<length (entries m)]
      (entries m, replicate ?B kNoEntry) = (es, bs)" by fastforce
  have B: "0 < length (replicate ?B kNoEntry)" "length (replicate ?B kNoEntry) < 2 ^ 31"
    using assms(1) by auto
  have empty: "\<forall>b < length (replicate ?B kNoEntry). replicate ?B kNoEntry ! b = kNoEntry" by simp
  have st': "fold (rehash_step (length (replicate ?B kNoEntry))) [0..<length (entries m)]
      (entries m, replicate ?B kNoEntry) = (es, bs)" using st by simp
  note spec = rehash_fold [OF B assms(2) empty order.refl st']
  have "rehash cnt m = \<lparr>buckets = bs, entries = es\<rparr>" using st by (simp add: rehash_def)
  with spec show ?thesis by (auto simp: assoc_eq_zip max_def)
qed

lemma sm_wf_rehash:
  assumes "sm_wf m" "length (buckets m) \<le> cnt" "cnt < 2 ^ 31"
  shows "sm_wf (rehash cnt m) \<and> sm_map (rehash cnt m) = sm_map m"
proof -
  from assms have n: "length (entries m) < 2 ^ 31" by (simp add: sm_wf_def)
  note spec = rehash_spec [OF assms(3) n]
  then have assoc: "assoc (entries (rehash cnt m)) = assoc (entries m)" by blast
  then have "length (entries (rehash cnt m)) = length (entries m)" by (metis length_assoc)
  with spec assms show ?thesis
    by (auto simp: sm_wf_def live_keys_assoc sm_map_assoc assoc max_def)
qed

lemma sm_empty_fields [simp]:
  "buckets sm_empty = replicate 16 kNoEntry" "entries sm_empty = []"
  by (simp_all add: sm_empty_def rehash_def)

lemma sm_wf_empty [simp]: "sm_wf sm_empty"
  by (auto simp: sm_wf_def live_keys_def linked_def intro!: exI [of _ "\<lambda>_. []"])

lemma sm_map_empty [simp]: "sm_map sm_empty = Map.empty"
  by (simp add: sm_map_def fun_eq_iff)

subsection \<open>Insertion\<close>

lemma ensure_capacity_spec:
  assumes "sm_wf m" "length (buckets m) * 2 < 2 ^ 31"
  shows "sm_wf (ensure_capacity_for_insert m) \<and>
    sm_map (ensure_capacity_for_insert m) = sm_map m \<and>
    (length (entries (ensure_capacity_for_insert m)) + 1) * 4
      < length (buckets (ensure_capacity_for_insert m)) * 3 \<and>
    assoc (entries (ensure_capacity_for_insert m)) = assoc (entries m)"
proof -
  from assms have ne: "buckets m \<noteq> []" "length (entries m) < 2 ^ 31" by (auto simp: sm_wf_def)
  show ?thesis
  proof (cases "length (buckets m) * 3 \<le> (length (entries m) + 1) * 4")
    case True
    with ne have eq: "ensure_capacity_for_insert m = rehash (length (buckets m) * 2) m"
      by (simp add: ensure_capacity_for_insert_def)
    note spec = rehash_spec [OF assms(2) ne(2)]
    then have "length (entries (rehash (length (buckets m) * 2) m)) = length (entries m)"
      by (metis length_assoc)
    with spec sm_wf_rehash [OF assms(1) _ assms(2)] assms(1) show ?thesis
      unfolding eq by (auto simp: sm_wf_def max_def)
  next
    case False
    with ne assms show ?thesis by (simp add: ensure_capacity_for_insert_def)
  qed
qed

lemma sm_insert_fresh:
  assumes wf: "sm_wf m" and room: "length (buckets m) * 2 < 2 ^ 31"
    and none: "find_index m k = None" and st: "sm_insert m k v = ((i, inserted), m')"
  shows "sm_wf m' \<and> inserted \<and> i = length (entries m) \<and> assoc (entries m') = assoc (entries m) @ [(k, v)]"
proof -
  let ?m = "ensure_capacity_for_insert m"
  let ?b = "slot (length (buckets ?m)) k" and ?n = "length (entries ?m)"
  let ?e = "\<lparr>ekey = k, evalue = v, enext = buckets ?m ! ?b\<rparr>"
  note cap = ensure_capacity_spec [OF wf room]
  then have n: "?n = length (entries m)" by (metis length_assoc)
  from cap have B: "0 < length (buckets ?m)" "length (buckets ?m) < 2 ^ 31" "?n < 2 ^ 31"
    by (auto simp: sm_wf_def)
  with st none have m': "m' = ?m\<lparr>entries := entries ?m @ [?e], buckets := (buckets ?m)[?b := int ?n]\<rparr>"
    and i: "i = ?n" "inserted"
    by (auto simp: sm_insert_def Let_def)
  from cap obtain ch where "linked (entries ?m) (buckets ?m) {..<?n} ch" by (auto simp: sm_wf_def)
  then have "linked (entries ?m @ [?e]) (buckets ?m) {..<?n} ch" by (rule linked_append)
  then have "linked ((entries ?m @ [?e])[?n := ?e]) ((buckets ?m)[?b := int ?n]) {..<Suc ?n} (ch(?b := ?n # ch ?b))"
    using linked_push [of "entries ?m @ [?e]" "buckets ?m" ?n ch ?b] B by simp
  then have links: "\<exists>ch. linked (entries m') (buckets m') {..<length (entries m')} ch"
    by (auto simp: m' lessThan_Suc)
  have "k \<notin> set (map fst (assoc (entries m)))" if "k \<noteq> []"
    using find_index_None [OF wf none that] by (auto simp: assoc_def in_set_conv_nth)
  then have "distinct (live_keys (entries m'))"
    using wf cap by (auto simp: m' sm_wf_def live_keys_assoc assoc_def)
  then show ?thesis
    using links cap B i n by (simp add: sm_wf_def m' assoc_def)
qed

lemma sm_map_snoc:
  assumes "assoc (entries m') = assoc (entries m) @ [(k, v)]" "sm_map m k = None"
  shows "sm_map m' = (if k = [] then sm_map m else (sm_map m)(k \<mapsto> v))"
  using assms by (auto simp: sm_map_assoc fun_eq_iff map_add_def split: option.splits if_splits)

subsection \<open>Erasure\<close>

lemma is_chain_tail:
  "is_chain es h (xs @ i # ys) \<Longrightarrow> i < length es \<and> is_chain es (enext (es ! i)) ys"
  by (induction xs arbitrary: h) auto

lemma is_chain_unlink:
  assumes "is_chain es h (xs @ i # ys)" "distinct (xs @ i # ys)" "xs \<noteq> []"
  shows "is_chain (es[last xs := (es ! last xs)\<lparr>enext := enext (es ! i)\<rparr>]) h (xs @ ys)"
  using assms
proof (induction xs arbitrary: h)
  case (Cons x xs)
  show ?case
  proof (cases "xs = []")
    case True
    with Cons.prems have "is_chain es (enext (es ! i)) ys" "x \<notin> set ys" by auto
    with Cons.prems True show ?thesis by (simp add: is_chain_update_other)
  next
    case False
    with Cons.prems have "last xs \<noteq> x" by auto
    with Cons False show ?thesis by simp
  qed
qed simp

definition link_of :: "nat \<Rightarrow> nat list \<Rightarrow> link" where
  "link_of b pre = (if pre = [] then BucketLink b else NextLink (last pre))"

lemma erase_walk_chain:
  assumes "is_chain (entries m) (read_link m (link_of b pre)) zs" "length zs < fuel"
  shows "(\<forall>z \<in> set zs. ekey (entries m ! z) \<noteq> atoms) \<and>
           erase_walk fuel m (link_of b pre) atoms = (False, m) \<or>
         (\<exists>us i vs. zs = us @ i # vs \<and> ekey (entries m ! i) = atoms \<and>
           erase_walk fuel m (link_of b pre) atoms =
             (True, remove_entry (write_link m (link_of b (pre @ us)) (enext (entries m ! i))) i))"
  using assms
proof (induction zs arbitrary: pre fuel)
  case Nil then show ?case by (cases fuel) auto
next
  case (Cons z zs)
  from Cons.prems(2) obtain f where f: "fuel = Suc f" by (cases fuel) auto
  from Cons.prems(1) have rd: "read_link m (link_of b pre) = int z" by simp
  show ?case
  proof (cases "ekey (entries m ! z) = atoms")
    case True
    then show ?thesis
      using rd f by (intro disjI2 exI [of _ "[]"] exI [of _ z] exI [of _ zs]) (simp add: Let_def)
  next
    case False
    have nxt: "NextLink z = link_of b (pre @ [z])" by (simp add: link_of_def)
    have "is_chain (entries m) (read_link m (link_of b (pre @ [z]))) zs"
      using Cons.prems(1) by (simp add: link_of_def read_link_def)
    moreover have step: "erase_walk fuel m (link_of b pre) atoms =
        erase_walk f m (link_of b (pre @ [z])) atoms"
      using rd f False nxt by (simp add: Let_def)
    ultimately consider
        "\<forall>z \<in> set zs. ekey (entries m ! z) \<noteq> atoms" "erase_walk f m (link_of b (pre @ [z])) atoms = (False, m)"
      | us i vs where "zs = us @ i # vs" "ekey (entries m ! i) = atoms"
          "erase_walk f m (link_of b (pre @ [z])) atoms =
           (True, remove_entry (write_link m (link_of b ((pre @ [z]) @ us)) (enext (entries m ! i))) i)"
      using Cons.IH [of "pre @ [z]" f] Cons.prems(2) f by auto
    then show ?thesis
    proof cases
      case 1 with False step show ?thesis by simp
    next
      case (2 us i vs)
      then show ?thesis
        by (intro disjI2 exI [of _ "z # us"] exI [of _ i] exI [of _ vs]) (simp add: step)
    qed
  qed
qed

lemma write_link_unlinks:
  assumes l: "linked (entries m) (buckets m) {..<length (entries m)} ch"
    and b: "b < length (buckets m)" and ch: "ch b = us @ i # vs"
    and m1: "m1 = write_link m (link_of b us) (enext (entries m ! i))"
  shows "linked (entries m1) (buckets m1) ({..<length (entries m)} - {i}) (ch(b := us @ vs)) \<and>
    assoc (entries m1) = assoc (entries m) \<and> length (buckets m1) = length (buckets m)"
proof -
  from l b have "is_chain (entries m) (buckets m ! b) (ch b)" "distinct (ch b)"
    by (simp_all add: linked_def)
  then have chain: "is_chain (entries m) (buckets m ! b) (us @ i # vs)" "distinct (us @ i # vs)"
    by (simp_all only: ch)
  have sets: "x \<in> set (ch c) \<longleftrightarrow> x < length (entries m) \<and> slot (length (buckets m)) (ekey (entries m ! x)) = c"
    if "c < length (buckets m)" for x c using l that by (auto simp: linked_chain_mem)
  have keys: "map ekey (entries m1) = map ekey (entries m)" "map evalue (entries m1) = map evalue (entries m)"
    by (auto simp: m1 write_link_def link_of_def map_list_update_same)
  then have len: "length (entries m1) = length (entries m)" by (metis length_map)
  have key: "ekey (entries m1 ! x) = ekey (entries m ! x)" if "x < length (entries m)" for x
    using keys(1) len that by (metis nth_map)
  have lenb: "length (buckets m1) = length (buckets m)"
    by (simp add: m1 write_link_def link_of_def)
  have this_chain: "is_chain (entries m1) (buckets m1 ! b) (us @ vs)"
  proof (cases "us = []")
    case True
    with chain b show ?thesis by (simp add: m1 write_link_def link_of_def)
  next
    case False
    with is_chain_unlink [OF chain False] show ?thesis by (simp add: m1 write_link_def link_of_def)
  qed
  have other: "is_chain (entries m1) (buckets m1 ! c) (ch c)" if "c < length (buckets m)" "c \<noteq> b" for c
  proof (cases "us = []")
    case True
    with l that show ?thesis by (simp add: m1 write_link_def link_of_def linked_def)
  next
    case False
    then have "last us \<in> set (ch b)" using ch by simp
    with sets b that have "last us \<notin> set (ch c)" by auto
    with l that False show ?thesis
      by (simp add: m1 write_link_def link_of_def linked_def is_chain_update_other)
  qed
  have removed: "set (us @ vs) = set (ch b) - {i}" using chain(2) ch by auto
  have iff: "i \<in> set (ch b)" using ch by simp
  show ?thesis
    unfolding linked_def
  proof (intro conjI allI impI)
    fix c assume "c < length (buckets m1)"
    then have c: "c < length (buckets m)" by (simp add: lenb)
    show "is_chain (entries m1) (buckets m1 ! c) ((ch(b := us @ vs)) c)"
      using this_chain other c by simp
    show "distinct ((ch(b := us @ vs)) c)" using chain(2) l c by (simp add: linked_def)
    have "set ((ch(b := us @ vs)) c) = set (ch c) - {i}"
      using removed iff sets [OF c, of i] sets [OF b, of i] by (cases "c = b") auto
    also have "\<dots> = {x. x < length (entries m) \<and> slot (length (buckets m)) (ekey (entries m ! x)) = c} - {i}"
      by (simp add: set_eq_iff sets [OF c])
    also have "\<dots> = {x \<in> {..<length (entries m)} - {i}.
        x < length (entries m1) \<and> slot (length (buckets m1)) (ekey (entries m1 ! x)) = c}"
      by (auto simp: len lenb key)
    finally show "set ((ch(b := us @ vs)) c) = {x \<in> {..<length (entries m)} - {i}.
        x < length (entries m1) \<and> slot (length (buckets m1)) (ekey (entries m1 ! x)) = c}" .
  qed (simp_all add: lenb assoc_eq_zip keys)
qed

text \<open>Renaming of indices done by the swap: the last entry moves to the hole.\<close>

lemma is_chain_swap:
  assumes "is_chain es h xs" "i \<notin> set xs" "i < length es"
    and es': "length es' = length es - 1"
      "\<And>x. x < length es \<Longrightarrow> x \<noteq> i \<Longrightarrow>
        enext (es' ! (if x = length es - 1 then i else x)) =
        retarget (int (length es - 1)) (int i) (enext (es ! x))"
  shows "is_chain es' (retarget (int (length es - 1)) (int i) h)
           (map (\<lambda>x. if x = length es - 1 then i else x) xs)"
  using assms(1,2)
proof (induction xs arbitrary: h)
  case Nil then show ?case by (simp add: retarget_def)
next
  case (Cons x xs)
  let ?r = "\<lambda>x. if x = length es - 1 then i else x"
  from Cons.prems have x: "h = int x" "x < length es" "x \<noteq> i" by auto
  then have "?r x < length es'" using assms(3) es'(1) by (auto split: if_splits)
  moreover have "retarget (int (length es - 1)) (int i) h = int (?r x)"
    using x by (auto simp: retarget_def)
  moreover have "is_chain es' (enext (es' ! ?r x)) (map ?r xs)"
    using Cons es'(2) [OF x(2,3)] by simp
  ultimately show ?case by simp
qed

lemma remove_entry_fields:
  assumes "i < length (entries m)" "length (entries m) < 2 ^ 31"
  shows "length (entries (remove_entry m i)) = length (entries m) - 1"
    and "length (buckets (remove_entry m i)) = length (buckets m)"
    and "\<And>b. b < length (buckets m) \<Longrightarrow> i \<noteq> length (entries m) - 1 \<Longrightarrow>
      buckets (remove_entry m i) ! b = retarget (int (length (entries m) - 1)) (int i) (buckets m ! b)"
    and "\<And>x. x < length (entries m) \<Longrightarrow> x \<noteq> i \<Longrightarrow> i \<noteq> length (entries m) - 1 \<Longrightarrow>
      entries (remove_entry m i) ! (if x = length (entries m) - 1 then i else x) =
      (entries m ! x)\<lparr>enext := retarget (int (length (entries m) - 1)) (int i) (enext (entries m ! x))\<rparr>"
proof -
  have cast: "to_i32 (length (entries m) - Suc 0) = int (length (entries m) - Suc 0)" "to_i32 i = int i"
    using assms by simp_all
  show "length (entries (remove_entry m i)) = length (entries m) - 1"
    and "length (buckets (remove_entry m i)) = length (buckets m)"
    by (simp_all add: remove_entry_def Let_def)
  show "buckets (remove_entry m i) ! b = retarget (int (length (entries m) - 1)) (int i) (buckets m ! b)"
    if "b < length (buckets m)" "i \<noteq> length (entries m) - 1" for b
    using that by (simp add: remove_entry_def Let_def cast)
  fix x assume x: "x < length (entries m)" "x \<noteq> i" "i \<noteq> length (entries m) - 1"
  then show "entries (remove_entry m i) ! (if x = length (entries m) - 1 then i else x) =
      (entries m ! x)\<lparr>enext := retarget (int (length (entries m) - 1)) (int i) (enext (entries m ! x))\<rparr>"
    using assms(1) by (auto simp: remove_entry_def Let_def cast nth_butlast nth_list_update)
qed

lemma linked_drop_last:
  assumes "linked es bs ({..<length es} - {length es - 1}) ch" "es \<noteq> []"
  shows "linked (butlast es) bs {..<length es - 1} ch"
proof -
  have chain: "is_chain (butlast es) h xs" if "is_chain es h xs" "length es - 1 \<notin> set xs" for h xs
    using that by (induction xs arbitrary: h) (auto simp: nth_butlast less_Suc_eq)
  show ?thesis
    using assms chain by (auto simp: linked_def nth_butlast)
qed

lemma linked_remove_entry:
  assumes l: "linked (entries m) (buckets m) ({..<length (entries m)} - {i}) ch"
    and i: "i < length (entries m)" and small: "length (entries m) < 2 ^ 31"
  shows "\<exists>ch. linked (entries (remove_entry m i)) (buckets (remove_entry m i))
               {..<length (entries (remove_entry m i))} ch"
proof (cases "i = length (entries m) - 1")
  case True
  with l i have "linked (butlast (entries m)) (buckets m) {..<length (entries m) - 1} ch"
    by (intro linked_drop_last) auto
  with True show ?thesis by (auto simp: remove_entry_def Let_def)
next
  case False
  let ?L = "length (entries m) - 1" and ?m = "remove_entry m i"
  let ?r = "\<lambda>x. if x = ?L then i else x"
  note f = remove_entry_fields [OF i small]
  have mem: "x \<in> set (ch b) \<longleftrightarrow> x < length (entries m) \<and> x \<noteq> i \<and>
      slot (length (buckets m)) (ekey (entries m ! x)) = b" if "b < length (buckets m)" for x b
    using l that by (auto simp: linked_chain_mem)
  have key: "ekey (entries ?m ! ?r x) = ekey (entries m ! x)" if "x < length (entries m)" "x \<noteq> i" for x
    using f(4) [OF that False] by simp
  have "linked (entries ?m) (buckets ?m) {..<length (entries ?m)} (\<lambda>b. map ?r (ch b))"
    unfolding linked_def
  proof (intro allI impI conjI)
    fix b assume "b < length (buckets ?m)"
    then have b: "b < length (buckets m)" by (simp add: f)
    with l have chain: "is_chain (entries m) (buckets m ! b) (ch b)" "distinct (ch b)"
      by (simp_all add: linked_def)
    have "i \<notin> set (ch b)" using mem [OF b] by simp
    show "is_chain (entries ?m) (buckets ?m ! b) (map ?r (ch b))"
      using is_chain_swap [OF chain(1) \<open>i \<notin> set (ch b)\<close> i f(1)] f(3) [OF b False] f(4) False by simp
    show "distinct (map ?r (ch b))"
      using chain(2) \<open>i \<notin> set (ch b)\<close> by (auto simp: distinct_map inj_on_def split: if_splits)
    have "?r ` set (ch b) = {x \<in> {..<length (entries ?m)}.
        x < length (entries ?m) \<and> slot (length (buckets m)) (ekey (entries ?m ! x)) = b}" (is "_ = ?rhs")
    proof (intro equalityI subsetI)
      fix y assume "y \<in> ?r ` set (ch b)"
      then obtain x where x: "x \<in> set (ch b)" "y = ?r x" by blast
      with mem [OF b, of x] have "x < length (entries m)" "x \<noteq> i" by simp_all
      with x key [of x] mem [OF b, of x] i False show "y \<in> ?rhs" by (auto simp: f(1) split: if_splits)
    next
      fix y assume y: "y \<in> ?rhs"
      define x where "x = (if y = i then ?L else y)"
      with y i False have x: "x < length (entries m)" "x \<noteq> i" "?r x = y" by (auto simp: f(1))
      with y key [of x] mem [OF b, of x] have "x \<in> set (ch b)" by simp
      with x(3) show "y \<in> ?r ` set (ch b)" by blast
    qed
    then show "set (map ?r (ch b)) = {x \<in> {..<length (entries ?m)}.
        x < length (entries ?m) \<and> slot (length (buckets ?m)) (ekey (entries ?m ! x)) = b}"
      by (simp add: f)
  qed
  then show ?thesis by blast
qed

lemma mset_remove_entry:
  assumes "i < length (entries m)"
  shows "mset (assoc (entries m)) = add_mset (assoc (entries m) ! i) (mset (assoc (entries (remove_entry m i))))"
proof (cases "i = length (entries m) - 1")
  case True
  from assms have "assoc (entries m) \<noteq> []" by (auto simp: assoc_def)
  then have "assoc (entries m) = butlast (assoc (entries m)) @ [last (assoc (entries m))]" by simp
  moreover have "last (assoc (entries m)) = assoc (entries m) ! i"
    using \<open>assoc (entries m) \<noteq> []\<close> True by (simp add: last_conv_nth)
  moreover have "assoc (entries (remove_entry m i)) = butlast (assoc (entries m))"
    using True by (simp add: remove_entry_def Let_def assoc_def map_butlast)
  ultimately show ?thesis by (metis add_mset_add_single mset.simps mset_append)
next
  case False
  let ?A = "assoc (entries m)"
  from assms False have "Suc i < length ?A" by simp
  moreover have "assoc (entries (remove_entry m i)) = butlast (?A[i := ?A ! (length ?A - 1)])"
    using False assms
    by (simp add: remove_entry_def Let_def assoc_def map_butlast o_def map_update)
  ultimately show ?thesis by (metis mset_swap_remove)
qed

lemma sm_map_mem:
  assumes "distinct (live_keys (entries m))" "k \<noteq> []"
  shows "sm_map m k = Some v \<longleftrightarrow> (k, v) \<in> set (assoc (entries m))"
proof
  assume "sm_map m k = Some v"
  with assms(2) show "(k, v) \<in> set (assoc (entries m))" by (simp add: sm_map_assoc map_of_SomeD)
next
  assume "(k, v) \<in> set (assoc (entries m))"
  then obtain i where "i < length (entries m)" "k = ekey (entries m ! i)" "v = evalue (entries m ! i)"
    by (auto simp: assoc_def in_set_conv_nth)
  with assms show "sm_map m k = Some v" by (simp add: sm_map_nth)
qed

lemma remove_entry_spec:
  assumes wf: "16 \<le> length (buckets m)" "length (buckets m) < 2 ^ 31"
      "length (entries m) * 4 < length (buckets m) * 3" "distinct (live_keys (entries m))"
    and l: "linked (entries m) (buckets m) ({..<length (entries m)} - {i}) ch"
    and i: "i < length (entries m)" "ekey (entries m ! i) = k" "k \<noteq> []"
  shows "sm_wf (remove_entry m i) \<and> sm_map (remove_entry m i) = (sm_map m)(k := None)"
proof -
  let ?m = "remove_entry m i"
  from wf have small: "length (entries m) < 2 ^ 31" by simp
  note f = remove_entry_fields [OF i(1) small]
  have head: "assoc (entries m) ! i = (k, evalue (entries m ! i))" using i by (simp add: assoc_def)
  note ms = mset_remove_entry [OF i(1), unfolded head]
  have "mset (live_keys (entries m)) = add_mset k (mset (live_keys (entries ?m)))"
    using arg_cong [OF ms, of "\<lambda>M. filter_mset (\<lambda>k. k \<noteq> []) (image_mset fst M)"] i(3)
    by (simp add: live_keys_assoc mset_filter)
  then have "mset (live_keys (entries m)) = mset (k # live_keys (entries ?m))" by simp
  with wf(4) have dist: "distinct (live_keys (entries ?m))" "k \<notin> set (live_keys (entries ?m))"
    by (metis distinct.simps(2) mset_eq_imp_distinct_iff)+
  have set: "set (assoc (entries m)) = insert (k, evalue (entries m ! i)) (set (assoc (entries ?m)))"
    using arg_cong [OF ms, of set_mset] by simp
  have notin: "(k, v) \<notin> set (assoc (entries ?m))" for v
    using dist(2) i(3) by (force simp: live_keys_assoc)
  have "sm_map ?m x = ((sm_map m)(k := None)) x" for x
  proof (cases "x = [] \<or> x = k")
    case True
    have "sm_map ?m k = None" using notin sm_map_mem [OF dist(1) i(3)] by (metis not_None_eq)
    with True i(3) show ?thesis by (auto simp: sm_map_def)
  next
    case False
    then have "sm_map ?m x = Some v \<longleftrightarrow> sm_map m x = Some v" for v
      using sm_map_mem [OF dist(1)] sm_map_mem [OF wf(4)] set by auto
    then have "sm_map ?m x = sm_map m x" by (metis not_None_eq)
    with False show ?thesis by simp
  qed
  moreover have "sm_wf ?m"
    using wf dist linked_remove_entry [OF l i(1) small] f(1,2) i(1) by (simp add: sm_wf_def)
  ultimately show ?thesis by blast
qed

lemma erase_sequence_spec:
  assumes wf: "sm_wf m" and st: "erase_sequence m k = (erased, m')"
  shows "sm_wf m' \<and> sm_map m' = (sm_map m)(k := None) \<and> erased = (sm_map m k \<noteq> None)"
proof (cases "k = []")
  case True
  with wf st show ?thesis by (auto simp: erase_sequence_def sm_map_def)
next
  case False
  from wf obtain ch where l: "linked (entries m) (buckets m) {..<length (entries m)} ch"
    by (auto simp: sm_wf_def)
  let ?b = "slot (length (buckets m)) k"
  from wf have B: "0 < length (buckets m)" "length (buckets m) < 2 ^ 31" "buckets m \<noteq> []"
    by (auto simp: sm_wf_def)
  then have b: "?b < length (buckets m)" by simp
  with l have chain: "is_chain (entries m) (buckets m ! ?b) (ch ?b)" "distinct (ch ?b)"
    by (simp_all add: linked_def)
  have start: "is_chain (entries m) (read_link m (link_of ?b [])) (ch ?b)"
    using chain by (simp add: read_link_def link_of_def)
  have fuel: "length (ch ?b) < Suc (length (entries m))"
    using is_chain_length [OF chain] by simp
  have run: "erase_sequence m k = erase_walk (Suc (length (entries m))) m (link_of ?b []) k"
    using False B by (simp add: erase_sequence_def link_of_def del: erase_walk.simps)
  have mem: "x \<in> set (ch ?b)" if "x < length (entries m)" "ekey (entries m ! x) = k" for x
    using l b that by (simp add: linked_chain_mem)
  from erase_walk_chain [OF start fuel, of k] show ?thesis
  proof (elim disjE conjE exE)
    assume none: "\<forall>z \<in> set (ch ?b). ekey (entries m ! z) \<noteq> k"
      and out: "erase_walk (Suc (length (entries m))) m (link_of ?b []) k = (False, m)"
    have "sm_map m k = None" using none mem False by (auto simp: sm_map_None_iff)
    with out st run wf show ?thesis by (auto simp: fun_upd_idem)
  next
    fix us i vs
    assume ch: "ch ?b = us @ i # vs" and key: "ekey (entries m ! i) = k"
      and out: "erase_walk (Suc (length (entries m))) m (link_of ?b []) k =
        (True, remove_entry (write_link m (link_of ?b ([] @ us)) (enext (entries m ! i))) i)"
    define m1 where "m1 = write_link m (link_of ?b us) (enext (entries m ! i))"
    have i: "i < length (entries m)" using is_chain_bound [OF chain(1), of i] ch by simp
    from write_link_unlinks [OF l b ch m1_def]
    have u: "linked (entries m1) (buckets m1) ({..<length (entries m)} - {i}) (ch(?b := us @ vs))"
      "assoc (entries m1) = assoc (entries m)" "length (buckets m1) = length (buckets m)" by blast+
    then have len: "length (entries m1) = length (entries m)" by (metis length_assoc)
    have "ekey (entries m1 ! i) = fst (assoc (entries m1) ! i)" using i len by (simp add: assoc_def)
    also have "\<dots> = k" using u(2) i key by (simp add: assoc_def)
    finally have key1: "ekey (entries m1 ! i) = k" .
    have same: "sm_map m1 = sm_map m" "distinct (live_keys (entries m1))"
      using wf u(2) by (auto simp: sm_map_assoc live_keys_assoc sm_wf_def)
    have "sm_wf (remove_entry m1 i) \<and> sm_map (remove_entry m1 i) = (sm_map m1)(k := None)"
      using wf u len i key1 False same(2)
      by (intro remove_entry_spec [where ch = "ch(?b := us @ vs)"]) (auto simp: sm_wf_def)
    moreover have "sm_map m k \<noteq> None" using key i False by (auto simp: sm_map_None_iff)
    ultimately show ?thesis using st out run same by (simp add: m1_def)
  qed
qed

section \<open>The map contract\<close>

text \<open>
  What the scope stack of \<open>LocalNameTable\<close> and the path table rely on: an insert-if-absent finite
  map with erase. \<open>room\<close> is the capacity side condition of an insertion.
\<close>

locale keyed_map =
  fixes invar :: "'m \<Rightarrow> bool"
    and room :: "'m \<Rightarrow> bool"
    and valid :: "'k \<Rightarrow> bool"
    and empty :: 'm
    and abs :: "'m \<Rightarrow> ('k \<rightharpoonup> 'v)"
    and find :: "'m \<Rightarrow> 'k \<Rightarrow> ('k \<times> 'v) option"
    and insert :: "'m \<Rightarrow> 'k \<Rightarrow> 'v \<Rightarrow> bool \<times> 'm"
    and erase :: "'m \<Rightarrow> 'k \<Rightarrow> bool \<times> 'm"
  assumes invar_empty: "invar empty"
    and abs_empty: "abs empty = Map.empty"
    and abs_invalid: "\<not> valid k \<Longrightarrow> abs m k = None"
    and find_abs: "invar m \<Longrightarrow> find m k = map_option (\<lambda>v. (k, v)) (abs m k)"
    and insert_abs: "invar m \<Longrightarrow> room m \<Longrightarrow> valid k \<Longrightarrow> insert m k v = (b, m') \<Longrightarrow>
          invar m' \<and> b = (abs m k = None) \<and>
          abs m' = (if abs m k = None then (abs m)(k \<mapsto> v) else abs m)"
    and erase_abs: "invar m \<Longrightarrow> erase m k = (b, m') \<Longrightarrow>
          invar m' \<and> b = (abs m k \<noteq> None) \<and> abs m' = (abs m)(k := None)"
begin

lemma find_inserted:
  assumes "invar m" "room m" "valid k" "insert m k v = (b, m')"
  shows "find m' k = Some (k, if b then v else the (abs m k))"
  using insert_abs [OF assms] by (auto simp: find_abs)

lemma find_other:
  assumes "invar m" "room m" "valid k" "insert m k v = (b, m')" "k' \<noteq> k"
  shows "find m' k' = find m k'"
  using insert_abs [OF assms(1-4)] assms(1,5) by (auto simp: find_abs)

lemma erase_inserted:
  assumes "invar m" "room m" "valid k" "abs m k = None" "insert m k v = (b, m')" "erase m' k = (c, m'')"
  shows "c \<and> abs m'' = abs m"
  using insert_abs [OF assms(1-3,5)] erase_abs [OF _ assms(6)] assms(4)
  by (auto simp: fun_upd_idem)

end

definition sm_room :: "'v sequence_map \<Rightarrow> bool" where
  "sm_room m \<longleftrightarrow> length (buckets m) * 2 < 2 ^ 31"

definition insert_flag :: "'v sequence_map \<Rightarrow> u32 list \<Rightarrow> 'v \<Rightarrow> bool \<times> 'v sequence_map" where
  "insert_flag m k v = (case sm_insert m k v of ((_, inserted), m') \<Rightarrow> (inserted, m'))"

lemma sm_map_find_index:
  assumes "sm_wf m" "k \<noteq> []"
  shows "sm_map m k = None \<longleftrightarrow> find_index m k = None"
  using find_index_None [OF assms(1) _ assms(2)] find_index_Some [OF assms(1), of k] assms(2)
  by (cases "find_index m k") (auto simp: sm_map_None_iff)

lemma insert_flag_spec:
  assumes "sm_wf m" "sm_room m" "k \<noteq> []" "insert_flag m k v = (b, m')"
  shows "sm_wf m' \<and> b = (sm_map m k = None) \<and>
    sm_map m' = (if sm_map m k = None then (sm_map m)(k \<mapsto> v) else sm_map m)"
proof (cases "find_index m k")
  case None
  obtain i where st: "sm_insert m k v = ((i, b), m')"
    using assms(4) by (auto simp: insert_flag_def split: prod.splits)
  note fresh = sm_insert_fresh [OF assms(1) assms(2) [unfolded sm_room_def] None st]
  from None assms have "sm_map m k = None" by (simp add: sm_map_find_index)
  with fresh sm_map_snoc [of m' m k v] assms(3) show ?thesis by simp
next
  case (Some i)
  then have "b = False" "m' = m" using assms(4) by (auto simp: insert_flag_def sm_insert_def)
  with Some assms show ?thesis by (simp add: sm_map_find_index)
qed

interpretation seq_map: keyed_map sm_wf sm_room "\<lambda>k. k \<noteq> []" sm_empty sm_map find_sequence
  insert_flag erase_sequence
proof (unfold_locales, goal_cases)
  case (3 k m) then show ?case by (simp add: sm_map_def)
next
  case (4 m k) then show ?case by (simp add: find_sequence_sm_map)
next
  case (5 m k v b m') then show ?case by (rule insert_flag_spec)
next
  case (6 m k b m') then show ?case using erase_sequence_spec by blast
qed simp_all

section \<open>Properties\<close>

text \<open>
  C17: lookup in the chained hash map returns exactly the abstract map's answer, for every key and
  whatever the collisions: the stored key and value when present, nothing when absent (the empty
  sequence is never present).
\<close>

theorem sequence_map_find_refines:
  assumes "sm_wf m"
  shows "find_sequence m k = map_option (\<lambda>v. (k, v)) (sm_map m k)"
  using assms by (rule seq_map.find_abs)

theorem sequence_map_find_refines_witness:
  "find_sequence (sm_empty :: nat sequence_map) [5] = None"
  using sequence_map_find_refines [OF sm_wf_empty, of "[5]"] by simp



text \<open>
  C19: erase with its swap-with-last compaction and re-linking removes exactly the requested key:
  the invariant is kept, the result says whether the key was there, and every other binding
  (including the one of the entry that was moved) is unchanged.
\<close>

theorem sequence_map_erase_refines:
  assumes "sm_wf m" "erase_sequence m k = (erased, m')"
  shows "sm_wf m' \<and> erased = (sm_map m k \<noteq> None) \<and> sm_map m' = (sm_map m)(k := None)"
  using assms by (rule seq_map.erase_abs)

theorem sequence_map_erase_refines_witness:
  "sm_map (snd (erase_sequence (snd (sm_insert sm_empty [3, 4] (9 :: nat))) [3, 4])) [3, 4] = None"
proof -
  obtain b m1 where st: "insert_flag sm_empty [3, 4] (9 :: nat) = (b, m1)" by fastforce
  have wf: "sm_wf m1" using seq_map.insert_abs [OF _ _ _ st] by (simp add: sm_room_def)
  have "m1 = snd (sm_insert sm_empty [3, 4] 9)" using st by (auto simp: insert_flag_def split: prod.splits)
  moreover obtain c m2 where "erase_sequence m1 [3, 4] = (c, m2)" by fastforce
  ultimately show ?thesis using sequence_map_erase_refines [OF wf] by simp
qed

text \<open>
  An insertion under the empty key is never de-duplicated: it always reports success and
  appends an entry that no lookup can see, so repeating it only grows the entry vector. (The
  lookup functions refuse a zero-length key, the insertion does not.)
\<close>

theorem sequence_map_insert_empty_key:
  assumes "sm_wf m" "length (buckets m) * 2 < 2 ^ 31" "sm_insert m [] v = ((i, inserted), m')"
  shows "sm_wf m' \<and> inserted \<and> length (entries m') = Suc (length (entries m)) \<and>
    sm_map m' = sm_map m \<and> find_sequence m' [] = None"
proof -
  have none: "find_index m [] = None" by (simp add: find_index_def)
  note fresh = sm_insert_fresh [OF assms(1,2) none assms(3)]
  then have "length (entries m') = Suc (length (entries m))"
    by (metis length_append_singleton length_assoc)
  moreover have "sm_map m' = sm_map m" using fresh sm_map_snoc [of m' m "[]" v] by (simp add: sm_map_def)
  ultimately show ?thesis using fresh by (simp add: find_sequence_def find_index_def)
qed

theorem sequence_map_insert_empty_key_witness:
  "length (entries (snd (sm_insert sm_empty [] (9 :: nat)))) = 1"
proof -
  obtain i b m' where st: "sm_insert sm_empty [] (9 :: nat) = ((i, b), m')" by (metis prod.collapse)
  from sequence_map_insert_empty_key [OF sm_wf_empty _ st] show ?thesis by (simp add: st)
qed

end
