(* ===== verification/Local_Name_Table.thy ===== *)
theory Local_Name_Table
  imports Sequence_Map
begin

text \<open>
  The scope stack of \<open>src/shared/local_name_table.hpp\<close>: a vector of \<open>SequenceMap\<close>s, the last one
  the innermost scope. A view of a binding is modelled as the key and value it points at.
\<close>

type_synonym 'v local_name_table = "'v sequence_map list"

section \<open>Key fragments\<close>

definition append_local_name_fragment :: "u32 list \<Rightarrow> u32 \<Rightarrow> u32 list" where
  "append_local_name_fragment prefix segment = prefix @ (if segment \<noteq> 0 then [segment] else [])"

definition rebase_local_name_fragment :: "u32 list \<Rightarrow> u32 list \<Rightarrow> u32 list" where
  "rebase_local_name_fragment prefix suffix = prefix @ suffix"

section \<open>Scopes\<close>

definition push_scope :: "'v local_name_table \<Rightarrow> 'v local_name_table" where
  "push_scope scopes = scopes @ [sm_empty]"

definition pop_scope :: "'v local_name_table \<Rightarrow> bool \<times> 'v local_name_table" where
  "pop_scope scopes = (if scopes = [] then (False, scopes) else (True, butlast scopes))"

definition scope_depth :: "'v local_name_table \<Rightarrow> nat" where
  "scope_depth scopes = length scopes"

text \<open>\<open>current_scope\<close> pushes a first scope when there is none.\<close>

definition with_current_scope :: "'v local_name_table \<Rightarrow> 'v local_name_table" where
  "with_current_scope scopes = (if scopes = [] then push_scope scopes else scopes)"

definition bind_in_current_scope ::
  "'v local_name_table \<Rightarrow> u32 list \<Rightarrow> 'v \<Rightarrow> bool \<times> 'v local_name_table" where
  "bind_in_current_scope scopes key value =
     (let ss = with_current_scope scopes;
          (inserted, top) = insert_flag (last ss) key value
      in (inserted, butlast ss @ [top]))"

definition erase_in_current_scope ::
  "'v local_name_table \<Rightarrow> u32 list \<Rightarrow> bool \<times> 'v local_name_table" where
  "erase_in_current_scope scopes key =
     (if scopes = [] then (False, scopes)
      else let (erased, top) = erase_sequence (last scopes) key
           in (erased, butlast scopes @ [top]))"

definition probe_current_scope :: "'v local_name_table \<Rightarrow> u32 list \<Rightarrow> (u32 list \<times> 'v) option" where
  "probe_current_scope scopes key = (if scopes = [] then None else find_sequence (last scopes) key)"

definition contains_in_current_scope :: "'v local_name_table \<Rightarrow> u32 list \<Rightarrow> bool" where
  "contains_in_current_scope scopes key = (probe_current_scope scopes key \<noteq> None)"

text \<open>The loop from \<open>rbegin\<close> to \<open>rend\<close>: the innermost scope that binds the key wins.\<close>

fun find_from_innermost :: "'v sequence_map list \<Rightarrow> u32 list \<Rightarrow> (u32 list \<times> 'v) option" where
  "find_from_innermost [] key = None"
| "find_from_innermost (scope # outer) key =
     (case find_sequence scope key of Some found \<Rightarrow> Some found | None \<Rightarrow> find_from_innermost outer key)"

definition find_nearest_visible :: "'v local_name_table \<Rightarrow> u32 list \<Rightarrow> (u32 list \<times> 'v) option" where
  "find_nearest_visible scopes key = find_from_innermost (rev scopes) key"

definition contains_visible :: "'v local_name_table \<Rightarrow> u32 list \<Rightarrow> bool" where
  "contains_visible scopes key = (find_nearest_visible scopes key \<noteq> None)"

fun scope_index_below :: "'v local_name_table \<Rightarrow> u32 list \<Rightarrow> nat \<Rightarrow> nat" where
  "scope_index_below scopes key 0 = length scopes"
| "scope_index_below scopes key (Suc i) =
     (if find_sequence (scopes ! i) key \<noteq> None then i else scope_index_below scopes key i)"

definition find_nearest_visible_scope_index :: "'v local_name_table \<Rightarrow> u32 list \<Rightarrow> nat" where
  "find_nearest_visible_scope_index scopes key = scope_index_below scopes key (length scopes)"

section \<open>Specification: nested environments\<close>

text \<open>A scope stack is one map in which inner bindings override outer ones.\<close>

definition visible :: "'v local_name_table \<Rightarrow> (u32 list \<rightharpoonup> 'v)" where
  "visible scopes = foldl (\<lambda>env scope. env ++ sm_map scope) Map.empty scopes"

definition lnt_wf :: "'v local_name_table \<Rightarrow> bool" where
  "lnt_wf scopes \<longleftrightarrow> (\<forall>scope \<in> set scopes. sm_wf scope)"

lemma visible_snoc [simp]: "visible (scopes @ [scope]) = visible scopes ++ sm_map scope"
  by (simp add: visible_def)

lemma visible_Nil [simp]: "visible [] = Map.empty"
  by (simp add: visible_def)

lemma find_from_innermost_visible:
  assumes "lnt_wf scopes"
  shows "find_from_innermost (rev scopes) key = map_option (\<lambda>v. (key, v)) (visible scopes key)"
  using assms
proof (induction scopes rule: rev_induct)
  case (snoc scope scopes)
  then show ?case
    by (cases "sm_map scope key") (simp_all add: lnt_wf_def seq_map.find_abs map_add_def)
qed simp

lemma bind_in_current_scope_spec:
  assumes "lnt_wf scopes" "key \<noteq> []" "scopes \<noteq> [] \<longrightarrow> sm_room (last scopes)"
    and "bind_in_current_scope scopes key value = (inserted, scopes')"
  obtains top where "scopes' = butlast (with_current_scope scopes) @ [top]" "lnt_wf scopes'"
    "inserted = (sm_map (last (with_current_scope scopes)) key = None)"
    "sm_map top = (if inserted then (sm_map (last (with_current_scope scopes)))(key \<mapsto> value)
                   else sm_map (last (with_current_scope scopes)))"
proof -
  let ?ss = "with_current_scope scopes"
  have ss: "?ss \<noteq> []" "lnt_wf ?ss" "sm_room (last ?ss)"
    using assms(1,3) by (auto simp: with_current_scope_def push_scope_def lnt_wf_def sm_room_def)
  obtain b top where ins: "insert_flag (last ?ss) key value = (b, top)" by fastforce
  have "sm_wf (last ?ss)" using ss by (simp add: lnt_wf_def)
  from seq_map.insert_abs [OF this ss(3) assms(2) ins] assms(4) ins ss that show thesis
    by (auto simp: bind_in_current_scope_def Let_def lnt_wf_def dest: in_set_butlastD)
qed

section \<open>Properties\<close>

text \<open>
  C39: the visible-name lookup of the scope stack is lookup in the nested environment: the
  innermost scope that binds the key supplies the value, and the scope-index variant returns the
  index of exactly that scope (the number of scopes when nothing is visible).
\<close>

theorem find_nearest_visible_innermost:
  assumes "lnt_wf scopes"
  shows "find_nearest_visible scopes key = map_option (\<lambda>v. (key, v)) (visible scopes key) \<and>
    (let i = find_nearest_visible_scope_index scopes key in
       if visible scopes key = None then i = length scopes
       else i < length scopes \<and> sm_map (scopes ! i) key = visible scopes key \<and>
            (\<forall>j. i < j \<and> j < length scopes \<longrightarrow> sm_map (scopes ! j) key = None))"
proof -
  have hit: "find_sequence (scopes ! i) key \<noteq> None \<longleftrightarrow> sm_map (scopes ! i) key \<noteq> None" if "i < length scopes" for i
    using assms that by (simp add: lnt_wf_def seq_map.find_abs)
  have "if visible (take n scopes) key = None then scope_index_below scopes key n = length scopes
     else scope_index_below scopes key n < n \<and>
       sm_map (scopes ! scope_index_below scopes key n) key = visible (take n scopes) key \<and>
       (\<forall>j. scope_index_below scopes key n < j \<and> j < n \<longrightarrow> sm_map (scopes ! j) key = None)"
    if "n \<le> length scopes" for n
    using that
  proof (induction n)
    case (Suc n)
    then have "take (Suc n) scopes = take n scopes @ [scopes ! n]" by (simp add: take_Suc_conv_app_nth)
    with Suc hit [of n] show ?case
      by (cases "sm_map (scopes ! n) key") (auto simp: map_add_def less_Suc_eq)
  qed simp
  from this [of "length scopes"] find_from_innermost_visible [OF assms, of key] show ?thesis
    by (simp add: find_nearest_visible_def find_nearest_visible_scope_index_def Let_def)
qed

theorem find_nearest_visible_innermost_witness:
  "find_nearest_visible [sm_empty, sm_empty :: nat sequence_map] [1] = None"
  using find_nearest_visible_innermost [of "[sm_empty, sm_empty :: nat sequence_map]" "[1]"]
  by (simp add: lnt_wf_def visible_def)

text \<open>
  Lexical scoping: entering a scope, binding a name in it (shadowing any outer binding) and
  leaving it restores the environment exactly; inside the scope the new binding is the visible one
  and all other names are as before.
\<close>

theorem scoped_bind_shadows_and_restores:
  assumes "lnt_wf scopes" "key \<noteq> []"
    and "bind_in_current_scope (push_scope scopes) key value = (inserted, inner)"
  shows "inserted \<and> find_nearest_visible inner key = Some (key, value) \<and>
    (\<forall>other. other \<noteq> key \<longrightarrow> find_nearest_visible inner other = find_nearest_visible scopes other) \<and>
    pop_scope inner = (True, scopes)"
proof -
  let ?ss = "push_scope scopes"
  have "lnt_wf ?ss" "?ss \<noteq> []" using assms(1) by (auto simp: push_scope_def lnt_wf_def)
  then have cur: "with_current_scope ?ss = ?ss" "last ?ss = sm_empty" "butlast ?ss = scopes"
    by (simp_all add: with_current_scope_def push_scope_def)
  have "?ss \<noteq> [] \<longrightarrow> sm_room (last ?ss)" by (simp add: cur sm_room_def)
  from bind_in_current_scope_spec [OF \<open>lnt_wf ?ss\<close> assms(2) this assms(3)]
  obtain top where top: "inner = scopes @ [top]" "lnt_wf inner" inserted
    "sm_map top = [key \<mapsto> value]"
    by (auto simp: cur)
  then show ?thesis
    using find_from_innermost_visible [OF top(2)] find_from_innermost_visible [OF assms(1)]
    by (auto simp: find_nearest_visible_def pop_scope_def map_add_def simp del: rev_append)
qed

theorem scoped_bind_shadows_and_restores_witness:
  "find_nearest_visible (snd (bind_in_current_scope (push_scope []) [7] (5 :: nat))) [7] = Some ([7], 5)"
proof -
  obtain b inner where st: "bind_in_current_scope (push_scope []) [7] (5 :: nat) = (b, inner)" by fastforce
  have "lnt_wf ([] :: nat local_name_table)" by (simp add: lnt_wf_def)
  from scoped_bind_shadows_and_restores [OF this _ st] show ?thesis by (simp add: st)
qed

end
