(* ===== verification/Qualified_Name_Table.thy ===== *)
theory Qualified_Name_Table
  imports Text_Id_Table Local_Name_Table
begin

text \<open>
  \<open>src/shared/qualified_name_table.hpp\<close>: interned qualifier paths (\<open>NamePathTable\<close>), the rendering
  of qualified names, the splitting of a rendered spelling at its last \<open>::\<close>, and the payload table
  keyed by structured names. Paths are sequences of text ids stored in a \<open>SequenceMap\<close>.
\<close>

section \<open>NamePathTable\<close>

record name_path_table =
  path_map :: "u32 sequence_map"
  keys_by_id :: "u32 list list"

definition npt_empty :: name_path_table where
  "npt_empty = \<lparr>path_map = sm_empty, keys_by_id = []\<rparr>"

definition npt_find :: "name_path_table \<Rightarrow> u32 list \<Rightarrow> u32" where
  "npt_find t segments =
     (case find_sequence (path_map t) segments of Some (_, found) \<Rightarrow> found | None \<Rightarrow> 0)"

definition npt_intern :: "name_path_table \<Rightarrow> u32 list \<Rightarrow> u32 \<times> name_path_table" where
  "npt_intern t segments =
     (if segments = [] then (0, t)
      else case find_sequence (path_map t) segments of
        Some (_, found) \<Rightarrow> (found, t)
      | None \<Rightarrow>
          let i = to_u32 (length (keys_by_id t) + 1);
              (inserted, m) = insert_flag (path_map t) segments i
          in (i, t\<lparr>path_map := m,
                   keys_by_id := (if inserted then keys_by_id t @ [segments] else keys_by_id t)\<rparr>))"

definition npt_lookup :: "name_path_table \<Rightarrow> u32 \<Rightarrow> u32 list" where
  "npt_lookup t i =
     (if i = 0 \<or> length (keys_by_id t) < unat i then [] else keys_by_id t ! (unat i - 1))"

definition npt_append :: "name_path_table \<Rightarrow> u32 \<Rightarrow> u32 \<Rightarrow> u32 \<times> name_path_table" where
  "npt_append t prefix_id segment =
     (if segment = 0 then (prefix_id, t)
      else if prefix_id = 0 then npt_intern t [segment]
      else npt_intern t (npt_lookup t prefix_id @ [segment]))"

text \<open>Rendering joins the segment spellings with \<open>::\<close>; a segment without text prints as \<open><?>\<close>.\<close>

definition segment_text :: "string_id_table \<Rightarrow> u32 \<Rightarrow> string" where
  "segment_text texts i = (if sit_lookup texts i \<noteq> [] then sit_lookup texts i else ''<?>'')"

fun render_segments :: "string_id_table \<Rightarrow> u32 list \<Rightarrow> string" where
  "render_segments texts [] = []"
| "render_segments texts [s] = segment_text texts s"
| "render_segments texts (s # ss) = segment_text texts s @ ''::'' @ render_segments texts ss"

definition npt_render :: "name_path_table \<Rightarrow> u32 \<Rightarrow> string_id_table \<Rightarrow> string" where
  "npt_render t i texts = render_segments texts (npt_lookup t i)"

definition npt_size :: "name_path_table \<Rightarrow> nat" where
  "npt_size t = length (keys_by_id t)"

text \<open>
  The path map never erases, so its bucket array stays within 8/3 of its entries; up to
  \<open>path_cap\<close> paths every 32-bit cast in it is exact.
\<close>

definition path_cap :: nat where
  "path_cap = 402653184"

definition npt_wf :: "name_path_table \<Rightarrow> bool" where
  "npt_wf t \<longleftrightarrow> sm_wf (path_map t) \<and> length (keys_by_id t) < path_cap \<and>
     length (entries (path_map t)) = length (keys_by_id t) \<and>
     (length (buckets (path_map t)) \<le> 16 \<or>
      length (buckets (path_map t)) * 3 \<le> length (entries (path_map t)) * 8) \<and>
     distinct (keys_by_id t) \<and> [] \<notin> set (keys_by_id t) \<and>
     dom (sm_map (path_map t)) = set (keys_by_id t) \<and>
     (\<forall>n < length (keys_by_id t). sm_map (path_map t) (keys_by_id t ! n) = Some (to_u32 (Suc n)))"

lemma npt_wf_empty [simp]: "npt_wf npt_empty"
  by (simp add: npt_wf_def npt_empty_def path_cap_def)

lemma npt_wf_room: "npt_wf t \<Longrightarrow> sm_room (path_map t)"
  by (auto simp: npt_wf_def sm_room_def path_cap_def)

lemma insert_flag_growth:
  assumes "sm_wf m" "sm_room m" "sm_map m k = None" "k \<noteq> []" "insert_flag m k v = (b, m')"
  shows "length (entries m') = Suc (length (entries m)) \<and>
    (length (buckets m') = length (buckets m) \<or>
     length (buckets m') = 2 * length (buckets m) \<and> length (buckets m') * 3 \<le> length (entries m') * 8)"
proof -
  from assms have none: "find_index m k = None" by (simp add: sm_map_find_index)
  obtain i where st: "sm_insert m k v = ((i, b), m')"
    using assms(5) by (auto simp: insert_flag_def split: prod.splits)
  from assms(2) have room: "length (buckets m) * 2 < 2 ^ 31" by (simp add: sm_room_def)
  note fresh = sm_insert_fresh [OF assms(1) room none st]
  then have n: "length (entries m') = Suc (length (entries m))"
    by (metis length_append_singleton length_assoc)
  have "length (buckets m') = length (buckets (ensure_capacity_for_insert m))"
    using st none by (auto simp: sm_insert_def Let_def)
  moreover from assms(1) have "length (entries m) < 2 ^ 31" "buckets m \<noteq> []" "16 \<le> length (buckets m)"
    by (auto simp: sm_wf_def)
  moreover from this have "length (buckets (ensure_capacity_for_insert m)) =
      (if length (buckets m) * 3 \<le> (length (entries m) + 1) * 4 then length (buckets m) * 2 else length (buckets m))"
    using rehash_spec [OF room, of m] by (simp add: ensure_capacity_for_insert_def)
  ultimately show ?thesis using n by (auto split: if_splits)
qed

lemma npt_find_spec:
  assumes "npt_wf t"
  shows "npt_find t k = (case sm_map (path_map t) k of None \<Rightarrow> 0 | Some i \<Rightarrow> i)"
  using assms by (simp add: npt_find_def npt_wf_def seq_map.find_abs split: option.split)

lemma npt_intern_fresh:
  assumes wf: "npt_wf t" and "k \<noteq> []" "k \<notin> set (keys_by_id t)"
    and room: "Suc (length (keys_by_id t)) < path_cap" and st: "npt_intern t k = (i, t')"
  shows "i = to_u32 (Suc (length (keys_by_id t))) \<and> keys_by_id t' = keys_by_id t @ [k] \<and> npt_wf t'"
proof -
  let ?i = "to_u32 (Suc (length (keys_by_id t)))"
  from wf assms(3) have none: "sm_map (path_map t) k = None" by (auto simp: npt_wf_def)
  from wf have smwf: "sm_wf (path_map t)" and smroom: "sm_room (path_map t)"
    by (simp add: npt_wf_def, rule npt_wf_room)
  obtain b m where ins: "insert_flag (path_map t) k ?i = (b, m)" by fastforce
  from seq_map.insert_abs [OF smwf smroom assms(2) ins] none
  have m: "sm_wf m" b "sm_map m = (sm_map (path_map t))(k \<mapsto> ?i)" by auto
  have "find_sequence (path_map t) k = None" using smwf none by (simp add: seq_map.find_abs)
  with st ins m(2) assms(2) have i: "i = ?i"
    and t': "t' = t\<lparr>path_map := m, keys_by_id := keys_by_id t @ [k]\<rparr>"
    by (auto simp: npt_intern_def Let_def)
  have ne: "keys_by_id t ! n \<noteq> k" if "n < length (keys_by_id t)" for n
    using assms(3) that by (metis nth_mem)
  have "npt_wf t'"
    using wf m assms(2,3) room insert_flag_growth [OF smwf smroom none assms(2) ins] ne
    by (auto simp: npt_wf_def t' nth_append less_Suc_eq)
  with i t' show ?thesis by simp
qed

definition npt_get :: "name_path_table \<Rightarrow> u32 \<Rightarrow> u32 list option" where
  "npt_get t i = (if npt_lookup t i = [] then None else Some (npt_lookup t i))"

interpretation path_table: interner path_cap npt_wf keys_by_id "\<lambda>k. k \<noteq> []"
  npt_find npt_intern npt_get
proof (unfold_locales, goal_cases)
  case 1 show ?case by (simp add: path_cap_def)
next
  case (5 t n) then show ?case by (simp add: npt_find_spec) (simp add: npt_wf_def)
next
  case (6 t k)
  then have "sm_map (path_map t) k = None" by (auto simp: npt_wf_def)
  with 6 show ?case by (simp add: npt_find_spec)
next
  case (7 t i)
  have "keys_by_id t ! (unat i - 1) \<noteq> []" if "i \<noteq> 0" "\<not> length (keys_by_id t) < unat i"
    using 7 nth_mem [OF unat_pred_less [OF that]] by (auto simp: npt_wf_def)
  then show ?case by (auto simp: npt_get_def npt_lookup_def)
next
  case (8 t k)
  then obtain j where "sm_map (path_map t) k = Some j" "k \<noteq> []" by (auto simp: npt_wf_def)
  with 8 show ?case by (simp add: npt_intern_def npt_find_def npt_wf_def seq_map.find_abs)
next
  case (10 t k i t') then show ?case by (rule npt_intern_fresh)
qed (auto simp: npt_wf_def npt_intern_def)

section \<open>Structured keys and their payload table\<close>

record qualified_name_key =
  context_id :: int
  is_global_qualified :: bool
  qualifier_path_id :: u32
  base_text_id :: u32

definition qualified_name_key_hash :: "qualified_name_key \<Rightarrow> u64" where
  "qualified_name_key_hash key =
     hash_id_words kIdHashSeed
       [ucast (of_int (context_id key) :: u32), ucast (qualifier_path_id key),
        ucast (base_text_id key), (if is_global_qualified key then 1 else 0)]"

type_synonym 'p qualified_lookup_table = "qualified_name_key \<rightharpoonup> 'p"

definition qlt_contains :: "'p qualified_lookup_table \<Rightarrow> qualified_name_key \<Rightarrow> bool" where
  "qlt_contains values key = (values key \<noteq> None)"

definition qlt_insert_or_assign ::
  "'p qualified_lookup_table \<Rightarrow> qualified_name_key \<Rightarrow> 'p \<Rightarrow> 'p qualified_lookup_table" where
  "qlt_insert_or_assign values key payload = values(key \<mapsto> payload)"

text \<open>
  \<open>try_emplace\<close>, then an overwrite when arguments were given and the key existed. \<open>args\<close> is the
  payload built from the arguments, \<open>None\<close> when there are none; \<open>dflt\<close> is \<open>Payload()\<close>.
\<close>

definition qlt_get_or_emplace ::
  "'p \<Rightarrow> 'p qualified_lookup_table \<Rightarrow> qualified_name_key \<Rightarrow> 'p option \<Rightarrow> 'p \<times> 'p qualified_lookup_table" where
  "qlt_get_or_emplace dflt values key args =
     (let payload = (case args of None \<Rightarrow> dflt | Some p \<Rightarrow> p) in
      case values key of
        None \<Rightarrow> (payload, values(key \<mapsto> payload))
      | Some old \<Rightarrow> (if args \<noteq> None then (payload, values(key \<mapsto> payload)) else (old, values)))"

section \<open>Rendering\<close>

text \<open>The common tail of the two id-based overloads, after the qualifiers have been rendered.\<close>

definition render_with_qualifiers :: "string \<Rightarrow> u32 \<Rightarrow> bool \<Rightarrow> string_id_table \<Rightarrow> string" where
  "render_with_qualifiers qualifiers base_id is_global texts =
     (let r0 = (if is_global then ''::'' else []);
          r1 = (if qualifiers \<noteq> []
                then r0 @ qualifiers @ (if base_id \<noteq> 0 then ''::'' else [])
                else r0);
          base = sit_lookup texts base_id
      in if base \<noteq> [] then r1 @ base
         else if base_id \<noteq> 0 then r1 @ ''<?>''
         else if r1 = [] then ''<?>''
         else r1)"

definition render_qualified_name_key ::
  "qualified_name_key \<Rightarrow> name_path_table \<Rightarrow> string_id_table \<Rightarrow> string" where
  "render_qualified_name_key key paths texts =
     render_with_qualifiers (npt_render paths (qualifier_path_id key) texts)
       (base_text_id key) (is_global_qualified key) texts"

definition render_qualified_name_ids ::
  "u32 \<Rightarrow> u32 list \<Rightarrow> bool \<Rightarrow> string_id_table \<Rightarrow> string" where
  "render_qualified_name_ids base_id qualifier_ids is_global texts =
     render_with_qualifiers (render_segments texts qualifier_ids) base_id is_global texts"

definition c_separator :: "string \<Rightarrow> string" where
  "c_separator rendered = (if rendered \<noteq> [] \<and> rendered \<noteq> ''::'' then ''::'' else [])"

fun append_c_segments :: "string \<Rightarrow> string option list \<Rightarrow> string" where
  "append_c_segments rendered [] = rendered"
| "append_c_segments rendered (segment # rest) =
     append_c_segments
       (rendered @ c_separator rendered @
        (case segment of Some (c # cs) \<Rightarrow> c # cs | _ \<Rightarrow> ''<?>'')) rest"

definition render_qualified_c_name :: "string option \<Rightarrow> string option list \<Rightarrow> bool \<Rightarrow> string" where
  "render_qualified_c_name base_name qualifier_segments is_global =
     (let rendered = append_c_segments (if is_global then ''::'' else []) qualifier_segments
      in case base_name of
           Some (c # cs) \<Rightarrow> rendered @ c_separator rendered @ c # cs
         | _ \<Rightarrow> (if rendered = [] then ''<?>''
                 else if rendered = ''::'' then rendered @ ''<?>'' else rendered))"

section \<open>Splitting a rendered name\<close>

text \<open>\<open>name.rfind("::")\<close>.\<close>

fun rfind_scope :: "string \<Rightarrow> nat option" where
  "rfind_scope [] = None"
| "rfind_scope (c # cs) =
     (case rfind_scope cs of
        Some i \<Rightarrow> Some (Suc i)
      | None \<Rightarrow> (if c = CHR '':'' \<and> take 1 cs = '':'' then Some 0 else None))"

record qualified_name_scope_info =
  has_scope_separator :: bool
  scope_is_global :: bool
  owner_text_id :: u32
  scope_base_text_id :: u32

definition has_qualified_name_scope :: "u32 \<Rightarrow> string_id_table \<Rightarrow> bool" where
  "has_qualified_name_scope name_id texts = (rfind_scope (sit_lookup texts name_id) \<noteq> None)"

definition split_qualified_name_scope ::
  "(string \<Rightarrow> u64) \<Rightarrow> u32 \<Rightarrow> string_id_table \<Rightarrow> qualified_name_scope_info \<times> string_id_table" where
  "split_qualified_name_scope hash name_id texts =
     (let name = sit_lookup texts name_id;
          none = \<lparr>has_scope_separator = False, scope_is_global = False,
                  owner_text_id = 0, scope_base_text_id = 0\<rparr>
      in if name = [] then (none, texts)
         else let info = none\<lparr>scope_is_global := (take 2 name = ''::'')\<rparr>
              in case rfind_scope name of
                   None \<Rightarrow> (info, texts)
                 | Some sep \<Rightarrow>
                     let (owner, texts1) =
                           (if 0 < sep then sit_intern hash texts (take sep name) else (0, texts));
                         (base, texts2) =
                           (if sep + 2 < length name then sit_intern hash texts1 (drop (sep + 2) name)
                            else (0, texts1))
                     in (info\<lparr>has_scope_separator := True, owner_text_id := owner,
                              scope_base_text_id := base\<rparr>, texts2))"

definition qualified_name_base_matches ::
  "(string \<Rightarrow> u64) \<Rightarrow> u32 \<Rightarrow> u32 \<Rightarrow> string_id_table \<Rightarrow> bool \<times> string_id_table" where
  "qualified_name_base_matches hash name_id expected texts =
     (if name_id = 0 \<or> expected = 0 then (False, texts)
      else if name_id = expected then (True, texts)
      else let (info, texts') = split_qualified_name_scope hash name_id texts
           in (scope_base_text_id info = expected, texts'))"

definition strip_text_id_suffix ::
  "(string \<Rightarrow> u64) \<Rightarrow> u32 \<Rightarrow> string \<Rightarrow> string_id_table \<Rightarrow> u32 \<times> string_id_table" where
  "strip_text_id_suffix hash text_id suffix texts =
     (if text_id = 0 \<or> suffix = [] then (0, texts)
      else let name = sit_lookup texts text_id
           in if length name \<le> length suffix \<or> drop (length name - length suffix) name \<noteq> suffix
              then (0, texts)
              else sit_intern hash texts (take (length name - length suffix) name))"

lemma rfind_scope_no_colon: "CHR '':'' \<notin> set base \<Longrightarrow> rfind_scope base = None"
  by (induction base) auto

lemma rfind_scope_last:
  assumes "CHR '':'' \<notin> set base"
  shows "rfind_scope (owner @ ''::'' @ base) = Some (length owner)"
proof (induction owner)
  case Nil
  have "take 1 base \<noteq> '':''" using assms by (cases base) auto
  then show ?case using rfind_scope_no_colon [OF assms] by simp
qed simp

text \<open>
  A rendered qualified name splits back at its last \<open>::\<close>: when the base spelling has no
  colon and the name has qualifiers, splitting the interned rendering returns a base id that spells
  the base and an owner id that spells the rendered qualifiers (with the leading \<open>::\<close> of a
  globally qualified name), and the global flag is the one that was rendered.
\<close>

theorem split_rendered_qualified_name:
  assumes wf: "sit_wf hash texts" and room: "sit_size texts + 2 < 2 ^ 32"
    and base: "sit_lookup texts base_id \<noteq> []" "CHR '':'' \<notin> set (sit_lookup texts base_id)"
    and quals: "quals \<noteq> []"
    and name: "sit_lookup texts name_id = render_qualified_name_ids base_id quals is_global texts"
    and first: "CHR '':'' \<notin> set (segment_text texts (hd quals))"
    and split: "split_qualified_name_scope hash name_id texts = (info, texts')"
  shows "has_scope_separator info \<and> scope_is_global info = is_global \<and>
    sit_lookup texts' (owner_text_id info) = (if is_global then ''::'' else []) @ render_segments texts quals \<and>
    sit_lookup texts' (scope_base_text_id info) = sit_lookup texts base_id"
proof -
  let ?base = "sit_lookup texts base_id"
  let ?owner = "(if is_global then ''::'' else []) @ render_segments texts quals"
  obtain q qs where q: "quals = q # qs" using quals by (cases quals) auto
  have seg: "segment_text texts s \<noteq> []" for s by (simp add: segment_text_def)
  have rseg: "render_segments texts quals \<noteq> []" "take 2 (render_segments texts quals) \<noteq> ''::''"
    using seg [of q] first q by (cases qs; cases "segment_text texts q"; auto simp: numeral_2_eq_2)+
  have "base_id \<noteq> 0" using base(1) by (auto simp: sit_lookup_def)
  then have full: "sit_lookup texts name_id = ?owner @ ''::'' @ ?base"
    using base(1) rseg by (simp add: name render_qualified_name_ids_def render_with_qualifiers_def)
  then have sep: "rfind_scope (sit_lookup texts name_id) = Some (length ?owner)"
    using rfind_scope_last [OF base(2), of ?owner] by simp
  obtain o1 t1 where o: "sit_intern hash texts ?owner = (o1, t1)" by fastforce
  obtain b2 t2 where b: "sit_intern hash t1 ?base = (b2, t2)" by fastforce
  have fo: "sit_wf hash t1" "o1 \<noteq> 0" "sit_lookup t1 o1 = ?owner" "sit_size t1 \<le> Suc (sit_size texts)"
    using sit_intern_facts [OF wf _ o] room rseg by auto
  have fb: "sit_lookup t2 b2 = ?base" "sit_lookup t2 o1 = ?owner"
    using sit_intern_facts [OF fo(1) _ b base(1)] sit_lookup_intern_stable [OF fo(1) _ b, of o1] fo room rseg
    by auto
  have glob: "(take 2 (?owner @ ''::'' @ ?base) = ''::'') = is_global"
    using rseg seg [of q] first q
    by (cases qs; cases "segment_text texts q") (auto simp: numeral_2_eq_2)
  have "info = \<lparr>has_scope_separator = True, scope_is_global = is_global,
          owner_text_id = o1, scope_base_text_id = b2\<rparr> \<and> texts' = t2"
    using split sep full glob o b base(1) rseg(1)
    by (simp add: split_qualified_name_scope_def Let_def)
  with fb show ?thesis by simp
qed

theorem split_rendered_qualified_name_witness:
  "\<exists>texts' (info :: qualified_name_scope_info). has_scope_separator info \<and> sit_lookup texts' (owner_text_id info) = ''a'' \<and>
     sit_lookup texts' (scope_base_text_id info) = ''b''"
proof -
  let ?h = "\<lambda>_ :: string. 7 :: u64"
  obtain a t1 where a: "sit_intern ?h sit_empty ''a'' = (a, t1)" by fastforce
  obtain b t2 where b: "sit_intern ?h t1 ''b'' = (b, t2)" by fastforce
  obtain n t3 where n: "sit_intern ?h t2 ''a::b'' = (n, t3)" by fastforce
  have f1: "sit_wf ?h t1" "sit_lookup t1 a = ''a''" "sit_size t1 \<le> 1"
    using sit_intern_facts [OF sit_wf_empty _ a] by (auto simp: sit_size_def sit_empty_def)
  have f2: "sit_wf ?h t2" "sit_lookup t2 b = ''b''" "sit_size t2 \<le> 2" "sit_lookup t2 a = ''a''"
    using sit_intern_facts [OF f1(1) _ b] sit_lookup_intern_stable [OF f1(1) _ b, of a] f1 by auto
  have f3: "sit_wf ?h t3" "sit_lookup t3 n = ''a::b''" "sit_size t3 \<le> 3"
    "sit_lookup t3 a = ''a''" "sit_lookup t3 b = ''b''"
    using sit_intern_facts [OF f2(1) _ n] sit_lookup_intern_stable [OF f2(1) _ n, of a]
      sit_lookup_intern_stable [OF f2(1) _ n, of b] f2 by auto
  have "b \<noteq> 0" using f3(5) by (auto simp: sit_lookup_def)
  then have name: "sit_lookup t3 n = render_qualified_name_ids b [a] False t3"
    by (simp add: render_qualified_name_ids_def render_with_qualifiers_def segment_text_def f3)
  obtain info t4 where sp: "split_qualified_name_scope ?h n t3 = (info, t4)" by fastforce
  have "has_scope_separator info \<and> scope_is_global info = False \<and>
      sit_lookup t4 (owner_text_id info) = (if False then ''::'' else []) @ render_segments t3 [a] \<and>
      sit_lookup t4 (scope_base_text_id info) = sit_lookup t3 b"
    using f3 by (intro split_rendered_qualified_name [OF f3(1) _ _ _ _ name _ sp])
      (auto simp: segment_text_def)
  then have "has_scope_separator info \<and> sit_lookup t4 (owner_text_id info) = ''a'' \<and>
      sit_lookup t4 (scope_base_text_id info) = ''b''"
    by (simp add: f3 segment_text_def)
  then show ?thesis by blast
qed

lemma render_segments_snoc:
  "ss \<noteq> [] \<Longrightarrow> render_segments texts (ss @ [s]) = render_segments texts ss @ ''::'' @ segment_text texts s"
  by (induction texts ss rule: render_segments.induct) auto

text \<open>
  Appending a segment to an interned path gives an id whose path is the old one plus the
  segment and whose rendering is the old rendering, \<open>::\<close> and the segment's spelling; ids of all
  earlier paths keep their meaning.
\<close>

theorem name_path_append_correct:
  assumes wf: "npt_wf t" and room: "Suc (npt_size t) < path_cap"
    and prefix: "npt_lookup t prefix_id \<noteq> []" and seg: "segment \<noteq> 0"
    and st: "npt_append t prefix_id segment = (i, t')"
  shows "npt_wf t' \<and> npt_lookup t' i = npt_lookup t prefix_id @ [segment] \<and>
    npt_render t' i texts = npt_render t prefix_id texts @ ''::'' @ segment_text texts segment \<and>
    (\<forall>j. npt_lookup t j \<noteq> [] \<longrightarrow> npt_lookup t' j = npt_lookup t j)"
proof -
  let ?k = "npt_lookup t prefix_id @ [segment]"
  have "prefix_id \<noteq> 0" using prefix by (auto simp: npt_lookup_def)
  with seg st have st': "npt_intern t ?k = (i, t')" by (simp add: npt_append_def)
  from room have room': "Suc (length (keys_by_id t)) < path_cap" by (simp add: npt_size_def)
  have "npt_get t' i = Some ?k" using path_table.intern_lookup [OF wf _ st' room'] by simp
  then have look: "npt_lookup t' i = ?k" by (auto simp: npt_get_def split: if_splits)
  have "npt_lookup t' j = npt_lookup t j" if "npt_lookup t j \<noteq> []" for j
    using path_table.lookup_stable [OF wf st' room', of j "npt_lookup t j"] that
    by (auto simp: npt_get_def split: if_splits)
  moreover have "npt_wf t'" using path_table.intern_keys [OF wf st' room'] by simp
  ultimately show ?thesis
    using look prefix by (simp add: npt_render_def render_segments_snoc)
qed

theorem name_path_append_correct_witness:
  "\<exists>t i j. npt_lookup t i = [4] \<and> npt_lookup (snd (npt_append t i 5)) j = [4, 5]"
proof -
  obtain i t where st: "npt_intern npt_empty [4] = (i, t)" by fastforce
  have room: "Suc (length (keys_by_id npt_empty)) < path_cap" by (simp add: npt_empty_def path_cap_def)
  have get: "npt_get t i = Some [4]" using path_table.intern_lookup [OF npt_wf_empty _ st room] by simp
  have keys: "keys_by_id t = [[4]]" "npt_wf t"
    using path_table.intern_keys [OF npt_wf_empty st room] by (simp_all add: npt_empty_def)
  from get have look: "npt_lookup t i = [4]" by (auto simp: npt_get_def split: if_splits)
  obtain j t' where ap: "npt_append t i 5 = (j, t')" by fastforce
  have "npt_lookup t' j = [4, 5]"
    using name_path_append_correct [OF keys(2) _ _ _ ap, of sit_empty] look keys(1)
    by (simp add: npt_size_def path_cap_def)
  with look ap show ?thesis by (intro exI [of _ t] exI [of _ i] exI [of _ j]) simp
qed

end
