(* ===== verification/PP_Text.thy ===== *)
theory PP_Text
  imports Prelude
begin

text \<open>
  Text helpers of the preprocessor (\<open>frontend/preprocessor/pp_text.cpp\<close>): trimming, line splicing
  and comment removal. A scan by index over \<open>source\<close> is a recursion over the unread characters.
\<close>

definition trim_copy :: "string \<Rightarrow> string" where
  "trim_copy s = rev (dropWhile isspace (rev (dropWhile isspace s)))"

definition is_ident_start :: "char \<Rightarrow> bool" where
  "is_ident_start c = (isalpha c \<or> c = CHR ''_'')"

definition is_ident_continue :: "char \<Rightarrow> bool" where
  "is_ident_continue c = (isalnum c \<or> c = CHR ''_'')"

fun join_continued_lines :: "string \<Rightarrow> string" where
  "join_continued_lines [] = []"
| "join_continued_lines (c # cs) =
     (if c = BSL \<and> cs \<noteq> [] \<and> hd cs = LF then join_continued_lines (tl cs)
      else c # join_continued_lines cs)"

section \<open>Comment removal\<close>

text \<open>
  The loop over the body of a block comment: the newlines to keep, and the text left. The loop
  needs two characters to look at, so an unterminated comment leaves its last character unread.
\<close>

fun block_body :: "string \<Rightarrow> string \<times> string" where
  "block_body (a # b # cs) =
     (if a = CHR ''*'' \<and> b = CHR ''/'' then ([], a # b # cs)
      else let (nl, r) = block_body (b # cs) in (if a = LF then LF # nl else nl, r))"
| "block_body cs = ([], cs)"

lemma block_body_length: "length (snd (block_body cs)) \<le> length cs"
  by (induction cs rule: block_body.induct) (auto simp: split_beta)

text \<open>
  A block comment, from the text after its opening characters: the newlines kept, the last
  character consumed and the text left.
\<close>

definition strip_block :: "string \<Rightarrow> string \<times> char \<times> string" where
  "strip_block s =
     (let (newlines, r) = block_body s in
      if 2 \<le> length r then (newlines, CHR ''/'', drop 2 r)
      else (newlines, last (CHR ''*'' # take (length s - length r) s), r))"

lemma strip_block_length: "strip_block s = (nl, c, r) \<Longrightarrow> length r \<le> length s"
  using block_body_length [of s] by (auto simp: strip_block_def split: prod.splits if_splits)

text \<open>
  \<open>prev\<close> is \<open>source[i - 1]\<close>, or nothing at the start of the source. The last argument is the
  unread text.
\<close>

definition unescaped :: "char option \<Rightarrow> bool" where
  "unescaped prev = (prev \<noteq> Some BSL)"

function strip_loop :: "bool \<Rightarrow> bool \<Rightarrow> char option \<Rightarrow> string \<Rightarrow> string" where
  "strip_loop in_str in_chr prev [] = []"
| "strip_loop in_str in_chr prev (c # cs) =
     (if \<not> in_str \<and> \<not> in_chr \<and> c = CHR ''/'' \<and> cs \<noteq> [] \<and> hd cs = CHR ''/'' then
        let comment = takeWhile (\<lambda>c. c \<noteq> LF) (tl cs) in
        strip_loop in_str in_chr (Some (last (CHR ''/'' # comment))) (dropWhile (\<lambda>c. c \<noteq> LF) (tl cs))
      else if \<not> in_str \<and> \<not> in_chr \<and> c = CHR ''/'' \<and> cs \<noteq> [] \<and> hd cs = CHR ''*'' then
        let (newlines, prev', r) = strip_block (tl cs) in
        newlines @ SP # strip_loop in_str in_chr (Some prev') r
      else
        c # (if \<not> in_chr \<and> c = DQ \<and> unescaped prev then strip_loop (\<not> in_str) in_chr (Some c) cs
             else if \<not> in_str \<and> c = SQ \<and> unescaped prev then strip_loop in_str (\<not> in_chr) (Some c) cs
             else strip_loop in_str in_chr (Some c) cs))"
  by pat_completeness auto

termination
proof (relation "measure (\<lambda>(_, _, _, s). length s)", goal_cases)
  case (2 in_str in_chr prev c cs comment)
  then show ?case using length_dropWhile_le [of "\<lambda>c. c \<noteq> LF" "tl cs"] by auto
next
  case (3 in_str in_chr prev c cs x nl y prev' r)
  then show ?case using strip_block_length [of "tl cs" nl prev' r] by auto
qed auto

declare strip_loop.simps(2) [simp del]

definition strip_comments :: "string \<Rightarrow> string" where
  "strip_comments source = strip_loop False False None source"

section \<open>Line structure\<close>

lemma count_line: "count_list (dropWhile (\<lambda>c. c \<noteq> LF) s) LF = count_list s LF"
  by (induction s) auto

lemma block_body_count:
  "count_list (fst (block_body cs)) LF + count_list (snd (block_body cs)) LF = count_list cs LF"
  by (induction cs rule: block_body.induct) (auto simp: split_beta)

lemma block_body_stop:
  "2 \<le> length (snd (block_body cs)) \<Longrightarrow> \<exists>r. snd (block_body cs) = CHR ''*'' # CHR ''/'' # r"
  by (induction cs rule: block_body.induct) (auto simp: split_beta split: if_splits)

lemma strip_block_count:
  assumes "strip_block s = (nl, c, r)"
  shows "count_list nl LF + count_list r LF = count_list s LF"
proof -
  obtain nl' r' where b: "block_body s = (nl', r')" by fastforce
  with block_body_stop [of s] block_body_count [of s] assms show ?thesis
    by (auto simp: strip_block_def split: if_splits)
qed

lemma strip_loop_newlines: "count_list (strip_loop in_str in_chr prev s) LF = count_list s LF"
proof (induction "length s" arbitrary: in_str in_chr prev s rule: less_induct)
  case less
  note IH = less.hyps
  show ?case
  proof (cases s)
    case (Cons c cs)
    have same: "count_list (strip_loop i j q cs) LF = count_list cs LF" for i j q
      using Cons by (intro IH) simp
    have line: "count_list (strip_loop i j q (dropWhile (\<lambda>c. c \<noteq> LF) (tl cs))) LF = count_list (tl cs) LF" for i j q
      using Cons length_dropWhile_le [of "\<lambda>c. c \<noteq> LF" "tl cs"]
      by (subst IH) (auto simp: count_line)
    have block: "count_list nl LF + count_list (strip_loop i j q r) LF = count_list (tl cs) LF"
      if "strip_block (tl cs) = (nl, p, r)" for nl p r i j q
      using Cons strip_block_length [OF that] strip_block_count [OF that] by (subst IH) auto
    have hd: "cs \<noteq> [] \<Longrightarrow> hd cs \<noteq> LF \<Longrightarrow> count_list (tl cs) LF = count_list cs LF" by (cases cs) auto
    show ?thesis
      unfolding Cons strip_loop.simps(2)
      by (simp add: same line block hd Let_def split: prod.split)
  qed simp
qed

lemma join_newlines_le: "count_list (join_continued_lines s) LF \<le> count_list s LF"
  by (induction s rule: join_continued_lines.induct) (auto simp: neq_Nil_conv)

text \<open>
  Removing comments keeps the line structure: the result has as many newlines as the source,
  whatever the nesting of comments, strings and unterminated constructs.
\<close>

theorem strip_comments_keeps_lines:
  "count_list (strip_comments source) LF = count_list source LF"
  by (simp add: strip_comments_def strip_loop_newlines)

lemma strip_loop_in_string:
  "DQ \<notin> set r \<Longrightarrow> strip_loop True False prev r = r"
  by (induction r arbitrary: prev) (auto simp: strip_loop.simps(2))

text \<open>
  A string that ends in an escaped backslash is not seen to end: after \<open>"\\"\<close> (three of whose
  characters are the quote and two backslashes) the scan stays inside the string, and a comment
  behind it is copied instead of removed.
\<close>

theorem strip_comments_escaped_backslash:
  assumes "DQ \<notin> set r"
  shows "strip_comments ([DQ, BSL, BSL, DQ] @ r) = [DQ, BSL, BSL, DQ] @ r"
  using strip_loop_in_string [OF assms]
  by (simp add: strip_comments_def strip_loop.simps(2) unescaped_def)

theorem strip_comments_escaped_backslash_witness:
  "strip_comments ([DQ, BSL, BSL, DQ] @ ''/*c*/'') = [DQ, BSL, BSL, DQ] @ ''/*c*/'' \<and>
   strip_comments ([DQ, CHR ''a'', DQ] @ ''/*c*/'') = [DQ, CHR ''a'', DQ] @ '' ''"
proof
  show "strip_comments ([DQ, BSL, BSL, DQ] @ ''/*c*/'') = [DQ, BSL, BSL, DQ] @ ''/*c*/''"
    by (rule strip_comments_escaped_backslash) simp
  show "strip_comments ([DQ, CHR ''a'', DQ] @ ''/*c*/'') = [DQ, CHR ''a'', DQ] @ '' ''"
    by code_simp
qed

end
