(* ===== verification/PP_Intrinsics.thy ===== *)
theory PP_Intrinsics
  imports PP_Text Target_Profile
begin

text \<open>
  \<open>resolve_defined_and_intrinsics\<close> (\<open>frontend/preprocessor/pp_cond.cpp\<close>): the textual pass over an
  \<open>#if\<close> expression that replaces \<open>defined\<close>, \<open>__has_include\<close> and the other intrinsics by 0 or 1.
  The index into \<open>expr\<close> is the unread text. The macros of the host compiler that select code by
  \<open>#if\<close> are a record, since they are fixed when the compiler is built.
\<close>

section \<open>Reading the argument\<close>

definition is_word_boundary :: "string \<Rightarrow> bool" where
  "is_word_boundary s = (case s of [] \<Rightarrow> True | c # cs \<Rightarrow> \<not> is_ident_continue c)"

definition parse_identifier_token :: "string \<Rightarrow> string \<times> string" where
  "parse_identifier_token s =
     (case s of
        [] \<Rightarrow> ([], s)
      | c # cs \<Rightarrow>
          if \<not> is_ident_start c then ([], s)
          else (c # takeWhile is_ident_continue cs, dropWhile is_ident_continue cs))"

definition skip_ws :: "string \<Rightarrow> string" where
  "skip_ws s = dropWhile isspace s"

definition starts_with_char :: "char \<Rightarrow> string \<Rightarrow> bool" where
  "starts_with_char c s = (take 1 s = [c])"

text \<open>\<open>( identifier )\<close>, or nothing: the identifier and the text after it.\<close>

definition parse_intrinsic_arg :: "string \<Rightarrow> (string \<times> string) option" where
  "parse_intrinsic_arg s =
     (let j = skip_ws s in
      if \<not> starts_with_char (CHR ''('') j then None
      else
        let (arg, j) = parse_identifier_token (skip_ws (tl j));
            j = skip_ws j in
        if \<not> starts_with_char (CHR '')'') j then None
        else Some (arg, tl j))"

text \<open>The operand of \<open>defined\<close>; a missing closing parenthesis is tolerated.\<close>

definition defined_operand :: "string \<Rightarrow> string \<times> string" where
  "defined_operand s =
     (let j = skip_ws s in
      if starts_with_char (CHR ''('') j then
        let (name, j) = parse_identifier_token (skip_ws (tl j));
            j = skip_ws j in
        (name, if starts_with_char (CHR '')'') j then tl j else j)
      else parse_identifier_token j)"

text \<open>Everything up to the matching parenthesis, and the text from there on.\<close>

fun include_argument :: "nat \<Rightarrow> string \<Rightarrow> string \<times> string" where
  "include_argument depth [] = ([], [])"
| "include_argument depth (c # cs) =
     (if c = CHR '')'' \<and> depth = 0 then ([], c # cs)
      else let (arg, r) = include_argument (if c = CHR ''('' then depth + 1
                                            else if c = CHR '')'' then depth - 1 else depth) cs in
           (c # arg, r))"

section \<open>The intrinsics\<close>

definition known_builtins :: "string list" where
  "known_builtins = [
      ''__builtin_expect'', ''__builtin_unreachable'', ''__builtin_trap'', ''__builtin_clz'',
      ''__builtin_clzl'', ''__builtin_clzll'', ''__builtin_ctz'', ''__builtin_ctzl'',
      ''__builtin_ctzll'', ''__builtin_popcount'', ''__builtin_popcountl'',
      ''__builtin_popcountll'', ''__builtin_bswap16'', ''__builtin_bswap32'',
      ''__builtin_bswap64'', ''__builtin_constant_p'', ''__builtin_types_compatible_p'',
      ''__builtin_choose_expr'', ''__builtin_offsetof'', ''__builtin_va_start'',
      ''__builtin_va_end'', ''__builtin_va_arg'', ''__builtin_va_copy'', ''__builtin_va_list'',
      ''__builtin_memcpy'', ''__builtin_memset'', ''__builtin_memmove'', ''__builtin_strlen'',
      ''__builtin_strcmp'', ''__builtin_strcpy'', ''__builtin_abs'', ''__builtin_labs'',
      ''__builtin_llabs'', ''__builtin_fabs'', ''__builtin_fabsf'', ''__builtin_fabsl'',
      ''__builtin_huge_val'', ''__builtin_huge_valf'', ''__builtin_inf'', ''__builtin_inff'',
      ''__builtin_nan'', ''__builtin_nanf'', ''__builtin_isnan'', ''__builtin_isinf'',
      ''__builtin_isfinite'', ''__builtin_add_overflow'', ''__builtin_sub_overflow'',
      ''__builtin_mul_overflow'', ''__remove_reference_t'', ''__remove_reference'',
      ''__is_trivially_destructible'', ''__has_trivial_destructor'', ''__make_integer_seq'',
      ''__integer_pack'', ''__is_target_arch'', ''__is_target_vendor'', ''__is_target_os'',
      ''__is_target_environment'', ''__is_target_variant_os'', ''__is_target_variant_environment'',
      ''__is_identifier'']"

definition known_attrs :: "string list" where
  "known_attrs = [
      ''aligned'', ''packed'', ''unused'', ''used'', ''weak'', ''alias'', ''deprecated'',
      ''visibility'', ''format'', ''format_arg'', ''noinline'', ''always_inline'', ''noreturn'',
      ''nonnull'', ''warn_unused_result'', ''constructor'', ''destructor'', ''section'',
      ''cleanup'', ''cold'', ''hot'', ''pure'', ''const'', ''malloc'', ''sentinel'', ''may_alias'',
      ''transparent_union'', ''vector_size'', ''__vector_size__'']"

definition known_features :: "string list" where
  "known_features = [
      ''c_alignas'', ''c_alignof'', ''c_atomic'', ''c_generic_selections'', ''c_static_assert'',
      ''c_thread_local'', ''cxx_atomic'']"

fun target_arch_names :: "host_arch \<Rightarrow> string list" where
  "target_arch_names HostAarch64 = [''arm64'', ''arm64e'', ''arm64_32'']"
| "target_arch_names HostX86_64 = [''x86_64'']"
| "target_arch_names HostI386 = [''i386'']"
| "target_arch_names HostArm = [''arm'']"
| "target_arch_names HostOtherArch = []"

text \<open>The answer of an intrinsic of one identifier, nothing when \<open>ident\<close> is no such intrinsic.\<close>

definition intrinsic :: "build_host \<Rightarrow> string \<Rightarrow> (string \<Rightarrow> bool) option" where
  "intrinsic host ident =
     (if ident = ''__has_builtin'' then Some (\<lambda>arg. arg \<in> set known_builtins)
      else if ident = ''__is_target_arch'' then Some (\<lambda>arg. arg \<in> set (target_arch_names (host_cpu host)))
      else if ident = ''__is_target_vendor'' then Some (\<lambda>arg. host_apple host \<and> arg = ''apple'')
      else if ident = ''__is_target_os'' then
        Some (\<lambda>arg. if host_apple host then arg = ''macos'' else host_linux host \<and> arg = ''linux'')
      else if ident = ''__is_target_environment'' \<or> ident = ''__is_target_variant_environment'' \<or>
              ident = ''__is_target_variant_os'' then Some (\<lambda>arg. False)
      else if ident = ''__is_identifier'' then
        Some (\<lambda>arg. arg \<notin> set [''_Atomic'', ''alignof'', ''constexpr'', ''decltype'', ''noexcept'', ''nullptr''])
      else if ident = ''__has_attribute'' then Some (\<lambda>arg. arg \<in> set known_attrs)
      else if ident = ''__has_feature'' \<or> ident = ''__has_extension'' then
        Some (\<lambda>arg. arg \<in> set known_features)
      else None)"

definition flag_text :: "bool \<Rightarrow> string" where
  "flag_text b = (if b then ''1'' else ''0'')"

text \<open>
  One identifier of the expression with the text \<open>r\<close> after it: what is written for it and the
  text to go on with. \<open>has_include\<close> is the optional callback.
\<close>

definition resolve_has_include :: "(string \<Rightarrow> bool) option \<Rightarrow> string \<Rightarrow> string \<times> string" where
  "resolve_has_include has_include j =
     (let (arg, j) = include_argument 0 (skip_ws j);
          arg = trim_copy arg in
      (case has_include of
         None \<Rightarrow> ''0''
       | Some f \<Rightarrow> if arg = [] then ''0'' else flag_text (f arg), drop 1 j))"

definition resolve_word ::
  "build_host \<Rightarrow> (string \<Rightarrow> bool) \<Rightarrow> (string \<Rightarrow> bool) option \<Rightarrow> string \<Rightarrow> string \<Rightarrow> string \<times> string" where
  "resolve_word host is_defined_name has_include ident r =
     (if ident = ''defined'' \<and> is_word_boundary r then
        let (name, r) = defined_operand r in (flag_text (is_defined_name name), r)
      else if (ident = ''__has_include'' \<or> ident = ''__has_include_next'') \<and> is_word_boundary r \<and>
              starts_with_char (CHR ''('') (skip_ws r) then
        resolve_has_include has_include (tl (skip_ws r))
      else
        case intrinsic host ident of
          None \<Rightarrow> (ident, r)
        | Some f \<Rightarrow>
            if is_word_boundary r then
              (case parse_intrinsic_arg r of
                 None \<Rightarrow> (ident, r)
               | Some (arg, r') \<Rightarrow> (flag_text (f arg), r'))
            else (ident, r))"

section \<open>The pass\<close>

lemma skip_ws_length: "length (skip_ws s) \<le> length s"
  by (simp add: skip_ws_def length_dropWhile_le)

lemma identifier_token_length: "parse_identifier_token s = (w, r) \<Longrightarrow> length r \<le> length s"
  by (auto simp: parse_identifier_token_def length_dropWhile_le le_SucI split: list.splits if_splits)

lemma include_argument_length: "include_argument d s = (a, r) \<Longrightarrow> length r \<le> length s"
proof (induction d s arbitrary: a r rule: include_argument.induct)
  case (2 depth c cs)
  then show ?case by (auto split: if_splits prod.splits)
qed auto

lemma intrinsic_arg_length: "parse_intrinsic_arg s = Some (a, r) \<Longrightarrow> length r \<le> length s"
proof -
  assume a: "parse_intrinsic_arg s = Some (a, r)"
  obtain w j where j: "parse_identifier_token (skip_ws (tl (skip_ws s))) = (w, j)" by fastforce
  with a have "r = tl (skip_ws j)" by (auto simp: parse_intrinsic_arg_def Let_def split: if_splits)
  with identifier_token_length [OF j] skip_ws_length [of j] skip_ws_length [of s]
    skip_ws_length [of "tl (skip_ws s)"]
  show ?thesis by (simp add: length_tl)
qed

lemma defined_operand_length: "defined_operand s = (a, r) \<Longrightarrow> length r \<le> length s"
proof -
  assume a: "defined_operand s = (a, r)"
  show ?thesis
  proof (cases "starts_with_char (CHR ''('') (skip_ws s)")
    case True
    obtain w j where j: "parse_identifier_token (skip_ws (tl (skip_ws s))) = (w, j)" by fastforce
    have "length r \<le> length (skip_ws j)" using a True j
      by (auto simp: defined_operand_def Let_def split: if_splits)
    with identifier_token_length [OF j] skip_ws_length [of j] skip_ws_length [of s]
      skip_ws_length [of "tl (skip_ws s)"]
    show ?thesis by (simp add: length_tl)
  next
    case False
    with a identifier_token_length [of "skip_ws s" a r] skip_ws_length [of s] show ?thesis
      by (simp add: defined_operand_def Let_def)
  qed
qed

lemma has_include_length: "resolve_has_include h s = (a, r) \<Longrightarrow> length r \<le> length s"
  using include_argument_length [of 0 "skip_ws s" "fst (include_argument 0 (skip_ws s))"
      "snd (include_argument 0 (skip_ws s))"] skip_ws_length [of s]
  by (auto simp: resolve_has_include_def Let_def split: prod.splits)

lemma resolve_word_length: "resolve_word host d h w s = (a, r) \<Longrightarrow> length r \<le> length s"
proof -
  assume a: "resolve_word host d h w s = (a, r)"
  have t: "length (tl (skip_ws s)) \<le> length s" using skip_ws_length [of s] by (simp add: length_tl)
  show ?thesis
    using a has_include_length [of h "tl (skip_ws s)" a r] t defined_operand_length [of s _ r]
    by (auto simp: resolve_word_def intrinsic_arg_length split: if_splits prod.splits option.splits)
qed

function resolve_loop ::
  "build_host \<Rightarrow> (string \<Rightarrow> bool) \<Rightarrow> (string \<Rightarrow> bool) option \<Rightarrow> string \<Rightarrow> string" where
  "resolve_loop host is_defined_name has_include [] = []"
| "resolve_loop host is_defined_name has_include (c # cs) =
     (if is_ident_start c then
        let (ident, r) = parse_identifier_token (c # cs);
            (written, r) = resolve_word host is_defined_name has_include ident r in
        written @ resolve_loop host is_defined_name has_include r
      else c # resolve_loop host is_defined_name has_include cs)"
  by pat_completeness auto
termination
proof (relation "measure (\<lambda>(_, _, _, s). length s)")
  fix host d h c cs x ident r y written r'
  assume "is_ident_start c" "x = parse_identifier_token (c # cs)" "(ident, r) = x"
    "y = resolve_word host d h ident r" "(written, r') = y"
  then have "length r' \<le> length (dropWhile is_ident_continue cs)"
    using resolve_word_length [of host d h ident r written r'] by (simp add: parse_identifier_token_def)
  then have "length r' < length (c # cs)"
    using length_dropWhile_le [of is_ident_continue cs] by simp
  then show "((host, d, h, r'), (host, d, h, c # cs)) \<in> measure (\<lambda>(_, _, _, s). length s)" by simp
qed auto

definition resolve_defined_and_intrinsics ::
  "build_host \<Rightarrow> string \<Rightarrow> (string \<Rightarrow> bool) \<Rightarrow> (string \<Rightarrow> bool) option \<Rightarrow> string" where
  "resolve_defined_and_intrinsics host expr is_defined_name has_include =
     resolve_loop host is_defined_name has_include expr"

section \<open>What the pass computes\<close>

text \<open>
  An expression as a sequence of pieces: text without identifiers, an identifier that is no
  intrinsic, \<open>defined(name)\<close> and an intrinsic applied to an identifier.
\<close>

datatype piece = Gap string | Word string | DefinedTest string | Intrinsic string string

definition ident_word :: "string \<Rightarrow> bool" where
  "ident_word w = (w \<noteq> [] \<and> is_ident_start (hd w) \<and> list_all is_ident_continue w)"

fun piece_text :: "piece \<Rightarrow> string" where
  "piece_text (Gap s) = s"
| "piece_text (Word w) = w"
| "piece_text (DefinedTest n) = ''defined('' @ n @ '')''"
| "piece_text (Intrinsic f a) = f @ ''('' @ a @ '')''"

fun piece_meaning :: "build_host \<Rightarrow> (string \<Rightarrow> bool) \<Rightarrow> piece \<Rightarrow> string" where
  "piece_meaning host d (Gap s) = s"
| "piece_meaning host d (Word w) = w"
| "piece_meaning host d (DefinedTest n) = flag_text (d n)"
| "piece_meaning host d (Intrinsic f a) = flag_text (the (intrinsic host f) a)"

definition plain_word :: "build_host \<Rightarrow> string \<Rightarrow> bool" where
  "plain_word host w = (ident_word w \<and> intrinsic host w = None \<and>
     w \<notin> set [''defined'', ''__has_include'', ''__has_include_next''])"

fun wf_pieces :: "build_host \<Rightarrow> piece list \<Rightarrow> bool" where
  "wf_pieces host [] = True"
| "wf_pieces host (Gap s # ps) = (list_all (\<lambda>c. \<not> is_ident_start c) s \<and> wf_pieces host ps)"
| "wf_pieces host (Word w # ps) =
     (plain_word host w \<and> is_word_boundary (concat (map piece_text ps)) \<and> wf_pieces host ps)"
| "wf_pieces host (DefinedTest n # ps) = (ident_word n \<and> wf_pieces host ps)"
| "wf_pieces host (Intrinsic f a # ps) =
     (ident_word f \<and> intrinsic host f \<noteq> None \<and> ident_word a \<and> wf_pieces host ps)"

lemma identifier_read:
  assumes "ident_word w" "is_word_boundary r"
  shows "parse_identifier_token (w @ r) = (w, r)"
proof -
  obtain c cs where w: "w = c # cs" using assms(1) by (cases w) (auto simp: ident_word_def)
  have "takeWhile is_ident_continue (cs @ r) = cs" "dropWhile is_ident_continue (cs @ r) = r"
    using assms w by (cases r; auto simp: ident_word_def is_word_boundary_def list_all_iff takeWhile_append_all
        dropWhile_append2)+
  with assms(1) w show ?thesis by (simp add: ident_word_def parse_identifier_token_def)
qed

lemma boundary_paren [simp]: "is_word_boundary (CHR ''('' # r)" "is_word_boundary (CHR '')'' # r)"
  by (simp_all add: is_word_boundary_def is_ident_continue_def isalnum_def isalpha_def isdigit_def code_def)

lemma skip_ws_paren [simp]: "skip_ws (CHR ''('' # r) = CHR ''('' # r" "skip_ws (CHR '')'' # r) = CHR '')'' # r"
  by (simp_all add: skip_ws_def isspace_def code_def)

lemma skip_ws_identifier [simp]: "ident_word w \<Longrightarrow> skip_ws (w @ r) = w @ r"
  by (cases w) (auto simp: ident_word_def skip_ws_def is_ident_start_def isalpha_def isspace_def code_def)

lemma resolve_identifier:
  assumes "ident_word w" "is_word_boundary r" "resolve_word host d h w r = (t, r')"
  shows "resolve_loop host d h (w @ r) = t @ resolve_loop host d h r'"
proof -
  obtain c cs where w: "w = c # cs" "is_ident_start c" using assms(1) by (cases w) (auto simp: ident_word_def)
  have "parse_identifier_token (c # cs @ r) = (w, r)" using identifier_read [OF assms(1,2)] w by simp
  with w assms(3) show ?thesis by simp
qed

lemma resolve_gap:
  "list_all (\<lambda>c. \<not> is_ident_start c) s \<Longrightarrow> resolve_loop host d h (s @ r) = s @ resolve_loop host d h r"
  by (induction s) auto

lemma identifier_defined: "ident_word ''defined''"
  by (simp add: ident_word_def is_ident_start_def is_ident_continue_def isalnum_def isalpha_def code_def)

lemma intrinsic_distinct: "intrinsic host f \<noteq> None \<Longrightarrow> f \<notin> set [''defined'', ''__has_include'', ''__has_include_next'']"
  by (auto simp: intrinsic_def split: if_splits)

lemma resolve_word_defined:
  "ident_word n \<Longrightarrow> resolve_word host d h ''defined'' (''('' @ n @ '')'' @ r) = (flag_text (d n), r)"
  by (simp add: resolve_word_def defined_operand_def starts_with_char_def identifier_read)

lemma resolve_word_intrinsic:
  "intrinsic host f = Some g \<Longrightarrow> ident_word a \<Longrightarrow>
     resolve_word host d h f (''('' @ a @ '')'' @ r) = (flag_text (g a), r)"
  using intrinsic_distinct [of host f]
  by (simp add: resolve_word_def parse_intrinsic_arg_def starts_with_char_def identifier_read)



end
