(* ===== verification/PP_Macro.thy ===== *)
theory PP_Macro
  imports PP_Text
begin

text \<open>
  Function-like macros (\<open>pp_macro_def.hpp\<close>, \<open>pp_macro_expand.cpp\<close>): macro definitions, collecting
  the arguments of a call, \<open>#\<close> and \<open>##\<close>, and substitution of the arguments into a body. Positions
  in \<open>line\<close> and \<open>body\<close> are the unread text; \<open>out\<close> is the text written so far.
\<close>

record macro_def =
  macro_name :: string
  function_like :: bool
  variadic :: bool
  params :: "string list"
  body :: string
  va_name :: string

section \<open>Keeping tokens apart\<close>

definition is_ident_or_num_char :: "char \<Rightarrow> bool" where
  "is_ident_or_num_char c = (isalnum c \<or> c = CHR ''_'' \<or> c = CHR ''.'')"

definition needs_token_separator :: "char \<Rightarrow> char \<Rightarrow> bool" where
  "needs_token_separator l r =
     (if isspace l \<or> isspace r then False
      else if is_ident_or_num_char l \<and> is_ident_or_num_char r then True
      else if l = r \<and> l \<in> set ''+-<>&|=#'' then True
      else if r = CHR ''='' \<and> l \<in> set ''!<>=*/%^&|+-'' then True
      else if l = CHR ''-'' \<and> r = CHR ''>'' then True
      else if l = CHR ''#'' \<and> r = CHR ''#'' then True
      else False)"

definition maybe_insert_token_separator :: "string \<Rightarrow> char \<Rightarrow> string" where
  "maybe_insert_token_separator out c =
     (if out \<noteq> [] \<and> needs_token_separator (last out) c then out @ [SP] else out)"

section \<open>Arguments of a call\<close>

text \<open>Inside a literal: the character, the character a backslash escapes, and the closing quote.\<close>

definition quoted_step ::
  "bool \<Rightarrow> bool \<Rightarrow> string \<Rightarrow> char \<Rightarrow> string \<Rightarrow> bool \<times> bool \<times> string \<times> string" where
  "quoted_step in_str in_chr cur c cs =
     (let (cur, r) = (if c = BSL \<and> cs \<noteq> [] then (cur @ [c, hd cs], tl cs) else (cur @ [c], cs)) in
      if r \<noteq> [] \<and> ((in_str \<and> hd r = DQ) \<or> (in_chr \<and> hd r = SQ))
      then (False, if in_str then in_chr else False, cur @ [hd r], tl r)
      else (in_str, in_chr, cur, r))"

lemma quoted_step_length: "quoted_step s t cur c cs = (s', t', cur', r) \<Longrightarrow> length r \<le> length cs"
  by (auto simp: quoted_step_def Let_def split: if_splits)

text \<open>One round of the loop: the arguments and the text left, or the next state and the text left.\<close>

type_synonym collect_state = "nat \<times> bool \<times> bool \<times> string list \<times> string"

definition collect_round :: "collect_state \<Rightarrow> char \<Rightarrow> string \<Rightarrow> (string list \<times> string) + (collect_state \<times> string)" where
  "collect_round state c cs =
     (let (depth, in_str, in_chr, args, cur) = state;
          outside = (\<not> in_str \<and> \<not> in_chr) in
      if outside \<and> c = CHR ''('' then Inr ((depth + 1, in_str, in_chr, args, cur @ [c]), cs)
      else if outside \<and> c = CHR '')'' then
        if depth = 0 then Inl (args @ [cur], cs)
        else Inr ((depth - 1, in_str, in_chr, args, cur @ [c]), cs)
      else if outside \<and> c = CHR '','' \<and> depth = 0 then Inr ((depth, in_str, in_chr, args @ [cur], []), cs)
      else
        let (s, t) = (if \<not> in_chr \<and> c = DQ then (\<not> in_str, in_chr)
                      else if \<not> in_str \<and> c = SQ then (in_str, \<not> in_chr) else (in_str, in_chr)) in
        if s \<or> t then
          let (s, t, cur, r) = quoted_step s t cur c cs in Inr ((depth, s, t, args, cur), r)
        else Inr ((depth, s, t, args, cur @ [c]), cs))"

lemma collect_round_length:
  "collect_round state c cs = Inr (state', r) \<Longrightarrow> length r \<le> length cs"
  "collect_round state c cs = Inl (args, r) \<Longrightarrow> length r \<le> length cs"
  by (auto simp: collect_round_def Let_def dest: quoted_step_length split: if_splits prod.splits)

function collect_loop :: "collect_state \<Rightarrow> string \<Rightarrow> string list \<times> string" where
  "collect_loop (depth, in_str, in_chr, args, cur) [] =
     (if cur \<noteq> [] \<or> args \<noteq> [] then args @ [cur] else args, [])"
| "collect_loop state (c # cs) =
     (case collect_round state c cs of Inl result \<Rightarrow> result | Inr (state', r) \<Rightarrow> collect_loop state' r)"
  by pat_completeness auto
termination
  by (relation "measure (\<lambda>(_, s). length s)") (auto simp: less_Suc_eq_le dest: collect_round_length)

lemma collect_loop_length: "length (snd (collect_loop state x)) \<le> length x"
proof (induction state x rule: collect_loop.induct)
  case (2 state c cs)
  then show ?case
    by (auto split: sum.splits prod.splits dest: collect_round_length) (metis collect_round_length(1) le_SucI le_trans)
qed auto

definition collect_funclike_args :: "string \<Rightarrow> string list \<times> string" where
  "collect_funclike_args line = collect_loop (0, False, False, [], []) line"

lemma collect_args_length: "collect_funclike_args x = (as, r) \<Longrightarrow> length r \<le> length x"
  using collect_loop_length [of _ x] by (simp add: collect_funclike_args_def) (metis snd_conv)

section \<open>Substitution\<close>

definition stringify_arg :: "string \<Rightarrow> string" where
  "stringify_arg raw =
     [DQ] @ concat (map (\<lambda>c. if c = BSL \<or> c = DQ then [BSL, c] else [c]) (trim_copy raw)) @ [DQ]"

text \<open>\<open>None\<close> is the index -1.\<close>

fun find_param_idx :: "string list \<Rightarrow> string \<Rightarrow> nat option" where
  "find_param_idx [] name = None"
| "find_param_idx (p # ps) name = (if p = name then Some 0 else map_option Suc (find_param_idx ps name))"

text \<open>The arguments of \<open>substitute_funclike_body\<close> but for the body.\<close>

record call_args =
  call_params :: "string list"
  raw_args :: "string list"
  exp_args :: "string list"
  call_variadic :: bool
  va_raw :: string
  va_exp :: string
  call_va_name :: string

definition is_va_ident :: "call_args \<Rightarrow> string \<Rightarrow> bool" where
  "is_va_ident a name = (name = ''__VA_ARGS__'' \<or> call_va_name a \<noteq> [] \<and> name = call_va_name a)"

definition is_param :: "call_args \<Rightarrow> string \<Rightarrow> bool" where
  "is_param a name = (find_param_idx (call_params a) name \<noteq> None \<or> call_variadic a \<and> is_va_ident a name)"

definition get_raw :: "call_args \<Rightarrow> string \<Rightarrow> string" where
  "get_raw a name =
     (if call_variadic a \<and> is_va_ident a name then va_raw a
      else case find_param_idx (call_params a) name of
             None \<Rightarrow> name
           | Some idx \<Rightarrow> if idx < length (raw_args a) then trim_copy (raw_args a ! idx) else name)"

definition get_exp :: "call_args \<Rightarrow> string \<Rightarrow> string" where
  "get_exp a name =
     (if call_variadic a \<and> is_va_ident a name then va_exp a
      else case find_param_idx (call_params a) name of
             None \<Rightarrow> name
           | Some idx \<Rightarrow> if idx < length (exp_args a) then exp_args a ! idx else name)"

definition is_space_or_tab :: "char \<Rightarrow> bool" where
  "is_space_or_tab c = (c = SP \<or> c = HT)"

text \<open>The rest of a literal up to and with its closing delimiter, escapes kept.\<close>

fun copy_literal :: "char \<Rightarrow> string \<Rightarrow> string \<times> string" where
  "copy_literal delim [] = ([], [])"
| "copy_literal delim (c # cs) =
     (if c = delim then ([c], cs)
      else if c = BSL then
        (case cs of
           [] \<Rightarrow> ([c], [])
         | e # es \<Rightarrow> let (t, r) = copy_literal delim es in (c # e # t, r))
      else let (t, r) = copy_literal delim cs in (c # t, r))"

text \<open>The right operand of \<open>##\<close>: an identifier, a preprocessing number or one character.\<close>

fun pp_number_tail :: "char \<Rightarrow> string \<Rightarrow> string \<times> string" where
  "pp_number_tail prev [] = ([], [])"
| "pp_number_tail prev (c # cs) =
     (if is_ident_or_num_char c \<or> (c = CHR ''+'' \<or> c = CHR ''-'') \<and> prev \<in> set ''eEpP''
      then let (t, r) = pp_number_tail c cs in (c # t, r)
      else ([], c # cs))"

definition paste_operand :: "char \<Rightarrow> string \<Rightarrow> string \<times> string" where
  "paste_operand c cs =
     (if is_ident_start c then (c # takeWhile is_ident_continue cs, dropWhile is_ident_continue cs)
      else if isdigit c \<or> c = CHR ''.'' then let (t, r) = pp_number_tail c cs in (c # t, r)
      else ([c], cs))"

text \<open>After an empty paste operand the next visible character is kept apart.\<close>

definition separate_from_next :: "string \<Rightarrow> string \<Rightarrow> string" where
  "separate_from_next out r =
     (case dropWhile is_space_or_tab r of [] \<Rightarrow> out | n # ns \<Rightarrow> maybe_insert_token_separator out n)"

text \<open>A step returns the text written and the text left.\<close>

definition subst_hash :: "call_args \<Rightarrow> string \<Rightarrow> string \<Rightarrow> string \<times> string" where
  "subst_hash a out cs =
     (let j = dropWhile is_space_or_tab cs in
      if j \<noteq> [] \<and> is_ident_start (hd j) then
        let pname = takeWhile is_ident_continue j in
        if is_param a pname then (out @ stringify_arg (get_raw a pname), drop (length pname) j)
        else (out @ ''#'', cs)
      else (out @ ''#'', cs))"

definition subst_paste :: "call_args \<Rightarrow> string \<Rightarrow> string \<Rightarrow> string \<Rightarrow> string \<times> string" where
  "subst_paste a out tok k =
     (let left = trim_copy (get_raw a tok) in
      case dropWhile is_space_or_tab k of
        [] \<Rightarrow> (out @ left, [])
      | c # cs \<Rightarrow>
          if isspace c then (out @ left, c # cs)
          else
            let (rtok, m) = paste_operand c cs;
                right = trim_copy (get_raw a rtok);
                out = out @ left @ right in
            (if left = [] \<or> right = [] then separate_from_next out m else out, m))"

definition subst_param :: "call_args \<Rightarrow> string \<Rightarrow> string \<Rightarrow> string \<Rightarrow> string" where
  "subst_param a out tok j =
     (let e = get_exp a tok in
      if is_param a tok then
        let out = (if e \<noteq> [] \<and> out \<noteq> [] then maybe_insert_token_separator out (hd e) else out) @ e in
        if out \<noteq> [] \<and> j \<noteq> [] \<and> \<not> isspace (hd j) then maybe_insert_token_separator out (hd j) else out
      else out @ e)"

definition subst_ident :: "call_args \<Rightarrow> string \<Rightarrow> string \<Rightarrow> string \<times> string" where
  "subst_ident a out s =
     (let tok = takeWhile is_ident_continue s;
          j = dropWhile is_ident_continue s;
          k = dropWhile is_space_or_tab j in
      if j \<noteq> [] \<and> (hd j = SQ \<or> hd j = DQ) then
        let (t, r) = copy_literal (hd j) (tl j) in (out @ tok @ [hd j] @ t, r)
      else if take 2 k = ''##'' then subst_paste a out tok (drop 2 k)
      else (subst_param a out tok j, j))"

definition drop_trailing_blanks :: "string \<Rightarrow> string" where
  "drop_trailing_blanks out = rev (dropWhile is_space_or_tab (rev out))"

text \<open>\<open>##\<close> with no identifier on its left, from the text after it.\<close>

definition subst_paste_right :: "call_args \<Rightarrow> string \<Rightarrow> string \<Rightarrow> string \<times> string" where
  "subst_paste_right a out s =
     (let out = drop_trailing_blanks out in
      case dropWhile is_space_or_tab s of
        [] \<Rightarrow> (out, [])
      | c # cs \<Rightarrow>
          if isspace c then (out @ [c], cs)
          else
            let (rtok, j) = paste_operand c cs;
                right = trim_copy (get_raw a rtok);
                out = out @ right in
            (if right = [] then separate_from_next out j else out, j))"

definition subst_step :: "call_args \<Rightarrow> string \<Rightarrow> char \<Rightarrow> string \<Rightarrow> string \<times> string" where
  "subst_step a out c cs =
     (if c = DQ then let (t, r) = copy_literal DQ cs in (out @ [DQ] @ t, r)
      else if c = CHR ''#'' \<and> cs \<noteq> [] \<and> hd cs \<noteq> CHR ''#'' then subst_hash a out cs
      else if is_ident_start c then subst_ident a out (c # cs)
      else if c = CHR ''#'' \<and> cs \<noteq> [] then subst_paste_right a out (tl cs)
      else (out @ [c], cs))"

lemma copy_literal_length: "copy_literal q s = (t, r) \<Longrightarrow> length r \<le> length s"
  by (induction q s arbitrary: t r rule: copy_literal.induct)
    (auto simp: Let_def split: if_splits list.splits prod.splits intro: le_SucI)

lemma pp_number_tail_length: "pp_number_tail p s = (t, r) \<Longrightarrow> length r \<le> length s"
  by (induction p s arbitrary: t r rule: pp_number_tail.induct)
    (auto split: if_splits prod.splits intro: le_SucI)

lemma paste_operand_length: "paste_operand c cs = (t, r) \<Longrightarrow> length r \<le> length cs"
  by (auto simp: paste_operand_def length_dropWhile_le pp_number_tail_length split: if_splits prod.splits)

lemma subst_paste_length: "subst_paste a out tok k = (t, r) \<Longrightarrow> length r \<le> length k"
  using length_dropWhile_le [of is_space_or_tab k]
  by (cases "dropWhile is_space_or_tab k") (auto simp: subst_paste_def Let_def length_dropWhile_le dest!: paste_operand_length
      split: if_splits prod.splits)

lemma subst_paste_right_length: "subst_paste_right a out s = (t, r) \<Longrightarrow> length r \<le> length s"
  using length_dropWhile_le [of is_space_or_tab s]
  by (cases "dropWhile is_space_or_tab s") (auto simp: subst_paste_right_def Let_def dest!: paste_operand_length
      split: if_splits prod.splits)

lemma subst_hash_length: "subst_hash a out cs = (t, r) \<Longrightarrow> length r \<le> length cs"
  using length_dropWhile_le [of is_space_or_tab cs]
  by (auto simp: subst_hash_def Let_def split: if_splits)

lemma subst_ident_length: "is_ident_start c \<Longrightarrow> subst_ident a out (c # cs) = (t, r) \<Longrightarrow> length r \<le> length cs"
proof -
  assume c: "is_ident_start c" and s: "subst_ident a out (c # cs) = (t, r)"
  let ?j = "dropWhile is_ident_continue cs"
  let ?k = "dropWhile is_space_or_tab ?j"
  have "dropWhile is_ident_continue (c # cs) = ?j"
    using c by (auto simp: is_ident_start_def is_ident_continue_def isalnum_def)
  then have "length r \<le> length (tl ?j) \<or> length r \<le> length (drop 2 ?k) \<or> r = ?j"
    using s by (auto simp: subst_ident_def Let_def dest!: copy_literal_length subst_paste_length
        split: if_splits prod.splits)
  moreover have "length ?k \<le> length ?j" "length ?j \<le> length cs" by (simp_all add: length_dropWhile_le)
  ultimately show ?thesis by (auto simp: length_tl)
qed

lemma subst_step_length: "subst_step a out c cs = (t, r) \<Longrightarrow> length r \<le> length cs"
  using subst_paste_right_length [of a out "tl cs" t r]
  by (auto simp: subst_step_def length_tl dest: copy_literal_length subst_hash_length subst_ident_length
      split: if_splits prod.splits)

function subst_loop :: "call_args \<Rightarrow> string \<Rightarrow> string \<Rightarrow> string" where
  "subst_loop a out [] = out"
| "subst_loop a out (c # cs) = (let (out, r) = subst_step a out c cs in subst_loop a out r)"
  by pat_completeness auto
termination
  by (relation "measure (\<lambda>(_, _, s). length s)") (auto simp: less_Suc_eq_le subst_step_length split: prod.split)

definition substitute_funclike_body :: "call_args \<Rightarrow> string \<Rightarrow> string" where
  "substitute_funclike_body a macro_body = subst_loop a [] macro_body"

definition split_directive :: "string \<Rightarrow> string \<times> string" where
  "split_directive line =
     (let s = dropWhile isspace line in
      (takeWhile is_ident_continue s, dropWhile isspace (dropWhile is_ident_continue s)))"

end
