(* ===== verification/PP_Macro_Correct.thy ===== *)
theory PP_Macro_Correct
  imports PP_Macro
begin

text \<open>
  Correctness of macro calls: the arguments of a well-formed call are split at its top-level commas,
  and substitution replaces exactly the parameters of a body of separate tokens.
\<close>

section \<open>Splitting the arguments\<close>

text \<open>The inside of a literal closed by \<open>q\<close>.\<close>

fun literal_body :: "char \<Rightarrow> string \<Rightarrow> bool" where
  "literal_body q [] = True"
| "literal_body q (c # cs) =
     (if c = BSL then (case cs of [] \<Rightarrow> False | e # es \<Rightarrow> literal_body q es) else c \<noteq> q \<and> literal_body q cs)"

text \<open>
  Text whose parentheses and literals are balanced; outside parentheses it has commas only when
  \<open>commas\<close> allows them.
\<close>

inductive balanced :: "bool \<Rightarrow> string \<Rightarrow> bool" where
  nothing: "balanced commas []"
| char: "c \<notin> set ''(),'' \<Longrightarrow> c \<noteq> DQ \<Longrightarrow> c \<noteq> SQ \<Longrightarrow> balanced commas s \<Longrightarrow> balanced commas (c # s)"
| comma: "balanced True s \<Longrightarrow> balanced True (CHR '','' # s)"
| literal: "q \<in> {DQ, SQ} \<Longrightarrow> literal_body q t \<Longrightarrow> balanced commas s \<Longrightarrow> balanced commas (q # t @ q # s)"
| group: "balanced True t \<Longrightarrow> balanced commas s \<Longrightarrow> balanced commas (CHR ''('' # t @ CHR '')'' # s)"

fun join_args :: "string list \<Rightarrow> string" where
  "join_args [] = []"
| "join_args [a] = a"
| "join_args (a # b # bs) = a @ CHR '','' # join_args (b # bs)"

lemma collect_step:
  "collect_loop (depth, in_str, in_chr, args, cur) (c # cs) =
     (let outside = (\<not> in_str \<and> \<not> in_chr) in
      if outside \<and> c = CHR ''('' then collect_loop (depth + 1, in_str, in_chr, args, cur @ [c]) cs
      else if outside \<and> c = CHR '')'' then
        if depth = 0 then (args @ [cur], cs)
        else collect_loop (depth - 1, in_str, in_chr, args, cur @ [c]) cs
      else if outside \<and> c = CHR '','' \<and> depth = 0 then collect_loop (depth, in_str, in_chr, args @ [cur], []) cs
      else
        let (s, t) = (if \<not> in_chr \<and> c = DQ then (\<not> in_str, in_chr)
                      else if \<not> in_str \<and> c = SQ then (in_str, \<not> in_chr) else (in_str, in_chr)) in
        if s \<or> t then
          let (s, t, cur, r) = quoted_step s t cur c cs in collect_loop (depth, s, t, args, cur) r
        else collect_loop (depth, s, t, args, cur @ [c]) cs)"
  by (simp add: collect_round_def Let_def split: prod.split)

declare collect_loop.simps(2) [simp del]

text \<open>Inside a literal: the flags of the scan and the quote that ends it.\<close>

definition quoting :: "bool \<Rightarrow> bool \<Rightarrow> char \<Rightarrow> bool" where
  "quoting s t q = (s \<and> \<not> t \<and> q = DQ \<or> \<not> s \<and> t \<and> q = SQ)"

lemma collect_char:
  "quoting s t q \<Longrightarrow> c \<noteq> q \<Longrightarrow> c \<noteq> BSL \<Longrightarrow>
     collect_loop (d, s, t, args, cur) (c # x # xs) =
       (if x = q then collect_loop (d, False, False, args, cur @ [c, q]) xs
        else collect_loop (d, s, t, args, cur @ [c]) (x # xs))"
  by (auto simp: quoting_def quoted_step_def collect_step [of d s t args cur c])

lemma collect_escape:
  "quoting s t q \<Longrightarrow>
     collect_loop (d, s, t, args, cur) (BSL # e # x # xs) =
       (if x = q then collect_loop (d, False, False, args, cur @ [BSL, e, q]) xs
        else collect_loop (d, s, t, args, cur @ [BSL, e]) (x # xs))"
  by (auto simp: quoting_def quoted_step_def collect_step [of d s t args cur BSL])

lemma literal_body_head: "literal_body q (c # cs) \<Longrightarrow> q \<noteq> BSL \<Longrightarrow> c \<noteq> q"
  by (auto split: if_splits)

lemma collect_in_literal:
  assumes "quoting s t q"
  shows "literal_body q x \<Longrightarrow> x \<noteq> [] \<Longrightarrow>
    collect_loop (d, s, t, args, cur) (x @ q # r) = collect_loop (d, False, False, args, cur @ x @ [q]) r"
proof (induction x arbitrary: cur rule: length_induct)
  case (1 x)
  have q: "q \<noteq> BSL" using assms by (auto simp: quoting_def)
  have rest: "collect_loop (d, s, t, args, cur') (y @ q # r) = collect_loop (d, False, False, args, cur' @ y @ [q]) r"
    if "length y < length x" "literal_body q y" "y \<noteq> []" for y cur'
    using 1(1) that by blast
  obtain c cs where x: "x = c # cs" using 1(3) by (cases x) auto
  show ?case
  proof (cases "c = BSL")
    case True
    with 1(2) x obtain e es where cs: "cs = e # es" "literal_body q es" by (auto split: list.splits)
    show ?thesis
    proof (cases es)
      case Nil
      then show ?thesis using x True cs by (simp add: collect_escape [OF assms])
    next
      case (Cons y ys)
      then have "y \<noteq> q" using literal_body_head [of q y ys] cs(2) q by blast
      then show ?thesis
        using x True cs Cons rest [of es "cur @ [BSL, e]"] by (simp add: collect_escape [OF assms])
    qed
  next
    case False
    with 1(2) x have c: "c \<noteq> q" "literal_body q cs" by auto
    show ?thesis
    proof (cases cs)
      case Nil
      then show ?thesis using x False c by (simp add: collect_char [OF assms])
    next
      case (Cons y ys)
      then have "y \<noteq> q" using literal_body_head [of q y ys] c(2) q by blast
      then show ?thesis
        using x False c Cons rest [of cs "cur @ [c]"] by (simp add: collect_char [OF assms])
    qed
  qed
qed

lemma collect_literal:
  assumes "q \<in> {DQ, SQ}" "literal_body q x"
  shows "collect_loop (d, False, False, args, cur) (q # x @ q # r) = collect_loop (d, False, False, args, cur @ q # x @ [q]) r"
proof -
  let ?s = "q = DQ" and ?t = "q = SQ"
  have qu: "quoting ?s ?t q" "q \<noteq> BSL" using assms(1) by (auto simp: quoting_def)
  show ?thesis
  proof (cases x)
    case Nil
    then show ?thesis using assms(1) by (auto simp: quoted_step_def collect_step)
  next
    case (Cons y ys)
    then have "collect_loop (d, False, False, args, cur) (q # x @ q # r) =
        collect_loop (d, ?s, ?t, args, cur @ [q]) (x @ q # r)"
      using assms(1) literal_body_head [of q y ys] assms(2) qu(2)
      by (auto simp: quoted_step_def collect_step [of d False False args cur q] simp del: literal_body.simps)
    then show ?thesis using collect_in_literal [OF qu(1) assms(2), of d args "cur @ [q]" r] Cons
      by simp
  qed
qed

lemma collect_balanced:
  "balanced commas s \<Longrightarrow> commas \<longrightarrow> 0 < d \<Longrightarrow>
     collect_loop (d, False, False, args, cur) (s @ r) = collect_loop (d, False, False, args, cur @ s) r"
proof (induction commas s arbitrary: d cur r rule: balanced.induct)
  case (literal q t commas s)
  then show ?case using collect_literal [OF literal(1,2), of d args cur "s @ r"] by simp
next
  case (group t commas s)
  then show ?case
    using group.IH(1) [of "Suc d" "cur @ ''(''" "CHR '')'' # s @ r"] by (simp add: collect_step)
qed (auto simp: collect_step)

lemma collect_args:
  "as \<noteq> [] \<Longrightarrow> list_all (balanced False) as \<Longrightarrow>
     collect_loop (0, False, False, args, []) (join_args as @ CHR '')'' # r) = (args @ as, r)"
proof (induction as arbitrary: args rule: join_args.induct)
  case (2 a)
  then show ?case using collect_balanced [of False a 0 args "[]" "CHR '')'' # r"] by (simp add: collect_step)
next
  case (3 a b bs)
  then show ?case
    using collect_balanced [of False a 0 args "[]" "CHR '','' # join_args (b # bs) @ CHR '')'' # r"] by (simp add: collect_step)
qed simp

text \<open>
  C25: round trip of a macro call: arguments whose parentheses and literals are balanced, joined by
  commas and closed by a parenthesis, are collected one by one, and the text after the call is left.
\<close>

theorem collect_funclike_args_roundtrip:
  assumes "args \<noteq> []" "list_all (balanced False) args"
  shows "collect_funclike_args (join_args args @ '')'' @ rest) = (args, rest)"
  using collect_args [OF assms, of "[]" rest] by (simp add: collect_funclike_args_def)

theorem collect_funclike_args_roundtrip_witness:
  "collect_funclike_args (''f(a,b),'' @ [DQ, CHR '','', DQ] @ '') + 1'') =
     ([''f(a,b)'', [DQ, CHR '','', DQ]], '' + 1'')"
proof -
  have "balanced False (CHR ''('' # ''a,b'' @ CHR '')'' # [])"
    by (intro balanced.group balanced.comma balanced.nothing balanced.char) simp_all
  then have f: "balanced False ''f(a,b)''" by (simp add: balanced.char)
  have s: "balanced False (DQ # '','' @ DQ # [])" by (intro balanced.literal balanced.nothing) simp_all
  with f show ?thesis
    using collect_funclike_args_roundtrip [of "[''f(a,b)'', [DQ, CHR '','', DQ]]" "'' + 1''"] by simp
qed

section \<open>Substituting into a body\<close>

fun unwords :: "string list \<Rightarrow> string" where
  "unwords [] = []"
| "unwords [w] = w"
| "unwords (w # v # vs) = w @ SP # unwords (v # vs)"

definition ident_token :: "string \<Rightarrow> bool" where
  "ident_token w = (w \<noteq> [] \<and> is_ident_start (hd w) \<and> list_all is_ident_continue w)"

definition other_token :: "string \<Rightarrow> bool" where
  "other_token w = list_all (\<lambda>c. \<not> is_ident_start c \<and> c \<noteq> DQ \<and> c \<noteq> CHR ''#'') w"

definition token_meaning :: "call_args \<Rightarrow> string \<Rightarrow> string" where
  "token_meaning a w = (if ident_token w then get_exp a w else w)"

definition fresh :: "string \<Rightarrow> bool" where
  "fresh out = (out = [] \<or> last out = SP)"

lemma subst_other:
  "other_token w \<Longrightarrow> subst_loop a out (w @ r) = subst_loop a (out @ w) r"
  by (induction w arbitrary: out) (auto simp: other_token_def subst_step_def)

lemma no_separator_after_space: "\<not> needs_token_separator SP c"
  by (simp add: needs_token_separator_def isspace_def code_def)

lemma fresh_separator: "fresh out \<Longrightarrow> maybe_insert_token_separator out c = out"
  by (auto simp: fresh_def maybe_insert_token_separator_def no_separator_after_space)

lemma ident_continue_not_hash: "is_ident_continue c \<Longrightarrow> c \<noteq> CHR ''#''"
  by (auto simp: is_ident_continue_def isalnum_def isalpha_def isdigit_def code_def)

lemma subst_word:
  assumes "ident_token w" "fresh out" "r = [] \<or> hd r = SP \<and> take 2 (dropWhile is_space_or_tab r) \<noteq> ''##''"
  shows "subst_loop a out (w @ r) = subst_loop a (out @ get_exp a w) r"
proof -
  obtain c cs where w: "w = c # cs" "is_ident_start c" using assms(1) by (cases w) (auto simp: ident_token_def)
  have "\<not> is_ident_continue SP"
    by (simp add: is_ident_continue_def isalnum_def isalpha_def isdigit_def code_def)
  then have split: "takeWhile is_ident_continue (w @ r) = w" "dropWhile is_ident_continue (w @ r) = r"
    using assms(1,3) by (cases r; auto simp: ident_token_def list_all_iff takeWhile_append_all dropWhile_append2)+
  have sp: "isspace SP" by (simp add: isspace_def code_def)
  have j: "\<not> (r \<noteq> [] \<and> (hd r = SQ \<or> hd r = DQ))" "r \<noteq> [] \<Longrightarrow> isspace (hd r)"
    using assms(3) sp by auto
  have "subst_param a out w r = out @ get_exp a w"
    using assms(2) fresh_separator [of out] j(2) by (auto simp: subst_param_def Let_def)
  then have "subst_ident a out (w @ r) = (out @ get_exp a w, r)"
    unfolding subst_ident_def split Let_def using j(1) assms(3) by auto
  moreover have "c \<noteq> DQ" "c \<noteq> CHR ''#''" using w(2) by (auto simp: is_ident_start_def isalpha_def code_def)
  ultimately show ?thesis using w by (simp add: subst_step_def)
qed

lemma subst_space: "subst_loop a out (SP # r) = subst_loop a (out @ [SP]) r"
  by (simp add: subst_step_def is_ident_start_def isalpha_def code_def)

lemma tokens_no_paste:
  assumes "\<forall>w \<in> set ws. ident_token w \<or> other_token w \<and> w \<noteq> []"
  shows "take 2 (dropWhile is_space_or_tab (SP # unwords ws)) \<noteq> ''##''"
proof -
  have "\<forall>c \<in> set (unwords ws). c \<noteq> CHR ''#''"
    using assms
  proof (induction ws rule: unwords.induct)
    case (2 w)
    then show ?case by (auto simp: ident_token_def other_token_def list_all_iff dest: ident_continue_not_hash)
  next
    case (3 w v vs)
    then show ?case by (auto simp: ident_token_def other_token_def list_all_iff dest: ident_continue_not_hash)
  qed simp
  then have "CHR ''#'' \<notin> set (SP # unwords ws)" by auto
  then have no: "CHR ''#'' \<notin> set (dropWhile is_space_or_tab (SP # unwords ws))"
    using set_dropWhileD [of "CHR ''#''" is_space_or_tab "SP # unwords ws"] by blast
  have "CHR ''#'' \<in> set s" if "take 2 s = ''##''" for s
    using set_take_subset [of 2 s] that by auto
  with no show ?thesis by blast
qed

lemma subst_unwords:
  "\<forall>w \<in> set ws. ident_token w \<or> other_token w \<and> w \<noteq> [] \<Longrightarrow> fresh out \<Longrightarrow>
     subst_loop a out (unwords ws) = out @ unwords (map (token_meaning a) ws)"
proof (induction ws arbitrary: out rule: unwords.induct)
  case (2 w)
  then show ?case
    using subst_word [of w out "[]" a] subst_other [of w a out "[]"] by (auto simp: token_meaning_def)
next
  case (3 w v vs)
  let ?r = "SP # unwords (v # vs)"
  have "subst_loop a out (w @ ?r) = subst_loop a (out @ token_meaning a w) ?r"
  proof (cases "ident_token w")
    case True
    then show ?thesis
      using subst_word [of w out ?r a] 3(2,3) tokens_no_paste [of "v # vs"] by (simp add: token_meaning_def)
  next
    case False
    then show ?thesis using 3(2) subst_other [of w a out ?r] by (simp add: token_meaning_def)
  qed
  also have "\<dots> = subst_loop a (out @ token_meaning a w @ [SP]) (unwords (v # vs))"
    by (simp add: subst_space del: subst_loop.simps(2) unwords.simps)
  also have "\<dots> = (out @ token_meaning a w @ [SP]) @ unwords (map (token_meaning a) (v # vs))"
    using 3 by (simp add: fresh_def del: unwords.simps list.map)
  finally show ?case by simp
qed simp



text \<open>
  The comma of \<open>, ## __VA_ARGS__\<close> is kept when the variable arguments are empty, although the
  caller relies on its removal: \<open>f(x, ## __VA_ARGS__)\<close> becomes \<open>f(x,)\<close>.
\<close>

theorem gnu_comma_kept:
  assumes "call_variadic a" "va_raw a = []"
  shows "substitute_funclike_body a '', ## __VA_ARGS__)'' = '',)''"
proof -
  have raw: "trim_copy (get_raw a ''__VA_ARGS__'') = []"
    using assms by (simp add: get_raw_def is_va_ident_def trim_copy_def)
  have op: "paste_operand (CHR ''_'') ''_VA_ARGS__)'' = (''__VA_ARGS__'', '')'')" by code_simp
  have sep: "separate_from_next '','' '')'' = '',''" by code_simp
  have "subst_paste_right a '', '' '' __VA_ARGS__)'' = ('','', '')'')"
    by (simp add: subst_paste_right_def is_space_or_tab_def drop_trailing_blanks_def isspace_def code_def op raw sep)
  then show ?thesis
    by (simp add: substitute_funclike_body_def subst_step_def is_ident_start_def isalpha_def code_def)
qed

theorem gnu_comma_kept_witness:
  "substitute_funclike_body
     \<lparr>call_params = [''fmt''], raw_args = [''s''], exp_args = [''s''], call_variadic = True,
      va_raw = [], va_exp = [], call_va_name = []\<rparr> '', ## __VA_ARGS__)'' = '',)''"
  by (rule gnu_comma_kept) simp_all

text \<open>A parameter is also replaced inside a number.\<close>

lemma parameter_in_number:
  "substitute_funclike_body
     \<lparr>call_params = [''f''], raw_args = [''9''], exp_args = [''9''], call_variadic = False,
      va_raw = [], va_exp = [], call_va_name = []\<rparr> ''1.0f'' = ''1.0 9''"
  by code_simp

lemma copy_literal_open: "SQ \<notin> set t \<Longrightarrow> copy_literal SQ t = (t, [])"
  by (induction SQ t rule: copy_literal.induct) (auto split: list.splits)

text \<open>
  Parameters after a character constant of identifier characters are not replaced: the
  constant's inside and closing quote are read as the prefix and the opening quote of a literal
  that runs to the end of the body.
\<close>

theorem character_constant_hides_parameters:
  assumes "ident_token w" "SQ \<notin> set rest"
  shows "substitute_funclike_body a ([SQ] @ w @ [SQ] @ rest) = [SQ] @ w @ [SQ] @ rest"
proof -
  obtain c cs where w: "w = c # cs" "is_ident_start c" using assms(1) by (cases w) (auto simp: ident_token_def)
  have "\<not> is_ident_continue SQ" "\<not> is_ident_start SQ"
    by (simp_all add: is_ident_continue_def is_ident_start_def isalnum_def isalpha_def isdigit_def code_def)
  then have split: "takeWhile is_ident_continue (w @ SQ # rest) = w"
      "dropWhile is_ident_continue (w @ SQ # rest) = SQ # rest" and q: "\<not> is_ident_start SQ"
    using assms(1) by (auto simp: ident_token_def list_all_iff takeWhile_append_all dropWhile_append2)
  have "subst_ident a [SQ] (w @ SQ # rest) = (SQ # w @ SQ # rest, [])"
    unfolding subst_ident_def split Let_def using copy_literal_open [OF assms(2)] by simp
  moreover have "c \<noteq> DQ" "c \<noteq> CHR ''#''" using w(2) by (auto simp: is_ident_start_def isalpha_def code_def)
  ultimately have "subst_step a [SQ] c (cs @ SQ # rest) = (SQ # w @ SQ # rest, [])"
    using w by (simp add: subst_step_def)
  moreover have "subst_step a [] SQ (w @ SQ # rest) = ([SQ], w @ SQ # rest)"
    using q by (simp add: subst_step_def)
  ultimately show ?thesis using w by (simp add: substitute_funclike_body_def)
qed

theorem character_constant_hides_parameters_witness:
  "substitute_funclike_body
     \<lparr>call_params = [''x''], raw_args = [''9''], exp_args = [''9''], call_variadic = False,
      va_raw = [], va_exp = [], call_va_name = []\<rparr> ([SQ] @ ''a'' @ [SQ] @ '' + x'') = [SQ] @ ''a'' @ [SQ] @ '' + x''"
  by (rule character_constant_hides_parameters)
    (simp_all add: ident_token_def is_ident_start_def is_ident_continue_def isalnum_def isalpha_def code_def)

end
