(* ===== verification/PP_Predefined.thy ===== *)
theory PP_Predefined
  imports PP_Macro Target_Profile
begin

text \<open>
  The predefined macros (\<open>frontend/preprocessor/pp_predefined.cpp\<close>): the rows of
  \<open>init_predefined_macros\<close> in the order of the code, grouped by the condition they stand under.
  The macro table, an \<open>unordered_map\<close> that is never iterated, is a map.
\<close>

type_synonym macro_table = "string \<rightharpoonup> macro_def"

definition object_macro :: "string \<Rightarrow> string \<Rightarrow> macro_def" where
  "object_macro name text =
     \<lparr>macro_name = name, function_like = False, variadic = False, params = [], body = text, va_name = []\<rparr>"

definition def_macro :: "string \<times> string \<Rightarrow> macro_table \<Rightarrow> macro_table" where
  "def_macro row t = t(fst row \<mapsto> object_macro (fst row) (snd row))"

section \<open>The rows\<close>

definition language_rows :: "(string \<times> string) list" where
  "language_rows = [
     (''__STDC__'', ''1''),
     (''__STDC_VERSION__'', ''201710L''),
     (''__LP64__'', ''1''),
     (''_LP64'', ''1''),
     (''__COUNTER__'', ''0'')]"

definition type_rows :: "(string \<times> string) list" where
  "type_rows = [
     (''__SIZEOF_INT__'', ''4''),
     (''__SIZEOF_SHORT__'', ''2''),
     (''__SIZEOF_LONG__'', ''8''),
     (''__SIZEOF_LONG_LONG__'', ''8''),
     (''__SIZEOF_POINTER__'', ''8''),
     (''__SIZEOF_FLOAT__'', ''4''),
     (''__SIZEOF_DOUBLE__'', ''8''),
     (''__SIZEOF_SIZE_T__'', ''8''),
     (''__SIZE_TYPE__'', ''long unsigned int''),
     (''__PTRDIFF_TYPE__'', ''long int''),
     (''__WCHAR_TYPE__'', ''int''),
     (''__WINT_TYPE__'', ''int''),
     (''__INTMAX_TYPE__'', ''long int''),
     (''__UINTMAX_TYPE__'', ''long unsigned int''),
     (''__INTPTR_TYPE__'', ''long int''),
     (''__UINTPTR_TYPE__'', ''long unsigned int''),
     (''__INT8_TYPE__'', ''signed char''),
     (''__INT16_TYPE__'', ''short''),
     (''__INT32_TYPE__'', ''int''),
     (''__INT64_TYPE__'', ''long int''),
     (''__UINT8_TYPE__'', ''unsigned char''),
     (''__UINT16_TYPE__'', ''unsigned short''),
     (''__UINT32_TYPE__'', ''unsigned int''),
     (''__UINT64_TYPE__'', ''long unsigned int''),
     (''__INT_LEAST8_TYPE__'', ''signed char''),
     (''__INT_LEAST16_TYPE__'', ''short''),
     (''__INT_LEAST32_TYPE__'', ''int''),
     (''__INT_LEAST64_TYPE__'', ''long int''),
     (''__UINT_LEAST8_TYPE__'', ''unsigned char''),
     (''__UINT_LEAST16_TYPE__'', ''unsigned short''),
     (''__UINT_LEAST32_TYPE__'', ''unsigned int''),
     (''__UINT_LEAST64_TYPE__'', ''long unsigned int''),
     (''__INT_FAST8_TYPE__'', ''signed char''),
     (''__INT_FAST16_TYPE__'', ''short''),
     (''__INT_FAST32_TYPE__'', ''int''),
     (''__INT_FAST64_TYPE__'', ''long int''),
     (''__UINT_FAST8_TYPE__'', ''unsigned char''),
     (''__UINT_FAST16_TYPE__'', ''unsigned short''),
     (''__UINT_FAST32_TYPE__'', ''unsigned int''),
     (''__UINT_FAST64_TYPE__'', ''long unsigned int''),
     (''__CHAR16_TYPE__'', ''unsigned short''),
     (''__CHAR32_TYPE__'', ''unsigned int'')]"

definition limit_rows :: "(string \<times> string) list" where
  "limit_rows = [
     (''__CHAR_BIT__'', ''8''),
     (''__SCHAR_MAX__'', ''127''),
     (''__SHRT_MAX__'', ''32767''),
     (''__INT_MAX__'', ''2147483647''),
     (''__LONG_MAX__'', ''9223372036854775807L''),
     (''__LONG_LONG_MAX__'', ''9223372036854775807LL''),
     (''__INT8_MAX__'', ''127''),
     (''__INT16_MAX__'', ''32767''),
     (''__INT32_MAX__'', ''2147483647''),
     (''__INT64_MAX__'', ''9223372036854775807LL''),
     (''__UINT8_MAX__'', ''255''),
     (''__UINT16_MAX__'', ''65535''),
     (''__UINT32_MAX__'', ''4294967295U''),
     (''__UINT64_MAX__'', ''18446744073709551615ULL''),
     (''__INTMAX_MAX__'', ''9223372036854775807LL''),
     (''__UINTMAX_MAX__'', ''18446744073709551615ULL''),
     (''__SIZE_MAX__'', ''18446744073709551615ULL''),
     (''__INTPTR_MAX__'', ''9223372036854775807LL''),
     (''__UINTPTR_MAX__'', ''18446744073709551615ULL''),
     (''__PTRDIFF_MAX__'', ''9223372036854775807LL''),
     (''__WCHAR_MAX__'', ''2147483647''),
     (''__FLT_MAX__'', ''3.40282347e+38F''),
     (''__FLT_MIN__'', ''1.17549435e-38F''),
     (''__FLT_EPSILON__'', ''1.19209290e-07F''),
     (''__FLT_DIG__'', ''6''),
     (''__FLT_MANT_DIG__'', ''24''),
     (''__FLT_MAX_EXP__'', ''128''),
     (''__FLT_MIN_EXP__'', ''(-125)''),
     (''__DBL_MAX__'', ''1.7976931348623157e+308''),
     (''__DBL_MIN__'', ''2.2250738585072014e-308''),
     (''__DBL_EPSILON__'', ''2.2204460492503131e-16''),
     (''__DBL_DIG__'', ''15''),
     (''__DBL_MANT_DIG__'', ''53''),
     (''__DBL_MAX_EXP__'', ''1024''),
     (''__DBL_MIN_EXP__'', ''(-1021)''),
     (''__LDBL_MAX__'', ''1.7976931348623157e+308L''),
     (''__LDBL_MIN__'', ''2.2250738585072014e-308L''),
     (''__LDBL_EPSILON__'', ''2.2204460492503131e-16L''),
     (''__LDBL_DIG__'', ''15''),
     (''__LDBL_MANT_DIG__'', ''53''),
     (''__LDBL_MAX_EXP__'', ''1024''),
     (''__LDBL_MIN_EXP__'', ''(-1021)'')]"

definition order_and_gnu_rows :: "(string \<times> string) list" where
  "order_and_gnu_rows = [
     (''__ORDER_LITTLE_ENDIAN__'', ''1234''),
     (''__ORDER_BIG_ENDIAN__'', ''4321''),
     (''__ORDER_PDP_ENDIAN__'', ''3412''),
     (''__BYTE_ORDER__'', ''1234''),
     (''__GNUC__'', ''10''),
     (''__GNUC_MINOR__'', ''0''),
     (''__GNUC_PATCHLEVEL__'', ''0''),
     (''__VERSION__'', DQ # ''10.0.0 Compatible c4c'' @ [DQ]),
     (''__STDC_HOSTED__'', ''1'')]"

definition aarch64_rows :: "(string \<times> string) list" where
  "aarch64_rows = [
     (''__aarch64__'', ''1''),
     (''__arm64__'', ''1''),
     (''__AARCH64EL__'', ''1''),
     (''__AARCH64_CMODEL_SMALL__'', ''1''),
     (''__ARM_64BIT_STATE'', ''1''),
     (''__ARM_ARCH'', ''8''),
     (''__ARM_ARCH_ISA_A64'', ''1''),
     (''__ARM_ARCH_PROFILE'', SQ # ''A'' @ [SQ]),
     (''__ARM_ACLE'', ''200''),
     (''__ARM_ALIGN_MAX_STACK_PWR'', ''4''),
     (''__ARM_FEATURE_CLZ'', ''1''),
     (''__ARM_FEATURE_DIRECTED_ROUNDING'', ''1''),
     (''__ARM_FEATURE_DIV'', ''1''),
     (''__ARM_FEATURE_FMA'', ''1''),
     (''__ARM_FEATURE_IDIV'', ''1''),
     (''__ARM_FEATURE_LDREX'', ''0xF''),
     (''__ARM_FEATURE_NUMERIC_MAXMIN'', ''1''),
     (''__ARM_FEATURE_UNALIGNED'', ''1''),
     (''__ARM_FP'', ''0xE''),
     (''__ARM_FP16_ARGS'', ''1''),
     (''__ARM_FP16_FORMAT_IEEE'', ''1''),
     (''__ARM_NEON'', ''1''),
     (''__ARM_NEON_FP'', ''0xE''),
     (''__ARM_PCS_AAPCS64'', ''1''),
     (''__ARM_SIZEOF_MINIMAL_ENUM'', ''4''),
     (''__ARM_SIZEOF_WCHAR_T'', ''4'')]"

definition x86_64_rows :: "(string \<times> string) list" where
  "x86_64_rows = [
     (''__x86_64__'', ''1''),
     (''__x86_64'', ''1''),
     (''__amd64__'', ''1''),
     (''__amd64'', ''1''),
     (''__code_model_small__'', ''1''),
     (''__MMX__'', ''1''),
     (''__SSE__'', ''1''),
     (''__SSE2__'', ''1''),
     (''__SSE_MATH__'', ''1''),
     (''__SSE2_MATH__'', ''1''),
     (''__NO_MATH_INLINES'', ''1''),
     (''__SEG_FS'', ''1''),
     (''__SEG_GS'', ''1''),
     (''__GCC_HAVE_DWARF2_CFI_ASM'', ''1''),
     (''__REGISTER_PREFIX__'', [])]"

definition i386_rows :: "(string \<times> string) list" where
  "i386_rows = [
     (''__i386__'', ''1''),
     (''__i386'', ''1''),
     (''__code_model_32__'', ''1''),
     (''__NO_MATH_INLINES'', ''1''),
     (''__REGISTER_PREFIX__'', [])]"

definition riscv64_rows :: "(string \<times> string) list" where
  "riscv64_rows = [
     (''__riscv'', ''1''),
     (''__riscv_xlen'', ''64'')]"

definition linux_rows :: "(string \<times> string) list" where
  "linux_rows = [
     (''__linux__'', ''1''),
     (''__linux'', ''1''),
     (''linux'', ''1''),
     (''__gnu_linux__'', ''1'')]"

definition unix_rows :: "(string \<times> string) list" where
  "unix_rows = [
     (''__unix__'', ''1''),
     (''__unix'', ''1''),
     (''unix'', ''1'')]"

definition apple_rows :: "(string \<times> string) list" where
  "apple_rows = [
     (''__APPLE__'', ''1''),
     (''__MACH__'', ''1''),
     (''__APPLE_CC__'', ''6000''),
     (''TARGET_OS_MAC'', ''1''),
     (''TARGET_OS_OSX'', ''1''),
     (''TARGET_OS_IPHONE'', ''0''),
     (''TARGET_OS_IOS'', ''0''),
     (''TARGET_OS_MACCATALYST'', ''0''),
     (''TARGET_OS_SIMULATOR'', ''0''),
     (''TARGET_OS_DRIVERKIT'', ''0''),
     (''TARGET_OS_EMBEDDED'', ''0''),
     (''TARGET_OS_TV'', ''0''),
     (''TARGET_OS_WATCH'', ''0''),
     (''TARGET_OS_VISION'', ''0''),
     (''TARGET_OS_BRIDGE'', ''0''),
     (''TARGET_OS_UNIX'', ''0''),
     (''TARGET_OS_LINUX'', ''0''),
     (''TARGET_OS_WINDOWS'', ''0''),
     (''TARGET_OS_WIN32'', ''0''),
     (''TARGET_RT_LITTLE_ENDIAN'', ''1''),
     (''TARGET_RT_BIG_ENDIAN'', ''0''),
     (''TARGET_RT_64_BIT'', ''1''),
     (''TARGET_RT_MAC_MACHO'', ''1''),
     (''TARGET_RT_MAC_CFM'', ''0'')]"

definition apple_aarch64_rows :: "(string \<times> string) list" where
  "apple_aarch64_rows = [
     (''TARGET_CPU_ARM64'', ''1''),
     (''TARGET_CPU_ARM'', ''0''),
     (''TARGET_CPU_X86'', ''0''),
     (''TARGET_CPU_X86_64'', ''0'')]"

definition apple_x86_64_rows :: "(string \<times> string) list" where
  "apple_x86_64_rows = [
     (''TARGET_CPU_ARM64'', ''0''),
     (''TARGET_CPU_ARM'', ''0''),
     (''TARGET_CPU_X86'', ''0''),
     (''TARGET_CPU_X86_64'', ''1'')]"

definition atomic_rows :: "(string \<times> string) list" where
  "atomic_rows = [
     (''__ATOMIC_RELAXED'', ''0''),
     (''__ATOMIC_CONSUME'', ''1''),
     (''__ATOMIC_ACQUIRE'', ''2''),
     (''__ATOMIC_RELEASE'', ''3''),
     (''__ATOMIC_ACQ_REL'', ''4''),
     (''__ATOMIC_SEQ_CST'', ''5'')]"

definition sync_rows :: "(string \<times> string) list" where
  "sync_rows = [
     (''__GCC_HAVE_SYNC_COMPARE_AND_SWAP_1'', ''1''),
     (''__GCC_HAVE_SYNC_COMPARE_AND_SWAP_2'', ''1''),
     (''__GCC_HAVE_SYNC_COMPARE_AND_SWAP_4'', ''1''),
     (''__GCC_HAVE_SYNC_COMPARE_AND_SWAP_8'', ''1''),
     (''__GCC_HAVE_SYNC_COMPARE_AND_SWAP_16'', ''1'')]"

definition sync_i386_rows :: "(string \<times> string) list" where
  "sync_i386_rows = [
     (''__GCC_HAVE_SYNC_COMPARE_AND_SWAP_1'', ''1''),
     (''__GCC_HAVE_SYNC_COMPARE_AND_SWAP_2'', ''1''),
     (''__GCC_HAVE_SYNC_COMPARE_AND_SWAP_4'', ''1''),
     (''__GCC_HAVE_SYNC_COMPARE_AND_SWAP_8'', ''1'')]"

definition common_rows :: "(string \<times> string) list" where
  "common_rows = [
     (''__BIGGEST_ALIGNMENT__'', ''16''),
     (''__FINITE_MATH_ONLY__'', ''0''),
     (''__NO_INLINE__'', ''1''),
     (''__GNUC_STDC_INLINE__'', ''1''),
     (''__PRAGMA_REDEFINE_EXTNAME'', ''1''),
     (''__STDC_UTF_16__'', ''1''),
     (''__STDC_UTF_32__'', ''1''),
     (''__USER_LABEL_PREFIX__'', []),
     (''__GCC_ASM_FLAG_OUTPUTS__'', ''1'')]"

section \<open>The table of a target\<close>

definition target_is_apple :: "target_profile \<Rightarrow> bool" where
  "target_is_apple p = (os p = Darwin \<and> contains_text ''apple'' (triple p))"

definition add_apple_target_predefines :: "target_profile \<Rightarrow> (string \<times> string) list" where
  "add_apple_target_predefines p =
     (if \<not> target_is_apple p then []
      else apple_rows @
           (if target_cpu p = Aarch64 then apple_aarch64_rows
            else if target_cpu p = X86_64 then apple_x86_64_rows else []) @
           [(''__ENVIRONMENT_MAC_OS_X_VERSION_MIN_REQUIRED__'', ''140000'')])"

definition predefined_rows :: "target_profile \<Rightarrow> (string \<times> string) list" where
  "predefined_rows p =
     language_rows @ type_rows @ limit_rows @ order_and_gnu_rows @
     (if target_cpu p = Aarch64 then aarch64_rows
      else if target_cpu p = X86_64 then x86_64_rows
      else if target_cpu p = I686 then i386_rows
      else if target_cpu p = Riscv64 then riscv64_rows else []) @
     (if os p = Linux then linux_rows else []) @
     (if os p = Linux \<or> os p = Darwin then unix_rows else []) @
     add_apple_target_predefines p @
     (if os p = Windows then
        (''_WIN32'', ''1'') # (if target_cpu p = X86_64 then [(''_WIN64'', ''1'')] else [])
      else []) @
     (if os p = Linux then [(''__ELF__'', ''1'')] else []) @
     atomic_rows @
     (if target_cpu p = Aarch64 \<or> target_cpu p = X86_64 then sync_rows
      else if target_cpu p = I686 then sync_i386_rows else []) @
     common_rows"

definition init_predefined_macros :: "macro_table \<Rightarrow> target_profile \<Rightarrow> macro_table" where
  "init_predefined_macros t p = fold def_macro (predefined_rows p) t"

section \<open>What is defined\<close>

lemma fold_def_macro: "fold def_macro rows t k =
  (case map_of (rev rows) k of None \<Rightarrow> t k | Some text \<Rightarrow> Some (object_macro k text))"
  by (induction rows arbitrary: t) (auto simp: def_macro_def map_add_def split: option.splits)

lemma predefined_lookup:
  "init_predefined_macros Map.empty p k = map_option (object_macro k) (map_of (rev (predefined_rows p)) k)"
  by (simp add: init_predefined_macros_def fold_def_macro split: option.splits)

lemma predefined_defined:
  "init_predefined_macros Map.empty p k \<noteq> None \<longleftrightarrow> k \<in> fst ` set (predefined_rows p)"
  by (auto simp: predefined_lookup map_of_eq_None_iff)

definition has_row :: "string \<Rightarrow> (string \<times> string) list \<Rightarrow> bool" where
  "has_row k rows = list_ex (\<lambda>r. fst r = k) rows"

lemma has_row_simps [simp]:
  "has_row k [] = False"
  "has_row k (r # rs) = (fst r = k \<or> has_row k rs)"
  "has_row k (xs @ ys) = (has_row k xs \<or> has_row k ys)"
  "has_row k (if b then xs else ys) = (if b then has_row k xs else has_row k ys)"
  by (simp_all add: has_row_def)

lemma defined_iff_has_row: "init_predefined_macros Map.empty p k \<noteq> None \<longleftrightarrow> has_row k (predefined_rows p)"
  unfolding predefined_defined has_row_def list_ex_iff by force

definition target_markers :: "string list" where
  "target_markers = [''__aarch64__'', ''__x86_64__'', ''__i386__'', ''__riscv'', ''__linux__'', ''__unix__'',
     ''__APPLE__'', ''_WIN32'', ''_WIN64'', ''__ELF__'']"

text \<open>The marker each group has; the groups not listed have none.\<close>

lemma marker_cases:
  "k \<in> set target_markers \<Longrightarrow> k = ''__aarch64__'' \<or> k = ''__x86_64__'' \<or> k = ''__i386__'' \<or> k = ''__riscv'' \<or> k = ''__linux__'' \<or>
    k = ''__unix__'' \<or> k = ''__APPLE__'' \<or> k = ''_WIN32'' \<or> k = ''_WIN64'' \<or> k = ''__ELF__''"
  by (simp only: target_markers_def list.set insert_iff empty_iff simp_thms)

lemma unmarked_rows:
  assumes "k \<in> set target_markers"
  shows "\<not> has_row k language_rows" "\<not> has_row k type_rows" "\<not> has_row k limit_rows"
    "\<not> has_row k order_and_gnu_rows" "\<not> has_row k atomic_rows" "\<not> has_row k sync_rows"
    "\<not> has_row k sync_i386_rows" "\<not> has_row k common_rows" "\<not> has_row k apple_aarch64_rows"
    "\<not> has_row k apple_x86_64_rows"
  using marker_cases [OF assms] by (elim disjE; simp add: language_rows_def type_rows_def limit_rows_def order_and_gnu_rows_def atomic_rows_def sync_rows_def sync_i386_rows_def common_rows_def apple_aarch64_rows_def apple_x86_64_rows_def)+

lemma marked_rows:
  assumes "k \<in> set target_markers"
  shows "has_row k aarch64_rows = (k = ''__aarch64__'')"
    "has_row k x86_64_rows = (k = ''__x86_64__'')"
    "has_row k i386_rows = (k = ''__i386__'')"
    "has_row k riscv64_rows = (k = ''__riscv'')"
    "has_row k linux_rows = (k = ''__linux__'')"
    "has_row k unix_rows = (k = ''__unix__'')"
    "has_row k apple_rows = (k = ''__APPLE__'')"
  using marker_cases [OF assms] by (elim disjE; simp add: aarch64_rows_def x86_64_rows_def i386_rows_def riscv64_rows_def linux_rows_def unix_rows_def apple_rows_def)+

lemma marker_rows:
  assumes "k \<in> set target_markers"
  shows "has_row k (predefined_rows p) \<longleftrightarrow>
    k = ''__aarch64__'' \<and> target_cpu p = Aarch64 \<or> k = ''__x86_64__'' \<and> target_cpu p = X86_64 \<or>
    k = ''__i386__'' \<and> target_cpu p = I686 \<or> k = ''__riscv'' \<and> target_cpu p = Riscv64 \<or>
    k = ''__linux__'' \<and> os p = Linux \<or> k = ''__unix__'' \<and> (os p = Linux \<or> os p = Darwin) \<or>
    k = ''__APPLE__'' \<and> target_is_apple p \<or> k = ''_WIN32'' \<and> os p = Windows \<or>
    k = ''_WIN64'' \<and> os p = Windows \<and> target_cpu p = X86_64 \<or> k = ''__ELF__'' \<and> os p = Linux"
proof -
  have env: "k \<noteq> ''__ENVIRONMENT_MAC_OS_X_VERSION_MIN_REQUIRED__''"
    using assms by (auto simp: target_markers_def)
  show ?thesis
    using env by (cases "target_cpu p"; cases "os p")
      (simp_all add: predefined_rows_def add_apple_target_predefines_def unmarked_rows [OF assms] marked_rows [OF assms] target_is_apple_def
        eq_commute [of k])
qed

text \<open>
  The predefined table identifies the target: each architecture macro is defined exactly for
  its architecture, each system macro exactly for its operating system, and every predefined macro
  is object-like and stored under its own name.
\<close>

theorem predefined_macros_match_target:
  "(init_predefined_macros Map.empty p ''__aarch64__'' \<noteq> None) = (target_cpu p = Aarch64) \<and>
   (init_predefined_macros Map.empty p ''__x86_64__'' \<noteq> None) = (target_cpu p = X86_64) \<and>
   (init_predefined_macros Map.empty p ''__i386__'' \<noteq> None) = (target_cpu p = I686) \<and>
   (init_predefined_macros Map.empty p ''__riscv'' \<noteq> None) = (target_cpu p = Riscv64) \<and>
   (init_predefined_macros Map.empty p ''__linux__'' \<noteq> None) = (os p = Linux) \<and>
   (init_predefined_macros Map.empty p ''__unix__'' \<noteq> None) = (os p = Linux \<or> os p = Darwin) \<and>
   (init_predefined_macros Map.empty p ''__APPLE__'' \<noteq> None) = target_is_apple p \<and>
   (init_predefined_macros Map.empty p ''_WIN32'' \<noteq> None) = (os p = Windows) \<and>
   (init_predefined_macros Map.empty p ''__ELF__'' \<noteq> None) = (os p = Linux) \<and>
   (\<forall>d \<in> ran (init_predefined_macros Map.empty p). \<not> function_like d \<and>
      init_predefined_macros Map.empty p (macro_name d) = Some d)"
proof -
  have ran: "\<not> function_like d \<and> init_predefined_macros Map.empty p (macro_name d) = Some d"
    if "d \<in> ran (init_predefined_macros Map.empty p)" for d
  proof -
    from that obtain k where k: "init_predefined_macros Map.empty p k = Some d" by (auto simp: ran_def)
    then have "macro_name d = k" "\<not> function_like d" by (auto simp: predefined_lookup object_macro_def)
    with k show ?thesis by simp
  qed
  have m: "set target_markers = {''__aarch64__'', ''__x86_64__'', ''__i386__'', ''__riscv'', ''__linux__'',
      ''__unix__'', ''__APPLE__'', ''_WIN32'', ''_WIN64'', ''__ELF__''}" by (simp add: target_markers_def)
  show ?thesis
    unfolding defined_iff_has_row
    by (intro conjI ballI ran; (subst marker_rows; (simp add: m)?)?) simp_all
qed

theorem predefined_macros_match_target_witness:
  "init_predefined_macros Map.empty \<lparr>triple = ''x86_64-unknown-linux-gnu'', target_cpu = X86_64, os = Linux,
     backend_abi = SysV_X86_64, relocation_model = Static, has_float_arg_registers = True,
     has_float_return_registers = True\<rparr> ''__x86_64__'' \<noteq> None"
  using predefined_macros_match_target [of "\<lparr>triple = ''x86_64-unknown-linux-gnu'', target_cpu = X86_64, os = Linux,
     backend_abi = SysV_X86_64, relocation_model = Static, has_float_arg_registers = True,
     has_float_return_registers = True\<rparr>"] by simp

end
