(* ===== verification/Source_Profile.thy ===== *)
theory Source_Profile
  imports Prelude
begin

text \<open>
  Source, lexer and semantic profiles of a translation unit (\<open>frontend/source_profile.hpp\<close>): the
  profile is chosen by the text after the last dot of the path.
\<close>

datatype source_profile = ProfileC | ProfileCppSubset | ProfileC4

datatype lex_profile = LexC | LexCppSubset | LexC4

datatype sema_profile = SemaC | SemaCppSubset | SemaC4

datatype header_kind = DotH | DotHpp | OtherHeader

text \<open>\<open>path.substr(path.rfind('.'))\<close>, or nothing when the path has no dot.\<close>

fun extension_of :: "string \<Rightarrow> string option" where
  "extension_of [] = None"
| "extension_of (c # cs) =
     (case extension_of cs of
        Some e \<Rightarrow> Some e
      | None \<Rightarrow> if c = CHR ''.'' then Some (c # cs) else None)"

definition source_profile_from_extension :: "string \<Rightarrow> source_profile" where
  "source_profile_from_extension path =
     (case extension_of path of
        None \<Rightarrow> ProfileC
      | Some ext \<Rightarrow>
          if ext = ''.c'' then ProfileC
          else if ext = ''.cpp'' \<or> ext = ''.cc'' \<or> ext = ''.cxx'' then ProfileCppSubset
          else if ext = ''.c4'' then ProfileC4
          else ProfileC)"

definition header_kind_from_extension :: "string \<Rightarrow> header_kind" where
  "header_kind_from_extension path =
     (case extension_of path of
        None \<Rightarrow> OtherHeader
      | Some ext \<Rightarrow>
          if ext = ''.h'' then DotH
          else if ext = ''.hpp'' \<or> ext = ''.hxx'' \<or> ext = ''.hh'' then DotHpp
          else OtherHeader)"

fun lex_profile_from :: "source_profile \<Rightarrow> lex_profile" where
  "lex_profile_from ProfileC = LexC"
| "lex_profile_from ProfileCppSubset = LexCppSubset"
| "lex_profile_from ProfileC4 = LexC4"

fun sema_profile_from :: "source_profile \<Rightarrow> sema_profile" where
  "sema_profile_from ProfileC = SemaC"
| "sema_profile_from ProfileCppSubset = SemaCppSubset"
| "sema_profile_from ProfileC4 = SemaC4"

fun source_profile_name :: "source_profile \<Rightarrow> string" where
  "source_profile_name ProfileC = ''C''"
| "source_profile_name ProfileCppSubset = ''C++ (subset)''"
| "source_profile_name ProfileC4 = ''c4''"

lemma extension_of_None: "CHR ''.'' \<notin> set e \<Longrightarrow> extension_of e = None"
  by (induction e) auto

lemma extension_of_append:
  "CHR ''.'' \<notin> set e \<Longrightarrow> extension_of (stem @ CHR ''.'' # e) = Some (CHR ''.'' # e)"
  by (induction stem) (auto simp: extension_of_None)

end
