(* ===== verification/PP_State.thy ===== *)
theory PP_State
  imports PP_Predefined Source_Profile
begin

text \<open>
  The state of a \<open>Preprocessor\<close> (\<open>preprocessor.hpp\<close>), its configuration methods, and pragmas
  (\<open>pp_pragma.cpp\<close> and \<open>process_pragma_text\<close>). The vectors used as stacks (\<open>cond_stack_\<close> and the
  vectors of \<open>macro_stack_\<close>) are lists whose head is the back of the vector; a name that was never
  pushed has the empty list. Line numbers and the counter are unbounded.

  \<open>stale_reference\<close> is no field of the code: macro expansion keeps references into the macro table
  while \<open>_Pragma\<close> can change the table, and the flag records that an entry a live reference points
  to was overwritten or erased. Where it is set, the C++ reads a changed or freed definition, and
  the model goes on with the old one.
\<close>

record preprocessor_diagnostic =
  diag_file :: string
  diag_line :: nat
  diag_column :: nat
  diag_message :: string

record conditional_frame =
  parent_active :: bool
  any_taken :: bool
  this_active :: bool
  saw_else :: bool

record preprocessor =
  macros :: macro_table
  cond_stack :: "conditional_frame list"
  quote_include_paths :: "string list"
  normal_include_paths :: "string list"
  system_include_paths :: "string list"
  after_include_paths :: "string list"
  errors :: "preprocessor_diagnostic list"
  warnings :: "preprocessor_diagnostic list"
  profile :: source_profile
  target :: target_profile
  needs_external_fallback :: bool
  base_file :: string
  virtual_line_offset :: int
  virtual_file :: string
  counter :: nat
  pragma_once_files :: "string set"
  include_guard_map :: "string \<rightharpoonup> string"
  include_resolve_cache :: "string \<rightharpoonup> string"
  macro_stack :: "string \<Rightarrow> macro_def list"
  stale_reference :: bool

definition add_error :: "string \<Rightarrow> nat \<Rightarrow> string \<Rightarrow> preprocessor \<Rightarrow> preprocessor" where
  "add_error file line_no msg st =
     st\<lparr>errors := errors st @ [\<lparr>diag_file = file, diag_line = line_no, diag_column = 1, diag_message = msg\<rparr>]\<rparr>"

definition add_warning :: "string \<Rightarrow> nat \<Rightarrow> string \<Rightarrow> preprocessor \<Rightarrow> preprocessor" where
  "add_warning file line_no msg st =
     st\<lparr>warnings := warnings st @ [\<lparr>diag_file = file, diag_line = line_no, diag_column = 1, diag_message = msg\<rparr>]\<rparr>"

section \<open>Configuration\<close>

definition set_macro :: "string \<Rightarrow> macro_def \<Rightarrow> preprocessor \<Rightarrow> preprocessor" where
  "set_macro name d st = st\<lparr>macros := (macros st)(name \<mapsto> d)\<rparr>"

definition erase_macro :: "string \<Rightarrow> preprocessor \<Rightarrow> preprocessor" where
  "erase_macro name st = st\<lparr>macros := (macros st)(name := None)\<rparr>"

definition define_macro :: "string \<Rightarrow> preprocessor \<Rightarrow> preprocessor" where
  "define_macro text st =
     (let name = takeWhile (\<lambda>c. c \<noteq> CHR ''='') text;
          value = (if CHR ''='' \<in> set text then drop (length name + 1) text else ''1'') in
      set_macro name (object_macro name value) st)"

definition undefine_macro :: "string \<Rightarrow> preprocessor \<Rightarrow> preprocessor" where
  "undefine_macro name st = erase_macro name st"

definition cpp_profile_macros :: "string list" where
  "cpp_profile_macros =
     [''__cplusplus=202002L'', ''__cpp_constexpr=201811L'', ''__cpp_concepts=201907L'', ''__GNUG__=4'',
      ''__GXX_ABI_VERSION=1002'', ''EA_COMPILER_NO_STRUCTURED_BINDING=1'']"

definition set_source_profile :: "source_profile \<Rightarrow> preprocessor \<Rightarrow> preprocessor" where
  "set_source_profile p st =
     (let st = st\<lparr>profile := p\<rparr> in
      if p = ProfileCppSubset \<or> p = ProfileC4 then fold define_macro cpp_profile_macros st
      else fold erase_macro
        [''__cplusplus'', ''__cpp_constexpr'', ''__cpp_concepts'', ''__GNUG__'', ''__GXX_ABI_VERSION'',
         ''EA_COMPILER_NO_STRUCTURED_BINDING''] st)"

definition host_profile :: "build_host \<Rightarrow> string + target_profile" where
  "host_profile host = target_profile_from_triple (default_host_target_triple host)"

text \<open>The constructor; \<open>Inl\<close> is the exception of the default target profile.\<close>

definition initial_state :: "target_profile \<Rightarrow> preprocessor" where
  "initial_state t =
     \<lparr>macros = init_predefined_macros Map.empty t, cond_stack = [], quote_include_paths = [],
      normal_include_paths = [], system_include_paths = [], after_include_paths = [],
      errors = [], warnings = [], profile = ProfileC, target = t, needs_external_fallback = False,
      base_file = [], virtual_line_offset = 0, virtual_file = [], counter = 0,
      pragma_once_files = {}, include_guard_map = Map.empty, include_resolve_cache = Map.empty,
      macro_stack = (\<lambda>_. []), stale_reference = False\<rparr>"

definition new_preprocessor :: "build_host \<Rightarrow> string + preprocessor" where
  "new_preprocessor host =
     (case host_profile host of Inl e \<Rightarrow> Inl e | Inr t \<Rightarrow> Inr (initial_state t))"

definition set_target_profile :: "build_host \<Rightarrow> target_profile \<Rightarrow> preprocessor \<Rightarrow> string + preprocessor" where
  "set_target_profile host t st =
     (case (if target_cpu t = ArchUnknown then host_profile host else Inr t) of
        Inl e \<Rightarrow> Inl e
      | Inr t' \<Rightarrow>
          let st = st\<lparr>target := t', macros := init_predefined_macros Map.empty t'\<rparr> in
          Inr (set_source_profile (profile st) st))"

definition add_quote_include_path :: "string \<Rightarrow> preprocessor \<Rightarrow> preprocessor" where
  "add_quote_include_path path st = st\<lparr>quote_include_paths := quote_include_paths st @ [path]\<rparr>"

definition add_include_path :: "string \<Rightarrow> preprocessor \<Rightarrow> preprocessor" where
  "add_include_path path st = st\<lparr>normal_include_paths := normal_include_paths st @ [path]\<rparr>"

definition add_system_include_path :: "string \<Rightarrow> preprocessor \<Rightarrow> preprocessor" where
  "add_system_include_path path st = st\<lparr>system_include_paths := system_include_paths st @ [path]\<rparr>"

definition add_after_include_path :: "string \<Rightarrow> preprocessor \<Rightarrow> preprocessor" where
  "add_after_include_path path st = st\<lparr>after_include_paths := after_include_paths st @ [path]\<rparr>"

section \<open>Pragmas\<close>

datatype pragma_result = Handled | Ignored | Unhandled

definition ignored_pragmas :: "string list" where
  "ignored_pragmas =
     [''push_macro'', ''pop_macro'', ''redefine_extname'', ''comment'', ''message'', ''warning'', ''error'',
      ''poison'', ''system_header'', ''clang'', ''GCC'']"

definition dispatch_pragma :: "string \<Rightarrow> pragma_result" where
  "dispatch_pragma args =
     (let s = trim_copy args;
          kind = takeWhile (\<lambda>c. \<not> isspace c \<and> c \<noteq> CHR ''('') s in
      if s = [] then Ignored
      else if kind \<in> set ignored_pragmas then Ignored
      else Ignored)"

text \<open>The text between the first two double quotes.\<close>

definition quoted_name :: "string \<Rightarrow> string option" where
  "quoted_name s =
     (case dropWhile (\<lambda>c. c \<noteq> DQ) s of
        [] \<Rightarrow> None
      | q # r \<Rightarrow> if DQ \<in> set r then Some (takeWhile (\<lambda>c. c \<noteq> DQ) r) else None)"

definition undefined_sentinel :: macro_def where
  "undefined_sentinel = object_macro [] []"

definition push_macro :: "string \<Rightarrow> preprocessor \<Rightarrow> preprocessor" where
  "push_macro name st =
     (let saved = (case macros st name of Some d \<Rightarrow> d | None \<Rightarrow> undefined_sentinel) in
      st\<lparr>macro_stack := (macro_stack st)(name := saved # macro_stack st name)\<rparr>)"

definition pop_macro :: "string \<Rightarrow> preprocessor \<Rightarrow> preprocessor" where
  "pop_macro name st =
     (case macro_stack st name of
        [] \<Rightarrow> st
      | saved # rest \<Rightarrow>
          let st = st\<lparr>macro_stack := (macro_stack st)(name := rest)\<rparr> in
          if macro_name saved = [] then erase_macro name st else set_macro name saved st)"

definition pragma_push_macro :: "string \<Rightarrow> preprocessor \<Rightarrow> preprocessor" where
  "pragma_push_macro s st = (case quoted_name s of None \<Rightarrow> st | Some name \<Rightarrow> push_macro name st)"

definition pragma_pop_macro :: "string \<Rightarrow> preprocessor \<Rightarrow> preprocessor" where
  "pragma_pop_macro s st = (case quoted_name s of None \<Rightarrow> st | Some name \<Rightarrow> pop_macro name st)"

text \<open>The \<open>_Pragma\<close> operator; \<open>live\<close> are the macros whose definitions are referenced.\<close>

definition note_stale :: "string set \<Rightarrow> string \<Rightarrow> preprocessor \<Rightarrow> preprocessor" where
  "note_stale live s st =
     (case quoted_name s of
        None \<Rightarrow> st
      | Some name \<Rightarrow> if name \<in> live \<and> macro_stack st name \<noteq> [] then st\<lparr>stale_reference := True\<rparr> else st)"

definition process_pragma_text :: "string set \<Rightarrow> string \<Rightarrow> preprocessor \<Rightarrow> string \<times> preprocessor" where
  "process_pragma_text live pragma_text st =
     (let s = trim_copy pragma_text in
      if s = ''once'' then ([], st\<lparr>pragma_once_files := insert (virtual_file st) (pragma_once_files st)\<rparr>)
      else if take 10 s = ''push_macro'' then ([], pragma_push_macro s st)
      else if take 9 s = ''pop_macro'' then ([], pragma_pop_macro s (note_stale live s st))
      else if take 4 s = ''pack'' then (''#pragma pack'' @ drop 4 s @ [LF], st)
      else if take 4 s = ''weak'' then (''#pragma '' @ s @ [LF], st)
      else if take 7 s = ''c4 exec'' then (''#pragma '' @ s @ [LF], st)
      else ([], st))"

section \<open>Invariant of the macro table\<close>

text \<open>
  Every definition is stored under its own name; a saved definition belongs to the name it was
  saved for or marks an undefined macro. Finitely many names are defined or saved.
\<close>

definition saved_names :: "preprocessor \<Rightarrow> string set" where
  "saved_names st = {name. \<exists>d \<in> set (macro_stack st name). macro_name d \<noteq> []}"

definition known_names :: "preprocessor \<Rightarrow> string set" where
  "known_names st = dom (macros st) \<union> saved_names st"

definition macros_wf :: "preprocessor \<Rightarrow> bool" where
  "macros_wf st = ((\<forall>name d. macros st name = Some d \<longrightarrow> macro_name d = name) \<and>
     (\<forall>name. \<forall>d \<in> set (macro_stack st name). macro_name d \<noteq> [] \<longrightarrow> macro_name d = name) \<and>
     finite (known_names st))"

lemma macros_wf_name: "macros_wf st \<Longrightarrow> macros st name = Some d \<Longrightarrow> macro_name d = name"
  by (simp add: macros_wf_def)

lemma macros_wf_finite: "macros_wf st \<Longrightarrow> finite (known_names st)"
  by (simp add: macros_wf_def)

lemma macros_wf_cong:
  "macros st' = macros st \<Longrightarrow> macro_stack st' = macro_stack st \<Longrightarrow> macros_wf st' = macros_wf st"
  "macros st' = macros st \<Longrightarrow> macro_stack st' = macro_stack st \<Longrightarrow> known_names st' = known_names st"
  by (simp_all add: macros_wf_def known_names_def saved_names_def)

lemma known_names_finite_step:
  "finite (known_names st) \<Longrightarrow> known_names st' \<subseteq> insert name (known_names st) \<Longrightarrow> finite (known_names st')"
  by (meson finite_insert finite_subset)

lemma set_macro_wf:
  assumes "macros_wf st" "macro_name d = name"
  shows "macros_wf (set_macro name d st)"
proof -
  have "known_names (set_macro name d st) \<subseteq> insert name (known_names st)"
    by (auto simp: known_names_def saved_names_def set_macro_def split: if_splits)
  with known_names_finite_step macros_wf_finite [OF assms(1)]
  have "finite (known_names (set_macro name d st))" by blast
  with assms show ?thesis by (auto simp: macros_wf_def set_macro_def split: if_splits)
qed

lemma erase_macro_names: "known_names (erase_macro name st) \<subseteq> known_names st"
  by (auto simp: known_names_def saved_names_def erase_macro_def split: if_splits)

lemma erase_macro_wf: "macros_wf st \<Longrightarrow> macros_wf (erase_macro name st)"
  using finite_subset [OF erase_macro_names [of name st]]
  by (auto simp: macros_wf_def erase_macro_def split: if_splits)

lemma push_macro_names: "macros_wf st \<Longrightarrow> known_names (push_macro name st) \<subseteq> known_names st"
  by (auto simp: known_names_def saved_names_def push_macro_def undefined_sentinel_def object_macro_def
      split: if_splits option.splits)

lemma push_macro_wf: "macros_wf st \<Longrightarrow> macros_wf (push_macro name st)"
  using finite_subset [OF push_macro_names [of st name]]
  by (auto simp: macros_wf_def push_macro_def undefined_sentinel_def object_macro_def split: option.splits)

lemma pop_macro_names: "known_names (pop_macro name st) \<subseteq> known_names st"
  by (auto simp: known_names_def saved_names_def pop_macro_def erase_macro_def set_macro_def Let_def
      split: if_splits list.splits)

lemma pop_macro_wf: "macros_wf st \<Longrightarrow> macros_wf (pop_macro name st)"
  using finite_subset [OF pop_macro_names [of name st]]
  by (auto simp: macros_wf_def pop_macro_def erase_macro_def set_macro_def Let_def split: list.splits if_splits)

lemma note_stale_fields [simp]:
  "macros (note_stale live s st) = macros st" "macro_stack (note_stale live s st) = macro_stack st"
  by (simp_all add: note_stale_def split: option.split)

definition keeps_names :: "preprocessor \<Rightarrow> preprocessor \<Rightarrow> bool" where
  "keeps_names st st' = (macros_wf st \<longrightarrow> macros_wf st' \<and> known_names st' \<subseteq> known_names st)"

lemma keeps_names_refl [simp]: "keeps_names st st"
  by (simp add: keeps_names_def)

lemma keeps_names_trans: "keeps_names a b \<Longrightarrow> keeps_names b c \<Longrightarrow> keeps_names a c"
  by (auto simp: keeps_names_def)

lemma keeps_names_same: "macros st' = macros st \<Longrightarrow> macro_stack st' = macro_stack st \<Longrightarrow> keeps_names st st'"
  using macros_wf_cong [of st' st] by (simp add: keeps_names_def)

lemma push_macro_keeps: "keeps_names st (push_macro name st)"
  by (simp add: keeps_names_def push_macro_wf push_macro_names)

lemma pop_macro_keeps: "keeps_names st (pop_macro name st)"
  by (simp add: keeps_names_def pop_macro_wf pop_macro_names)

lemma pragma_keeps:
  "keeps_names st (pragma_push_macro s st)" "keeps_names st (pragma_pop_macro s st)"
  "keeps_names st (note_stale live s st)"
  by (simp_all add: pragma_push_macro_def pragma_pop_macro_def push_macro_keeps pop_macro_keeps keeps_names_same
      split: option.split)

lemma process_pragma_text_keeps: "keeps_names st (snd (process_pragma_text live s st))"
  using keeps_names_trans [OF pragma_keeps(3) pragma_keeps(2)]
  by (simp add: process_pragma_text_def Let_def pragma_keeps keeps_names_same)

text \<open>
  Saving a macro with \<open>push_macro\<close> and restoring it with \<open>pop_macro\<close> gives back the whole state,
  whatever the macro is redefined to, or undefined, in between.
\<close>

theorem push_pop_macro:
  assumes "macros_wf st" "name \<noteq> []"
  shows "pop_macro name ((push_macro name st)\<lparr>macros := (macros st)(name := redefined)\<rparr>) = st"
proof (cases "macros st name")
  case None
  then show ?thesis
    by (simp add: push_macro_def pop_macro_def erase_macro_def undefined_sentinel_def object_macro_def
        fun_upd_idem)
next
  case (Some d)
  with assms have "macro_name d \<noteq> []" using macros_wf_name by blast
  with Some show ?thesis by (simp add: push_macro_def pop_macro_def set_macro_def fun_upd_idem)
qed

lemma initial_state_wf: "macros_wf (initial_state t)"
proof -
  have "dom (macros (initial_state t)) = fst ` set (predefined_rows t)"
    using predefined_defined [of t] by (auto simp: initial_state_def)
  then have "finite (known_names (initial_state t))"
    by (simp add: known_names_def saved_names_def) (simp add: initial_state_def)
  then show ?thesis
    by (auto simp: macros_wf_def initial_state_def predefined_lookup object_macro_def)
qed

definition linux_target :: target_profile where
  "linux_target = \<lparr>triple = ''x86_64-unknown-linux-gnu'', target_cpu = X86_64, os = Linux, backend_abi = SysV_X86_64,
     relocation_model = Static, has_float_arg_registers = True, has_float_return_registers = True\<rparr>"

theorem push_pop_macro_witness:
  "pop_macro ''X'' ((push_macro ''X'' (initial_state linux_target))
     \<lparr>macros := (macros (initial_state linux_target))(''X'' := Some (object_macro ''X'' ''1''))\<rparr>) =
   initial_state linux_target"
  by (rule push_pop_macro) (simp_all add: initial_state_wf)

end
