(* ===== verification/PP_Expand.thy ===== *)
theory PP_Expand
  imports PP_State "HOL-Library.Monad_Syntax"
begin

text \<open>
  Macro expansion (\<open>preprocessor.cpp\<close>: \<open>expand_text\<close>, \<open>expand_funclike_call\<close>, \<open>expand_line\<close>). The
  index into \<open>text\<close> is the unread text. The recursive calls, for arguments, bodies and rescans, go
  through the parameter \<open>rec\<close> of the helper functions; \<open>expand_text\<close> bounds their nesting by a
  number of levels, and the value \<open>None\<close> means that the bound was too small. \<open>live\<close> are the names
  of the definitions the callers hold references to (see \<open>stale_reference\<close>).
\<close>

type_synonym expander = "string \<Rightarrow> string set \<Rightarrow> string set \<Rightarrow> preprocessor \<Rightarrow> (string \<times> preprocessor) option"

section \<open>Tokens of the text\<close>

definition parse_single_identifier :: "string \<Rightarrow> string option" where
  "parse_single_identifier s =
     (let i = dropWhile isspace s;
          j = dropWhile is_ident_continue i in
      if i = [] \<or> \<not> is_ident_start (hd i) then None
      else if dropWhile isspace j \<noteq> [] then None
      else Some (rev (dropWhile (\<lambda>c. c \<in> {SP, HT, CR, LF}) (rev i))))"

text \<open>A preprocessing number, an exponent's sign included.\<close>

definition signed_exponent :: "char \<Rightarrow> string \<Rightarrow> bool" where
  "signed_exponent c cs = (c \<in> set ''eEpP'' \<and> cs \<noteq> [] \<and> (hd cs = CHR ''+'' \<or> hd cs = CHR ''-''))"

function pp_number :: "string \<Rightarrow> string \<times> string" where
  "pp_number [] = ([], [])"
| "pp_number (c # cs) =
     (if isdigit c \<or> isalpha c \<or> c = CHR ''_'' \<or> c = CHR ''.'' then
        if signed_exponent c cs then let (t, r) = pp_number (tl cs) in (c # hd cs # t, r)
        else let (t, r) = pp_number cs in (c # t, r)
      else ([], c # cs))"
  by pat_completeness auto
termination by (relation "measure length") (auto simp: less_Suc_eq_le)

text \<open>The argument of \<open>_Pragma\<close> up to its closing parenthesis.\<close>

function pragma_argument :: "nat \<Rightarrow> bool \<Rightarrow> bool \<Rightarrow> string \<Rightarrow> string \<times> string" where
  "pragma_argument depth in_s in_c [] = ([], [])"
| "pragma_argument depth in_s in_c (c # cs) =
     (if (in_s \<or> in_c) \<and> c = BSL \<and> cs \<noteq> [] then
        let (t, r) = pragma_argument depth in_s in_c (tl cs) in (c # hd cs # t, r)
      else if \<not> in_s \<and> \<not> in_c \<and> c = CHR '')'' \<and> depth \<le> 1 then ([], c # cs)
      else
        let (t, r) =
          (if in_s then pragma_argument depth (c \<noteq> DQ) in_c cs
           else if in_c then pragma_argument depth in_s (c \<noteq> SQ) cs
           else if c = DQ then pragma_argument depth True in_c cs
           else if c = SQ then pragma_argument depth in_s True cs
           else if c = CHR ''('' then pragma_argument (depth + 1) in_s in_c cs
           else if c = CHR '')'' then pragma_argument (depth - 1) in_s in_c cs
           else pragma_argument depth in_s in_c cs) in
        (c # t, r))"
  by pat_completeness auto
termination by (relation "measure (\<lambda>(_, _, _, s). length s)") (auto simp: less_Suc_eq_le)

text \<open>The contents of a string literal, from the text after its opening quote.\<close>

function destringize :: "string \<Rightarrow> string" where
  "destringize [] = []"
| "destringize (c # cs) =
     (if c = DQ then []
      else if c = BSL \<and> cs \<noteq> [] \<and> (hd cs = DQ \<or> hd cs = BSL) then hd cs # destringize (tl cs)
      else c # destringize cs)"
  by pat_completeness auto
termination by (relation "measure length") (auto simp: less_Suc_eq_le)

definition blanks_then :: "char \<Rightarrow> string \<Rightarrow> string option" where
  "blanks_then c s = (case dropWhile is_space_or_tab s of [] \<Rightarrow> None | d # r \<Rightarrow> if d = c then Some r else None)"

section \<open>Calls of function-like macros\<close>

fun expand_args ::
  "expander \<Rightarrow> string set \<Rightarrow> string set \<Rightarrow> string list \<Rightarrow> preprocessor \<Rightarrow> (string list \<times> preprocessor) option" where
  "expand_args rec disabled live [] st = Some ([], st)"
| "expand_args rec disabled live (a # as) st = do {
     (e, st) \<leftarrow> rec (trim_copy a) disabled live st;
     (es, st) \<leftarrow> expand_args rec disabled live as st;
     Some (e # es, st)
   }"

fun join_with :: "string \<Rightarrow> string list \<Rightarrow> string" where
  "join_with sep [] = []"
| "join_with sep [x] = x"
| "join_with sep (x # y # ys) = x @ sep @ join_with sep (y # ys)"

definition expand_funclike_call ::
  "expander \<Rightarrow> macro_def \<Rightarrow> string list \<Rightarrow> string set \<Rightarrow> string set \<Rightarrow> preprocessor \<Rightarrow> (string \<times> preprocessor) option" where
  "expand_funclike_call rec d raw disabled live st = do {
     let during = insert (macro_name d) live;
     (expanded, st) \<leftarrow> expand_args rec disabled during raw st;
     let rest = (if variadic d then drop (length (params d)) raw else []);
     (rest_expanded, st) \<leftarrow> expand_args rec disabled during rest st;
     let substituted = substitute_funclike_body
       \<lparr>call_params = params d, raw_args = raw, exp_args = expanded, call_variadic = variadic d,
        va_raw = join_with '','' rest, va_exp = join_with '', '' rest_expanded, call_va_name = va_name d\<rparr>
       (body d);
     rec substituted (insert (macro_name d) disabled) live st
   }"

text \<open>\<open>F()\<close> passes no argument to a macro without parameters.\<close>

definition normalise_args :: "macro_def \<Rightarrow> string list \<Rightarrow> string list" where
  "normalise_args d raw =
     (if params d = [] \<and> \<not> variadic d \<and> length raw = 1 \<and> trim_copy (hd raw) = [] then [] else raw)"

lemma blanks_then_length: "blanks_then c s = Some r \<Longrightarrow> length r < length s"
  using length_dropWhile_le [of is_space_or_tab s] by (auto simp: blanks_then_def split: list.splits if_splits)

text \<open>
  While the expansion is a single name of a function-like macro and the text goes on with an
  argument list, that macro is called with it.
\<close>

definition chained_macro :: "string \<Rightarrow> string set \<Rightarrow> preprocessor \<Rightarrow> macro_def option" where
  "chained_macro expanded disabled st =
     (case parse_single_identifier expanded of
        None \<Rightarrow> None
      | Some w \<Rightarrow>
          (case macros st w of
             None \<Rightarrow> None
           | Some d \<Rightarrow> if \<not> function_like d \<or> w \<in> disabled then None else Some d))"

function chain_calls ::
  "expander \<Rightarrow> string set \<Rightarrow> string set \<Rightarrow> string \<Rightarrow> string \<Rightarrow> preprocessor \<Rightarrow>
     (string \<times> string \<times> preprocessor) option" where
  "chain_calls rec disabled live expanded k st =
     (case chained_macro expanded disabled st of
        None \<Rightarrow> Some (expanded, k, st)
      | Some d \<Rightarrow>
          (case blanks_then (CHR ''('') k of
             None \<Rightarrow> Some (expanded, k, st)
           | Some p \<Rightarrow>
               (case expand_funclike_call rec d (normalise_args d (fst (collect_funclike_args p))) disabled live st of
                  None \<Rightarrow> None
                | Some (e, st') \<Rightarrow> chain_calls rec disabled live e (snd (collect_funclike_args p)) st')))"
  by pat_completeness auto
termination
proof (relation "measure (\<lambda>(_, _, _, _, k, _). length k)")
  fix rec disabled live expanded st d k p x e st'
  assume "blanks_then (CHR ''('') k = Some p"
  then have "length (snd (collect_funclike_args p)) < length k"
    using blanks_then_length [of "CHR ''(''" k p] collect_args_length [of p "fst (collect_funclike_args p)"
        "snd (collect_funclike_args p)"] by simp
  then show "((rec, disabled, live, e, snd (collect_funclike_args p), st'), rec, disabled, live, expanded, k, st)
      \<in> measure (\<lambda>(_, _, _, _, k, _). length k)" by simp
qed simp

declare chain_calls.simps [simp del]

section \<open>One pass over the text\<close>

text \<open>The text written, with the guards against pasting on both sides of an expansion.\<close>

definition guarded_append :: "string \<Rightarrow> string \<Rightarrow> string \<Rightarrow> string" where
  "guarded_append out expanded r =
     (let out = (if expanded \<noteq> [] \<and> out \<noteq> [] then maybe_insert_token_separator out (hd expanded) else out) @ expanded in
      if out \<noteq> [] \<and> r \<noteq> [] \<and> \<not> isspace (hd r) then maybe_insert_token_separator out (hd r) else out)"

text \<open>The steps return the text written, the text left and the state.\<close>

definition expand_pragma ::
  "expander \<Rightarrow> string set \<Rightarrow> string set \<Rightarrow> string \<Rightarrow> string \<Rightarrow> preprocessor \<Rightarrow> (string \<times> string \<times> preprocessor) option" where
  "expand_pragma rec disabled live out j st =
     (case blanks_then (CHR ''('') j of
        None \<Rightarrow> Some (out @ ''_Pragma'', j, st)
      | Some k \<Rightarrow>
          let (raw, k) = pragma_argument 1 False False (dropWhile is_space_or_tab k) in
          if k = [] then Some (out @ ''_Pragma'', j, st)
          else do {
            (expanded, st) \<leftarrow> rec raw disabled live st;
            (case blanks_then DQ expanded of
               None \<Rightarrow> Some (out @ ''_Pragma'', j, st)
             | Some content \<Rightarrow>
                 let (emitted, st) = process_pragma_text live (destringize content) st in
                 Some (out @ emitted, tl k, st))
          })"

definition expand_function_macro ::
  "expander \<Rightarrow> string set \<Rightarrow> string set \<Rightarrow> string \<Rightarrow> string \<Rightarrow> macro_def \<Rightarrow> string \<Rightarrow> preprocessor \<Rightarrow>
     (string \<times> string \<times> preprocessor) option" where
  "expand_function_macro rec disabled live out ident d j st =
     (case blanks_then (CHR ''('') j of
        None \<Rightarrow> Some (out @ ident, j, st)
      | Some k \<Rightarrow> do {
          let (raw, k) = collect_funclike_args k;
          (expanded, st) \<leftarrow> expand_funclike_call rec d (normalise_args d raw) disabled live st;
          (expanded, k, st) \<leftarrow> chain_calls rec disabled live expanded k st;
          Some (guarded_append out expanded k, k, st)
        })"

definition literal_prefix :: "string \<Rightarrow> string \<Rightarrow> bool" where
  "literal_prefix ident j =
     ((ident = ''L'' \<or> ident = ''u'' \<or> ident = ''U'' \<or> ident = ''u8'') \<and> j \<noteq> [] \<and> (hd j = SQ \<or> hd j = DQ))"

definition expand_object_macro ::
  "expander \<Rightarrow> string set \<Rightarrow> string set \<Rightarrow> string \<Rightarrow> string \<Rightarrow> macro_def \<Rightarrow> string \<Rightarrow> preprocessor \<Rightarrow>
     (string \<times> string \<times> preprocessor) option" where
  "expand_object_macro rec disabled live out ident d j st =
     (if literal_prefix ident j then Some (out @ ident, j, st)
      else if ident = ''__COUNTER__'' then
        Some (out @ show_nat (counter st), j, st\<lparr>counter := counter st + 1\<rparr>)
      else do {
        (expanded, st) \<leftarrow> rec (body d) (insert ident disabled) (insert ident live) st;
        Some (guarded_append out expanded j, j, st)
      })"

definition expand_ident ::
  "expander \<Rightarrow> string set \<Rightarrow> string set \<Rightarrow> string \<Rightarrow> string \<Rightarrow> string \<Rightarrow> preprocessor \<Rightarrow>
     (string \<times> string \<times> preprocessor) option" where
  "expand_ident rec disabled live out ident j st =
     (if ident = ''_Pragma'' then expand_pragma rec disabled live out j st
      else case macros st ident of
             None \<Rightarrow> Some (out @ ident, j, st)
           | Some d \<Rightarrow>
               if ident \<in> disabled then Some (out @ ident, j, st)
               else if function_like d then expand_function_macro rec disabled live out ident d j st
               else expand_object_macro rec disabled live out ident d j st)"

text \<open>The quotes seen so far and whether the character before is a backslash.\<close>

record scan_flags =
  in_str :: bool
  in_chr :: bool
  after_backslash :: bool

definition starts_number :: "char \<Rightarrow> string \<Rightarrow> bool" where
  "starts_number c cs = (isdigit c \<or> c = CHR ''.'' \<and> cs \<noteq> [] \<and> isdigit (hd cs))"

definition pass_char :: "scan_flags \<Rightarrow> char \<Rightarrow> scan_flags" where
  "pass_char f c =
     (let f' = f\<lparr>after_backslash := (c = BSL)\<rparr> in
      if \<not> in_chr f \<and> c = DQ \<and> \<not> after_backslash f then f'\<lparr>in_str := \<not> in_str f\<rparr>
      else if \<not> in_str f \<and> c = SQ \<and> \<not> after_backslash f then f'\<lparr>in_chr := \<not> in_chr f\<rparr>
      else f')"

definition expand_step ::
  "expander \<Rightarrow> string set \<Rightarrow> string set \<Rightarrow> string \<Rightarrow> scan_flags \<Rightarrow> char \<Rightarrow> string \<Rightarrow> preprocessor \<Rightarrow>
     (string \<times> scan_flags \<times> string \<times> preprocessor) option" where
  "expand_step rec disabled live out f c cs st =
     (let outside = (\<not> in_str f \<and> \<not> in_chr f) in
      if outside \<and> starts_number c cs then
        let (number, r) = pp_number (c # cs) in Some (out @ number, f\<lparr>after_backslash := False\<rparr>, r, st)
      else if outside \<and> is_ident_start c then
        (case expand_ident rec disabled live out (takeWhile is_ident_continue (c # cs))
                (dropWhile is_ident_continue cs) st of
           None \<Rightarrow> None
         | Some (out, r, st) \<Rightarrow> Some (out, f\<lparr>after_backslash := False\<rparr>, r, st))
      else Some (out @ [c], pass_char f c, cs, st))"

lemma pp_number_length: "length (snd (pp_number s)) \<le> length s"
proof (induction s rule: pp_number.induct)
  case (2 c cs)
  then show ?case by (auto simp: Let_def split_beta le_SucI length_tl)
qed simp

lemma pp_number_shorter:
  assumes "starts_number c cs"
  shows "length (snd (pp_number (c # cs))) \<le> length cs"
  using assms pp_number_length [of "tl cs"] pp_number_length [of cs]
  by (auto simp: starts_number_def Let_def split_beta length_tl)

lemma pragma_argument_length: "length (snd (pragma_argument d a b s)) \<le> length s"
proof (induction d a b s rule: pragma_argument.induct)
  case (2 depth in_s in_c c cs)
  then show ?case by (auto simp: Let_def split_beta le_SucI length_tl)
qed simp

lemma chain_calls_length: "chain_calls rec disabled live e k st = Some (e', k', st') \<Longrightarrow> length k' \<le> length k"
proof (induction rec disabled live e k st arbitrary: e' k' st' rule: chain_calls.induct)
  case (1 rec disabled live e k st)
  show ?case
  proof (cases "chained_macro e disabled st = None \<or> blanks_then (CHR ''('') k = None")
    case True
    with 1(2) show ?thesis by (subst (asm) chain_calls.simps) (auto split: option.splits)
  next
    case False
    then obtain d p where dp: "chained_macro e disabled st = Some d" "blanks_then (CHR ''('') k = Some p" by auto
    obtain x st1 where x: "expand_funclike_call rec d (normalise_args d (fst (collect_funclike_args p))) disabled live st = Some (x, st1)"
      and c: "chain_calls rec disabled live x (snd (collect_funclike_args p)) st1 = Some (e', k', st')"
      using 1(2) dp by (subst (asm) chain_calls.simps) (auto split: option.splits)
    have "length k' \<le> length (snd (collect_funclike_args p))" using 1(1) [OF dp x refl c] .
    also have "\<dots> \<le> length p" using collect_args_length [of p] by (metis prod.collapse)
    finally show ?thesis using blanks_then_length [OF dp(2)] by simp
  qed
qed

lemma expand_ident_length:
  "expand_ident rec disabled live out w j st = Some (out', r, st') \<Longrightarrow> length r \<le> length j"
proof -
  have args: "length (snd (collect_funclike_args k)) \<le> length k" for k
    using collect_args_length [of k] by (metis prod.collapse)
  have "length r \<le> length j"
    if *: "expand_function_macro rec disabled live out w d j st = Some (out', r, st')" for d
  proof (cases "blanks_then (CHR ''('') j")
    case None
    with * show ?thesis by (simp add: expand_function_macro_def)
  next
    case (Some k)
    with * obtain x st1 e st2 where "chain_calls rec disabled live x (snd (collect_funclike_args k)) st1 = Some (e, r, st2)"
      by (auto simp: expand_function_macro_def Let_def split_beta split: bind_splits)
    with chain_calls_length args [of k] blanks_then_length [OF Some] show ?thesis
      by (meson le_trans less_imp_le)
  qed
  moreover have "length r \<le> length j"
    if *: "expand_pragma rec disabled live out j st = Some (out', r, st')"
  proof (cases "blanks_then (CHR ''('') j")
    case None
    with * show ?thesis by (simp add: expand_pragma_def)
  next
    case (Some k)
    have "length (snd (pragma_argument 1 False False (dropWhile is_space_or_tab k))) \<le> length j"
      using pragma_argument_length [of 1 False False "dropWhile is_space_or_tab k"] blanks_then_length [OF Some]
        length_dropWhile_le [of is_space_or_tab k] by simp
    with * Some show ?thesis
      by (auto simp: expand_pragma_def Let_def split_beta length_tl split: if_splits bind_splits option.splits)
  qed
  moreover have "length r \<le> length j"
    if "expand_object_macro rec disabled live out w d j st = Some (out', r, st')" for d
    using that by (auto simp: expand_object_macro_def split: if_splits bind_splits)
  moreover assume "expand_ident rec disabled live out w j st = Some (out', r, st')"
  ultimately show ?thesis by (auto simp: expand_ident_def split: if_splits option.splits)
qed

lemma expand_step_length:
  "expand_step rec disabled live out f c cs st = Some (out', f', r, st') \<Longrightarrow> length r \<le> length cs"
  using pp_number_shorter [of c cs] length_dropWhile_le [of is_ident_continue cs]
  by (auto simp: expand_step_def Let_def split_beta split: if_splits option.splits dest!: expand_ident_length)

function expand_loop ::
  "expander \<Rightarrow> string set \<Rightarrow> string set \<Rightarrow> string \<Rightarrow> scan_flags \<Rightarrow> string \<Rightarrow> preprocessor \<Rightarrow>
     (string \<times> preprocessor) option" where
  "expand_loop rec disabled live out f [] st = Some (out, st)"
| "expand_loop rec disabled live out f (c # cs) st =
     (case expand_step rec disabled live out f c cs st of
        None \<Rightarrow> None
      | Some (out, f, r, st) \<Rightarrow> expand_loop rec disabled live out f r st)"
  by pat_completeness auto
termination
  by (relation "measure (\<lambda>(_, _, _, _, _, s, _). length s)") (auto simp: less_Suc_eq_le expand_step_length)

definition no_flags :: scan_flags where
  "no_flags = \<lparr>in_str = False, in_chr = False, after_backslash = False\<rparr>"

fun expand_text :: "nat \<Rightarrow> expander" where
  "expand_text 0 t disabled live st = None"
| "expand_text (Suc n) t disabled live st = expand_loop (expand_text n) disabled live [] no_flags t st"

definition expand_line :: "nat \<Rightarrow> string \<Rightarrow> preprocessor \<Rightarrow> (string \<times> preprocessor) option" where
  "expand_line n line st = expand_text n line {} {} st"

end
