(* ===== verification/PP_Headers.thy ===== *)
theory PP_Headers
  imports Prelude
begin

text \<open>
  The headers built into the preprocessor (\<open>Preprocessor::get_builtin_header\<close>), line by line.
  \<open>stdbool.h\<close> occurs twice in the code; the second entry is never reached and is left out.
\<close>

definition unlines :: "string list \<Rightarrow> string" where
  "unlines ls = concat (map (\<lambda>l. l @ [LF]) ls)"

definition header_stdarg :: string where
  "header_stdarg = unlines [
     ''#ifndef _STDARG_H'',
     ''#define _STDARG_H'',
     ''typedef __builtin_va_list va_list;'',
     ''typedef __builtin_va_list __gnuc_va_list;'',
     ''#define va_start(ap, param) __builtin_va_start(ap, param)'',
     ''#define va_end(ap) __builtin_va_end(ap)'',
     ''#define va_arg(ap, type) __builtin_va_arg(ap, type)'',
     ''#define va_copy(dest, src) __builtin_va_copy(dest, src)'',
     ''#define __va_copy(dest, src) __builtin_va_copy(dest, src)'',
     ''#endif'']"

definition header_limits :: string where
  "header_limits = unlines [
     ''#ifndef _LIMITS_H'',
     ''#define _LIMITS_H'',
     ''#define CHAR_BIT __CHAR_BIT__'',
     ''#define SCHAR_MIN (-__SCHAR_MAX__ - 1)'',
     ''#define SCHAR_MAX __SCHAR_MAX__'',
     ''#define UCHAR_MAX ((__SCHAR_MAX__ * 2) + 1)'',
     ''#define CHAR_MIN SCHAR_MIN'',
     ''#define CHAR_MAX SCHAR_MAX'',
     ''#define SHRT_MIN (-__SHRT_MAX__ - 1)'',
     ''#define SHRT_MAX __SHRT_MAX__'',
     ''#define USHRT_MAX ((__SHRT_MAX__ * 2) + 1)'',
     ''#define INT_MIN (-__INT_MAX__ - 1)'',
     ''#define INT_MAX __INT_MAX__'',
     ''#define UINT_MAX ((__INT_MAX__ * 2U) + 1U)'',
     ''#define LONG_MIN (-__LONG_MAX__ - 1L)'',
     ''#define LONG_MAX __LONG_MAX__'',
     ''#define ULONG_MAX ((__LONG_MAX__ * 2UL) + 1UL)'',
     ''#define LLONG_MIN (-__LONG_LONG_MAX__ - 1LL)'',
     ''#define LLONG_MAX __LONG_LONG_MAX__'',
     ''#define ULLONG_MAX ((__LONG_LONG_MAX__ * 2ULL) + 1ULL)'',
     ''#define LONG_LONG_MIN LLONG_MIN'',
     ''#define LONG_LONG_MAX LLONG_MAX'',
     ''#define ULONG_LONG_MAX ULLONG_MAX'',
     ''#define MB_LEN_MAX 16'',
     ''#endif'']"

definition header_stddef :: string where
  "header_stddef = unlines [
     ''#ifndef _STDDEF_H'',
     ''#define _STDDEF_H'',
     ''typedef __SIZE_TYPE__ size_t;'',
     ''typedef __PTRDIFF_TYPE__ ptrdiff_t;'',
     ''typedef int wchar_t;'',
     ''#define NULL ((void*)0)'',
     ''#define offsetof(type, member) __builtin_offsetof(type, member)'',
     ''#endif'']"

definition header_stdbool :: string where
  "header_stdbool = unlines [
     ''#ifndef _STDBOOL_H'',
     ''#define _STDBOOL_H'',
     ''#define bool _Bool'',
     ''#define true 1'',
     ''#define false 0'',
     ''#define __bool_true_false_are_defined 1'',
     ''#endif'']"

definition header_stdio :: string where
  "header_stdio = unlines [
     ''#ifndef _STDIO_H'',
     ''#define _STDIO_H'',
     ''#ifndef NULL'',
     ''#define NULL ((void*)0)'',
     ''#endif'',
     ''typedef __SIZE_TYPE__ size_t;'',
     ''typedef struct _IO_FILE FILE;'',
     ''extern FILE *stdin;'',
     ''extern FILE *stdout;'',
     ''extern FILE *stderr;'',
     ''#define EOF (-1)'',
     ''#define SEEK_SET 0'',
     ''#define SEEK_CUR 1'',
     ''#define SEEK_END 2'',
     ''int printf(const char *, ...);'',
     ''int fprintf(FILE *, const char *, ...);'',
     ''int sprintf(char *, const char *, ...);'',
     ''int snprintf(char *, size_t, const char *, ...);'',
     ''int vprintf(const char *, __builtin_va_list);'',
     ''int vfprintf(FILE *, const char *, __builtin_va_list);'',
     ''int vsprintf(char *, const char *, __builtin_va_list);'',
     ''int vsnprintf(char *, size_t, const char *, __builtin_va_list);'',
     ''int scanf(const char *, ...);'',
     ''int fscanf(FILE *, const char *, ...);'',
     ''int sscanf(const char *, const char *, ...);'',
     ''int fputc(int, FILE *);'',
     ''int fputs(const char *, FILE *);'',
     ''int putc(int, FILE *);'',
     ''int putchar(int);'',
     ''int puts(const char *);'',
     ''int fgetc(FILE *);'',
     ''int getc(FILE *);'',
     ''int getchar(void);'',
     ''char *fgets(char *, int, FILE *);'',
     ''size_t fread(void *, size_t, size_t, FILE *);'',
     ''size_t fwrite(const void *, size_t, size_t, FILE *);'',
     ''FILE *fopen(const char *, const char *);'',
     ''int fclose(FILE *);'',
     ''int fflush(FILE *);'',
     ''int fseek(FILE *, long, int);'',
     ''long ftell(FILE *);'',
     ''void rewind(FILE *);'',
     ''int feof(FILE *);'',
     ''int ferror(FILE *);'',
     ''void perror(const char *);'',
     ''int remove(const char *);'',
     ''int rename(const char *, const char *);'',
     ''FILE *tmpfile(void);'',
     ''char *tmpnam(char *);'',
     ''FILE *freopen(const char *, const char *, FILE *);'',
     ''int setvbuf(FILE *, char *, int, size_t);'',
     ''void setbuf(FILE *, char *);'',
     ''int ungetc(int, FILE *);'',
     ''void clearerr(FILE *);'',
     ''#define _IOFBF 0'',
     ''#define _IOLBF 1'',
     ''#define _IONBF 2'',
     ''#define BUFSIZ 8192'',
     ''#endif'']"

definition header_stdlib :: string where
  "header_stdlib = unlines [
     ''#ifndef _STDLIB_H'',
     ''#define _STDLIB_H'',
     ''#ifndef NULL'',
     ''#define NULL ((void*)0)'',
     ''#endif'',
     ''typedef __SIZE_TYPE__ size_t;'',
     ''#define EXIT_SUCCESS 0'',
     ''#define EXIT_FAILURE 1'',
     ''#define RAND_MAX 2147483647'',
     ''void abort(void);'',
     ''void exit(int);'',
     ''void _Exit(int);'',
     ''int atexit(void (*)(void));'',
     ''void *malloc(size_t);'',
     ''void *calloc(size_t, size_t);'',
     ''void *realloc(void *, size_t);'',
     ''void free(void *);'',
     ''int atoi(const char *);'',
     ''long atol(const char *);'',
     ''long long atoll(const char *);'',
     ''double atof(const char *);'',
     ''long strtol(const char *, char **, int);'',
     ''unsigned long strtoul(const char *, char **, int);'',
     ''long long strtoll(const char *, char **, int);'',
     ''unsigned long long strtoull(const char *, char **, int);'',
     ''double strtod(const char *, char **);'',
     ''int abs(int);'',
     ''long labs(long);'',
     ''long long llabs(long long);'',
     ''int rand(void);'',
     ''void srand(unsigned int);'',
     ''void qsort(void *, size_t, size_t, int (*)(const void *, const void *));'',
     ''void *bsearch(const void *, const void *, size_t, size_t, int (*)(const void *, const void *));'',
     ''char *getenv(const char *);'',
     ''int system(const char *);'',
     ''#endif'']"

definition header_string :: string where
  "header_string = unlines [
     ''#ifndef _STRING_H'',
     ''#define _STRING_H'',
     ''#ifndef NULL'',
     ''#define NULL ((void*)0)'',
     ''#endif'',
     ''typedef __SIZE_TYPE__ size_t;'',
     ''void *memcpy(void *, const void *, size_t);'',
     ''void *memmove(void *, const void *, size_t);'',
     ''void *memset(void *, int, size_t);'',
     ''int memcmp(const void *, const void *, size_t);'',
     ''void *memchr(const void *, int, size_t);'',
     ''char *strcpy(char *, const char *);'',
     ''char *strncpy(char *, const char *, size_t);'',
     ''char *strcat(char *, const char *);'',
     ''char *strncat(char *, const char *, size_t);'',
     ''int strcmp(const char *, const char *);'',
     ''int strncmp(const char *, const char *, size_t);'',
     ''char *strchr(const char *, int);'',
     ''char *strrchr(const char *, int);'',
     ''char *strstr(const char *, const char *);'',
     ''size_t strlen(const char *);'',
     ''size_t strspn(const char *, const char *);'',
     ''size_t strcspn(const char *, const char *);'',
     ''char *strdup(const char *);'',
     ''char *strerror(int);'',
     ''#endif'']"

definition header_signal :: string where
  "header_signal = unlines [
     ''#ifndef _SIGNAL_H'',
     ''#define _SIGNAL_H'',
     ''typedef void (*__sighandler_t)(int);'',
     ''#define SIG_DFL ((__sighandler_t)0)'',
     ''#define SIG_IGN ((__sighandler_t)1)'',
     ''#define SIG_ERR ((__sighandler_t)-1)'',
     ''#define SIGHUP 1'',
     ''#define SIGINT 2'',
     ''#define SIGQUIT 3'',
     ''#define SIGILL 4'',
     ''#define SIGTRAP 5'',
     ''#define SIGABRT 6'',
     ''#define SIGFPE 8'',
     ''#define SIGKILL 9'',
     ''#define SIGSEGV 11'',
     ''#define SIGPIPE 13'',
     ''#define SIGALRM 14'',
     ''#define SIGTERM 15'',
     ''__sighandler_t signal(int, __sighandler_t);'',
     ''int raise(int);'',
     ''#endif'']"

definition header_assert :: string where
  "header_assert = unlines [
     ''#ifndef _ASSERT_H'',
     ''#define _ASSERT_H'',
     ''#ifdef NDEBUG'',
     ''#define assert(expr) ((void)0)'',
     ''#else'',
     ''extern void __assert_fail(const char *, const char *, unsigned int, const char *);'',
     ''#define assert(expr) ((expr) ? (void)0 : __assert_fail(#expr, __FILE__, __LINE__, __func__))'',
     ''#endif'',
     ''#endif'']"

definition header_float :: string where
  "header_float = unlines [
     ''#ifndef _FLOAT_H'',
     ''#define _FLOAT_H'',
     ''#define FLT_RADIX 2'',
     ''#define FLT_MANT_DIG 24'',
     ''#define FLT_DIG 6'',
     ''#define FLT_MIN_EXP (-125)'',
     ''#define FLT_MIN_10_EXP (-37)'',
     ''#define FLT_MAX_EXP 128'',
     ''#define FLT_MAX_10_EXP 38'',
     ''#define FLT_MAX 3.40282347e+38F'',
     ''#define FLT_MIN 1.17549435e-38F'',
     ''#define FLT_EPSILON 1.19209290e-07F'',
     ''#define DBL_MANT_DIG 53'',
     ''#define DBL_DIG 15'',
     ''#define DBL_MIN_EXP (-1021)'',
     ''#define DBL_MIN_10_EXP (-307)'',
     ''#define DBL_MAX_EXP 1024'',
     ''#define DBL_MAX_10_EXP 308'',
     ''#define DBL_MAX 1.7976931348623157e+308'',
     ''#define DBL_MIN 2.2250738585072014e-308'',
     ''#define DBL_EPSILON 2.2204460492503131e-16'',
     ''#define LDBL_MANT_DIG 64'',
     ''#define LDBL_DIG 18'',
     ''#define LDBL_MIN_EXP (-16381)'',
     ''#define LDBL_MIN_10_EXP (-4931)'',
     ''#define LDBL_MAX_EXP 16384'',
     ''#define LDBL_MAX_10_EXP 4932'',
     ''#define LDBL_MAX 1.18973149535723176502e+4932L'',
     ''#define LDBL_MIN 3.36210314311209350626e-4932L'',
     ''#define LDBL_EPSILON 1.08420217248550443401e-19L'',
     ''#define FLT_ROUNDS 1'',
     ''#define FLT_EVAL_METHOD 0'',
     ''#define DECIMAL_DIG 21'',
     ''#endif'']"

definition header_setjmp :: string where
  "header_setjmp = unlines [
     ''#ifndef _SETJMP_H'',
     ''#define _SETJMP_H'',
     ''typedef long jmp_buf[8];'',
     ''typedef long sigjmp_buf[9];'',
     ''int setjmp(jmp_buf);'',
     ''void longjmp(jmp_buf, int);'',
     ''int _setjmp(jmp_buf);'',
     ''void _longjmp(jmp_buf, int);'',
     ''int sigsetjmp(sigjmp_buf, int);'',
     ''void siglongjmp(sigjmp_buf, int);'',
     ''#endif'']"

definition header_ctype :: string where
  "header_ctype = unlines [
     ''#ifndef _CTYPE_H'',
     ''#define _CTYPE_H'',
     ''int isalnum(int);'',
     ''int isalpha(int);'',
     ''int isblank(int);'',
     ''int iscntrl(int);'',
     ''int isdigit(int);'',
     ''int isgraph(int);'',
     ''int islower(int);'',
     ''int isprint(int);'',
     ''int ispunct(int);'',
     ''int isspace(int);'',
     ''int isupper(int);'',
     ''int isxdigit(int);'',
     ''int tolower(int);'',
     ''int toupper(int);'',
     ''#endif'']"

definition header_math :: string where
  "header_math = unlines [
     ''#ifndef _MATH_H'',
     ''#define _MATH_H'',
     ''#define HUGE_VAL __builtin_huge_val()'',
     ''#define HUGE_VALF __builtin_huge_valf()'',
     ''#define INFINITY __builtin_inff()'',
     ''#define NAN __builtin_nanf('' @ [DQ, DQ] @ '')'',
     ''#define isinf(x) __builtin_isinf(x)'',
     ''#define isnan(x) __builtin_isnan(x)'',
     ''#define isnormal(x) __builtin_isnormal(x)'',
     ''#define isfinite(x) __builtin_isfinite(x)'',
     ''#define signbit(x) __builtin_signbit(x)'',
     ''double fabs(double);'',
     ''float fabsf(float);'',
     ''double sqrt(double);'',
     ''float sqrtf(float);'',
     ''double sin(double);'',
     ''double cos(double);'',
     ''double tan(double);'',
     ''double asin(double);'',
     ''double acos(double);'',
     ''double atan(double);'',
     ''double atan2(double, double);'',
     ''double exp(double);'',
     ''double log(double);'',
     ''double log10(double);'',
     ''double pow(double, double);'',
     ''double ceil(double);'',
     ''double floor(double);'',
     ''double fmod(double, double);'',
     ''double ldexp(double, int);'',
     ''double frexp(double, int *);'',
     ''double modf(double, double *);'',
     ''float sinf(float);'',
     ''float cosf(float);'',
     ''float tanf(float);'',
     ''float sqrtf(float);'',
     ''float expf(float);'',
     ''float logf(float);'',
     ''float log10f(float);'',
     ''float powf(float, float);'',
     ''float ceilf(float);'',
     ''float floorf(float);'',
     ''float fmodf(float, float);'',
     ''#endif'']"

definition header_fcntl :: string where
  "header_fcntl = unlines [
     ''#ifndef _FCNTL_H'',
     ''#define _FCNTL_H'',
     ''#define O_RDONLY 0'',
     ''#define O_WRONLY 1'',
     ''#define O_RDWR 2'',
     ''#define O_CREAT 0100'',
     ''#define O_EXCL 0200'',
     ''#define O_NOCTTY 0400'',
     ''#define O_TRUNC 01000'',
     ''#define O_APPEND 02000'',
     ''#define O_NONBLOCK 04000'',
     ''#define O_CLOEXEC 02000000'',
     ''int open(const char *, int, ...);'',
     ''int creat(const char *, unsigned int);'',
     ''int fcntl(int, int, ...);'',
     ''#endif'']"

definition header_sys_mman :: string where
  "header_sys_mman = unlines [
     ''#ifndef _SYS_MMAN_H'',
     ''#define _SYS_MMAN_H'',
     ''#ifndef NULL'',
     ''#define NULL ((void*)0)'',
     ''#endif'',
     ''typedef __SIZE_TYPE__ size_t;'',
     ''typedef long off_t;'',
     ''#define PROT_NONE 0'',
     ''#define PROT_READ 1'',
     ''#define PROT_WRITE 2'',
     ''#define PROT_EXEC 4'',
     ''#define MAP_SHARED 0x01'',
     ''#define MAP_PRIVATE 0x02'',
     ''#define MAP_FIXED 0x10'',
     ''#define MAP_ANONYMOUS 0x20'',
     ''#define MAP_ANON MAP_ANONYMOUS'',
     ''#define MAP_FAILED ((void *)-1)'',
     ''void *mmap(void *, size_t, int, int, int, off_t);'',
     ''int munmap(void *, size_t);'',
     ''int mprotect(void *, size_t, int);'',
     ''int msync(void *, size_t, int);'',
     ''#endif'']"

definition header_sys_types :: string where
  "header_sys_types = unlines [
     ''#ifndef _SYS_TYPES_H'',
     ''#define _SYS_TYPES_H'',
     ''typedef __SIZE_TYPE__ size_t;'',
     ''typedef long ssize_t;'',
     ''typedef long off_t;'',
     ''typedef int pid_t;'',
     ''typedef unsigned int uid_t;'',
     ''typedef unsigned int gid_t;'',
     ''typedef unsigned int mode_t;'',
     ''#endif'']"

definition header_sys_stat :: string where
  "header_sys_stat = unlines [
     ''#ifndef _SYS_STAT_H'',
     ''#define _SYS_STAT_H'',
     ''typedef unsigned int mode_t;'',
     ''typedef long off_t;'',
     ''#define S_IRWXU 0700'',
     ''#define S_IRUSR 0400'',
     ''#define S_IWUSR 0200'',
     ''#define S_IXUSR 0100'',
     ''#define S_IRWXG 070'',
     ''#define S_IRGRP 040'',
     ''#define S_IWGRP 020'',
     ''#define S_IXGRP 010'',
     ''#define S_IRWXO 07'',
     ''#define S_IROTH 04'',
     ''#define S_IWOTH 02'',
     ''#define S_IXOTH 01'',
     ''int chmod(const char *, mode_t);'',
     ''int mkdir(const char *, mode_t);'',
     ''int stat(const char *, void *);'',
     ''int fstat(int, void *);'',
     ''#endif'']"

definition header_unistd :: string where
  "header_unistd = unlines [
     ''#ifndef _UNISTD_H'',
     ''#define _UNISTD_H'',
     ''typedef __SIZE_TYPE__ size_t;'',
     ''typedef long ssize_t;'',
     ''typedef long off_t;'',
     ''typedef int pid_t;'',
     ''#ifndef NULL'',
     ''#define NULL ((void*)0)'',
     ''#endif'',
     ''#define STDIN_FILENO 0'',
     ''#define STDOUT_FILENO 1'',
     ''#define STDERR_FILENO 2'',
     ''ssize_t read(int, void *, size_t);'',
     ''ssize_t write(int, const void *, size_t);'',
     ''int close(int);'',
     ''off_t lseek(int, off_t, int);'',
     ''int unlink(const char *);'',
     ''int rmdir(const char *);'',
     ''char *getcwd(char *, size_t);'',
     ''int chdir(const char *);'',
     ''pid_t fork(void);'',
     ''pid_t getpid(void);'',
     ''unsigned int sleep(unsigned int);'',
     ''int usleep(unsigned int);'',
     ''int access(const char *, int);'',
     ''#endif'']"

definition header_stdint :: string where
  "header_stdint = unlines [
     ''#ifndef _STDINT_H'',
     ''#define _STDINT_H'',
     ''typedef __INT8_TYPE__ int8_t;'',
     ''typedef __INT16_TYPE__ int16_t;'',
     ''typedef __INT32_TYPE__ int32_t;'',
     ''typedef __INT64_TYPE__ int64_t;'',
     ''typedef __UINT8_TYPE__ uint8_t;'',
     ''typedef __UINT16_TYPE__ uint16_t;'',
     ''typedef __UINT32_TYPE__ uint32_t;'',
     ''typedef __UINT64_TYPE__ uint64_t;'',
     ''typedef __INT_LEAST8_TYPE__ int_least8_t;'',
     ''typedef __INT_LEAST16_TYPE__ int_least16_t;'',
     ''typedef __INT_LEAST32_TYPE__ int_least32_t;'',
     ''typedef __INT_LEAST64_TYPE__ int_least64_t;'',
     ''typedef __UINT_LEAST8_TYPE__ uint_least8_t;'',
     ''typedef __UINT_LEAST16_TYPE__ uint_least16_t;'',
     ''typedef __UINT_LEAST32_TYPE__ uint_least32_t;'',
     ''typedef __UINT_LEAST64_TYPE__ uint_least64_t;'',
     ''typedef __INT_FAST8_TYPE__ int_fast8_t;'',
     ''typedef __INT_FAST16_TYPE__ int_fast16_t;'',
     ''typedef __INT_FAST32_TYPE__ int_fast32_t;'',
     ''typedef __INT_FAST64_TYPE__ int_fast64_t;'',
     ''typedef __UINT_FAST8_TYPE__ uint_fast8_t;'',
     ''typedef __UINT_FAST16_TYPE__ uint_fast16_t;'',
     ''typedef __UINT_FAST32_TYPE__ uint_fast32_t;'',
     ''typedef __UINT_FAST64_TYPE__ uint_fast64_t;'',
     ''typedef __INTPTR_TYPE__ intptr_t;'',
     ''typedef __UINTPTR_TYPE__ uintptr_t;'',
     ''typedef __INTMAX_TYPE__ intmax_t;'',
     ''typedef __UINTMAX_TYPE__ uintmax_t;'',
     ''#define INT8_MIN (-__INT8_MAX__ - 1)'',
     ''#define INT8_MAX __INT8_MAX__'',
     ''#define UINT8_MAX __UINT8_MAX__'',
     ''#define INT16_MIN (-__INT16_MAX__ - 1)'',
     ''#define INT16_MAX __INT16_MAX__'',
     ''#define UINT16_MAX __UINT16_MAX__'',
     ''#define INT32_MIN (-__INT32_MAX__ - 1)'',
     ''#define INT32_MAX __INT32_MAX__'',
     ''#define UINT32_MAX __UINT32_MAX__'',
     ''#define INT64_MIN (-__INT64_MAX__ - 1LL)'',
     ''#define INT64_MAX __INT64_MAX__'',
     ''#define UINT64_MAX __UINT64_MAX__'',
     ''#define INTPTR_MIN (-__INTPTR_MAX__ - 1)'',
     ''#define INTPTR_MAX __INTPTR_MAX__'',
     ''#define UINTPTR_MAX __UINTPTR_MAX__'',
     ''#define INTMAX_MIN (-__INTMAX_MAX__ - 1LL)'',
     ''#define INTMAX_MAX __INTMAX_MAX__'',
     ''#define UINTMAX_MAX __UINTMAX_MAX__'',
     ''#define PTRDIFF_MIN (-__PTRDIFF_MAX__ - 1)'',
     ''#define PTRDIFF_MAX __PTRDIFF_MAX__'',
     ''#define SIZE_MAX __SIZE_MAX__'',
     ''#define INT8_C(x) (x)'',
     ''#define INT16_C(x) (x)'',
     ''#define INT32_C(x) (x)'',
     ''#define INT64_C(x) (x ## LL)'',
     ''#define UINT8_C(x) (x)'',
     ''#define UINT16_C(x) (x)'',
     ''#define UINT32_C(x) (x ## U)'',
     ''#define UINT64_C(x) (x ## ULL)'',
     ''#define INTMAX_C(x) (x ## LL)'',
     ''#define UINTMAX_C(x) (x ## ULL)'',
     ''#endif'']"

definition header_inttypes :: string where
  "header_inttypes = unlines [
     ''#ifndef _INTTYPES_H'',
     ''#define _INTTYPES_H'',
     ''#include <stdint.h>'',
     ''typedef struct { intmax_t quot; intmax_t rem; } imaxdiv_t;'',
     ''intmax_t imaxabs(intmax_t);'',
     ''imaxdiv_t imaxdiv(intmax_t, intmax_t);'',
     ''intmax_t strtoimax(const char *, char **, int);'',
     ''uintmax_t strtoumax(const char *, char **, int);'',
     ''#define PRId8 '' @ [DQ] @ ''d'' @ [DQ],
     ''#define PRId16 '' @ [DQ] @ ''d'' @ [DQ],
     ''#define PRId32 '' @ [DQ] @ ''d'' @ [DQ],
     ''#define PRId64 '' @ [DQ] @ ''ld'' @ [DQ],
     ''#define PRIi8 '' @ [DQ] @ ''i'' @ [DQ],
     ''#define PRIi16 '' @ [DQ] @ ''i'' @ [DQ],
     ''#define PRIi32 '' @ [DQ] @ ''i'' @ [DQ],
     ''#define PRIi64 '' @ [DQ] @ ''li'' @ [DQ],
     ''#define PRIu8 '' @ [DQ] @ ''u'' @ [DQ],
     ''#define PRIu16 '' @ [DQ] @ ''u'' @ [DQ],
     ''#define PRIu32 '' @ [DQ] @ ''u'' @ [DQ],
     ''#define PRIu64 '' @ [DQ] @ ''lu'' @ [DQ],
     ''#define PRIx8 '' @ [DQ] @ ''x'' @ [DQ],
     ''#define PRIx16 '' @ [DQ] @ ''x'' @ [DQ],
     ''#define PRIx32 '' @ [DQ] @ ''x'' @ [DQ],
     ''#define PRIx64 '' @ [DQ] @ ''lx'' @ [DQ],
     ''#define PRIX8 '' @ [DQ] @ ''X'' @ [DQ],
     ''#define PRIX16 '' @ [DQ] @ ''X'' @ [DQ],
     ''#define PRIX32 '' @ [DQ] @ ''X'' @ [DQ],
     ''#define PRIX64 '' @ [DQ] @ ''lX'' @ [DQ],
     ''#define PRIo8 '' @ [DQ] @ ''o'' @ [DQ],
     ''#define PRIo16 '' @ [DQ] @ ''o'' @ [DQ],
     ''#define PRIo32 '' @ [DQ] @ ''o'' @ [DQ],
     ''#define PRIo64 '' @ [DQ] @ ''lo'' @ [DQ],
     ''#define SCNd32 '' @ [DQ] @ ''d'' @ [DQ],
     ''#define SCNd64 '' @ [DQ] @ ''ld'' @ [DQ],
     ''#define SCNi32 '' @ [DQ] @ ''i'' @ [DQ],
     ''#define SCNi64 '' @ [DQ] @ ''li'' @ [DQ],
     ''#define SCNu32 '' @ [DQ] @ ''u'' @ [DQ],
     ''#define SCNu64 '' @ [DQ] @ ''lu'' @ [DQ],
     ''#define SCNx32 '' @ [DQ] @ ''x'' @ [DQ],
     ''#define SCNx64 '' @ [DQ] @ ''lx'' @ [DQ],
     ''#endif'']"

definition header_errno :: string where
  "header_errno = unlines [
     ''#ifndef _ERRNO_H'',
     ''#define _ERRNO_H'',
     ''extern int *__errno_location(void);'',
     ''#define errno (*__errno_location())'',
     ''#define EPERM 1'',
     ''#define ENOENT 2'',
     ''#define ESRCH 3'',
     ''#define EINTR 4'',
     ''#define EIO 5'',
     ''#define ENXIO 6'',
     ''#define E2BIG 7'',
     ''#define ENOEXEC 8'',
     ''#define EBADF 9'',
     ''#define ECHILD 10'',
     ''#define EAGAIN 11'',
     ''#define ENOMEM 12'',
     ''#define EACCES 13'',
     ''#define EFAULT 14'',
     ''#define EBUSY 16'',
     ''#define EEXIST 17'',
     ''#define EXDEV 18'',
     ''#define ENODEV 19'',
     ''#define ENOTDIR 20'',
     ''#define EISDIR 21'',
     ''#define EINVAL 22'',
     ''#define ENFILE 23'',
     ''#define EMFILE 24'',
     ''#define ENOTTY 25'',
     ''#define EFBIG 27'',
     ''#define ENOSPC 28'',
     ''#define ESPIPE 29'',
     ''#define EROFS 30'',
     ''#define EMLINK 31'',
     ''#define EPIPE 32'',
     ''#define EDOM 33'',
     ''#define ERANGE 34'',
     ''#define EDEADLK 35'',
     ''#define ENAMETOOLONG 36'',
     ''#define ENOSYS 38'',
     ''#define ENOTEMPTY 39'',
     ''#define EWOULDBLOCK EAGAIN'',
     ''#endif'']"

definition header_time :: string where
  "header_time = unlines [
     ''#ifndef _TIME_H'',
     ''#define _TIME_H'',
     ''#ifndef NULL'',
     ''#define NULL ((void*)0)'',
     ''#endif'',
     ''typedef __SIZE_TYPE__ size_t;'',
     ''typedef long time_t;'',
     ''typedef long clock_t;'',
     ''#define CLOCKS_PER_SEC 1000000L'',
     ''struct tm {'',
     ''  int tm_sec;'',
     ''  int tm_min;'',
     ''  int tm_hour;'',
     ''  int tm_mday;'',
     ''  int tm_mon;'',
     ''  int tm_year;'',
     ''  int tm_wday;'',
     ''  int tm_yday;'',
     ''  int tm_isdst;'',
     ''};'',
     ''time_t time(time_t *);'',
     ''clock_t clock(void);'',
     ''double difftime(time_t, time_t);'',
     ''time_t mktime(struct tm *);'',
     ''struct tm *localtime(const time_t *);'',
     ''struct tm *gmtime(const time_t *);'',
     ''char *asctime(const struct tm *);'',
     ''char *ctime(const time_t *);'',
     ''size_t strftime(char *, size_t, const char *, const struct tm *);'',
     ''#endif'']"

definition builtin_headers :: "(string \<times> string) list" where
  "builtin_headers = [
     (''stdarg.h'', header_stdarg),
     (''limits.h'', header_limits),
     (''stddef.h'', header_stddef),
     (''stdbool.h'', header_stdbool),
     (''stdio.h'', header_stdio),
     (''stdlib.h'', header_stdlib),
     (''string.h'', header_string),
     (''signal.h'', header_signal),
     (''assert.h'', header_assert),
     (''float.h'', header_float),
     (''setjmp.h'', header_setjmp),
     (''ctype.h'', header_ctype),
     (''math.h'', header_math),
     (''fcntl.h'', header_fcntl),
     (''sys/mman.h'', header_sys_mman),
     (''sys/types.h'', header_sys_types),
     (''sys/stat.h'', header_sys_stat),
     (''unistd.h'', header_unistd),
     (''stdint.h'', header_stdint),
     (''inttypes.h'', header_inttypes),
     (''errno.h'', header_errno),
     (''time.h'', header_time)]"

text \<open>The empty text when there is no such header.\<close>

definition get_builtin_header :: "string \<Rightarrow> string" where
  "get_builtin_header name = (case map_of builtin_headers name of None \<Rightarrow> [] | Some t \<Rightarrow> t)"

end
