(* ===== verification/PP_Include.thy ===== *)
theory PP_Include
  imports PP_State PP_Headers
begin

text \<open>
  Finding included files (\<open>pp_include.cpp\<close>, and \<open>handle_include\<close>, \<open>can_resolve_include\<close> and
  \<open>detect_include_guard\<close> of \<open>preprocessor.cpp\<close>). The file system is a parameter, the map \<open>files\<close>
  from paths to contents, which \<open>read_file\<close> looks up; it does not change during a run.
\<close>

type_synonym file_system = "string \<rightharpoonup> string"

definition dirname_of :: "string \<Rightarrow> string" where
  "dirname_of path =
     (if CHR ''/'' \<notin> set path then []
      else let dir = rev (tl (dropWhile (\<lambda>c. c \<noteq> CHR ''/'') (rev path))) in
           if dir = [] then ''/'' else dir)"

definition read_file :: "file_system \<Rightarrow> string \<Rightarrow> string option" where
  "read_file files path = files path"

definition shell_quote :: "string \<Rightarrow> string" where
  "shell_quote s = [SQ] @ concat (map (\<lambda>c. if c = SQ then [SQ, DQ, SQ, DQ, SQ] else [c]) s) @ [SQ]"

definition quoted_form :: "string \<Rightarrow> bool" where
  "quoted_form s = (2 \<le> length s \<and> hd s = DQ \<and> last s = DQ)"

definition angle_form :: "string \<Rightarrow> bool" where
  "angle_form s = (2 \<le> length s \<and> hd s = CHR ''<'' \<and> last s = CHR ''>'')"

definition inner_text :: "string \<Rightarrow> string" where
  "inner_text s = take (length s - 2) (drop 1 s)"

definition full_path :: "string \<Rightarrow> string \<Rightarrow> string" where
  "full_path dir rel = (if dir = [] then rel else dir @ ''/'' @ rel)"

section \<open>Search\<close>

definition include_dirs :: "bool \<Rightarrow> bool \<Rightarrow> string \<Rightarrow> preprocessor \<Rightarrow> string list" where
  "include_dirs is_quoted is_include_next current_file st =
     (if is_quoted \<and> \<not> is_include_next then dirname_of current_file # quote_include_paths st
      else if is_quoted \<and> is_include_next then quote_include_paths st
      else []) @
     normal_include_paths st @ system_include_paths st @ after_include_paths st"

definition in_directory :: "string \<Rightarrow> string \<Rightarrow> bool" where
  "in_directory path dir =
     (if dir = [] then False
      else let prefix = (if last dir \<noteq> CHR ''/'' then dir @ ''/'' else dir) in
           take (length prefix) path = prefix)"

text \<open>For \<open>#include_next\<close> the search goes on behind the directory of the current file.\<close>

fun after_current :: "string \<Rightarrow> string list \<Rightarrow> string list option" where
  "after_current current_file [] = None"
| "after_current current_file (d # ds) =
     (if in_directory current_file d \<or> dirname_of current_file = d then Some ds else after_current current_file ds)"

definition search_dirs :: "bool \<Rightarrow> bool \<Rightarrow> string \<Rightarrow> preprocessor \<Rightarrow> string list" where
  "search_dirs is_quoted is_include_next current_file st =
     (let dirs = include_dirs is_quoted is_include_next current_file st in
      if is_include_next then (case after_current current_file dirs of None \<Rightarrow> dirs | Some ds \<Rightarrow> ds)
      else dirs)"

text \<open>The first path that can be read; the empty text when there is none.\<close>

fun try_dirs :: "file_system \<Rightarrow> string \<Rightarrow> string list \<Rightarrow> string" where
  "try_dirs files rel [] = []"
| "try_dirs files rel (d # ds) =
     (if read_file files (full_path d rel) \<noteq> None \<and> full_path d rel \<noteq> [] then full_path d rel
      else try_dirs files rel ds)"

definition include_cache_key :: "bool \<Rightarrow> string \<Rightarrow> string \<Rightarrow> string" where
  "include_cache_key is_angle rel current_file =
     rel @ ''|'' @ (if is_angle then ''a'' else ''q:'' @ dirname_of current_file)"

text \<open>The resolved path, and the state with the cache filled.\<close>

definition resolve_include ::
  "file_system \<Rightarrow> bool \<Rightarrow> bool \<Rightarrow> string \<Rightarrow> string \<Rightarrow> preprocessor \<Rightarrow> string \<times> preprocessor" where
  "resolve_include files is_angle is_include_next rel current_file st =
     (let key = include_cache_key is_angle rel current_file;
          cached = (if is_include_next then [] else case include_resolve_cache st key of None \<Rightarrow> [] | Some p \<Rightarrow> p) in
      if cached \<noteq> [] then (cached, st)
      else
        let resolved = try_dirs files rel (search_dirs (\<not> is_angle) is_include_next current_file st) in
        (resolved,
         if resolved \<noteq> [] \<and> \<not> is_include_next
         then st\<lparr>include_resolve_cache := (include_resolve_cache st)(key \<mapsto> resolved)\<rparr> else st))"

definition can_resolve_include :: "file_system \<Rightarrow> string \<Rightarrow> string \<Rightarrow> preprocessor \<Rightarrow> bool" where
  "can_resolve_include files path_arg current_file st =
     (let s = trim_copy path_arg; rel = inner_text s in
      if \<not> quoted_form s \<and> \<not> angle_form s then False
      else (\<exists>d \<in> set (include_dirs (quoted_form s) False current_file st). read_file files (full_path d rel) \<noteq> None) \<or>
           get_builtin_header rel \<noteq> [])"

section \<open>Include guards\<close>

function lines_of :: "string \<Rightarrow> string list" where
  "lines_of [] = []"
| "lines_of (c # cs) =
     takeWhile (\<lambda>c. c \<noteq> LF) (c # cs) # lines_of (tl (dropWhile (\<lambda>c. c \<noteq> LF) (c # cs)))"
  by pat_completeness auto
termination
proof (relation "measure length")
  fix c :: char and cs
  have "length (dropWhile (\<lambda>c. c \<noteq> LF) (c # cs)) \<le> length (c # cs)" by (rule length_dropWhile_le)
  then show "(tl (dropWhile (\<lambda>c. c \<noteq> LF) (c # cs)), c # cs) \<in> measure length"
    by (cases "dropWhile (\<lambda>c. c \<noteq> LF) (c # cs)") auto
qed simp

record guard_scan =
  guard_name :: string
  directive_count :: nat
  nesting :: int

definition not_blank :: "char \<Rightarrow> bool" where
  "not_blank c = (c \<noteq> SP \<and> c \<noteq> HT)"

text \<open>One line of the scan; \<open>None\<close> is \<open>valid = false\<close>.\<close>

definition guard_directive :: "string \<Rightarrow> string \<Rightarrow> guard_scan \<Rightarrow> guard_scan option" where
  "guard_directive key rest g =
     (if directive_count g = 0 then
        if key = ''ifndef'' \<and> rest \<noteq> [] \<and> list_all (\<lambda>c. isalnum c \<or> c = CHR ''_'') rest
        then Some \<lparr>guard_name = rest, directive_count = 1, nesting = 1\<rparr>
        else None
      else if directive_count g = 1 then
        if key = ''define'' \<and> takeWhile (\<lambda>c. not_blank c \<and> c \<noteq> CHR ''('') rest = guard_name g
        then Some (g\<lparr>directive_count := 2\<rparr>)
        else None
      else Some (g\<lparr>directive_count := directive_count g + 1,
                   nesting := nesting g + (if key = ''if'' \<or> key = ''ifdef'' \<or> key = ''ifndef'' then 1
                                           else if key = ''endif'' then -1 else 0)\<rparr>))"

definition guard_line :: "string \<Rightarrow> guard_scan \<Rightarrow> guard_scan option" where
  "guard_line line g =
     (case dropWhile is_space_or_tab line of
        [] \<Rightarrow> Some g
      | c # cs \<Rightarrow>
          if c \<noteq> CHR ''#'' then if directive_count g = 0 then None else Some g
          else
            let s = dropWhile is_space_or_tab cs;
                key = takeWhile not_blank s;
                rest = dropWhile is_space_or_tab (dropWhile not_blank s) in
            guard_directive key (rev (dropWhile (\<lambda>c. c = SP \<or> c = HT \<or> c = CR) (rev rest))) g)"

fun guard_lines :: "string list \<Rightarrow> guard_scan \<Rightarrow> guard_scan option" where
  "guard_lines [] g = Some g"
| "guard_lines (l # ls) g = (case guard_line l g of None \<Rightarrow> None | Some g \<Rightarrow> guard_lines ls g)"

definition detect_include_guard :: "string \<Rightarrow> string" where
  "detect_include_guard source =
     (case guard_lines (lines_of source) \<lparr>guard_name = [], directive_count = 0, nesting = 0\<rparr> of
        None \<Rightarrow> []
      | Some g \<Rightarrow>
          if guard_name g = [] \<or> nesting g \<noteq> 0 \<or> directive_count g < 2 then [] else guard_name g)"

end
