(* ===== verification/PP_Cond.thy ===== *)
theory PP_Cond
  imports PP_Text "HOL-Library.Signed_Division"
begin

unbundle bit_operations_syntax

text \<open>
  Evaluation of \<open>#if\<close> expressions (\<open>frontend/preprocessor/pp_cond.cpp\<close>): 64-bit values with a
  signedness flag and the recursive-descent parser \<open>IfExprParser\<close>. The parser's position in
  \<open>text_\<close> is the unread text. Every method takes the bound \<open>n\<close> on nested calls and loop
  rounds; \<open>parse_if_expr\<close> starts with one more than the length of the text, which is shown to be
  enough. \<open>undefined_behaviour\<close> records that a signed operation left the range of
  \<open>long long\<close> (the C++ behaviour is then undefined, the value is the wrapped one).
\<close>

section \<open>Values\<close>

record expr_value =
  bits :: u64
  is_unsigned :: bool

definition make_signed :: "u64 \<Rightarrow> expr_value" where
  "make_signed v = \<lparr>bits = v, is_unsigned = False\<rparr>"

definition make_unsigned :: "u64 \<Rightarrow> expr_value" where
  "make_unsigned v = \<lparr>bits = v, is_unsigned = True\<rparr>"

definition as_signed :: "expr_value \<Rightarrow> int" where
  "as_signed v = sint (bits v)"

definition as_bool :: "expr_value \<Rightarrow> bool" where
  "as_bool v = (bits v \<noteq> 0)"

definition of_bool_value :: "bool \<Rightarrow> expr_value" where
  "of_bool_value b = make_signed (if b then 1 else 0)"

text \<open>A \<open>long long\<close> result: its bits, and whether it fits.\<close>

definition fits_signed :: "int \<Rightarrow> bool" where
  "fits_signed i = (- (2 ^ 63) \<le> i \<and> i < 2 ^ 63)"

datatype binop = LogOr | LogAnd | BitOr | BitXor | BitAnd | EqEq | NotEq | LessEq | GreaterEq |
  LessThan | GreaterThan | ShiftLeft | ShiftRight | PlusOp | MinusOp | TimesOp | DivideOp | ModuloOp

text \<open>The result of an operator: the value, whether it is allowed, whether it is undefined.\<close>

type_synonym op_result = "expr_value \<times> bool \<times> bool"

definition plain :: "expr_value \<Rightarrow> op_result" where
  "plain v = (v, True, False)"

definition signed_result :: "int \<Rightarrow> op_result" where
  "signed_result i = (make_signed (word_of_int i), True, \<not> fits_signed i)"

definition arith :: "(u64 \<Rightarrow> u64 \<Rightarrow> u64) \<Rightarrow> (int \<Rightarrow> int \<Rightarrow> int) \<Rightarrow> expr_value \<Rightarrow> expr_value \<Rightarrow> op_result" where
  "arith f g lhs rhs =
     (if is_unsigned lhs \<or> is_unsigned rhs then plain (make_unsigned (f (bits lhs) (bits rhs)))
      else signed_result (g (as_signed lhs) (as_signed rhs)))"

definition bitwise :: "(u64 \<Rightarrow> u64 \<Rightarrow> u64) \<Rightarrow> expr_value \<Rightarrow> expr_value \<Rightarrow> op_result" where
  "bitwise f lhs rhs =
     (if is_unsigned lhs \<or> is_unsigned rhs then plain (make_unsigned (f (bits lhs) (bits rhs)))
      else plain (make_signed (f (bits lhs) (bits rhs))))"

definition compare :: "(u64 \<Rightarrow> u64 \<Rightarrow> bool) \<Rightarrow> (int \<Rightarrow> int \<Rightarrow> bool) \<Rightarrow> expr_value \<Rightarrow> expr_value \<Rightarrow> op_result" where
  "compare f g lhs rhs =
     plain (of_bool_value
       (if is_unsigned lhs \<or> is_unsigned rhs then f (bits lhs) (bits rhs)
        else g (as_signed lhs) (as_signed rhs)))"

definition divide_op :: "(u64 \<Rightarrow> u64 \<Rightarrow> u64) \<Rightarrow> (int \<Rightarrow> int \<Rightarrow> int) \<Rightarrow> expr_value \<Rightarrow> expr_value \<Rightarrow> op_result" where
  "divide_op f g lhs rhs =
     (if bits rhs = 0 then (make_signed 0, False, False)
      else if is_unsigned lhs \<or> is_unsigned rhs then plain (make_unsigned (f (bits lhs) (bits rhs)))
      else (make_signed (word_of_int (g (as_signed lhs) (as_signed rhs))), True,
            \<not> fits_signed (as_signed lhs sdiv as_signed rhs)))"

definition shift_amount :: "expr_value \<Rightarrow> nat" where
  "shift_amount rhs = unat (bits rhs AND 63)"

fun apply_binop :: "binop \<Rightarrow> expr_value \<Rightarrow> expr_value \<Rightarrow> op_result" where
  "apply_binop LogOr lhs rhs = plain (of_bool_value (as_bool lhs \<or> as_bool rhs))"
| "apply_binop LogAnd lhs rhs = plain (of_bool_value (as_bool lhs \<and> as_bool rhs))"
| "apply_binop BitOr lhs rhs = bitwise (OR) lhs rhs"
| "apply_binop BitXor lhs rhs = bitwise (XOR) lhs rhs"
| "apply_binop BitAnd lhs rhs = bitwise (AND) lhs rhs"
| "apply_binop EqEq lhs rhs = compare (=) (=) lhs rhs"
| "apply_binop NotEq lhs rhs = compare (\<noteq>) (\<noteq>) lhs rhs"
| "apply_binop LessEq lhs rhs = compare (\<le>) (\<le>) lhs rhs"
| "apply_binop GreaterEq lhs rhs = compare (\<ge>) (\<ge>) lhs rhs"
| "apply_binop LessThan lhs rhs = compare (<) (<) lhs rhs"
| "apply_binop GreaterThan lhs rhs = compare (>) (>) lhs rhs"
| "apply_binop ShiftLeft lhs rhs =
     (let sh = shift_amount rhs in
      if is_unsigned lhs then plain (make_unsigned (push_bit sh (bits lhs)))
      else (make_signed (push_bit sh (bits lhs)), True,
            as_signed lhs < 0 \<or> 2 ^ 64 \<le> as_signed lhs * 2 ^ sh))"
| "apply_binop ShiftRight lhs rhs =
     (let sh = shift_amount rhs in
      if is_unsigned lhs then plain (make_unsigned (drop_bit sh (bits lhs)))
      else plain (make_signed (word_of_int (as_signed lhs div 2 ^ sh))))"
| "apply_binop PlusOp lhs rhs = arith (+) (+) lhs rhs"
| "apply_binop MinusOp lhs rhs = arith (-) (-) lhs rhs"
| "apply_binop TimesOp lhs rhs = arith (*) (*) lhs rhs"
| "apply_binop DivideOp lhs rhs = divide_op (div) (sdiv) lhs rhs"
| "apply_binop ModuloOp lhs rhs = divide_op (mod) (smod) lhs rhs"

datatype unop = UnaryPlus | UnaryMinus | LogNot | BitNot

fun apply_unop :: "unop \<Rightarrow> expr_value \<Rightarrow> op_result" where
  "apply_unop UnaryPlus v = plain v"
| "apply_unop UnaryMinus v =
     (if is_unsigned v then plain (make_unsigned (0 - bits v)) else signed_result (- as_signed v))"
| "apply_unop LogNot v = plain (of_bool_value (\<not> as_bool v))"
| "apply_unop BitNot v =
     (if is_unsigned v then plain (make_unsigned (NOT (bits v))) else plain (make_signed (NOT (bits v))))"

section \<open>The parser's state\<close>

record if_parser =
  unread :: string
  ok :: bool
  undefined_behaviour :: bool

definition skip_spaces :: "if_parser \<Rightarrow> if_parser" where
  "skip_spaces p = p\<lparr>unread := dropWhile isspace (unread p)\<rparr>"

definition consume :: "string \<Rightarrow> if_parser \<Rightarrow> bool \<times> if_parser" where
  "consume op p =
     (let p = skip_spaces p in
      if take (length op) (unread p) = op then (True, p\<lparr>unread := drop (length op) (unread p)\<rparr>)
      else (False, p))"

definition consume_single :: "char \<Rightarrow> char \<Rightarrow> if_parser \<Rightarrow> bool \<times> if_parser" where
  "consume_single op disallow p =
     (let p = skip_spaces p in
      case unread p of
        [] \<Rightarrow> (False, p)
      | c # cs \<Rightarrow>
          if c \<noteq> op then (False, p)
          else if cs \<noteq> [] \<and> hd cs = disallow then (False, p)
          else (True, p\<lparr>unread := cs\<rparr>))"

definition fail :: "if_parser \<Rightarrow> expr_value \<times> if_parser" where
  "fail p = (make_signed 0, p\<lparr>ok := False\<rparr>)"

text \<open>An operator's effect on the parser: \<open>ok_\<close> is cleared by a division by zero.\<close>

definition finish_op :: "op_result \<Rightarrow> if_parser \<Rightarrow> expr_value \<times> if_parser" where
  "finish_op r p =
     (case r of (v, good, undef) \<Rightarrow>
        (v, p\<lparr>ok := ok p \<and> good, undefined_behaviour := undefined_behaviour p \<or> undef\<rparr>))"

section \<open>Literals\<close>

definition hex_value :: "char \<Rightarrow> nat" where
  "hex_value c =
     (if isdigit c then code c - 48
      else if 97 \<le> code c \<and> code c \<le> 102 then code c - 97 + 10
      else code c - 65 + 10)"

definition is_octal :: "char \<Rightarrow> bool" where
  "is_octal c = (48 \<le> code c \<and> code c \<le> 55)"

text \<open>The escape after a backslash: the code (an \<open>unsigned int\<close>) and the text behind it.\<close>

definition char_escape :: "char \<Rightarrow> string \<Rightarrow> u32 \<times> string" where
  "char_escape e r =
     (if e = CHR ''n'' then (10, r)
      else if e = CHR ''r'' then (13, r)
      else if e = CHR ''t'' then (9, r)
      else if e = BSL then (92, r)
      else if e = SQ then (39, r)
      else if is_octal e then
        let more = takeWhile is_octal (take 2 r) in
        (fold (\<lambda>d ch. ch * 8 + of_nat (digit_value d)) more (of_nat (digit_value e)), drop (length more) r)
      else if e = CHR ''x'' then
        (fold (\<lambda>d ch. ch * 16 + of_nat (hex_value d)) (takeWhile isxdigit r) 0, dropWhile isxdigit r)
      else (of_nat (code e), r))"

definition close_char :: "if_parser \<Rightarrow> u32 \<times> string \<Rightarrow> expr_value \<times> if_parser" where
  "close_char p cr =
     (case snd cr of
        [] \<Rightarrow> fail (p\<lparr>unread := []\<rparr>)
      | q # qs \<Rightarrow>
          if q \<noteq> SQ then fail (p\<lparr>unread := q # qs\<rparr>)
          else (make_signed (ucast (fst cr)), p\<lparr>unread := qs\<rparr>))"

definition parse_char_literal :: "if_parser \<Rightarrow> expr_value \<times> if_parser" where
  "parse_char_literal p =
     (let p = skip_spaces p in
      case unread p of
        [] \<Rightarrow> fail p
      | c # cs \<Rightarrow>
          if c \<noteq> SQ then fail p
          else case cs of
                 [] \<Rightarrow> fail (p\<lparr>unread := []\<rparr>)
               | d # ds \<Rightarrow>
                   if d = BSL then
                     (case ds of
                        [] \<Rightarrow> fail (p\<lparr>unread := []\<rparr>)
                      | e # es \<Rightarrow> close_char p (char_escape e es))
                   else close_char p (of_nat (code d), ds))"

text \<open>\<open>strtoull\<close> on the digits of a literal, with its saturation; the flag says that the whole token
  was read.\<close>

definition valid_digit :: "nat \<Rightarrow> char \<Rightarrow> bool" where
  "valid_digit base c = (isxdigit c \<and> hex_value c < base)"

definition strtoull :: "nat \<Rightarrow> string \<Rightarrow> u64 \<times> bool" where
  "strtoull base token =
     (let digits = (if base = 16 then drop 2 token else token);
          v = fold (\<lambda>d n. n * base + hex_value d) (takeWhile (valid_digit base) digits) 0 in
      (of_nat (min v (2 ^ 64 - 1)), dropWhile (valid_digit base) digits = []))"

definition int_token :: "string \<Rightarrow> string" where
  "int_token s =
     (if take 1 s = ''0'' \<and> (take 1 (drop 1 s) = ''x'' \<or> take 1 (drop 1 s) = ''X'')
      then take 2 s @ takeWhile isxdigit (drop 2 s)
      else takeWhile isdigit s)"

definition is_int_suffix :: "char \<Rightarrow> bool" where
  "is_int_suffix c = (c \<in> set ''uUlL'')"

definition parse_int_literal :: "if_parser \<Rightarrow> expr_value \<times> if_parser" where
  "parse_int_literal p =
     (let p = skip_spaces p;
          token = int_token (unread p);
          r = drop (length token) (unread p) in
      if token = [] then fail p
      else
        let suffix = takeWhile is_int_suffix r;
            p = p\<lparr>unread := dropWhile is_int_suffix r\<rparr>;
            base = (if 2 < length token \<and> take 1 token = ''0'' \<and>
                       (token ! 1 = CHR ''x'' \<or> token ! 1 = CHR ''X'') then 16
                    else if 1 < length token \<and> take 1 token = ''0'' then 8 else 10);
            (v, complete) = strtoull base token in
        if \<not> complete then fail p
        else if CHR ''u'' \<in> set suffix \<or> CHR ''U'' \<in> set suffix \<or> 2 ^ 63 - 1 < v
        then (make_unsigned v, p)
        else (make_signed v, p))"

section \<open>The methods\<close>

type_synonym parser = "if_parser \<Rightarrow> (expr_value \<times> if_parser) option"

definition drop_unread :: "nat \<Rightarrow> if_parser \<Rightarrow> if_parser" where
  "drop_unread k p = p\<lparr>unread := drop k (unread p)\<rparr>"

definition require :: "bool \<times> if_parser \<Rightarrow> if_parser" where
  "require bp = (if fst bp then snd bp else (snd bp)\<lparr>ok := False\<rparr>)"

text \<open>The operand of \<open>defined\<close>, with or without parentheses.\<close>

definition parse_defined :: "(string \<Rightarrow> bool) \<Rightarrow> if_parser \<Rightarrow> expr_value \<times> if_parser" where
  "parse_defined is_defined_name p =
     (let (paren, p) = consume ''('' (skip_spaces p);
          p = (if paren then skip_spaces p else p);
          name = takeWhile is_ident_continue (unread p);
          p = drop_unread (length name) p;
          p = (if paren then require (consume '')'' (skip_spaces p)) else p) in
      (of_bool_value (is_defined_name name), p))"

text \<open>An identifier in an expression: \<open>defined\<close>, the prefix of a character literal, or zero.\<close>

definition parse_identifier :: "(string \<Rightarrow> bool) \<Rightarrow> if_parser \<Rightarrow> expr_value \<times> if_parser" where
  "parse_identifier is_defined_name p =
     (let ident = takeWhile is_ident_continue (unread p);
          p = drop_unread (length ident) p in
      if ident = ''defined'' then parse_defined is_defined_name p
      else if (ident = ''L'' \<or> ident = ''u'' \<or> ident = ''U'') \<and> take 1 (unread p) = [SQ]
      then parse_char_literal p
      else (make_signed 0, p))"

definition parse_primary :: "(string \<Rightarrow> bool) \<Rightarrow> parser \<Rightarrow> parser" where
  "parse_primary is_defined_name conditional p =
     (let p = skip_spaces p in
      if unread p = [] then Some (fail p)
      else
        let (paren, p) = consume ''('' p in
        if paren then
          (case conditional p of
             None \<Rightarrow> None
           | Some (v, p) \<Rightarrow> Some (v, require (consume '')'' p)))
        else if is_ident_start (hd (unread p)) then Some (parse_identifier is_defined_name p)
        else if hd (unread p) = SQ then Some (parse_char_literal p)
        else Some (parse_int_literal p))"

text \<open>The prefix operators in the order the code tries them.\<close>

definition unary_ops :: "(string \<times> unop) list" where
  "unary_ops = [(''+'', UnaryPlus), (''-'', UnaryMinus), (''!'', LogNot), (''~'', BitNot)]"

fun match_unop :: "(string \<times> unop) list \<Rightarrow> if_parser \<Rightarrow> unop option \<times> if_parser" where
  "match_unop [] p = (None, p)"
| "match_unop ((s, op) # ops) p =
     (let (found, p) = consume s p in if found then (Some op, p) else match_unop ops p)"

fun parse_unary :: "(string \<Rightarrow> bool) \<Rightarrow> parser \<Rightarrow> nat \<Rightarrow> parser" where
  "parse_unary is_defined_name conditional 0 p = None"
| "parse_unary is_defined_name conditional (Suc n) p =
     (let (op, p) = match_unop unary_ops p in
      case op of
        None \<Rightarrow> parse_primary is_defined_name conditional p
      | Some op \<Rightarrow>
          (case parse_unary is_defined_name conditional n p of
             None \<Rightarrow> None
           | Some (v, p) \<Rightarrow> Some (finish_op (apply_unop op v) p)))"

text \<open>
  The binary levels share one shape: parse an operand of the next level, then, as long as one of
  the level's operators is there (tried in order), another operand, and combine them.
\<close>

datatype matcher = Operator string | SingleChar char char

fun match :: "matcher \<Rightarrow> if_parser \<Rightarrow> bool \<times> if_parser" where
  "match (Operator s) p = consume s p"
| "match (SingleChar c d) p = consume_single c d p"

fun match_binop :: "(matcher \<times> binop) list \<Rightarrow> if_parser \<Rightarrow> binop option \<times> if_parser" where
  "match_binop [] p = (None, p)"
| "match_binop ((m, op) # ops) p =
     (let (found, p) = match m p in if found then (Some op, p) else match_binop ops p)"

fun binary_loop :: "(matcher \<times> binop) list \<Rightarrow> parser \<Rightarrow> nat \<Rightarrow> expr_value \<Rightarrow> parser" where
  "binary_loop ops operand 0 lhs p = None"
| "binary_loop ops operand (Suc n) lhs p =
     (let (op, p) = match_binop ops p in
      case op of
        None \<Rightarrow> Some (lhs, p)
      | Some op \<Rightarrow>
          (case operand p of
             None \<Rightarrow> None
           | Some (rhs, p) \<Rightarrow>
               let (v, p) = finish_op (apply_binop op lhs rhs) p in binary_loop ops operand n v p))"

definition binary_level :: "(matcher \<times> binop) list \<Rightarrow> parser \<Rightarrow> nat \<Rightarrow> parser" where
  "binary_level ops operand n p =
     (case operand p of None \<Rightarrow> None | Some (lhs, p) \<Rightarrow> binary_loop ops operand n lhs p)"

definition parse_multiplicative :: "(string \<Rightarrow> bool) \<Rightarrow> parser \<Rightarrow> nat \<Rightarrow> parser" where
  "parse_multiplicative is_defined_name conditional n =
     binary_level [(Operator ''*'', TimesOp), (Operator ''/'', DivideOp), (Operator ''%'', ModuloOp)]
       (parse_unary is_defined_name conditional n) n"

definition parse_additive :: "(string \<Rightarrow> bool) \<Rightarrow> parser \<Rightarrow> nat \<Rightarrow> parser" where
  "parse_additive is_defined_name conditional n =
     binary_level [(Operator ''+'', PlusOp), (Operator ''-'', MinusOp)]
       (parse_multiplicative is_defined_name conditional n) n"

definition parse_shift :: "(string \<Rightarrow> bool) \<Rightarrow> parser \<Rightarrow> nat \<Rightarrow> parser" where
  "parse_shift is_defined_name conditional n =
     binary_level [(Operator ''<<'', ShiftLeft), (Operator ''>>'', ShiftRight)]
       (parse_additive is_defined_name conditional n) n"

definition parse_relational :: "(string \<Rightarrow> bool) \<Rightarrow> parser \<Rightarrow> nat \<Rightarrow> parser" where
  "parse_relational is_defined_name conditional n =
     binary_level [(Operator ''<='', LessEq), (Operator ''>='', GreaterEq), (Operator ''<'', LessThan),
                   (Operator ''>'', GreaterThan)]
       (parse_shift is_defined_name conditional n) n"

definition parse_equality :: "(string \<Rightarrow> bool) \<Rightarrow> parser \<Rightarrow> nat \<Rightarrow> parser" where
  "parse_equality is_defined_name conditional n =
     binary_level [(Operator ''=='', EqEq), (Operator ''!='', NotEq)]
       (parse_relational is_defined_name conditional n) n"

definition parse_bitand :: "(string \<Rightarrow> bool) \<Rightarrow> parser \<Rightarrow> nat \<Rightarrow> parser" where
  "parse_bitand is_defined_name conditional n =
     binary_level [(SingleChar (CHR ''&'') (CHR ''&''), BitAnd)]
       (parse_equality is_defined_name conditional n) n"

definition parse_bitxor :: "(string \<Rightarrow> bool) \<Rightarrow> parser \<Rightarrow> nat \<Rightarrow> parser" where
  "parse_bitxor is_defined_name conditional n =
     binary_level [(Operator ''^'', BitXor)] (parse_bitand is_defined_name conditional n) n"

definition parse_bitor :: "(string \<Rightarrow> bool) \<Rightarrow> parser \<Rightarrow> nat \<Rightarrow> parser" where
  "parse_bitor is_defined_name conditional n =
     binary_level [(SingleChar (CHR ''|'') (CHR ''|''), BitOr)]
       (parse_bitxor is_defined_name conditional n) n"

definition parse_logical_and :: "(string \<Rightarrow> bool) \<Rightarrow> parser \<Rightarrow> nat \<Rightarrow> parser" where
  "parse_logical_and is_defined_name conditional n =
     binary_level [(Operator ''&&'', LogAnd)] (parse_bitor is_defined_name conditional n) n"

definition parse_logical_or :: "(string \<Rightarrow> bool) \<Rightarrow> parser \<Rightarrow> nat \<Rightarrow> parser" where
  "parse_logical_or is_defined_name conditional n =
     binary_level [(Operator ''||'', LogOr)] (parse_logical_and is_defined_name conditional n) n"

text \<open>The conditional operator, with the recursive calls bounded by \<open>n\<close>.\<close>

fun parse_conditional :: "(string \<Rightarrow> bool) \<Rightarrow> nat \<Rightarrow> parser" where
  "parse_conditional is_defined_name 0 p = None"
| "parse_conditional is_defined_name (Suc n) p =
     (case parse_logical_or is_defined_name (parse_conditional is_defined_name n) (Suc n) p of
        None \<Rightarrow> None
      | Some (c, p) \<Rightarrow>
          let (question, p) = consume ''?'' (skip_spaces p) in
          if \<not> question then Some (c, p)
          else case parse_conditional is_defined_name n p of
                 None \<Rightarrow> None
               | Some (t, p) \<Rightarrow>
                   let (colon, p) = consume '':'' p in
                   if \<not> colon then Some (fail p)
                   else case parse_conditional is_defined_name n p of
                          None \<Rightarrow> None
                        | Some (f, p) \<Rightarrow> Some (if as_bool c then t else f, p))"

definition parse_if_expr :: "(string \<Rightarrow> bool) \<Rightarrow> string \<Rightarrow> (expr_value \<times> if_parser) option" where
  "parse_if_expr is_defined_name text =
     (case parse_conditional is_defined_name (Suc (length text))
             \<lparr>unread = text, ok = True, undefined_behaviour = False\<rparr> of
        None \<Rightarrow> None
      | Some (v, p) \<Rightarrow>
          let p = skip_spaces p in Some (v, if unread p \<noteq> [] then p\<lparr>ok := False\<rparr> else p))"

end
