(* ===== verification/PP_Directives.thy ===== *)
theory PP_Directives
  imports PP_Expand PP_Include PP_Intrinsics PP_Cond
begin

text \<open>
  Directives and the line loop (\<open>preprocessor.cpp\<close>: \<open>preprocess_text\<close>, \<open>process_directive\<close> and the
  \<open>handle_\<close> methods). The environment holds the file system, the host and the bound on nested
  macro expansions. A run ends early when that bound is too small, or with the exception that
  \<open>std::stoi\<close> throws on an oversized line number; the state is then not looked at any more.
\<close>

record pp_env =
  env_files :: file_system
  env_host :: build_host
  env_levels :: nat

datatype pp_stop = OutOfLevels | LineNumberOutOfRange

type_synonym 'a result = "pp_stop + 'a"

definition and_then :: "'a result \<Rightarrow> ('a \<Rightarrow> 'b result) \<Rightarrow> 'b result" where
  "and_then r f = (case r of Inl e \<Rightarrow> Inl e | Inr x \<Rightarrow> f x)"

lemma and_then_simps [simp]: "and_then (Inr x) f = f x" "and_then (Inl e) f = Inl e"
  by (simp_all add: and_then_def)

lemma and_then_InrD: "and_then r f = Inr y \<Longrightarrow> \<exists>x. r = Inr x \<and> f x = Inr y"
  by (cases r) simp_all

definition expand :: "pp_env \<Rightarrow> string \<Rightarrow> preprocessor \<Rightarrow> (string \<times> preprocessor) result" where
  "expand env line st =
     (case expand_line (env_levels env) line st of None \<Rightarrow> Inl OutOfLevels | Some x \<Rightarrow> Inr x)"

section \<open>Conditionals\<close>

definition is_active :: "preprocessor \<Rightarrow> bool" where
  "is_active st = (case cond_stack st of [] \<Rightarrow> True | f # fs \<Rightarrow> this_active f)"

definition set_fallback :: "preprocessor \<Rightarrow> preprocessor" where
  "set_fallback st = st\<lparr>needs_external_fallback := True\<rparr>"

definition push_frame :: "bool \<Rightarrow> preprocessor \<Rightarrow> preprocessor" where
  "push_frame take_it st =
     (let active = is_active st in
      st\<lparr>cond_stack := \<lparr>parent_active = active, any_taken = active \<and> take_it, this_active = active \<and> take_it,
                        saw_else = False\<rparr> # cond_stack st\<rparr>)"

definition is_macro :: "preprocessor \<Rightarrow> string \<Rightarrow> bool" where
  "is_macro st name = (macros st name \<noteq> None)"

definition evaluate_if_expr :: "pp_env \<Rightarrow> string \<Rightarrow> preprocessor \<Rightarrow> (bool \<times> preprocessor) result" where
  "evaluate_if_expr env expr st =
     (let resolve = (\<lambda>text st. resolve_defined_and_intrinsics (env_host env) text (is_macro st)
            (Some (\<lambda>arg. can_resolve_include (env_files env) arg (virtual_file st) st))) in
      and_then (expand env (resolve expr st) st) (\<lambda>(expanded, st).
        let s = trim_copy (resolve expanded st) in
        if s = [] then Inr (False, st)
        else case parse_if_expr (is_macro st) s of
               None \<Rightarrow> Inl OutOfLevels
             | Some (v, p) \<Rightarrow> if \<not> ok p then Inr (False, set_fallback st) else Inr (as_bool v, st)))"

definition handle_ifdef :: "string \<Rightarrow> bool \<Rightarrow> preprocessor \<Rightarrow> preprocessor" where
  "handle_ifdef args is_ifndef st =
     (let is_def = is_macro st (trim_copy args) in
      push_frame (if is_ifndef then \<not> is_def else is_def) st)"

definition handle_if :: "pp_env \<Rightarrow> string \<Rightarrow> preprocessor \<Rightarrow> preprocessor result" where
  "handle_if env args st =
     and_then (evaluate_if_expr env args st) (\<lambda>(take_it, st). Inr (push_frame take_it st))"

definition elif_frame :: "bool \<Rightarrow> conditional_frame \<Rightarrow> conditional_frame" where
  "elif_frame take_it f =
     (let active = parent_active f \<and> \<not> any_taken f \<and> take_it in
      f\<lparr>this_active := active, any_taken := any_taken f \<or> active\<rparr>)"

definition handle_elif :: "pp_env \<Rightarrow> string \<Rightarrow> preprocessor \<Rightarrow> preprocessor result" where
  "handle_elif env args st =
     (case cond_stack st of
        [] \<Rightarrow> Inr (set_fallback st)
      | f # fs \<Rightarrow>
          if saw_else f then Inr (set_fallback st)
          else
            and_then (if any_taken f then Inr (False, st) else evaluate_if_expr env args st) (\<lambda>(take_it, st).
              Inr (st\<lparr>cond_stack := elif_frame take_it f # fs\<rparr>)))"

definition else_frame :: "conditional_frame \<Rightarrow> conditional_frame" where
  "else_frame f =
     (let active = parent_active f \<and> \<not> any_taken f in
      f\<lparr>saw_else := True, this_active := active, any_taken := any_taken f \<or> active\<rparr>)"

definition handle_else :: "preprocessor \<Rightarrow> preprocessor" where
  "handle_else st =
     (case cond_stack st of
        [] \<Rightarrow> set_fallback st
      | f # fs \<Rightarrow> if saw_else f then set_fallback st else st\<lparr>cond_stack := else_frame f # fs\<rparr>)"

definition handle_endif :: "preprocessor \<Rightarrow> preprocessor" where
  "handle_endif st =
     (case cond_stack st of [] \<Rightarrow> set_fallback st | f # fs \<Rightarrow> st\<lparr>cond_stack := fs\<rparr>)"

section \<open>Definitions\<close>

definition ends_in_dots :: "string \<Rightarrow> bool" where
  "ends_in_dots p = (3 < length p \<and> drop (length p - 3) p = ''...'')"

definition add_param :: "string \<Rightarrow> macro_def \<Rightarrow> macro_def" where
  "add_param p d =
     (if p = ''...'' then d\<lparr>variadic := True\<rparr>
      else if ends_in_dots p then d\<lparr>variadic := True, va_name := trim_copy (take (length p - 3) p)\<rparr>
      else d\<lparr>params := params d @ [p]\<rparr>)"

text \<open>The parameter list, from the text after its opening parenthesis.\<close>

fun parse_params :: "string \<Rightarrow> string \<Rightarrow> macro_def \<Rightarrow> macro_def \<times> string" where
  "parse_params param [] d = (d, [])"
| "parse_params param (c # cs) d =
     (if c = CHR '')'' then (if param \<noteq> [] then add_param (trim_copy param) d else d, cs)
      else if c = CHR '','' then
        parse_params [] cs (if trim_copy param \<noteq> [] then add_param (trim_copy param) d else d)
      else parse_params (param @ [c]) cs d)"

definition handle_define :: "string \<Rightarrow> string \<Rightarrow> nat \<Rightarrow> preprocessor \<Rightarrow> preprocessor" where
  "handle_define args file line_no st =
     (let s = dropWhile isspace args in
      if s = [] \<or> \<not> is_ident_start (hd s) then add_error file line_no ''invalid #define: missing macro name'' st
      else
        let name = takeWhile is_ident_continue s;
            r = dropWhile is_ident_continue s;
            d = object_macro name [];
            (d, r) = (if r \<noteq> [] \<and> hd r = CHR ''('' then parse_params [] (tl r) (d\<lparr>function_like := True\<rparr>)
                      else (d, r)) in
        set_macro name (d\<lparr>body := dropWhile isspace r\<rparr>) st)"

definition handle_undef :: "string \<Rightarrow> preprocessor \<Rightarrow> preprocessor" where
  "handle_undef args st = (let name = trim_copy args in if name = [] then st else erase_macro name st)"

section \<open>Other directives\<close>

definition line_marker :: "int \<Rightarrow> string \<Rightarrow> string \<Rightarrow> string" where
  "line_marker n file flags = ''# '' @ show_int n @ '' '' @ [DQ] @ file @ [DQ] @ flags @ [LF]"

definition decimal_value :: "string \<Rightarrow> nat" where
  "decimal_value ds = fold (\<lambda>c v. v * 10 + digit_value c) ds 0"

definition handle_line ::
  "pp_env \<Rightarrow> string \<Rightarrow> string \<Rightarrow> string \<Rightarrow> nat \<Rightarrow> preprocessor \<Rightarrow> (string \<times> preprocessor) result" where
  "handle_line env rest out current_file line_no st =
     and_then (expand env (trim_copy rest) st) (\<lambda>(expanded, st).
       let s = dropWhile isspace expanded;
           digits = takeWhile isdigit s in
       if digits = [] then
         Inr (out @ [LF], add_error current_file line_no ''#line directive: missing line number'' st)
       else if 2 ^ 31 \<le> decimal_value digits then Inl LineNumberOutOfRange
       else
         let new_lineno = int (decimal_value digits);
             r = dropWhile isspace (dropWhile isdigit s);
             new_file = (if r \<noteq> [] \<and> hd r = DQ then takeWhile (\<lambda>c. c \<noteq> DQ) (tl r) else virtual_file st) in
         Inr (out @ line_marker new_lineno new_file [],
              st\<lparr>virtual_line_offset := new_lineno - (int line_no + 1), virtual_file := new_file\<rparr>))"

definition handle_pragma :: "string \<Rightarrow> string \<Rightarrow> string \<Rightarrow> preprocessor \<Rightarrow> string \<times> preprocessor" where
  "handle_pragma rest out current_file st =
     (let s = trim_copy rest in
      if s = ''once'' then (out, st\<lparr>pragma_once_files := insert current_file (pragma_once_files st)\<rparr>)
      else if take 10 s = ''push_macro'' then (out, pragma_push_macro s st)
      else if take 9 s = ''pop_macro'' then (out, pragma_pop_macro s st)
      else if take 4 s = ''pack'' then (out @ ''#pragma pack'' @ drop 4 s @ [LF], st)
      else if take 4 s = ''weak'' then (out @ ''#pragma '' @ s @ [LF], st)
      else if take 14 s = ''GCC visibility'' then (out @ ''#pragma '' @ s @ [LF], st)
      else if take 7 s = ''c4 exec'' then (out @ ''#pragma '' @ s @ [LF], st)
      else (out, if dispatch_pragma rest = Unhandled then set_fallback st else st))"

text \<open>
  \<open>#include\<close>: \<open>nested\<close> is \<open>preprocess_text\<close> one level deeper, applied to the contents and the name of
  the included file.
\<close>

type_synonym nested = "string \<Rightarrow> string \<Rightarrow> preprocessor \<Rightarrow> (string \<times> preprocessor) result"

definition enter_file :: "nested \<Rightarrow> string \<Rightarrow> string \<Rightarrow> string \<Rightarrow> nat \<Rightarrow> preprocessor \<Rightarrow> (string \<times> preprocessor) result" where
  "enter_file nested contents name current_file line_no st =
     and_then (nested contents name st) (\<lambda>(t, st).
       Inr (line_marker 1 name '' 1'' @ t @ line_marker (int line_no + 1) current_file '' 2'', st))"

definition include_resolved ::
  "pp_env \<Rightarrow> nested \<Rightarrow> string \<Rightarrow> string \<Rightarrow> string \<Rightarrow> nat \<Rightarrow> preprocessor \<Rightarrow> (string \<times> preprocessor) result" where
  "include_resolved env nested rel resolved current_file line_no st =
     (if profile st = ProfileC \<and> header_kind_from_extension resolved = DotHpp then
        Inr ([LF], add_error current_file line_no (''cannot include C++ header '' @ [SQ] @ rel @ [SQ] @ '' in C mode'') st)
      else if resolved \<in> pragma_once_files st then Inr ([LF], st)
      else if (case include_guard_map st resolved of None \<Rightarrow> False | Some g \<Rightarrow> is_macro st g) then Inr ([LF], st)
      else
        case read_file (env_files env) resolved of
          None \<Rightarrow> Inr ([LF], add_error current_file line_no (''include file not found: '' @ rel) st)
        | Some contents \<Rightarrow>
            let guard = detect_include_guard contents;
                st = (if include_guard_map st resolved = None \<and> guard \<noteq> []
                      then st\<lparr>include_guard_map := (include_guard_map st)(resolved \<mapsto> guard)\<rparr> else st) in
            enter_file nested contents resolved current_file line_no st)"

definition include_path ::
  "pp_env \<Rightarrow> nested \<Rightarrow> bool \<Rightarrow> bool \<Rightarrow> string \<Rightarrow> string \<Rightarrow> nat \<Rightarrow> preprocessor \<Rightarrow> (string \<times> preprocessor) result" where
  "include_path env nested is_angle is_include_next rel current_file line_no st =
     (let (resolved, st) = resolve_include (env_files env) is_angle is_include_next rel current_file st in
      if resolved = [] then
        let builtin = get_builtin_header rel in
        if builtin \<noteq> [] then enter_file nested builtin (''<builtin-'' @ rel @ ''>'') current_file line_no st
        else Inr ([LF], add_error current_file line_no (''include file not found: '' @ rel)
               (if is_angle then set_fallback st else st))
      else include_resolved env nested rel resolved current_file line_no st)"

definition handle_include ::
  "pp_env \<Rightarrow> nested \<Rightarrow> string \<Rightarrow> string \<Rightarrow> nat \<Rightarrow> bool \<Rightarrow> preprocessor \<Rightarrow> (string \<times> preprocessor) result" where
  "handle_include env nested args current_file line_no is_include_next st =
     (let s = trim_copy args in
      if s = [] then Inr ([LF], add_error current_file line_no ''empty #include'' st)
      else if quoted_form s \<or> angle_form s then
        include_path env nested (angle_form s) is_include_next (inner_text s) current_file line_no st
      else
        and_then (expand env s st) (\<lambda>(e, st).
          let s = trim_copy e in
          if quoted_form s \<or> angle_form s then
            include_path env nested (angle_form s) is_include_next (inner_text s) current_file line_no st
          else Inr ([LF], add_error current_file line_no ''computed #include did not expand to a valid path'' st)))"

section \<open>Dispatch\<close>

text \<open>A state change whose output is one line end.\<close>

definition blank_line :: "string \<Rightarrow> preprocessor result \<Rightarrow> (string \<times> preprocessor) result" where
  "blank_line out r = and_then r (\<lambda>st. Inr (out @ [LF], st))"

definition conditional_directive ::
  "pp_env \<Rightarrow> string \<Rightarrow> string \<Rightarrow> preprocessor \<Rightarrow> preprocessor result option" where
  "conditional_directive env key rest st =
     (if key = ''if'' then Some (handle_if env rest st)
      else if key = ''ifdef'' then Some (Inr (handle_ifdef rest False st))
      else if key = ''ifndef'' then Some (Inr (handle_ifdef rest True st))
      else if key = ''elif'' then Some (handle_elif env rest st)
      else if key = ''else'' then Some (Inr (handle_else st))
      else if key = ''endif'' then Some (Inr (handle_endif st))
      else None)"

definition active_directive ::
  "pp_env \<Rightarrow> nested \<Rightarrow> string \<Rightarrow> string \<Rightarrow> string \<Rightarrow> string \<Rightarrow> nat \<Rightarrow> preprocessor \<Rightarrow> (string \<times> preprocessor) result" where
  "active_directive env nested key rest out current_file line_no st =
     (if key = ''define'' then Inr (out @ [LF], handle_define rest current_file line_no st)
      else if key = ''undef'' then Inr (out @ [LF], handle_undef rest st)
      else if key = ''include'' \<or> key = ''include_next'' then
        and_then (handle_include env nested rest current_file line_no (key = ''include_next'') st)
          (\<lambda>(t, st). Inr (out @ t, st))
      else if key = ''error'' then Inr (out @ [LF], add_error current_file line_no (trim_copy rest) st)
      else if key = ''warning'' then Inr (out @ [LF], add_warning current_file line_no (trim_copy rest) st)
      else if key = ''pragma'' then let (out, st) = handle_pragma rest out current_file st in Inr (out @ [LF], st)
      else if key = ''line'' then handle_line env rest out current_file line_no st
      else Inr (out @ [LF], set_fallback st))"

definition process_directive ::
  "pp_env \<Rightarrow> nested \<Rightarrow> string \<Rightarrow> string \<Rightarrow> string \<Rightarrow> nat \<Rightarrow> preprocessor \<Rightarrow> (string \<times> preprocessor) result" where
  "process_directive env nested raw_line out current_file line_no st =
     (let (key, rest) = split_directive raw_line in
      if key = [] then Inr (out @ [LF], st)
      else case conditional_directive env key rest st of
             Some r \<Rightarrow> blank_line out r
           | None \<Rightarrow>
               if \<not> is_active st then Inr (out @ [LF], st)
               else active_directive env nested key rest out current_file line_no st)"

section \<open>The line loop\<close>

function paren_depth :: "bool \<Rightarrow> bool \<Rightarrow> string \<Rightarrow> int" where
  "paren_depth s t [] = 0"
| "paren_depth s t (c # cs) =
     (if (s \<or> t) \<and> c = BSL \<and> cs \<noteq> [] then paren_depth s t (tl cs)
      else if s then paren_depth (c \<noteq> DQ) t cs
      else if t then paren_depth s (c \<noteq> SQ) cs
      else if c = DQ then paren_depth True t cs
      else if c = SQ then paren_depth s True cs
      else (if c = CHR ''('' then 1 else if c = CHR '')'' then -1 else 0) + paren_depth s t cs)"
  by pat_completeness auto
termination by (relation "measure (\<lambda>(_, _, s). length s)") (auto simp: less_Suc_eq_le)

definition has_unbalanced_parens :: "string \<Rightarrow> bool" where
  "has_unbalanced_parens line = (0 < paren_depth False False line)"

definition directive_text :: "string \<Rightarrow> string option" where
  "directive_text line =
     (case dropWhile is_space_or_tab line of
        [] \<Rightarrow> None
      | c # cs \<Rightarrow> if c = CHR ''#'' then Some cs else None)"

definition set_line_macro :: "nat \<Rightarrow> preprocessor \<Rightarrow> preprocessor" where
  "set_line_macro line_no st =
     set_macro ''__LINE__'' (object_macro ''__LINE__'' (show_int (int line_no + virtual_line_offset st))) st"

definition set_file_macro :: "preprocessor \<Rightarrow> preprocessor" where
  "set_file_macro st = set_macro ''__FILE__'' (object_macro ''__FILE__'' ([DQ] @ virtual_file st @ [DQ])) st"

text \<open>
  A call spread over several lines: lines are joined while parentheses are open, directives among
  them are processed at once. \<open>direct\<close> processes a directive.
\<close>

type_synonym directive_handler = "string \<Rightarrow> string \<Rightarrow> nat \<Rightarrow> preprocessor \<Rightarrow> (string \<times> preprocessor) result"

fun accumulate ::
  "pp_env \<Rightarrow> directive_handler \<Rightarrow> string \<Rightarrow> string \<Rightarrow> nat \<Rightarrow> nat \<Rightarrow> string list \<Rightarrow> preprocessor \<Rightarrow>
     (string \<times> string \<times> nat \<times> nat \<times> string list \<times> preprocessor) result" where
  "accumulate env direct out line line_no extra [] st = Inr (out, line, line_no, extra, [], st)"
| "accumulate env direct out line line_no extra (l # ls) st =
     (if \<not> has_unbalanced_parens line then Inr (out, line, line_no, extra, l # ls, st)
      else
        let st = set_line_macro (line_no + 1) st in
        case directive_text l of
          Some raw \<Rightarrow>
            and_then (direct raw out (line_no + 1) st) (\<lambda>(out, st).
              accumulate env direct out line (line_no + 1) (extra + 1) ls st)
        | None \<Rightarrow>
            and_then (expand env l st) (\<lambda>(e, st).
              accumulate env direct out (line @ [SP] @ e) (line_no + 1) (extra + 1) ls st))"

lemma accumulate_length:
  "accumulate env direct out line line_no extra ls st = Inr (out', line', line_no', extra', ls', st') \<Longrightarrow>
     length ls' \<le> length ls"
proof (induction ls arbitrary: out line line_no extra st)
  case (Cons l ls)
  let ?st = "set_line_macro (line_no + 1) st"
  let ?res = "Inr (out', line', line_no', extra', ls', st')"
  consider (stop) "\<not> has_unbalanced_parens line" | (joined) "has_unbalanced_parens line" "directive_text l = None"
    | (directive) raw where "has_unbalanced_parens line" "directive_text l = Some raw" by fastforce
  then show ?case
  proof cases
    case stop
    with Cons.prems show ?thesis by simp
  next
    case joined
    with Cons.prems have "and_then (expand env l ?st) (\<lambda>(e, st).
        accumulate env direct out (line @ [SP] @ e) (line_no + 1) (extra + 1) ls st) = ?res"
      by (simp only: accumulate.simps Let_def option.case simp_thms if_False)
    then obtain x where "(case x of (e, st) \<Rightarrow>
        accumulate env direct out (line @ [SP] @ e) (line_no + 1) (extra + 1) ls st) = ?res"
      by (blast dest: and_then_InrD)
    then have "length ls' \<le> length ls" using Cons.IH by (cases x) (simp only: prod.case)
    then show ?thesis by simp
  next
    case (directive raw)
    with Cons.prems have "and_then (direct raw out (line_no + 1) ?st) (\<lambda>(out, st).
        accumulate env direct out line (line_no + 1) (extra + 1) ls st) = ?res"
      by (simp only: accumulate.simps Let_def option.case simp_thms if_False)
    then obtain x where "(case x of (out, st) \<Rightarrow>
        accumulate env direct out line (line_no + 1) (extra + 1) ls st) = ?res"
      by (blast dest: and_then_InrD)
    then have "length ls' \<le> length ls" using Cons.IH by (cases x) (simp only: prod.case)
    then show ?thesis by simp
  qed
qed simp

function line_loop ::
  "pp_env \<Rightarrow> directive_handler \<Rightarrow> string \<Rightarrow> nat \<Rightarrow> string list \<Rightarrow> preprocessor \<Rightarrow> (string \<times> preprocessor) result" where
  "line_loop env direct out line_no [] st = Inr (out, st)"
| "line_loop env direct out line_no (l # ls) st =
     (let line_no = line_no + 1;
          st = set_file_macro (set_line_macro line_no st) in
      case directive_text l of
        Some raw \<Rightarrow>
          (case direct raw out line_no st of
             Inl e \<Rightarrow> Inl e
           | Inr (out, st) \<Rightarrow> line_loop env direct out line_no ls st)
      | None \<Rightarrow>
          if \<not> is_active st then line_loop env direct (out @ [LF]) line_no ls st
          else
            (case accumulate env direct out l line_no 0 ls st of
               Inl e \<Rightarrow> Inl e
             | Inr (out, line, line_no, extra, ls, st) \<Rightarrow>
                 (case expand env line st of
                    Inl e \<Rightarrow> Inl e
                  | Inr (t, st) \<Rightarrow> line_loop env direct (out @ t @ [LF] @ replicate extra LF) line_no ls st)))"
  by pat_completeness auto
termination
  by (relation "measure (\<lambda>(_, _, _, _, ls, _). length ls)") (auto simp: less_Suc_eq_le dest: accumulate_length)

declare line_loop.simps(2) [simp del]

lemma line_loop_eq:
  "line_loop env direct out k (l # ls) st =
     (let k = k + 1; st = set_file_macro (set_line_macro k st) in
      case directive_text l of
        Some raw \<Rightarrow> and_then (direct raw out k st) (\<lambda>(out, st). line_loop env direct out k ls st)
      | None \<Rightarrow>
          if \<not> is_active st then line_loop env direct (out @ [LF]) k ls st
          else
            and_then (accumulate env direct out l k 0 ls st) (\<lambda>(out, line, k, extra, ls, st).
              and_then (expand env line st) (\<lambda>(t, st).
                line_loop env direct (out @ t @ [LF] @ replicate extra LF) k ls st)))"
  by (simp only: line_loop.simps(2) and_then_def Let_def)

text \<open>
  One file: the virtual location is saved, reset and restored. The limit of 200 nested files makes
  the recursion end.
\<close>

function preprocess_text ::
  "pp_env \<Rightarrow> nat \<Rightarrow> string \<Rightarrow> string \<Rightarrow> preprocessor \<Rightarrow> (string \<times> preprocessor) result" where
  "preprocess_text env include_depth source file st =
     (if 200 < include_depth then Inr ([LF], add_error file 1 ''include depth exceeds limit (200)'' st)
      else
        case line_loop env
               (\<lambda>raw out line_no st. process_directive env (preprocess_text env (include_depth + 1)) raw out file line_no st)
               [] 0 (lines_of (strip_comments (join_continued_lines source)))
               (st\<lparr>virtual_line_offset := 0, virtual_file := file\<rparr>) of
          Inl e \<Rightarrow> Inl e
        | Inr (out, st') \<Rightarrow>
            Inr (out, st'\<lparr>virtual_line_offset := virtual_line_offset st, virtual_file := virtual_file st\<rparr>))"
  by pat_completeness auto
termination by (relation "measure (\<lambda>(_, d, _, _, _). 201 - d)") auto

declare preprocess_text.simps [simp del]

definition reset_run :: "string \<Rightarrow> preprocessor \<Rightarrow> preprocessor" where
  "reset_run path st =
     set_macro ''__BASE_FILE__'' (object_macro ''__BASE_FILE__'' ([DQ] @ path @ [DQ]))
       (st\<lparr>errors := [], warnings := [], cond_stack := [], pragma_once_files := {}, include_guard_map := Map.empty,
           include_resolve_cache := Map.empty, needs_external_fallback := False, base_file := path, counter := 0\<rparr>)"

definition preprocess_source :: "pp_env \<Rightarrow> string \<Rightarrow> string \<Rightarrow> preprocessor \<Rightarrow> (string \<times> preprocessor) result" where
  "preprocess_source env source filename st =
     and_then (preprocess_text env 0 source filename (reset_run filename st)) (\<lambda>(t, st).
       Inr (line_marker 1 filename [] @ t, st))"

text \<open>\<open>None\<close> is the exception for a file that cannot be opened.\<close>

definition preprocess_file :: "pp_env \<Rightarrow> string \<Rightarrow> preprocessor \<Rightarrow> (string \<times> preprocessor) result option" where
  "preprocess_file env path st =
     (case read_file (env_files env) path of
        None \<Rightarrow> None
      | Some source \<Rightarrow> Some (preprocess_source env source path st))"

end
