(* ===== verification/PP_Expand_Frame.thy ===== *)
theory PP_Expand_Frame
  imports PP_Expand
begin

text \<open>
  What macro expansion may change. A relation between states that is reflexive and transitive and
  that holds across a pragma and a step of \<open>__COUNTER__\<close> holds across every expansion; the locale
  proves this once, and the interpretations give the frame of an expansion: the conditional stack,
  the search paths, the diagnostics and the locations are kept, and no macro name is added.
\<close>

locale expansion_relation =
  fixes R :: "preprocessor \<Rightarrow> preprocessor \<Rightarrow> bool"
  assumes R_refl: "R st st"
    and R_trans: "R a b \<Longrightarrow> R b c \<Longrightarrow> R a c"
    and R_pragma: "R st (snd (process_pragma_text live s st))"
    and R_counter: "R st (st\<lparr>counter := n\<rparr>)"
begin

lemma expand_args_rel:
  assumes rec: "\<And>t d l st x st'. rec t d l st = Some (x, st') \<Longrightarrow> R st st'"
  shows "expand_args rec disabled live as st = Some (es, st') \<Longrightarrow> R st st'"
proof (induction as arbitrary: es st)
  case Nil
  then show ?case by (simp add: R_refl)
next
  case (Cons a as)
  then obtain e st1 es' where "rec (trim_copy a) disabled live st = Some (e, st1)"
    "expand_args rec disabled live as st1 = Some (es', st')"
    by (auto split: bind_splits)
  with Cons.IH rec show ?case using R_trans by blast
qed

lemma expand_call_rel:
  assumes rec: "\<And>t d l st x st'. rec t d l st = Some (x, st') \<Longrightarrow> R st st'"
    and "expand_funclike_call rec d raw disabled live st = Some (e, st')"
  shows "R st st'"
proof -
  let ?during = "insert (macro_name d) live" and ?rest = "if variadic d then drop (length (params d)) raw else []"
  from assms(2) obtain es st1 where 1: "expand_args rec disabled ?during raw st = Some (es, st1)"
    and "Option.bind (expand_args rec disabled ?during ?rest st1) (\<lambda>(re, st). rec (substitute_funclike_body
       \<lparr>call_params = params d, raw_args = raw, exp_args = es, call_variadic = variadic d,
        va_raw = join_with '','' ?rest, va_exp = join_with '', '' re, call_va_name = va_name d\<rparr> (body d))
       (insert (macro_name d) disabled) live st) = Some (e, st')"
    unfolding expand_funclike_call_def Let_def by (auto simp: bind_eq_Some_conv)
  then obtain re st2 b where 2: "expand_args rec disabled ?during ?rest st1 = Some (re, st2)"
      "rec b (insert (macro_name d) disabled) live st2 = Some (e, st')"
    by (auto simp: bind_eq_Some_conv)
  have "R st st1" using rec 1 by (rule expand_args_rel)
  moreover have "R st1 st2" using rec 2(1) by (rule expand_args_rel)
  moreover have "R st2 st'" using rec 2(2) by blast
  ultimately show ?thesis using R_trans by blast
qed

lemma chain_rel:
  assumes rec: "\<And>t d l st x st'. rec t d l st = Some (x, st') \<Longrightarrow> R st st'"
  shows "chain_calls rec disabled live e k st = Some (e', k', st') \<Longrightarrow> R st st'"
proof (induction k arbitrary: e st rule: length_induct)
  case (1 k)
  show ?case
  proof (cases "chained_macro e disabled st = None \<or> blanks_then (CHR ''('') k = None")
    case True
    with 1(2) show ?thesis by (subst (asm) chain_calls.simps) (auto split: option.splits simp: R_refl)
  next
    case False
    then obtain d p where dp: "chained_macro e disabled st = Some d" "blanks_then (CHR ''('') k = Some p" by auto
    obtain x st1 where x: "expand_funclike_call rec d (normalise_args d (fst (collect_funclike_args p))) disabled live st = Some (x, st1)"
      and c: "chain_calls rec disabled live x (snd (collect_funclike_args p)) st1 = Some (e', k', st')"
      using 1(2) dp by (subst (asm) chain_calls.simps) (auto split: option.splits)
    have "length (snd (collect_funclike_args p)) < length k"
      using collect_args_length [of p] blanks_then_length [OF dp(2)] by (metis le_less_trans prod.collapse)
    with 1(1) c have "R st1 st'" by blast
    moreover have "R st st1" using rec x by (rule expand_call_rel)
    ultimately show ?thesis using R_trans by blast
  qed
qed

lemma expand_ident_rel:
  assumes rec: "\<And>t d l st x st'. rec t d l st = Some (x, st') \<Longrightarrow> R st st'"
    and "expand_ident rec disabled live out w j st = Some (out', r, st')"
  shows "R st st'"
proof -
  have pragma: "R st st'" if "expand_pragma rec disabled live out j st = Some (out', r, st')"
    using that rec R_pragma R_trans R_refl
    by (auto simp: expand_pragma_def Let_def split_beta bind_eq_Some_conv split: option.splits if_splits; blast)
  have call: "R st st'" if *: "expand_function_macro rec disabled live out w d j st = Some (out', r, st')" for d
  proof (cases "blanks_then (CHR ''('') j")
    case None
    with * show ?thesis by (simp add: expand_function_macro_def R_refl)
  next
    case (Some k)
    with * obtain raw x st1 e k1 where x: "expand_funclike_call rec d raw disabled live st = Some (x, st1)"
      and k: "chain_calls rec disabled live x k1 st1 = Some (e, r, st')"
      by (auto simp: expand_function_macro_def Let_def split_beta bind_eq_Some_conv)
    have "R st st1" using rec x by (rule expand_call_rel)
    moreover have "R st1 st'" using rec k by (rule chain_rel)
    ultimately show ?thesis by (rule R_trans)
  qed
  have replaced: "R st st'" if "expand_object_macro rec disabled live out w d j st = Some (out', r, st')" for d
    using that rec R_refl R_counter
    by (auto simp: expand_object_macro_def bind_eq_Some_conv split: if_splits; blast)
  show ?thesis
    using assms(2) pragma call replaced R_refl
    by (auto simp: expand_ident_def split: if_splits option.splits)
qed

lemma expand_loop_rel:
  assumes rec: "\<And>t d l st x st'. rec t d l st = Some (x, st') \<Longrightarrow> R st st'"
  shows "expand_loop rec disabled live out f t st = Some (x, st') \<Longrightarrow> R st st'"
proof (induction t arbitrary: out f st rule: length_induct)
  case (1 t)
  show ?case
  proof (cases t)
    case Nil
    with 1(2) show ?thesis by (simp add: R_refl)
  next
    case (Cons c cs)
    with 1(2) obtain o1 f1 r st1 where s: "expand_step rec disabled live out f c cs st = Some (o1, f1, r, st1)"
      "expand_loop rec disabled live o1 f1 r st1 = Some (x, st')"
      by (auto split: option.splits)
    have id: "R st st'" if "expand_ident rec disabled live out w j st = Some (out', r, st')" for out w j out' r st'
      using rec that by (rule expand_ident_rel)
    have "R st st1"
      using s(1) id R_refl
      by (auto simp: expand_step_def Let_def split_beta split: if_splits option.splits)
    moreover have "length r < length t" using expand_step_length [OF s(1)] Cons by simp
    then have "R st1 st'" using 1(1) s(2) by blast
    ultimately show ?thesis using R_trans by blast
  qed
qed

lemma expand_text_rel: "expand_text n t disabled live st = Some (x, st') \<Longrightarrow> R st st'"
proof (induction n arbitrary: t disabled live st x st')
  case (Suc n)
  then show ?case using expand_loop_rel [of "expand_text n"] by simp
qed simp

lemma expand_line_rel: "expand_line n line st = Some (x, st') \<Longrightarrow> R st st'"
  by (simp add: expand_line_def expand_text_rel)

end

interpretation keeps: expansion_relation keeps_names
  by unfold_locales (auto intro: keeps_names_trans process_pragma_text_keeps keeps_names_same)

text \<open>The fields an expansion leaves alone.\<close>

definition same_frame :: "preprocessor \<Rightarrow> preprocessor \<Rightarrow> bool" where
  "same_frame st st' =
     (cond_stack st' = cond_stack st \<and> quote_include_paths st' = quote_include_paths st \<and>
      normal_include_paths st' = normal_include_paths st \<and> system_include_paths st' = system_include_paths st \<and>
      after_include_paths st' = after_include_paths st \<and> errors st' = errors st \<and> warnings st' = warnings st \<and>
      profile st' = profile st \<and> target st' = target st \<and> needs_external_fallback st' = needs_external_fallback st \<and>
      base_file st' = base_file st \<and> virtual_line_offset st' = virtual_line_offset st \<and>
      virtual_file st' = virtual_file st \<and> include_guard_map st' = include_guard_map st \<and>
      include_resolve_cache st' = include_resolve_cache st)"

lemma process_pragma_text_frame: "same_frame st (snd (process_pragma_text live s st))"
  by (simp add: process_pragma_text_def Let_def pragma_push_macro_def pragma_pop_macro_def push_macro_def
      pop_macro_def set_macro_def erase_macro_def note_stale_def same_frame_def split: option.split list.split)

interpretation frame: expansion_relation same_frame
  by unfold_locales (simp_all add: same_frame_def process_pragma_text_frame [unfolded same_frame_def])

end
