(* ===== verification/PP_Run.thy ===== *)
theory PP_Run
  imports PP_Directives PP_Expand_Frame
begin

text \<open>
  What a run may change. A relation between states that is reflexive and transitive, that macro
  expansion respects and that holds across the elementary updates of the directives holds across
  every directive, every line and every file. The interpretations give the invariants of a run:
  the conditional stack stays nested, the macro table stays well formed, diagnostics are only added.
\<close>

text \<open>A Linux host without files.\<close>

definition plain_env :: "nat \<Rightarrow> pp_env" where
  "plain_env n =
     \<lparr>env_files = Map.empty, env_host = \<lparr>host_cpu = HostX86_64, host_apple = False, host_linux = True\<rparr>,
      env_levels = n\<rparr>"

lemma add_param_name [simp]: "macro_name (add_param p d) = macro_name d"
  by (simp add: add_param_def)

lemma parse_params_name [simp]: "macro_name (fst (parse_params p s d)) = macro_name d"
  by (induction p s d rule: parse_params.induct) auto

locale run_relation = expansion_relation +
  assumes R_set_macro: "macro_name d = name \<Longrightarrow> R st (set_macro name d st)"
    and R_erase: "R st (erase_macro name st)"
    and R_push_macro: "R st (pragma_push_macro s st)"
    and R_pop_macro: "R st (pragma_pop_macro s st)"
    and R_error: "R st (add_error file n msg st)"
    and R_warning: "R st (add_warning file n msg st)"
    and R_fallback: "R st (set_fallback st)"
    and R_push_frame: "R st (push_frame b st)"
    and R_elif: "cond_stack st = f # fs \<Longrightarrow> R st (st\<lparr>cond_stack := elif_frame b f # fs\<rparr>)"
    and R_else: "R st (handle_else st)"
    and R_endif: "R st (handle_endif st)"
    and R_location: "R st (st\<lparr>virtual_line_offset := i, virtual_file := loc\<rparr>)"
    and R_once: "R st (st\<lparr>pragma_once_files := once\<rparr>)"
    and R_guard: "R st (st\<lparr>include_guard_map := g\<rparr>)"
    and R_cache: "R st (st\<lparr>include_resolve_cache := c\<rparr>)"
begin

definition within :: "preprocessor \<Rightarrow> ('a \<times> preprocessor) result \<Rightarrow> bool" where
  "within st r = (\<forall>x st'. r = Inr (x, st') \<longrightarrow> R st st')"

lemma within_Inl [simp]: "within st (Inl e)"
  by (simp add: within_def)

lemma within_Inr [simp]: "within st (Inr (x, st')) = R st st'"
  by (simp add: within_def)

lemma within_trans: "R st st1 \<Longrightarrow> within st1 r \<Longrightarrow> within st r"
  using R_trans by (auto simp: within_def)

lemma within_and_then:
  assumes "within st r" "\<And>x st1. r = Inr (x, st1) \<Longrightarrow> R st st1 \<Longrightarrow> within st1 (f (x, st1))"
  shows "within st (and_then r f)"
proof (cases r)
  case (Inr y)
  obtain x st1 where "y = (x, st1)" by (cases y)
  with assms Inr have "R st st1" "within st1 (f (x, st1))" by auto
  with Inr \<open>y = (x, st1)\<close> show ?thesis by (simp add: within_trans)
qed simp

lemma expand_within: "within st (expand env line st)"
  using expand_line_rel by (auto simp: within_def expand_def split: option.splits)

lemma expand_then:
  assumes "\<And>x st1. expand env line st = Inr (x, st1) \<Longrightarrow> R st st1 \<Longrightarrow> within st1 (f (x, st1))"
  shows "within st (and_then (expand env line st) f)"
  using expand_within assms by (rule within_and_then)

section \<open>Directives\<close>

lemma evaluate_within: "within st (evaluate_if_expr env e st)"
  unfolding evaluate_if_expr_def Let_def
  by (rule expand_then) (auto simp: R_refl R_fallback split: option.split)

lemma evaluate_stack:
  assumes "evaluate_if_expr env e st = Inr (b, st')"
  shows "cond_stack st' = cond_stack st"
proof -
  have "cond_stack st1 = cond_stack st" if "expand env t st = Inr (x, st1)" for t x st1
    using that frame.expand_line_rel [of "env_levels env" t st x st1]
    by (auto simp: expand_def same_frame_def split: option.splits)
  with assms show ?thesis
    by (auto simp: evaluate_if_expr_def Let_def set_fallback_def split: if_splits option.splits dest!: and_then_InrD)
qed

lemma handle_if_within: "R st st'" if "handle_if env args st = Inr st'"
proof -
  from that obtain b st1 where "evaluate_if_expr env args st = Inr (b, st1)" "st' = push_frame b st1"
    by (auto simp: handle_if_def dest!: and_then_InrD)
  with evaluate_within [of st env args] R_push_frame [of st1 b] show ?thesis using R_trans by auto
qed

lemma handle_elif_within:
  assumes "handle_elif env args st = Inr st'"
  shows "R st st'"
proof (cases "cond_stack st")
  case Nil
  with assms show ?thesis by (auto simp: handle_elif_def R_fallback)
next
  case (Cons f fs)
  show ?thesis
  proof (cases "saw_else f")
    case True
    with assms Cons show ?thesis by (auto simp: handle_elif_def R_fallback)
  next
    case False
    let ?r = "if any_taken f then Inr (False, st) else evaluate_if_expr env args st"
    from assms Cons False obtain b st1 where r: "?r = Inr (b, st1)" "st' = st1\<lparr>cond_stack := elif_frame b f # fs\<rparr>"
      by (auto simp: handle_elif_def simp del: if_split dest!: and_then_InrD)
    have "R st st1" using r(1) evaluate_within [of st env args] R_refl by (auto split: if_splits)
    moreover have "cond_stack st1 = f # fs" using r(1) Cons evaluate_stack by (auto split: if_splits)
    ultimately show ?thesis using r(2) R_elif R_trans by blast
  qed
qed

lemma conditional_within:
  assumes "conditional_directive env key rest st = Some (Inr st')"
  shows "R st st'"
  using assms handle_if_within handle_elif_within R_push_frame R_else R_endif
  by (auto simp: conditional_directive_def handle_ifdef_def Let_def split: if_splits)

lemma handle_define_rel: "R st (handle_define args file n st)"
  unfolding handle_define_def Let_def split_beta
  by (auto intro!: R_set_macro R_error simp: object_macro_def)

lemma handle_pragma_rel: "R st (snd (handle_pragma rest out file st))"
  using R_once R_push_macro R_pop_macro R_refl R_fallback by (simp add: handle_pragma_def Let_def)

lemma R_offset: "R st (st\<lparr>virtual_line_offset := i\<rparr>)"
  using R_location [where loc = "virtual_file st" and st = st and i = i] by simp

lemma handle_line_within: "within st (handle_line env rest out file n st)"
  unfolding handle_line_def Let_def
  by (rule expand_then) (auto intro: R_error R_location R_offset)

definition nested_within :: "nested \<Rightarrow> bool" where
  "nested_within nested = (\<forall>src file st. within st (nested src file st))"

lemma enter_file_within: "nested_within nested \<Longrightarrow> within st (enter_file nested src name file n st)"
  unfolding enter_file_def by (rule within_and_then) (auto simp: nested_within_def R_refl)

lemma include_resolved_within:
  assumes "nested_within nested"
  shows "within st (include_resolved env nested rel path file n st)"
proof -
  note enter = enter_file_within [OF assms]
  show ?thesis
    using R_error R_refl enter within_trans [OF R_guard enter]
    by (auto simp: include_resolved_def Let_def split: option.split)
qed

lemma include_path_within:
  assumes "nested_within nested"
  shows "within st (include_path env nested is_angle is_next rel file n st)"
proof -
  obtain path st1 where r: "resolve_include (env_files env) is_angle is_next rel file st = (path, st1)" by fastforce
  then have "R st st1" by (auto simp: resolve_include_def Let_def R_refl R_cache split: if_splits)
  moreover have "within st1 (include_path env nested is_angle is_next rel file n st)"
    unfolding include_path_def r prod.case Let_def
    using enter_file_within [OF assms] include_resolved_within [OF assms] R_error R_trans [OF R_fallback R_error]
    by auto
  ultimately show ?thesis by (rule within_trans)
qed

lemma handle_include_within:
  assumes "nested_within nested"
  shows "within st (handle_include env nested args file n is_next st)"
proof -
  have "within st (and_then (expand env s st) (\<lambda>(e, st). let s = trim_copy e in
      if quoted_form s \<or> angle_form s then include_path env nested (angle_form s) is_next (inner_text s) file n st
      else Inr ([LF], add_error file n ''computed #include did not expand to a valid path'' st)))" for s
    by (rule expand_then) (simp add: Let_def include_path_within [OF assms] R_error)
  then show ?thesis
    by (simp add: handle_include_def Let_def include_path_within [OF assms] R_error)
qed

lemma active_directive_within:
  assumes "nested_within nested"
  shows "within st (active_directive env nested key rest out file n st)"
proof -
  have "within st (and_then (handle_include env nested rest file n b st) (\<lambda>(t, st). Inr (out @ t, st)))" for b
    by (rule within_and_then [OF handle_include_within [OF assms]]) (simp add: R_refl)
  moreover have "within st (let (out, st) = handle_pragma rest out file st in Inr (out @ [LF], st))"
    by (simp add: split_beta handle_pragma_rel)
  moreover have "R st (handle_undef rest st)" by (simp add: handle_undef_def Let_def R_refl R_erase)
  ultimately show ?thesis
    unfolding active_directive_def
    using handle_define_rel R_error R_warning R_fallback handle_line_within
    by (simp del: Let_def)
qed

lemma process_directive_within:
  assumes "nested_within nested"
  shows "within st (process_directive env nested raw out file n st)"
proof -
  obtain key rest where kr: "split_directive raw = (key, rest)" by fastforce
  have "within st (blank_line out r)" if "conditional_directive env key rest st = Some r" for r
    using that conditional_within by (cases r) (auto simp: blank_line_def)
  then show ?thesis
    using active_directive_within [OF assms] kr
    by (auto simp: process_directive_def R_refl split: option.split)
qed

section \<open>Lines and files\<close>

definition direct_within :: "directive_handler \<Rightarrow> bool" where
  "direct_within direct = (\<forall>raw out n st. within st (direct raw out n st))"

lemma R_set_line: "R st (set_line_macro n st)"
  by (simp add: set_line_macro_def object_macro_def R_set_macro)

lemma R_set_file: "R st (set_file_macro st)"
  by (simp add: set_file_macro_def object_macro_def R_set_macro)

lemma accumulate_rel:
  assumes "direct_within direct"
  shows "accumulate env direct out line n extra ls st = Inr (out', line', n', extra', ls', st') \<Longrightarrow> R st st'"
proof (induction ls arbitrary: out line n extra st)
  case Nil
  then show ?case by (simp add: R_refl)
next
  case (Cons l ls)
  let ?st = "set_line_macro (n + 1) st"
  show ?case
  proof (cases "has_unbalanced_parens line")
    case False
    with Cons.prems show ?thesis by (simp add: R_refl)
  next
    case True
    have "\<exists>st1 out1 line1. R ?st st1 \<and> accumulate env direct out1 line1 (n + 1) (extra + 1) ls st1 =
        Inr (out', line', n', extra', ls', st')"
    proof (cases "directive_text l")
      case None
      with Cons.prems True have "\<exists>e st1. expand env l ?st = Inr (e, st1) \<and>
          accumulate env direct out (line @ [SP] @ e) (n + 1) (extra + 1) ls st1 = Inr (out', line', n', extra', ls', st')"
        by (auto simp: Let_def dest!: and_then_InrD)
      with expand_within [of ?st env l] show ?thesis by fastforce
    next
      case (Some raw)
      with Cons.prems True have "\<exists>o1 st1. direct raw out (n + 1) ?st = Inr (o1, st1) \<and>
          accumulate env direct o1 line (n + 1) (extra + 1) ls st1 = Inr (out', line', n', extra', ls', st')"
        by (auto simp: Let_def dest!: and_then_InrD)
      with assms show ?thesis unfolding direct_within_def within_def by blast
    qed
    with Cons.IH R_set_line R_trans show ?thesis by blast
  qed
qed

lemma line_loop_within:
  assumes "direct_within direct"
  shows "within st (line_loop env direct out n ls st)"
proof (induction ls arbitrary: out n st rule: length_induct)
  case (1 ls)
  show ?case
  proof (cases ls)
    case Nil
    then show ?thesis by (simp add: R_refl)
  next
    case (Cons l ls')
    let ?st = "set_file_macro (set_line_macro (n + 1) st)"
    have st: "R st ?st" using R_trans [OF R_set_line R_set_file] .
    have IH: "within st (line_loop env direct out n ls2 st)" if "length ls2 \<le> length ls'" for out n st ls2
      using 1 Cons that by simp
    have "within ?st (line_loop env direct out n ls st)"
    proof (cases "directive_text l")
      case (Some raw)
      have "within ?st (and_then (direct raw out (n + 1) ?st) (\<lambda>(out, st). line_loop env direct out (n + 1) ls' st))"
        using assms by (intro within_and_then) (simp_all add: direct_within_def IH)
      with Some Cons show ?thesis by (simp add: line_loop.simps(2) Let_def and_then_def)
    next
      case None
      have acc: "within ?st (case accumulate env direct out l (n + 1) 0 ls' ?st of
          Inl e \<Rightarrow> Inl e
        | Inr (out, line, n, extra, ls, st) \<Rightarrow>
            (case expand env line st of
               Inl e \<Rightarrow> Inl e
             | Inr (t, st) \<Rightarrow> line_loop env direct (out @ t @ [LF] @ replicate extra LF) n ls st))"
        (is "within _ ?r")
      proof (cases "accumulate env direct out l (n + 1) 0 ls' ?st")
        case (Inr y)
        obtain o1 line n1 ex ls1 st1 where y: "y = (o1, line, n1, ex, ls1, st1)" by (cases y)
        have "within st1 (and_then (expand env line st1) (\<lambda>(t, st).
            line_loop env direct (o1 @ t @ [LF] @ replicate ex LF) n1 ls1 st))"
          by (rule expand_then) (simp add: IH [OF accumulate_length [OF Inr [unfolded y]]])
        then have "within st1 ?r" using Inr [unfolded y] by (simp add: and_then_def cong: sum.case_cong)
        then show ?thesis by (rule within_trans [OF accumulate_rel [OF assms Inr [unfolded y]]])
      qed simp
      then show ?thesis using None Cons IH by (simp add: line_loop.simps(2) Let_def)
    qed
    then show ?thesis by (rule within_trans [OF st])
  qed
qed

lemma preprocess_text_within: "within st (preprocess_text env d src path st)"
proof (induction "201 - d" arbitrary: d src path st)
  case 0
  then show ?case by (simp add: preprocess_text.simps R_error)
next
  case (Suc k)
  then have "nested_within (preprocess_text env (d + 1))"
    unfolding nested_within_def by (metis Suc_eq_plus1 diff_Suc_Suc Suc_diff_le diff_Suc_1 Suc_diff_Suc zero_less_Suc zero_less_diff)
  then have "direct_within (\<lambda>raw out n st. process_directive env (preprocess_text env (d + 1)) raw out path n st)"
    unfolding direct_within_def by (simp add: process_directive_within)
  note loop = line_loop_within [OF this]
  let ?st = "st\<lparr>virtual_line_offset := 0, virtual_file := path\<rparr>"
  show ?case
    using loop [of ?st env "[]" 0 "lines_of (strip_comments (join_continued_lines src))"]
      R_trans [OF R_trans [OF R_location [where i = 0 and loc = path]] R_location] R_error
    by (subst preprocess_text.simps) (auto simp: within_def split: sum.splits if_splits)
qed

lemma preprocess_text_rel: "preprocess_text env d src path st = Inr (out, st') \<Longrightarrow> R st st'"
  using preprocess_text_within [of st env d src path] by simp

end


section \<open>The conditional stack\<close>

text \<open>
  A frame is active only as the branch taken in an active group; the group it opens in is the one
  below it on the stack.
\<close>

definition frame_ok :: "conditional_frame \<Rightarrow> bool" where
  "frame_ok f = ((this_active f \<longrightarrow> any_taken f) \<and> (any_taken f \<longrightarrow> parent_active f))"

fun stack_ok :: "conditional_frame list \<Rightarrow> bool" where
  "stack_ok [] = True"
| "stack_ok (f # fs) =
     (frame_ok f \<and> parent_active f = (case fs of [] \<Rightarrow> True | g # gs \<Rightarrow> this_active g) \<and> stack_ok fs)"

lemma stack_ok_active: "stack_ok fs \<Longrightarrow> (case fs of [] \<Rightarrow> True | f # gs \<Rightarrow> this_active f) = (\<forall>f \<in> set fs. this_active f)"
proof (induction fs)
  case (Cons f fs)
  then show ?case by (cases fs) (auto simp: frame_ok_def)
qed simp

lemma elif_frame_ok: "frame_ok f \<Longrightarrow> frame_ok (elif_frame b f)"
  by (auto simp: frame_ok_def elif_frame_def Let_def)

lemma else_frame_ok: "frame_ok f \<Longrightarrow> frame_ok (else_frame f)"
  by (auto simp: frame_ok_def else_frame_def Let_def)

lemma frame_parent [simp]:
  "parent_active (elif_frame b f) = parent_active f" "parent_active (else_frame f) = parent_active f"
  by (simp_all add: elif_frame_def else_frame_def Let_def)

definition keeps_stack :: "preprocessor \<Rightarrow> preprocessor \<Rightarrow> bool" where
  "keeps_stack st st' = (stack_ok (cond_stack st) \<longrightarrow> stack_ok (cond_stack st'))"

lemma keeps_stack_same: "cond_stack st' = cond_stack st \<Longrightarrow> keeps_stack st st'"
  by (simp add: keeps_stack_def)

lemma pragma_stack [simp]:
  "cond_stack (pragma_push_macro s st) = cond_stack st" "cond_stack (pragma_pop_macro s st) = cond_stack st"
  by (simp_all add: pragma_push_macro_def pragma_pop_macro_def push_macro_def pop_macro_def Let_def
      erase_macro_def set_macro_def split: option.split list.split)

interpretation stack: run_relation keeps_stack
proof
  fix st live s
  show "keeps_stack st (snd (process_pragma_text live s st))"
    using process_pragma_text_frame [of st live s] by (simp add: same_frame_def keeps_stack_same)
next
  fix st b
  show "keeps_stack st (push_frame b st)"
    by (auto simp: keeps_stack_def push_frame_def Let_def frame_ok_def is_active_def)
next
  fix st :: preprocessor and f fs b
  assume "cond_stack st = f # fs"
  then show "keeps_stack st (st\<lparr>cond_stack := elif_frame b f # fs\<rparr>)"
    by (simp add: keeps_stack_def elif_frame_ok)
next
  fix st
  show "keeps_stack st (handle_else st)"
    by (auto simp: keeps_stack_def handle_else_def else_frame_ok set_fallback_def split: list.split)
  show "keeps_stack st (handle_endif st)"
    by (auto simp: keeps_stack_def handle_endif_def set_fallback_def split: list.split)
qed (auto simp: keeps_stack_def set_macro_def erase_macro_def add_error_def add_warning_def set_fallback_def)

lemma process_directive_stack:
  "process_directive env (preprocess_text env d) raw out path n st = Inr (out', st') \<Longrightarrow> keeps_stack st st'"
  using stack.process_directive_within [of "preprocess_text env d" st env raw out path n] stack.preprocess_text_within
  by (simp add: stack.nested_within_def)

text \<open>
  C12: the conditional stack stays nested across every directive, with the files it includes, and
  across every file: before and after, text is active exactly when every enclosing group is in its
  active branch.
\<close>

theorem run_stack_nested:
  assumes "stack_ok (cond_stack st)"
    "process_directive env (preprocess_text env d) raw out file n st = Inr (out', st') \<or>
     preprocess_text env d source file st = Inr (out', st')"
  shows "stack_ok (cond_stack st') \<and> is_active st' = (\<forall>f \<in> set (cond_stack st'). this_active f)"
  using process_directive_stack stack.preprocess_text_rel assms stack_ok_active
  by (auto simp: keeps_stack_def is_active_def)

theorem run_stack_nested_witness:
  "stack_ok (cond_stack (handle_else ((initial_state linux_target)
     \<lparr>cond_stack := [\<lparr>parent_active = True, any_taken = True, this_active = True, saw_else = False\<rparr>]\<rparr>)))"
proof -
  let ?f = "\<lparr>parent_active = True, any_taken = True, this_active = True, saw_else = False\<rparr>"
  let ?st = "(initial_state linux_target)\<lparr>cond_stack := [?f]\<rparr>"
  have "split_directive ''else'' = (''else'', [])" by code_simp
  then have "process_directive (plain_env 0) (preprocess_text (plain_env 0) 1) ''else'' [] ''a.c'' 2 ?st =
      Inr ([LF], handle_else ?st)"
    by (simp add: process_directive_def conditional_directive_def blank_line_def)
  moreover have "stack_ok (cond_stack ?st)" by (simp add: frame_ok_def)
  ultimately show ?thesis using run_stack_nested [of ?st "plain_env 0" 1 "''else''" "[]" "''a.c''" 2] by blast
qed

section \<open>The macro table\<close>

definition keeps_wf :: "preprocessor \<Rightarrow> preprocessor \<Rightarrow> bool" where
  "keeps_wf st st' = (macros_wf st \<longrightarrow> macros_wf st')"

lemma keeps_wf_names: "keeps_names st st' \<Longrightarrow> keeps_wf st st'"
  by (simp add: keeps_names_def keeps_wf_def)

lemma keeps_wf_same: "macros st' = macros st \<Longrightarrow> macro_stack st' = macro_stack st \<Longrightarrow> keeps_wf st st'"
  by (simp add: keeps_wf_names keeps_names_same)

lemmas other_updates = add_error_def add_warning_def set_fallback_def push_frame_def handle_else_def
  handle_endif_def Let_def

interpretation wf: run_relation keeps_wf
proof
  show "keeps_wf a c" if "keeps_wf a b" "keeps_wf b c" for a b c
    using that by (simp add: keeps_wf_def)
  show "keeps_wf st (set_macro name d st)" if "macro_name d = name" for name d st
    using that by (simp add: keeps_wf_def set_macro_wf)
  show "keeps_wf st (erase_macro name st)" for name st
    by (simp add: keeps_wf_def erase_macro_wf)
  show "keeps_wf st (pragma_push_macro s st)" "keeps_wf st (pragma_pop_macro s st)"
    "keeps_wf st (snd (process_pragma_text live s st))" for live s st
    by (rule keeps_wf_names, rule pragma_keeps process_pragma_text_keeps)+
qed (auto intro!: keeps_wf_same simp: other_updates split: list.split)

section \<open>Diagnostics and configuration\<close>

text \<open>Errors and warnings are only added, the configuration is left alone.\<close>

definition only_reports :: "preprocessor \<Rightarrow> preprocessor \<Rightarrow> bool" where
  "only_reports st st' =
     ((\<exists>es. errors st' = errors st @ es) \<and> (\<exists>ws. warnings st' = warnings st @ ws) \<and>
      quote_include_paths st' = quote_include_paths st \<and> normal_include_paths st' = normal_include_paths st \<and>
      system_include_paths st' = system_include_paths st \<and> after_include_paths st' = after_include_paths st \<and>
      profile st' = profile st \<and> target st' = target st \<and> base_file st' = base_file st \<and>
      (needs_external_fallback st \<longrightarrow> needs_external_fallback st'))"

lemma only_reports_trans: "only_reports a b \<Longrightarrow> only_reports b c \<Longrightarrow> only_reports a c"
  by (auto simp: only_reports_def)

lemma only_reports_frame: "same_frame st st' \<Longrightarrow> only_reports st st'"
  by (simp add: only_reports_def same_frame_def)

lemma pragma_frame: "same_frame st (pragma_push_macro s st)" "same_frame st (pragma_pop_macro s st)"
  by (simp_all add: pragma_push_macro_def pragma_pop_macro_def push_macro_def pop_macro_def Let_def
      erase_macro_def set_macro_def same_frame_def split: option.split list.split)

interpretation reports: run_relation only_reports
proof
  show "only_reports a c" if "only_reports a b" "only_reports b c" for a b c
    using that by (rule only_reports_trans)
  show "only_reports st (pragma_push_macro s st)" "only_reports st (pragma_pop_macro s st)"
    "only_reports st (snd (process_pragma_text live s st))" for live s st
    by (rule only_reports_frame, rule pragma_frame process_pragma_text_frame)+
qed (auto simp: only_reports_def other_updates set_macro_def erase_macro_def split: list.split)

text \<open>
  A file only adds diagnostics: the errors and warnings reported so far stay, in order, a
  request for the external preprocessor is not withdrawn, and search paths, profile and target are
  left alone.
\<close>

theorem run_keeps_reports:
  assumes "preprocess_text env d source file st = Inr (out, st')"
  shows "(\<exists>es. errors st' = errors st @ es) \<and> (\<exists>ws. warnings st' = warnings st @ ws) \<and>
    (needs_external_fallback st \<longrightarrow> needs_external_fallback st') \<and>
    normal_include_paths st' = normal_include_paths st \<and> system_include_paths st' = system_include_paths st \<and>
    quote_include_paths st' = quote_include_paths st \<and> after_include_paths st' = after_include_paths st \<and>
    profile st' = profile st \<and> target st' = target st"
  using reports.preprocess_text_rel [OF assms] by (simp add: only_reports_def)

theorem run_keeps_reports_witness:
  "\<exists>es. errors (add_error ''a.c'' 1 ''include depth exceeds limit (200)'' (initial_state linux_target)) =
     errors (initial_state linux_target) @ es"
proof -
  have "preprocess_text (plain_env 0) 201 ''x'' ''a.c'' (initial_state linux_target) =
      Inr ([LF], add_error ''a.c'' 1 ''include depth exceeds limit (200)'' (initial_state linux_target))"
    by (simp add: preprocess_text.simps)
  from run_keeps_reports [OF this] show ?thesis by simp
qed

end
