(* ===== verification/PP_Cond_Correct.thy ===== *)
theory PP_Cond_Correct
  imports PP_Cond
begin

text \<open>
  Correctness of the \<open>#if\<close> evaluator: it returns on every text, and on the printed form of an
  expression it returns the value of the expression, with precedence and left associativity.
\<close>

section \<open>The evaluator returns\<close>

text \<open>\<open>total k q\<close>: on texts shorter than \<open>k\<close> the parser \<open>q\<close> returns and never lengthens the text.\<close>

definition total :: "nat \<Rightarrow> parser \<Rightarrow> bool" where
  "total k q = (\<forall>p. length (unread p) < k \<longrightarrow>
     (\<exists>v p'. q p = Some (v, p') \<and> length (unread p') \<le> length (unread p)))"

lemma totalE:
  assumes "total k q" "length (unread p) < k"
  obtains v p' where "q p = Some (v, p')" "length (unread p') \<le> length (unread p)"
  using assms by (auto simp: total_def)

lemma skip_spaces_length: "length (unread (skip_spaces p)) \<le> length (unread p)"
  by (simp add: skip_spaces_def length_dropWhile_le)

lemma consume_length:
  assumes "consume s p = (b, p')" "s \<noteq> []"
  shows "length (unread p') \<le> length (unread p)" "b \<Longrightarrow> length (unread p') < length (unread p)"
proof -
  let ?u = "unread (skip_spaces p)"
  have "length ?u \<le> length (unread p)" by (rule skip_spaces_length)
  moreover have "length (drop (length s) ?u) < length ?u" if "take (length s) ?u = s"
  proof -
    from that assms(2) have "?u \<noteq> []" by auto
    with assms(2) show ?thesis by simp
  qed
  ultimately show "length (unread p') \<le> length (unread p)" "b \<Longrightarrow> length (unread p') < length (unread p)"
    using assms(1) by (auto simp: consume_def Let_def split: if_splits)
qed

lemma consume_single_length:
  assumes "consume_single c d p = (b, p')"
  shows "length (unread p') \<le> length (unread p)" "b \<Longrightarrow> length (unread p') < length (unread p)"
  using assms skip_spaces_length [of p]
  by (auto simp: consume_single_def Let_def split: if_splits list.splits)

lemma unread_finish_op [simp]: "unread (snd (finish_op r p)) = unread p"
  by (simp add: finish_op_def split: prod.split)

lemma unread_fail [simp]: "unread (snd (fail p)) = unread p"
  by (simp add: fail_def)

definition ops_ok :: "(matcher \<times> binop) list \<Rightarrow> bool" where
  "ops_ok ops = list_all (\<lambda>(m, _). m \<noteq> Operator []) ops"

lemma match_length:
  assumes "match m p = (b, p')" "m \<noteq> Operator []"
  shows "length (unread p') \<le> length (unread p)" "b \<Longrightarrow> length (unread p') < length (unread p)"
  using assms by (cases m; auto dest: consume_length consume_single_length)+

lemma match_binop_length:
  "match_binop ops p = (r, p') \<Longrightarrow> ops_ok ops \<Longrightarrow>
     length (unread p') \<le> length (unread p) \<and> (r \<noteq> None \<longrightarrow> length (unread p') < length (unread p))"
proof (induction ops p arbitrary: r p' rule: match_binop.induct)
  case (2 m op ops p)
  obtain b q where m: "match m p = (b, q)" by fastforce
  from 2(3) have ok: "m \<noteq> Operator []" "ops_ok ops" by (auto simp: ops_ok_def)
  show ?case
  proof (cases b)
    case True
    with 2(2) m match_length [OF m ok(1)] show ?thesis by auto
  next
    case False
    with 2(1) [OF m [symmetric] refl False] 2(2) m ok match_length(1) [OF m ok(1)] show ?thesis by force
  qed
qed auto

lemma binary_loop_total:
  "total k operand \<Longrightarrow> ops_ok ops \<Longrightarrow> length (unread p) < k \<Longrightarrow> length (unread p) < n \<Longrightarrow>
     \<exists>v p'. binary_loop ops operand n lhs p = Some (v, p') \<and> length (unread p') \<le> length (unread p)"
proof (induction n arbitrary: lhs p)
  case (Suc n)
  obtain r q where m: "match_binop ops p = (r, q)" by fastforce
  note len = match_binop_length [OF m Suc.prems(2)]
  show ?case
  proof (cases r)
    case None
    with m len show ?thesis by simp
  next
    case (Some op)
    with len Suc.prems(3) have "length (unread q) < k" by simp
    from totalE [OF Suc.prems(1) this] obtain rhs q2
      where q2: "operand q = Some (rhs, q2)" "length (unread q2) \<le> length (unread q)" .
    obtain v q3 where f: "finish_op (apply_binop op lhs rhs) q2 = (v, q3)" by fastforce
    then have u: "unread q3 = unread q2" using unread_finish_op [of "apply_binop op lhs rhs" q2] by simp
    have "length (unread q3) < k" "length (unread q3) < n"
      using u q2 len Some Suc.prems(3,4) by simp_all
    from Suc.IH [OF Suc.prems(1,2) this, of v] m Some q2 f u len show ?thesis by fastforce
  qed
qed simp

lemma binary_level_total:
  assumes "total k operand" "ops_ok ops" "k \<le> n"
  shows "total k (binary_level ops operand n)"
  unfolding total_def
proof (intro allI impI)
  fix p :: if_parser
  assume p: "length (unread p) < k"
  from totalE [OF assms(1) p] obtain v q where q: "operand p = Some (v, q)" "length (unread q) \<le> length (unread p)" .
  with p assms(3) have "length (unread q) < k" "length (unread q) < n" by simp_all
  from binary_loop_total [OF assms(1,2) this] q
  show "\<exists>v p'. binary_level ops operand n p = Some (v, p') \<and> length (unread p') \<le> length (unread p)"
    by (fastforce simp: binary_level_def)
qed

lemma close_char_length: "length (unread (snd (close_char p (ch, r)))) \<le> length r"
  by (simp add: close_char_def split: list.split)

lemma char_escape_length: "length (snd (char_escape e r)) \<le> length r"
  by (auto simp: char_escape_def Let_def length_dropWhile_le)

lemma char_literal_length: "length (unread (snd (parse_char_literal p))) \<le> length (unread p)"
proof -
  have "length (unread (snd (close_char q (char_escape e es)))) \<le> length es" for q e es
    using close_char_length [of q "fst (char_escape e es)" "snd (char_escape e es)"] char_escape_length [of e es]
    by simp
  moreover have "length (unread (snd (close_char q (ch, r)))) \<le> length r" for q ch r
    by (rule close_char_length)
  ultimately have "length (unread (snd (parse_char_literal p))) \<le> length (unread (skip_spaces p))"
    by (auto simp: parse_char_literal_def Let_def le_SucI split: list.split)
  with skip_spaces_length [of p] show ?thesis by simp
qed

lemma int_literal_length: "length (unread (snd (parse_int_literal p))) \<le> length (unread p)"
proof -
  have "length (dropWhile is_int_suffix (drop n u)) \<le> length (u :: string)" for n u
    by (rule le_trans [OF length_dropWhile_le]) simp
  then have "length (unread (snd (parse_int_literal p))) \<le> length (unread (skip_spaces p))"
    by (auto simp: parse_int_literal_def Let_def split: prod.split)
  with skip_spaces_length [of p] show ?thesis by simp
qed

lemma drop_unread_length [simp]: "length (unread (drop_unread k p)) \<le> length (unread p)"
  by (simp add: drop_unread_def)

lemma unread_require [simp]: "unread (require bp) = unread (snd bp)"
  by (simp add: require_def)

lemma consume_char_length: "length (unread (snd (consume [x] p))) \<le> length (unread p)"
  using consume_length(1) [of "[x]" p] by (metis list.simps(3) surjective_pairing)

lemma defined_length: "length (unread (snd (parse_defined d p))) \<le> length (unread p)"
proof -
  define bp where "bp = consume ''('' (skip_spaces p)"
  define q where "q = (if fst bp then skip_spaces (snd bp) else snd bp)"
  define q1 where "q1 = drop_unread (length (takeWhile is_ident_continue (unread q))) q"
  have "length (unread (snd bp)) \<le> length (unread p)"
    unfolding bp_def by (rule le_trans [OF consume_char_length skip_spaces_length])
  then have "length (unread q) \<le> length (unread p)"
    unfolding q_def using skip_spaces_length [of "snd bp"] by simp
  then have q1: "length (unread q1) \<le> length (unread p)"
    unfolding q1_def by (rule le_trans [OF drop_unread_length])
  have "length (unread (snd (consume '')'' (skip_spaces q1)))) \<le> length (unread q1)"
    by (rule le_trans [OF consume_char_length skip_spaces_length])
  moreover have "parse_defined d p = (of_bool_value (d (takeWhile is_ident_continue (unread q))),
      if fst bp then require (consume '')'' (skip_spaces q1)) else q1)"
    by (simp only: parse_defined_def Let_def split_beta bp_def [symmetric] q_def [symmetric] q1_def [symmetric])
  ultimately show ?thesis using q1 by simp
qed

lemma identifier_length: "length (unread (snd (parse_identifier d p))) \<le> length (unread p)"
proof -
  define q where "q = drop_unread (length (takeWhile is_ident_continue (unread p))) p"
  have q: "length (unread q) \<le> length (unread p)" by (simp add: q_def)
  have "length (unread (snd (parse_identifier d p))) \<le> length (unread q)"
    unfolding parse_identifier_def Let_def q_def [symmetric]
    using defined_length [of d q] char_literal_length [of q] by simp
  with q show ?thesis by simp
qed

lemma parse_primary_total:
  assumes "total k conditional"
  shows "total (Suc k) (parse_primary d conditional)"
  unfolding total_def
proof (intro allI impI)
  fix p :: if_parser
  assume p: "length (unread p) < Suc k"
  define q where "q = skip_spaces p"
  obtain b q1 where c: "consume ''('' q = (b, q1)" by fastforce
  have q: "length (unread q) \<le> length (unread p)" unfolding q_def by (rule skip_spaces_length)
  have q1: "length (unread q1) \<le> length (unread q)" "b \<Longrightarrow> length (unread q1) < length (unread q)"
    using consume_length [OF c] by auto
  show "\<exists>v p'. parse_primary d conditional p = Some (v, p') \<and> length (unread p') \<le> length (unread p)"
  proof (cases "unread q \<noteq> [] \<and> b")
    case True
    then have "length (unread q1) < k" using q1 q p by simp
    from totalE [OF assms this] obtain v q2
      where v: "conditional q1 = Some (v, q2)" "length (unread q2) \<le> length (unread q1)" .
    have "length (unread (snd (consume '')'' q2))) \<le> length (unread q2)" by (rule consume_char_length)
    with v True q q1(1) show ?thesis
      by (simp add: parse_primary_def Let_def c flip: q_def)
  next
    case False
    have le: "length (unread r) \<le> length (unread p)" if "length (unread r) \<le> length (unread q1)" for r :: if_parser
      using that q q1(1) by simp
    let ?r = "if unread q = [] then fail q
      else if is_ident_start (hd (unread q1)) then parse_identifier d q1
      else if hd (unread q1) = SQ then parse_char_literal q1 else parse_int_literal q1"
    have "length (unread (snd ?r)) \<le> length (unread p)"
      using q le [OF identifier_length] le [OF char_literal_length] le [OF int_literal_length] by simp
    moreover have "parse_primary d conditional p = Some ?r"
      using False by (auto simp: parse_primary_def Let_def c simp flip: q_def)
    ultimately show ?thesis by (metis surjective_pairing)
  qed
qed

lemma match_unop_length:
  "match_unop ops p = (r, p') \<Longrightarrow> list_all (\<lambda>(s, _). s \<noteq> []) ops \<Longrightarrow>
     length (unread p') \<le> length (unread p) \<and> (r \<noteq> None \<longrightarrow> length (unread p') < length (unread p))"
proof (induction ops p arbitrary: r p' rule: match_unop.induct)
  case (2 s op ops p)
  obtain b q where m: "consume s p = (b, q)" by fastforce
  from 2(3) have ok: "s \<noteq> []" "list_all (\<lambda>(s, _). s \<noteq> []) ops" by auto
  show ?case
  proof (cases b)
    case True
    with 2(2) m consume_length [OF m ok(1)] show ?thesis by auto
  next
    case False
    with 2(1) [OF m [symmetric] refl False] 2(2) m ok consume_length(1) [OF m ok(1)] show ?thesis by force
  qed
qed auto

lemma parse_unary_total:
  assumes "total k conditional"
  shows "total (Suc k) (parse_unary d conditional (Suc k))"
proof -
  have "\<exists>v p'. parse_unary d conditional n p = Some (v, p') \<and> length (unread p') \<le> length (unread p)"
    if "length (unread p) < n" "length (unread p) < Suc k" for n p
    using that
  proof (induction n arbitrary: p)
    case (Suc n)
    obtain r q where m: "match_unop unary_ops p = (r, q)" by fastforce
    have len: "length (unread q) \<le> length (unread p)" "r \<noteq> None \<Longrightarrow> length (unread q) < length (unread p)"
      using match_unop_length [OF m] by (auto simp: unary_ops_def)
    show ?case
    proof (cases r)
      case None
      have "length (unread q) < Suc k" using len Suc.prems by simp
      from totalE [OF parse_primary_total [OF assms] this, of d] None m len show ?thesis by fastforce
    next
      case (Some op)
      with len Suc.prems have "length (unread q) < n" "length (unread q) < Suc k" by simp_all
      from Suc.IH [OF this] obtain v q2
        where v: "parse_unary d conditional n q = Some (v, q2)" "length (unread q2) \<le> length (unread q)" by blast
      have "length (unread (snd (finish_op (apply_unop op v) q2))) \<le> length (unread p)" using v len by simp
      moreover have "parse_unary d conditional (Suc n) p = Some (finish_op (apply_unop op v) q2)"
        using m Some v by simp
      ultimately show ?thesis by (metis surjective_pairing)
    qed
  qed simp
  then show ?thesis unfolding total_def by blast
qed

lemmas level_defs = parse_logical_or_def parse_logical_and_def parse_bitor_def parse_bitxor_def
  parse_bitand_def parse_equality_def parse_relational_def parse_shift_def parse_additive_def
  parse_multiplicative_def

lemma parse_logical_or_total:
  "total k conditional \<Longrightarrow> total (Suc k) (parse_logical_or d conditional (Suc k))"
  unfolding level_defs by (intro binary_level_total parse_unary_total) (simp_all add: ops_ok_def)

lemma parse_conditional_total: "total n (parse_conditional d n)"
proof (induction n)
  case (Suc n)
  show ?case
    unfolding total_def
  proof (intro allI impI)
    fix p :: if_parser
    assume p: "length (unread p) < Suc n"
    from totalE [OF parse_logical_or_total [OF Suc] p] obtain c q
      where c: "parse_logical_or d (parse_conditional d n) (Suc n) p = Some (c, q)"
        "length (unread q) \<le> length (unread p)" .
    obtain b q1 where q1: "consume ''?'' (skip_spaces q) = (b, q1)" by fastforce
    have l1: "length (unread q1) \<le> length (unread p)" "b \<Longrightarrow> length (unread q1) < n"
      using consume_length [OF q1] skip_spaces_length [of q] c(2) p by auto
    show "\<exists>v p'. parse_conditional d (Suc n) p = Some (v, p') \<and> length (unread p') \<le> length (unread p)"
    proof (cases b)
      case False
      with c q1 l1 show ?thesis by simp
    next
      case True
      from totalE [OF Suc l1(2) [OF True]] obtain t q2
        where t: "parse_conditional d n q1 = Some (t, q2)" "length (unread q2) \<le> length (unread q1)" .
      obtain b2 q3 where q3: "consume '':'' q2 = (b2, q3)" by fastforce
      have l3: "length (unread q3) \<le> length (unread q2)" using consume_length [OF q3] by auto
      then have "length (unread q3) < n" using t l1(2) [OF True] by simp
      from totalE [OF Suc this] obtain f q4
        where f: "parse_conditional d n q3 = Some (f, q4)" "length (unread q4) \<le> length (unread q3)" .
      show ?thesis
        using c q1 True t q3 f l1(1) l3 by (cases b2) (auto simp: fail_def)
    qed
  qed
qed (simp add: total_def)

lemma parse_if_expr_total: "\<exists>v p. parse_if_expr is_defined_name expr = Some (v, p)"
proof -
  let ?p = "\<lparr>unread = expr, ok = True, undefined_behaviour = False\<rparr>"
  have "length (unread ?p) < Suc (length expr)" by simp
  from totalE [OF parse_conditional_total this, of is_defined_name] obtain v q
    where "parse_conditional is_defined_name (Suc (length expr)) ?p = Some (v, q)" .
  then show ?thesis by (simp add: parse_if_expr_def Let_def del: parse_conditional.simps)
qed

text \<open>
  The evaluator returns on every text: the bound it starts with, one more than the length of
  the text, covers every nesting of calls and every loop.
\<close>

theorem parse_if_expr_returns: "\<exists>v p. parse_if_expr is_defined_name expr = Some (v, p)"
  by (rule parse_if_expr_total)

section \<open>Expressions and their printed form\<close>

datatype cexpr =
    Num nat bool
  | Ident string
  | Defined string
  | Unary unop cexpr
  | Binary binop cexpr cexpr
  | IfElse cexpr cexpr cexpr

text \<open>The level at which the grammar accepts an operator; 11 is unary, 12 is primary.\<close>

fun op_level :: "binop \<Rightarrow> nat" where
  "op_level LogOr = 1" | "op_level LogAnd = 2" | "op_level BitOr = 3" | "op_level BitXor = 4"
| "op_level BitAnd = 5" | "op_level EqEq = 6" | "op_level NotEq = 6" | "op_level LessEq = 7"
| "op_level GreaterEq = 7" | "op_level LessThan = 7" | "op_level GreaterThan = 7"
| "op_level ShiftLeft = 8" | "op_level ShiftRight = 8" | "op_level PlusOp = 9" | "op_level MinusOp = 9"
| "op_level TimesOp = 10" | "op_level DivideOp = 10" | "op_level ModuloOp = 10"

fun op_text :: "binop \<Rightarrow> string" where
  "op_text LogOr = ''||''" | "op_text LogAnd = ''&&''" | "op_text BitOr = ''|''" | "op_text BitXor = ''^''"
| "op_text BitAnd = ''&''" | "op_text EqEq = ''==''" | "op_text NotEq = ''!=''" | "op_text LessEq = ''<=''"
| "op_text GreaterEq = ''>=''" | "op_text LessThan = ''<''" | "op_text GreaterThan = ''>''"
| "op_text ShiftLeft = ''<<''" | "op_text ShiftRight = ''>>''" | "op_text PlusOp = ''+''"
| "op_text MinusOp = ''-''" | "op_text TimesOp = ''*''" | "op_text DivideOp = ''/''" | "op_text ModuloOp = ''%''"

fun unop_text :: "unop \<Rightarrow> string" where
  "unop_text UnaryPlus = ''+''" | "unop_text UnaryMinus = ''-''" | "unop_text LogNot = ''!''"
| "unop_text BitNot = ''~''"

fun level :: "cexpr \<Rightarrow> nat" where
  "level (Unary op e) = 11"
| "level (Binary op a b) = op_level op"
| "level (IfElse c t f) = 0"
| "level e = 12"

text \<open>Parentheses only where precedence or associativity needs them.\<close>

fun show_expr :: "cexpr \<Rightarrow> string" and show_at :: "nat \<Rightarrow> cexpr \<Rightarrow> string" where
  "show_expr (Num n u) = show_nat n @ (if u then ''u'' else [])"
| "show_expr (Ident w) = w"
| "show_expr (Defined w) = ''defined('' @ w @ '')''"
| "show_expr (Unary op e) = unop_text op @ show_at 11 e"
| "show_expr (Binary op a b) = show_at (op_level op) a @ '' '' @ op_text op @ '' '' @ show_at (Suc (op_level op)) b"
| "show_expr (IfElse c t f) = show_at 1 c @ '' ? '' @ show_expr t @ '' : '' @ show_expr f"
| "show_at k e = (if level e < k then ''('' @ show_expr e @ '')'' else show_expr e)"

fun wf_expr :: "cexpr \<Rightarrow> bool" where
  "wf_expr (Num n u) = (n < 2 ^ 64)"
| "wf_expr (Ident w) = (w \<noteq> [] \<and> is_ident_start (hd w) \<and> list_all is_ident_continue w \<and> w \<noteq> ''defined'')"
| "wf_expr (Defined w) = list_all is_ident_continue w"
| "wf_expr (Unary op e) = wf_expr e"
| "wf_expr (Binary op a b) = (wf_expr a \<and> wf_expr b)"
| "wf_expr (IfElse c t f) = (wf_expr c \<and> wf_expr t \<and> wf_expr f)"

text \<open>
  The value of an expression under the 64-bit arithmetic of the evaluator, whether it divides by
  zero nowhere, and whether a signed operation overflows. All operands are evaluated.
\<close>

fun eval :: "(string \<Rightarrow> bool) \<Rightarrow> cexpr \<Rightarrow> expr_value" where
  "eval d (Num n u) = (if u \<or> 2 ^ 63 - 1 < n then make_unsigned (of_nat n) else make_signed (of_nat n))"
| "eval d (Ident w) = make_signed 0"
| "eval d (Defined w) = of_bool_value (d w)"
| "eval d (Unary op e) = fst (apply_unop op (eval d e))"
| "eval d (Binary op a b) = fst (apply_binop op (eval d a) (eval d b))"
| "eval d (IfElse c t f) = (if as_bool (eval d c) then eval d t else eval d f)"

fun good :: "(string \<Rightarrow> bool) \<Rightarrow> cexpr \<Rightarrow> bool" where
  "good d (Unary op e) = (good d e \<and> fst (snd (apply_unop op (eval d e))))"
| "good d (Binary op a b) = (good d a \<and> good d b \<and> fst (snd (apply_binop op (eval d a) (eval d b))))"
| "good d (IfElse c t f) = (good d c \<and> good d t \<and> good d f)"
| "good d e = True"

fun overflows :: "(string \<Rightarrow> bool) \<Rightarrow> cexpr \<Rightarrow> bool" where
  "overflows d (Unary op e) = (overflows d e \<or> snd (snd (apply_unop op (eval d e))))"
| "overflows d (Binary op a b) = (overflows d a \<or> overflows d b \<or> snd (snd (apply_binop op (eval d a) (eval d b))))"
| "overflows d (IfElse c t f) = (overflows d c \<or> overflows d t \<or> overflows d f)"
| "overflows d e = False"

section \<open>What may follow an operand\<close>

definition level_ops :: "nat \<Rightarrow> (matcher \<times> binop) list" where
  "level_ops k =
     (if k = 1 then [(Operator ''||'', LogOr)]
      else if k = 2 then [(Operator ''&&'', LogAnd)]
      else if k = 3 then [(SingleChar (CHR ''|'') (CHR ''|''), BitOr)]
      else if k = 4 then [(Operator ''^'', BitXor)]
      else if k = 5 then [(SingleChar (CHR ''&'') (CHR ''&''), BitAnd)]
      else if k = 6 then [(Operator ''=='', EqEq), (Operator ''!='', NotEq)]
      else if k = 7 then [(Operator ''<='', LessEq), (Operator ''>='', GreaterEq),
        (Operator ''<'', LessThan), (Operator ''>'', GreaterThan)]
      else if k = 8 then [(Operator ''<<'', ShiftLeft), (Operator ''>>'', ShiftRight)]
      else if k = 9 then [(Operator ''+'', PlusOp), (Operator ''-'', MinusOp)]
      else [(Operator ''*'', TimesOp), (Operator ''/'', DivideOp), (Operator ''%'', ModuloOp)])"

text \<open>The parser of a level, 1 to 12.\<close>

function level_parser :: "(string \<Rightarrow> bool) \<Rightarrow> parser \<Rightarrow> nat \<Rightarrow> nat \<Rightarrow> parser" where
  "level_parser d conditional n k =
     (if 12 \<le> k then parse_primary d conditional
      else if k = 11 then parse_unary d conditional n
      else binary_level (level_ops k) (level_parser d conditional n (Suc k)) n)"
  by auto
termination by (relation "measure (\<lambda>(_, _, _, k). 12 - k)") auto

declare level_parser.simps [simp del]

lemma parse_logical_or_level: "parse_logical_or d conditional n = level_parser d conditional n 1"
  by (simp add: level_defs level_ops_def level_parser.simps [of d conditional n])

definition strip :: "string \<Rightarrow> string" where
  "strip s = dropWhile isspace s"

lemma strip_simps [simp]: "strip [] = []" "strip (SP # s) = strip s" "strip (strip s) = strip s"
  by (simp_all add: strip_def isspace_def code_def)

lemma strip_Cons: "\<not> isspace c \<Longrightarrow> strip (c # s) = c # s"
  by (simp add: strip_def)

lemma unread_skip_spaces [simp]: "unread (skip_spaces p) = strip (unread p)"
  by (simp add: skip_spaces_def strip_def)

lemma skip_spaces_flags [simp]:
  "ok (skip_spaces p) = ok p" "undefined_behaviour (skip_spaces p) = undefined_behaviour p"
  "skip_spaces (skip_spaces p) = skip_spaces p"
  by (simp_all add: skip_spaces_def)

lemma skip_spaces_update [simp]: "(skip_spaces p)\<lparr>unread := u\<rparr> = p\<lparr>unread := u\<rparr>"
  by (simp add: skip_spaces_def)

lemma consume_hit:
  "take (length s) (strip (unread p)) = s \<Longrightarrow>
     consume s p = (True, p\<lparr>unread := drop (length s) (strip (unread p))\<rparr>)"
  by (simp add: consume_def Let_def)

lemma consume_text: "strip (unread p) = s @ r \<Longrightarrow> consume s p = (True, p\<lparr>unread := r\<rparr>)"
  by (simp add: consume_hit)

lemma consume_miss: "take (length s) (strip (unread p)) \<noteq> s \<Longrightarrow> consume s p = (False, skip_spaces p)"
  by (simp add: consume_def Let_def)

lemma consume_single_hit:
  "strip (unread p) = c # r \<Longrightarrow> take 1 r \<noteq> [d] \<Longrightarrow> consume_single c d p = (True, p\<lparr>unread := r\<rparr>)"
  by (cases r) (simp_all add: consume_single_def Let_def skip_spaces_def strip_def)

lemma consume_single_miss:
  "take 1 (strip (unread p)) \<noteq> [c] \<or> take 2 (strip (unread p)) = [c, d] \<Longrightarrow>
     consume_single c d p = (False, skip_spaces p)"
  by (cases "strip (unread p)"; cases "tl (strip (unread p))")
    (auto simp: consume_single_def Let_def numeral_2_eq_2)

text \<open>No operator of level \<open>k\<close> or above starts the text.\<close>

definition stops :: "nat \<Rightarrow> string \<Rightarrow> bool" where
  "stops k r = list_all (\<lambda>j. \<forall>p. strip (unread p) = strip r \<longrightarrow>
     match_binop (level_ops j) p = (None, skip_spaces p)) (filter (\<lambda>j. k \<le> j) [1, 2, 3, 4, 5, 6, 7, 8, 9, 10])"

lemma level_cases: "1 \<le> (j :: nat) \<Longrightarrow> j \<le> 10 \<Longrightarrow> j \<in> set [1, 2, 3, 4, 5, 6, 7, 8, 9, 10]"
  by simp presburger

lemma stops_at: "stops k r \<Longrightarrow> k \<le> j \<Longrightarrow> 1 \<le> j \<Longrightarrow> j \<le> 10 \<Longrightarrow> strip (unread p) = strip r \<Longrightarrow>
  match_binop (level_ops j) p = (None, skip_spaces p)"
  using level_cases [of j] unfolding stops_def list_all_iff set_filter by blast

lemma stops_Suc: "stops k r \<Longrightarrow> stops (Suc k) r"
  by (auto simp: stops_def list_all_iff)

lemma stops_high [simp]: "11 \<le> k \<Longrightarrow> stops k r"
  by (simp add: stops_def)

lemma stops_closing:
  assumes "strip r = [] \<or> hd (strip r) \<in> set '')?:''"
  shows "stops 1 r"
proof -
  have "strip r = [] \<or> (\<exists>x. strip r = CHR '')'' # x) \<or> (\<exists>x. strip r = CHR ''?'' # x) \<or> (\<exists>x. strip r = CHR '':'' # x)"
    using assms by (cases "strip r") auto
  then show ?thesis
    by (elim disjE exE) (simp_all add: stops_def level_ops_def consume_miss consume_single_miss
      strip_Cons isspace_def code_def)
qed

lemma stops_operator: "stops (Suc (op_level op)) (SP # op_text op @ SP # x)"
  by (cases op) (simp_all add: stops_def level_ops_def consume_miss consume_single_miss
      strip_Cons isspace_def code_def)

lemma match_operator:
  "strip (unread p) = op_text op @ SP # x \<Longrightarrow>
     match_binop (level_ops (op_level op)) p = (Some op, p\<lparr>unread := SP # x\<rparr>)"
  by (cases op) (simp_all add: level_ops_def consume_miss consume_hit consume_single_hit strip_Cons
      isspace_def code_def)

definition separated :: "string \<Rightarrow> bool" where
  "separated r = (r = [] \<or> hd r = SP \<or> hd r = CHR '')'')"

section \<open>Acceptance, level by level\<close>

definition outcome :: "(string \<Rightarrow> bool) \<Rightarrow> cexpr \<Rightarrow> if_parser \<Rightarrow> string \<Rightarrow> if_parser \<Rightarrow> bool" where
  "outcome d e p r p' =
     (strip (unread p') = strip r \<and> length (unread p') \<le> length r \<and> ok p' = (ok p \<and> good d e) \<and>
      undefined_behaviour p' = (undefined_behaviour p \<or> overflows d e))"

definition accepts :: "(string \<Rightarrow> bool) \<Rightarrow> cexpr \<Rightarrow> nat \<Rightarrow> bool" where
  "accepts d e k = (\<forall>m n p r. strip (unread p) = show_at k e @ r \<longrightarrow> separated r \<longrightarrow> stops k r \<longrightarrow>
     length (unread p) \<le> m \<longrightarrow> length (unread p) < n \<longrightarrow>
     (\<exists>p'. level_parser d (parse_conditional d m) n k p = Some (eval d e, p') \<and> outcome d e p r p'))"

text \<open>At a binary level, without a stop: the operand has been read and the loop is about to go on.\<close>

definition loops :: "(string \<Rightarrow> bool) \<Rightarrow> cexpr \<Rightarrow> nat \<Rightarrow> bool" where
  "loops d e k = (\<forall>m n p r. strip (unread p) = show_at k e @ r \<longrightarrow> separated r \<longrightarrow> stops (Suc k) r \<longrightarrow>
     length (unread p) \<le> m \<longrightarrow> length (unread p) < n \<longrightarrow>
     (\<exists>p' n'. level_parser d (parse_conditional d m) n k p =
          binary_loop (level_ops k) (level_parser d (parse_conditional d m) n (Suc k)) n' (eval d e) p' \<and>
        outcome d e p r p' \<and> length (unread p') < n'))"

definition accepts_conditional :: "(string \<Rightarrow> bool) \<Rightarrow> cexpr \<Rightarrow> bool" where
  "accepts_conditional d e = (\<forall>m p r. strip (unread p) = show_expr e @ r \<longrightarrow> separated r \<longrightarrow> stops 1 r \<longrightarrow>
     take 1 (strip r) \<noteq> ''?'' \<longrightarrow> length (unread p) < m \<longrightarrow>
     (\<exists>p'. parse_conditional d m p = Some (eval d e, p') \<and> outcome d e p r p'))"

lemma acceptsE:
  assumes "accepts d e k" "strip (unread p) = show_at k e @ r" "separated r" "stops k r" "length (unread p) \<le> m"
    "length (unread p) < n"
  obtains p' where "level_parser d (parse_conditional d m) n k p = Some (eval d e, p')" "outcome d e p r p'"
  using assms unfolding accepts_def by blast

lemma accepts_conditionalE:
  assumes "accepts_conditional d e" "strip (unread p) = show_expr e @ r" "separated r" "stops 1 r"
    "take 1 (strip r) \<noteq> ''?''" "length (unread p) < m"
  obtains p' where "parse_conditional d m p = Some (eval d e, p')" "outcome d e p r p'"
  using assms unfolding accepts_conditional_def by blast

lemma strip_length: "length (strip s) \<le> length s"
  by (simp add: strip_def length_dropWhile_le)

lemma outcome_skip: "outcome d e p r p' \<Longrightarrow> outcome d e p r (skip_spaces p')"
  using strip_length [of "unread p'"] by (auto simp: outcome_def)

lemma level_parser_binary:
  "1 \<le> k \<Longrightarrow> k \<le> 10 \<Longrightarrow> level_parser d c n k = binary_level (level_ops k) (level_parser d c n (Suc k)) n"
  by (simp add: level_parser.simps [of d c n k])

lemma loops_accepts:
  assumes "loops d e k" "1 \<le> k" "k \<le> 10"
  shows "accepts d e k"
  unfolding accepts_def
proof (intro allI impI)
  fix m n r and p :: if_parser
  assume a: "strip (unread p) = show_at k e @ r" "separated r" "stops k r" "length (unread p) \<le> m"
    "length (unread p) < n"
  obtain p' n' where p': "level_parser d (parse_conditional d m) n k p =
      binary_loop (level_ops k) (level_parser d (parse_conditional d m) n (Suc k)) n' (eval d e) p'"
    "outcome d e p r p'" "length (unread p') < n'"
    using assms(1) a(1,2) stops_Suc [OF a(3)] a(4,5) unfolding loops_def by metis
  have "match_binop (level_ops k) p' = (None, skip_spaces p')"
    using stops_at [OF a(3) order_refl assms(2,3)] p'(2) by (simp add: outcome_def)
  with p' show "\<exists>p'. level_parser d (parse_conditional d m) n k p = Some (eval d e, p') \<and> outcome d e p r p'"
    by (cases n') (auto intro: outcome_skip)
qed

lemma step_down:
  assumes "accepts d e (Suc k)" "1 \<le> k" "k \<le> 10" "level e \<noteq> k"
  shows "loops d e k"
  unfolding loops_def
proof (intro allI impI)
  fix m n r and p :: if_parser
  assume a: "strip (unread p) = show_at k e @ r" "separated r" "stops (Suc k) r" "length (unread p) \<le> m"
    "length (unread p) < n"
  from assms(4) have "show_at (Suc k) e = show_at k e" by auto
  with acceptsE [OF assms(1) _ a(2-5)] a(1)
  obtain p' where p': "level_parser d (parse_conditional d m) n (Suc k) p = Some (eval d e, p')"
    "outcome d e p r p'" by metis
  have "length (unread p') \<le> length (strip (unread p))" using p'(2) a(1) by (simp add: outcome_def)
  with strip_length [of "unread p"] a(5) have "length (unread p') < n" by simp
  with p' show "\<exists>p' n'. level_parser d (parse_conditional d m) n k p =
        binary_loop (level_ops k) (level_parser d (parse_conditional d m) n (Suc k)) n' (eval d e) p' \<and>
      outcome d e p r p' \<and> length (unread p') < n'"
    by (intro exI [of _ p'] exI [of _ n]) (simp add: level_parser_binary [OF assms(2,3)] binary_level_def)
qed

lemma descend:
  assumes "accepts d e (Suc j)" "j \<le> 10" "1 \<le> k" "k \<le> j" "\<And>i. k \<le> i \<Longrightarrow> i \<le> j \<Longrightarrow> level e \<noteq> i"
  shows "loops d e k \<and> accepts d e k"
  using assms(4,3,5)
proof (induction rule: inc_induct)
  case base
  with step_down [OF assms(1), of] assms(2) have "loops d e j" by simp
  with assms(2) base show ?case by (simp add: loops_accepts)
next
  case (step n)
  then have "accepts d e (Suc n)" by simp
  with step assms(2) have "loops d e n" by (intro step_down) auto
  with step assms(2) show ?case by (simp add: loops_accepts)
qed

lemma accepts_conditional_of_level:
  assumes "accepts d e 1" "1 \<le> level e"
  shows "accepts_conditional d e"
  unfolding accepts_conditional_def
proof (intro allI impI)
  fix m r and p :: if_parser
  assume a: "strip (unread p) = show_expr e @ r" "separated r" "stops 1 r" "take 1 (strip r) \<noteq> ''?''"
    "length (unread p) < m"
  then obtain m' where m: "m = Suc m'" by (cases m) auto
  have "strip (unread p) = show_at 1 e @ r" "length (unread p) \<le> m'" "length (unread p) < Suc m'"
    using a(1,5) assms(2) m by simp_all
  from acceptsE [OF assms(1) this(1) a(2,3) this(2,3)]
  obtain p' where p': "level_parser d (parse_conditional d m') (Suc m') 1 p = Some (eval d e, p')"
    "outcome d e p r p'" .
  have "consume ''?'' (skip_spaces p') = (False, skip_spaces p')"
    using a(4) p'(2) by (subst consume_miss) (auto simp: outcome_def)
  with p' show "\<exists>p'. parse_conditional d m p = Some (eval d e, p') \<and> outcome d e p r p'"
    by (simp add: m parse_logical_or_level outcome_skip)
qed

lemma level_parser_primary: "level_parser d c n 12 = parse_primary d c"
  by (simp add: level_parser.simps)

lemma level_parser_unary: "level_parser d c n 11 = parse_unary d c n"
  by (simp add: level_parser.simps)

text \<open>The printed forms start with a visible character.\<close>

lemma show_head:
  "wf_expr e \<Longrightarrow> \<exists>c s. show_expr e = c # s \<and> \<not> isspace c"
  "wf_expr e \<Longrightarrow> \<exists>c s. show_at k e = c # s \<and> \<not> isspace c"
proof (induction e and k e rule: show_expr_show_at.induct)
  case (1 n u)
  then show ?case using show_nat_digits [of n]
    by (cases "show_nat n") (auto simp: isdigit_def isspace_def)
next
  case (2 w)
  then show ?case by (cases w) (auto simp: is_ident_start_def isalpha_def isspace_def code_def)
next
  case (4 op e)
  then show ?case by (cases op) (auto simp: isspace_def code_def)
qed (auto simp: isspace_def code_def)

lemma strip_show_expr: "wf_expr e \<Longrightarrow> strip (show_expr e @ r) = show_expr e @ r"
  using show_head(1) [of e] by (auto simp: strip_Cons)

lemma strip_show_at: "wf_expr e \<Longrightarrow> strip (show_at k e @ r) = show_at k e @ r"
  using show_head(2) [of e k] by (auto simp: strip_Cons simp del: show_at.simps)

text \<open>In parentheses any expression is a primary expression.\<close>

lemma accepts_parenthesised:
  assumes "accepts_conditional d e" "level e < 12" "wf_expr e"
  shows "accepts d e 12"
  unfolding accepts_def
proof (intro allI impI)
  fix m n r and p :: if_parser
  assume a: "strip (unread p) = show_at 12 e @ r" "separated r" "stops 12 r" "length (unread p) \<le> m"
    "length (unread p) < n"
  let ?q = "p\<lparr>unread := show_expr e @ CHR '')'' # r\<rparr>"
  from a(1) assms(2) have u: "strip (unread p) = CHR ''('' # show_expr e @ CHR '')'' # r" by simp
  have len: "length (unread ?q) < m" using u strip_length [of "unread p"] a(4) by simp
  have c: "consume ''('' (skip_spaces p) = (True, ?q)"
    using u by (simp add: consume_hit strip_Cons isspace_def code_def)
  have "stops 1 (CHR '')'' # r)"
    by (rule stops_closing) (simp add: strip_Cons isspace_def code_def)
  then have sep: "separated (CHR '')'' # r)" "stops 1 (CHR '')'' # r)" "take 1 (strip (CHR '')'' # r)) \<noteq> ''?''"
    by (simp_all add: separated_def strip_Cons isspace_def code_def)
  have "strip (unread ?q) = show_expr e @ CHR '')'' # r" using assms(3) by (simp add: strip_show_expr)
  with assms(1) sep len obtain p' where p': "parse_conditional d m ?q = Some (eval d e, p')"
    "outcome d e ?q (CHR '')'' # r) p'" unfolding accepts_conditional_def by blast
  have u': "strip (unread p') = CHR '')'' # r" using p'(2) by (simp add: outcome_def strip_Cons isspace_def code_def)
  then have c2: "consume '')'' p' = (True, p'\<lparr>unread := r\<rparr>)" by (simp add: consume_hit)
  have "level_parser d (parse_conditional d m) n 12 p = Some (eval d e, p'\<lparr>unread := r\<rparr>)"
    using u c p'(1) c2 by (simp add: level_parser_primary parse_primary_def Let_def require_def)
  moreover have "outcome d e p r (p'\<lparr>unread := r\<rparr>)" using p'(2) by (simp add: outcome_def)
  ultimately show "\<exists>p'. level_parser d (parse_conditional d m) n 12 p = Some (eval d e, p') \<and> outcome d e p r p'"
    by blast
qed

lemma primary_head:
  assumes "wf_expr e" "level e \<noteq> 11"
  shows "\<exists>c s. show_at 12 e = c # s \<and> c \<notin> set ''+-!~''"
proof (cases e)
  case (Num n u)
  obtain c s where "show_nat n = c # s" "isdigit c" using show_nat_digits [of n] by (cases "show_nat n") auto
  with Num show ?thesis by (auto simp: isdigit_def code_def)
next
  case (Ident w)
  with assms show ?thesis by (cases w) (auto simp: is_ident_start_def isalpha_def code_def)
next
  case (Binary op a b)
  then show ?thesis by (cases op) auto
qed (use assms(2) in auto)

lemma accepts_unary_of_primary:
  assumes "accepts d e 12" "level e \<noteq> 11" "wf_expr e"
  shows "accepts d e 11"
  unfolding accepts_def
proof (intro allI impI)
  fix m n r and p :: if_parser
  assume a: "strip (unread p) = show_at 11 e @ r" "separated r" "stops 11 r" "length (unread p) \<le> m"
    "length (unread p) < n"
  have eq: "show_at 12 e = show_at 11 e" using assms(2) by auto
  obtain c s where cs: "show_at 11 e = c # s" "c \<notin> set ''+-!~''"
    using primary_head [OF assms(3,2)] eq by auto
  have "match_unop unary_ops p = (None, skip_spaces p)"
    using a(1) cs strip_simps(3) [of "unread p"] by (simp add: unary_ops_def consume_miss del: show_at.simps strip_simps(3))
  moreover have pre: "strip (unread (skip_spaces p)) = show_at 12 e @ r" "length (unread (skip_spaces p)) \<le> m"
    "length (unread (skip_spaces p)) < n"
    using a(1,4,5) eq strip_length [of "unread p"] strip_show_at [OF assms(3), of 11 r]
    by (simp_all del: show_at.simps)
  obtain p' where "parse_primary d (parse_conditional d m) (skip_spaces p) = Some (eval d e, p')"
    "outcome d e (skip_spaces p) r p'"
    using acceptsE [OF assms(1) pre(1) a(2) _ pre(2,3)] by (auto simp: level_parser_primary)
  ultimately show "\<exists>p'. level_parser d (parse_conditional d m) n 11 p = Some (eval d e, p') \<and> outcome d e p r p'"
    using a(5) by (cases n) (auto simp: level_parser_unary outcome_def)
qed

text \<open>A binary operator at its own level, given its left operand at that level.\<close>

lemma op_level_range: "1 \<le> op_level op \<and> op_level op \<le> 10"
  by (cases op) simp_all

lemma finish_binop:
  "finish_op (apply_binop op a b) p =
     (fst (apply_binop op a b), p\<lparr>ok := ok p \<and> fst (snd (apply_binop op a b)),
        undefined_behaviour := undefined_behaviour p \<or> snd (snd (apply_binop op a b))\<rparr>)"
  by (simp add: finish_op_def split_beta)

lemma finish_unop:
  "finish_op (apply_unop op a) p =
     (fst (apply_unop op a), p\<lparr>ok := ok p \<and> fst (snd (apply_unop op a)),
        undefined_behaviour := undefined_behaviour p \<or> snd (snd (apply_unop op a))\<rparr>)"
  by (simp add: finish_op_def split_beta)

lemma loops_binary:
  assumes "loops d a k" "accepts d b (Suc k)" "k = op_level op" "wf_expr b"
  shows "loops d (Binary op a b) k"
  unfolding loops_def
proof (intro allI impI)
  fix m n r and p :: if_parser
  let ?e = "Binary op a b"
  let ?rb = "SP # show_at (Suc k) b @ r"
  let ?ra = "SP # op_text op @ ?rb"
  let ?operand = "level_parser d (parse_conditional d m) n (Suc k)"
  assume a: "strip (unread p) = show_at k ?e @ r" "separated r" "stops (Suc k) r" "length (unread p) \<le> m"
    "length (unread p) < n"
  from a(1) assms(3) have u: "strip (unread p) = show_at k a @ ?ra" by simp
  have "separated ?ra" "stops (Suc k) ?ra"
    using stops_operator [of op "show_at (Suc k) b @ r"] assms(3) by (simp_all add: separated_def)
  with assms(1) u a(4,5) obtain p1 n1 where p1: "level_parser d (parse_conditional d m) n k p =
      binary_loop (level_ops k) ?operand n1 (eval d a) p1" "outcome d a p ?ra p1" "length (unread p1) < n1"
    unfolding loops_def by blast
  then obtain n' where n: "n1 = Suc n'" by (cases n1) auto
  have u1: "strip (unread p1) = op_text op @ ?rb"
    using p1(2) by (cases op) (simp_all add: outcome_def strip_Cons isspace_def code_def)
  define p2 where "p2 = p1\<lparr>unread := ?rb\<rparr>"
  have m1: "match_binop (level_ops k) p1 = (Some op, p2)"
    using match_operator [OF u1] assms(3) by (simp add: p2_def)
  have len2: "length (unread p2) \<le> m" "length (unread p2) < n" "length (unread p2) < length (unread p1)"
  proof -
    have "length (unread p2) < length (op_text op @ ?rb)" by (cases op) (simp_all add: p2_def)
    also have "\<dots> \<le> length (unread p1)" using u1 strip_length [of "unread p1"] by simp
    finally show "length (unread p2) < length (unread p1)" .
    have "length (unread p1) \<le> length (strip (unread p))" using p1(2) u by (simp add: outcome_def)
    then show "length (unread p2) \<le> m" "length (unread p2) < n"
      using \<open>length (unread p2) < length (unread p1)\<close> strip_length [of "unread p"] a(4,5) by simp_all
  qed
  have u2: "strip (unread p2) = show_at (Suc k) b @ r"
    using strip_show_at [OF assms(4), of "Suc k" r] by (simp add: p2_def del: show_at.simps)
  obtain p3 where p3: "?operand p2 = Some (eval d b, p3)" "outcome d b p2 r p3"
    using acceptsE [OF assms(2) u2 a(2,3) len2(1,2)] by blast
  define p4 where "p4 = snd (finish_op (apply_binop op (eval d a) (eval d b)) p3)"
  have "binary_loop (level_ops k) ?operand n1 (eval d a) p1 = binary_loop (level_ops k) ?operand n' (eval d ?e) p4"
    using n m1 p3(1) by (simp add: p4_def finish_binop)
  moreover have "outcome d ?e p r p4"
    using p1(2) p3(2) by (auto simp: outcome_def p4_def finish_binop p2_def)
  moreover have "length (unread p4) < n'"
  proof -
    have "length (unread p4) \<le> length r" using p3(2) by (simp add: p4_def outcome_def)
    also have "\<dots> \<le> length (unread p2)" by (simp add: p2_def)
    finally show ?thesis using len2(3) p1(3) n by simp
  qed
  ultimately show "\<exists>p' n'. level_parser d (parse_conditional d m) n k p =
        binary_loop (level_ops k) ?operand n' (eval d ?e) p' \<and> outcome d ?e p r p' \<and> length (unread p') < n'"
    using p1(1) by metis
qed

lemma accepts_unary:
  assumes "accepts d e 11" "wf_expr e"
  shows "accepts d (Unary op e) 11"
  unfolding accepts_def
proof (intro allI impI)
  fix m n r and p :: if_parser
  let ?e = "Unary op e"
  assume a: "strip (unread p) = show_at 11 ?e @ r" "separated r" "stops 11 r" "length (unread p) \<le> m"
    "length (unread p) < n"
  define p1 where "p1 = p\<lparr>unread := show_at 11 e @ r\<rparr>"
  from a(1) have u: "strip (unread p) = unop_text op @ show_at 11 e @ r" by simp
  have m1: "match_unop unary_ops p = (Some op, p1)"
    using u by (cases op) (simp_all add: unary_ops_def consume_hit consume_miss p1_def strip_Cons
        isspace_def code_def del: show_at.simps)
  have len: "length (unread p1) < length (unread p)"
    using u strip_length [of "unread p"] by (cases op) (simp_all add: p1_def del: show_at.simps)
  then obtain n' where n': "n = Suc n'" using a(5) by (cases n) auto
  have pre: "strip (unread p1) = show_at 11 e @ r" "length (unread p1) \<le> m" "length (unread p1) < n'"
    using strip_show_at [OF assms(2), of 11 r] len a(4,5) n' by (simp_all add: p1_def del: show_at.simps)
  obtain p2 where p2: "parse_unary d (parse_conditional d m) n' p1 = Some (eval d e, p2)" "outcome d e p1 r p2"
    using acceptsE [OF assms(1) pre(1) a(2,3) pre(2,3)] by (auto simp: level_parser_unary)
  have "level_parser d (parse_conditional d m) n 11 p = Some (finish_op (apply_unop op (eval d e)) p2)"
    using m1 p2(1) by (simp add: level_parser_unary n')
  then show "\<exists>p'. level_parser d (parse_conditional d m) n 11 p = Some (eval d ?e, p') \<and> outcome d ?e p r p'"
    using p2(2) by (auto simp: finish_unop outcome_def p1_def)
qed

section \<open>Atoms\<close>

lemma digit_char: "k < 10 \<Longrightarrow> isdigit (char_of (48 + k :: nat)) \<and> hex_value (char_of (48 + k :: nat)) = k"
  by (simp add: isdigit_def hex_value_def code_def)

lemma show_nat_head: "n \<noteq> 0 \<Longrightarrow> hd (show_nat n) \<noteq> CHR ''0''"
proof (induction n rule: show_nat.induct)
  case (1 n)
  show ?case
  proof (cases "n < 10")
    case True
    have "of_char (char_of (48 + n :: nat)) \<noteq> (of_char (CHR ''0'') :: nat)" using True 1(2) by simp
    then have "char_of (48 + n :: nat) \<noteq> CHR ''0''" by metis
    with True show ?thesis by (subst show_nat.simps) simp
  next
    case False
    with 1 show_nat_digits [of "n div 10"] show ?thesis by (subst show_nat.simps) (simp add: div_eq_0_iff)
  qed
qed

lemma show_nat_value: "fold (\<lambda>d v. v * 10 + hex_value d) (show_nat n) 0 = n"
proof (induction n rule: show_nat.induct)
  case (1 n)
  then show ?case
    using digit_char [of n] digit_char [of "n mod 10"] by (subst show_nat.simps) auto
qed

lemma show_nat_single: "length (show_nat n) = Suc 0 \<longleftrightarrow> n < 10"
  using show_nat_digits [of "n div 10"] by (subst show_nat.simps) auto

lemma isdigit_facts:
  "isdigit c \<Longrightarrow> \<not> isalpha c \<and> c \<noteq> CHR ''_'' \<and> c \<noteq> CHR ''('' \<and> c \<noteq> SQ \<and> \<not> isspace c \<and> isxdigit c \<and> hex_value c < 10"
  by (auto simp: isdigit_def isalpha_def isspace_def isxdigit_def hex_value_def code_def)

lemma int_literal_token:
  assumes "x = [] \<or> \<not> isdigit (hd x) \<and> hd x \<notin> {CHR ''x'', CHR ''X''}"
  shows "int_token (show_nat n @ x) = show_nat n"
proof -
  have all: "\<forall>c \<in> set (show_nat n). isdigit c" using show_nat_digits [of n] by (simp add: list_all_iff)
  have tw: "takeWhile isdigit (show_nat n @ x) = show_nat n"
    using assms by (simp add: takeWhile_append_all [OF all]) (cases x, auto)
  have "\<not> (take 1 (show_nat n @ x) = ''0'' \<and>
      (take 1 (drop 1 (show_nat n @ x)) = ''x'' \<or> take 1 (drop 1 (show_nat n @ x)) = ''X''))"
  proof (cases "n < 10")
    case True
    then obtain c where "show_nat n = [c]" using show_nat_single [of n] by (auto simp: length_Suc_conv)
    with assms show ?thesis by (cases x) auto
  next
    case False
    with show_nat_head [of n] show_nat_digits [of n] show ?thesis by (cases "show_nat n") auto
  qed
  with tw show ?thesis unfolding int_token_def by (simp only: if_False)
qed

lemma int_literal_base:
  "(if 2 < length (show_nat n) \<and> take 1 (show_nat n) = ''0'' \<and>
       (show_nat n ! 1 = CHR ''x'' \<or> show_nat n ! 1 = CHR ''X'') then 16
    else if 1 < length (show_nat n) \<and> take 1 (show_nat n) = ''0'' then 8 else 10) = (10 :: nat)"
proof (cases "n < 10")
  case True
  then show ?thesis using show_nat_single [of n] by simp
next
  case False
  with show_nat_head [of n] show_nat_digits [of n] show ?thesis by (cases "show_nat n") auto
qed

lemma int_literal_strtoull: "n < 2 ^ 64 \<Longrightarrow> strtoull 10 (show_nat n) = (of_nat n, True)"
proof -
  assume n: "n < 2 ^ 64"
  have all: "\<forall>c \<in> set (show_nat n). valid_digit 10 c"
    using show_nat_digits [of n] isdigit_facts by (auto simp: list_all_iff valid_digit_def)
  then have tw: "takeWhile (valid_digit 10) (show_nat n) = show_nat n"
    and dw: "dropWhile (valid_digit 10) (show_nat n) = []"
    by (simp_all add: takeWhile_eq_all_conv dropWhile_eq_Nil_conv)
  from n have "min n (2 ^ 64 - 1) = n" by simp
  then show ?thesis by (simp add: strtoull_def tw dw all show_nat_value)
qed

lemma separated_head:
  "separated r \<Longrightarrow> r = [] \<or> (\<exists>c s. r = c # s \<and> \<not> is_ident_continue c \<and> \<not> is_int_suffix c \<and> \<not> isdigit c \<and>
     c \<notin> {CHR ''x'', CHR ''X'', SQ})"
  by (cases r) (auto simp: separated_def is_ident_continue_def isalnum_def isalpha_def isdigit_def
      is_int_suffix_def code_def)

lemma number_literal:
  assumes "strip (unread p) = show_nat n @ (if u then ''u'' else []) @ r" "separated r" "n < 2 ^ 64"
  shows "parse_int_literal p = (eval d (Num n u), p\<lparr>unread := r\<rparr>)"
proof -
  let ?x = "(if u then ''u'' else []) @ r"
  have x: "?x = [] \<or> \<not> isdigit (hd ?x) \<and> hd ?x \<notin> {CHR ''x'', CHR ''X''}"
    using separated_head [OF assms(2)] by (auto simp: isdigit_def code_def)
  have tok: "int_token (unread (skip_spaces p)) = show_nat n"
    using int_literal_token [OF x] assms(1) by simp
  have suf: "takeWhile is_int_suffix ?x = (if u then ''u'' else [])" "dropWhile is_int_suffix ?x = r"
    using separated_head [OF assms(2)] by (auto simp: is_int_suffix_def)
  have big: "(2 ^ 63 - 1 < (of_nat n :: u64)) = (2 ^ 63 - 1 < n)"
    using assms(3) by (simp add: word_less_nat_alt unat_of_nat)
  have ne: "show_nat n \<noteq> []" using show_nat_digits by simp
  have r: "drop (length (show_nat n)) (unread (skip_spaces p)) = ?x" using assms(1) by simp
  have "parse_int_literal p =
      (if CHR ''u'' \<in> set (takeWhile is_int_suffix ?x) \<or> CHR ''U'' \<in> set (takeWhile is_int_suffix ?x) \<or>
          2 ^ 63 - 1 < (of_nat n :: u64)
       then (make_unsigned (of_nat n), (skip_spaces p)\<lparr>unread := dropWhile is_int_suffix ?x\<rparr>)
       else (make_signed (of_nat n), (skip_spaces p)\<lparr>unread := dropWhile is_int_suffix ?x\<rparr>))"
    unfolding parse_int_literal_def Let_def tok r int_literal_base int_literal_strtoull [OF assms(3)]
    using ne by simp
  then show ?thesis unfolding suf big by (simp split: if_split)
qed

lemma primary_atom:
  assumes "strip (unread p) = c # s" "c \<noteq> CHR ''(''"
  shows "parse_primary d conditional p =
    (if is_ident_start c then Some (parse_identifier d (skip_spaces p))
     else if c = SQ then Some (parse_char_literal (skip_spaces p))
     else Some (parse_int_literal (skip_spaces p)))"
proof -
  have "consume ''('' (skip_spaces p) = (False, skip_spaces p)"
    using assms strip_simps(3) [of "unread p"] by (subst consume_miss) (auto simp del: strip_simps(3))
  with assms(1) show ?thesis by (simp add: parse_primary_def)
qed

lemma accepts_atom:
  assumes "level e = 12" "good d e" "\<not> overflows d e"
    and "\<And>c p r. strip (unread p) = show_expr e @ r \<Longrightarrow> separated r \<Longrightarrow>
      parse_primary d c p = Some (eval d e, p\<lparr>unread := r\<rparr>)"
  shows "accepts d e 12"
  unfolding accepts_def level_parser_primary
proof (intro allI impI)
  fix m n r and p :: if_parser
  assume "strip (unread p) = show_at 12 e @ r" "separated r"
  with assms show "\<exists>p'. parse_primary d (parse_conditional d m) p = Some (eval d e, p') \<and> outcome d e p r p'"
    by (auto simp: outcome_def)
qed

lemma accepts_number: "n < 2 ^ 64 \<Longrightarrow> accepts d (Num n u) 12"
proof (rule accepts_atom)
  fix c r and p :: if_parser
  assume n: "n < 2 ^ 64" and a: "strip (unread p) = show_expr (Num n u) @ r" "separated r"
  obtain x s where x: "show_nat n = x # s" "isdigit x"
    using show_nat_digits [of n] by (cases "show_nat n") auto
  have "strip (unread (skip_spaces p)) = show_nat n @ (if u then ''u'' else []) @ r"
    unfolding unread_skip_spaces strip_simps(3) using a(1) by simp
  from number_literal [OF this a(2) n, of d]
  have "parse_int_literal (skip_spaces p) = (eval d (Num n u), p\<lparr>unread := r\<rparr>)" by simp
  moreover have "strip (unread p) = x # s @ (if u then ''u'' else []) @ r" using a(1) x(1) by simp
  ultimately show "parse_primary d c p = Some (eval d (Num n u), p\<lparr>unread := r\<rparr>)"
    using primary_atom isdigit_facts [OF x(2)] by (simp add: is_ident_start_def)
qed simp_all

lemma word_read:
  assumes "list_all is_ident_continue w" "r = [] \<or> \<not> is_ident_continue (hd r)"
  shows "takeWhile is_ident_continue (w @ r) = w"
  using assms by (cases r) (auto simp: list_all_iff takeWhile_append2 takeWhile_tail)

lemma separated_word: "separated r \<Longrightarrow> r = [] \<or> \<not> is_ident_continue (hd r)"
  using separated_head by force

lemma accepts_identifier: "wf_expr (Ident w) \<Longrightarrow> accepts d (Ident w) 12"
proof (rule accepts_atom)
  fix c r and p :: if_parser
  assume w: "wf_expr (Ident w)" and a: "strip (unread p) = show_expr (Ident w) @ r" "separated r"
  have tw: "takeWhile is_ident_continue (unread (skip_spaces p)) = w"
    using word_read [of w r] separated_word [OF a(2)] w a(1) by simp
  have "take 1 r \<noteq> [SQ]" using separated_head [OF a(2)] by auto
  then have "parse_identifier d (skip_spaces p) = (make_signed 0, p\<lparr>unread := r\<rparr>)"
    using w a(1) unfolding parse_identifier_def tw by (simp add: drop_unread_def)
  moreover obtain x s where "w = x # s" "is_ident_start x" using w by (cases w) auto
  moreover from this have "x \<noteq> CHR ''(''" by (auto simp: is_ident_start_def isalpha_def code_def)
  ultimately show "parse_primary d c p = Some (eval d (Ident w), p\<lparr>unread := r\<rparr>)"
    using primary_atom [of p x "s @ r" d c] a(1) by simp
qed simp_all

lemma accepts_defined: "wf_expr (Defined w) \<Longrightarrow> accepts d (Defined w) 12"
proof (rule accepts_atom)
  fix c r and p :: if_parser
  assume w: "wf_expr (Defined w)" and a: "strip (unread p) = show_expr (Defined w) @ r" "separated r"
  let ?q = "p\<lparr>unread := ''('' @ w @ CHR '')'' # r\<rparr>"
  have u: "strip (unread p) = ''defined'' @ ''('' @ w @ CHR '')'' # r" using a(1) by simp
  have "takeWhile is_ident_continue (strip (unread p)) = ''defined''"
    unfolding u by (rule word_read) (simp_all add: is_ident_continue_def isalnum_def isalpha_def isdigit_def code_def)
  then have "parse_identifier d (skip_spaces p) = parse_defined d ?q"
    using u by (simp add: parse_identifier_def drop_unread_def)
  also have "\<dots> = (of_bool_value (d w), p\<lparr>unread := r\<rparr>)"
  proof -
    have tail: "takeWhile is_ident_continue (w @ CHR '')'' # r) = w"
      by (rule word_read) (use w in \<open>simp_all add: is_ident_continue_def isalnum_def isalpha_def isdigit_def code_def\<close>)
    have "strip (w @ CHR '')'' # r) = w @ CHR '')'' # r"
      using w by (cases w) (auto simp: strip_def isspace_def is_ident_continue_def isalnum_def isalpha_def isdigit_def code_def)
    with tail show ?thesis
      by (simp add: parse_defined_def consume_hit strip_Cons isspace_def code_def drop_unread_def require_def)
  qed
  finally show "parse_primary d c p = Some (eval d (Defined w), p\<lparr>unread := r\<rparr>)"
    using u by (subst primary_atom [OF u [simplified append_Cons append_Nil]])
      (simp_all add: is_ident_start_def isalpha_def code_def)
qed simp_all

section \<open>Every well-formed expression is read back\<close>

lemma accepts_conditional_if_else:
  assumes "accepts d c 1" "accepts_conditional d t" "accepts_conditional d f" "wf_expr t" "wf_expr f"
  shows "accepts_conditional d (IfElse c t f)"
  unfolding accepts_conditional_def
proof (intro allI impI)
  fix m r and p :: if_parser
  let ?rf = "SP # show_expr f @ r"
  let ?rt = "SP # show_expr t @ SP # CHR '':'' # ?rf"
  assume a: "strip (unread p) = show_expr (IfElse c t f) @ r" "separated r" "stops 1 r"
    "take 1 (strip r) \<noteq> ''?''" "length (unread p) < m"
  then obtain n where m: "m = Suc n" by (cases m) auto
  have u: "strip (unread p) = show_at 1 c @ SP # CHR ''?'' # ?rt" using a(1) by simp
  have len: "length (show_at 1 c @ SP # CHR ''?'' # ?rt) \<le> n"
    using strip_length [of "unread p"] u a(5) m by simp
  have s1: "stops 1 (SP # CHR ''?'' # ?rt)" "stops 1 (SP # CHR '':'' # ?rf)"
    by (rule stops_closing; simp add: strip_Cons isspace_def code_def)+
  have l1: "length (unread p) \<le> n" "length (unread p) < Suc n" using a(5) m by simp_all
  obtain p1 where p1: "level_parser d (parse_conditional d n) (Suc n) 1 p = Some (eval d c, p1)"
      "outcome d c p (SP # CHR ''?'' # ?rt) p1"
    using acceptsE [OF assms(1) u _ s1(1) l1] by (auto simp: separated_def)
  have c1: "consume ''?'' (skip_spaces p1) = (True, p1\<lparr>unread := ?rt\<rparr>)"
    using p1(2) by (simp add: consume_hit outcome_def strip_Cons isspace_def code_def)
  obtain p2 where p2: "parse_conditional d n (p1\<lparr>unread := ?rt\<rparr>) = Some (eval d t, p2)"
      "outcome d t (p1\<lparr>unread := ?rt\<rparr>) (SP # CHR '':'' # ?rf) p2"
    by (rule accepts_conditionalE [OF assms(2), of "p1\<lparr>unread := ?rt\<rparr>" "SP # CHR '':'' # ?rf" n])
      (use len s1(2) assms(4) in \<open>simp_all add: strip_show_expr separated_def strip_Cons isspace_def code_def\<close>)
  have c2: "consume '':'' p2 = (True, p2\<lparr>unread := ?rf\<rparr>)"
    using p2(2) by (simp add: consume_hit outcome_def strip_Cons isspace_def code_def)
  obtain p3 where p3: "parse_conditional d n (p2\<lparr>unread := ?rf\<rparr>) = Some (eval d f, p3)"
      "outcome d f (p2\<lparr>unread := ?rf\<rparr>) r p3"
    by (rule accepts_conditionalE [OF assms(3), of "p2\<lparr>unread := ?rf\<rparr>" r n])
      (use len a assms(5) in \<open>simp_all add: strip_show_expr\<close>)
  have "parse_conditional d m p = Some (eval d (IfElse c t f), p3)"
    using p1(1) c1 p2(1) c2 p3(1) by (simp add: m parse_logical_or_level)
  moreover have "outcome d (IfElse c t f) p r p3" using p1(2) p2(2) p3(2) by (auto simp: outcome_def)
  ultimately show "\<exists>p'. parse_conditional d m p = Some (eval d (IfElse c t f), p') \<and>
      outcome d (IfElse c t f) p r p'" by blast
qed

definition accepted :: "(string \<Rightarrow> bool) \<Rightarrow> cexpr \<Rightarrow> bool" where
  "accepted d e = (accepts_conditional d e \<and> accepts d e 11 \<and> (\<forall>k. 1 \<le> k \<longrightarrow> k \<le> 10 \<longrightarrow> loops d e k))"

lemma accepted_level: "accepted d e \<Longrightarrow> 1 \<le> k \<Longrightarrow> k \<le> 11 \<Longrightarrow> accepts d e k"
  using loops_accepts [of d e k] by (cases "k = 11") (auto simp: accepted_def)

lemma accepted_of_unary:
  assumes "accepts d e 11" "11 \<le> level e"
  shows "accepted d e"
proof -
  have "loops d e k \<and> accepts d e k" if "1 \<le> k" "k \<le> 10" for k
    using descend [of d e 10 k] assms that by simp
  then show ?thesis
    unfolding accepted_def using assms accepts_conditional_of_level [of d e] by auto
qed

lemma accepted_of_conditional:
  assumes "accepts_conditional d e" "wf_expr e" "level e \<le> 10"
    and "\<And>k. 1 \<le> k \<Longrightarrow> k \<le> level e \<Longrightarrow> loops d e k"
  shows "accepted d e"
proof -
  have e11: "accepts d e 11"
    using accepts_unary_of_primary [OF accepts_parenthesised] assms(1-3) by simp
  have "loops d e k" if "level e < k" "k \<le> 10" for k
    using descend [of d e 10 k] e11 that by simp
  with assms e11 show ?thesis unfolding accepted_def by (meson not_le)
qed

lemma accepted_binary:
  assumes "accepted d a" "accepted d b" "wf_expr (Binary op a b)"
  shows "accepted d (Binary op a b)"
proof -
  let ?e = "Binary op a b" and ?k = "op_level op"
  have k: "1 \<le> ?k" "?k \<le> 10" using op_level_range [of op] by simp_all
  have own: "loops d ?e ?k"
    using loops_binary [of d a ?k b op] accepted_level [OF assms(2), of "Suc ?k"] assms k
    by (simp add: accepted_def)
  have below: "loops d ?e i \<and> accepts d ?e i" if "1 \<le> i" "i < ?k" for i
  proof -
    from that k obtain j where j: "?k = Suc j" "i \<le> j" "j \<le> 10" by (cases ?k) auto
    show ?thesis
      by (rule descend [of d ?e j i]) (use loops_accepts [OF own k] j that in auto)
  qed
  have "accepts d ?e 1" using below [of 1] loops_accepts [OF own k] k by (cases "?k = 1") auto
  then have "accepts_conditional d ?e" using k accepts_conditional_of_level by simp
  then show ?thesis
    by (rule accepted_of_conditional) (use assms(3) k own below in \<open>auto simp: le_less\<close>)
qed

lemma expression_accepted: "wf_expr e \<Longrightarrow> accepted d e"
proof (induction e)
  case (Num n u)
  then show ?case using accepted_of_unary [OF accepts_unary_of_primary] accepts_number by simp
next
  case (Ident w)
  then show ?case using accepted_of_unary [OF accepts_unary_of_primary] accepts_identifier by simp
next
  case (Defined w)
  then show ?case using accepted_of_unary [OF accepts_unary_of_primary] accepts_defined by simp
next
  case (Unary op e)
  then have "accepts d (Unary op e) 11" by (intro accepts_unary) (auto simp: accepted_def)
  then show ?case by (rule accepted_of_unary) simp
next
  case (Binary op a b)
  then show ?case using accepted_binary by simp
next
  case (IfElse c t f)
  then have "accepts_conditional d (IfElse c t f)"
    using accepted_level [of d c 1] by (intro accepts_conditional_if_else) (auto simp: accepted_def)
  then show ?case by (rule accepted_of_conditional) (use IfElse.prems in auto)
qed



end
