(* ===== verification/PP_Directives_Correct.thy ===== *)
theory PP_Directives_Correct
  imports PP_Run PP_Cond_Correct
begin

text \<open>
  What the directives mean: which branch of a conditional group is active, what happens to skipped
  lines, that a definition is read back as it is written, and which files count as guarded.
\<close>

section \<open>Branches of a conditional group\<close>

lemma elif_frames:
  assumes "f = \<lparr>parent_active = a, any_taken = a \<and> b, this_active = a \<and> b, saw_else = False\<rparr>"
  shows "fold elif_frame bs f =
    \<lparr>parent_active = a, any_taken = (a \<and> True \<in> set (b # bs)),
     this_active = (a \<and> last (b # bs) \<and> True \<notin> set (butlast (b # bs))), saw_else = False\<rparr>"
proof (induction bs rule: rev_induct)
  case (snoc c bs)
  then show ?case
    by (simp add: elif_frame_def Let_def butlast_append) (metis append_butlast_last_id in_set_conv_decomp_last insertE list.distinct(1) list.set(2) set_append UnE Un_iff)
qed (use assms in simp)

text \<open>
  C13: of the branches of a conditional group exactly the first one whose condition holds is
  active, and only if the group itself is: after \<open>#if\<close> and any number of \<open>#elif\<close> directives the
  current branch is active iff its condition holds and no condition before it does, and the
  \<open>#else\<close> branch iff none of them does.
\<close>

theorem first_true_branch:
  "this_active (fold elif_frame bs (hd (cond_stack (push_frame b st)))) =
     (is_active st \<and> last (b # bs) \<and> True \<notin> set (butlast (b # bs))) \<and>
   this_active (else_frame (fold elif_frame bs (hd (cond_stack (push_frame b st))))) =
     (is_active st \<and> True \<notin> set (b # bs))"
proof -
  have "hd (cond_stack (push_frame b st)) =
      \<lparr>parent_active = is_active st, any_taken = is_active st \<and> b, this_active = is_active st \<and> b, saw_else = False\<rparr>"
    by (simp add: push_frame_def Let_def)
  from elif_frames [OF this, of bs] show ?thesis by (auto simp: else_frame_def Let_def)
qed

section \<open>Skipped lines\<close>

definition conditional_line :: "string \<Rightarrow> bool" where
  "conditional_line l =
     (case directive_text l of
        None \<Rightarrow> False
      | Some raw \<Rightarrow> fst (split_directive raw) \<in> set [''if'', ''ifdef'', ''ifndef'', ''elif'', ''else'', ''endif''])"

definition at_line :: "nat \<Rightarrow> preprocessor \<Rightarrow> preprocessor" where
  "at_line n st = set_file_macro (set_line_macro n st)"

lemma at_line_again: "at_line n (at_line m st) = at_line n st"
  by (auto simp: at_line_def set_file_macro_def set_line_macro_def set_macro_def fun_upd_twist)

lemma at_line_active [simp]: "is_active (at_line n st) = is_active st"
  by (simp add: at_line_def set_file_macro_def set_line_macro_def set_macro_def is_active_def)

lemma skipped_directive:
  assumes "\<not> is_active st" "directive_text l = Some raw" "\<not> conditional_line l"
  shows "process_directive env nested raw out file n st = Inr (out @ [LF], st)"
proof -
  have "conditional_directive env (fst (split_directive raw)) rest st = None" for rest
    using assms(2,3) by (simp add: conditional_line_def conditional_directive_def)
  with assms(1) show ?thesis by (simp add: process_directive_def split_beta)
qed

lemma skipped_loop:
  assumes "list_all (\<lambda>l. \<not> conditional_line l) ls"
  shows "\<not> is_active st \<Longrightarrow>
    line_loop env (\<lambda>raw out n st. process_directive env nested raw out path n st) out n ls st =
      Inr (out @ replicate (length ls) LF, if ls = [] then st else at_line (n + length ls) st)"
  using assms
proof (induction ls arbitrary: out n st)
  case (Cons l ls)
  have "line_loop env (\<lambda>raw out n st. process_directive env nested raw out path n st) out n (l # ls) st =
      line_loop env (\<lambda>raw out n st. process_directive env nested raw out path n st) (out @ [LF]) (n + 1) ls (at_line (n + 1) st)"
    using Cons.prems skipped_directive [of "at_line (n + 1) st" l]
    by (cases "directive_text l") (simp_all add: line_loop_eq Let_def flip: at_line_def)
  with Cons show ?case by (simp add: at_line_again)
qed simp



text \<open>
  The condition of a group inside a skipped group is evaluated all the same: \<open>__COUNTER__\<close> in it
  counts.
\<close>

lemma handle_if_counter:
  assumes "expand_line (env_levels env) (resolve_defined_and_intrinsics (env_host env) cond (is_macro st)
      (Some (\<lambda>arg. can_resolve_include (env_files env) arg (virtual_file st) st))) st = Some (x, st1)"
  shows "\<exists>st'. handle_if env cond st = Inr st' \<and> counter st' = counter st1"
proof -
  have "\<exists>b st'. evaluate_if_expr env cond st = Inr (b, st') \<and> counter st' = counter st1"
    using assms parse_if_expr_total
    by (auto simp: evaluate_if_expr_def expand_def Let_def set_fallback_def split: option.split)
      (metis option.distinct(1))
  then show ?thesis by (auto simp: handle_if_def push_frame_def Let_def)
qed

lemma skipped_condition_evaluated:
  "\<exists>st'. handle_if (plain_env 2) ''__COUNTER__'' (push_frame False ((initial_state linux_target)
      \<lparr>macros := [''__COUNTER__'' \<mapsto> object_macro ''__COUNTER__'' ''0'']\<rparr>)) = Inr st' \<and> counter st' = 1"
proof -
  let ?st = "push_frame False ((initial_state linux_target)
    \<lparr>macros := [''__COUNTER__'' \<mapsto> object_macro ''__COUNTER__'' ''0'']\<rparr>)"
  let ?text = "resolve_defined_and_intrinsics (env_host (plain_env 2)) ''__COUNTER__'' (is_macro ?st)
    (Some (\<lambda>arg. can_resolve_include (env_files (plain_env 2)) arg (virtual_file ?st) ?st))"
  have "map_option (\<lambda>(x, st). counter st) (expand_line (env_levels (plain_env 2)) ?text ?st) = Some 1"
    by code_simp
  then obtain x st1 where "expand_line (env_levels (plain_env 2)) ?text ?st = Some (x, st1)" "counter st1 = 1" by auto
  with handle_if_counter [OF this(1)] show ?thesis by auto
qed

section \<open>Definitions read back\<close>

text \<open>A definition as it is written after \<open>#define\<close>, and the definitions that can be written so.\<close>

definition written_params :: "macro_def \<Rightarrow> string list" where
  "written_params d = params d @ (if variadic d then [va_name d @ ''...''] else [])"

definition show_macro :: "macro_def \<Rightarrow> string" where
  "show_macro d =
     macro_name d @
     (if function_like d then ''('' @ join_with '','' (written_params d) @ '')'' else []) @ '' '' @ body d"

definition ident_text :: "string \<Rightarrow> bool" where
  "ident_text w = (w \<noteq> [] \<and> list_all is_ident_continue w)"

definition writable :: "macro_def \<Rightarrow> bool" where
  "writable d =
     (ident_text (macro_name d) \<and> is_ident_start (hd (macro_name d)) \<and> list_all ident_text (params d) \<and>
      (va_name d \<noteq> [] \<longrightarrow> variadic d \<and> ident_text (va_name d)) \<and>
      (\<not> function_like d \<longrightarrow> params d = [] \<and> \<not> variadic d) \<and>
      (body d \<noteq> [] \<longrightarrow> \<not> isspace (hd (body d))))"

lemma ident_char: "is_ident_continue c \<Longrightarrow> c \<noteq> CHR '')'' \<and> c \<noteq> CHR '','' \<and> c \<noteq> CHR ''.'' \<and> \<not> isspace c"
  by (auto simp: is_ident_continue_def isalnum_def isalpha_def isdigit_def isspace_def code_def)

definition param_text :: "string \<Rightarrow> bool" where
  "param_text p = (p \<noteq> [] \<and> list_all (\<lambda>c. c \<noteq> CHR '')'' \<and> c \<noteq> CHR '','' \<and> \<not> isspace c) p)"

lemma param_text_trim: "param_text p \<Longrightarrow> trim_copy p = p"
proof -
  assume p: "param_text p"
  then have "\<not> isspace (hd p)" "\<not> isspace (last p)" "p \<noteq> []" by (auto simp: param_text_def list_all_iff)
  then have "dropWhile isspace p = p" "dropWhile isspace (rev p) = rev p"
    by (simp_all add: dropWhile_eq_self_iff hd_rev)
  then show ?thesis by (simp add: trim_copy_def)
qed

lemma ident_text_param: "ident_text w \<Longrightarrow> param_text w"
  unfolding ident_text_def param_text_def list_all_iff using ident_char by blast

lemma dots_param: "w = [] \<or> param_text w \<Longrightarrow> param_text (w @ ''...'')"
  by (auto simp: param_text_def isspace_def code_def)

lemma written_params_ok: "writable d \<Longrightarrow> list_all param_text (written_params d)"
  using dots_param [of "va_name d"] ident_text_param
  by (auto simp: writable_def written_params_def list_all_iff)

lemma parse_params_word:
  "list_all (\<lambda>c. c \<noteq> CHR '')'' \<and> c \<noteq> CHR '','' \<and> \<not> isspace c) p \<Longrightarrow>
     parse_params acc (p @ s) d = parse_params (acc @ p) s d"
  by (induction p arbitrary: acc) auto

lemma parse_params_items:
  "list_all param_text ps \<Longrightarrow> parse_params [] (join_with '','' ps @ CHR '')'' # r) d = (fold add_param ps d, r)"
proof (induction "'','' :: string" ps arbitrary: d rule: join_with.induct)
  case (2 p)
  then have p: "trim_copy p = p" "p \<noteq> []" by (auto simp: param_text_trim param_text_def)
  have "parse_params [] (p @ CHR '')'' # r) d = parse_params p (CHR '')'' # r) d"
    using 2 parse_params_word [of p "[]"] by (simp add: param_text_def)
  with p show ?case by simp
next
  case (3 p q ps)
  then have p: "trim_copy p = p" "p \<noteq> []" by (auto simp: param_text_trim param_text_def)
  have "parse_params [] (p @ CHR '','' # join_with '','' (q # ps) @ CHR '')'' # r) d =
      parse_params p (CHR '','' # join_with '','' (q # ps) @ CHR '')'' # r) d"
    using 3 parse_params_word [of p "[]"] by (simp add: param_text_def)
  with 3 p show ?case by simp
qed simp

lemma add_params:
  "list_all ident_text ps \<Longrightarrow> fold add_param ps d = d\<lparr>params := params d @ ps\<rparr>"
proof (induction ps arbitrary: d)
  case (Cons p ps)
  then have p: "list_all is_ident_continue p" by (simp add: ident_text_def)
  have "\<not> ends_in_dots p \<and> p \<noteq> ''...''"
  proof -
    have "CHR ''.'' \<notin> set p" using p ident_char by (auto simp: list_all_iff)
    moreover have "set (drop (length p - 3) p) \<subseteq> set p" by (rule set_drop_subset)
    ultimately show ?thesis by (auto simp: ends_in_dots_def)
  qed
  then have "add_param p d = d\<lparr>params := params d @ [p]\<rparr>" by (simp add: add_param_def)
  with Cons show ?case by simp
qed simp

lemma add_written_params:
  assumes "writable d" "function_like d"
  shows "fold add_param (written_params d) ((object_macro (macro_name d) [])\<lparr>function_like := True\<rparr>) = d\<lparr>body := []\<rparr>"
proof -
  have ps: "list_all ident_text (params d)" using assms(1) by (simp add: writable_def)
  show ?thesis
  proof (cases "variadic d")
    case True
    have "add_param (va_name d @ ''...'') e = e\<lparr>variadic := True, va_name := va_name d\<rparr>" if "va_name e = []" for e :: macro_def
    proof (cases "va_name d = []")
      case False
      with assms(1) have "param_text (va_name d)" by (simp add: writable_def ident_text_param)
      with False show ?thesis by (simp add: add_param_def ends_in_dots_def param_text_trim)
    qed (use that in \<open>simp add: add_param_def\<close>)
    with True ps assms(2) show ?thesis by (simp add: written_params_def add_params object_macro_def)
  next
    case False
    with ps assms show ?thesis by (simp add: written_params_def add_params object_macro_def writable_def)
  qed
qed

text \<open>
  C26: a definition that is written out after \<open>#define\<close>, object-like, function-like or variadic with
  or without a name for the rest, is read back as that definition and stored under its name.
\<close>

theorem handle_define_roundtrip:
  assumes "writable d"
  shows "handle_define (show_macro d) file n st = set_macro (macro_name d) d st"
proof -
  let ?name = "macro_name d"
  let ?tail = "(if function_like d then ''('' @ join_with '','' (written_params d) @ '')'' else []) @ '' '' @ body d"
  have name: "?name \<noteq> []" "is_ident_start (hd ?name)" "\<forall>c \<in> set ?name. is_ident_continue c"
    using assms by (auto simp: writable_def ident_text_def list_all_iff)
  have start: "dropWhile isspace (show_macro d) = ?name @ ?tail"
    using name ident_char by (cases ?name) (auto simp: show_macro_def)
  have tail: "\<not> is_ident_continue (hd ?tail)" "?tail \<noteq> []"
    by (auto simp: is_ident_continue_def isalnum_def isalpha_def isdigit_def code_def)
  have split: "takeWhile is_ident_continue (?name @ ?tail) = ?name" "dropWhile is_ident_continue (?name @ ?tail) = ?tail"
    using name tail by (auto simp: takeWhile_append2 dropWhile_append2 takeWhile_eq_Nil_iff dropWhile_eq_self_iff)
  have body: "dropWhile isspace (body d) = body d"
    using assms by (cases "body d") (auto simp: writable_def)
  have parsed: "parse_params [] (tl ?tail) ((object_macro ?name [])\<lparr>function_like := True\<rparr>) = (d\<lparr>body := []\<rparr>, '' '' @ body d)"
    if "function_like d"
    using that parse_params_items [OF written_params_ok [OF assms]] add_written_params [OF assms that] by simp
  have plain: "object_macro ?name [] = d\<lparr>body := []\<rparr>" if "\<not> function_like d"
    using that assms by (cases d) (auto simp: writable_def object_macro_def)
  have blank: "dropWhile isspace ('' '' @ body d) = body d" using body by (simp add: isspace_def code_def)
  show ?thesis
  proof (cases "function_like d")
    case True
    then show ?thesis
      unfolding handle_define_def start split Let_def using name parsed [OF True] blank by simp
  next
    case False
    then show ?thesis
      unfolding handle_define_def start split Let_def using name plain [OF False] blank by simp
  qed
qed

theorem handle_define_roundtrip_witness:
  "handle_define ''LOG(fmt,args...) printf(fmt, ## args)'' ''a.c'' 1 (initial_state linux_target) =
     set_macro ''LOG'' \<lparr>macro_name = ''LOG'', function_like = True, variadic = True, params = [''fmt''],
       body = ''printf(fmt, ## args)'', va_name = ''args''\<rparr> (initial_state linux_target)"
proof -
  let ?d = "\<lparr>macro_name = ''LOG'', function_like = True, variadic = True, params = [''fmt''],
    body = ''printf(fmt, ## args)'', va_name = ''args''\<rparr>"
  have "writable ?d" by code_simp
  moreover have "show_macro ?d = ''LOG(fmt,args...) printf(fmt, ## args)''" by code_simp
  ultimately show ?thesis using handle_define_roundtrip [of ?d "''a.c''" 1 "initial_state linux_target"] by simp
qed

section \<open>Include guards\<close>

lemma lines_of_unlines: "list_all (\<lambda>l. LF \<notin> set l) ls \<Longrightarrow> lines_of (unlines ls) = ls"
proof (induction ls)
  case (Cons l ls)
  have eq: "lines_of s = takeWhile (\<lambda>c. c \<noteq> LF) s # lines_of (tl (dropWhile (\<lambda>c. c \<noteq> LF) s))" if "s \<noteq> []" for s
    using that by (cases s) simp_all
  have "\<forall>c \<in> set l. c \<noteq> LF" using Cons.prems by auto
  then have "takeWhile (\<lambda>c. c \<noteq> LF) (l @ LF # r) = l" "dropWhile (\<lambda>c. c \<noteq> LF) (l @ LF # r) = LF # r" for r
    by (simp_all add: takeWhile_append2 dropWhile_append2)
  with Cons eq [of "l @ LF # unlines ls"] show ?case by (simp add: unlines_def)
qed (simp add: unlines_def)

text \<open>How the directives of a line change the depth of nested conditionals.\<close>

definition directive_key :: "string \<Rightarrow> string" where
  "directive_key line =
     (case directive_text line of None \<Rightarrow> [] | Some cs \<Rightarrow> takeWhile not_blank (dropWhile is_space_or_tab cs))"

definition depth_change :: "string \<Rightarrow> int" where
  "depth_change line =
     (if directive_key line \<in> set [''if'', ''ifdef'', ''ifndef''] then 1
      else if directive_key line = ''endif'' then -1 else 0)"

lemma guard_body_line:
  assumes "2 \<le> directive_count g"
  shows "\<exists>k \<ge> 2. guard_line line g = Some (g\<lparr>directive_count := k, nesting := nesting g + depth_change line\<rparr>)"
proof (cases "directive_text line")
  case None
  then have "guard_line line g = Some g"
    using assms by (cases "dropWhile is_space_or_tab line") 
      (auto simp: guard_line_def directive_text_def simp del: dropWhile_eq_Nil_conv split: if_splits)
  with None assms show ?thesis
    by (intro exI [of _ "directive_count g"]) (simp add: depth_change_def directive_key_def)
next
  case (Some cs)
  then have "dropWhile is_space_or_tab line = CHR ''#'' # cs"
    by (auto simp: directive_text_def split: list.splits if_splits)
  with assms Some show ?thesis
    by (intro exI [of _ "directive_count g + 1"])
      (auto simp: guard_line_def guard_directive_def depth_change_def directive_key_def Let_def)
qed

lemma guard_body:
  "2 \<le> directive_count g \<Longrightarrow>
     \<exists>k \<ge> 2. guard_lines ls g = Some (g\<lparr>directive_count := k, nesting := nesting g + sum_list (map depth_change ls)\<rparr>)"
proof (induction ls arbitrary: g)
  case (Cons l ls)
  obtain k where k: "k \<ge> 2" "guard_line l g = Some (g\<lparr>directive_count := k, nesting := nesting g + depth_change l\<rparr>)"
    using guard_body_line [OF Cons.prems] by blast
  from Cons.IH [of "g\<lparr>directive_count := k, nesting := nesting g + depth_change l\<rparr>"] k show ?case
    by (auto simp: add.assoc)
qed (use order_refl in auto)



section \<open>Line count of forwarded pragmas\<close>

text \<open>A pragma that is passed on to the parser takes two lines of the output for one of the source.\<close>

lemma forwarded_pragma_two_lines:
  assumes "is_active st"
  shows "process_directive env nested ''pragma pack(1)'' out file n st = Inr (out @ ''#pragma pack(1)'' @ [LF, LF], st)"
proof -
  have "split_directive ''pragma pack(1)'' = (''pragma'', ''pack(1)'')" "trim_copy ''pack(1)'' = ''pack(1)''" by code_simp+
  then show ?thesis
    using assms by (simp add: process_directive_def conditional_directive_def active_directive_def handle_pragma_def)
qed

section \<open>Conditionals inside a call\<close>

text \<open>
  While the lines of a call are joined, the state of the conditionals is not looked at: a line of a
  skipped group between the parentheses is kept.
\<close>

lemma skipped_line_in_call_kept:
  "map_sum id fst (line_loop (plain_env 1)
     (\<lambda>raw out n st. process_directive (plain_env 1) (preprocess_text (plain_env 1) 1) raw out ''a.c'' n st)
     [] 0 [''f('', ''#ifdef NOPE'', ''x,'', ''#endif'', ''y)''] ((initial_state linux_target)\<lparr>macros := Map.empty\<rparr>)) =
   Inr ([LF, LF] @ ''f( x, y)'' @ [LF, LF, LF, LF, LF])"
  by code_simp

end
