(* ===== verification/Token.thy ===== *)
theory Token
  imports Source_Profile Text_Id_Table
begin

text \<open>
  Tokens, their debug names, the keyword classifier and the registry of builtin type traits
  (\<open>frontend/lexer/token.hpp\<close>, \<open>token.cpp\<close>). The flat C++ enumeration is split along the comment
  headings of the source into one datatype per group, each wrapped by a constructor of
  \<open>token_kind\<close>; the constructors keep their names.
\<close>

datatype c_keyword =
    KwAuto | KwBreak | KwCase | KwChar | KwConst | KwContinue | KwDefault | KwDo | KwDouble |
    KwElse | KwEnum | KwExtern | KwFloat | KwFor | KwGoto | KwIf | KwInline | KwInt | KwLong |
    KwRegister | KwRestrict | KwReturn | KwShort | KwSigned | KwSizeof | KwStatic | KwStruct |
    KwSwitch | KwTypedef | KwUnion | KwUnsigned | KwVoid | KwVolatile | KwWhile

datatype c11_keyword =
    KwAlignas | KwAlignof | KwAtomic | KwBool | KwComplex | KwGeneric | KwImaginary |
    KwNoreturn | KwStaticAssert | KwThreadLocal

datatype gcc_keyword =
    KwTypeof | KwTypeofUnqual | KwAsm | KwAttribute | KwExtension | KwBuiltin |
    KwBuiltinVaArg | KwInt128 | KwUInt128 | KwAutoType | KwGnuAlignof | KwGccReal | KwGccImag

datatype cpp_keyword =
    KwTemplate | KwConstexpr | KwConsteval | KwNamespace | KwUsing | KwTypename | KwNoexcept |
    KwDecltype | KwStaticCast | KwReinterpretCast | KwConstCast | KwClass | KwFinal |
    KwOverride | KwPrivate | KwProtected | KwPublic | KwFriend | KwVirtual | KwMutable |
    KwNullptr | KwTrue | KwFalse | KwOperator | KwNew | KwDelete | KwExplicit | KwRequires |
    KwConcept

datatype punctuation =
    LParen | RParen | LBrace | RBrace | LBracket | RBracket | Semi | Comma | Dot | Arrow |
    Ellipsis

datatype operator_kind =
    Plus | Minus | Star | Slash | Percent | Amp | Pipe | Caret | Tilde | Bang | Assign | Less |
    Greater | Question | Colon | Hash

datatype compound_operator =
    PlusPlus | MinusMinus | PlusAssign | MinusAssign | StarAssign | SlashAssign |
    PercentAssign | AmpAssign | PipeAssign | CaretAssign | LessLess | GreaterGreater |
    LessLessAssign | GreaterGreaterAssign | EqualEqual | BangEqual | LessEqual | GreaterEqual |
    Spaceship | AmpAmp | PipePipe | HashHash | ColonColon

datatype token_kind =
    IntLit | FloatLit | StrLit | CharLit | Identifier |
    CKw c_keyword | C11Kw c11_keyword | GccKw gcc_keyword | CppKw cpp_keyword |
    Punct punctuation | Op operator_kind | COp compound_operator |
    PragmaPack | PragmaWeak | PragmaGccVisibility | PragmaExec | EndOfFile | Invalid

primrec c_keyword_name :: "c_keyword \<Rightarrow> string" where
  "c_keyword_name KwAuto = ''KW_auto''"
| "c_keyword_name KwBreak = ''KW_break''"
| "c_keyword_name KwCase = ''KW_case''"
| "c_keyword_name KwChar = ''KW_char''"
| "c_keyword_name KwConst = ''KW_const''"
| "c_keyword_name KwContinue = ''KW_continue''"
| "c_keyword_name KwDefault = ''KW_default''"
| "c_keyword_name KwDo = ''KW_do''"
| "c_keyword_name KwDouble = ''KW_double''"
| "c_keyword_name KwElse = ''KW_else''"
| "c_keyword_name KwEnum = ''KW_enum''"
| "c_keyword_name KwExtern = ''KW_extern''"
| "c_keyword_name KwFloat = ''KW_float''"
| "c_keyword_name KwFor = ''KW_for''"
| "c_keyword_name KwGoto = ''KW_goto''"
| "c_keyword_name KwIf = ''KW_if''"
| "c_keyword_name KwInline = ''KW_inline''"
| "c_keyword_name KwInt = ''KW_int''"
| "c_keyword_name KwLong = ''KW_long''"
| "c_keyword_name KwRegister = ''KW_register''"
| "c_keyword_name KwRestrict = ''KW_restrict''"
| "c_keyword_name KwReturn = ''KW_return''"
| "c_keyword_name KwShort = ''KW_short''"
| "c_keyword_name KwSigned = ''KW_signed''"
| "c_keyword_name KwSizeof = ''KW_sizeof''"
| "c_keyword_name KwStatic = ''KW_static''"
| "c_keyword_name KwStruct = ''KW_struct''"
| "c_keyword_name KwSwitch = ''KW_switch''"
| "c_keyword_name KwTypedef = ''KW_typedef''"
| "c_keyword_name KwUnion = ''KW_union''"
| "c_keyword_name KwUnsigned = ''KW_unsigned''"
| "c_keyword_name KwVoid = ''KW_void''"
| "c_keyword_name KwVolatile = ''KW_volatile''"
| "c_keyword_name KwWhile = ''KW_while''"

primrec c11_keyword_name :: "c11_keyword \<Rightarrow> string" where
  "c11_keyword_name KwAlignas = ''KW__Alignas''"
| "c11_keyword_name KwAlignof = ''KW__Alignof''"
| "c11_keyword_name KwAtomic = ''KW__Atomic''"
| "c11_keyword_name KwBool = ''KW__Bool''"
| "c11_keyword_name KwComplex = ''KW__Complex''"
| "c11_keyword_name KwGeneric = ''KW__Generic''"
| "c11_keyword_name KwImaginary = ''KW__Imaginary''"
| "c11_keyword_name KwNoreturn = ''KW__Noreturn''"
| "c11_keyword_name KwStaticAssert = ''KW__Static_assert''"
| "c11_keyword_name KwThreadLocal = ''KW__Thread_local''"

primrec gcc_keyword_name :: "gcc_keyword \<Rightarrow> string" where
  "gcc_keyword_name KwTypeof = ''KW_typeof''"
| "gcc_keyword_name KwTypeofUnqual = ''KW_typeof_unqual''"
| "gcc_keyword_name KwAsm = ''KW_asm''"
| "gcc_keyword_name KwAttribute = ''KW___attribute__''"
| "gcc_keyword_name KwExtension = ''KW___extension__''"
| "gcc_keyword_name KwBuiltin = ''KW___builtin_va_list''"
| "gcc_keyword_name KwBuiltinVaArg = ''KW___builtin_va_arg''"
| "gcc_keyword_name KwInt128 = ''KW___int128''"
| "gcc_keyword_name KwUInt128 = ''KW___uint128_t''"
| "gcc_keyword_name KwAutoType = ''KW___auto_type''"
| "gcc_keyword_name KwGnuAlignof = ''KW___alignof__''"
| "gcc_keyword_name KwGccReal = ''KW___real__''"
| "gcc_keyword_name KwGccImag = ''KW___imag__''"

primrec cpp_keyword_name :: "cpp_keyword \<Rightarrow> string" where
  "cpp_keyword_name KwTemplate = ''KW_template''"
| "cpp_keyword_name KwConstexpr = ''KW_constexpr''"
| "cpp_keyword_name KwConsteval = ''KW_consteval''"
| "cpp_keyword_name KwNamespace = ''KW_namespace''"
| "cpp_keyword_name KwUsing = ''KW_using''"
| "cpp_keyword_name KwTypename = ''KW_typename''"
| "cpp_keyword_name KwNoexcept = ''KW_noexcept''"
| "cpp_keyword_name KwDecltype = ''KW_decltype''"
| "cpp_keyword_name KwStaticCast = ''KW_static_cast''"
| "cpp_keyword_name KwReinterpretCast = ''KW_reinterpret_cast''"
| "cpp_keyword_name KwConstCast = ''KW_const_cast''"
| "cpp_keyword_name KwClass = ''KW_class''"
| "cpp_keyword_name KwFinal = ''KW_final''"
| "cpp_keyword_name KwOverride = ''KW_override''"
| "cpp_keyword_name KwPrivate = ''KW_private''"
| "cpp_keyword_name KwProtected = ''KW_protected''"
| "cpp_keyword_name KwPublic = ''KW_public''"
| "cpp_keyword_name KwFriend = ''KW_friend''"
| "cpp_keyword_name KwVirtual = ''KW_virtual''"
| "cpp_keyword_name KwMutable = ''KW_mutable''"
| "cpp_keyword_name KwNullptr = ''KW_nullptr''"
| "cpp_keyword_name KwTrue = ''KW_true''"
| "cpp_keyword_name KwFalse = ''KW_false''"
| "cpp_keyword_name KwOperator = ''KW_operator''"
| "cpp_keyword_name KwNew = ''KW_new''"
| "cpp_keyword_name KwDelete = ''KW_delete''"
| "cpp_keyword_name KwExplicit = ''KW_explicit''"
| "cpp_keyword_name KwRequires = ''KW_requires''"
| "cpp_keyword_name KwConcept = ''KW_concept''"

primrec punctuation_name :: "punctuation \<Rightarrow> string" where
  "punctuation_name LParen = ''LPAREN''"
| "punctuation_name RParen = ''RPAREN''"
| "punctuation_name LBrace = ''LBRACE''"
| "punctuation_name RBrace = ''RBRACE''"
| "punctuation_name LBracket = ''LBRACKET''"
| "punctuation_name RBracket = ''RBRACKET''"
| "punctuation_name Semi = ''SEMI''"
| "punctuation_name Comma = ''COMMA''"
| "punctuation_name Dot = ''DOT''"
| "punctuation_name Arrow = ''ARROW''"
| "punctuation_name Ellipsis = ''ELLIPSIS''"

primrec operator_kind_name :: "operator_kind \<Rightarrow> string" where
  "operator_kind_name Plus = ''PLUS''"
| "operator_kind_name Minus = ''MINUS''"
| "operator_kind_name Star = ''STAR''"
| "operator_kind_name Slash = ''SLASH''"
| "operator_kind_name Percent = ''PERCENT''"
| "operator_kind_name Amp = ''AMP''"
| "operator_kind_name Pipe = ''PIPE''"
| "operator_kind_name Caret = ''CARET''"
| "operator_kind_name Tilde = ''TILDE''"
| "operator_kind_name Bang = ''BANG''"
| "operator_kind_name Assign = ''ASSIGN''"
| "operator_kind_name Less = ''LESS''"
| "operator_kind_name Greater = ''GREATER''"
| "operator_kind_name Question = ''QUESTION''"
| "operator_kind_name Colon = ''COLON''"
| "operator_kind_name Hash = ''HASH''"

primrec compound_operator_name :: "compound_operator \<Rightarrow> string" where
  "compound_operator_name PlusPlus = ''PLUS_PLUS''"
| "compound_operator_name MinusMinus = ''MINUS_MINUS''"
| "compound_operator_name PlusAssign = ''PLUS_ASSIGN''"
| "compound_operator_name MinusAssign = ''MINUS_ASSIGN''"
| "compound_operator_name StarAssign = ''STAR_ASSIGN''"
| "compound_operator_name SlashAssign = ''SLASH_ASSIGN''"
| "compound_operator_name PercentAssign = ''PERCENT_ASSIGN''"
| "compound_operator_name AmpAssign = ''AMP_ASSIGN''"
| "compound_operator_name PipeAssign = ''PIPE_ASSIGN''"
| "compound_operator_name CaretAssign = ''CARET_ASSIGN''"
| "compound_operator_name LessLess = ''LSHIFT''"
| "compound_operator_name GreaterGreater = ''RSHIFT''"
| "compound_operator_name LessLessAssign = ''LSHIFT_ASSIGN''"
| "compound_operator_name GreaterGreaterAssign = ''RSHIFT_ASSIGN''"
| "compound_operator_name EqualEqual = ''EQUAL_EQUAL''"
| "compound_operator_name BangEqual = ''BANG_EQUAL''"
| "compound_operator_name LessEqual = ''LESS_EQUAL''"
| "compound_operator_name GreaterEqual = ''GREATER_EQUAL''"
| "compound_operator_name Spaceship = ''SPACESHIP''"
| "compound_operator_name AmpAmp = ''AMP_AMP''"
| "compound_operator_name PipePipe = ''PIPE_PIPE''"
| "compound_operator_name HashHash = ''HASH_HASH''"
| "compound_operator_name ColonColon = ''COLON_COLON''"

primrec token_kind_name :: "token_kind \<Rightarrow> string" where
  "token_kind_name IntLit = ''INT_LIT''"
| "token_kind_name FloatLit = ''FLOAT_LIT''"
| "token_kind_name StrLit = ''STR_LIT''"
| "token_kind_name CharLit = ''CHAR_LIT''"
| "token_kind_name Identifier = ''IDENT''"
| "token_kind_name (CKw k) = c_keyword_name k"
| "token_kind_name (C11Kw k) = c11_keyword_name k"
| "token_kind_name (GccKw k) = gcc_keyword_name k"
| "token_kind_name (CppKw k) = cpp_keyword_name k"
| "token_kind_name (Punct k) = punctuation_name k"
| "token_kind_name (Op k) = operator_kind_name k"
| "token_kind_name (COp k) = compound_operator_name k"
| "token_kind_name PragmaPack = ''PRAGMA_PACK''"
| "token_kind_name PragmaWeak = ''PRAGMA_WEAK''"
| "token_kind_name PragmaGccVisibility = ''PRAGMA_GCC_VISIBILITY''"
| "token_kind_name PragmaExec = ''PRAGMA_EXEC''"
| "token_kind_name EndOfFile = ''EOF''"
| "token_kind_name Invalid = ''INVALID''"

definition kBuiltinTypeTraitNames :: "string list" where
  "kBuiltinTypeTraitNames = [
     ''__builtin_types_compatible_p'', ''__is_interface_class'', ''__is_sealed'',
     ''__is_destructible'', ''__is_trivially_destructible'', ''__is_nothrow_destructible'',
     ''__is_nothrow_assignable'', ''__is_constructible'', ''__is_nothrow_constructible'',
     ''__is_assignable'', ''__has_nothrow_move_assign'', ''__has_trivial_move_assign'',
     ''__has_trivial_move_constructor'', ''__builtin_is_implicit_lifetime'',
     ''__builtin_is_virtual_base_of'', ''__has_nothrow_assign'', ''__has_nothrow_copy'',
     ''__has_nothrow_constructor'', ''__has_trivial_assign'', ''__has_trivial_copy'',
     ''__has_trivial_constructor'', ''__has_trivial_destructor'', ''__has_virtual_destructor'',
     ''__is_abstract'', ''__is_aggregate'', ''__is_base_of'', ''__is_class'',
     ''__is_convertible_to'', ''__is_empty'', ''__is_enum'', ''__is_final'', ''__is_literal'',
     ''__is_pod'', ''__is_polymorphic'', ''__is_standard_layout'', ''__is_trivial'',
     ''__is_trivially_assignable'', ''__is_trivially_constructible'',
     ''__is_trivially_copyable'', ''__is_union'', ''__has_unique_object_representations'',
     ''__is_layout_compatible'', ''__is_pointer_interconvertible_base_of'',
     ''__is_trivially_equality_comparable'', ''__is_bounded_array'', ''__is_unbounded_array'',
     ''__is_scoped_enum'', ''__can_pass_in_regs'', ''__reference_binds_to_temporary'',
     ''__reference_constructs_from_temporary'', ''__reference_converts_from_temporary'',
     ''__builtin_lt_synthesizes_from_spaceship'', ''__builtin_le_synthesizes_from_spaceship'',
     ''__builtin_gt_synthesizes_from_spaceship'', ''__builtin_ge_synthesizes_from_spaceship'',
     ''__builtin_is_cpp_trivially_relocatable'', ''__is_trivially_relocatable'',
     ''__is_bitwise_cloneable'', ''__builtin_structured_binding_size'', ''__is_lvalue_expr'',
     ''__is_rvalue_expr'', ''__is_arithmetic'', ''__is_floating_point'', ''__is_integral'',
     ''__is_complete_type'', ''__is_void'', ''__is_array'', ''__is_function'',
     ''__is_reference'', ''__is_lvalue_reference'', ''__is_rvalue_reference'',
     ''__is_fundamental'', ''__is_object'', ''__is_scalar'', ''__is_compound'',
     ''__is_pointer'', ''__is_member_object_pointer'', ''__is_member_function_pointer'',
     ''__is_member_pointer'', ''__is_const'', ''__is_volatile'', ''__is_signed'',
     ''__is_unsigned'', ''__is_same'', ''__is_convertible'', ''__is_nothrow_convertible'',
     ''__array_rank'', ''__array_extent'', ''__builtin_hlsl_is_scalarized_layout_compatible'',
     ''__builtin_hlsl_is_intangible'', ''__builtin_hlsl_is_typed_resource_element_compatible'',
     ''__add_lvalue_reference'', ''__add_pointer'', ''__add_rvalue_reference'', ''__decay'',
     ''__make_signed'', ''__make_unsigned'', ''__remove_all_extents'', ''__remove_const'',
     ''__remove_cv'', ''__remove_cvref'', ''__remove_extent'', ''__remove_pointer'',
     ''__remove_reference_t'', ''__remove_restrict'', ''__remove_volatile'',
     ''__underlying_type'']"

definition c_keyword_rows :: "(string \<times> token_kind) list" where
  "c_keyword_rows = [
     (''auto'', CKw KwAuto), (''break'', CKw KwBreak), (''case'', CKw KwCase),
     (''char'', CKw KwChar), (''const'', CKw KwConst), (''continue'', CKw KwContinue),
     (''default'', CKw KwDefault), (''do'', CKw KwDo), (''double'', CKw KwDouble),
     (''else'', CKw KwElse), (''enum'', CKw KwEnum), (''extern'', CKw KwExtern),
     (''float'', CKw KwFloat), (''for'', CKw KwFor), (''goto'', CKw KwGoto),
     (''if'', CKw KwIf), (''inline'', CKw KwInline), (''int'', CKw KwInt),
     (''long'', CKw KwLong), (''register'', CKw KwRegister), (''restrict'', CKw KwRestrict),
     (''return'', CKw KwReturn), (''short'', CKw KwShort), (''signed'', CKw KwSigned),
     (''sizeof'', CKw KwSizeof), (''static'', CKw KwStatic), (''struct'', CKw KwStruct),
     (''switch'', CKw KwSwitch), (''typedef'', CKw KwTypedef), (''union'', CKw KwUnion),
     (''unsigned'', CKw KwUnsigned), (''void'', CKw KwVoid), (''while'', CKw KwWhile),
     (''volatile'', CKw KwVolatile), (''__volatile__'', CKw KwVolatile),
     (''__volatile'', CKw KwVolatile), (''alignas'', C11Kw KwAlignas),
     (''__const'', CKw KwConst), (''__const__'', CKw KwConst), (''__inline'', CKw KwInline),
     (''__inline__'', CKw KwInline), (''__restrict'', CKw KwRestrict),
     (''__restrict__'', CKw KwRestrict), (''__signed__'', CKw KwSigned),
     (''_Alignas'', C11Kw KwAlignas), (''_Alignof'', C11Kw KwAlignof),
     (''_Atomic'', C11Kw KwAtomic), (''_Bool'', C11Kw KwBool), (''_Complex'', C11Kw KwComplex),
     (''__complex__'', C11Kw KwComplex), (''__complex'', C11Kw KwComplex),
     (''_Generic'', C11Kw KwGeneric), (''_Imaginary'', C11Kw KwImaginary),
     (''_Noreturn'', C11Kw KwNoreturn), (''__noreturn__'', C11Kw KwNoreturn),
     (''_Static_assert'', C11Kw KwStaticAssert), (''static_assert'', C11Kw KwStaticAssert),
     (''_Thread_local'', C11Kw KwThreadLocal), (''__thread'', C11Kw KwThreadLocal)]"

definition gnu_keyword_rows_1 :: "(string \<times> token_kind) list" where
  "gnu_keyword_rows_1 = [
     (''__typeof__'', GccKw KwTypeof), (''__typeof'', GccKw KwTypeof)]"

definition gnu_keyword_rows_2 :: "(string \<times> token_kind) list" where
  "gnu_keyword_rows_2 = [
     (''__typeof_unqual__'', GccKw KwTypeofUnqual), (''typeof_unqual'', GccKw KwTypeofUnqual),
     (''__asm__'', GccKw KwAsm), (''__asm'', GccKw KwAsm)]"

definition gnu_keyword_rows_3 :: "(string \<times> token_kind) list" where
  "gnu_keyword_rows_3 = [
     (''__attribute__'', GccKw KwAttribute), (''__attribute'', GccKw KwAttribute),
     (''__extension__'', GccKw KwExtension), (''__builtin_va_list'', GccKw KwBuiltin),
     (''__builtin_va_arg'', GccKw KwBuiltinVaArg), (''__int128'', GccKw KwInt128),
     (''__int128_t'', GccKw KwInt128), (''__uint128_t'', GccKw KwUInt128),
     (''__auto_type'', GccKw KwAutoType), (''__alignof__'', GccKw KwGnuAlignof),
     (''__alignof'', GccKw KwGnuAlignof), (''__real__'', GccKw KwGccReal),
     (''__real'', GccKw KwGccReal), (''__imag__'', GccKw KwGccImag),
     (''__imag'', GccKw KwGccImag)]"

definition cpp_keyword_rows :: "(string \<times> token_kind) list" where
  "cpp_keyword_rows = [
     (''bool'', C11Kw KwBool), (''and'', COp AmpAmp), (''bitand'', Op Amp),
     (''bitor'', Op Pipe), (''bitxor'', Op Caret), (''compl'', Op Tilde), (''not'', Op Bang),
     (''not_eq'', COp BangEqual), (''or'', COp PipePipe), (''template'', CppKw KwTemplate),
     (''constexpr'', CppKw KwConstexpr), (''consteval'', CppKw KwConsteval),
     (''namespace'', CppKw KwNamespace), (''using'', CppKw KwUsing),
     (''typename'', CppKw KwTypename), (''noexcept'', CppKw KwNoexcept),
     (''decltype'', CppKw KwDecltype), (''__decltype'', CppKw KwDecltype),
     (''static_cast'', CppKw KwStaticCast), (''reinterpret_cast'', CppKw KwReinterpretCast),
     (''const_cast'', CppKw KwConstCast), (''class'', CppKw KwClass),
     (''final'', CppKw KwFinal), (''override'', CppKw KwOverride),
     (''private'', CppKw KwPrivate), (''protected'', CppKw KwProtected),
     (''public'', CppKw KwPublic), (''friend'', CppKw KwFriend),
     (''virtual'', CppKw KwVirtual), (''mutable'', CppKw KwMutable),
     (''nullptr'', CppKw KwNullptr), (''true'', CppKw KwTrue), (''false'', CppKw KwFalse),
     (''alignof'', C11Kw KwAlignof), (''operator'', CppKw KwOperator), (''new'', CppKw KwNew),
     (''delete'', CppKw KwDelete), (''explicit'', CppKw KwExplicit),
     (''requires'', CppKw KwRequires), (''concept'', CppKw KwConcept)]"

text \<open>
  \<open>struct Token\<close>. The line and column counters are C++ \<open>int\<close>s; they count characters of a source
  that fits in memory and are kept as naturals.
\<close>

record token =
  kind :: token_kind
  tok_line :: nat
  tok_column :: nat
  text_id :: u32
  file_id :: u32

text \<open>
  The comparisons of \<open>keyword_from_string\<close> in source order, the two \<open>gnu_extensions\<close> rows and the
  C++ block included only when their guard holds.
\<close>

definition keyword_rows :: "bool \<Rightarrow> lex_profile \<Rightarrow> (string \<times> token_kind) list" where
  "keyword_rows gnu_extensions profile =
     c_keyword_rows @
     gnu_keyword_rows_1 @ (if gnu_extensions then [(''typeof'', GccKw KwTypeof)] else []) @
     gnu_keyword_rows_2 @ (if gnu_extensions then [(''asm'', GccKw KwAsm)] else []) @
     gnu_keyword_rows_3 @ (if profile \<noteq> LexC then cpp_keyword_rows else [])"

definition keyword_first_chars :: string where
  "keyword_first_chars = ''_abcdefgilmnorpstuvw''"

definition keyword_from_string :: "string \<Rightarrow> bool \<Rightarrow> lex_profile \<Rightarrow> token_kind" where
  "keyword_from_string s gnu_extensions profile =
     (if s = [] then Identifier
      else if hd s \<notin> set keyword_first_chars then Identifier
      else case map_of (keyword_rows gnu_extensions profile) s of
             Some k \<Rightarrow> k
           | None \<Rightarrow> Identifier)"

definition is_builtin_type_trait_name :: "string \<Rightarrow> bool" where
  "is_builtin_type_trait_name s = text_in_list s kBuiltinTypeTraitNames"

definition is_parser_supported_builtin_type_trait_name :: "string \<Rightarrow> bool" where
  "is_parser_supported_builtin_type_trait_name s =
     (if \<not> is_builtin_type_trait_name s then False
      else if s = ''__builtin_types_compatible_p'' then True
      else if s = ''__is_lvalue_expr'' \<or> s = ''__is_rvalue_expr'' then False
      else if text_starts_with s ''__is_'' \<or> text_starts_with s ''__has_'' then True
      else False)"

section \<open>The classifier against its table\<close>

text \<open>The first-character filter never rejects a row of the table.\<close>

lemma keyword_rows_first_char:
  "(s, k) \<in> set (keyword_rows gnu_extensions profile) \<Longrightarrow> s \<noteq> [] \<and> hd s \<in> set keyword_first_chars"
  by (auto simp: keyword_rows_def c_keyword_rows_def gnu_keyword_rows_1_def gnu_keyword_rows_2_def
      gnu_keyword_rows_3_def cpp_keyword_rows_def keyword_first_chars_def split: if_splits)

lemma keyword_from_string_is_entry:
  "keyword_from_string s gnu_extensions profile =
     (case map_of (keyword_rows gnu_extensions profile) s of Some k \<Rightarrow> k | None \<Rightarrow> Identifier)"
  using keyword_rows_first_char [OF map_of_SomeD]
  by (auto simp: keyword_from_string_def split: option.splits)

text \<open>
  The early exit on the first character is sound: the classifier is the lookup of the whole
  spelling in the keyword table, for every string, both extension settings and every profile.
\<close>

theorem keyword_from_string_is_table_lookup:
  "keyword_from_string s gnu_extensions profile =
     (case map_of (keyword_rows gnu_extensions profile) s of Some k \<Rightarrow> k | None \<Rightarrow> Identifier)"
  by (rule keyword_from_string_is_entry)

end
