(* ===== verification/Lexer_Cursor.thy ===== *)
theory Lexer_Cursor
  imports Token
begin

text \<open>
  The state of \<open>Lexer\<close> (\<open>frontend/lexer/lexer.hpp\<close>) and its cursor primitives: \<open>peek\<close>, \<open>advance\<close>,
  the consuming loops and \<open>make_token\<close>. Every loop gets a closed form over the unread text
  \<open>rest\<close>, so that the scanners built from them are described by what they consume.
  \<open>hash\<close> stands for \<open>std::hash\<close> of the text table.
\<close>

record lexer =
  source :: string
  lexer_profile :: lex_profile
  text_table :: string_id_table
  file_table :: path_id_table
  index :: nat
  line :: nat
  column :: nat
  current_file_id :: u32
  pending_pragma_pack :: "token option"
  pending_pragma_weak :: "token option"
  pending_pragma_gcc_visibility :: "token option"
  pending_pragma_exec :: "token option"

definition new_lexer :: "string \<Rightarrow> lex_profile \<Rightarrow> lexer" where
  "new_lexer src profile =
     (let (i, files) = intern_file_path kit_empty [] in
      \<lparr>source = src, lexer_profile = profile, text_table = sit_empty, file_table = files,
       index = 0, line = 1, column = 1, current_file_id = i,
       pending_pragma_pack = None, pending_pragma_weak = None,
       pending_pragma_gcc_visibility = None, pending_pragma_exec = None\<rparr>)"

section \<open>Reading\<close>

definition at_end :: "lexer \<Rightarrow> bool" where
  "at_end l = (length (source l) \<le> index l)"

definition char_at :: "string \<Rightarrow> nat \<Rightarrow> char" where
  "char_at s i = (if length s \<le> i then NUL else s ! i)"

definition peek :: "lexer \<Rightarrow> char" where
  "peek l = (if at_end l then NUL else source l ! index l)"

definition peek_next :: "lexer \<Rightarrow> char" where
  "peek_next l = char_at (source l) (index l + 1)"

definition peek2 :: "lexer \<Rightarrow> char" where
  "peek2 l = char_at (source l) (index l + 2)"

definition next_line :: "char \<Rightarrow> nat \<Rightarrow> nat" where
  "next_line c n = (if c = LF then n + 1 else n)"

definition next_column :: "char \<Rightarrow> nat \<Rightarrow> nat" where
  "next_column c n = (if c = LF then 1 else n + 1)"

definition advance :: "lexer \<Rightarrow> char \<times> lexer" where
  "advance l =
     (if at_end l then (NUL, l)
      else let c = source l ! index l in
        (c, l\<lparr>index := index l + 1, line := next_line c (line l), column := next_column c (column l)\<rparr>))"

text \<open>\<open>text.push_back(advance())\<close>\<close>

definition push :: "string \<times> lexer \<Rightarrow> string \<times> lexer" where
  "push st = (case advance (snd st) of (c, l) \<Rightarrow> (fst st @ [c], l))"

text \<open>The unread text, and the state after the characters \<open>s\<close> of it have been consumed.\<close>

definition rest :: "lexer \<Rightarrow> string" where
  "rest l = drop (index l) (source l)"

definition eat :: "string \<Rightarrow> lexer \<Rightarrow> lexer" where
  "eat s l = l\<lparr>index := index l + length s, line := fold next_line s (line l),
               column := fold next_column s (column l)\<rparr>"

lemma eat_Nil [simp]: "eat [] l = l"
  by (simp add: eat_def)

lemma eat_append: "eat (s @ t) l = eat t (eat s l)"
  by (simp add: eat_def)

lemma eat_fields [simp]:
  "source (eat s l) = source l" "lexer_profile (eat s l) = lexer_profile l"
  "text_table (eat s l) = text_table l" "file_table (eat s l) = file_table l"
  "current_file_id (eat s l) = current_file_id l" "index (eat s l) = index l + length s"
  "pending_pragma_pack (eat s l) = pending_pragma_pack l"
  "pending_pragma_weak (eat s l) = pending_pragma_weak l"
  "pending_pragma_gcc_visibility (eat s l) = pending_pragma_gcc_visibility l"
  "pending_pragma_exec (eat s l) = pending_pragma_exec l"
  by (simp_all add: eat_def)

lemma rest_eat [simp]: "rest (eat s l) = drop (length s) (rest l)"
  by (simp add: rest_def add.commute)

lemma at_end_rest: "at_end l \<longleftrightarrow> rest l = []"
  by (simp add: at_end_def rest_def)

lemma peek_rest: "peek l = (case rest l of [] \<Rightarrow> NUL | c # _ \<Rightarrow> c)"
  by (auto simp: peek_def at_end_rest rest_def drop_eq_Cons_nth not_le split: list.splits)

lemma nth_rest: "n < length (rest l) \<Longrightarrow> source l ! (index l + n) = rest l ! n"
  by (simp add: rest_def)

lemma peek_next_rest: "peek_next l = char_at (rest l) (Suc 0)"
  by (auto simp: peek_next_def char_at_def rest_def)

lemma peek2_rest: "peek2 l = char_at (rest l) 2"
  by (auto simp: peek2_def char_at_def rest_def)

lemma advance_rest:
  "advance l = (case rest l of [] \<Rightarrow> (NUL, l) | c # _ \<Rightarrow> (c, eat [c] l))"
proof (cases "at_end l")
  case False
  then have "rest l = source l ! index l # drop (Suc (index l)) (source l)"
    by (simp add: at_end_def rest_def drop_eq_Cons_nth)
  with False show ?thesis by (simp add: advance_def eat_def Let_def)
qed (simp add: advance_def at_end_rest)

lemma push_rest: "rest l = c # cs \<Longrightarrow> push (t, l) = (t @ [c], eat [c] l)"
  by (simp add: push_def advance_rest)

lemma push_end: "rest l = [] \<Longrightarrow> push (t, l) = (t @ [NUL], l)"
  by (simp add: push_def advance_rest)

section \<open>Consuming loops\<close>

lemma remaining_advance: "\<not> at_end l \<Longrightarrow> advance l = (c, l') \<Longrightarrow>
  length (source l') - index l' < length (source l) - index l"
  by (auto simp: advance_def at_end_def Let_def)

text \<open>\<open>while (!at_end() && keep(peek())) text.push_back(advance());\<close>\<close>

function push_while :: "(char \<Rightarrow> bool) \<Rightarrow> string \<times> lexer \<Rightarrow> string \<times> lexer" where
  "push_while keep st =
     (if \<not> at_end (snd st) \<and> keep (peek (snd st)) then push_while keep (push st) else st)"
  by auto
termination
  by (relation "measure (\<lambda>(_, _, l). length (source l) - index l)")
    (auto simp: push_def split: prod.splits dest: remaining_advance)

text \<open>\<open>while (!at_end() && keep(peek())) advance();\<close>\<close>

function advance_while :: "(char \<Rightarrow> bool) \<Rightarrow> lexer \<Rightarrow> lexer" where
  "advance_while keep l =
     (if \<not> at_end l \<and> keep (peek l) then advance_while keep (snd (advance l)) else l)"
  by auto
termination
  by (relation "measure (\<lambda>(_, l). length (source l) - index l)")
    (auto simp: advance_def at_end_def Let_def)

text \<open>\<open>for (size_t j = 0; j < n; ++j) advance();\<close>\<close>

primrec advance_n :: "nat \<Rightarrow> lexer \<Rightarrow> lexer" where
  "advance_n 0 l = l"
| "advance_n (Suc n) l = advance_n n (snd (advance l))"

declare push_while.simps [simp del] advance_while.simps [simp del]

lemma push_while_rest:
  "push_while keep (t, l) = (t @ takeWhile keep (rest l), eat (takeWhile keep (rest l)) l)"
proof (induction "rest l" arbitrary: t l)
  case Nil
  then show ?case by (subst push_while.simps) (simp add: at_end_rest)
next
  case (Cons c cs)
  then have r: "rest l = c # cs" by simp
  show ?case
  proof (cases "keep c")
    case True
    from r have "cs = rest (eat [c] l)" by simp
    from Cons(1) [OF this, of "t @ [c]"] True r show ?thesis
      by (subst push_while.simps) (simp add: at_end_rest peek_rest push_rest flip: eat_append)
  next
    case False
    with r show ?thesis by (subst push_while.simps) (simp add: at_end_rest peek_rest)
  qed
qed

lemma advance_while_rest: "advance_while keep l = eat (takeWhile keep (rest l)) l"
proof (induction "rest l" arbitrary: l)
  case Nil
  then show ?case by (subst advance_while.simps) (simp add: at_end_rest)
next
  case (Cons c cs)
  then have r: "rest l = c # cs" by simp
  show ?case
  proof (cases "keep c")
    case True
    from r have "cs = rest (eat [c] l)" by simp
    from Cons(1) [OF this] True r show ?thesis
      by (subst advance_while.simps) (simp add: at_end_rest peek_rest advance_rest flip: eat_append)
  next
    case False
    with r show ?thesis by (subst advance_while.simps) (simp add: at_end_rest peek_rest)
  qed
qed

lemma advance_n_rest: "n \<le> length (rest l) \<Longrightarrow> advance_n n l = eat (take n (rest l)) l"
proof (induction n arbitrary: l)
  case (Suc n)
  then obtain c cs where r: "rest l = c # cs" by (cases "rest l") auto
  with Suc show ?case by (simp add: advance_rest flip: eat_append)
qed simp

section \<open>Tokens\<close>

definition make_token ::
  "(string \<Rightarrow> u64) \<Rightarrow> token_kind \<Rightarrow> string \<Rightarrow> nat \<Rightarrow> nat \<Rightarrow> lexer \<Rightarrow> token \<times> lexer" where
  "make_token hash k lexeme ln col l =
     (let (i, texts) = intern_text hash (text_table l) lexeme in
      (\<lparr>kind = k, tok_line = ln, tok_column = col, text_id = i, file_id = current_file_id l\<rparr>,
       l\<lparr>text_table := texts\<rparr>))"

end
