(* ===== verification/Lexer.thy ===== *)
theory Lexer
  imports Lexer_Cursor
begin

text \<open>
  The scanners of \<open>frontend/lexer/lexer.cpp\<close>: identifiers, numbers, string and character literals,
  punctuators, the skipping of white space, comments, line markers and pragmas, and the driver
  \<open>scan_all\<close>. \<open>int\<close> line numbers read from line markers are kept as naturals.
\<close>

section \<open>String and character literals\<close>

text \<open>The loop shared by \<open>scan_string\<close> and \<open>scan_char\<close>; the flag says that the quote was found.\<close>

function quoted_loop :: "char \<Rightarrow> string \<times> lexer \<Rightarrow> bool \<times> string \<times> lexer" where
  "quoted_loop q st =
     (if at_end (snd st) then (False, st)
      else let c = peek (snd st); st1 = push st in
        if c = BSL \<and> \<not> at_end (snd st1) then quoted_loop q (push st1)
        else if c = q then (True, st1)
        else quoted_loop q st1)"
  by auto

lemma push_remaining_less:
  "\<not> at_end (snd st) \<Longrightarrow>
     length (source (snd (push st))) - index (snd (push st)) < length (source (snd st)) - index (snd st)"
  by (cases st) (auto simp: push_def split: prod.splits dest: remaining_advance)

lemma push_remaining_le:
  "length (source (snd (push st))) - index (snd (push st)) \<le> length (source (snd st)) - index (snd st)"
proof (cases "at_end (snd st)")
  case True
  then show ?thesis by (simp add: push_def advance_def)
qed (simp add: push_remaining_less less_imp_le)

termination quoted_loop
  by (relation "measure (\<lambda>(_, _, l). length (source l) - index l)")
    (auto simp: split_beta dest: push_remaining_less intro: le_less_trans [OF push_remaining_le])

declare quoted_loop.simps [simp del]

definition scan_string :: "(string \<Rightarrow> u64) \<Rightarrow> string \<Rightarrow> lexer \<Rightarrow> token \<times> lexer" where
  "scan_string hash prefix l =
     (let ln = line l; col = column l; (closed, text, l) = quoted_loop DQ (push (prefix, l)) in
      make_token hash (if closed then StrLit else Invalid) text ln col l)"

definition scan_char :: "(string \<Rightarrow> u64) \<Rightarrow> string \<Rightarrow> lexer \<Rightarrow> token \<times> lexer" where
  "scan_char hash prefix l =
     (let ln = line l; col = column l; (closed, text, l) = quoted_loop SQ (push (prefix, l)) in
      make_token hash (if closed then CharLit else Invalid) text ln col l)"

section \<open>Identifiers and keywords\<close>

definition is_ident_char :: "char \<Rightarrow> bool" where
  "is_ident_char c = (isalnum c \<or> c = CHR ''_'' \<or> c = CHR ''$'')"

definition starts_identifier :: "char \<Rightarrow> bool" where
  "starts_identifier c = (isalpha c \<or> c = CHR ''_'' \<or> c = CHR ''$'')"

definition scan_identifier_or_keyword :: "(string \<Rightarrow> u64) \<Rightarrow> lexer \<Rightarrow> token \<times> lexer" where
  "scan_identifier_or_keyword hash l =
     (let ln = line l; col = column l;
          (text, l) = push_while is_ident_char ([], l);
          k = keyword_from_string text True (lexer_profile l) in
      if k = Identifier \<and> (text = ''L'' \<or> text = ''u'' \<or> text = ''U'' \<or> text = ''u8'') \<and>
         \<not> at_end l \<and> (peek l = DQ \<or> peek l = SQ)
      then if peek l = DQ then scan_string hash text l else scan_char hash text l
      else make_token hash k text ln col l)"

section \<open>Numbers\<close>

definition has_suffix :: "string \<Rightarrow> lexer \<Rightarrow> bool" where
  "has_suffix suffix l =
     (index l + length suffix \<le> length (source l) \<and>
      take (length suffix) (drop (index l) (source l)) = suffix)"

definition consume_suffix :: "string \<Rightarrow> string \<times> lexer \<Rightarrow> string \<times> lexer" where
  "consume_suffix suffix st = (push ^^ length suffix) st"

record float_flags =
  seen_sz :: bool
  seen_ext :: bool
  seen_bf16 :: bool
  seen_imag :: bool

definition ext_suffixes :: "string list" where
  "ext_suffixes = [''f128'', ''F128'', ''f16'', ''F16'', ''f32'', ''F32'', ''f64'', ''F64'']"

text \<open>
  One pass of the loop of \<open>scan_float_suffix\<close>; the flag says that the loop goes on. The character
  \<open>s\<close> is read before the extended suffix is consumed, as in the code. The out-parameter
  \<open>is_float\<close> is only ever set to true, and the caller passes true.
\<close>

definition float_suffix_pass ::
  "float_flags \<Rightarrow> string \<times> lexer \<Rightarrow> bool \<times> float_flags \<times> string \<times> lexer" where
  "float_suffix_pass fl st =
     (let s = peek (snd st);
          (fl, st) =
            (if seen_ext fl then (fl, st)
             else case List.find (\<lambda>suffix. has_suffix suffix (snd st)) ext_suffixes of
                    Some suffix \<Rightarrow> (fl\<lparr>seen_ext := True\<rparr>, consume_suffix suffix st)
                  | None \<Rightarrow> (fl, st)) in
      if \<not> seen_bf16 fl \<and> has_suffix ''bf16'' (snd st)
      then (True, fl\<lparr>seen_bf16 := True\<rparr>, push (push (push (push st))))
      else if \<not> seen_bf16 fl \<and> has_suffix ''BF16'' (snd st)
      then (True, fl\<lparr>seen_bf16 := True\<rparr>, push (push (push (push st))))
      else if s \<in> set ''fFlL'' \<and> \<not> seen_sz fl then (True, fl\<lparr>seen_sz := True\<rparr>, push st)
      else if s \<in> set ''iIjJ'' \<and> \<not> seen_imag fl then (True, fl\<lparr>seen_imag := True\<rparr>, push st)
      else (False, fl, st))"

primrec float_suffix_loop :: "nat \<Rightarrow> float_flags \<Rightarrow> string \<times> lexer \<Rightarrow> string \<times> lexer" where
  "float_suffix_loop 0 fl st = st"
| "float_suffix_loop (Suc passes) fl st =
     (if at_end (snd st) then st
      else let (continue, fl', st') = float_suffix_pass fl st in
        if continue then float_suffix_loop passes fl' st' else st')"

definition scan_float_suffix :: "string \<times> lexer \<Rightarrow> string \<times> lexer" where
  "scan_float_suffix st =
     float_suffix_loop 4 \<lparr>seen_sz = False, seen_ext = False, seen_bf16 = False, seen_imag = False\<rparr> st"

text \<open>\<open>if (!at_end() && ok(peek())) text.push_back(advance());\<close>\<close>

definition push_if :: "(char \<Rightarrow> bool) \<Rightarrow> string \<times> lexer \<Rightarrow> string \<times> lexer" where
  "push_if ok st = (if \<not> at_end (snd st) \<and> ok (peek (snd st)) then push st else st)"

primrec int_suffix_loop :: "nat \<Rightarrow> bool \<Rightarrow> bool \<Rightarrow> bool \<Rightarrow> string \<times> lexer \<Rightarrow> string \<times> lexer" where
  "int_suffix_loop 0 seen_u seen_l seen_i st = st"
| "int_suffix_loop (Suc passes) seen_u seen_l seen_i st =
     (if at_end (snd st) then st
      else let s = peek (snd st) in
        if s \<in> set ''uU'' \<and> \<not> seen_u then int_suffix_loop passes True seen_l seen_i (push st)
        else if s \<in> set ''lL'' \<and> \<not> seen_l
        then int_suffix_loop passes seen_u True seen_i (push_if (\<lambda>c. c \<in> set ''lL'') (push st))
        else if s \<in> set ''iIjJ'' \<and> \<not> seen_i then int_suffix_loop passes seen_u seen_l True (push st)
        else st)"

definition scan_int_suffix :: "string \<times> lexer \<Rightarrow> string \<times> lexer" where
  "scan_int_suffix st = int_suffix_loop 4 False False False st"

text \<open>The optional fraction and exponent, each occurring several times in \<open>scan_number\<close>.\<close>

definition scan_fraction :: "(char \<Rightarrow> bool) \<Rightarrow> (string \<times> lexer) \<times> bool \<Rightarrow> (string \<times> lexer) \<times> bool" where
  "scan_fraction digit sf =
     (let (st, is_float) = sf in
      if \<not> at_end (snd st) \<and> peek (snd st) = CHR ''.'' then (push_while digit (push st), True)
      else (st, is_float))"

definition scan_exponent :: "string \<Rightarrow> (string \<times> lexer) \<times> bool \<Rightarrow> (string \<times> lexer) \<times> bool" where
  "scan_exponent marks sf =
     (let (st, is_float) = sf in
      if \<not> at_end (snd st) \<and> peek (snd st) \<in> set marks
      then (push_while isdigit (push_if (\<lambda>c. c \<in> set ''+-'') (push st)), True)
      else (st, is_float))"

text \<open>The digits, fraction and exponent of a literal that starts with a digit.\<close>

definition scan_number_body :: "lexer \<Rightarrow> (string \<times> lexer) \<times> bool" where
  "scan_number_body l =
     (if peek l = CHR ''0'' then
        let st = push ([], l); next = peek (snd st) in
        if next = CHR ''x'' \<or> next = CHR ''X''
        then scan_exponent ''pP'' (scan_fraction isxdigit (push_while isxdigit (push st), False))
        else if next = CHR ''b'' \<or> next = CHR ''B''
        then (push_while (\<lambda>c. c = CHR ''0'' \<or> c = CHR ''1'') (push st), False)
        else scan_exponent ''eE'' (scan_fraction isdigit (push_while isdigit st, False))
      else scan_exponent ''eE'' (scan_fraction isdigit (push_while isdigit ([], l), False)))"

definition scan_number :: "(string \<Rightarrow> u64) \<Rightarrow> lexer \<Rightarrow> token \<times> lexer" where
  "scan_number hash l =
     (let ln = line l; col = column l in
      if peek l = CHR ''.'' then
        let (st, is_float) = scan_exponent ''eE'' (push_while isdigit (push ([], l)), True);
            (text, l) = scan_float_suffix st in
        make_token hash FloatLit text ln col l
      else
        let (st, is_float) = scan_number_body l in
        if is_float then let (text, l) = scan_float_suffix st in make_token hash FloatLit text ln col l
        else let (text, l) = scan_int_suffix st in make_token hash IntLit text ln col l)"

section \<open>Punctuators\<close>

text \<open>
  The \<open>switch\<close> of \<open>scan_punct\<close> on the character just consumed: the kind of the token and the text
  and cursor after the further characters the case consumes.
\<close>

definition punct_switch ::
  "lex_profile \<Rightarrow> char \<Rightarrow> string \<times> lexer \<Rightarrow> token_kind \<times> string \<times> lexer" where
  "punct_switch profile c st =
     (let d = peek (snd st); st1 = push st in
      if c = CHR ''('' then (Punct LParen, st)
      else if c = CHR '')'' then (Punct RParen, st)
      else if c = CHR ''{'' then (Punct LBrace, st)
      else if c = CHR ''}'' then (Punct RBrace, st)
      else if c = CHR ''['' then (Punct LBracket, st)
      else if c = CHR '']'' then (Punct RBracket, st)
      else if c = CHR '';'' then (Punct Semi, st)
      else if c = CHR '','' then (Punct Comma, st)
      else if c = CHR ''~'' then (Op Tilde, st)
      else if c = CHR ''?'' then (Op Question, st)
      else if c = CHR '':'' then
        (if profile = LexCppSubset \<and> d = CHR '':'' then (COp ColonColon, st1) else (Op Colon, st))
      else if c = CHR ''.'' then
        (if d = CHR ''.'' \<and> peek_next (snd st) = CHR ''.'' then (Punct Ellipsis, push st1)
         else (Punct Dot, st))
      else if c = CHR ''+'' then
        (if d = CHR ''+'' then (COp PlusPlus, st1)
         else if d = CHR ''='' then (COp PlusAssign, st1)
         else (Op Plus, st))
      else if c = CHR ''-'' then
        (if d = CHR ''-'' then (COp MinusMinus, st1)
         else if d = CHR ''='' then (COp MinusAssign, st1)
         else if d = CHR ''>'' then (Punct Arrow, st1)
         else (Op Minus, st))
      else if c = CHR ''*'' then (if d = CHR ''='' then (COp StarAssign, st1) else (Op Star, st))
      else if c = CHR ''/'' then (if d = CHR ''='' then (COp SlashAssign, st1) else (Op Slash, st))
      else if c = CHR ''%'' then (if d = CHR ''='' then (COp PercentAssign, st1) else (Op Percent, st))
      else if c = CHR ''&'' then
        (if d = CHR ''&'' then (COp AmpAmp, st1)
         else if d = CHR ''='' then (COp AmpAssign, st1)
         else (Op Amp, st))
      else if c = CHR ''|'' then
        (if d = CHR ''|'' then (COp PipePipe, st1)
         else if d = CHR ''='' then (COp PipeAssign, st1)
         else (Op Pipe, st))
      else if c = CHR ''^'' then (if d = CHR ''='' then (COp CaretAssign, st1) else (Op Caret, st))
      else if c = CHR ''!'' then (if d = CHR ''='' then (COp BangEqual, st1) else (Op Bang, st))
      else if c = CHR ''='' then (if d = CHR ''='' then (COp EqualEqual, st1) else (Op Assign, st))
      else if c = CHR ''<'' then
        (if d = CHR ''<'' then
           (if peek (snd st1) = CHR ''='' then (COp LessLessAssign, push st1) else (COp LessLess, st1))
         else if d = CHR ''='' then
           (if peek (snd st1) = CHR ''>'' then (COp Spaceship, push st1) else (COp LessEqual, st1))
         else (Op Less, st))
      else if c = CHR ''>'' then
        (if d = CHR ''>'' then
           (if peek (snd st1) = CHR ''='' then (COp GreaterGreaterAssign, push st1)
            else (COp GreaterGreater, st1))
         else if d = CHR ''='' then (COp GreaterEqual, st1)
         else (Op Greater, st))
      else if c = CHR ''#'' then (if d = CHR ''#'' then (COp HashHash, st1) else (Op Hash, st))
      else (Invalid, st))"

definition scan_punct :: "(string \<Rightarrow> u64) \<Rightarrow> lexer \<Rightarrow> token \<times> lexer" where
  "scan_punct hash l =
     (let ln = line l; col = column l;
          (c, l1) = advance l;
          (k, text, l2) = punct_switch (lexer_profile l) c ([c], l1) in
      make_token hash k text ln col l2)"

section \<open>White space, comments, line markers and pragmas\<close>

definition is_space_char :: "char \<Rightarrow> bool" where
  "is_space_char c = (c = SP \<or> c = HT \<or> c = CR \<or> c = LF \<or> c = FF \<or> c = VT)"

definition is_blank :: "char \<Rightarrow> bool" where
  "is_blank c = (c = SP \<or> c = HT)"

definition not_LF :: "char \<Rightarrow> bool" where
  "not_LF c = (c \<noteq> LF)"

text \<open>The inner loop of a block comment, after the opening characters.\<close>

function skip_block :: "lexer \<Rightarrow> lexer" where
  "skip_block l =
     (if at_end l then l
      else if peek l = CHR ''*'' \<and> peek_next l = CHR ''/'' then snd (advance (snd (advance l)))
      else skip_block (snd (advance l)))"
  by auto
termination
  by (relation "measure (\<lambda>l. length (source l) - index l)") (auto simp: advance_def at_end_def Let_def)

declare skip_block.simps [simp del]

text \<open>\<open>source_.compare(index_, n, text) == 0\<close>, with its bounds test.\<close>

abbreviation looking_at :: "string \<Rightarrow> lexer \<Rightarrow> bool" where
  "looking_at \<equiv> has_suffix"

text \<open>The parenthesised argument of \<open>pack\<close> and \<open>push\<close>, without blanks.\<close>

definition scan_paren_args :: "lexer \<Rightarrow> string \<times> lexer" where
  "scan_paren_args l =
     (if \<not> at_end l \<and> peek l = CHR ''('' then
        let (text, l) = push_while (\<lambda>c. c \<noteq> CHR '')'' \<and> c \<noteq> LF) ([], snd (advance l));
            l = (if \<not> at_end l \<and> peek l = CHR '')'' then snd (advance l) else l) in
        (filter (\<lambda>c. \<not> is_blank c) text, l)
      else ([], l))"

text \<open>How a pass of the skipping loop ends: with \<open>continue\<close>, or with \<open>return\<close> or \<open>break\<close>.\<close>

datatype skip_outcome = SkipContinue lexer | SkipStop lexer

definition pragma_pack :: "(string \<Rightarrow> u64) \<Rightarrow> lexer \<Rightarrow> skip_outcome" where
  "pragma_pack hash l =
     (let ln = line l; col = column l;
          l = advance_n (length ''#pragma pack'') l;
          l = advance_while is_blank l;
          (args, l) = scan_paren_args l;
          l = advance_while not_LF l;
          (t, l) = make_token hash PragmaPack args ln col l in
      SkipStop (l\<lparr>pending_pragma_pack := Some t\<rparr>))"

definition pragma_weak :: "(string \<Rightarrow> u64) \<Rightarrow> lexer \<Rightarrow> skip_outcome" where
  "pragma_weak hash l =
     (let ln = line l; col = column l;
          l = advance_n (length ''#pragma weak'') l;
          l = advance_while is_blank l;
          (sym, l) = push_while (\<lambda>c. c \<noteq> LF \<and> c \<noteq> SP \<and> c \<noteq> HT) ([], l);
          l = advance_while not_LF l in
      if sym \<noteq> [] then
        let (t, l) = make_token hash PragmaWeak sym ln col l in
        SkipStop (l\<lparr>pending_pragma_weak := Some t\<rparr>)
      else SkipContinue l)"

definition pragma_gcc_visibility :: "(string \<Rightarrow> u64) \<Rightarrow> lexer \<Rightarrow> skip_outcome" where
  "pragma_gcc_visibility hash l =
     (let ln = line l; col = column l;
          l = advance_n (length ''#pragma GCC visibility'') l;
          l = advance_while is_blank l;
          (directive, l) =
            push_while (\<lambda>c. c \<noteq> LF \<and> c \<noteq> CHR ''('' \<and> c \<noteq> SP \<and> c \<noteq> HT) ([], l);
          (lexeme, l) =
            (if directive = ''push'' then
               let l = advance_while is_blank l; (vis, l) = scan_paren_args l in (''push,'' @ vis, l)
             else if directive = ''pop'' then (''pop'', l)
             else ([], l));
          l = advance_while not_LF l in
      if lexeme \<noteq> [] then
        let (t, l) = make_token hash PragmaGccVisibility lexeme ln col l in
        SkipStop (l\<lparr>pending_pragma_gcc_visibility := Some t\<rparr>)
      else SkipContinue l)"

definition pragma_exec :: "(string \<Rightarrow> u64) \<Rightarrow> lexer \<Rightarrow> skip_outcome" where
  "pragma_exec hash l =
     (let ln = line l; col = column l;
          l = advance_n (length ''#pragma c4 exec'') l;
          l = advance_while is_blank l;
          (domain, l) = push_while (\<lambda>c. c \<noteq> LF \<and> c \<noteq> SP \<and> c \<noteq> HT) ([], l);
          l = advance_while not_LF l in
      if domain = ''host'' \<or> domain = ''device'' then
        let (t, l) = make_token hash PragmaExec domain ln col l in
        SkipStop (l\<lparr>pending_pragma_exec := Some t\<rparr>)
      else SkipContinue l)"

text \<open>
  \<open>consume_line_marker\<close> reads ahead in the source with an index of its own and moves the cursor
  only when the whole marker is there. The readers below work on the text from that index on.
\<close>

definition read_number :: "string \<Rightarrow> nat" where
  "read_number ds = fold (\<lambda>d n. n * 10 + digit_value d) ds 0"

text \<open>The file name up to the closing quote (a backslash takes the next character with it), or
  nothing if the source ends first.\<close>

fun marker_file :: "string \<Rightarrow> string option" where
  "marker_file [] = None"
| "marker_file (c # cs) =
     (if c = DQ then Some []
      else if c = BSL then
        (case cs of
           [] \<Rightarrow> None
         | d # ds \<Rightarrow> map_option (Cons d) (marker_file ds))
      else map_option (Cons c) (marker_file cs))"

definition parse_line_marker :: "string \<Rightarrow> (nat \<times> string) option" where
  "parse_line_marker after_hash =
     (let p = dropWhile is_blank after_hash;
          ds = takeWhile isdigit p;
          p = dropWhile is_blank (dropWhile isdigit p) in
      if ds = [] then None
      else case p of
             [] \<Rightarrow> None
           | c # cs \<Rightarrow>
               if c \<noteq> DQ then None
               else map_option (\<lambda>file. (read_number ds, file)) (marker_file cs))"

definition consume_line_marker :: "lexer \<Rightarrow> bool \<times> lexer" where
  "consume_line_marker l =
     (if peek l \<noteq> CHR ''#'' \<or> column l \<noteq> 1 then (False, l)
      else case parse_line_marker (drop (index l + 1) (source l)) of
             None \<Rightarrow> (False, l)
           | Some (new_line, new_file) \<Rightarrow>
               let l = advance_while not_LF l;
                   l = (if \<not> at_end l \<and> peek l = LF then snd (advance l) else l);
                   (i, files) = intern_file_path (file_table l) new_file in
               (True, l\<lparr>file_table := files, current_file_id := i, line := new_line, column := 1\<rparr>))"

text \<open>One pass of the loop of \<open>skip_whitespace_and_comments\<close>, the cursor not at the end.\<close>

definition skip_pass :: "(string \<Rightarrow> u64) \<Rightarrow> lexer \<Rightarrow> skip_outcome" where
  "skip_pass hash l =
     (let c = peek l in
      if is_space_char c then SkipContinue (snd (advance l))
      else if c = CHR ''/'' \<and> peek_next l = CHR ''/'' then SkipContinue (advance_while not_LF l)
      else if c = CHR ''/'' \<and> peek_next l = CHR ''*''
      then SkipContinue (skip_block (snd (advance (snd (advance l)))))
      else if c = CHR ''#'' then
        if column l = 1 then
          if looking_at ''#pragma pack'' l then pragma_pack hash l
          else if looking_at ''#pragma weak'' l then pragma_weak hash l
          else if looking_at ''#pragma GCC visibility'' l then pragma_gcc_visibility hash l
          else if looking_at ''#pragma c4 exec'' l then pragma_exec hash l
          else case consume_line_marker l of
                 (True, l') \<Rightarrow> SkipContinue l'
               | (False, _) \<Rightarrow> SkipContinue (advance_while not_LF l)
        else SkipStop l
      else SkipStop l)"

section \<open>The driver\<close>

text \<open>
  What the scanners consume: \<open>taken n l st\<close> says that the text and cursor \<open>st\<close> were reached from
  \<open>l\<close> by consuming exactly the characters of the text, at least \<open>n\<close> of them.
\<close>

definition taken :: "nat \<Rightarrow> lexer \<Rightarrow> string \<times> lexer \<Rightarrow> bool" where
  "taken n l st = (\<exists>s. n \<le> length s \<and> take (length s) (rest l) = s \<and> st = (s, eat s l))"

lemma taken_start [consume_intros]: "taken 0 l ([], l)"
  by (simp add: taken_def)

lemma taken_weaken: "taken n l st \<Longrightarrow> m \<le> n \<Longrightarrow> taken m l st"
  by (auto simp: taken_def)

lemma taken_eat:
  assumes "taken n l st" "take (length s) (rest (snd st)) = s" "m \<le> n + length s"
  shows "taken m l (fst st @ s, eat s (snd st))"
proof -
  from assms(1) obtain p where p: "n \<le> length p" "take (length p) (rest l) = p" "st = (p, eat p l)"
    by (auto simp: taken_def)
  from p assms(2) have "take (length (p @ s)) (rest l) = p @ s"
    by (simp add: take_add)
  with p assms(3) show ?thesis unfolding taken_def by (intro exI [of _ "p @ s"]) (simp add: eat_append)
qed

lemma taken_push [consume_intros]:
  assumes "taken n l st" "\<not> at_end (snd st)"
  shows "taken (Suc n) l (push st)"
proof -
  from assms(2) obtain c cs where "rest (snd st) = c # cs" by (cases "rest (snd st)") (auto simp: at_end_rest)
  with taken_eat [OF assms(1), of "[c]" "Suc n"] show ?thesis by (cases st) (simp add: push_rest)
qed

lemma taken_push_weak: "taken n l st \<Longrightarrow> \<not> at_end (snd st) \<Longrightarrow> taken n l (push st)"
  using taken_weaken [OF taken_push [of n l st], of n] by simp

lemma take_length_takeWhile [simp]: "take (length (takeWhile P xs)) xs = takeWhile P xs"
  by (simp flip: takeWhile_eq_take_length)

lemma taken_push_while [consume_intros]: "taken n l st \<Longrightarrow> taken n l (push_while keep st)"
  using taken_eat [of n l st "takeWhile keep (rest (snd st))" n]
  by (cases st) (simp add: push_while_rest)

lemma taken_push_while_Suc:
  assumes "\<not> at_end l" "keep (peek l)"
  shows "taken (Suc 0) l (push_while keep ([], l))"
proof -
  from assms have "takeWhile keep (rest l) \<noteq> []"
    by (cases "rest l") (auto simp: at_end_rest peek_rest)
  then show ?thesis by (auto simp: taken_def push_while_rest Suc_le_eq)
qed

lemma taken_push_if [consume_intros]: "taken n l st \<Longrightarrow> taken n l (push_if ok st)"
  by (auto simp: push_if_def intro: taken_push_weak)

lemma taken_quoted_loop:
  "taken n l st \<Longrightarrow> taken n l (snd (quoted_loop q st))"
proof (induction q st rule: quoted_loop.induct)
  case (1 q st)
  then show ?case
    by (subst quoted_loop.simps) (auto simp: Let_def taken_push_weak)
qed

lemma taken_not_end: "taken n l st \<Longrightarrow> source (snd st) = source l \<and> index l + n \<le> index (snd st)"
  by (auto simp: taken_def)

lemma taken_fraction [consume_intros]:
  "taken n l (fst sf) \<Longrightarrow> taken n l (fst (scan_fraction digit sf))"
  by (auto simp: scan_fraction_def split: prod.splits intro!: taken_push_while taken_push_weak)

lemma taken_exponent [consume_intros]:
  "taken n l (fst sf) \<Longrightarrow> taken n l (fst (scan_exponent marks sf))"
  by (auto simp: scan_exponent_def split: prod.splits intro!: taken_push_while taken_push_if taken_push_weak)

lemma taken_number_body:
  assumes "\<not> at_end l" "isdigit (peek l)"
  shows "taken (Suc 0) l (fst (scan_number_body l))"
proof -
  have one: "taken (Suc 0) l (push ([], l))"
    using assms by (intro taken_push taken_start) simp
  have "\<not> at_end (snd (push ([], l)))" if "peek (snd (push ([], l))) \<noteq> NUL"
    using that by (auto simp: peek_def)
  with one have "taken (Suc 0) l (push (push ([], l)))" if "peek (snd (push ([], l))) \<noteq> NUL"
    using that by (simp add: taken_push_weak)
  with one taken_push_while_Suc [of l isdigit] assms show ?thesis
    by (simp add: scan_number_body_def Let_def taken_exponent taken_fraction taken_push_while)
qed

lemma taken_int_suffix_loop:
  "taken n l st \<Longrightarrow> taken n l (int_suffix_loop passes u l' i st)"
proof (induction passes arbitrary: u l' i st)
  case (Suc passes)
  then have "\<not> at_end (snd st) \<Longrightarrow> taken n l (push st)"
    and "\<not> at_end (snd st) \<Longrightarrow> taken n l (push_if ok (push st))" for ok
    by (simp_all add: taken_push_weak taken_push_if)
  with Suc show ?case by (simp add: Let_def)
qed simp

lemma taken_int_suffix: "taken n l st \<Longrightarrow> taken n l (scan_int_suffix st)"
  by (simp add: scan_int_suffix_def taken_int_suffix_loop)

lemma push_pow_rest:
  "n \<le> length (rest l) \<Longrightarrow>
     (push ^^ n) (t, l) = (t @ take n (rest l), eat (take n (rest l)) l)"
proof (induction n arbitrary: t l)
  case (Suc n)
  then obtain c cs where r: "rest l = c # cs" by (cases "rest l") auto
  with Suc show ?case by (simp add: funpow_swap1 [symmetric] push_rest flip: eat_append del: funpow.simps)
      (simp add: funpow_Suc_right push_rest del: funpow.simps flip: eat_append)
qed simp

lemma has_suffix_rest: "s \<noteq> [] \<Longrightarrow> has_suffix s l \<longleftrightarrow> (\<exists>r. rest l = s @ r)"
proof -
  assume "s \<noteq> []"
  then have "has_suffix s l \<longleftrightarrow> length s \<le> length (rest l) \<and> take (length s) (rest l) = s"
    by (cases s) (auto simp: has_suffix_def rest_def)
  then show ?thesis by auto (metis append_take_drop_id)
qed

lemma taken_consume_suffix:
  "taken n l st \<Longrightarrow> has_suffix s (snd st) \<Longrightarrow> taken n l (consume_suffix s st)"
  using taken_eat [of n l st s n]
  by (cases st; cases "s = []") (auto simp: consume_suffix_def has_suffix_rest push_pow_rest)

lemma push4: "push (push (push (push st))) = (push ^^ 4) st"
  by (simp add: eval_nat_numeral)

text \<open>
  The same with the one exception the float suffixes make: a NUL may have been appended to the text
  by an \<open>advance\<close> at the end of the source.
\<close>

definition took :: "nat \<Rightarrow> lexer \<Rightarrow> string \<times> lexer \<Rightarrow> bool" where
  "took n l st = (taken n l st \<or> (\<exists>t l'. st = (t @ [NUL], l') \<and> taken n l (t, l') \<and> at_end l' \<and> isdigit (last t)))"

lemma took_push:
  assumes "taken n l st" "at_end (snd st) \<Longrightarrow> isdigit (last (fst st))"
  shows "took n l (push st)"
proof (cases "at_end (snd st)")
  case True
  with assms show ?thesis by (cases st) (auto simp: took_def push_end at_end_rest)
qed (simp add: took_def taken_push_weak assms)

lemma consume_suffix_last:
  "has_suffix s (snd st) \<Longrightarrow> s \<noteq> [] \<Longrightarrow> last (fst (consume_suffix s st)) = last s"
  by (cases st) (auto simp: consume_suffix_def has_suffix_rest push_pow_rest)

lemma ext_suffixes_digit: "s \<in> set ext_suffixes \<Longrightarrow> s \<noteq> [] \<and> isdigit (last s)"
  by (auto simp: ext_suffixes_def isdigit_def code_def)

lemma float_suffix_pass_took:
  assumes "taken n l st" "\<not> at_end (snd st)" "float_suffix_pass fl st = (go, fl', st')"
  shows "took n l st'"
proof -
  define ext where "ext = (if seen_ext fl then (fl, st)
       else case List.find (\<lambda>suffix. has_suffix suffix (snd st)) ext_suffixes of
              Some suffix \<Rightarrow> (fl\<lparr>seen_ext := True\<rparr>, consume_suffix suffix st)
            | None \<Rightarrow> (fl, st))"
  have ext: "taken n l (snd ext)"
    using assms(1) by (auto simp: ext_def find_Some_iff taken_consume_suffix split: option.splits)
  have "taken n l (push (push (push (push (snd ext)))))"
    if "has_suffix ''bf16'' (snd (snd ext)) \<or> has_suffix ''BF16'' (snd (snd ext))"
    using that taken_consume_suffix [OF ext, of "''bf16''"] taken_consume_suffix [OF ext, of "''BF16''"]
    by (auto simp: push4 consume_suffix_def)
  moreover have "isdigit (last (fst (snd ext)))" if "at_end (snd (snd ext))"
  proof -
    from that assms(2) obtain sfx where f: "List.find (\<lambda>suffix. has_suffix suffix (snd st)) ext_suffixes = Some sfx"
      and e: "snd ext = consume_suffix sfx st"
      by (auto simp: ext_def split: if_splits option.splits)
    from f have "sfx \<in> set ext_suffixes" "has_suffix sfx (snd st)" by (auto simp: find_Some_iff)
    with ext_suffixes_digit e show ?thesis by (simp add: consume_suffix_last)
  qed
  then have "took n l (push (snd ext))" using ext by (simp add: took_push)
  ultimately show ?thesis
    using assms(3) ext unfolding float_suffix_pass_def Let_def ext_def [symmetric]
    by (auto simp: took_def split: if_splits prod.splits)
qed

lemma float_suffix_loop_took: "took n l st \<Longrightarrow> took n l (float_suffix_loop passes fl st)"
proof (induction passes arbitrary: fl st)
  case (Suc passes)
  show ?case
  proof (cases "at_end (snd st)")
    case False
    with Suc.prems have "taken n l st" by (auto simp: took_def)
    obtain go fl' st' where p: "float_suffix_pass fl st = (go, fl', st')" by (metis prod_cases3)
    with float_suffix_pass_took [OF \<open>taken n l st\<close> False p] Suc.IH False show ?thesis by simp
  qed (use Suc.prems in simp)
qed simp

lemma took_float_suffix: "taken n l st \<Longrightarrow> took n l (scan_float_suffix st)"
  unfolding scan_float_suffix_def by (rule float_suffix_loop_took) (simp add: took_def)

lemma peek_not_NUL: "peek l \<noteq> NUL \<Longrightarrow> \<not> at_end l"
  by (auto simp: peek_def)

lemma taken_punct_switch:
  assumes "taken n l st" "punct_switch profile c st = (k, st')"
  shows "taken n l st'"
proof -
  have p1: "taken n l (push st)" if "peek (snd st) \<noteq> NUL"
    using that assms(1) by (simp add: taken_push_weak peek_not_NUL)
  have p2: "taken n l (push (push st))" if "peek (snd st) \<noteq> NUL" "peek (snd (push st)) \<noteq> NUL"
    using that p1 by (simp add: taken_push_weak peek_not_NUL)
  have "peek (snd (push st)) = CHR ''.''" if "peek (snd st) = CHR ''.''" "peek_next (snd st) = CHR ''.''"
    using that by (cases st; cases "rest (snd st)"; cases "tl (rest (snd st))")
      (auto simp: peek_rest peek_next_rest char_at_def push_rest)
  with p1 p2 assms show ?thesis
    by (auto simp: punct_switch_def Let_def split: if_splits)
qed

text \<open>Cursor movement that only consumes text.\<close>

definition eats :: "lexer \<Rightarrow> lexer \<Rightarrow> bool" where
  "eats l l' = (\<exists>s. take (length s) (rest l) = s \<and> l' = eat s l)"

lemma eats_refl [simp]: "eats l l"
  unfolding eats_def by (intro exI [of _ "[]"]) simp

lemma eats_trans: "eats l l' \<Longrightarrow> eats l' l'' \<Longrightarrow> eats l l''"
proof -
  assume "eats l l'" "eats l' l''"
  then obtain s t where "take (length s) (rest l) = s" "l' = eat s l"
    "take (length t) (drop (length s) (rest l)) = t" "l'' = eat t l'"
    by (auto simp: eats_def)
  then show ?thesis unfolding eats_def
    by (intro exI [of _ "s @ t"]) (simp add: eat_append take_add)
qed

lemma eats_takeWhile: "eats l (eat (takeWhile keep (rest l)) l)"
  unfolding eats_def by (intro exI [of _ "takeWhile keep (rest l)"]) simp

lemma eats_advance_while [simp]: "eats l (advance_while keep l)"
  by (simp add: advance_while_rest eats_takeWhile)

lemma eats_push_while [simp]: "eats l (snd (push_while keep (t, l)))"
  by (simp add: push_while_rest eats_takeWhile)

lemma eats_advance [simp]: "eats l (snd (advance l))"
  by (cases "rest l") (auto simp: advance_rest eats_def intro: exI [of _ "[_]"])

lemma eats_advance_n [simp]: "eats l (advance_n n l)"
  by (induction n arbitrary: l) (simp, simp, rule eats_trans [OF eats_advance])

lemma eats_skip_block [simp]: "eats l (skip_block l)"
proof (induction l rule: skip_block.induct)
  case (1 l)
  then show ?case
    by (subst skip_block.simps) (simp add: eats_trans [OF eats_advance])
qed

lemma eats_if_advance: "eats l l' \<Longrightarrow> eats l (if b then snd (advance l') else l')"
  by (simp add: eats_trans [OF _ eats_advance])

lemma eats_paren_args [simp]: "eats l (snd (scan_paren_args l))"
proof -
  have "eats l (snd (push_while keep ([], snd (advance l))))" for keep
    by (rule eats_trans [OF eats_advance eats_push_while])
  then show ?thesis
    by (simp add: scan_paren_args_def Let_def split_beta eats_if_advance)
qed

lemma eats_fields:
  "eats l l' \<Longrightarrow> source l' = source l \<and> index l \<le> index l' \<and> text_table l' = text_table l \<and>
     lexer_profile l' = lexer_profile l \<and>
     (index l \<le> length (source l) \<longrightarrow> index l' \<le> length (source l))"
proof -
  assume "eats l l'"
  then obtain s where s: "take (length s) (rest l) = s" "l' = eat s l" by (auto simp: eats_def)
  from s(1) have "length s \<le> length (rest l)" by (metis nat_le_linear take_all_iff)
  with s(2) show ?thesis by (auto simp: rest_def)
qed

lemma advance_index: "\<not> at_end l \<Longrightarrow> index (snd (advance l)) = Suc (index l)"
  by (simp add: advance_def Let_def)

lemma eats_advance_less: "\<not> at_end l \<Longrightarrow> eats (snd (advance l)) l' \<Longrightarrow> eats l l' \<and> index l < index l'"
  using eats_fields [of "snd (advance l)" l'] advance_index [of l] eats_trans [OF eats_advance] by auto

section \<open>Growth of the text table\<close>

text \<open>
  At most \<open>n\<close> texts were interned between the two tables; earlier ids keep their spelling as long as
  the table does not outgrow 32-bit ids.
\<close>

definition grows :: "(string \<Rightarrow> u64) \<Rightarrow> nat \<Rightarrow> string_id_table \<Rightarrow> string_id_table \<Rightarrow> bool" where
  "grows hash n t t' =
     (sit_wf hash t \<and> sit_size t + n < 2 ^ 32 - 1 \<longrightarrow>
        sit_wf hash t' \<and> sit_size t' \<le> sit_size t + n \<and>
        (\<forall>j. sit_lookup t j \<noteq> [] \<longrightarrow> sit_lookup t' j = sit_lookup t j))"

lemma grows_refl [simp]: "grows hash n t t"
  by (simp add: grows_def)

lemma grows_trans: "grows hash m t t' \<Longrightarrow> grows hash n t' t'' \<Longrightarrow> m + n \<le> k \<Longrightarrow> grows hash k t t''"
  unfolding grows_def by (auto simp: less_diff_conv)

lemma grows_weaken: "grows hash m t t' \<Longrightarrow> m \<le> n \<Longrightarrow> grows hash n t t'"
  using grows_trans [of hash m t t' 0 t' n] by simp

lemma grows_make_token:
  assumes "make_token hash k lexeme ln col l = (t, l')"
  shows "grows hash (Suc 0) (text_table l) (text_table l')"
proof -
  obtain i texts where st: "sit_intern hash (text_table l) lexeme = (i, texts)" by fastforce
  with assms have l': "text_table l' = texts" by (auto simp: make_token_def)
  show ?thesis
  proof (cases "lexeme = []")
    case True
    with st l' show ?thesis by (auto simp: sit_intern_def)
  next
    case False
    with st l' show ?thesis
      using sit_intern_facts [OF _ _ st False] sit_lookup_intern_stable [OF _ _ st]
      by (auto simp: grows_def)
  qed
qed

lemma make_token_fields:
  assumes "make_token hash k lexeme ln col l = (t, l')"
  shows "kind t = k" "tok_line t = ln" "tok_column t = col" "file_id t = current_file_id l"
    "source l' = source l" "index l' = index l" "lexer_profile l' = lexer_profile l"
    "line l' = line l" "column l' = column l" "pending_pragma_pack l' = pending_pragma_pack l"
    "pending_pragma_weak l' = pending_pragma_weak l"
    "pending_pragma_gcc_visibility l' = pending_pragma_gcc_visibility l"
    "pending_pragma_exec l' = pending_pragma_exec l"
  using assms by (auto simp: make_token_def split: prod.splits)

lemma make_token_text:
  assumes "make_token hash k lexeme ln col l = (t, l')" "sit_wf hash (text_table l)"
    "Suc (sit_size (text_table l)) < 2 ^ 32"
  shows "sit_lookup (text_table l') (text_id t) = lexeme"
proof (cases "lexeme = []")
  case True
  with assms show ?thesis by (auto simp: make_token_def sit_intern_def sit_lookup_def)
next
  case False
  obtain i texts where st: "sit_intern hash (text_table l) lexeme = (i, texts)" by fastforce
  with assms(1) have "text_table l' = texts" "text_id t = i" by (auto simp: make_token_def)
  with sit_intern_facts [OF assms(2,3) st False] show ?thesis by simp
qed

section \<open>Steps of the lexer\<close>

text \<open>
  What any part of the lexer does to the state: the source and the profile stay, the cursor moves
  forward, and at most one text per consumed character is interned.
\<close>

definition steps :: "(string \<Rightarrow> u64) \<Rightarrow> lexer \<Rightarrow> lexer \<Rightarrow> bool" where
  "steps hash l l' =
     (source l' = source l \<and> lexer_profile l' = lexer_profile l \<and> index l \<le> index l' \<and>
      (index l \<le> length (source l) \<longrightarrow> index l' \<le> length (source l)) \<and>
      grows hash (index l' - index l) (text_table l) (text_table l'))"

lemma steps_refl [simp]: "steps hash l l"
  by (simp add: steps_def)

lemma steps_trans: "steps hash l l' \<Longrightarrow> steps hash l' l'' \<Longrightarrow> steps hash l l''"
  by (auto simp: steps_def intro: grows_trans)

lemma eats_steps: "eats l l' \<Longrightarrow> steps hash l l'"
  by (simp add: steps_def eats_fields)

text \<open>A cursor that moved by at least one character pays for one token.\<close>

lemma steps_make_token:
  assumes "eats l l1" "index l < index l1" "make_token hash k lexeme ln col l1 = (t, l2)"
  shows "steps hash l l2 \<and> index l < index l2"
proof -
  note f = make_token_fields [OF assms(3)]
  have "grows hash (index l1 - index l) (text_table l) (text_table l2)"
    using grows_make_token [OF assms(3)] assms(1,2)
      grows_weaken [of hash "Suc 0" _ _ "index l1 - index l"] eats_fields [OF assms(1)]
    by simp
  with assms(1,2) eats_fields [OF assms(1)] show ?thesis by (simp add: steps_def f)
qed

lemma eats_advance_n_less:
  assumes "\<not> at_end l" "0 < n" "eats (advance_n n l) l'"
  shows "eats l l' \<and> index l < index l'"
proof -
  from assms(2) obtain m where "n = Suc m" using gr0_implies_Suc by blast
  with assms show ?thesis by (intro eats_advance_less) (auto intro: eats_trans [OF eats_advance_n])
qed

text \<open>The four pending slots, and what a pragma branch does with the one of its kind.\<close>

definition same_pending :: "lexer \<Rightarrow> lexer \<Rightarrow> bool" where
  "same_pending l l' =
     (pending_pragma_pack l' = pending_pragma_pack l \<and> pending_pragma_weak l' = pending_pragma_weak l \<and>
      pending_pragma_gcc_visibility l' = pending_pragma_gcc_visibility l \<and>
      pending_pragma_exec l' = pending_pragma_exec l)"

definition set_pending :: "token option \<Rightarrow> token_kind \<Rightarrow> lexer \<Rightarrow> lexer" where
  "set_pending t k l =
     (if k = PragmaPack then l\<lparr>pending_pragma_pack := t\<rparr>
      else if k = PragmaWeak then l\<lparr>pending_pragma_weak := t\<rparr>
      else if k = PragmaGccVisibility then l\<lparr>pending_pragma_gcc_visibility := t\<rparr>
      else if k = PragmaExec then l\<lparr>pending_pragma_exec := t\<rparr>
      else l)"

definition pragma_kind :: "token_kind \<Rightarrow> bool" where
  "pragma_kind k = (k \<in> {PragmaPack, PragmaWeak, PragmaGccVisibility, PragmaExec})"

lemma eats_pending: "eats l l' \<Longrightarrow> same_pending l l'"
  by (auto simp: eats_def same_pending_def)

lemma same_pending_trans: "same_pending l l' \<Longrightarrow> same_pending l' l'' \<Longrightarrow> same_pending l l''"
  by (simp add: same_pending_def)

lemma set_pending_fields [simp]:
  "source (set_pending t k l) = source l" "index (set_pending t k l) = index l"
  "lexer_profile (set_pending t k l) = lexer_profile l"
  "text_table (set_pending t k l) = text_table l"
  by (simp_all add: set_pending_def)

text \<open>
  A pass of the skipping loop moves the cursor when it continues; when it stops it has either left
  the state alone or consumed a whole pragma line and left its token in the slot.
\<close>

definition pass_ok :: "(string \<Rightarrow> u64) \<Rightarrow> lexer \<Rightarrow> skip_outcome \<Rightarrow> bool" where
  "pass_ok hash l r =
     (case r of
        SkipContinue l' \<Rightarrow> steps hash l l' \<and> index l < index l' \<and> same_pending l l'
      | SkipStop l' \<Rightarrow> l' = l \<or>
          (\<exists>t l2. pragma_kind (kind t) \<and> steps hash l l2 \<and> index l < index l2 \<and> same_pending l l2 \<and>
             l' = set_pending (Some t) (kind t) l2))"

lemma pass_ok_continue: "eats l l' \<Longrightarrow> index l < index l' \<Longrightarrow> pass_ok hash l (SkipContinue l')"
  by (simp add: pass_ok_def eats_steps eats_pending)

lemma pass_ok_stop:
  assumes "eats l l1" "index l < index l1" "make_token hash k lexeme ln col l1 = (t, l2)"
    "pragma_kind k" "l3 = set_pending (Some t) k l2"
  shows "pass_ok hash l (SkipStop l3)"
proof -
  have "same_pending l1 l2" using make_token_fields [OF assms(3)] by (simp add: same_pending_def)
  then have "same_pending l l2" using eats_pending [OF assms(1)] by (rule same_pending_trans [rotated])
  then show ?thesis
    using steps_make_token [OF assms(1-3)] make_token_fields(1) [OF assms(3)] assms(4,5)
    by (auto simp: pass_ok_def)
qed

lemma set_pending_simps [simp]:
  "set_pending t PragmaPack l = l\<lparr>pending_pragma_pack := t\<rparr>"
  "set_pending t PragmaWeak l = l\<lparr>pending_pragma_weak := t\<rparr>"
  "set_pending t PragmaGccVisibility l = l\<lparr>pending_pragma_gcc_visibility := t\<rparr>"
  "set_pending t PragmaExec l = l\<lparr>pending_pragma_exec := t\<rparr>"
  by (simp_all add: set_pending_def)

lemma pragma_kind_simps [simp]:
  "pragma_kind PragmaPack" "pragma_kind PragmaWeak" "pragma_kind PragmaGccVisibility" "pragma_kind PragmaExec"
  by (simp_all add: pragma_kind_def)

text \<open>The common frame of the four pragmas: the keyword, blanks, a tail \<open>l'\<close>, the rest of the line.\<close>

lemma eats_pragma_line:
  assumes "\<not> at_end l" "0 < n" "eats (advance_while is_blank (advance_n n l)) l'"
  shows "eats l (advance_while not_LF l')" "index l < index (advance_while not_LF l')"
proof -
  have "eats (advance_n n l) (advance_while not_LF l')"
    by (rule eats_trans [OF eats_advance_while eats_trans [OF assms(3) eats_advance_while]])
  with eats_advance_n_less [OF assms(1,2)] show "eats l (advance_while not_LF l')"
    "index l < index (advance_while not_LF l')" by auto
qed

lemma pragma_pack_ok:
  assumes "\<not> at_end l"
  shows "pass_ok hash l (pragma_pack hash l)"
proof -
  define l1 where "l1 = advance_while is_blank (advance_n (length ''#pragma pack'') l)"
  note e = eats_pragma_line [OF assms, of "length ''#pragma pack''", folded l1_def, OF _ eats_paren_args]
  show ?thesis
    unfolding pragma_pack_def Let_def split_beta l1_def [symmetric]
    using pass_ok_stop [where k = PragmaPack, OF e prod.collapse [symmetric] _ refl] by simp
qed

lemma pragma_weak_ok:
  assumes "\<not> at_end l"
  shows "pass_ok hash l (pragma_weak hash l)"
proof -
  define l1 where "l1 = advance_while is_blank (advance_n (length ''#pragma weak'') l)"
  note e = eats_pragma_line [OF assms, of "length ''#pragma weak''", folded l1_def, OF _ eats_push_while]
  show ?thesis
    unfolding pragma_weak_def Let_def split_beta l1_def [symmetric]
    using pass_ok_stop [where k = PragmaWeak, OF e prod.collapse [symmetric] _ refl] pass_ok_continue [OF e] by simp
qed

lemma pragma_exec_ok:
  assumes "\<not> at_end l"
  shows "pass_ok hash l (pragma_exec hash l)"
proof -
  define l1 where "l1 = advance_while is_blank (advance_n (length ''#pragma c4 exec'') l)"
  note e = eats_pragma_line [OF assms, of "length ''#pragma c4 exec''", folded l1_def, OF _ eats_push_while]
  show ?thesis
    unfolding pragma_exec_def Let_def split_beta l1_def [symmetric]
    using pass_ok_stop [where k = PragmaExec, OF e prod.collapse [symmetric] _ refl] pass_ok_continue [OF e] by simp
qed

lemma pragma_gcc_visibility_ok:
  assumes "\<not> at_end l"
  shows "pass_ok hash l (pragma_gcc_visibility hash l)"
proof -
  define l1 where "l1 = advance_while is_blank (advance_n (length ''#pragma GCC visibility'') l)"
  define d where "d = push_while (\<lambda>c. c \<noteq> LF \<and> c \<noteq> CHR ''('' \<and> c \<noteq> SP \<and> c \<noteq> HT) ([], l1)"
  define v where "v = scan_paren_args (advance_while is_blank (snd d))"
  have "eats l1 (snd d)" by (simp add: d_def)
  moreover from this have "eats l1 (snd v)"
    unfolding v_def by (rule eats_trans [OF eats_trans [OF _ eats_advance_while] eats_paren_args])
  ultimately have "eats l1 (snd (if fst d = ''push'' then (''push,'' @ fst v, snd v)
      else if fst d = ''pop'' then (''pop'', snd d) else ([], snd d)))" (is "eats l1 (snd ?x)")
    by simp
  note e = eats_pragma_line [OF assms, of "length ''#pragma GCC visibility''", folded l1_def, OF _ this]
  have "pragma_gcc_visibility hash l =
    (let l2 = advance_while not_LF (snd ?x) in
     if fst ?x \<noteq> [] then
       let (t, l3) = make_token hash PragmaGccVisibility (fst ?x) (line l) (column l) l2 in
       SkipStop (l3\<lparr>pending_pragma_gcc_visibility := Some t\<rparr>)
     else SkipContinue l2)"
    unfolding pragma_gcc_visibility_def Let_def l1_def [symmetric] split_beta d_def [symmetric] v_def [symmetric]
    by (rule refl)
  then show ?thesis
    using pass_ok_stop [where k = PragmaGccVisibility, OF e prod.collapse [symmetric] _ refl] pass_ok_continue [OF e]
    by (simp only: Let_def split_beta) simp
qed

lemma consume_line_marker_ok:
  assumes "\<not> at_end l" "consume_line_marker l = (True, l')"
  shows "steps hash l l' \<and> index l < index l' \<and> same_pending l l'"
proof -
  let ?l1 = "advance_while not_LF l"
  let ?l2 = "if \<not> at_end ?l1 \<and> peek ?l1 = LF then snd (advance ?l1) else ?l1"
  from assms(2) have hash: "peek l = CHR ''#''"
    and l': "source l' = source ?l2" "index l' = index ?l2" "lexer_profile l' = lexer_profile ?l2"
      "text_table l' = text_table ?l2" "same_pending ?l2 l'"
    by (auto simp: same_pending_def consume_line_marker_def Let_def split: if_splits option.splits prod.splits)
  have "?l1 = advance_while not_LF (snd (advance l))"
    using assms(1) hash by (subst advance_while.simps) (simp add: not_LF_def)
  then have e1: "eats l ?l1" "index l < index ?l1"
    using eats_advance_less [OF assms(1) eats_advance_while] by simp_all
  have e2: "eats ?l1 ?l2" by (rule eats_if_advance) simp
  have "eats l ?l2" "index l < index ?l2"
    using eats_trans [OF e1(1) e2] e1(2) eats_fields [OF e2] by linarith+
  then show ?thesis
    using l' eats_fields [of l ?l2] same_pending_trans [OF eats_pending [of l ?l2] l'(5)]
    by (simp add: steps_def del: if_split)
qed

lemma skip_pass_ok:
  assumes "\<not> at_end l"
  shows "pass_ok hash l (skip_pass hash l)"
proof -
  have line: "pass_ok hash l (SkipContinue (advance_while not_LF l))" if "peek l \<noteq> LF"
  proof -
    have "advance_while not_LF l = advance_while not_LF (snd (advance l))"
      using assms that by (subst advance_while.simps) (simp add: not_LF_def)
    with eats_advance_less [OF assms eats_advance_while] show ?thesis by (simp add: pass_ok_continue)
  qed
  have "eats (snd (advance l)) (skip_block (snd (advance (snd (advance l)))))"
    by (rule eats_trans [OF eats_advance eats_skip_block])
  from eats_advance_less [OF assms this]
  have block: "pass_ok hash l (SkipContinue (skip_block (snd (advance (snd (advance l))))))"
    by (simp add: pass_ok_continue)
  have space: "pass_ok hash l (SkipContinue (snd (advance l)))"
    using eats_advance_less [OF assms eats_refl] by (simp add: pass_ok_continue)
  have stop: "pass_ok hash l (SkipStop l)" by (simp add: pass_ok_def)
  have marker: "pass_ok hash l (SkipContinue l')" if "consume_line_marker l = (True, l')" for l'
    using consume_line_marker_ok [OF assms that] by (simp add: pass_ok_def)
  show ?thesis
    using line block space stop marker assms
    by (simp add: skip_pass_def Let_def pragma_pack_ok pragma_weak_ok pragma_gcc_visibility_ok
        pragma_exec_ok split: prod.split bool.split)
qed

function skip_whitespace_and_comments :: "(string \<Rightarrow> u64) \<Rightarrow> lexer \<Rightarrow> lexer" where
  "skip_whitespace_and_comments hash l =
     (if at_end l then l
      else case skip_pass hash l of
             SkipContinue l' \<Rightarrow> skip_whitespace_and_comments hash l'
           | SkipStop l' \<Rightarrow> l')"
  by auto
termination
proof (relation "measure (\<lambda>(_, l). length (source l) - index l)", goal_cases)
  case (2 hash l l')
  then show ?case using skip_pass_ok [of l hash] by (auto simp: pass_ok_def steps_def at_end_def)
qed simp

declare skip_whitespace_and_comments.simps [simp del]

text \<open>The whole loop: nothing, blanks and comments only, or a pragma line at the end of them.\<close>

definition moved :: "(string \<Rightarrow> u64) \<Rightarrow> lexer \<Rightarrow> lexer \<Rightarrow> bool" where
  "moved hash l l' = (steps hash l l' \<and> index l < index l' \<and> same_pending l l')"

definition skip_ok :: "(string \<Rightarrow> u64) \<Rightarrow> lexer \<Rightarrow> lexer \<Rightarrow> bool" where
  "skip_ok hash l l' =
     (l' = l \<or> moved hash l l' \<or>
      (\<exists>t l2. pragma_kind (kind t) \<and> moved hash l l2 \<and> l' = set_pending (Some t) (kind t) l2))"

lemma moved_trans: "moved hash l l' \<Longrightarrow> moved hash l' l'' \<Longrightarrow> moved hash l l''"
  by (auto simp: moved_def intro: steps_trans same_pending_trans)

lemma skip_ok_trans: "moved hash l l1 \<Longrightarrow> skip_ok hash l1 l' \<Longrightarrow> skip_ok hash l l'"
  by (auto simp: skip_ok_def intro: moved_trans)

lemma skip_steps: "skip_ok hash l (skip_whitespace_and_comments hash l)"
proof (induction hash l rule: skip_whitespace_and_comments.induct)
  case (1 hash l)
  show ?case
  proof (cases "at_end l")
    case True
    then show ?thesis by (subst skip_whitespace_and_comments.simps) (simp add: skip_ok_def)
  next
    case False
    note ok = skip_pass_ok [OF this, of hash]
    show ?thesis
    proof (cases "skip_pass hash l")
      case (SkipContinue l1)
      with ok have "moved hash l l1" by (simp add: pass_ok_def moved_def)
      with 1 [OF False SkipContinue] SkipContinue False show ?thesis
        by (subst skip_whitespace_and_comments.simps) (simp add: skip_ok_trans)
    next
      case (SkipStop l1)
      with ok False show ?thesis
        by (subst skip_whitespace_and_comments.simps) (auto simp: skip_ok_def pass_ok_def moved_def)
    qed
  qed
qed

lemma skip_ok_index:
  "skip_ok hash l l' \<Longrightarrow> source l' = source l \<and> (l' = l \<or> index l < index l')"
  by (auto simp: skip_ok_def moved_def steps_def)

definition scan_token :: "(string \<Rightarrow> u64) \<Rightarrow> lexer \<Rightarrow> token \<times> lexer" where
  "scan_token hash l =
     (let c = peek l in
      if isdigit c \<or> c = CHR ''.'' \<and> isdigit (peek_next l) then scan_number hash l
      else if starts_identifier c then scan_identifier_or_keyword hash l
      else if c = DQ then scan_string hash [] l
      else if c = SQ then scan_char hash [] l
      else scan_punct hash l)"

section \<open>What a scanner returns\<close>

text \<open>Kinds that only the driver and the pragma branches produce.\<close>

definition special_kind :: "token_kind \<Rightarrow> bool" where
  "special_kind k = (k \<in> {EndOfFile, PragmaPack, PragmaWeak, PragmaGccVisibility, PragmaExec})"

lemma keyword_not_special: "\<not> special_kind (keyword_from_string s gnu profile)"
proof -
  have "\<forall>(s, k) \<in> set (keyword_rows gnu profile). \<not> special_kind k"
    by (auto simp: keyword_rows_def c_keyword_rows_def gnu_keyword_rows_1_def gnu_keyword_rows_2_def
      gnu_keyword_rows_3_def cpp_keyword_rows_def special_kind_def split: if_splits)
  moreover have "\<not> special_kind Identifier" by (simp add: special_kind_def)
  ultimately show ?thesis
    by (auto simp: keyword_from_string_is_entry split: option.splits dest: map_of_SomeD)
qed

text \<open>
  A scanner consumes a non-empty prefix \<open>s\<close> of the unread text and makes one token of it. The
  lexeme is \<open>s\<close>; only a float literal whose last digit ends the source may carry an extra NUL. The token is
  placed where it starts, or behind its encoding prefix for a prefixed literal.
\<close>

definition scanned :: "(string \<Rightarrow> u64) \<Rightarrow> lexer \<Rightarrow> token \<Rightarrow> lexer \<Rightarrow> bool" where
  "scanned hash l t l' =
     (\<exists>s k lexeme p. s \<noteq> [] \<and> take (length s) (rest l) = s \<and> \<not> special_kind k \<and>
        (lexeme = s \<or> k = FloatLit \<and> lexeme = s @ [NUL] \<and> length (rest l) = length s \<and> isdigit (last s)) \<and>
        (p = [] \<or> k \<in> {StrLit, CharLit, Invalid} \<and> p \<in> {''L'', ''u'', ''U'', ''u8''}) \<and>
        take (length p) s = p \<and>
        make_token hash k lexeme (line (eat p l)) (column (eat p l)) (eat s l) = (t, l'))"

lemma scannedI:
  assumes "taken (Suc 0) l st" "make_token hash k (fst st) (line l) (column l) (snd st) = (t, l')"
    "\<not> special_kind k"
  shows "scanned hash l t l'"
proof -
  from assms(1) obtain s where s: "s \<noteq> []" "take (length s) (rest l) = s" "st = (s, eat s l)"
    by (auto simp: taken_def Suc_le_eq)
  with assms(2,3) show ?thesis
    unfolding scanned_def by (intro exI [of _ s] exI [of _ k] exI [of _ s] exI [of _ "[]"]) simp
qed

lemma scannedI_took:
  assumes "took (Suc 0) l st" "make_token hash FloatLit (fst st) (line l) (column l) (snd st) = (t, l')"
  shows "scanned hash l t l'"
proof (cases "taken (Suc 0) l st")
  case True
  then show ?thesis using assms(2) by (rule scannedI) (simp add: special_kind_def)
next
  case False
  with assms(1) obtain s where s: "s \<noteq> []" "take (length s) (rest l) = s" "st = (s @ [NUL], eat s l)"
    and e: "at_end (eat s l)" "isdigit (last s)" by (auto simp: took_def taken_def Suc_le_eq)
  from e(1) s(2) have "length (rest l) = length s"
    by (metis append_Nil2 append_take_drop_id at_end_rest rest_eat)
  with s assms(2) e(2) show ?thesis
    unfolding scanned_def
    by (intro exI [of _ s] exI [of _ FloatLit] exI [of _ "s @ [NUL]"] exI [of _ "[]"])
      (simp add: special_kind_def)
qed

lemma number_scanned:
  assumes "\<not> at_end l" "isdigit (peek l) \<or> peek l = CHR ''.'' \<and> isdigit (peek_next l)"
    "scan_number hash l = (t, l')"
  shows "scanned hash l t l'"
proof (cases "peek l = CHR ''.''")
  case True
  let ?st = "fst (scan_exponent ''eE'' (push_while isdigit (push ([], l)), True))"
  have "taken (Suc 0) l ?st"
    using assms(1) by (intro taken_exponent) (simp add: taken_push_while taken_push taken_start)
  then have "took (Suc 0) l (scan_float_suffix ?st)" by (rule took_float_suffix)
  then show ?thesis
    by (rule scannedI_took) (use assms(3) True in \<open>simp add: scan_number_def Let_def split_beta\<close>)
next
  case False
  with assms(2) have body: "taken (Suc 0) l (fst (scan_number_body l))"
    using assms(1) by (simp add: taken_number_body)
  show ?thesis
  proof (cases "snd (scan_number_body l)")
    case True
    from body have "took (Suc 0) l (scan_float_suffix (fst (scan_number_body l)))" by (rule took_float_suffix)
    then show ?thesis
      by (rule scannedI_took) (use assms(3) True False in \<open>simp add: scan_number_def Let_def split_beta\<close>)
  next
    case int: False
    from body have "taken (Suc 0) l (scan_int_suffix (fst (scan_number_body l)))" by (rule taken_int_suffix)
    then show ?thesis
      by (rule scannedI [where k = IntLit])
        (use assms(3) int False in \<open>simp_all add: scan_number_def Let_def split_beta special_kind_def\<close>)
  qed
qed

lemma quoted_scanned:
  assumes pre: "take (length p) (rest l) = p" "p = [] \<or> p \<in> {''L'', ''u'', ''U'', ''u8''}"
    and l1: "\<not> at_end (eat p l)"
    and k: "k \<in> {StrLit, CharLit, Invalid}"
    and st: "st = snd (quoted_loop q (push (p, eat p l)))"
    and tok: "make_token hash k (fst st) (line (eat p l)) (column (eat p l)) (snd st) = (t, l')"
  shows "scanned hash l t l'"
proof -
  have "taken (length p) l (p, eat p l)" using pre by (auto simp: taken_def)
  with l1 have "taken (Suc (length p)) l (push (p, eat p l))" by (simp add: taken_push)
  then have "taken (Suc (length p)) l st" unfolding st by (rule taken_quoted_loop)
  then obtain s where s: "Suc (length p) \<le> length s" "take (length s) (rest l) = s" "st = (s, eat s l)"
    by (auto simp: taken_def)
  then have "take (length p) s = p" using pre(1) by (metis Suc_leD min.absorb1 take_take)
  with s k pre(2) tok show ?thesis
    unfolding scanned_def
    by (intro exI [of _ s] exI [of _ k] exI [of _ s] exI [of _ p]) (auto simp: special_kind_def)
qed

lemma string_scanned:
  assumes "take (length p) (rest l) = p" "p = [] \<or> p \<in> {''L'', ''u'', ''U'', ''u8''}"
    "\<not> at_end (eat p l)" "scan_string hash p (eat p l) = (t, l')"
  shows "scanned hash l t l'"
  by (rule quoted_scanned [OF assms(1-3) _ refl])
    (use assms(4) in \<open>simp_all add: scan_string_def Let_def split_beta\<close>)

lemma char_scanned:
  assumes "take (length p) (rest l) = p" "p = [] \<or> p \<in> {''L'', ''u'', ''U'', ''u8''}"
    "\<not> at_end (eat p l)" "scan_char hash p (eat p l) = (t, l')"
  shows "scanned hash l t l'"
  by (rule quoted_scanned [OF assms(1-3) _ refl])
    (use assms(4) in \<open>simp_all add: scan_char_def Let_def split_beta\<close>)

lemma identifier_scanned:
  assumes "\<not> at_end l" "starts_identifier (peek l)" "scan_identifier_or_keyword hash l = (t, l')"
  shows "scanned hash l t l'"
proof -
  let ?p = "takeWhile is_ident_char (rest l)"
  let ?k = "keyword_from_string ?p True (lexer_profile l)"
  have st: "push_while is_ident_char ([], l) = (?p, eat ?p l)" by (simp add: push_while_rest)
  have "is_ident_char (peek l)"
    using assms(2) by (auto simp: is_ident_char_def starts_identifier_def isalnum_def)
  with assms(1) have tk: "taken (Suc 0) l (?p, eat ?p l)"
    using taken_push_while_Suc [of l is_ident_char] by (simp add: st)
  consider "?p \<in> {''L'', ''u'', ''U'', ''u8''}" "\<not> at_end (eat ?p l)" "scan_string hash ?p (eat ?p l) = (t, l')"
    | "?p \<in> {''L'', ''u'', ''U'', ''u8''}" "\<not> at_end (eat ?p l)" "scan_char hash ?p (eat ?p l) = (t, l')"
    | "make_token hash ?k ?p (line l) (column l) (eat ?p l) = (t, l')"
    using assms(3) by (auto simp: scan_identifier_or_keyword_def Let_def st split: if_splits)
  then show ?thesis
  proof cases
    case 1 then show ?thesis by (intro string_scanned) auto
  next
    case 2 then show ?thesis by (intro char_scanned) auto
  next
    case 3 with tk show ?thesis by (intro scannedI [OF tk, of _ ?k]) (simp_all add: keyword_not_special)
  qed
qed

lemma punct_scanned:
  assumes "\<not> at_end l" "scan_punct hash l = (t, l')"
  shows "scanned hash l t l'"
proof -
  obtain c l1 where a: "advance l = (c, l1)" by fastforce
  obtain k st where p: "punct_switch (lexer_profile l) c ([c], l1) = (k, st)"
    by (rule prod.exhaust)
  have "push ([], l) = ([c], l1)" by (simp add: push_def a)
  with assms(1) have "taken (Suc 0) l ([c], l1)" using taken_push [OF taken_start, of l] by simp
  then have "taken (Suc 0) l st" using p by (rule taken_punct_switch)
  moreover have "\<not> special_kind k"
    using p by (auto simp: punct_switch_def special_kind_def Let_def split: if_splits)
  ultimately show ?thesis
    using assms(2) a p by (intro scannedI) (auto simp: scan_punct_def Let_def split_beta)
qed

lemma scan_token_scanned:
  assumes "\<not> at_end l" "scan_token hash l = (t, l')"
  shows "scanned hash l t l'"
  using assms number_scanned [of l hash t l'] identifier_scanned [of l hash t l']
    string_scanned [of "[]" l hash t l'] char_scanned [of "[]" l hash t l'] punct_scanned [of l hash t l']
  by (auto simp: scan_token_def Let_def split: if_splits)

lemma scannedE:
  assumes "scanned hash l t l'"
  obtains s k lexeme ln col where "s \<noteq> []" "take (length s) (rest l) = s" "\<not> special_kind k"
    "make_token hash k lexeme ln col (eat s l) = (t, l')"
  using assms unfolding scanned_def by blast

lemma scanned_steps: "scanned hash l t l' \<Longrightarrow> steps hash l l' \<and> index l < index l'"
  by (erule scannedE, rule steps_make_token) (auto simp: eats_def)

lemma scanned_kind: "scanned hash l t l' \<Longrightarrow> \<not> special_kind (kind t)"
  by (erule scannedE) (simp add: make_token_fields(1))

lemma scanned_pending:
  "scanned hash l t l' \<Longrightarrow> pending_pragma_pack l' = pending_pragma_pack l \<and>
     pending_pragma_weak l' = pending_pragma_weak l \<and>
     pending_pragma_gcc_visibility l' = pending_pragma_gcc_visibility l \<and>
     pending_pragma_exec l' = pending_pragma_exec l"
  by (erule scannedE) (simp add: make_token_fields(10-13))

text \<open>The loop of \<open>scan_all\<close>; \<open>out\<close> holds the tokens scanned so far.\<close>

definition pending_count :: "lexer \<Rightarrow> nat" where
  "pending_count l =
     (if pending_pragma_pack l = None then 0 else 1) + (if pending_pragma_weak l = None then 0 else 1) +
     (if pending_pragma_gcc_visibility l = None then 0 else 1) +
     (if pending_pragma_exec l = None then 0 else 1)"

function scan_loop :: "(string \<Rightarrow> u64) \<Rightarrow> lexer \<Rightarrow> token list \<Rightarrow> token list \<times> lexer" where
  "scan_loop hash l0 out =
     (let l = skip_whitespace_and_comments hash l0 in
      case pending_pragma_pack l of
        Some t \<Rightarrow> scan_loop hash (l\<lparr>pending_pragma_pack := None\<rparr>) (out @ [t])
      | None \<Rightarrow>
      case pending_pragma_weak l of
        Some t \<Rightarrow> scan_loop hash (l\<lparr>pending_pragma_weak := None\<rparr>) (out @ [t])
      | None \<Rightarrow>
      case pending_pragma_gcc_visibility l of
        Some t \<Rightarrow> scan_loop hash (l\<lparr>pending_pragma_gcc_visibility := None\<rparr>) (out @ [t])
      | None \<Rightarrow>
      case pending_pragma_exec l of
        Some t \<Rightarrow> scan_loop hash (l\<lparr>pending_pragma_exec := None\<rparr>) (out @ [t])
      | None \<Rightarrow>
      if at_end l then
        let (t, l) = make_token hash EndOfFile [] (line l) (column l) l in (out @ [t], l)
      else
        let (t, l) = scan_token hash l in scan_loop hash l (out @ [t]))"
  by auto

definition scan_measure :: "lexer \<Rightarrow> nat" where
  "scan_measure l = 5 * (length (source l) - index l) + pending_count l"

lemma pending_count_le: "pending_count l \<le> 4"
  by (simp add: pending_count_def)

lemma scan_measure_index:
  "source l' = source l \<Longrightarrow> \<not> at_end l \<Longrightarrow> index l < index l' \<Longrightarrow> scan_measure l' < scan_measure l"
  using pending_count_le [of l'] by (auto simp: scan_measure_def at_end_def)

lemma scan_measure_skip: "scan_measure (skip_whitespace_and_comments hash l) \<le> scan_measure l"
  (is "scan_measure ?l' \<le> _")
proof (cases "?l' = l")
  case False
  have "\<not> at_end l" using False by (auto simp: skip_whitespace_and_comments.simps)
  with False skip_steps [of hash l] have "scan_measure ?l' < scan_measure l"
    by (intro scan_measure_index) (auto dest: skip_ok_index)
  then show ?thesis by simp
qed simp

lemma scan_token_measure:
  "\<not> at_end l \<Longrightarrow> scan_token hash l = (t, l') \<Longrightarrow> scan_measure l' < scan_measure l"
  using scanned_steps [OF scan_token_scanned] by (intro scan_measure_index) (auto simp: steps_def)

lemma scan_measure_pending:
  assumes "pending_count l' < pending_count l" "source l' = source l" "index l' = index l"
  shows "scan_measure l' < scan_measure l"
  using assms by (simp add: scan_measure_def)

lemma pending_cleared:
  "pending_pragma_pack l = Some t \<Longrightarrow> scan_measure (l\<lparr>pending_pragma_pack := None\<rparr>) < scan_measure l"
  "pending_pragma_weak l = Some t \<Longrightarrow> scan_measure (l\<lparr>pending_pragma_weak := None\<rparr>) < scan_measure l"
  "pending_pragma_gcc_visibility l = Some t \<Longrightarrow>
     scan_measure (l\<lparr>pending_pragma_gcc_visibility := None\<rparr>) < scan_measure l"
  "pending_pragma_exec l = Some t \<Longrightarrow> scan_measure (l\<lparr>pending_pragma_exec := None\<rparr>) < scan_measure l"
  by (rule scan_measure_pending; simp add: pending_count_def)+

termination scan_loop
proof (relation "measure (\<lambda>(hash, l, out). scan_measure l)", goal_cases)
  case (2 hash l0 out l x t l')
  then show ?case
    using less_le_trans [OF scan_token_measure scan_measure_skip, of hash l0 hash t l'] by simp
qed (auto intro: less_le_trans [OF pending_cleared(1) scan_measure_skip]
      less_le_trans [OF pending_cleared(2) scan_measure_skip]
      less_le_trans [OF pending_cleared(3) scan_measure_skip]
      less_le_trans [OF pending_cleared(4) scan_measure_skip])

declare scan_loop.simps [simp del]

definition scan_all :: "(string \<Rightarrow> u64) \<Rightarrow> lexer \<Rightarrow> token list \<times> lexer" where
  "scan_all hash l = scan_loop hash l []"

end
