(* ===== verification/Token_Names.thy ===== *)
theory Token_Names
  imports Token
begin

text \<open>
  Facts about the tables of \<open>frontend/lexer/token.cpp\<close> as a whole: keyword spellings and debug
  names determine each other, and the debug names are distinct.
\<close>

lemmas keyword_rows_defs = keyword_rows_def c_keyword_rows_def gnu_keyword_rows_1_def
  gnu_keyword_rows_2_def gnu_keyword_rows_3_def cpp_keyword_rows_def

lemma keyword_spellings_distinct: "distinct (map fst (keyword_rows True LexCppSubset))"
  by code_simp

lemma keyword_row_found:
  "(s, k) \<in> set (keyword_rows True LexCppSubset) \<Longrightarrow> keyword_from_string s True LexCppSubset = k"
  by (simp add: keyword_from_string_is_entry map_of_is_SomeI [OF keyword_spellings_distinct])

lemma keyword_spelling_rows:
  "(drop 3 (c_keyword_name c), CKw c) \<in> set (keyword_rows True LexCppSubset)"
  "(drop 3 (c11_keyword_name c11), C11Kw c11) \<in> set (keyword_rows True LexCppSubset)"
  "(drop 3 (gcc_keyword_name gcc), GccKw gcc) \<in> set (keyword_rows True LexCppSubset)"
  "(drop 3 (cpp_keyword_name cpp), CppKw cpp) \<in> set (keyword_rows True LexCppSubset)"
     apply (cases c; simp add: keyword_rows_defs)
    apply (cases c11; simp add: keyword_rows_defs)
   apply (cases gcc; simp add: keyword_rows_defs)
  apply (cases cpp; simp add: keyword_rows_defs)
  done

lemmas keyword_spelling_groups = keyword_spelling_rows [THEN keyword_row_found]

text \<open>
  The debug name of a keyword kind is \<open>KW_\<close> followed by a spelling of that keyword: under the
  C++ profile with GNU extensions the rest of the name is classified back to the same kind. In
  particular no two keyword kinds share a name.
\<close>

theorem keyword_name_roundtrip:
  assumes "token_kind_name k = ''KW_'' @ w"
  shows "keyword_from_string w True LexCppSubset = k"
proof -
  from assms have w: "w = drop 3 (token_kind_name k)" by simp
  show ?thesis
  proof (cases k)
    case (Punct p) with assms show ?thesis by (cases p) auto
  next
    case (Op p) with assms show ?thesis by (cases p) auto
  next
    case (COp p) with assms show ?thesis by (cases p) auto
  qed (use assms w keyword_spelling_groups in auto)
qed

theorem keyword_name_roundtrip_witness:
  "keyword_from_string ''constexpr'' True LexCppSubset = CppKw KwConstexpr \<and>
   keyword_from_string ''constexpr'' True LexC = Identifier"
proof
  show "keyword_from_string ''constexpr'' True LexCppSubset = CppKw KwConstexpr"
    by (rule keyword_name_roundtrip) simp
  show "keyword_from_string ''constexpr'' True LexC = Identifier" by code_simp
qed

definition all_token_kinds :: "token_kind list" where
  "all_token_kinds = [
     IntLit, FloatLit, StrLit, CharLit, Identifier, CKw KwAuto, CKw KwBreak, CKw KwCase,
     CKw KwChar, CKw KwConst, CKw KwContinue, CKw KwDefault, CKw KwDo, CKw KwDouble,
     CKw KwElse, CKw KwEnum, CKw KwExtern, CKw KwFloat, CKw KwFor, CKw KwGoto, CKw KwIf,
     CKw KwInline, CKw KwInt, CKw KwLong, CKw KwRegister, CKw KwRestrict, CKw KwReturn,
     CKw KwShort, CKw KwSigned, CKw KwSizeof, CKw KwStatic, CKw KwStruct, CKw KwSwitch,
     CKw KwTypedef, CKw KwUnion, CKw KwUnsigned, CKw KwVoid, CKw KwVolatile, CKw KwWhile,
     C11Kw KwAlignas, C11Kw KwAlignof, C11Kw KwAtomic, C11Kw KwBool, C11Kw KwComplex,
     C11Kw KwGeneric, C11Kw KwImaginary, C11Kw KwNoreturn, C11Kw KwStaticAssert,
     C11Kw KwThreadLocal, GccKw KwTypeof, GccKw KwTypeofUnqual, GccKw KwAsm, GccKw KwAttribute,
     GccKw KwExtension, GccKw KwBuiltin, GccKw KwBuiltinVaArg, GccKw KwInt128, GccKw KwUInt128,
     GccKw KwAutoType, GccKw KwGnuAlignof, GccKw KwGccReal, GccKw KwGccImag, CppKw KwTemplate,
     CppKw KwConstexpr, CppKw KwConsteval, CppKw KwNamespace, CppKw KwUsing, CppKw KwTypename,
     CppKw KwNoexcept, CppKw KwDecltype, CppKw KwStaticCast, CppKw KwReinterpretCast,
     CppKw KwConstCast, CppKw KwClass, CppKw KwFinal, CppKw KwOverride, CppKw KwPrivate,
     CppKw KwProtected, CppKw KwPublic, CppKw KwFriend, CppKw KwVirtual, CppKw KwMutable,
     CppKw KwNullptr, CppKw KwTrue, CppKw KwFalse, CppKw KwOperator, CppKw KwNew,
     CppKw KwDelete, CppKw KwExplicit, CppKw KwRequires, CppKw KwConcept, Punct LParen,
     Punct RParen, Punct LBrace, Punct RBrace, Punct LBracket, Punct RBracket, Punct Semi,
     Punct Comma, Punct Dot, Punct Arrow, Punct Ellipsis, Op Plus, Op Minus, Op Star, Op Slash,
     Op Percent, Op Amp, Op Pipe, Op Caret, Op Tilde, Op Bang, Op Assign, Op Less, Op Greater,
     Op Question, Op Colon, Op Hash, COp PlusPlus, COp MinusMinus, COp PlusAssign,
     COp MinusAssign, COp StarAssign, COp SlashAssign, COp PercentAssign, COp AmpAssign,
     COp PipeAssign, COp CaretAssign, COp LessLess, COp GreaterGreater, COp LessLessAssign,
     COp GreaterGreaterAssign, COp EqualEqual, COp BangEqual, COp LessEqual, COp GreaterEqual,
     COp Spaceship, COp AmpAmp, COp PipePipe, COp HashHash, COp ColonColon, PragmaPack,
     PragmaWeak, PragmaGccVisibility, PragmaExec, EndOfFile, Invalid]"

lemma in_all_token_kinds: "k \<in> set all_token_kinds"
proof (cases k)
  case (CKw c) then show ?thesis by (cases c) (simp_all add: all_token_kinds_def)
next
  case (C11Kw c) then show ?thesis by (cases c) (simp_all add: all_token_kinds_def)
next
  case (GccKw c) then show ?thesis by (cases c) (simp_all add: all_token_kinds_def)
next
  case (CppKw c) then show ?thesis by (cases c) (simp_all add: all_token_kinds_def)
next
  case (Punct c) then show ?thesis by (cases c) (simp_all add: all_token_kinds_def)
next
  case (Op c) then show ?thesis by (cases c) (simp_all add: all_token_kinds_def)
next
  case (COp c) then show ?thesis by (cases c) (simp_all add: all_token_kinds_def)
qed (simp_all add: all_token_kinds_def)

lemma token_kind_names_distinct: "distinct (map token_kind_name all_token_kinds)"
  by code_simp

lemma inj_token_kind_name: "inj token_kind_name"
  using token_kind_names_distinct in_all_token_kinds
  by (auto simp: distinct_map intro: inj_on_subset)

text \<open>
  The debug names of all 147 kinds are distinct, so a token listing determines the kinds, and
  no kind has the fallback name.
\<close>

theorem token_kind_name_injective:
  "(token_kind_name a = token_kind_name b \<longleftrightarrow> a = b) \<and> token_kind_name a \<noteq> ''UNKNOWN''"
proof -
  have "list_all (\<lambda>k. token_kind_name k \<noteq> ''UNKNOWN'') all_token_kinds" by code_simp
  then have "token_kind_name a \<noteq> ''UNKNOWN''" using in_all_token_kinds by (auto simp: list_all_iff)
  then show ?thesis using inj_token_kind_name by (auto dest: injD)
qed

end
