(* ===== verification/Driver.thy ===== *)
theory Driver
  imports PP_Directives Lexer Token_Names
begin

text \<open>
  The compiler driver up to the parser (\<open>apps/c4cll.cpp\<close>): the command line, the checks on it, the
  default search paths, the configuration of the preprocessor, the preprocessor and the lexer. What
  the operating system answers is a parameter: environment variables, which paths are directories
  and what a directory lists. The build option \<open>C4C_ENABLE_BACKEND\<close> is a parameter too. Messages on
  the error stream are not kept, the exit status and the standard output are; an exception ends the
  program with status 1.
\<close>

section \<open>Options\<close>

datatype codegen_path = LlvmPath | LirPath | ObjPath | ComparePath

record options =
  pp_only :: bool
  lex_only :: bool
  parse_only :: bool
  dump_hir_summary :: bool
  dump_hir :: bool
  dump_canonical :: bool
  dump_bir :: bool
  dump_prepared_bir :: bool
  dump_mir :: bool
  trace_mir :: bool
  mir_focus_function :: "string option"
  mir_focus_block :: "string option"
  mir_focus_value :: "string option"
  parser_debug :: bool
  parser_debug_tentative :: bool
  parser_debug_injected :: bool
  emit_split_llvm :: bool
  input :: string
  out_path :: string
  target_choice :: target_profile
  device_target :: "target_profile option"
  host_output :: string
  device_output :: string
  emit_semantic_bir :: bool
  opt_defines :: "string list"
  opt_undefines :: "string list"
  opt_include_paths :: "string list"
  opt_quote_paths :: "string list"
  opt_system_paths :: "string list"
  opt_after_paths :: "string list"
  opt_level :: nat
  opt_size :: bool
  pic_level :: nat
  pie_level :: nat
  path_choice :: codegen_path

definition default_options :: "target_profile \<Rightarrow> options" where
  "default_options t =
     \<lparr>pp_only = False, lex_only = False, parse_only = False, dump_hir_summary = False, dump_hir = False,
      dump_canonical = False, dump_bir = False, dump_prepared_bir = False, dump_mir = False, trace_mir = False,
      mir_focus_function = None, mir_focus_block = None, mir_focus_value = None,
      parser_debug = False, parser_debug_tentative = False, parser_debug_injected = False,
      emit_split_llvm = False, input = [], out_path = [], target_choice = t, device_target = None,
      host_output = [], device_output = [], emit_semantic_bir = False, opt_defines = [], opt_undefines = [],
      opt_include_paths = [], opt_quote_paths = [], opt_system_paths = [], opt_after_paths = [],
      opt_level = 0, opt_size = False, pic_level = 0, pie_level = 0, path_choice = LlvmPath\<rparr>"

definition normalize_debug_value_selector :: "string \<Rightarrow> string" where
  "normalize_debug_value_selector v =
     (if v = [] \<or> hd v = CHR ''%'' \<or> hd v = CHR ''@'' then v else CHR ''%'' # v)"

text \<open>Options without a value.\<close>

definition flag_option :: "string \<Rightarrow> (options \<Rightarrow> options) option" where
  "flag_option a =
     (if a = ''--pp-only'' then Some (\<lambda>x. x\<lparr>pp_only := True\<rparr>)
      else if a = ''--lex-only'' then Some (\<lambda>x. x\<lparr>lex_only := True\<rparr>)
      else if a = ''--parse-only'' then Some (\<lambda>x. x\<lparr>parse_only := True\<rparr>)
      else if a = ''--dump-hir'' then Some (\<lambda>x. x\<lparr>dump_hir := True\<rparr>)
      else if a = ''--dump-hir-summary'' then Some (\<lambda>x. x\<lparr>dump_hir_summary := True\<rparr>)
      else if a = ''--dump-canonical'' then Some (\<lambda>x. x\<lparr>dump_canonical := True\<rparr>)
      else if a = ''--dump-bir'' then Some (\<lambda>x. x\<lparr>dump_bir := True\<rparr>)
      else if a = ''--dump-prepared-bir'' then Some (\<lambda>x. x\<lparr>dump_prepared_bir := True\<rparr>)
      else if a = ''--dump-mir'' \<or> a = ''--dump-x86-summary'' then Some (\<lambda>x. x\<lparr>dump_mir := True\<rparr>)
      else if a = ''--trace-mir'' \<or> a = ''--trace-x86-handoff'' then Some (\<lambda>x. x\<lparr>trace_mir := True\<rparr>)
      else if a = ''--parser-debug'' then Some (\<lambda>x. x\<lparr>parser_debug := True\<rparr>)
      else if a = ''--parser-debug-tentative'' then Some (\<lambda>x. x\<lparr>parser_debug_tentative := True\<rparr>)
      else if a = ''--parser-debug-injected'' then Some (\<lambda>x. x\<lparr>parser_debug_injected := True\<rparr>)
      else if a = ''--emit-split-llvm'' then Some (\<lambda>x. x\<lparr>emit_split_llvm := True\<rparr>)
      else if a = ''-O0'' then Some (\<lambda>x. x\<lparr>opt_level := 0, opt_size := False\<rparr>)
      else if a = ''-O1'' \<or> a = ''-O'' then Some (\<lambda>x. x\<lparr>opt_level := 1\<rparr>)
      else if a = ''-O2'' then Some (\<lambda>x. x\<lparr>opt_level := 2\<rparr>)
      else if a = ''-O3'' then Some (\<lambda>x. x\<lparr>opt_level := 3\<rparr>)
      else if a = ''-Os'' then Some (\<lambda>x. x\<lparr>opt_level := 2, opt_size := True\<rparr>)
      else if a = ''-fPIC'' then Some (\<lambda>x. x\<lparr>pic_level := 2\<rparr>)
      else if a = ''-fpic'' then Some (\<lambda>x. x\<lparr>pic_level := 1\<rparr>)
      else if a = ''-fPIE'' then Some (\<lambda>x. x\<lparr>pie_level := 2\<rparr>)
      else if a = ''-fpie'' then Some (\<lambda>x. x\<lparr>pie_level := 1\<rparr>)
      else if a = ''--emit-llvm'' then Some (\<lambda>x. x\<lparr>path_choice := LlvmPath\<rparr>)
      else None)"

text \<open>Options with a value; \<open>Inl\<close> is the exit status.\<close>

definition with_target :: "string \<Rightarrow> (target_profile \<Rightarrow> options) \<Rightarrow> nat + options" where
  "with_target v f = (case target_profile_from_triple v of Inl e \<Rightarrow> Inl 1 | Inr t \<Rightarrow> Inr (f t))"

definition value_option :: "string \<Rightarrow> (string \<Rightarrow> options \<Rightarrow> nat + options) option" where
  "value_option a =
     (if a = ''--mir-focus-function'' then Some (\<lambda>v x. Inr (x\<lparr>mir_focus_function := Some v\<rparr>))
      else if a = ''--mir-focus-block'' then Some (\<lambda>v x. Inr (x\<lparr>mir_focus_block := Some v\<rparr>))
      else if a = ''--mir-focus-value'' then
        Some (\<lambda>v x. Inr (x\<lparr>mir_focus_value := Some (normalize_debug_value_selector v)\<rparr>))
      else if a = ''--target'' then Some (\<lambda>v x. with_target v (\<lambda>t. x\<lparr>target_choice := t\<rparr>))
      else if a = ''--device-target'' then Some (\<lambda>v x. with_target v (\<lambda>t. x\<lparr>device_target := Some t\<rparr>))
      else if a = ''--host-out'' then Some (\<lambda>v x. Inr (x\<lparr>host_output := v\<rparr>))
      else if a = ''--device-out'' then Some (\<lambda>v x. Inr (x\<lparr>device_output := v\<rparr>))
      else if a = ''--backend-bir-stage'' then
        Some (\<lambda>v x. if v = ''prepared'' then Inr (x\<lparr>emit_semantic_bir := False\<rparr>)
                     else if v = ''semantic'' then Inr (x\<lparr>emit_semantic_bir := True\<rparr>)
                     else Inl 2)
      else if a = ''-D'' then Some (\<lambda>v x. Inr (x\<lparr>opt_defines := opt_defines x @ [v]\<rparr>))
      else if a = ''-U'' then Some (\<lambda>v x. Inr (x\<lparr>opt_undefines := opt_undefines x @ [v]\<rparr>))
      else if a = ''-I'' then Some (\<lambda>v x. Inr (x\<lparr>opt_include_paths := opt_include_paths x @ [v]\<rparr>))
      else if a = ''-iquote'' then Some (\<lambda>v x. Inr (x\<lparr>opt_quote_paths := opt_quote_paths x @ [v]\<rparr>))
      else if a = ''-isystem'' then Some (\<lambda>v x. Inr (x\<lparr>opt_system_paths := opt_system_paths x @ [v]\<rparr>))
      else if a = ''-idirafter'' then Some (\<lambda>v x. Inr (x\<lparr>opt_after_paths := opt_after_paths x @ [v]\<rparr>))
      else if a = ''--codegen'' then
        Some (\<lambda>v x. if v = ''llvm'' then Inr (x\<lparr>path_choice := LlvmPath\<rparr>)
                     else if v = ''asm'' then Inr (x\<lparr>path_choice := LirPath\<rparr>)
                     else if v = ''obj'' then Inr (x\<lparr>path_choice := ObjPath\<rparr>)
                     else if v = ''compare'' then Inr (x\<lparr>path_choice := ComparePath\<rparr>)
                     else Inl 2)
      else None)"

text \<open>Options with the value attached.\<close>

definition joined_option :: "string \<Rightarrow> (options \<Rightarrow> options) option" where
  "joined_option a =
     (if length a \<le> 2 then None
      else if take 2 a = ''-D'' then Some (\<lambda>x. x\<lparr>opt_defines := opt_defines x @ [drop 2 a]\<rparr>)
      else if take 2 a = ''-U'' then Some (\<lambda>x. x\<lparr>opt_undefines := opt_undefines x @ [drop 2 a]\<rparr>)
      else if take 2 a = ''-I'' then Some (\<lambda>x. x\<lparr>opt_include_paths := opt_include_paths x @ [drop 2 a]\<rparr>)
      else None)"

function parse_args :: "options \<Rightarrow> string list \<Rightarrow> nat + options" where
  "parse_args x [] = Inr x"
| "parse_args x (a # as) =
     (case flag_option a of
        Some f \<Rightarrow> parse_args (f x) as
      | None \<Rightarrow>
          if a = ''-o'' then parse_args (if as \<noteq> [] then x\<lparr>out_path := hd as\<rparr> else x) (tl as)
          else
            case (if as = [] then None else value_option a) of
              Some f \<Rightarrow> (case f (hd as) x of Inl e \<Rightarrow> Inl e | Inr x \<Rightarrow> parse_args x (tl as))
            | None \<Rightarrow>
                (case joined_option a of
                   Some f \<Rightarrow> parse_args (f x) as
                 | None \<Rightarrow>
                     if a = ''--help'' \<or> a = ''-h'' then Inl 0
                     else if a \<noteq> [] \<and> hd a = CHR ''-'' then Inl 2
                     else parse_args (x\<lparr>input := a\<rparr>) as))"
  by pat_completeness auto
termination by (relation "measure (\<lambda>(_, as). length as)") (auto simp: less_Suc_eq_le split: if_splits)

declare parse_args.simps(2) [simp del]

section \<open>Checks\<close>

text \<open>
  The parts of a path (\<open>std::filesystem::path\<close>): the name behind the last slash, its stem, which
  ends at the last dot that does not begin the name, and the directory without trailing slashes.
\<close>

definition path_filename :: "string \<Rightarrow> string" where
  "path_filename p = rev (takeWhile (\<lambda>c. c \<noteq> CHR ''/'') (rev p))"

definition path_directory :: "string \<Rightarrow> string" where
  "path_directory p = take (length p - length (path_filename p)) p"

definition path_stem :: "string \<Rightarrow> string" where
  "path_stem p =
     (let name = path_filename p;
          before = rev (tl (dropWhile (\<lambda>c. c \<noteq> CHR ''.'') (rev name))) in
      if name = ''.'' \<or> name = ''..'' \<or> CHR ''.'' \<notin> set name \<or> before = [] then name else before)"

definition parent_path :: "string \<Rightarrow> string" where
  "parent_path p =
     (let dir = rev (dropWhile (\<lambda>c. c = CHR ''/'') (rev (path_directory p))) in
      if dir = [] \<and> path_directory p \<noteq> [] then ''/'' else dir)"

definition join_path :: "string \<Rightarrow> string \<Rightarrow> string" where
  "join_path dir name = (if dir = [] then name else if last dir = CHR ''/'' then dir @ name else dir @ ''/'' @ name)"

definition default_split_host_output_path :: "string \<Rightarrow> string" where
  "default_split_host_output_path p = path_directory p @ path_stem p @ ''.ll''"

definition default_split_device_output_path :: "string \<Rightarrow> string" where
  "default_split_device_output_path p = join_path (parent_path p) (path_stem p @ ''.device.ll'')"

definition mode_count :: "options \<Rightarrow> nat" where
  "mode_count x =
     length (filter id [pp_only x, lex_only x, parse_only x, dump_hir x, dump_hir_summary x, dump_canonical x,
       dump_bir x, dump_prepared_bir x, dump_mir x, trace_mir x])"

definition dumps :: "options \<Rightarrow> bool" where
  "dumps x = (dump_bir x \<or> dump_prepared_bir x \<or> dump_mir x \<or> trace_mir x)"

definition check_split :: "options \<Rightarrow> nat + options" where
  "check_split x =
     (if \<not> emit_split_llvm x then Inr x
      else if device_target x = None then Inl 2
      else if path_choice x \<noteq> LlvmPath then Inl 2
      else if out_path x \<noteq> [] then Inl 2
      else Inr (x\<lparr>host_output := (if host_output x = [] then default_split_host_output_path (input x) else host_output x),
                  device_output := (if device_output x = [] then default_split_device_output_path (input x)
                                    else device_output x)\<rparr>))"

definition bad_combination :: "bool \<Rightarrow> options \<Rightarrow> bool" where
  "bad_combination backend x =
     (emit_semantic_bir x \<and> path_choice x \<noteq> LirPath \<or>
      path_choice x = ObjPath \<and> out_path x = [] \<or>
      1 < mode_count x \<or>
      dumps x \<and> emit_semantic_bir x \<or>
      mir_focus_function x \<noteq> None \<and> \<not> dumps x \<or>
      mir_focus_block x \<noteq> None \<and> \<not> dumps x \<or>
      mir_focus_block x \<noteq> None \<and> mir_focus_function x = None \<or>
      mir_focus_value x \<noteq> None \<and> \<not> dumps x \<or>
      mir_focus_value x \<noteq> None \<and> mir_focus_function x = None \<or>
      0 < pic_level x \<and> 0 < pie_level x \<or>
      \<not> backend \<and> (dumps x \<or> mir_focus_function x \<noteq> None \<or> mir_focus_block x \<noteq> None \<or> mir_focus_value x \<noteq> None \<or>
        emit_semantic_bir x \<or> path_choice x \<noteq> LlvmPath))"

definition set_relocation :: "options \<Rightarrow> options" where
  "set_relocation x =
     (let apply_model = (\<lambda>m. x\<lparr>target_choice := (target_choice x)\<lparr>relocation_model := m\<rparr>,
                          device_target := map_option (\<lambda>t. t\<lparr>relocation_model := m\<rparr>) (device_target x)\<rparr>) in
      if 0 < pic_level x then apply_model Pic
      else if 0 < pie_level x then apply_model Pie
      else x)"

definition check_options :: "bool \<Rightarrow> options \<Rightarrow> nat + options" where
  "check_options backend x =
     (if input x = [] then Inl 1
      else case check_split x of
             Inl e \<Rightarrow> Inl e
           | Inr x \<Rightarrow> if bad_combination backend x then Inl 2 else Inr (set_relocation x))"

section \<open>Default search paths\<close>

record operating_system =
  getenv :: "string \<Rightarrow> string option"
  is_directory :: "string \<Rightarrow> bool"
  directory_entries :: "string \<Rightarrow> string list"

text \<open>The directories found so far; one is only added when it is not there yet.\<close>

definition append_default_include_path :: "operating_system \<Rightarrow> string \<Rightarrow> string list \<Rightarrow> string list" where
  "append_default_include_path sys path out =
     (if path = [] \<or> \<not> is_directory sys path \<or> path \<in> set out then out else out @ [path])"

function split_colons :: "string \<Rightarrow> string list" where
  "split_colons s =
     (let part = takeWhile (\<lambda>c. c \<noteq> CHR '':'') s in
      if part = s then [part] else part # split_colons (drop (length part + 1) s))"
  by pat_completeness auto
termination
proof (relation "measure length")
  fix s :: string and part
  assume "part = takeWhile (\<lambda>c. c \<noteq> CHR '':'') s" "part \<noteq> s"
  then show "(drop (length part + 1) s, s) \<in> measure length"
    by (cases s) (auto simp: less_Suc_eq_le)
qed simp

declare split_colons.simps [simp del]

definition append_env_include_paths :: "operating_system \<Rightarrow> string \<Rightarrow> string list \<Rightarrow> string list" where
  "append_env_include_paths sys name out =
     (case getenv sys name of
        None \<Rightarrow> out
      | Some v \<Rightarrow> if v = [] then out else fold (append_default_include_path sys) (split_colons v) out)"

definition append_sdk_include_paths :: "operating_system \<Rightarrow> string \<Rightarrow> string list \<Rightarrow> string list" where
  "append_sdk_include_paths sys root out =
     (if root = [] then out
      else append_default_include_path sys (root @ ''/usr/include'')
             (append_default_include_path sys (root @ ''/usr/include/c++/v1'') out))"

definition arch_directories :: "operating_system \<Rightarrow> string list" where
  "arch_directories sys =
     (if is_directory sys ''/usr/include''
      then filter (\<lambda>p. is_directory sys p \<and> contains_text ''-linux-gnu'' (path_filename p))
             (directory_entries sys ''/usr/include'')
      else [])"

definition cpp_directories :: "operating_system \<Rightarrow> string list" where
  "cpp_directories sys =
     (if is_directory sys ''/usr/include/c++''
      then concat (map (\<lambda>v. [v, v @ ''/backward''] @ map (\<lambda>a. a @ ''/c++/'' @ path_filename v) (arch_directories sys))
             (filter (is_directory sys) (directory_entries sys ''/usr/include/c++'')))
      else [])"

definition is_cpp :: "source_profile \<Rightarrow> bool" where
  "is_cpp p = (p = ProfileCppSubset \<or> p = ProfileC4)"

definition seed_default_system_include_paths ::
  "operating_system \<Rightarrow> build_host \<Rightarrow> source_profile \<Rightarrow> string list \<Rightarrow> string list" where
  "seed_default_system_include_paths sys host p out =
     (let out = append_env_include_paths sys ''CPATH'' out;
          out = append_env_include_paths sys (if is_cpp p then ''CPLUS_INCLUDE_PATH'' else ''C_INCLUDE_PATH'') out;
          out = fold (append_default_include_path sys)
            ([''/usr/local/include'', ''/usr/include''] @ arch_directories sys @ (if is_cpp p then cpp_directories sys else [])) out in
      if host_apple host then
        append_default_include_path sys ''/Library/Developer/CommandLineTools/usr/include''
          (append_sdk_include_paths sys
             ''/Applications/Xcode.app/Contents/Developer/Platforms/MacOSX.platform/Developer/SDKs/MacOSX.sdk''
             (append_sdk_include_paths sys ''/Library/Developer/CommandLineTools/SDKs/MacOSX.sdk''
                (append_sdk_include_paths sys (case getenv sys ''SDKROOT'' of None \<Rightarrow> [] | Some r \<Rightarrow> r) out)))
      else out)"

section \<open>From the command line to the tokens\<close>

definition configure_preprocessor :: "options \<Rightarrow> string list \<Rightarrow> preprocessor \<Rightarrow> preprocessor" where
  "configure_preprocessor x system_paths st =
     (let st = (if 0 < opt_level x then undefine_macro ''__NO_INLINE__'' (define_macro ''__OPTIMIZE__'' st) else st);
          st = (if opt_size x then define_macro ''__OPTIMIZE_SIZE__'' st else st);
          st = (if 0 < pic_level x
                then define_macro (''__pic__='' @ show_nat (pic_level x)) (define_macro (''__PIC__='' @ show_nat (pic_level x)) st)
                else st);
          st = (if 0 < pie_level x
                then define_macro (''__pie__='' @ show_nat (pie_level x)) (define_macro (''__PIE__='' @ show_nat (pie_level x)) st)
                else st);
          st = fold define_macro (opt_defines x) st;
          st = fold undefine_macro (opt_undefines x) st;
          st = fold add_include_path (opt_include_paths x) st;
          st = fold add_quote_include_path (opt_quote_paths x) st;
          st = fold add_system_include_path system_paths st in
      fold add_after_include_path (opt_after_paths x) st)"

text \<open>The program ends with a status and its output, or goes on to the parser.\<close>

datatype driver_outcome = Exit nat string | ToParser "token list" lexer

definition token_line :: "lexer \<Rightarrow> token \<Rightarrow> string" where
  "token_line l t =
     token_kind_name (kind t) @ '' '' @ [SQ] @ (if text_id t \<noteq> 0 then sit_lookup (text_table l) (text_id t) else []) @ [SQ] @
     '' @'' @ show_nat (tok_line t) @ '':'' @ show_nat (tok_column t) @ [LF]"

definition lex_phase :: "(string \<Rightarrow> u64) \<Rightarrow> options \<Rightarrow> string \<Rightarrow> preprocessor \<Rightarrow> driver_outcome" where
  "lex_phase hash x src st =
     (if errors st \<noteq> [] then Exit 1 []
      else if pp_only x then Exit 0 src
      else
        let (tokens, l) = scan_all hash (new_lexer src (lex_profile_from (source_profile_from_extension (input x)))) in
        if lex_only x then Exit 0 (concat (map (token_line l) tokens)) else ToParser tokens l)"

text \<open>\<open>None\<close> of \<open>preprocess_file\<close> and the oversized line number are exceptions.\<close>

definition front_end ::
  "pp_env \<Rightarrow> operating_system \<Rightarrow> (string \<Rightarrow> u64) \<Rightarrow> options \<Rightarrow> driver_outcome result" where
  "front_end env sys hash x =
     (let p = source_profile_from_extension (input x);
          paths = seed_default_system_include_paths sys (env_host env) p (opt_system_paths x) in
      case new_preprocessor (env_host env) of
        Inl e \<Rightarrow> Inr (Exit 1 [])
      | Inr st \<Rightarrow>
          (case set_target_profile (env_host env) (target_choice x) st of
             Inl e \<Rightarrow> Inr (Exit 1 [])
           | Inr st \<Rightarrow>
               (case preprocess_file env (input x) (configure_preprocessor x paths (set_source_profile p st)) of
                  None \<Rightarrow> Inr (Exit 1 [])
                | Some r \<Rightarrow>
                    (case r of
                       Inl OutOfLevels \<Rightarrow> Inl OutOfLevels
                     | Inl LineNumberOutOfRange \<Rightarrow> Inr (Exit 1 [])
                     | Inr (src, st) \<Rightarrow> Inr (lex_phase hash x src st)))))"

definition main :: "pp_env \<Rightarrow> operating_system \<Rightarrow> bool \<Rightarrow> (string \<Rightarrow> u64) \<Rightarrow> string list \<Rightarrow> driver_outcome result" where
  "main env sys backend hash args =
     (if args = [] then Inr (Exit 1 [])
      else if args = [''--help''] \<or> args = [''-h''] then Inr (Exit 0 [])
      else if args = [''--version''] then Inr (Exit 0 (''tiny-c2ll frontend_cxx next'' @ [LF]))
      else
        case host_profile (env_host env) of
          Inl e \<Rightarrow> Inr (Exit 1 [])
        | Inr t \<Rightarrow>
            (case parse_args (default_options t) args of
               Inl status \<Rightarrow> Inr (Exit status [])
             | Inr x \<Rightarrow>
                 (case check_options backend x of
                    Inl status \<Rightarrow> Inr (Exit status [])
                  | Inr x \<Rightarrow> front_end env sys hash x)))"

end
