(* ===== verification/PP_Expand_Correct.thy ===== *)
theory PP_Expand_Correct
  imports PP_Expand
begin

text \<open>
  Macro expansion returns: with enough levels \<open>expand_text\<close> has a result, the same for every larger
  number, in every state whose table is well formed. Each nested call either works on a shorter
  text, with the same names disabled, or disables one more of finitely many names.
\<close>

section \<open>Results that no longer depend on the bound\<close>

definition converges :: "(expander \<Rightarrow> 'a option) \<Rightarrow> 'a \<Rightarrow> bool" where
  "converges F x = (\<exists>n. \<forall>m \<ge> n. F (expand_text m) = Some x)"

lemma converges_const [simp]: "converges (\<lambda>r. Some x) y \<longleftrightarrow> x = y"
  by (auto simp: converges_def)

lemma converges_bind:
  assumes "converges F x" "converges (\<lambda>r. G r x) y"
  shows "converges (\<lambda>r. Option.bind (F r) (G r)) y"
proof -
  from assms obtain n1 n2 where "\<forall>m \<ge> n1. F (expand_text m) = Some x" "\<forall>m \<ge> n2. G (expand_text m) x = Some y"
    unfolding converges_def by blast
  then have "\<forall>m \<ge> max n1 n2. Option.bind (F (expand_text m)) (G (expand_text m)) = Some y" by simp
  then show ?thesis unfolding converges_def by blast
qed

lemma converges_text:
  assumes "converges (\<lambda>r. expand_loop r disabled live [] no_flags t st) x"
  shows "converges (\<lambda>r. r t disabled live st) x"
proof -
  from assms obtain n where n: "\<forall>m \<ge> n. expand_loop (expand_text m) disabled live [] no_flags t st = Some x"
    unfolding converges_def by blast
  have "expand_text m t disabled live st = Some x" if "Suc n \<le> m" for m
    using that n by (cases m) auto
  then show ?thesis unfolding converges_def by blast
qed

section \<open>Sizes of the pieces\<close>

lemma trim_copy_length: "length (trim_copy s) \<le> length s"
  unfolding trim_copy_def
  by (metis length_dropWhile_le length_rev le_trans)

lemma quoted_step_bound:
  "quoted_step s t cur c cs = (s', t', cur', r) \<Longrightarrow> length cur' + length r = length cur + Suc (length cs)"
  by (cases cs; cases "tl cs") (auto simp: quoted_step_def Let_def split: if_splits)

lemma collect_round_bound:
  "collect_round (d, s, t, args, cur) c cs = Inr ((d', s', t', args', cur'), r) \<Longrightarrow>
     length cur' + length r \<le> length cur + Suc (length cs) \<and> (args' = args \<or> args' = args @ [cur])"
  by (auto simp: collect_round_def Let_def dest: quoted_step_bound split: if_splits prod.splits)

lemma collect_loop_bound:
  "a \<in> set (fst (collect_loop (d, s, t, args, cur) x)) \<Longrightarrow>
     a \<in> set args \<or> length a \<le> length cur + length x"
proof (induction x arbitrary: d s t args cur rule: length_induct)
  case (1 x)
  show ?case
  proof (cases x)
    case Nil
    with 1(2) show ?thesis by (auto split: if_splits)
  next
    case (Cons c cs)
    show ?thesis
    proof (cases "collect_round (d, s, t, args, cur) c cs")
      case (Inl res)
      then have "fst res = args @ [cur]"
        by (auto simp: collect_round_def Let_def split: if_splits prod.splits)
      with 1(2) Cons Inl show ?thesis by auto
    next
      case (Inr nx)
      obtain d' s' t' args' cur' r where eq: "nx = ((d', s', t', args', cur'), r)" by (cases nx) auto
      have b: "length cur' + length r \<le> length cur + length x" "args' = args \<or> args' = args @ [cur]"
        using collect_round_bound [of d s t args cur c cs] Inr eq Cons by auto
      have "length r < length x" using collect_round_length(1) Inr eq Cons by fastforce
      moreover have "a \<in> set (fst (collect_loop (d', s', t', args', cur') r))" using 1(2) Cons Inr eq by simp
      ultimately have "a \<in> set args' \<or> length a \<le> length cur' + length r" using 1(1) by blast
      with b show ?thesis by auto
    qed
  qed
qed

lemma collect_args_bound: "a \<in> set (fst (collect_funclike_args k)) \<Longrightarrow> length a \<le> length k"
  using collect_loop_bound [of a 0 False False "[]" "[]" k] by (simp add: collect_funclike_args_def)

lemma pragma_argument_split: "fst (pragma_argument d a b s) @ snd (pragma_argument d a b s) = s"
proof (induction d a b s rule: pragma_argument.induct)
  case (2 depth in_s in_c c cs)
  then show ?case by (auto simp: Let_def split_beta)
qed simp

lemma pragma_argument_bound: "length (fst (pragma_argument d a b s)) \<le> length s"
  using pragma_argument_split [of d a b s] by (metis length_append le_add1)

lemma normalise_args_subset: "set (normalise_args d raw) \<subseteq> set raw"
  by (simp add: normalise_args_def)

section \<open>Every call settles\<close>

text \<open>
  The states met have a well-formed table over the names of \<open>K\<close>. Texts shorter than \<open>L\<close> settle
  under the disabled names, and every text settles once another name of \<open>K\<close> is disabled.
\<close>

definition state_ok :: "string set \<Rightarrow> preprocessor \<Rightarrow> bool" where
  "state_ok K st = (macros_wf st \<and> known_names st \<subseteq> K)"

definition settles :: "('a \<Rightarrow> bool) \<Rightarrow> (expander \<Rightarrow> 'a option) \<Rightarrow> bool" where
  "settles P F = (\<exists>x. converges F x \<and> P x)"

abbreviation ok2 :: "string set \<Rightarrow> 'a \<times> preprocessor \<Rightarrow> bool" where
  "ok2 K \<equiv> \<lambda>(x, st). state_ok K st"

abbreviation ok3 :: "string set \<Rightarrow> nat \<Rightarrow> 'a \<times> string \<times> preprocessor \<Rightarrow> bool" where
  "ok3 K n \<equiv> \<lambda>(x, r, st). length r \<le> n \<and> state_ok K st"

abbreviation ok4 :: "string set \<Rightarrow> nat \<Rightarrow> 'a \<times> 'b \<times> string \<times> preprocessor \<Rightarrow> bool" where
  "ok4 K n \<equiv> \<lambda>(x, y, r, st). length r \<le> n \<and> state_ok K st"

lemma settles_const [simp]: "settles P (\<lambda>r. Some x) = P x"
  by (auto simp: settles_def)

lemma settles_if [simp]: "settles P (\<lambda>r. if b then F r else G r) = (if b then settles P F else settles P G)"
  by simp

lemma settles_bind:
  assumes "settles P F" "\<And>x. P x \<Longrightarrow> settles Q (\<lambda>r. G r x)"
  shows "settles Q (\<lambda>r. Option.bind (F r) (G r))"
proof -
  from assms(1) obtain x where x: "converges F x" "P x" unfolding settles_def by blast
  from assms(2) [OF x(2)] obtain y where "converges (\<lambda>r. G r x) y" "Q y" unfolding settles_def by blast
  with converges_bind [of F x G y, OF x(1)] show ?thesis unfolding settles_def by blast
qed

lemma settles_case:
  assumes "settles P F" "\<And>x. P x \<Longrightarrow> settles Q (\<lambda>r. G r x)"
  shows "settles Q (\<lambda>r. case F r of None \<Rightarrow> None | Some x \<Rightarrow> G r x)"
proof -
  have "(case F r of None \<Rightarrow> None | Some z \<Rightarrow> G r z) = Option.bind (F r) (G r)" for r
    by (cases "F r") simp_all
  with settles_bind [of P F Q G, OF assms] show ?thesis by simp
qed

lemma state_ok_keeps: "state_ok K st \<Longrightarrow> keeps_names st st' \<Longrightarrow> state_ok K st'"
  by (auto simp: state_ok_def keeps_names_def)

lemma state_ok_name: "state_ok K st \<Longrightarrow> macros st w = Some d \<Longrightarrow> macro_name d = w \<and> w \<in> K"
  by (auto simp: state_ok_def known_names_def dest: macros_wf_name)

definition texts_settle :: "string set \<Rightarrow> string set \<Rightarrow> nat \<Rightarrow> bool" where
  "texts_settle K disabled L =
     ((\<forall>t live st. length t < L \<longrightarrow> state_ok K st \<longrightarrow> settles (ok2 K) (\<lambda>r. r t disabled live st)) \<and>
      (\<forall>w t live st. w \<in> K - disabled \<longrightarrow> state_ok K st \<longrightarrow> settles (ok2 K) (\<lambda>r. r t (insert w disabled) live st)))"

lemma shorter_settles:
  "texts_settle K disabled L \<Longrightarrow> length t < L \<Longrightarrow> state_ok K st \<Longrightarrow> settles (ok2 K) (\<lambda>r. r t disabled live st)"
  by (simp add: texts_settle_def)

lemma disabled_settles:
  "texts_settle K disabled L \<Longrightarrow> w \<in> K \<Longrightarrow> w \<notin> disabled \<Longrightarrow> state_ok K st \<Longrightarrow>
     settles (ok2 K) (\<lambda>r. r t (insert w disabled) live st)"
  by (simp add: texts_settle_def)

lemma args_settle:
  "texts_settle K disabled L \<Longrightarrow> \<forall>a \<in> set as. length a < L \<Longrightarrow> state_ok K st \<Longrightarrow>
     settles (ok2 K) (\<lambda>r. expand_args r disabled live as st)"
proof (induction as arbitrary: st)
  case (Cons a as)
  have "length (trim_copy a) < L" using Cons.prems(2) trim_copy_length [of a] by auto
  from shorter_settles [OF Cons.prems(1) this Cons.prems(3)] show ?case
    unfolding expand_args.simps
  proof (rule settles_bind, clarify)
    fix e st'
    assume "state_ok K st'"
    with Cons have "settles (ok2 K) (\<lambda>r. expand_args r disabled live as st')" by simp
    then show "settles (ok2 K) (\<lambda>r. do { (es, st) \<leftarrow> expand_args r disabled live as st'; Some (e # es, st) })"
      by (rule settles_bind) auto
  qed
qed simp

lemma call_settles:
  assumes "texts_settle K disabled L" "\<forall>a \<in> set raw. length a < L" "state_ok K st"
    "macro_name d \<in> K" "macro_name d \<notin> disabled"
  shows "settles (ok2 K) (\<lambda>r. expand_funclike_call r d raw disabled live st)"
proof -
  have rest: "\<forall>a \<in> set (if variadic d then drop (length (params d)) raw else []). length a < L"
    using assms(2) by (auto dest: in_set_dropD)
  show ?thesis
    unfolding expand_funclike_call_def Let_def
  proof (rule settles_bind [OF args_settle [OF assms(1-3)]], clarify)
    fix es st'
    assume st': "state_ok K st'"
    show "settles (ok2 K) (\<lambda>r. do {
        (rest_expanded, st) \<leftarrow> expand_args r disabled (insert (macro_name d) live)
          (if variadic d then drop (length (params d)) raw else []) st';
        r (substitute_funclike_body
             \<lparr>call_params = params d, raw_args = raw, exp_args = es, call_variadic = variadic d,
              va_raw = join_with '','' (if variadic d then drop (length (params d)) raw else []),
              va_exp = join_with '', '' rest_expanded, call_va_name = va_name d\<rparr> (body d))
          (insert (macro_name d) disabled) live st })"
      by (rule settles_bind [OF args_settle [OF assms(1) rest st']])
        (auto intro: disabled_settles [OF assms(1,4,5)])
  qed
qed

lemma chained_macro_name:
  "state_ok K st \<Longrightarrow> chained_macro e disabled st = Some d \<Longrightarrow> macro_name d \<in> K \<and> macro_name d \<notin> disabled"
  by (auto simp: chained_macro_def dest: state_ok_name split: option.splits if_splits)

lemma call_args_short:
  "blanks_then (CHR ''('') j = Some k \<Longrightarrow> length j \<le> L \<Longrightarrow>
     \<forall>a \<in> set (normalise_args d (fst (collect_funclike_args k))). length a < L"
proof
  fix a
  assume a: "blanks_then (CHR ''('') j = Some k" "length j \<le> L"
    "a \<in> set (normalise_args d (fst (collect_funclike_args k)))"
  have "length a \<le> length k" using collect_args_bound a(3) normalise_args_subset by blast
  with blanks_then_length [OF a(1)] a(2) show "length a < L" by simp
qed

lemma call_rest_short:
  "blanks_then (CHR ''('') j = Some k \<Longrightarrow> length (snd (collect_funclike_args k)) < length j"
  using collect_args_length [of k] blanks_then_length [of "CHR ''(''" j k] by (metis le_less_trans prod.collapse)

lemma chain_settles:
  assumes "texts_settle K disabled L"
  shows "length k \<le> L \<Longrightarrow> state_ok K st \<Longrightarrow> settles (ok3 K (length k)) (\<lambda>r. chain_calls r disabled live e k st)"
proof (induction k arbitrary: e st rule: length_induct)
  case (1 k)
  show ?case
  proof (cases "chained_macro e disabled st = None \<or> blanks_then (CHR ''('') k = None")
    case True
    then have "chain_calls r disabled live e k st = Some (e, k, st)" for r
      by (subst chain_calls.simps) (auto split: option.splits)
    with 1 show ?thesis by simp
  next
    case False
    then obtain d p where dp: "chained_macro e disabled st = Some d" "blanks_then (CHR ''('') k = Some p" by auto
    let ?raw = "normalise_args d (fst (collect_funclike_args p))" and ?k = "snd (collect_funclike_args p)"
    have d: "macro_name d \<in> K" "macro_name d \<notin> disabled" using chained_macro_name [OF _ dp(1)] 1 by auto
    have eq: "chain_calls r disabled live e k st =
        (case expand_funclike_call r d ?raw disabled live st of
           None \<Rightarrow> None | Some x \<Rightarrow> (case x of (e, st') \<Rightarrow> chain_calls r disabled live e ?k st'))" for r
      by (subst chain_calls.simps) (simp add: dp)
    have "settles (ok2 K) (\<lambda>r. expand_funclike_call r d ?raw disabled live st)"
      using call_settles [OF assms call_args_short [OF dp(2)] _ d] 1 by simp
    then show ?thesis
      unfolding eq
    proof (rule settles_case, clarify)
      fix x st'
      assume "state_ok K st'"
      with 1 call_rest_short [OF dp(2)] have "settles (ok3 K (length ?k)) (\<lambda>r. chain_calls r disabled live x ?k st')"
        by simp
      then show "settles (ok3 K (length k)) (\<lambda>r. chain_calls r disabled live x ?k st')"
        using call_rest_short [OF dp(2)] unfolding settles_def by fastforce
    qed
  qed
qed

lemma pragma_settles:
  assumes "texts_settle K disabled L" "length j \<le> L" "state_ok K st"
  shows "settles (ok3 K (length j)) (\<lambda>r. expand_pragma r disabled live out j st)"
proof (cases "blanks_then (CHR ''('') j")
  case None
  with assms show ?thesis by (simp add: expand_pragma_def)
next
  case (Some k)
  let ?s = "dropWhile is_space_or_tab k"
  let ?raw = "fst (pragma_argument 1 False False ?s)" and ?k = "snd (pragma_argument 1 False False ?s)"
  have s: "length ?s < length j" using blanks_then_length [OF Some] length_dropWhile_le [of is_space_or_tab k] by simp
  have raw: "length ?raw < L" using s pragma_argument_bound [of 1 False False ?s] assms(2) by simp
  have k: "length (tl ?k) \<le> length j"
    using s pragma_argument_length [of 1 False False ?s] by (simp add: length_tl)
  show ?thesis
  proof (cases "?k = []")
    case True
    with Some assms show ?thesis by (simp add: expand_pragma_def split_beta)
  next
    case False
    have eq: "expand_pragma r disabled live out j st =
        Option.bind (r ?raw disabled live st) (\<lambda>(expanded, st).
          case blanks_then DQ expanded of
            None \<Rightarrow> Some (out @ ''_Pragma'', j, st)
          | Some content \<Rightarrow> Some (out @ fst (process_pragma_text live (destringize content) st), tl ?k,
              snd (process_pragma_text live (destringize content) st)))" for r
      using False Some by (simp add: expand_pragma_def split_def Let_def cong: option.case_cong)
    show ?thesis
      unfolding eq
    proof (rule settles_bind [OF shorter_settles [OF assms(1) raw assms(3)]], clarify)
      fix e st'
      assume ok: "state_ok K st'"
      show "settles (ok3 K (length j)) (\<lambda>r. case blanks_then DQ e of
            None \<Rightarrow> Some (out @ ''_Pragma'', j, st')
          | Some content \<Rightarrow> Some (out @ fst (process_pragma_text live (destringize content) st'), tl ?k,
              snd (process_pragma_text live (destringize content) st')))"
        using ok k state_ok_keeps [OF ok process_pragma_text_keeps] by (cases "blanks_then DQ e") simp_all
    qed
  qed
qed

lemma function_macro_settles:
  assumes "texts_settle K disabled L" "length j \<le> L" "state_ok K st" "macro_name d \<in> K" "macro_name d \<notin> disabled"
  shows "settles (ok3 K (length j)) (\<lambda>r. expand_function_macro r disabled live out ident d j st)"
proof (cases "blanks_then (CHR ''('') j")
  case None
  with assms show ?thesis by (simp add: expand_function_macro_def)
next
  case (Some k)
  let ?k = "snd (collect_funclike_args k)"
  have k: "length ?k \<le> length j" "length ?k \<le> L" using call_rest_short [OF Some] assms(2) by simp_all
  have eq: "expand_function_macro r disabled live out ident d j st =
      Option.bind (expand_funclike_call r d (normalise_args d (fst (collect_funclike_args k))) disabled live st)
        (\<lambda>(e, st). Option.bind (chain_calls r disabled live e ?k st) (\<lambda>(e, k, st). Some (guarded_append out e k, k, st)))" for r
    using Some by (simp add: expand_function_macro_def split_beta)
  show ?thesis
    unfolding eq
  proof (rule settles_bind [OF call_settles [OF assms(1) call_args_short [OF Some assms(2)] assms(3-5)]], clarify)
    fix e st'
    assume "state_ok K st'"
    from chain_settles [OF assms(1) k(2) this]
    show "settles (ok3 K (length j)) (\<lambda>r. Option.bind (chain_calls r disabled live e ?k st')
        (\<lambda>(e, k, st). Some (guarded_append out e k, k, st)))"
      by (rule settles_bind) (use k(1) in auto)
  qed
qed

lemma object_macro_settles:
  assumes "texts_settle K disabled L" "state_ok K st" "ident \<in> K" "ident \<notin> disabled"
  shows "settles (ok3 K (length j)) (\<lambda>r. expand_object_macro r disabled live out ident d j st)"
proof -
  have "settles (ok3 K (length j)) (\<lambda>r. do {
      (expanded, st) \<leftarrow> r (body d) (insert ident disabled) (insert ident live) st;
      Some (guarded_append out expanded j, j, st) })"
    by (rule settles_bind [OF disabled_settles [OF assms(1,3,4,2)]]) auto
  moreover have "state_ok K (st\<lparr>counter := c\<rparr>)" for c
    using state_ok_keeps [OF assms(2) keeps_names_same] by simp
  ultimately show ?thesis using assms(2) by (simp add: expand_object_macro_def)
qed

lemma ident_settles:
  assumes "texts_settle K disabled L" "length j \<le> L" "state_ok K st"
  shows "settles (ok3 K (length j)) (\<lambda>r. expand_ident r disabled live out w j st)"
proof (cases "macros st w")
  case None
  with pragma_settles [OF assms, of live out] assms(3) show ?thesis
    by (cases "w = ''_Pragma''") (simp_all add: expand_ident_def)
next
  case (Some d)
  with state_ok_name [OF assms(3)] have d: "macro_name d = w" "w \<in> K" by auto
  show ?thesis
    using Some d pragma_settles [OF assms, of live out] assms(3)
      function_macro_settles [OF assms, of d live out w] object_macro_settles [OF assms(1,3), of w j live out d]
    by (cases "w = ''_Pragma''"; cases "w \<in> disabled"; cases "function_like d") (simp_all add: expand_ident_def)
qed

lemma step_settles:
  assumes "texts_settle K disabled L" "length cs < L" "state_ok K st"
  shows "settles (ok4 K (length cs)) (\<lambda>r. expand_step r disabled live out f c cs st)"
proof -
  let ?j = "dropWhile is_ident_continue cs"
  have j: "length ?j \<le> length cs" by (rule length_dropWhile_le)
  have "settles (ok4 K (length cs)) (\<lambda>r. case expand_ident r disabled live out (takeWhile is_ident_continue (c # cs)) ?j st of
      None \<Rightarrow> None | Some x \<Rightarrow> (case x of (out, r, st) \<Rightarrow> Some (out, f\<lparr>after_backslash := False\<rparr>, r, st)))"
    by (rule settles_case [OF ident_settles [OF assms(1) _ assms(3)]]) (use j assms(2) in auto)
  with pp_number_shorter [of c cs] assms(3) show ?thesis by (simp add: expand_step_def split_beta)
qed

lemma loop_settles:
  assumes "texts_settle K disabled L"
  shows "length t \<le> L \<Longrightarrow> state_ok K st \<Longrightarrow> settles (ok2 K) (\<lambda>r. expand_loop r disabled live out f t st)"
proof (induction t arbitrary: out f st rule: length_induct)
  case (1 t)
  show ?case
  proof (cases t)
    case (Cons c cs)
    then have len: "length cs < L" using 1(2) by simp
    show ?thesis
      unfolding Cons expand_loop.simps
    proof (rule settles_case [OF step_settles [OF assms len 1(3)]], clarify)
      fix out' f' and r :: string and st'
      assume "length r \<le> length cs" "state_ok K st'"
      with 1(1) Cons len show "settles (ok2 K) (\<lambda>rec. expand_loop rec disabled live out' f' r st')" by simp
    qed
  qed (use 1 in simp)
qed

lemma text_settles_step:
  assumes "texts_settle K disabled (length t)" "state_ok K st"
  shows "settles (ok2 K) (\<lambda>r. r t disabled live st)"
proof -
  from loop_settles [OF assms(1) order_refl assms(2)]
  obtain x where "converges (\<lambda>r. expand_loop r disabled live [] no_flags t st) x" "ok2 K x"
    unfolding settles_def by blast
  with converges_text show ?thesis unfolding settles_def by blast
qed

lemma text_settles:
  assumes "finite K"
  shows "state_ok K st \<Longrightarrow> settles (ok2 K) (\<lambda>r. r t disabled live st)"
proof (induction "card (K - disabled)" arbitrary: disabled t live st rule: less_induct)
  case (less disabled)
  have fewer: "settles (ok2 K) (\<lambda>r. r t (insert w disabled) live st)"
    if "w \<in> K - disabled" "state_ok K st" for w t live st
  proof (rule less.hyps [OF _ that(2)])
    have "K - insert w disabled \<subset> K - disabled" using that(1) by blast
    with assms show "card (K - insert w disabled) < card (K - disabled)" by (simp add: psubset_card_mono)
  qed
  show ?case
    using less.prems
  proof (induction t arbitrary: live st rule: length_induct)
    case (1 t)
    with fewer have "texts_settle K disabled (length t)" by (simp add: texts_settle_def)
    from text_settles_step [OF this 1(2)] show ?case .
  qed
qed

text \<open>
  C16: macro expansion always comes to an end: for every line and every state with a well-formed
  macro table there is a number of nested calls that suffices, and the result does not depend on
  it beyond that; the table stays well formed and gains no new name.
\<close>

theorem expand_line_returns:
  assumes "macros_wf st"
  shows "\<exists>N out st'. (\<forall>n \<ge> N. expand_line n line st = Some (out, st')) \<and> macros_wf st' \<and>
    known_names st' \<subseteq> known_names st"
proof -
  have "state_ok (known_names st) st" "finite (known_names st)"
    using assms macros_wf_finite by (auto simp: state_ok_def)
  from text_settles [OF this(2,1), of line "{}" "{}"] obtain out st' where
    "converges (\<lambda>r. r line {} {} st) (out, st')" "state_ok (known_names st) st'"
    unfolding settles_def by auto
  then show ?thesis unfolding converges_def expand_line_def state_ok_def by blast
qed

theorem expand_line_returns_witness:
  "\<exists>N out st'. (\<forall>n \<ge> N. expand_line n ''X''
      (set_macro ''X'' (object_macro ''X'' ''X + X'') (initial_state linux_target)) = Some (out, st'))"
  using expand_line_returns [of "set_macro ''X'' (object_macro ''X'' ''X + X'') (initial_state linux_target)" "''X''"]
  by (auto simp: set_macro_wf initial_state_wf object_macro_def)

section \<open>Text without macros\<close>

text \<open>The maximal runs of identifier characters.\<close>

function words :: "string \<Rightarrow> string list" where
  "words [] = []"
| "words (c # cs) =
     (if is_ident_continue c then takeWhile is_ident_continue (c # cs) # words (dropWhile is_ident_continue cs)
      else words cs)"
  by pat_completeness auto
termination by (relation "measure length") (auto simp: less_Suc_eq_le length_dropWhile_le)

definition inert :: "string set \<Rightarrow> preprocessor \<Rightarrow> string \<Rightarrow> bool" where
  "inert disabled st t = (\<forall>w \<in> set (words t). w \<noteq> ''_Pragma'' \<and> (macros st w = None \<or> w \<in> disabled))"

definition boundary :: "string \<Rightarrow> bool" where
  "boundary r = (r = [] \<or> \<not> is_ident_continue (hd r))"

lemma boundary_dropWhile [simp]: "boundary (dropWhile is_ident_continue s)"
  using hd_dropWhile [of is_ident_continue s] by (auto simp: boundary_def)

lemma words_append: "boundary r \<Longrightarrow> words (a @ r) = words a @ words r"
proof (induction a rule: words.induct)
  case (2 c cs)
  have "takeWhile is_ident_continue (cs @ r) = takeWhile is_ident_continue cs \<and>
      dropWhile is_ident_continue (cs @ r) = dropWhile is_ident_continue cs @ r"
  proof (cases "\<forall>x \<in> set cs. is_ident_continue x")
    case True
    then have "takeWhile is_ident_continue cs = cs" "dropWhile is_ident_continue cs = []"
      by (simp_all add: takeWhile_eq_all_conv dropWhile_eq_Nil_conv)
    with True "2.prems" show ?thesis
      by (cases r) (auto simp: boundary_def takeWhile_append_all dropWhile_append2, metis takeWhile_eq_all_conv)
  next
    case False
    then obtain x where "x \<in> set cs" "\<not> is_ident_continue x" by blast
    then show ?thesis by (simp add: takeWhile_append1 dropWhile_append1)
  qed
  with 2 show ?case by simp
qed simp

lemma inert_append: "boundary r \<Longrightarrow> inert disabled st (a @ r) = (inert disabled st a \<and> inert disabled st r)"
  by (auto simp: inert_def words_append)

lemma inert_dropWhile: "inert disabled st t \<Longrightarrow> inert disabled st (dropWhile is_ident_continue t)"
  using inert_append [of "dropWhile is_ident_continue t" disabled st "takeWhile is_ident_continue t"] by simp

lemma inert_Cons: "\<not> is_ident_continue c \<Longrightarrow> inert disabled st (c # cs) = inert disabled st cs"
  by (simp add: inert_def)

lemma pp_number_split: "fst (pp_number s) @ snd (pp_number s) = s \<and> boundary (snd (pp_number s))"
proof (induction s rule: pp_number.induct)
  case (2 c cs)
  show ?case
  proof (cases "isdigit c \<or> isalpha c \<or> c = CHR ''_'' \<or> c = CHR ''.''")
    case True
    with 2 show ?thesis by (auto simp: Let_def split_beta signed_exponent_def)
  next
    case False
    then show ?thesis by (auto simp: boundary_def is_ident_continue_def isalnum_def)
  qed
qed (simp add: boundary_def)

lemma ident_start_continue: "is_ident_start c \<Longrightarrow> is_ident_continue c"
  by (auto simp: is_ident_start_def is_ident_continue_def isalnum_def)

text \<open>What the loop still has to read is inert; inside a literal, from the next boundary on.\<close>

definition unread_inert :: "string set \<Rightarrow> preprocessor \<Rightarrow> scan_flags \<Rightarrow> string \<Rightarrow> bool" where
  "unread_inert disabled st f t =
     inert disabled st (if in_str f \<or> in_chr f then dropWhile is_ident_continue t else t)"

lemma unread_inert_start: "inert disabled st t \<Longrightarrow> unread_inert disabled st f t"
  by (simp add: unread_inert_def inert_dropWhile)

lemma inert_step:
  assumes "unread_inert disabled st f (c # cs)"
  shows "\<exists>f' used r. expand_step rec disabled live out f c cs st = Some (out @ used, f', r, st) \<and>
    used @ r = c # cs \<and> length r \<le> length cs \<and> unread_inert disabled st f' r"
proof (cases "in_str f \<or> in_chr f")
  case True
  have "unread_inert disabled st (pass_char f c) cs"
  proof (cases "is_ident_continue c")
    case True
    then have "c \<noteq> DQ" "c \<noteq> SQ" by (auto simp: is_ident_continue_def isalnum_def isalpha_def isdigit_def code_def)
    with True assms \<open>in_str f \<or> in_chr f\<close> show ?thesis by (simp add: unread_inert_def pass_char_def Let_def)
  next
    case False
    with assms True have "inert disabled st cs" by (simp add: unread_inert_def inert_Cons)
    then show ?thesis by (rule unread_inert_start)
  qed
  with True show ?thesis by (auto simp: expand_step_def Let_def)
next
  case False
  with assms have t: "inert disabled st (c # cs)" by (simp add: unread_inert_def)
  let ?n = "pp_number (c # cs)" and ?j = "dropWhile is_ident_continue cs"
  consider (number) "starts_number c cs" | (ident) "\<not> starts_number c cs" "is_ident_start c"
    | (other) "\<not> starts_number c cs" "\<not> is_ident_start c" by blast
  then show ?thesis
  proof cases
    case number
    have "inert disabled st (snd ?n)"
      using inert_append [of "snd ?n" disabled st "fst ?n"] pp_number_split [of "c # cs"] t by simp
    with number False pp_number_split [of "c # cs"] pp_number_shorter [OF number] show ?thesis
      by (auto simp: expand_step_def split_beta unread_inert_def simp del: pp_number.simps)
  next
    case ident
    let ?w = "takeWhile is_ident_continue (c # cs)"
    have "?w \<in> set (words (c # cs))" using ident_start_continue [OF ident(2)] by simp
    with t have w: "?w \<noteq> ''_Pragma''" "macros st ?w = None \<or> ?w \<in> disabled" by (auto simp: inert_def simp del: words.simps)
    then have "expand_ident rec disabled live out ?w ?j st = Some (out @ ?w, ?j, st)"
      by (auto simp: expand_ident_def split: option.split simp del: takeWhile.simps)
    moreover have "inert disabled st ?j" using inert_dropWhile [OF t] ident_start_continue [OF ident(2)] by simp
    ultimately show ?thesis
      using ident False ident_start_continue [OF ident(2)] length_dropWhile_le [of is_ident_continue cs]
      by (auto simp: expand_step_def unread_inert_def)
  next
    case other
    have "\<not> is_ident_continue c"
      using other by (auto simp: is_ident_continue_def isalnum_def is_ident_start_def starts_number_def)
    with t have "inert disabled st cs" by (simp add: inert_Cons)
    with other False show ?thesis by (auto simp: expand_step_def unread_inert_start)
  qed
qed

lemma inert_loop:
  "unread_inert disabled st f t \<Longrightarrow> expand_loop rec disabled live out f t st = Some (out @ t, st)"
proof (induction t arbitrary: out f rule: length_induct)
  case (1 t)
  show ?case
  proof (cases t)
    case (Cons c cs)
    from inert_step [of disabled st f c cs rec live out] 1(2) Cons obtain f' used r where
      s: "expand_step rec disabled live out f c cs st = Some (out @ used, f', r, st)" "used @ r = c # cs"
        "length r \<le> length cs" "unread_inert disabled st f' r" by auto
    then have "expand_loop rec disabled live (out @ used) f' r st = Some ((out @ used) @ r, st)"
      using 1(1) Cons by (metis le_imp_less_Suc length_Cons)
    with s Cons show ?thesis by simp
  qed simp
qed

text \<open>
  A line none of whose words is a macro is passed through unchanged, with its strings, numbers
  and white space, and changes nothing in the state.
\<close>

theorem expand_line_without_macros:
  assumes "\<forall>w \<in> set (words line). w \<noteq> ''_Pragma'' \<and> macros st w = None"
  shows "expand_line (Suc n) line st = Some (line, st)"
  using inert_loop [of "{}" st no_flags line "expand_text n" "{}" "[]"] unread_inert_start assms
  by (simp add: expand_line_def inert_def)

theorem expand_line_without_macros_witness:
  "expand_line 1 ''int x = y + 0x1F;'' ((initial_state linux_target)\<lparr>macros := Map.empty\<rparr>) =
     Some (''int x = y + 0x1F;'', (initial_state linux_target)\<lparr>macros := Map.empty\<rparr>)"
proof -
  have "list_all (\<lambda>w. w \<noteq> ''_Pragma'') (words ''int x = y + 0x1F;'')" by code_simp
  then have "\<forall>w \<in> set (words ''int x = y + 0x1F;''). w \<noteq> ''_Pragma'' \<and>
      macros ((initial_state linux_target)\<lparr>macros := Map.empty\<rparr>) w = None"
    by (simp add: list_all_iff del: words.simps)
  from expand_line_without_macros [OF this, of 0] show ?thesis by simp
qed

section \<open>Strings of pragmas\<close>

lemma destringize_escaped:
  "destringize (concat (map (\<lambda>c. if c = BSL \<or> c = DQ then [BSL, c] else [c]) s) @ [DQ]) = s"
  by (induction s) auto

text \<open>
  The string that \<open>#\<close> makes of an argument is read by the \<open>_Pragma\<close> operator as the trimmed
  argument: escaping and unescaping are inverse.
\<close>

theorem destringize_stringify: "destringize (tl (stringify_arg raw)) = trim_copy raw"
  using destringize_escaped [of "trim_copy raw"] by (simp add: stringify_arg_def)

section \<open>Two flaws\<close>

definition function_macro :: "string \<Rightarrow> string list \<Rightarrow> bool \<Rightarrow> string \<Rightarrow> macro_def" where
  "function_macro name ps v text =
     \<lparr>macro_name = name, function_like = True, variadic = v, params = ps, body = text, va_name = []\<rparr>"

text \<open>
  A name that must not be expanded again inside its own expansion is expanded again when the
  expansion is an argument: with \<open>#define X X y\<close> and \<open>#define F(x) x\<close>, \<open>F(X)\<close> gives \<open>X y y\<close> in
  place of \<open>X y\<close>.
\<close>

theorem argument_expanded_again:
  "map_option fst (expand_line 4 ''F(X)''
     ((initial_state linux_target)\<lparr>macros := [''F'' \<mapsto> function_macro ''F'' [''x''] False ''x'',
        ''X'' \<mapsto> object_macro ''X'' ''X y'']\<rparr>)) = Some ''X y y''"
  by code_simp

text \<open>The variable arguments are expanded twice, so \<open>__COUNTER__\<close> among them counts twice.\<close>

lemma variadic_counter_twice:
  "map_option (\<lambda>(out, st). (out, counter st)) (expand_line 3 ''V(__COUNTER__)''
     ((initial_state linux_target)\<lparr>macros := [''V'' \<mapsto> function_macro ''V'' [] True ''__VA_ARGS__'',
        ''__COUNTER__'' \<mapsto> object_macro ''__COUNTER__'' ''0'']\<rparr>)) = Some (''1'', 2)"
  by code_simp

end
