(* ===== verification/PP_Run_Returns.thy ===== *)
theory PP_Run_Returns
  imports PP_Run PP_Expand_Correct PP_Cond_Correct
begin

text \<open>
  A run returns: for every source text and every state with a well-formed macro table there is a
  number of expansion levels from which on the result no longer depends on it, and it is never the
  value that stands for a bound chosen too small.
\<close>

section \<open>Results that no longer depend on the bound\<close>

definition settled :: "('a \<Rightarrow> bool) \<Rightarrow> (nat \<Rightarrow> 'a result) \<Rightarrow> bool" where
  "settled P F = (\<exists>N r. (\<forall>n \<ge> N. F n = r) \<and> r \<noteq> Inl OutOfLevels \<and> (\<forall>x. r = Inr x \<longrightarrow> P x))"

definition at_levels :: "nat \<Rightarrow> pp_env \<Rightarrow> pp_env" where
  "at_levels n env = env\<lparr>env_levels := n\<rparr>"

lemma at_levels_simps [simp]:
  "env_files (at_levels n env) = env_files env" "env_host (at_levels n env) = env_host env"
  "env_levels (at_levels n env) = n"
  by (simp_all add: at_levels_def)

abbreviation wf2 :: "'a \<times> preprocessor \<Rightarrow> bool" where
  "wf2 \<equiv> \<lambda>(x, st). macros_wf st"

lemma settled_const: "settled P (\<lambda>n. r) \<longleftrightarrow> r \<noteq> Inl OutOfLevels \<and> (\<forall>x. r = Inr x \<longrightarrow> P x)"
  by (auto simp: settled_def)

lemma settled_Inr [simp]: "settled P (\<lambda>n. Inr x) = P x"
  by (auto simp: settled_def)

lemma settled_range [simp]: "settled P (\<lambda>n. Inl LineNumberOutOfRange)"
  by (auto simp: settled_def)

lemma settled_if [simp]: "settled P (\<lambda>n. if b then F n else G n) = (if b then settled P F else settled P G)"
  by simp

lemma settled_and_then:
  assumes "settled P F" "\<And>x. P x \<Longrightarrow> settled Q (\<lambda>n. G n x)"
  shows "settled Q (\<lambda>n. and_then (F n) (G n))"
proof -
  from assms(1) obtain N r where F: "\<forall>n \<ge> N. F n = r" "r \<noteq> Inl OutOfLevels" "\<forall>x. r = Inr x \<longrightarrow> P x"
    unfolding settled_def by blast
  show ?thesis
  proof (cases r)
    case (Inl e)
    with F have "\<forall>n \<ge> N. and_then (F n) (G n) = Inl e" "e \<noteq> OutOfLevels" by simp_all
    then show ?thesis unfolding settled_def by blast
  next
    case (Inr x)
    with F assms(2) have "settled Q (\<lambda>n. G n x)" by simp
    then obtain M s where G: "\<forall>n \<ge> M. G n x = s" "s \<noteq> Inl OutOfLevels" "\<forall>y. s = Inr y \<longrightarrow> Q y"
      unfolding settled_def by blast
    have "\<forall>n \<ge> max N M. and_then (F n) (G n) = s" using F(1) G(1) Inr by simp
    with G show ?thesis unfolding settled_def by blast
  qed
qed

lemma settled_mono: "settled P F \<Longrightarrow> (\<And>x. P x \<Longrightarrow> Q x) \<Longrightarrow> settled Q F"
  unfolding settled_def by blast

lemma expand_settled:
  assumes "macros_wf st"
  shows "settled wf2 (\<lambda>n. expand (at_levels n env) line st)"
proof -
  have "state_ok (known_names st) st" "finite (known_names st)"
    using assms macros_wf_finite by (auto simp: state_ok_def)
  from text_settles [OF this(2,1), of line "{}" "{}"] obtain out st' where
    "converges (\<lambda>r. r line {} {} st) (out, st')" "state_ok (known_names st) st'"
    unfolding settles_def by auto
  then obtain N where "\<forall>n \<ge> N. expand (at_levels n env) line st = Inr (out, st')" "macros_wf st'"
    unfolding converges_def
    by (simp add: expand_def expand_line_def state_ok_def) (metis option.simps(5))
  then show ?thesis unfolding settled_def by fastforce
qed

lemma expand_then_settled:
  assumes "macros_wf st" "\<And>x st'. macros_wf st' \<Longrightarrow> settled Q (\<lambda>n. G n (x, st'))"
  shows "settled Q (\<lambda>n. and_then (expand (at_levels n env) line st) (G n))"
  using expand_settled [OF assms(1)] by (rule settled_and_then) (auto simp: assms(2))

section \<open>Directives\<close>

lemma fallback_wf [simp]: "macros_wf (set_fallback st) = macros_wf st"
  by (rule macros_wf_cong(1)) (simp_all add: set_fallback_def)

lemma wf_step: "keeps_wf st st' \<Longrightarrow> macros_wf st \<Longrightarrow> macros_wf st'"
  by (simp add: keeps_wf_def)

lemmas wf_steps = wf.R_error [THEN wf_step] wf.R_warning [THEN wf_step] wf.R_push_frame [THEN wf_step]
  wf.R_else [THEN wf_step] wf.R_endif [THEN wf_step] wf.R_location [THEN wf_step] wf.R_guard [THEN wf_step]
  wf.R_offset [THEN wf_step] wf.R_set_line [THEN wf_step] wf.R_set_file [THEN wf_step]
  wf.handle_define_rel [THEN wf_step] wf.handle_pragma_rel [THEN wf_step]

lemma evaluate_settled: "macros_wf st \<Longrightarrow> settled wf2 (\<lambda>n. evaluate_if_expr (at_levels n env) e st)"
  unfolding evaluate_if_expr_def Let_def at_levels_simps
proof (erule expand_then_settled)
  fix x and st' :: preprocessor
  assume "macros_wf st'"
  with parse_if_expr_total show "settled wf2 (\<lambda>n. case (x, st') of (expanded, st) \<Rightarrow>
      if trim_copy (resolve_defined_and_intrinsics (env_host env) expanded (is_macro st)
           (Some (\<lambda>arg. can_resolve_include (env_files env) arg (virtual_file st) st))) = []
      then Inr (False, st)
      else case parse_if_expr (is_macro st)
                  (trim_copy (resolve_defined_and_intrinsics (env_host env) expanded (is_macro st)
                    (Some (\<lambda>arg. can_resolve_include (env_files env) arg (virtual_file st) st)))) of
             None \<Rightarrow> Inl OutOfLevels
           | Some (v, p) \<Rightarrow> if \<not> ok p then Inr (False, set_fallback st) else Inr (as_bool v, st))"
    by (auto simp: settled_const split: option.splits) (metis option.distinct(1))
qed

lemma conditional_settled:
  assumes "macros_wf st"
  shows "settled macros_wf (\<lambda>n. case conditional_directive (at_levels n env) key rest st of
    None \<Rightarrow> Inr st | Some r \<Rightarrow> r)"
proof -
  have "settled macros_wf (\<lambda>n. handle_if (at_levels n env) rest st)"
    unfolding handle_if_def
    by (rule settled_and_then [OF evaluate_settled [OF assms(1)]]) (auto simp: wf_steps)
  moreover have "settled macros_wf (\<lambda>n. handle_elif (at_levels n env) rest st)"
  proof (cases "cond_stack st")
    case (Cons f fs)
    have "settled wf2 (\<lambda>n. if any_taken f then Inr (False, st) else evaluate_if_expr (at_levels n env) rest st)"
      using assms(1) evaluate_settled by simp
    then have "settled macros_wf (\<lambda>n. and_then
        (if any_taken f then Inr (False, st) else evaluate_if_expr (at_levels n env) rest st)
        (\<lambda>(b, st). Inr (st\<lparr>cond_stack := elif_frame b f # fs\<rparr>)))"
      by (rule settled_and_then) (auto simp: macros_wf_cong(1) [of "_\<lparr>cond_stack := _\<rparr>"])
    with Cons assms(1) show ?thesis by (simp add: handle_elif_def)
  qed (use assms(1) in \<open>simp_all add: handle_elif_def\<close>)
  ultimately show ?thesis
    using assms wf.R_push_frame [THEN wf_step] wf.R_else [THEN wf_step] wf.R_endif [THEN wf_step]
    by (cases "key = ''if''"; cases "key = ''elif''"; cases "key = ''ifdef''"; cases "key = ''ifndef''")
      (simp_all add: conditional_directive_def handle_ifdef_def Let_def)
qed

lemma conditional_or_not:
  "conditional_directive env key rest st = None \<longleftrightarrow>
     key \<notin> {''if'', ''ifdef'', ''ifndef'', ''elif'', ''else'', ''endif''}"
  by (simp add: conditional_directive_def)

definition files_settle :: "(nat \<Rightarrow> nested) \<Rightarrow> bool" where
  "files_settle nested = (\<forall>src path st. macros_wf st \<longrightarrow> settled wf2 (\<lambda>n. nested n src path st))"

lemma enter_settled:
  assumes "files_settle nested" "macros_wf st"
  shows "settled wf2 (\<lambda>n. enter_file (nested n) src name path k st)"
proof -
  have "settled wf2 (\<lambda>n. nested n src name st)" using assms by (simp add: files_settle_def)
  then show ?thesis unfolding enter_file_def by (rule settled_and_then) auto
qed

lemma include_settled:
  assumes nested: "files_settle nested" and "macros_wf st"
  shows "settled wf2 (\<lambda>n. include_path (at_levels n env) (nested n) is_angle is_next rel path k st)"
proof -
  obtain p st1 where r: "resolve_include (env_files env) is_angle is_next rel path st = (p, st1)" by fastforce
  then have st1: "macros_wf st1"
    using assms(2) wf.R_cache [THEN wf_step, of st] by (auto simp: resolve_include_def Let_def split: if_splits)
  note enter = enter_settled [OF nested]
  have "settled wf2 (\<lambda>n. include_resolved (at_levels n env) (nested n) rel p path k st1)"
  proof (cases "read_file (env_files env) p")
    case None
    with st1 show ?thesis by (simp add: include_resolved_def wf_steps)
  next
    case (Some src)
    with st1 enter [OF st1] enter [OF wf.R_guard [THEN wf_step, OF st1]] show ?thesis
      by (simp add: include_resolved_def wf_steps Let_def)
  qed
  with enter [OF st1] st1 show ?thesis
    by (simp add: include_path_def r Let_def wf_steps)
qed

lemma handle_include_settled:
  assumes nested: "files_settle nested" and st: "macros_wf st"
  shows "settled wf2 (\<lambda>n. handle_include (at_levels n env) (nested n) args path k is_next st)"
proof -
  note inc = include_settled [OF nested]
  have "settled wf2 (\<lambda>n. and_then (expand (at_levels n env) s st) (\<lambda>(e, st). let s = trim_copy e in
      if quoted_form s \<or> angle_form s then
        include_path (at_levels n env) (nested n) (angle_form s) is_next (inner_text s) path k st
      else Inr ([LF], add_error path k ''computed #include did not expand to a valid path'' st)))" for s
    using st by (rule expand_then_settled) (simp add: Let_def inc wf_steps)
  with inc [OF st] st show ?thesis by (simp add: handle_include_def Let_def wf_steps)
qed

lemma active_settled:
  assumes nested: "files_settle nested" and st: "macros_wf st"
  shows "settled wf2 (\<lambda>n. active_directive (at_levels n env) (nested n) key rest out path k st)"
proof -
  have "settled wf2 (\<lambda>n. and_then (handle_include (at_levels n env) (nested n) rest path k b st)
      (\<lambda>(t, st). Inr (out @ t, st)))" for b
    by (rule settled_and_then [OF handle_include_settled [OF nested st]]) auto
  moreover have "settled wf2 (\<lambda>n. handle_line (at_levels n env) rest out path k st)"
    unfolding handle_line_def using st by (rule expand_then_settled) (simp add: Let_def wf_steps)
  moreover have "macros_wf (handle_undef rest st)" by (simp add: handle_undef_def Let_def st erase_macro_wf)
  ultimately show ?thesis
    using st unfolding active_directive_def by (simp add: wf_steps split_beta)
qed

lemma directive_settled:
  assumes nested: "files_settle nested" and st: "macros_wf st"
  shows "settled wf2 (\<lambda>n. process_directive (at_levels n env) (nested n) raw out path k st)"
proof -
  obtain key rest where kr: "split_directive raw = (key, rest)" by fastforce
  show ?thesis
  proof (cases "key \<in> {''if'', ''ifdef'', ''ifndef'', ''elif'', ''else'', ''endif''}")
    case True
    have "settled wf2 (\<lambda>n. blank_line out (case conditional_directive (at_levels n env) key rest st of
        None \<Rightarrow> Inr st | Some r \<Rightarrow> r))"
      unfolding blank_line_def by (rule settled_and_then [OF conditional_settled [OF st]]) auto
    moreover have ne: "key \<noteq> []" using True by (elim insertE) simp_all
    have "process_directive (at_levels n env) (nested n) raw out path k st =
        blank_line out (case conditional_directive (at_levels n env) key rest st of None \<Rightarrow> Inr st | Some r \<Rightarrow> r)" for n
      using True conditional_or_not [of "at_levels n env" key rest st] kr ne
      by (cases "conditional_directive (at_levels n env) key rest st") (simp_all only: process_directive_def kr Let_def prod.case if_False option.case simp_thms)
    ultimately show ?thesis by (simp only:)
  next
    case False
    then have "conditional_directive (at_levels n env) key rest st = None" for n
      unfolding conditional_or_not .
    with kr st active_settled [OF nested st] show ?thesis by (simp add: process_directive_def)
  qed
qed

section \<open>Lines and files\<close>

definition directives_settle :: "(nat \<Rightarrow> directive_handler) \<Rightarrow> bool" where
  "directives_settle direct =
     (\<forall>raw out k st. macros_wf st \<longrightarrow> settled wf2 (\<lambda>n. direct n raw out k st))"

lemma accumulate_settled:
  assumes "directives_settle direct"
  shows "macros_wf st \<Longrightarrow> settled (\<lambda>(out, line, k, extra, ls', st). length ls' \<le> length ls \<and> macros_wf st)
    (\<lambda>n. accumulate (at_levels n env) (direct n) out line k extra ls st)"
proof (induction ls arbitrary: out line k extra st)
  case (Cons l ls)
  let ?st = "set_line_macro (k + 1) st"
  let ?P = "\<lambda>(out, line, k, extra, ls', st). length ls' \<le> length (l # ls) \<and> macros_wf st"
  have st: "macros_wf ?st" using Cons.prems by (rule wf_steps)
  have IH: "settled ?P (\<lambda>n. accumulate (at_levels n env) (direct n) out line k extra ls st)"
    if "macros_wf st" for out line k extra st
    using Cons.IH [OF that] by (rule settled_mono) auto
  show ?case
  proof (cases "directive_text l")
    case None
    have "settled ?P (\<lambda>n. and_then (expand (at_levels n env) l ?st) (\<lambda>(e, st).
        accumulate (at_levels n env) (direct n) out (line @ [SP] @ e) (k + 1) (extra + 1) ls st))"
      using st by (rule expand_then_settled) (simp only: prod.case IH)
    with None Cons.prems show ?thesis by (simp add: Let_def)
  next
    case (Some raw)
    have "settled wf2 (\<lambda>n. direct n raw out (k + 1) ?st)" using assms st by (simp add: directives_settle_def)
    then have "settled ?P (\<lambda>n. and_then (direct n raw out (k + 1) ?st) (\<lambda>(out, st).
        accumulate (at_levels n env) (direct n) out line (k + 1) (extra + 1) ls st))"
      by (rule settled_and_then) (auto simp only: prod.case intro!: IH)
    with Some Cons.prems show ?thesis by (simp add: Let_def)
  qed
qed simp

lemma line_loop_settled:
  assumes "directives_settle direct"
  shows "macros_wf st \<Longrightarrow> settled wf2 (\<lambda>n. line_loop (at_levels n env) (direct n) out k ls st)"
proof (induction ls arbitrary: out k st rule: length_induct)
  case (1 ls)
  show ?case
  proof (cases ls)
    case Nil
    with 1 show ?thesis by simp
  next
    case (Cons l ls')
    let ?st = "set_file_macro (set_line_macro (k + 1) st)"
    have st: "macros_wf ?st" using 1(2) by (simp add: wf_steps)
    have IH: "settled wf2 (\<lambda>n. line_loop (at_levels n env) (direct n) out k ls2 st)"
      if "length ls2 \<le> length ls'" "macros_wf st" for out k ls2 st using 1 Cons that by simp
    have "settled wf2 (\<lambda>n. direct n raw out (k + 1) ?st)" for raw using assms st by (simp add: directives_settle_def)
    then have directive: "settled wf2 (\<lambda>n. and_then (direct n raw out (k + 1) ?st)
        (\<lambda>(out, st). line_loop (at_levels n env) (direct n) out (k + 1) ls' st))" for raw
      by (rule settled_and_then) (auto intro!: IH)
    have joined: "settled wf2 (\<lambda>n. and_then (expand (at_levels n env) line st) (\<lambda>(t, st).
        line_loop (at_levels n env) (direct n) (out @ t @ [LF] @ replicate extra LF) k ls2 st))"
      if "length ls2 \<le> length ls'" "macros_wf st" for out line k extra ls2 st
      using that(2) by (rule expand_then_settled) (simp only: prod.case IH [OF that(1)])
    have "settled wf2 (\<lambda>n. and_then (accumulate (at_levels n env) (direct n) out l (k + 1) 0 ls' ?st)
        (\<lambda>(out, line, k, extra, ls, st). and_then (expand (at_levels n env) line st) (\<lambda>(t, st).
          line_loop (at_levels n env) (direct n) (out @ t @ [LF] @ replicate extra LF) k ls st)))"
      using accumulate_settled [OF assms st] by (rule settled_and_then) (auto simp only: prod.case intro!: joined)
    with directive IH [OF order_refl st] show ?thesis
      unfolding Cons line_loop_eq Let_def by (cases "directive_text l") (simp_all split: if_splits)
  qed
qed

lemma preprocess_text_settled: "macros_wf st \<Longrightarrow> settled wf2 (\<lambda>n. preprocess_text (at_levels n env) d src path st)"
proof (induction "201 - d" arbitrary: d src path st)
  case 0
  then show ?case by (simp add: preprocess_text.simps wf_steps)
next
  case (Suc k)
  then have d: "d \<le> 200" "k = 201 - (d + 1)" by auto
  with Suc have "files_settle (\<lambda>n. preprocess_text (at_levels n env) (d + 1))" by (simp add: files_settle_def)
  then have "directives_settle (\<lambda>n raw out k st.
      process_directive (at_levels n env) (preprocess_text (at_levels n env) (d + 1)) raw out path k st)"
    unfolding directives_settle_def using directive_settled by blast
  note loop = line_loop_settled [OF this wf.R_location [THEN wf_step, OF Suc.prems]]
  have "settled wf2 (\<lambda>n. and_then (line_loop (at_levels n env)
      (\<lambda>raw out k st. process_directive (at_levels n env) (preprocess_text (at_levels n env) (d + 1)) raw out path k st)
      [] 0 (lines_of (strip_comments (join_continued_lines src))) (st\<lparr>virtual_line_offset := 0, virtual_file := path\<rparr>))
      (\<lambda>(out, st'). Inr (out, st'\<lparr>virtual_line_offset := virtual_line_offset st, virtual_file := virtual_file st\<rparr>)))"
    by (rule settled_and_then [OF loop]) (auto simp: wf_steps)
  with d show ?case by (subst preprocess_text.simps) (simp add: and_then_def)
qed

lemma reset_run_wf: "macros_wf st \<Longrightarrow> macros_wf (reset_run path st)"
  unfolding reset_run_def
  by (rule set_macro_wf) (auto simp: object_macro_def macros_wf_def known_names_def saved_names_def)



end
