(* ===== verification/Lexer_Correct.thy ===== *)
theory Lexer_Correct
  imports Lexer
begin

text \<open>
  Properties of the lexer as a whole: it terminates with one end-of-file token, the tokens spell
  consecutive pieces of the source, their positions are right, and punctuators are matched
  greedily.
\<close>

section \<open>One iteration of the driver\<close>

definition no_pending :: "lexer \<Rightarrow> bool" where
  "no_pending l = (pending_count l = 0)"

lemma no_pending_iff:
  "no_pending l \<longleftrightarrow> pending_pragma_pack l = None \<and> pending_pragma_weak l = None \<and>
     pending_pragma_gcc_visibility l = None \<and> pending_pragma_exec l = None"
  by (auto simp: no_pending_def pending_count_def)

text \<open>
  From a state without pending pragmas the driver either emits one token, scanned or left behind by
  a pragma line, and is again in such a state further on, or it is at the end of the source.
\<close>

definition emits :: "(string \<Rightarrow> u64) \<Rightarrow> lexer \<Rightarrow> token \<Rightarrow> lexer \<Rightarrow> bool" where
  "emits hash l t l' =
     (no_pending l \<and> pragma_kind (kind t) \<and> moved hash l l' \<and>
        skip_whitespace_and_comments hash l = set_pending (Some t) (kind t) l' \<or>
      (\<exists>l1. (l1 = l \<or> moved hash l l1) \<and> l1 = skip_whitespace_and_comments hash l \<and>
         scanned hash l1 t l'))"

lemma no_pending_moved: "no_pending l \<Longrightarrow> moved hash l l' \<Longrightarrow> no_pending l'"
  by (simp add: no_pending_iff moved_def same_pending_def)

lemma scan_loop_pragma:
  assumes "skip_whitespace_and_comments hash l = set_pending (Some t) (kind t) l2"
    "pragma_kind (kind t)" "no_pending l2"
  shows "scan_loop hash l out = scan_loop hash l2 (out @ [t])"
proof -
  have "pending_pragma_pack l2 = None" "pending_pragma_weak l2 = None"
    "pending_pragma_gcc_visibility l2 = None" "pending_pragma_exec l2 = None"
    using assms(3) by (simp_all add: no_pending_iff)
  then have upd: "l2\<lparr>pending_pragma_pack := None\<rparr> = l2" "l2\<lparr>pending_pragma_weak := None\<rparr> = l2"
    "l2\<lparr>pending_pragma_gcc_visibility := None\<rparr> = l2" "l2\<lparr>pending_pragma_exec := None\<rparr> = l2"
    by (cases l2; simp)+
  with assms show ?thesis
    by (subst scan_loop.simps) (auto simp: pragma_kind_def no_pending_iff Let_def upd)
qed

lemma scan_loop_step:
  assumes "no_pending l"
  obtains (emit) t l' where "scan_loop hash l out = scan_loop hash l' (out @ [t])" "emits hash l t l'"
      "no_pending l'" "index l < index l'" "\<not> at_end l"
  | (finish) l1 where "l1 = skip_whitespace_and_comments hash l" "at_end l1" "l1 = l \<or> moved hash l l1"
      "scan_loop hash l out = (case make_token hash EndOfFile [] (line l1) (column l1) l1 of
         (t, l') \<Rightarrow> (out @ [t], l'))"
proof -
  define l1 where "l1 = skip_whitespace_and_comments hash l"
  have stay: "at_end l \<Longrightarrow> l1 = l" by (simp add: l1_def skip_whitespace_and_comments.simps)
  have "skip_ok hash l l1" by (simp add: l1_def skip_steps)
  then consider (blank) "l1 = l \<or> moved hash l l1"
    | (pragma) t l2 where "pragma_kind (kind t)" "moved hash l l2" "l1 = set_pending (Some t) (kind t) l2"
    by (auto simp: skip_ok_def)
  then show thesis
  proof cases
    case pragma
    with assms have np: "no_pending l2" by (blast intro: no_pending_moved)
    have "scan_loop hash l out = scan_loop hash l2 (out @ [t])"
      using scan_loop_pragma [OF _ pragma(1) np] pragma(3) l1_def by simp
    then show thesis
      by (rule emit) (use pragma np stay assms l1_def in \<open>auto simp: emits_def moved_def\<close>)
  next
    case blank
    with assms have np: "no_pending l1" by (auto intro: no_pending_moved)
    show thesis
    proof (cases "at_end l1")
      case True
      with np l1_def blank show thesis
        by (intro finish [of l1])
          (simp_all add: scan_loop.simps [of hash l] no_pending_iff Let_def)
    next
      case False
      obtain t l' where tok: "scan_token hash l1 = (t, l')" by fastforce
      note sc = scan_token_scanned [OF False tok]
      have "no_pending l'" using np scanned_pending [OF sc] by (simp add: no_pending_iff)
      moreover have "index l < index l'"
        using scanned_steps [OF sc] blank by (auto simp: moved_def)
      moreover have "emits hash l t l'" using blank sc l1_def by (auto simp: emits_def)
      moreover have "scan_loop hash l out = scan_loop hash l' (out @ [t])"
        using np False tok
        by (subst scan_loop.simps) (simp add: no_pending_iff Let_def flip: l1_def)
      ultimately show thesis using stay False by (intro emit) auto
    qed
  qed
qed

lemma emits_steps: "emits hash l t l' \<Longrightarrow> steps hash l l'"
  by (auto simp: emits_def moved_def dest: scanned_steps intro: steps_trans)

lemma emits_kind: "emits hash l t l' \<Longrightarrow> kind t \<noteq> EndOfFile"
  by (auto simp: emits_def pragma_kind_def dest: scanned_kind simp: special_kind_def)

text \<open>The tokens emitted by a run, one \<open>emits\<close> after the other.\<close>

inductive run :: "(string \<Rightarrow> u64) \<Rightarrow> lexer \<Rightarrow> token list \<Rightarrow> lexer \<Rightarrow> bool" for hash where
  run_Nil: "run hash l [] l"
| run_Cons: "emits hash l t l1 \<Longrightarrow> run hash l1 ts l' \<Longrightarrow> run hash l (t # ts) l'"

inductive_cases run_ConsE: "run hash l (t # ts) l'"

text \<open>The driver performs a run and closes it with the end-of-file token.\<close>

lemma scan_loop_run:
  assumes "no_pending l"
  shows "\<exists>ts l1 l2 eof l3. run hash l ts l1 \<and> l2 = skip_whitespace_and_comments hash l1 \<and>
     (l2 = l1 \<or> moved hash l1 l2) \<and> at_end l2 \<and>
     make_token hash EndOfFile [] (line l2) (column l2) l2 = (eof, l3) \<and>
     scan_loop hash l out = (out @ ts @ [eof], l3)"
  using assms
proof (induction "length (source l) - index l" arbitrary: l out rule: less_induct)
  case less
  from less.prems show ?case
  proof (cases rule: scan_loop_step [where hash = hash and out = out])
    case (emit t l')
    then have "length (source l') - index l' < length (source l) - index l"
      using emits_steps [OF emit(2)] by (auto simp: steps_def at_end_def)
    from less.hyps [OF this emit(3), of "out @ [t]"] obtain ts l1 l2 eof l3
      where r: "run hash l' ts l1" and e: "l2 = skip_whitespace_and_comments hash l1"
        "l2 = l1 \<or> moved hash l1 l2" "at_end l2"
        "make_token hash EndOfFile [] (line l2) (column l2) l2 = (eof, l3)"
        "scan_loop hash l' (out @ [t]) = ((out @ [t]) @ ts @ [eof], l3)"
      by blast
    from run_Cons [OF emit(2) r] e emit(1) show ?thesis
      by (intro exI [of _ "t # ts"] exI [of _ l1] exI [of _ l2] exI [of _ eof] exI [of _ l3]) simp
  next
    case (finish l1)
    obtain eof l3 where "make_token hash EndOfFile [] (line l1) (column l1) l1 = (eof, l3)" by fastforce
    with finish run_Nil [of hash l] show ?thesis
      by (intro exI [of _ "[]"] exI [of _ l] exI [of _ l1] exI [of _ eof] exI [of _ l3]) simp
  qed
qed

lemma emits_less: "emits hash l t l' \<Longrightarrow> index l < index l'"
  by (auto simp: emits_def moved_def steps_def dest!: scanned_steps)

lemma run_steps:
  "run hash l ts l' \<Longrightarrow> steps hash l l' \<and> index l + length ts \<le> index l' \<and> EndOfFile \<notin> kind ` set ts"
proof (induction rule: run.induct)
  case (run_Cons l t l1 ts l')
  then show ?case
    using emits_steps [OF run_Cons(1)] emits_less [OF run_Cons(1)] emits_kind [OF run_Cons(1)]
      steps_trans [of hash l l1 l'] by auto
qed simp

lemma new_lexer_fields [simp]:
  "source (new_lexer src profile) = src" "index (new_lexer src profile) = 0"
  "text_table (new_lexer src profile) = sit_empty" "line (new_lexer src profile) = 1"
  "column (new_lexer src profile) = 1" "lexer_profile (new_lexer src profile) = profile"
  "no_pending (new_lexer src profile)"
  by (auto simp: new_lexer_def no_pending_iff split: prod.splits)

text \<open>A whole scan: the run, the blanks behind it and the closing token.\<close>

lemma scan_all_run:
  obtains ts l1 l2 eof l3 where "scan_all hash (new_lexer src profile) = (ts @ [eof], l3)"
    "run hash (new_lexer src profile) ts l1" "l2 = l1 \<or> moved hash l1 l2" "steps hash l1 l2" "at_end l2"
    "l2 = skip_whitespace_and_comments hash l1"
    "make_token hash EndOfFile [] (line l2) (column l2) l2 = (eof, l3)"
    "text_table l3 = text_table l2" "source l3 = src" "index l3 = length src"
proof -
  obtain ts l1 l2 eof l3 where r: "run hash (new_lexer src profile) ts l1"
    "l2 = skip_whitespace_and_comments hash l1" "l2 = l1 \<or> moved hash l1 l2" "at_end l2"
    and m: "make_token hash EndOfFile [] (line l2) (column l2) l2 = (eof, l3)"
    and sc: "scan_loop hash (new_lexer src profile) [] = ([] @ ts @ [eof], l3)"
    using scan_loop_run [of "new_lexer src profile" hash "[]"] by auto
  have st: "steps hash l1 l2" using r(3) by (auto simp: moved_def)
  have run: "steps hash (new_lexer src profile) l1" using run_steps [OF r(1)] by simp
  have "steps hash (new_lexer src profile) l2" using run st by (rule steps_trans)
  then have "source l2 = src" "index l2 = length src"
    using r(4) by (auto simp: steps_def at_end_def)
  moreover have "text_table l3 = text_table l2"
    using m by (auto simp: make_token_def sit_intern_def)
  ultimately show thesis
    using that [of ts eof l3 l1 l2] sc r st m make_token_fields [OF m] by (simp add: scan_all_def)
qed

text \<open>
  C6: scanning terminates on every source. The result ends in exactly one end-of-file token, the
  whole source has been consumed, and there are at most as many other tokens as characters.
\<close>

theorem scan_all_ends_in_eof:
  "\<exists>ts eof l'. scan_all hash (new_lexer src profile) = (ts @ [eof], l') \<and> kind eof = EndOfFile \<and>
     EndOfFile \<notin> kind ` set ts \<and> index l' = length src \<and> length ts \<le> length src"
proof -
  obtain ts l1 l2 eof l3 where r: "scan_all hash (new_lexer src profile) = (ts @ [eof], l3)"
    "run hash (new_lexer src profile) ts l1" "steps hash l1 l2"
    "make_token hash EndOfFile [] (line l2) (column l2) l2 = (eof, l3)" "index l3 = length src"
    by (rule scan_all_run) blast
  have "index l1 \<le> index l2" "index l2 = index l3"
    using r(3) make_token_fields [OF r(4)] by (simp_all add: steps_def)
  then show ?thesis
    using r run_steps [OF r(2)] make_token_fields(1) [OF r(4)] by auto
qed

section \<open>Tokens spell the source\<close>

text \<open>
  Consecutive, disjoint, non-empty intervals of the source, one per token from \<open>pos\<close> on, such that
  every token that is no pragma spells its interval.
\<close>

fun spells :: "string \<Rightarrow> string_id_table \<Rightarrow> nat \<Rightarrow> token list \<Rightarrow> (nat \<times> nat) list \<Rightarrow> bool" where
  "spells src texts pos [] [] = True"
| "spells src texts pos (t # ts) ((a, b) # ps) =
     (pos \<le> a \<and> a < b \<and> b \<le> length src \<and>
      (pragma_kind (kind t) \<or> lookup_text texts (text_id t) = take (b - a) (drop a src)) \<and>
      spells src texts b ts ps)"
| "spells src texts pos _ _ = False"

text \<open>Where an offset of the source is, in lines and columns counted from one.\<close>

definition line_at :: "string \<Rightarrow> nat \<Rightarrow> nat" where
  "line_at src i = Suc (count_list (take i src) LF)"

definition column_at :: "string \<Rightarrow> nat \<Rightarrow> nat" where
  "column_at src i = Suc (length (takeWhile not_LF (rev (take i src))))"

text \<open>
  A token is placed at the start of its interval; a literal with an encoding prefix of one or two
  characters is placed at its opening quote.
\<close>

definition placed :: "string \<Rightarrow> token \<Rightarrow> nat \<times> nat \<Rightarrow> bool" where
  "placed src t ab =
     (\<exists>n. tok_line t = line_at src (fst ab + n) \<and> tok_column t = column_at src (fst ab + n) \<and>
        (n = 0 \<or> n \<le> 2 \<and> kind t \<in> {StrLit, CharLit, Invalid}))"

definition in_step :: "lexer \<Rightarrow> bool" where
  "in_step l = (line l = fold next_line (take (index l) (source l)) 1 \<and>
     column l = fold next_column (take (index l) (source l)) 1)"

lemma fold_next_line: "fold next_line s n = n + count_list s LF"
  by (induction s arbitrary: n) (auto simp: next_line_def)

lemma fold_next_column: "fold next_column s 1 = Suc (length (takeWhile not_LF (rev s)))"
  by (induction s rule: rev_induct) (auto simp: next_column_def not_LF_def)

lemma in_step_at: "in_step l \<Longrightarrow> line l = line_at (source l) (index l) \<and> column l = column_at (source l) (index l)"
  using fold_next_column by (simp add: in_step_def line_at_def column_at_def fold_next_line)

lemma in_step_eat:
  assumes "in_step l" "take (length s) (rest l) = s"
  shows "in_step (eat s l)"
proof -
  from assms(2) have "take (index l + length s) (source l) = take (index l) (source l) @ s"
    by (simp add: take_add rest_def)
  with assms(1) show ?thesis by (simp add: in_step_def eat_def)
qed

lemma eats_in_step: "eats l l' \<Longrightarrow> in_step l \<Longrightarrow> in_step l'"
  by (auto simp: eats_def in_step_eat)

text \<open>Without a number sign the skipping loop only consumes text.\<close>

lemma skip_no_hash: "CHR ''#'' \<notin> set (source l) \<Longrightarrow> eats l (skip_whitespace_and_comments hash l)"
proof (induction hash l rule: skip_whitespace_and_comments.induct)
  case (1 hash l)
  show ?case
  proof (cases "at_end l")
    case True
    then show ?thesis by (simp add: skip_whitespace_and_comments.simps)
  next
    case False
    then have "peek l \<in> set (source l)" by (auto simp: peek_def at_end_def)
    with 1(2) have "peek l \<noteq> CHR ''#''" by auto
    then have r: "skip_pass hash l = SkipStop l \<or> (\<exists>l'. skip_pass hash l = SkipContinue l' \<and> eats l l')"
      using eats_trans [OF eats_advance eats_trans [OF eats_advance eats_skip_block], of l]
      by (simp add: skip_pass_def Let_def)
    from r show ?thesis
    proof
      assume "skip_pass hash l = SkipStop l"
      with False show ?thesis by (simp add: skip_whitespace_and_comments.simps)
    next
      assume "\<exists>l'. skip_pass hash l = SkipContinue l' \<and> eats l l'"
      then obtain l' where l': "skip_pass hash l = SkipContinue l'" "eats l l'" by blast
      with 1(1) [OF False l'(1)] 1(2) eats_fields [OF l'(2)] False show ?thesis
        by (subst skip_whitespace_and_comments.simps) (simp add: eats_trans [of l l'])
    qed
  qed
qed

lemma emits_no_hash:
  assumes "emits hash l t l'" "CHR ''#'' \<notin> set (source l)"
  shows "eats l (skip_whitespace_and_comments hash l) \<and> scanned hash (skip_whitespace_and_comments hash l) t l'"
proof -
  note e = skip_no_hash [OF assms(2), of hash]
  have "\<not> (no_pending l \<and> skip_whitespace_and_comments hash l = set_pending (Some t) k l')" if "pragma_kind k" for k
    using eats_pending [OF e] that by (auto simp: same_pending_def no_pending_iff pragma_kind_def)
  with assms(1) e show ?thesis by (auto simp: emits_def)
qed

lemma scanned_no_pragma: "scanned hash l t l' \<Longrightarrow> \<not> pragma_kind (kind t)"
  by (drule scanned_kind) (auto simp: special_kind_def pragma_kind_def)

lemma emits_cases:
  assumes "emits hash l t l1"
  obtains (pragma) "pragma_kind (kind t)" "CHR ''#'' \<in> set (source l)"
  | (scan) l0 where "l0 = l \<or> moved hash l l0" "scanned hash l0 t l1"
      "l0 = skip_whitespace_and_comments hash l"
proof (cases "pragma_kind (kind t)")
  case True
  with emits_no_hash [OF assms] scanned_no_pragma pragma show thesis by blast
next
  case False
  with assms scan show thesis by (simp add: emits_def)
qed

lemma scanned_placed:
  assumes "scanned hash l t l'" "in_step l"
  shows "placed (source l) t (index l, index l') \<and> in_step l'"
proof -
  from assms(1) obtain s k lexeme p where s: "take (length s) (rest l) = s" "take (length p) s = p"
    "p = [] \<or> k \<in> {StrLit, CharLit, Invalid} \<and> p \<in> {''L'', ''u'', ''U'', ''u8''}"
    "make_token hash k lexeme (line (eat p l)) (column (eat p l)) (eat s l) = (t, l')"
    unfolding scanned_def by blast
  note f = make_token_fields [OF s(4)]
  have "take (length p) (rest l) = p" using s(1,2) by (metis min.commute take_take nat_le_linear take_all_iff min.absorb1)
  from in_step_at [OF in_step_eat [OF assms(2) this]] f s(3) have "placed (source l) t (index l, index l')"
    unfolding placed_def by (intro exI [of _ "length p"]) auto
  moreover have "in_step l'" using in_step_eat [OF assms(2) s(1)] f by (simp add: in_step_def)
  ultimately show ?thesis by simp
qed

lemma scanned_spells:
  assumes sc: "scanned hash l t l'" and wf: "sit_wf hash (text_table l)"
    and room: "Suc (sit_size (text_table l)) < 2 ^ 32" and last: "\<not> isdigit (last (source l))"
    and stable: "\<And>j. sit_lookup (text_table l') j \<noteq> [] \<Longrightarrow> sit_lookup texts j = sit_lookup (text_table l') j"
  shows "sit_lookup texts (text_id t) = take (index l' - index l) (drop (index l) (source l))"
proof -
  from sc obtain s k lexeme p where s: "s \<noteq> []" "take (length s) (rest l) = s"
    "lexeme = s \<or> length (rest l) = length s \<and> isdigit (last s)"
    "make_token hash k lexeme (line (eat p l)) (column (eat p l)) (eat s l) = (t, l')"
    unfolding scanned_def by blast
  have "\<not> (length (rest l) = length s \<and> isdigit (last s))"
  proof
    assume e: "length (rest l) = length s \<and> isdigit (last s)"
    with s(2) have "s = rest l" by (metis order_refl take_all)
    with s(1) have "last s = last (source l)" by (simp add: rest_def last_drop)
    with e last show False by simp
  qed
  with s(3) have "lexeme = s" by blast
  with make_token_text [OF s(4)] wf room have "sit_lookup (text_table l') (text_id t) = s" by simp
  with stable [of "text_id t"] s(1) have "sit_lookup texts (text_id t) = s" by simp
  with s(2) make_token_fields(6) [OF s(4)] show ?thesis by (simp add: rest_def)
qed

lemma steps_table:
  assumes "steps hash l l'" "sit_wf hash (text_table l)"
    "sit_size (text_table l) + (length (source l) - index l) < 2 ^ 32 - 1" "index l \<le> length (source l)"
  shows "sit_wf hash (text_table l') \<and>
    sit_size (text_table l') + (length (source l') - index l') < 2 ^ 32 - 1 \<and> index l' \<le> length (source l') \<and>
    (\<forall>j. sit_lookup (text_table l) j \<noteq> [] \<longrightarrow> sit_lookup (text_table l') j = sit_lookup (text_table l) j)"
proof -
  from assms have b: "index l \<le> index l'" "index l' \<le> length (source l)" "source l' = source l"
    and g: "grows hash (index l' - index l) (text_table l) (text_table l')"
    by (auto simp: steps_def)
  have "sit_size (text_table l) + (index l' - index l) < 2 ^ 32 - 1" using b assms(3) by simp
  with g assms(2) have "sit_wf hash (text_table l') \<and>
      sit_size (text_table l') \<le> sit_size (text_table l) + (index l' - index l) \<and>
      (\<forall>j. sit_lookup (text_table l) j \<noteq> [] \<longrightarrow> sit_lookup (text_table l') j = sit_lookup (text_table l) j)"
    unfolding grows_def by blast
  with b assms(3) show ?thesis by auto
qed

lemma spells_weaken: "spells src texts pos ts ps \<Longrightarrow> pos' \<le> pos \<Longrightarrow> spells src texts pos' ts ps"
  by (cases "(src, texts, pos, ts, ps)" rule: spells.cases) auto

lemma run_spells:
  assumes "run hash l ts l'" "sit_wf hash (text_table l)"
    "sit_size (text_table l) + (length (source l) - index l) < 2 ^ 32 - 1" "index l \<le> length (source l)"
    "\<not> isdigit (last (source l))"
    "\<And>j. sit_lookup (text_table l') j \<noteq> [] \<Longrightarrow> sit_lookup texts j = sit_lookup (text_table l') j"
  shows "\<exists>ps. spells (source l) texts (index l) ts ps \<and>
    (CHR ''#'' \<notin> set (source l) \<and> in_step l \<longrightarrow> list_all2 (placed (source l)) ts ps)"
  using assms
proof (induction rule: run.induct)
  case (run_Nil l)
  show ?case by (rule exI [of _ "[]"]) simp
next
  case (run_Cons l t l1 ts l')
  note st = emits_steps [OF run_Cons(1)] and less = emits_less [OF run_Cons(1)]
  note t1 = steps_table [OF st run_Cons.prems(1-3)]
  have src: "source l1 = source l" using st by (simp add: steps_def)
  have "\<exists>ps. spells (source l) texts (index l1) ts ps \<and>
      (CHR ''#'' \<notin> set (source l) \<and> in_step l1 \<longrightarrow> list_all2 (placed (source l)) ts ps)"
    using run_Cons.IH t1 run_Cons.prems(4,5) src by (simp del: add_diff_assoc)
  then obtain ps where ps: "spells (source l) texts (index l1) ts ps"
    and pl: "CHR ''#'' \<notin> set (source l) \<and> in_step l1 \<longrightarrow> list_all2 (placed (source l)) ts ps"
    by blast
  have b: "index l1 \<le> length (source l)" using t1 src by simp
  from run_Cons(1) consider (pragma) "pragma_kind (kind t)" "CHR ''#'' \<in> set (source l)"
    | (scan) l0 where "l0 = l \<or> moved hash l l0" "scanned hash l0 t l1"
        "l0 = skip_whitespace_and_comments hash l"
    by (rule emits_cases)
  then show ?case
  proof cases
    case pragma
    with ps b less show ?thesis by (intro exI [of _ "(index l, index l1) # ps"]) simp
  next
    case scan
    then have s0: "steps hash l l0" by (auto simp: moved_def)
    note t0 = steps_table [OF s0 run_Cons.prems(1-3)]
    have lt: "index l0 < index l1" "steps hash l0 l1" using scanned_steps [OF scan(2)] by simp_all
    have src0: "source l0 = source l" using s0 by (simp add: steps_def)
    note r1 = run_steps [OF run_Cons(2)]
    have stable: "sit_lookup texts j = sit_lookup (text_table l1) j" if "sit_lookup (text_table l1) j \<noteq> []" for j
      using steps_table [of hash l1 l'] r1 t1 that run_Cons.prems(5) [of j] by auto
    have "sit_lookup texts (text_id t) = take (index l1 - index l0) (drop (index l0) (source l0))"
      by (rule scanned_spells [OF scan(2)]) (use t0 src0 run_Cons.prems(4) stable in auto)
    moreover have "index l \<le> index l0" using s0 by (simp add: steps_def)
    moreover have "placed (source l) t (index l0, index l1) \<and> in_step l1"
      if "CHR ''#'' \<notin> set (source l)" "in_step l"
      using scanned_placed [OF scan(2)] eats_in_step [OF skip_no_hash [OF that(1), of hash] that(2)] scan(3) src0
      by simp
    ultimately show ?thesis
      using ps pl b lt src0 by (intro exI [of _ "(index l0, index l1) # ps"]) simp
  qed
qed

lemma scan_all_spells:
  assumes "length src < 2 ^ 32 - 1" "\<not> isdigit (last src)"
    and "scan_all hash (new_lexer src profile) = (ts @ [eof], l')"
  shows "\<exists>ps. spells src (text_table l') 0 ts ps \<and>
    (CHR ''#'' \<notin> set src \<and> in_step (new_lexer src profile) \<longrightarrow> list_all2 (placed src) ts ps)"
proof -
  obtain ts' l1 l2 eof' l3 where r: "scan_all hash (new_lexer src profile) = (ts' @ [eof'], l3)"
    "run hash (new_lexer src profile) ts' l1" "steps hash l1 l2" "text_table l3 = text_table l2"
    by (rule scan_all_run) blast
  with assms(3) have eq: "ts' = ts" "l' = l3" by auto
  have size: "sit_size sit_empty = 0" by (simp add: sit_size_def sit_empty_def)
  have t1: "sit_wf hash (text_table l1)" "index l1 \<le> length (source l1)"
    "sit_size (text_table l1) + (length (source l1) - index l1) < 2 ^ 32 - 1"
    using steps_table [OF conjunct1 [OF run_steps [OF r(2)]]] assms(1) size
    by (auto simp del: add_diff_assoc diff_add_assoc)
  have "sit_lookup (text_table l') j = sit_lookup (text_table l1) j"
    if "sit_lookup (text_table l1) j \<noteq> []" for j
    using steps_table [OF r(3) t1(1,3,2)] r(4) eq that by simp
  then show ?thesis
    using run_spells [OF r(2), of "text_table l'"] assms(1,2) eq size by simp
qed





section \<open>Punctuators\<close>

text \<open>The punctuators of a profile, longest first.\<close>

definition punct_rows :: "lex_profile \<Rightarrow> (string \<times> token_kind) list" where
  "punct_rows profile = [
     (''...'', Punct Ellipsis), (''<<='', COp LessLessAssign), (''>>='', COp GreaterGreaterAssign),
     (''<=>'', COp Spaceship)] @
     (if profile = LexCppSubset then [(''::'', COp ColonColon)] else []) @ [
     (''++'', COp PlusPlus), (''+='', COp PlusAssign), (''--'', COp MinusMinus),
     (''-='', COp MinusAssign), (''->'', Punct Arrow), (''*='', COp StarAssign),
     (''/='', COp SlashAssign), (''%='', COp PercentAssign), (''&&'', COp AmpAmp),
     (''&='', COp AmpAssign), (''||'', COp PipePipe), (''|='', COp PipeAssign),
     (''^='', COp CaretAssign), (''!='', COp BangEqual), (''=='', COp EqualEqual),
     (''<<'', COp LessLess), (''<='', COp LessEqual), (''>>'', COp GreaterGreater),
     (''>='', COp GreaterEqual), (''##'', COp HashHash),
     (''('', Punct LParen), ('')'', Punct RParen), (''{'', Punct LBrace), (''}'', Punct RBrace),
     (''['', Punct LBracket), ('']'', Punct RBracket), ('';'', Punct Semi), ('','', Punct Comma),
     (''~'', Op Tilde), (''?'', Op Question), ('':'', Op Colon), (''.'', Punct Dot),
     (''+'', Op Plus), (''-'', Op Minus), (''*'', Op Star), (''/'', Op Slash), (''%'', Op Percent),
     (''&'', Op Amp), (''|'', Op Pipe), (''^'', Op Caret), (''!'', Op Bang), (''='', Op Assign),
     (''<'', Op Less), (''>'', Op Greater), (''#'', Op Hash)]"

fun is_prefix :: "string \<Rightarrow> string \<Rightarrow> bool" where
  "is_prefix [] ys = True"
| "is_prefix (x # xs) [] = False"
| "is_prefix (x # xs) (y # ys) = (y = x \<and> is_prefix xs ys)"

definition longest_punct :: "lex_profile \<Rightarrow> string \<Rightarrow> (string \<times> token_kind) option" where
  "longest_punct profile r = List.find (\<lambda>(s, k). is_prefix s r) (punct_rows profile)"

lemma punct_rows_sorted: "sorted_wrt (\<lambda>a b. length (fst b) \<le> length (fst a)) (punct_rows profile)"
  by (induction profile; code_simp)

lemma find_first_maximal:
  assumes "sorted_wrt (\<lambda>a b. length (fst b) \<le> length (fst a)) rows"
    "List.find P rows = Some (s, k)" "(s', k') \<in> set rows" "P (s', k')"
  shows "length s' \<le> length s"
  using assms by (induction rows) (auto split: if_splits)

definition punct_result :: "lex_profile \<Rightarrow> string \<Rightarrow> string \<times> token_kind" where
  "punct_result profile r =
     (case longest_punct profile r of Some sk \<Rightarrow> sk | None \<Rightarrow> (take 1 r, Invalid))"

definition punct_chars :: string where
  "punct_chars = ''(){}[];,~?:.+-*/%&|^!=<>#''"

lemma punct_switch_other:
  "c \<notin> set punct_chars \<Longrightarrow> punct_switch profile c st = (Invalid, st)"
  by (simp add: punct_switch_def punct_chars_def Let_def)

lemma punct_rows_chars:
  "list_all (\<lambda>(s, k). s \<noteq> [] \<and> hd s \<in> set punct_chars \<and> NUL \<notin> set s \<and> length s \<le> 3) (punct_rows profile)"
  by (induction profile; code_simp)

lemma punct_result_other:
  assumes "c \<notin> set punct_chars"
  shows "punct_result profile (c # cs) = ([c], Invalid)"
proof -
  have "\<not> is_prefix s (c # cs)" if "(s, k) \<in> set (punct_rows profile)" for s k
    using punct_rows_chars [of profile] that assms by (cases s) (auto simp: list_all_iff)
  then have "longest_punct profile (c # cs) = None" by (auto simp: longest_punct_def find_None_iff)
  then show ?thesis by (simp add: punct_result_def)
qed

text \<open>Three characters of look-ahead decide, and a NUL stands for the end of the source.\<close>

lemma is_prefix_window:
  assumes "s \<noteq> []" "NUL \<notin> set s" "length s \<le> 3"
  shows "is_prefix s (c # cs) = is_prefix s [c, char_at cs 0, char_at cs (Suc 0)]"
proof -
  from assms(1) obtain x xs where s: "s = x # xs" by (cases s) auto
  show ?thesis
    using assms(2,3) unfolding s
    by (cases xs; cases "tl xs"; cases cs; cases "tl cs") (auto simp: char_at_def)
qed

lemma punct_result_window:
  "punct_result profile (c # cs) = punct_result profile [c, char_at cs 0, char_at cs (Suc 0)]"
proof -
  have "longest_punct profile (c # cs) = longest_punct profile [c, char_at cs 0, char_at cs (Suc 0)]"
    using punct_rows_chars [of profile] is_prefix_window [of _ c cs]
    unfolding longest_punct_def by (intro find_cong) (auto simp: list_all_iff)
  then show ?thesis by (simp add: punct_result_def split: option.split)
qed

lemmas punct_eval = punct_switch_def Let_def punct_result_def longest_punct_def punct_rows_def

lemma punct_switch_eval:
  assumes "c \<in> set punct_chars"
    and "peek (snd st) = d" "peek_next (snd st) = e"
    and "d \<noteq> NUL \<Longrightarrow> peek (snd (push st)) = e"
    and "st = ([c], f [c])" "d \<noteq> NUL \<Longrightarrow> push st = ([c, d], f [c, d])"
    and "d \<noteq> NUL \<Longrightarrow> e \<noteq> NUL \<Longrightarrow> push (push st) = ([c, d, e], f [c, d, e])"
  shows "punct_switch profile c st = (case punct_result profile [c, d, e] of (s, k) \<Rightarrow> (k, s, f s))"
  using assms
  apply (simp only: punct_chars_def list.set insert_iff empty_iff HOL.simp_thms)
  apply (elim disjE)
  apply (simp_all only:)
  apply (simp_all add: punct_eval)
  apply auto
  done

lemma is_prefix_take: "is_prefix s r \<longleftrightarrow> take (length s) r = s"
  by (induction s r rule: is_prefix.induct) auto

lemma scan_punct_result:
  assumes "rest l = c # cs" "punct_result (lexer_profile l) (c # cs) = (s, k)"
  shows "scan_punct hash l = make_token hash k s (line l) (column l) (eat s l)"
proof -
  let ?l1 = "eat [c] l" and ?d = "char_at cs 0" and ?e = "char_at cs (Suc 0)"
  have adv: "advance l = (c, ?l1)" using assms(1) by (simp add: advance_rest)
  have "punct_switch (lexer_profile l) c ([c], ?l1) = (k, s, eat s l)"
  proof (cases "c \<in> set punct_chars")
    case True
    have cs: "cs = ?d # tl cs" if "?d \<noteq> NUL" using that by (cases cs) (auto simp: char_at_def)
    have cs2: "tl cs = ?e # tl (tl cs)" if "?d \<noteq> NUL" "?e \<noteq> NUL"
      using that by (cases cs; cases "tl cs") (auto simp: char_at_def)
    have p1: "peek ?l1 = ?d" "peek_next ?l1 = ?e"
      using assms(1) by (cases cs; simp add: peek_rest peek_next_rest char_at_def)+
    have p2: "push ([c], ?l1) = ([c, ?d], eat [c, ?d] l)" if "?d \<noteq> NUL"
      using push_rest [of ?l1 ?d "tl cs" "[c]"] cs [OF that] assms(1) by (simp flip: eat_append)
    have p3: "peek (eat [c, ?d] l) = ?e" if "?d \<noteq> NUL"
      using cs [OF that] assms(1) by (cases cs; cases "tl cs") (auto simp: peek_rest char_at_def)
    have p4: "push ([c, ?d], eat [c, ?d] l) = ([c, ?d, ?e], eat [c, ?d, ?e] l)" if "?d \<noteq> NUL" "?e \<noteq> NUL"
      using push_rest [of "eat [c, ?d] l" ?e "tl (tl cs)" "[c, ?d]"] cs [OF that(1)] cs2 [OF that] assms(1)
      by (simp flip: eat_append) (metis drop0 drop_Suc)
    show ?thesis
      using punct_switch_eval [OF True, of "([c], ?l1)" ?d ?e "\<lambda>s. eat s l"] p1 p2 p3 p4 assms(2)
      by (simp add: punct_result_window [of _ c cs])
  next
    case False
    with assms(2) show ?thesis by (simp add: punct_switch_other punct_result_other)
  qed
  with adv show ?thesis by (simp add: scan_punct_def)
qed

text \<open>
  C31: punctuators are scanned by maximal munch: the token made is the first row of the profile's
  punctuator table that is a prefix of the unread text, no other row that matches is longer, and a
  character that starts no punctuator becomes an invalid token of length one.
\<close>

theorem scan_punct_maximal_munch:
  assumes "rest l = c # cs"
  shows "\<exists>s k. scan_punct hash l = make_token hash k s (line l) (column l) (eat s l) \<and>
    take (length s) (rest l) = s \<and>
    ((s, k) \<in> set (punct_rows (lexer_profile l)) \<or>
       k = Invalid \<and> s = [c] \<and> c \<notin> (hd \<circ> fst) ` set (punct_rows (lexer_profile l))) \<and>
    (\<forall>(s', k') \<in> set (punct_rows (lexer_profile l)). take (length s') (rest l) = s' \<longrightarrow> length s' \<le> length s)"
proof -
  let ?rows = "punct_rows (lexer_profile l)"
  show ?thesis
  proof (cases "longest_punct (lexer_profile l) (c # cs)")
    case None
    then have no: "\<not> is_prefix s (c # cs)" if "(s, k) \<in> set ?rows" for s k
      using that by (auto simp: longest_punct_def find_None_iff)
    have "[x] \<in> fst ` set ?rows" if "x \<in> (hd \<circ> fst) ` set ?rows" for x
    proof -
      have "list_all (\<lambda>(s, k). [hd s] \<in> fst ` set ?rows) ?rows"
        by (cases "lexer_profile l") (simp_all only:, code_simp+)
      with that show ?thesis by (auto simp: list_all_iff)
    qed
    with no have "c \<notin> (hd \<circ> fst) ` set ?rows" by fastforce
    moreover have "scan_punct hash l = make_token hash Invalid [c] (line l) (column l) (eat [c] l)"
      by (rule scan_punct_result [OF assms]) (simp add: punct_result_def None)
    ultimately show ?thesis
      using no assms by (intro exI [of _ "[c]"] exI [of _ Invalid]) (auto simp: is_prefix_take)
  next
    case (Some sk)
    obtain s k where sk: "sk = (s, k)" by fastforce
    with Some have f: "List.find (\<lambda>(s, k). is_prefix s (c # cs)) ?rows = Some (s, k)"
      by (simp add: longest_punct_def)
    then have row: "(s, k) \<in> set ?rows" "is_prefix s (c # cs)" by (auto simp: find_Some_iff in_set_conv_nth)
    have "scan_punct hash l = make_token hash k s (line l) (column l) (eat s l)"
      by (rule scan_punct_result [OF assms]) (simp add: punct_result_def Some sk)
    moreover have "length s' \<le> length s" if "(s', k') \<in> set ?rows" "is_prefix s' (c # cs)" for s' k'
      using find_first_maximal [OF punct_rows_sorted f that(1)] that(2) by simp
    ultimately show ?thesis
      using row assms by (intro exI [of _ s] exI [of _ k]) (auto simp: is_prefix_take)
  qed
qed

theorem scan_punct_maximal_munch_witness:
  "fst (scan_punct (\<lambda>_. 7) (new_lexer ''>>=1'' LexC)) =
     fst (make_token (\<lambda>_. 7) (COp GreaterGreaterAssign) ''>>='' 1 1 (new_lexer ''>>=1'' LexC))"
proof -
  let ?l = "new_lexer ''>>=1'' LexC"
  have "rest ?l = CHR ''>'' # ''>=1''" by (simp add: rest_def)
  from scan_punct_maximal_munch [OF this, of "\<lambda>_. 7"] obtain s k
    where t: "scan_punct (\<lambda>_. 7) ?l = make_token (\<lambda>_. 7) k s 1 1 (eat s ?l)"
      and row: "(s, k) \<in> set (punct_rows LexC) \<or>
        k = Invalid \<and> s = ''>'' \<and> CHR ''>'' \<notin> (hd \<circ> fst) ` set (punct_rows LexC)"
      and longest: "\<forall>(s', k') \<in> set (punct_rows LexC). take (length s') (rest ?l) = s' \<longrightarrow> length s' \<le> length s"
      and pre: "take (length s) (rest ?l) = s"
    by auto
  have "(''>>='', COp GreaterGreaterAssign) \<in> set (punct_rows LexC)" by (simp add: punct_rows_def)
  with longest have len: "3 \<le> length s" by (auto simp: rest_def)
  with row have "(s, k) \<in> set (punct_rows LexC)" by auto
  with len pre have "s = ''>>='' \<and> k = COp GreaterGreaterAssign"
    by (auto simp: punct_rows_def rest_def)
  with t show ?thesis by (simp add: make_token_def split_beta)
qed

section \<open>Identifiers and keywords\<close>

text \<open>
  An identifier-shaped word is scanned as one token, whole, of the kind the keyword table gives
  it, provided the next character does not continue the word and it is no prefix of a literal.
\<close>

theorem scan_identifier_word:
  assumes "rest l = w @ r" "w \<noteq> []" "starts_identifier (hd w)" "list_all is_ident_char w"
    and "r = [] \<or> \<not> is_ident_char (hd r)"
    and "w \<notin> {''L'', ''u'', ''U'', ''u8''} \<or> r = [] \<or> hd r \<notin> {DQ, SQ}"
  shows "scan_token hash l =
    make_token hash (keyword_from_string w True (lexer_profile l)) w (line l) (column l) (eat w l)"
proof -
  obtain c cs where w: "w = c # cs" using assms(2) by (cases w) auto
  have c: "\<not> isdigit c" "c \<noteq> CHR ''.''"
    using assms(3) w by (auto simp: starts_identifier_def isdigit_def isalpha_def code_def)
  have pk: "peek l = c" using assms(1) w by (simp add: peek_rest)
  have "takeWhile is_ident_char (w @ r) = w @ takeWhile is_ident_char r"
    using assms(4) by (intro takeWhile_append_all) (simp add: list_all_iff)
  also have "takeWhile is_ident_char r = []" using assms(5) by (cases r) auto
  finally have tw: "takeWhile is_ident_char (rest l) = w" using assms(1) by simp
  have nq: "\<not> (w \<in> {''L'', ''u'', ''U'', ''u8''} \<and> \<not> at_end (eat w l) \<and> (peek (eat w l) = DQ \<or> peek (eat w l) = SQ))"
    using assms(1,6) by (cases r) (auto simp: at_end_rest peek_rest)
  show ?thesis
    using c nq assms(3) w
    by (auto simp: scan_token_def pk scan_identifier_or_keyword_def push_while_rest tw Let_def)
qed

theorem scan_identifier_word_witness:
  "kind (fst (scan_token (\<lambda>_. 7) (new_lexer ''return x;'' LexC))) = CKw KwReturn"
proof -
  let ?l = "new_lexer ''return x;'' LexC"
  have "scan_token (\<lambda>_. 7) ?l =
      make_token (\<lambda>_. 7) (keyword_from_string ''return'' True (lexer_profile ?l)) ''return''
        (line ?l) (column ?l) (eat ''return'' ?l)"
    by (rule scan_identifier_word [where r = "'' x;''"])
      (simp_all add: rest_def starts_identifier_def is_ident_char_def isalnum_def isalpha_def isdigit_def code_def)
  moreover have "keyword_from_string ''return'' True LexC = CKw KwReturn" by code_simp
  ultimately show ?thesis by (simp add: make_token_def split_beta)
qed

section \<open>Extended float suffixes\<close>

text \<open>
  A 16-bit float suffix swallows the character behind it. After \<open>f16\<close> the pass goes on with
  the look-ahead character read before the suffix was consumed, an \<open>f\<close>, and so consumes one more
  character, whatever it is: \<open>1.0f16;\<close> is scanned as one float literal and the semicolon is lost.
\<close>

theorem f16_suffix_swallows_next:
  assumes "rest l = ''f16'' @ c # r" "c \<notin> {CHR ''b'', CHR ''B''}" "r = [] \<or> hd r \<notin> set ''bBiIjJ''"
  shows "scan_float_suffix (text, l) = (text @ ''f16'' @ [c], eat (''f16'' @ [c]) l)"
proof -
  let ?f0 = "\<lparr>seen_sz = False, seen_ext = False, seen_bf16 = False, seen_imag = False\<rparr>"
  let ?f1 = "\<lparr>seen_sz = True, seen_ext = True, seen_bf16 = False, seen_imag = False\<rparr>"
  let ?l1 = "eat (''f16'' @ [c]) l"
  have f: "List.find (\<lambda>suffix. has_suffix suffix l) ext_suffixes = Some ''f16''"
    using assms(1) by (simp add: ext_suffixes_def has_suffix_rest)
  have cs: "consume_suffix ''f16'' (text, l) = (text @ ''f16'', eat ''f16'' l)"
    using assms(1) push_pow_rest [of 3 l "text"] by (simp add: consume_suffix_def numeral_3_eq_3)
  have pu: "push (text @ ''f16'', eat ''f16'' l) = (text @ ''f16'' @ [c], ?l1)"
    using assms(1) push_rest [of "eat ''f16'' l" c r] by (simp flip: eat_append)
  have p0: "float_suffix_pass ?f0 (text, l) = (True, ?f1, text @ ''f16'' @ [c], ?l1)"
    using assms(1,2) by (simp add: float_suffix_pass_def Let_def f cs pu [simplified] peek_rest has_suffix_rest)
  have p1: "float_suffix_pass ?f1 (text @ ''f16'' @ [c], ?l1) = (False, ?f1, text @ ''f16'' @ [c], ?l1)"
    if "r \<noteq> []"
    using assms(1,3) that by (cases r) (auto simp: float_suffix_pass_def peek_rest has_suffix_rest)
  have "\<not> at_end l" "at_end ?l1 \<longleftrightarrow> r = []" using assms(1) by (simp_all add: at_end_rest)
  with p0 p1 show ?thesis
    by (cases "r = []") (simp_all add: scan_float_suffix_def numeral_eq_Suc)
qed

text \<open>A whole source on which the semicolon disappears.\<close>

theorem f16_suffix_swallows_next_witness:
  "fst (scan_float_suffix (''1.0'', eat ''1.0'' (new_lexer ''1.0f16; x'' LexC))) = ''1.0f16;'' \<and>
   map kind (fst (scan_all (\<lambda>_. 7) (new_lexer ''1.0f16; x'' LexC))) = [FloatLit, Identifier, EndOfFile]"
proof
  show "fst (scan_float_suffix (''1.0'', eat ''1.0'' (new_lexer ''1.0f16; x'' LexC))) = ''1.0f16;''"
    using f16_suffix_swallows_next [of "eat ''1.0'' (new_lexer ''1.0f16; x'' LexC)" "CHR '';''" "'' x''" "''1.0''"]
    by (simp add: rest_def)
  show "map kind (fst (scan_all (\<lambda>_. 7) (new_lexer ''1.0f16; x'' LexC))) = [FloatLit, Identifier, EndOfFile]"
    by code_simp
qed

end
