(* ===== verification/Driver_Correct.thy ===== *)
theory Driver_Correct
  imports Driver PP_Run_Returns Lexer_Correct
begin

text \<open>
  The driver: from every command line it comes to an end or hands the parser a complete token
  list; what the options mean for the macro table and the search paths.
\<close>

section \<open>The macro table of a run\<close>

lemma define_macro_wf: "macros_wf st \<Longrightarrow> macros_wf (define_macro d st)"
  by (simp add: define_macro_def Let_def object_macro_def set_macro_wf)

lemma undefine_macro_wf: "macros_wf st \<Longrightarrow> macros_wf (undefine_macro d st)"
  by (simp add: undefine_macro_def erase_macro_wf)

lemma fold_wf: "macros_wf st \<Longrightarrow> (\<And>d st. macros_wf st \<Longrightarrow> macros_wf (f d st)) \<Longrightarrow> macros_wf (fold f ds st)"
  by (induction ds arbitrary: st) simp_all

lemma add_path_wf:
  "macros_wf st \<Longrightarrow> macros_wf (add_include_path p st)" "macros_wf st \<Longrightarrow> macros_wf (add_quote_include_path p st)"
  "macros_wf st \<Longrightarrow> macros_wf (add_system_include_path p st)" "macros_wf st \<Longrightarrow> macros_wf (add_after_include_path p st)"
  by (simp_all add: add_include_path_def add_quote_include_path_def add_system_include_path_def
      add_after_include_path_def macros_wf_def known_names_def saved_names_def)

lemma configure_wf: "macros_wf st \<Longrightarrow> macros_wf (configure_preprocessor x ps st)"
  unfolding configure_preprocessor_def Let_def
  by (intro fold_wf add_path_wf define_macro_wf undefine_macro_wf)
    (simp_all add: define_macro_wf undefine_macro_wf)

lemma set_source_profile_wf: "macros_wf st \<Longrightarrow> macros_wf (set_source_profile p st)"
proof -
  assume "macros_wf st"
  then have "macros_wf (st\<lparr>profile := p\<rparr>)" by (simp add: macros_wf_def known_names_def saved_names_def)
  then show ?thesis
    unfolding set_source_profile_def Let_def
    by (cases "p = ProfileCppSubset \<or> p = ProfileC4")
      (simp_all add: fold_wf define_macro_wf erase_macro_wf del: fold.simps)
qed

lemma set_target_profile_wf:
  assumes "set_target_profile host t st = Inr st'" "macro_stack st = (\<lambda>_. [])"
  shows "macros_wf st'"
proof -
  from assms(1) obtain t' where "st' = set_source_profile (profile st) (st\<lparr>target := t', macros := init_predefined_macros Map.empty t'\<rparr>)"
    by (auto simp: set_target_profile_def Let_def split: sum.splits if_splits)
  moreover have "macros_wf (st\<lparr>target := t', macros := init_predefined_macros Map.empty t'\<rparr>)"
    using initial_state_wf [of t'] assms(2)
    by (simp add: macros_wf_def known_names_def saved_names_def initial_state_def)
  ultimately show ?thesis by (simp add: set_source_profile_wf)
qed

section \<open>The driver returns\<close>

lemma scan_all_complete:
  "\<exists>ts eof l'. scan_all hash (new_lexer src p) = (ts @ [eof], l') \<and> kind eof = EndOfFile"
  by (rule scan_all_run [of hash src p]) (auto dest: make_token_fields)

definition complete :: "driver_outcome \<Rightarrow> bool" where
  "complete r = (case r of Exit s t \<Rightarrow> True | ToParser ts l \<Rightarrow> ts \<noteq> [] \<and> kind (last ts) = EndOfFile)"

lemma lex_phase_complete: "complete (lex_phase hash x src st)"
proof -
  obtain ts eof l where "scan_all hash (new_lexer src (lex_profile_from (source_profile_from_extension (input x)))) = (ts @ [eof], l)"
    "kind eof = EndOfFile" using scan_all_complete by blast
  then show ?thesis by (simp add: lex_phase_def complete_def)
qed

definition answers :: "(nat \<Rightarrow> driver_outcome result) \<Rightarrow> bool" where
  "answers F = (\<exists>N r. (\<forall>n \<ge> N. F n = Inr r) \<and> complete r)"

lemma answers_complete: "complete r \<Longrightarrow> answers (\<lambda>n. Inr r)"
  unfolding answers_def by blast

lemma answers_exit [simp]: "answers (\<lambda>n. Inr (Exit s t))"
  by (rule answers_complete) (simp add: complete_def)

lemma answers_if: "(b \<Longrightarrow> answers F) \<Longrightarrow> (\<not> b \<Longrightarrow> answers G) \<Longrightarrow> answers (\<lambda>n. if b then F n else G n)"
  by (cases b) simp_all

lemma answers_sum:
  "(\<And>a. answers (\<lambda>n. F n a)) \<Longrightarrow> (\<And>b. answers (\<lambda>n. G n b)) \<Longrightarrow>
     answers (\<lambda>n. case s of Inl a \<Rightarrow> F n a | Inr b \<Rightarrow> G n b)"
  by (cases s) simp_all

lemma preprocess_source_settled:
  "macros_wf st \<Longrightarrow> settled wf2 (\<lambda>n. preprocess_source (at_levels n env) src path st)"
  unfolding preprocess_source_def
  by (rule settled_and_then [OF preprocess_text_settled [OF reset_run_wf]]) auto

lemma preprocessed_answers:
  assumes "macros_wf st"
  shows "answers (\<lambda>n. case preprocess_source (at_levels n env) src path st of
      Inl OutOfLevels \<Rightarrow> Inl OutOfLevels
    | Inl LineNumberOutOfRange \<Rightarrow> Inr (Exit 1 [])
    | Inr (out, st) \<Rightarrow> Inr (lex_phase hash x out st))"
proof -
  obtain N r where r: "\<forall>n \<ge> N. preprocess_source (at_levels n env) src path st = r" "r \<noteq> Inl OutOfLevels"
    using preprocess_source_settled [OF assms] unfolding settled_def by blast
  let ?k = "\<lambda>r. case r of Inl OutOfLevels \<Rightarrow> Inl OutOfLevels | Inl LineNumberOutOfRange \<Rightarrow> Inr (Exit 1 [])
    | Inr (out, st) \<Rightarrow> Inr (lex_phase hash x out st)"
  have "\<exists>r'. ?k r = Inr r' \<and> complete r'"
  proof (cases r)
    case (Inl e)
    with r(2) show ?thesis by (cases e) (auto simp: complete_def)
  next
    case (Inr y)
    then show ?thesis using lex_phase_complete by (cases y) auto
  qed
  then obtain r' where "?k r = Inr r'" "complete r'" by blast
  with r(1) show ?thesis unfolding answers_def by (intro exI [of _ N] exI [of _ r']) simp
qed

lemma front_end_answers: "answers (\<lambda>n. front_end (at_levels n env) sys hash x)"
proof (cases "new_preprocessor (env_host env)")
  case (Inl e)
  then show ?thesis by (simp add: front_end_def)
next
  case (Inr st)
  then have stack: "macro_stack st = (\<lambda>_. [])"
    by (auto simp: new_preprocessor_def initial_state_def split: sum.splits)
  let ?p = "source_profile_from_extension (input x)"
  let ?paths = "seed_default_system_include_paths sys (env_host env) ?p (opt_system_paths x)"
  show ?thesis
  proof (cases "set_target_profile (env_host env) (target_choice x) st")
    case (Inl e)
    with Inr show ?thesis by (simp add: front_end_def)
  next
    case (Inr st1)
    let ?st = "configure_preprocessor x ?paths (set_source_profile ?p st1)"
    have "macros_wf ?st" using set_target_profile_wf [OF Inr stack] by (simp add: configure_wf set_source_profile_wf)
    from preprocessed_answers [OF this] Inr \<open>new_preprocessor (env_host env) = Inr st\<close> show ?thesis
      by (cases "read_file (env_files env) (input x)") (simp_all add: front_end_def preprocess_file_def Let_def)
  qed
qed



section \<open>Options\<close>

lemma undefines_erase:
  "name \<in> set us \<or> macros st name = None \<Longrightarrow> macros (fold undefine_macro us st) name = None"
  by (induction us arbitrary: st) (auto simp: undefine_macro_def erase_macro_def)

lemma add_paths_macros [simp]:
  "macros (fold add_include_path ps st) = macros st" "macros (fold add_quote_include_path ps st) = macros st"
  "macros (fold add_system_include_path ps st) = macros st" "macros (fold add_after_include_path ps st) = macros st"
  by (induction ps arbitrary: st)
    (simp_all add: add_include_path_def add_quote_include_path_def add_system_include_path_def add_after_include_path_def)

text \<open>A name given to \<open>-U\<close> is undefined, also when a later \<open>-D\<close> defines it.\<close>

lemma undefine_wins: "name \<in> set (opt_undefines x) \<Longrightarrow> macros (configure_preprocessor x ps st) name = None"
  by (simp add: configure_preprocessor_def Let_def undefines_erase)

text \<open>\<open>-Os\<close> is only taken back by \<open>-O0\<close>.\<close>

lemma size_option_sticks:
  "map_sum id opt_size (parse_args (default_options t) [''-Os'', ''-O3'', ''a.c'']) = Inr True"
  by (simp add: parse_args.simps(2) flag_option_def value_option_def joined_option_def default_options_def)

section \<open>Search paths\<close>

text \<open>What adding a directory does to the list.\<close>

definition grows_distinct :: "operating_system \<Rightarrow> string list \<Rightarrow> string list \<Rightarrow> bool" where
  "grows_distinct sys out out' =
     (\<exists>new. out' = out @ new \<and> list_all (is_directory sys) new \<and> (distinct out \<longrightarrow> distinct out'))"

lemma paths_refl [simp]: "grows_distinct sys out out"
  by (simp add: grows_distinct_def)

lemma paths_trans: "grows_distinct sys a b \<Longrightarrow> grows_distinct sys b c \<Longrightarrow> grows_distinct sys a c"
  by (auto simp: grows_distinct_def)

lemma append_default_grows: "grows_distinct sys out (append_default_include_path sys p out)"
  by (auto simp: grows_distinct_def append_default_include_path_def)

lemma append_defaults_grow: "grows_distinct sys out (fold (append_default_include_path sys) ps out)"
proof (induction ps arbitrary: out)
  case (Cons p ps)
  show ?case using paths_trans [OF append_default_grows Cons] by simp
qed simp

lemma append_env_grows: "grows_distinct sys out (append_env_include_paths sys name out)"
  by (simp add: append_env_include_paths_def append_defaults_grow split: option.split)

lemma append_sdk_grows: "grows_distinct sys out (append_sdk_include_paths sys root out)"
  using paths_trans [OF append_default_grows append_default_grows] by (simp add: append_sdk_include_paths_def)

text \<open>
  The default system directories are added behind those of the command line, none twice, and
  only paths that are directories.
\<close>

theorem seed_paths_distinct:
  "\<exists>new. seed_default_system_include_paths sys host p out = out @ new \<and> list_all (is_directory sys) new \<and>
     (distinct out \<longrightarrow> distinct (out @ new))"
proof -
  note lists = paths_trans [OF paths_trans [OF append_env_grows append_env_grows] append_defaults_grow]
  note sdks = paths_trans [OF paths_trans [OF paths_trans [OF append_sdk_grows append_sdk_grows] append_sdk_grows]
      append_default_grows]
  have "grows_distinct sys out (seed_default_system_include_paths sys host p out)"
    using lists paths_trans [OF lists sdks] by (simp add: seed_default_system_include_paths_def Let_def del: fold.simps)
  then show ?thesis by (auto simp: grows_distinct_def)
qed

theorem seed_paths_distinct_witness:
  "\<exists>new. seed_default_system_include_paths
      \<lparr>getenv = Map.empty, is_directory = (\<lambda>p. p = ''/usr/include''), directory_entries = (\<lambda>_. [])\<rparr>
      \<lparr>host_cpu = HostX86_64, host_apple = False, host_linux = True\<rparr> ProfileC [''/opt''] = ''/opt'' # new \<and>
    distinct (''/opt'' # new)"
  using seed_paths_distinct [of "\<lparr>getenv = Map.empty, is_directory = (\<lambda>p. p = ''/usr/include''), directory_entries = (\<lambda>_. [])\<rparr>"
      "\<lparr>host_cpu = HostX86_64, host_apple = False, host_linux = True\<rparr>" ProfileC "[''/opt'']"]
  by auto

end
