(* ===== verification/Spec2Isabelle.thy ===== *)
theory Spec2Isabelle
  imports Assembler_Correct Rv64_Frame_Text Frame_Plan_Correct Frame_Slots_Correct Target_Registers_Correct Local_Name_Table Qualified_Name_Table PP_Intrinsics PP_Macro_Correct PP_Directives_Correct Driver_Correct
begin

text \<open>
  c4c is a C and C++ compiler: a driver reads the command line, the preprocessor turns a source file
  into text, the lexer into tokens, the parser, the semantic analysis and the code generators do the
  rest. At the other end the RV64 backend turns encoded code into an object file, and two small programs
  work on such files: an assembler and a disassembler. This development covers the shared tables, the
  lexer, the whole preprocessor and the driver up to the parser, the layout of stack
  frames and their RV64 code, and the object files with the programs that write and read them, function by function.

  \<^bold>\<open>Shared tables\<close> (\<open>src/src/shared\<close>). \<open>Id_Hash\<close>: packing and mixing of 32-bit ids (\<open>id_hash.hpp\<close>).
  \<open>Sequence_Map\<close>: the chained hash table over id sequences (\<open>sequence_map.hpp\<close>), whose find, insert and
  swap-remove erase refine a map. \<open>Text_Id_Table\<close>: interned texts, paths and semantic names
  (\<open>text_id_table.hpp\<close>, \<open>text_ops.hpp\<close>), an interpretation of the locale of \<open>Interner\<close>, which states
  what every interning table promises. \<open>Local_Name_Table\<close>: scoped names (\<open>local_name_table.hpp\<close>).
  \<open>Qualified_Name_Table\<close>: name paths and qualified names (\<open>qualified_name_table.hpp\<close>).

  \<^bold>\<open>Lexer\<close> (\<open>src/src/frontend/lexer\<close>). \<open>Token\<close> and \<open>Token_Names\<close>: kinds, keywords, names
  (\<open>token.hpp\<close>, \<open>token.cpp\<close>). \<open>Lexer_Cursor\<close> and \<open>Lexer\<close>: the scanner (\<open>lexer.cpp\<close>), one definition per
  method. \<open>Lexer_Correct\<close>: scanning ends, tokens spell the source and carry its positions, punctuators
  are longest matches.

  \<^bold>\<open>Profiles\<close>. \<open>Source_Profile\<close> (\<open>source_profile.hpp\<close>) and \<open>Target_Profile\<close> (\<open>target_profile.cpp\<close>): the
  dialect of a file and the target of a compilation.

  \<^bold>\<open>Preprocessor\<close> (\<open>src/src/frontend/preprocessor\<close>). \<open>PP_Text\<close>: line joining and comments
  (\<open>pp_text.cpp\<close>). \<open>PP_Intrinsics\<close>, \<open>PP_Cond\<close>: \<open>defined\<close>, the \<open>__has_\<close> intrinsics and the evaluation of
  conditions in 64 bits (\<open>pp_cond.cpp\<close>); \<open>PP_Cond_Correct\<close> proves the evaluator against the meaning of
  expression trees. \<open>PP_Macro\<close>: argument lists, stringizing, pasting, substitution
  (\<open>pp_macro_expand.cpp\<close>), with \<open>PP_Macro_Correct\<close>. \<open>PP_Predefined\<close> (\<open>pp_predefined.cpp\<close>) and
  \<open>PP_Headers\<close> (\<open>get_builtin_header\<close>): predefined macros and built-in headers. \<open>PP_State\<close>: the members of
  \<open>Preprocessor\<close>, its configuration and the pragmas. \<open>PP_Expand\<close>: macro expansion. \<open>PP_Include\<close>: search
  and include guards. \<open>PP_Directives\<close>: directives, the line loop, nested files, the entry points.
  \<open>PP_Expand_Correct\<close> shows that expansion returns; \<open>PP_Expand_Frame\<close> and \<open>PP_Run\<close> hold the locales
  \<open>expansion_relation\<close> and \<open>run_relation\<close>: a reflexive and transitive relation that the elementary
  updates respect is respected by every expansion, directive and file. Their interpretations give
  the frame of an expansion and the invariants of a run. \<open>PP_Run_Returns\<close> shows that a run returns,
  \<open>PP_Directives_Correct\<close> what directives mean.

  \<^bold>\<open>Driver\<close> (\<open>src/src/apps/c4cll.cpp\<close>). \<open>Driver\<close>: options, checks, search paths, configuration and the
  run up to the parser; \<open>Driver_Correct\<close>: every command line leads to a status or to a complete token
  list. This theory adds what a whole run guarantees of the state.

  \<^bold>\<open>Object files\<close> (\<open>src/src/backend/mir/object\<close>). \<open>Byte_Encoding\<close>: little-endian bytes. \<open>Object_Model\<close>: sections,
  symbols, labels and relocations (\<open>model.cpp\<close>); the locale \<open>named_table\<close> states how records are found by
  name and by id and is interpreted for sections and for symbols; \<open>built\<close> is the set of modules the
  operations build. \<open>Elf_Writer\<close>: the ELF image (\<open>elf_writer.cpp\<close>). \<open>Elf_Layout\<close> and \<open>Elf_Image\<close>: its parts and
  where they lie, and when the writer gives up or throws.

  \<^bold>\<open>Disassembler\<close> (\<open>src/src/apps/c4c-objdump.cpp\<close>). \<open>Objdump\<close> and \<open>Objdump_Decode\<close>: the program. \<open>Objdump_Safe\<close>: it
  reads inside its input only; the locale \<open>word_reader\<close> holds what its five readers share.
  \<open>Elf_Read_Back\<close>: it reads what the writer wrote.

  \<^bold>\<open>RV64 assembler\<close>. \<open>Rv64_Line\<close> and \<open>Rv64_Parse\<close>: one line to machine code
  (\<open>rv64_line_assembler.cpp\<close>). \<open>Rv64_Roundtrip\<close>: what the disassembler prints for an instruction assembles to
  that instruction. \<open>Rv64_Object\<close> and \<open>Rv64_Object_Correct\<close>: fragments with labels and fixups, and the object
  built from functions (\<open>object_emission.cpp\<close>). \<open>Assembler\<close>: the program \<open>c4c-as\<close>
  (\<open>src/src/apps/c4c-as.cpp\<close>); \<open>Assembler_Object\<close>: what the disassembler extracts from its object files;
  \<open>Assembler_Decode\<close>, \<open>Assembler_Correct\<close>: the code of every line the assembler accepts is decoded again,
  and every object file the assembler writes is disassembled to the instructions of its source.

  \<^bold>\<open>RV64 stack frames\<close> (\<open>src/src/backend/mir/riscv/codegen/prepared_frame_emit.cpp\<close>). \<open>Rv64_Frame\<close>: frame
  sizes and slots of a function, the code that saves and restores its registers, constants, and the
  text of 32-bit stack accesses. \<open>Rv64_Machine\<close>: what the instructions of that code do to registers and
  memory. \<open>Rv64_Frame_Correct\<close>: constants are loaded whole, an epilogue undoes its prologue, accepted
  frame sizes cover their slots. \<open>Rv64_Frame_Text\<close>: the emitted text, assembled and run, is one load or store.

  \<^bold>\<open>Layout of stack frames\<close> (\<open>src/src/backend/prealloc\<close>). \<open>Target_Registers\<close>: argument and result registers of
  the four targets, register pools and spans (\<open>target_register_profile.cpp\<close>); \<open>Target_Registers_Correct\<close>: the name
  and the physical index of an argument register agree. \<open>Frame_Slots\<close>: the slots of stack objects
  (\<open>stack_layout/slot_assignment.cpp\<close>); \<open>Frame_Slots_Correct\<close>: one slot per object, aligned, apart and inside the frame,
  for up to a million objects of less than a terabyte, bounds under which no offset wraps. \<open>Frame_Plan\<close>: the plan of each function
  (\<open>frame_plan.cpp\<close>); \<open>Frame_Plan_Correct\<close>: the plan is complete, and the RV64 prologue and epilogue emitted for it restore the
  registers of the caller. BIR, the register assignment and the addressing data enter as records of the
  fields these passes read.

  \<^bold>\<open>How the code is modelled.\<close> State is passed explicitly, in records with the fields of the classes; an
  index into a text is mostly the unread rest of it. Hash functions, the file system, the
  environment and the machine the compiler is built on are parameters. Exceptions are values: an
  unsupported triple is \<open>Inl\<close>, a file that cannot be opened \<open>None\<close>, an oversized \<open>#line\<close> number
  \<open>LineNumberOutOfRange\<close>. 32- and 64-bit ids, hashes and condition values are words; line numbers,
  the counter and the line offset, \<open>int\<close> in the code, are unbounded. Two flags have no counterpart in
  the code: \<open>undefined_behaviour\<close> records signed overflow in a condition, \<open>stale_reference\<close> that a
  macro definition was replaced while the code still held a reference to it. Where one of them is
  set the behaviour of the code is undefined and the model's result says nothing about it.
  References into the vectors of an object module are positions, offsets and sizes in an image are
  64-bit words, \<open>std::unordered_map::at\<close> on a missing key is \<open>OutOfRange\<close> and a read past the end of a
  file is \<open>OutOfBounds\<close>.

  \<^bold>\<open>Bounds.\<close> The condition parser counts its nested calls against one more than the length of the text,
  which is proved to suffice. Macro expansion takes the depth of nested calls as a parameter,
  \<open>env_levels\<close>; there is no bound that depends on the text alone, so the theorems state that from
  some depth on the result is fixed and is never the value for a bound too small. File nesting is
  limited to 200 by the code itself. All other loops are total functions. The theorems on images ask
  for less than \<open>2 ^ 32\<close> bytes, fewer than \<open>2 ^ 16\<close> section headers and alignments of at most \<open>2 ^ 32\<close>: name
  offsets, section indices and counts have these widths in the file format.

  \<^bold>\<open>Not modelled.\<close> The parser, semantic analysis, HIR, LIR, BIR, register allocation and the selection of
  machine code, which work on syntax trees and intermediate representations that are not modelled;
  \<open>preprocess_external\<close> and \<open>run_capture\<close>, which start other programs and are called by nothing; the arena;
  the wording of messages on the error stream; the build of \<open>c4c-as\<close> without the backend.
\<close>

section \<open>A whole run\<close>

lemma preprocess_source_state:
  assumes "new_preprocessor host = Inr st" "preprocess_source env src filename st = Inr (out, st')"
  shows "macros_wf st'" "stack_ok (cond_stack st')"
proof -
  from assms(2) obtain t where run: "preprocess_text env 0 src filename (reset_run filename st) = Inr (t, st')"
    unfolding preprocess_source_def by (auto dest!: and_then_InrD)
  from assms(1) have "macros_wf st" by (auto simp: new_preprocessor_def initial_state_wf split: sum.splits)
  with wf.preprocess_text_rel [OF run] reset_run_wf show "macros_wf st'" by (simp add: keeps_wf_def)
  have "cond_stack (reset_run filename st) = []" by (simp add: reset_run_def set_macro_def)
  with stack.preprocess_text_rel [OF run] show "stack_ok (cond_stack st')" by (simp add: keeps_stack_def)
qed

text \<open>
  C34: whatever a freshly constructed preprocessor reads, the state it ends in is well formed: every
  macro is stored under its own name, every saved definition belongs to the name it was saved for,
  finitely many names are known, and the conditional stack is nested.
\<close>

theorem run_tables_wellformed:
  assumes "new_preprocessor host = Inr st" "preprocess_source env src filename st = Inr (out, st')"
  shows "(macros st' name = Some d \<longrightarrow> macro_name d = name) \<and> finite (dom (macros st')) \<and>
    macros_wf st' \<and> stack_ok (cond_stack st')"
proof -
  note wf = preprocess_source_state [OF assms]
  have "dom (macros st') \<subseteq> known_names st'" by (auto simp: known_names_def)
  with wf macros_wf_finite macros_wf_name show ?thesis by (blast intro: finite_subset)
qed

theorem run_tables_wellformed_witness:
  "macros_wf (reset_run ''a.c'' (initial_state linux_target))"
proof -
  let ?host = "\<lparr>host_cpu = HostX86_64, host_apple = False, host_linux = True\<rparr>"
  have new: "new_preprocessor ?host = Inr (initial_state linux_target)"
  proof -
    have "host_profile ?host = Inr linux_target" by code_simp
    then show ?thesis by (simp add: new_preprocessor_def)
  qed
  let ?st = "reset_run ''a.c'' (initial_state linux_target)"
  have "preprocess_source (plain_env 0) [] ''a.c'' (initial_state linux_target) =
      Inr (line_marker 1 ''a.c'' [], ?st\<lparr>virtual_line_offset := virtual_line_offset ?st, virtual_file := virtual_file ?st\<rparr>)"
    by (simp add: preprocess_source_def preprocess_text.simps strip_comments_def)
  from run_tables_wellformed [OF new this] show ?thesis by simp
qed

end
